(* ===== verification/Prelude.thy ===== *)
theory Prelude
  imports Complex_Main "HOL-Library.AList" "HOL-Library.List_Lexorder" "HOL-Library.Char_ord"
begin

text \<open>
  Shared vocabulary of the development: the exceptions the Python sources raise, the result
  type of fallible code, Python dictionaries as insertion-ordered association lists, and the
  generic lemmas on them that the component theories use.
\<close>

named_theorems result_simps \<open>how the result combinators compute\<close>
named_theorems dict_simps \<open>lookup after an update of a dictionary\<close>

section \<open>Exceptions as values\<close>

text \<open>
  One constructor per exception class raised by the modelled code. The argument is the
  message; an f-string that prints a value keeps only its constant part, except where the
  printed value is itself a string. \<open>Unmodelled\<close> is not an exception of the
  program: it marks the few inputs on which the model does not compute the text of a value
  (\<open>str\<close> of a float or a container).
\<close>

datatype py_error =
    ValueError string
  | KeyError string
  | TypeError string
  | CommitConflict string
  | IdempotencyConflict string
  | SchedulerOwnershipError string
  | TransitionError string
  | OverflowError string
  | LogCorruption string
  | LogWriteError string
  | SessionSealedError string
  | SessionFailedError string
  | IndexError string
  | RecursionError string
  | OSError string
  | Unmodelled string

type_synonym 'a result = "py_error + 'a"

definition bind_r :: "'a result \<Rightarrow> ('a \<Rightarrow> 'b result) \<Rightarrow> 'b result" where
  "bind_r m f = (case m of Inl e \<Rightarrow> Inl e | Inr x \<Rightarrow> f x)"

lemma bind_r_Inl [simp, result_simps]: "bind_r (Inl e) f = Inl e"
  by (simp add: bind_r_def)

lemma bind_r_Inr [simp, result_simps]: "bind_r (Inr x) f = f x"
  by (simp add: bind_r_def)

lemma bind_r_eq_Inr [simp]: "bind_r m f = Inr y \<longleftrightarrow> (\<exists>x. m = Inr x \<and> f x = Inr y)"
  by (auto simp: bind_r_def split: sum.splits)

lemma bind_r_eq_Inl: "bind_r m f = Inl e \<longleftrightarrow> m = Inl e \<or> (\<exists>x. m = Inr x \<and> f x = Inl e)"
  by (auto simp: bind_r_def split: sum.splits)

definition raise_if :: "bool \<Rightarrow> py_error \<Rightarrow> unit result" where
  "raise_if b e = (if b then Inl e else Inr ())"

lemma raise_if_simps [simp, result_simps]:
  "raise_if True e = Inl e" "raise_if False e = Inr ()"
  by (simp_all add: raise_if_def)

lemma if_Inl_Inr [simp]: "(if b then Inl e else r) = Inr x \<longleftrightarrow> \<not> b \<and> r = Inr x"
  by simp

lemma raise_if_Inr [simp]: "raise_if b e = Inr u \<longleftrightarrow> \<not> b"
  by (simp add: raise_if_def)

text \<open>A \<open>for\<close> loop whose body only validates: the first exception ends it.\<close>

fun check_each :: "('a \<Rightarrow> unit result) \<Rightarrow> 'a list \<Rightarrow> unit result" where
  "check_each f [] = Inr ()"
| "check_each f (x # xs) = bind_r (f x) (\<lambda>_. check_each f xs)"

lemma check_each_Inr [simp]: "check_each f xs = Inr u \<longleftrightarrow> (\<forall>x\<in>set xs. f x = Inr ())"
  by (induction xs) auto

text \<open>A comprehension whose element expression may raise.\<close>

fun map_r :: "('a \<Rightarrow> 'b result) \<Rightarrow> 'a list \<Rightarrow> 'b list result" where
  "map_r f [] = Inr []"
| "map_r f (x # xs) = bind_r (f x) (\<lambda>y. bind_r (map_r f xs) (\<lambda>ys. Inr (y # ys)))"

lemma map_r_Inr: "map_r f xs = Inr ys \<longleftrightarrow> list_all2 (\<lambda>x y. f x = Inr y) xs ys"
  by (induction xs arbitrary: ys) (auto simp: list_all2_Cons1)

lemma map_r_total: "\<forall>x\<in>set xs. f x = Inr (g x) \<Longrightarrow> map_r f xs = Inr (map g xs)"
  by (induction xs) auto

text \<open>
  Code that changes a state and may raise: an exception keeps what was written before it.
\<close>

type_synonym ('s, 'a) action = "'s \<Rightarrow> 'a result \<times> 's"

definition bind_s :: "('s, 'a) action \<Rightarrow> ('a \<Rightarrow> ('s, 'b) action) \<Rightarrow> ('s, 'b) action" where
  "bind_s m f s = (case m s of (Inl e, s') \<Rightarrow> (Inl e, s') | (Inr x, s') \<Rightarrow> f x s')"

definition return_s :: "'a \<Rightarrow> ('s, 'a) action" where
  "return_s x s = (Inr x, s)"

definition modify_s :: "('s \<Rightarrow> 's) \<Rightarrow> ('s, unit) action" where
  "modify_s f s = (Inr (), f s)"

text \<open>A computation that only reads the state.\<close>

definition read_s :: "('s \<Rightarrow> 'a result) \<Rightarrow> ('s, 'a) action" where
  "read_s f s = (f s, s)"

fun each_s :: "('a \<Rightarrow> ('s, unit) action) \<Rightarrow> 'a list \<Rightarrow> ('s, unit) action" where
  "each_s f [] = return_s ()"
| "each_s f (x # xs) = bind_s (f x) (\<lambda>_. each_s f xs)"

lemma return_s_apply [simp, result_simps]: "return_s x s = (Inr x, s)"
  by (simp add: return_s_def)

lemma modify_s_apply [simp, result_simps]: "modify_s f s = (Inr (), f s)"
  by (simp add: modify_s_def)

lemma bind_modify_s [simp, result_simps]: "bind_s (modify_s f) g s = g () (f s)"
  by (simp add: bind_s_def)

lemma bind_return_s [simp, result_simps]: "bind_s (return_s x) g s = g x s"
  by (simp add: bind_s_def)

lemma bind_read_s [simp, result_simps]:
  "bind_s (read_s f) g s = (case f s of Inl e \<Rightarrow> (Inl e, s) | Inr x \<Rightarrow> g x s)"
  by (simp add: bind_s_def read_s_def split: sum.splits)

text \<open>
  Invariants of actions: \<open>keeps I m\<close> says that \<open>m\<close> preserves \<open>I\<close> whether it returns
  or raises.
\<close>

definition keeps :: "('s \<Rightarrow> bool) \<Rightarrow> ('s, 'a) action \<Rightarrow> bool" where
  "keeps I m = (\<forall>s. I s \<longrightarrow> I (snd (m s)))"

lemma keepsI [intro]: "(\<And>s. I s \<Longrightarrow> I (snd (m s))) \<Longrightarrow> keeps I m"
  by (simp add: keeps_def)

lemma keepsD: "keeps I m \<Longrightarrow> I s \<Longrightarrow> I (snd (m s))"
  by (simp add: keeps_def)

lemma keeps_return [simp]: "keeps I (return_s x)"
  by (simp add: keeps_def)

lemma keeps_read [simp]: "keeps I (read_s f)"
  by (simp add: keeps_def read_s_def)

lemma keeps_modify: "keeps I (modify_s f) \<longleftrightarrow> (\<forall>s. I s \<longrightarrow> I (f s))"
  by (simp add: keeps_def)

lemma keeps_bind: "keeps I m \<Longrightarrow> (\<And>x. keeps I (f x)) \<Longrightarrow> keeps I (bind_s m f)"
  by (auto simp: keeps_def bind_s_def split: prod.splits sum.splits)

lemma keeps_each: "(\<And>x. x \<in> set xs \<Longrightarrow> keeps I (f x)) \<Longrightarrow> keeps I (each_s f xs)"
  by (induction xs) (auto intro!: keeps_bind)

section \<open>Dictionaries\<close>

text \<open>
  A Python \<open>dict\<close> keeps insertion order: assignment to a present key updates it in
  place, to an absent key appends; this is \<open>AList.update\<close>. \<open>pop(k, None)\<close> is
  \<open>AList.delete\<close>.
\<close>

type_synonym ('k, 'v) dict = "('k \<times> 'v) list"

definition dset :: "'k \<Rightarrow> 'v \<Rightarrow> ('k, 'v) dict \<Rightarrow> ('k, 'v) dict" where
  "dset k v d = AList.update k v d"

definition dpop :: "'k \<Rightarrow> ('k, 'v) dict \<Rightarrow> ('k, 'v) dict" where
  "dpop k d = AList.delete k d"

definition dkeys :: "('k, 'v) dict \<Rightarrow> 'k list" where
  "dkeys d = map fst d"

definition dvalues :: "('k, 'v) dict \<Rightarrow> 'v list" where
  "dvalues d = map snd d"

definition has_key :: "'k \<Rightarrow> ('k, 'v) dict \<Rightarrow> bool" where
  "has_key k d = (map_of d k \<noteq> None)"

text \<open>Assignments of a whole list of pairs, in order (\<open>d.update(pairs)\<close>).\<close>

fun dupdate :: "('k \<times> 'v) list \<Rightarrow> ('k, 'v) dict \<Rightarrow> ('k, 'v) dict" where
  "dupdate [] d = d"
| "dupdate (p # ps) d = dupdate ps (dset (fst p) (snd p) d)"

lemma map_of_dset [simp, dict_simps]: "map_of (dset k v d) = (map_of d)(k \<mapsto> v)"
  by (simp add: dset_def update_conv')

lemma map_of_dpop [simp, dict_simps]: "map_of (dpop k d) = (map_of d)(k := None)"
  by (simp add: dpop_def delete_conv')

lemma dset_keys: "dkeys (dset k v d) = (if k \<in> set (dkeys d) then dkeys d else dkeys d @ [k])"
  by (simp add: dkeys_def dset_def update_keys)

lemma set_dkeys_dset [simp]: "set (dkeys (dset k v d)) = insert k (set (dkeys d))"
  by (auto simp: dset_keys)

lemma distinct_dkeys_dset [simp]: "distinct (dkeys d) \<Longrightarrow> distinct (dkeys (dset k v d))"
  by (simp add: dset_keys)

lemma distinct_dkeys_dpop [simp]: "distinct (dkeys d) \<Longrightarrow> distinct (dkeys (dpop k d))"
  by (simp add: dkeys_def dpop_def distinct_delete)

lemma dkeys_eq_dom: "set (dkeys d) = dom (map_of d)"
  by (simp add: dkeys_def dom_map_of_conv_image_fst)

lemma has_key_iff: "has_key k d \<longleftrightarrow> k \<in> set (dkeys d)"
  by (auto simp: has_key_def dkeys_eq_dom)

lemma has_key_dset [simp]: "has_key k (dset k' v d) \<longleftrightarrow> k = k' \<or> has_key k d"
  by (auto simp: has_key_def)

lemma has_key_Nil [simp]: "\<not> has_key k []"
  by (simp add: has_key_def)

lemma dict_mem_iff:
  "distinct (dkeys d) \<Longrightarrow> (k, v) \<in> set d \<longleftrightarrow> map_of d k = Some v"
  by (simp add: dkeys_def)

lemma dvalues_mem:
  "distinct (dkeys d) \<Longrightarrow> v \<in> set (dvalues d) \<longleftrightarrow> (\<exists>k. map_of d k = Some v)"
  unfolding dvalues_def by (auto simp: dkeys_def image_iff) (metis snd_conv)

lemma map_of_dupdate: "map_of (dupdate ps d) k = (case map_of (rev ps) k of None \<Rightarrow> map_of d k | Some v \<Rightarrow> Some v)"
  by (induction ps arbitrary: d) (auto simp: map_add_def split: option.splits)

lemma distinct_dkeys_dupdate [simp]: "distinct (dkeys d) \<Longrightarrow> distinct (dkeys (dupdate ps d))"
  by (induction ps arbitrary: d) auto

section \<open>Searching\<close>

text \<open>
  \<open>next((x for x in xs if P x), None)\<close> is \<open>List.find\<close>; \<open>any\<close> and
  \<open>all\<close> are \<open>list_ex\<close> and \<open>list_all\<close>.
\<close>

lemma find_Some_mem: "List.find P xs = Some x \<Longrightarrow> x \<in> set xs \<and> P x"
  by (auto simp: find_Some_iff)

lemma find_None_all: "List.find P xs = None \<longleftrightarrow> (\<forall>x\<in>set xs. \<not> P x)"
  by (auto simp: find_None_iff)

text \<open>Position of the first element that satisfies the predicate.\<close>

fun find_index :: "('a \<Rightarrow> bool) \<Rightarrow> 'a list \<Rightarrow> nat option" where
  "find_index P [] = None"
| "find_index P (x # xs) = (if P x then Some 0 else map_option Suc (find_index P xs))"

lemma find_index_Some: "find_index P xs = Some i \<Longrightarrow> i < length xs \<and> P (xs ! i)"
  by (induction xs arbitrary: i) (auto split: if_splits)

lemma find_index_None: "find_index P xs = None \<longleftrightarrow> (\<forall>x\<in>set xs. \<not> P x)"
  by (induction xs) auto

end
