(* ===== verification/Py_Value.thy ===== *)
theory Py_Value
  imports Prelude
begin

text \<open>
  The JSON-like Python values that flow through durable payloads, checkpoints and operation
  records, with the operations of \<^verbatim>\<open>codey/durable/model.py\<close> that freeze, thaw
  and validate them, and the Python primitives the code applies to them: truth value,
  equality, \<open>get\<close>, \<open>str\<close>, \<open>int\<close>, \<open>strip\<close>.
\<close>

named_theorems py_simps \<open>how the Python primitives compute\<close>

section \<open>Values\<close>

text \<open>
  \<open>PDict\<close> is a \<open>dict\<close>, \<open>PProxy\<close> a \<open>MappingProxyType\<close> over a dict
  (both are \<open>Mapping\<close>s), \<open>PList\<close> and \<open>PTuple\<close> the two sequences. A
  finite float is an exact rational; \<open>PNonFinite\<close> stands for NaN and the
  infinities, \<open>POpaque\<close> for any object that is none of these. Keys of mappings are
  strings, as the annotations \<open>Mapping[str, object]\<close> say.
\<close>

datatype pyval =
    PNone
  | PBool bool
  | PInt int
  | PFloat rat
  | PNonFinite
  | PStr string
  | PList "pyval list"
  | PTuple "pyval list"
  | PDict "(string \<times> pyval) list"
  | PProxy "(string \<times> pyval) list"
  | POpaque

type_synonym jobj = "(string, pyval) dict"

fun as_mapping :: "pyval \<Rightarrow> jobj option" where
  "as_mapping (PDict d) = Some d"
| "as_mapping (PProxy d) = Some d"
| "as_mapping _ = None"

fun as_sequence :: "pyval \<Rightarrow> pyval list option" where
  "as_sequence (PList xs) = Some xs"
| "as_sequence (PTuple xs) = Some xs"
| "as_sequence _ = None"

fun as_str :: "pyval \<Rightarrow> string option" where
  "as_str (PStr s) = Some s"
| "as_str _ = None"

definition is_mapping :: "pyval \<Rightarrow> bool" where
  "is_mapping v = (as_mapping v \<noteq> None)"

definition is_str :: "pyval \<Rightarrow> bool" where
  "is_str v = (as_str v \<noteq> None)"

text \<open>\<open>isinstance(v, str) and v\<close>: a string that is not empty.\<close>

definition nonempty_str :: "pyval \<Rightarrow> bool" where
  "nonempty_str v = (case v of PStr s \<Rightarrow> s \<noteq> [] | _ \<Rightarrow> False)"

text \<open>\<open>type(v) is int\<close>, which a bool does not satisfy, and \<open>type(v) is bool\<close>.\<close>

fun as_int :: "pyval \<Rightarrow> int option" where
  "as_int (PInt n) = Some n"
| "as_int _ = None"

fun as_bool :: "pyval \<Rightarrow> bool option" where
  "as_bool (PBool b) = Some b"
| "as_bool _ = None"

text \<open>\<open>d.get(k, default)\<close> and \<open>d.get(k)\<close>.\<close>

definition pget_default :: "jobj \<Rightarrow> string \<Rightarrow> pyval \<Rightarrow> pyval" where
  "pget_default d k v = (case map_of d k of None \<Rightarrow> v | Some w \<Rightarrow> w)"

definition pget :: "jobj \<Rightarrow> string \<Rightarrow> pyval" where
  "pget d k = pget_default d k PNone"

text \<open>The truth value of a Python object.\<close>

fun truthy :: "pyval \<Rightarrow> bool" where
  "truthy PNone = False"
| "truthy (PBool b) = b"
| "truthy (PInt n) = (n \<noteq> 0)"
| "truthy (PFloat q) = (q \<noteq> 0)"
| "truthy PNonFinite = True"
| "truthy (PStr s) = (s \<noteq> [])"
| "truthy (PList xs) = (xs \<noteq> [])"
| "truthy (PTuple xs) = (xs \<noteq> [])"
| "truthy (PDict d) = (d \<noteq> [])"
| "truthy (PProxy d) = (d \<noteq> [])"
| "truthy POpaque = True"

text \<open>Reading a value of one kind, everything else being an error.\<close>

lemma read_value_Inr:
  "(case v of PInt n \<Rightarrow> f n | _ \<Rightarrow> Inl e) = Inr x \<longleftrightarrow> (\<exists>n. v = PInt n \<and> f n = Inr x)"
  "(case v of PStr t \<Rightarrow> g t | _ \<Rightarrow> Inl e) = Inr x \<longleftrightarrow> (\<exists>t. v = PStr t \<and> g t = Inr x)"
  "(case v of PBool b \<Rightarrow> h b | _ \<Rightarrow> Inl e) = Inr x \<longleftrightarrow> (\<exists>b. v = PBool b \<and> h b = Inr x)"
  "(case v of PList xs \<Rightarrow> k xs | _ \<Rightarrow> Inl e) = Inr x \<longleftrightarrow> (\<exists>xs. v = PList xs \<and> k xs = Inr x)"
  "(case v of PDict d \<Rightarrow> m d | _ \<Rightarrow> Inl e) = Inr x \<longleftrightarrow> (\<exists>d. v = PDict d \<and> m d = Inr x)"
  by (cases v; auto)+

section \<open>Equality\<close>

text \<open>
  Python's \<open>==\<close>: bools, ints and floats compare as numbers; a list never equals a
  tuple; mappings compare by content whatever their order and wrapper. NaN and opaque
  objects are never equal here (an opaque object is compared only with itself through
  \<open>is\<close>, which no modelled comparison relies on).
\<close>

fun as_number :: "pyval \<Rightarrow> rat option" where
  "as_number (PBool b) = Some (if b then 1 else 0)"
| "as_number (PInt n) = Some (of_int n)"
| "as_number (PFloat q) = Some q"
| "as_number _ = None"

lemma size_list_mem [termination_simp]: "(x, y) \<in> set (zip xs ys) \<Longrightarrow> size x < Suc (size_list size xs)"
  by (metis in_set_zipE less_Suc_eq_le order_refl size_list_estimation')

lemma size_dict_mem [termination_simp]:
  "(k, v) \<in> set d \<Longrightarrow> size v < Suc (size_list (size_prod (\<lambda>x. 0) size) d)"
proof (induction d)
  case (Cons p d)
  then show ?case by (cases p) auto
qed simp

lemma size_seq_mem: "x \<in> set xs \<Longrightarrow> size x < Suc (size_list size xs)"
  by (simp add: size_list_estimation' less_Suc_eq_le)

function py_eq :: "pyval \<Rightarrow> pyval \<Rightarrow> bool" where
  "py_eq v w =
     (case v of
        PNone \<Rightarrow> w = PNone
      | PStr s \<Rightarrow> w = PStr s
      | PList xs \<Rightarrow>
          (case w of
             PList ys \<Rightarrow> length xs = length ys \<and> list_all (\<lambda>(x, y). py_eq x y) (zip xs ys)
           | _ \<Rightarrow> False)
      | PTuple xs \<Rightarrow>
          (case w of
             PTuple ys \<Rightarrow> length xs = length ys \<and> list_all (\<lambda>(x, y). py_eq x y) (zip xs ys)
           | _ \<Rightarrow> False)
      | PDict d \<Rightarrow>
          (case as_mapping w of
             Some d' \<Rightarrow> length d = length d' \<and>
               list_all (\<lambda>(k, x). case map_of d' k of None \<Rightarrow> False | Some y \<Rightarrow> py_eq x y) d
           | None \<Rightarrow> False)
      | PProxy d \<Rightarrow>
          (case as_mapping w of
             Some d' \<Rightarrow> length d = length d' \<and>
               list_all (\<lambda>(k, x). case map_of d' k of None \<Rightarrow> False | Some y \<Rightarrow> py_eq x y) d
           | None \<Rightarrow> False)
      | _ \<Rightarrow> (case as_number v of None \<Rightarrow> False | Some a \<Rightarrow> as_number w = Some a))"
  by pat_completeness auto
termination
  by (relation "measure (\<lambda>(v, w). size v)") (auto simp: termination_simp)

declare py_eq.simps [simp del]

definition obj_eq :: "jobj \<Rightarrow> jobj \<Rightarrow> bool" where
  "obj_eq a b = py_eq (PDict a) (PDict b)"

lemma py_eq_scalar [simp, py_simps]:
  "py_eq PNone w = (w = PNone)"
  "py_eq (PStr s) w = (w = PStr s)"
  "py_eq (PBool b) w = (as_number w = Some (if b then 1 else 0))"
  "py_eq (PInt n) w = (as_number w = Some (of_int n))"
  "py_eq (PFloat q) w = (as_number w = Some q)"
  "py_eq PNonFinite w = False"
  "py_eq POpaque w = False"
  by (simp_all add: py_eq.simps)

lemma py_eq_int [simp]: "py_eq (PInt a) (PInt b) = (a = b)"
  by auto

lemma py_eq_str_right [simp]: "py_eq v (PStr s) = (v = PStr s)"
  by (cases v) (auto simp: py_eq.simps)

lemma py_eq_none_right [simp]: "py_eq v PNone = (v = PNone)"
  by (cases v) (auto simp: py_eq.simps)

lemma py_eq_list [simp, py_simps]:
  "py_eq (PList xs) w = (case w of
     PList ys \<Rightarrow> length xs = length ys \<and> list_all (\<lambda>(x, y). py_eq x y) (zip xs ys) | _ \<Rightarrow> False)"
  "py_eq (PTuple xs) w = (case w of
     PTuple ys \<Rightarrow> length xs = length ys \<and> list_all (\<lambda>(x, y). py_eq x y) (zip xs ys) | _ \<Rightarrow> False)"
  by (subst py_eq.simps, simp)+

lemma py_eq_dict [simp, py_simps]:
  "py_eq (PDict d) w = (case as_mapping w of None \<Rightarrow> False
     | Some d' \<Rightarrow> length d = length d' \<and>
         list_all (\<lambda>(k, x). case map_of d' k of None \<Rightarrow> False | Some y \<Rightarrow> py_eq x y) d)"
  "py_eq (PProxy d) w = (case as_mapping w of None \<Rightarrow> False
     | Some d' \<Rightarrow> length d = length d' \<and>
         list_all (\<lambda>(k, x). case map_of d' k of None \<Rightarrow> False | Some y \<Rightarrow> py_eq x y) d)"
  by (subst py_eq.simps, simp)+

section \<open>Freezing, thawing and validating\<close>

text \<open>
  \<open>_freeze_json\<close> turns mappings into proxies and lists into tuples, \<open>thaw_json\<close>
  turns mappings into dicts and tuples into lists. Neither looks inside the sequence it
  does not convert: freezing stops at a tuple, thawing at a list.
\<close>

fun freeze_json :: "pyval \<Rightarrow> pyval" where
  "freeze_json (PDict d) = PProxy (map (\<lambda>(k, v). (k, freeze_json v)) d)"
| "freeze_json (PProxy d) = PProxy (map (\<lambda>(k, v). (k, freeze_json v)) d)"
| "freeze_json (PList xs) = PTuple (map freeze_json xs)"
| "freeze_json v = v"

fun thaw_json :: "pyval \<Rightarrow> pyval" where
  "thaw_json (PDict d) = PDict (map (\<lambda>(k, v). (k, thaw_json v)) d)"
| "thaw_json (PProxy d) = PDict (map (\<lambda>(k, v). (k, thaw_json v)) d)"
| "thaw_json (PTuple xs) = PList (map thaw_json xs)"
| "thaw_json v = v"

definition freeze_obj :: "jobj \<Rightarrow> jobj" where
  "freeze_obj d = map (\<lambda>(k, v). (k, freeze_json v)) d"

definition thaw_obj :: "jobj \<Rightarrow> jobj" where
  "thaw_obj d = map (\<lambda>(k, v). (k, thaw_json v)) d"

text \<open>
  \<open>json.dumps(value, allow_nan=False)\<close> succeeds: it takes dicts, lists and tuples
  of scalars, and refuses NaN, the infinities and every other object, a
  \<open>MappingProxyType\<close> included.
\<close>

fun dumps_ok :: "pyval \<Rightarrow> bool" where
  "dumps_ok PNonFinite = False"
| "dumps_ok POpaque = False"
| "dumps_ok (PProxy d) = False"
| "dumps_ok (PDict d) = list_all (\<lambda>(k, v). dumps_ok v) d"
| "dumps_ok (PList xs) = list_all dumps_ok xs"
| "dumps_ok (PTuple xs) = list_all dumps_ok xs"
| "dumps_ok _ = True"

definition validate_json :: "pyval \<Rightarrow> unit result" where
  "validate_json v =
     raise_if (\<not> dumps_ok v) (ValueError ''durable payload must contain strict JSON values'')"

text \<open>The three steps every record constructor applies to a mapping argument.\<close>

definition canonical_obj :: "jobj \<Rightarrow> jobj result" where
  "canonical_obj d =
     bind_r (validate_json (PDict (thaw_obj d))) (\<lambda>_. Inr (freeze_obj (thaw_obj d)))"

definition canonical_opt :: "jobj option \<Rightarrow> jobj option result" where
  "canonical_opt x =
     (case x of None \<Rightarrow> Inr None | Some d \<Rightarrow> bind_r (canonical_obj d) (\<lambda>d'. Inr (Some d')))"

text \<open>
  Values with dict and list only, as \<open>json.loads\<close> returns them, and fully frozen
  ones; the keys of a Python mapping are distinct.
\<close>

fun plain_json :: "pyval \<Rightarrow> bool" where
  "plain_json PNonFinite = False"
| "plain_json POpaque = False"
| "plain_json (PProxy d) = False"
| "plain_json (PTuple xs) = False"
| "plain_json (PDict d) = (distinct (map fst d) \<and> list_all (\<lambda>(k, v). plain_json v) d)"
| "plain_json (PList xs) = list_all plain_json xs"
| "plain_json _ = True"

fun frozen_json :: "pyval \<Rightarrow> bool" where
  "frozen_json PNonFinite = False"
| "frozen_json POpaque = False"
| "frozen_json (PDict d) = False"
| "frozen_json (PList xs) = False"
| "frozen_json (PProxy d) = (distinct (map fst d) \<and> list_all (\<lambda>(k, v). frozen_json v) d)"
| "frozen_json (PTuple xs) = list_all frozen_json xs"
| "frozen_json _ = True"

lemma map_pair_id: "(\<And>k v. (k, v) \<in> set d \<Longrightarrow> f v = v) \<Longrightarrow> map (\<lambda>(k, v). (k, f v)) d = d"
  by (induction d) auto

lemma thaw_freeze_plain: "plain_json v \<Longrightarrow> thaw_json (freeze_json v) = v"
  by (induction v rule: plain_json.induct)
     (auto simp: list_all_iff case_prod_beta intro!: map_idI)

lemma freeze_thaw_frozen: "frozen_json v \<Longrightarrow> freeze_json (thaw_json v) = v"
  by (induction v rule: frozen_json.induct)
     (auto simp: list_all_iff case_prod_beta intro!: map_idI)

lemma map_fst_map_snd [simp]: "map (fst \<circ> (\<lambda>(k, v). (k, f v))) d = map fst d"
  by (induction d) auto

lemma frozen_freeze_plain: "plain_json v \<Longrightarrow> frozen_json (freeze_json v)"
  by (induction v rule: plain_json.induct) (auto simp: list_all_iff)

lemma plain_thaw_frozen: "frozen_json v \<Longrightarrow> plain_json (thaw_json v)"
  by (induction v rule: frozen_json.induct) (auto simp: list_all_iff)

lemma plain_dumps_ok: "plain_json v \<Longrightarrow> dumps_ok v"
  by (induction v rule: plain_json.induct) (auto simp: list_all_iff)

lemma dumps_ok_thaw: "dumps_ok v \<Longrightarrow> dumps_ok (thaw_json v)"
  by (induction v rule: dumps_ok.induct) (auto simp: list_all_iff)

lemma dumps_ok_thaw_freeze: "dumps_ok v \<Longrightarrow> dumps_ok (thaw_json (freeze_json v))"
proof (induction v rule: dumps_ok.induct)
  case (6 xs)
  then show ?case by (auto simp: list_all_iff intro: dumps_ok_thaw)
qed (auto simp: list_all_iff)


text \<open>Equality is transitive, and reflexive on finite values with distinct keys.\<close>

fun proper :: "pyval \<Rightarrow> bool" where
  "proper PNonFinite = False"
| "proper POpaque = False"
| "proper (PDict d) = (distinct (map fst d) \<and> list_all (\<lambda>(k, v). proper v) d)"
| "proper (PProxy d) = (distinct (map fst d) \<and> list_all (\<lambda>(k, v). proper v) d)"
| "proper (PList xs) = list_all proper xs"
| "proper (PTuple xs) = list_all proper xs"
| "proper _ = True"

lemma plain_proper: "plain_json v \<Longrightarrow> proper v"
  by (induction v rule: plain_json.induct) (auto simp: list_all_iff)

lemma frozen_proper: "frozen_json v \<Longrightarrow> proper v"
  by (induction v rule: frozen_json.induct) (auto simp: list_all_iff)

lemma dict_sub_refl:
  assumes "distinct (map fst d)" and "\<And>k v. (k, v) \<in> set d \<Longrightarrow> py_eq v v"
  shows "list_all (\<lambda>(k, x). case map_of d k of None \<Rightarrow> False | Some y \<Rightarrow> py_eq x y) d"
  using assms by (auto simp: list_all_iff map_of_is_SomeI)

lemma py_eq_refl: "proper v \<Longrightarrow> py_eq v v"
proof (induction v rule: proper.induct)
  case (3 d)
  then show ?case by (auto simp: list_all_iff intro!: dict_sub_refl [unfolded list_all_iff])
next
  case (4 d)
  then show ?case by (auto simp: list_all_iff intro!: dict_sub_refl [unfolded list_all_iff])
qed (auto simp: list_all_iff set_zip)

lemma list_all_zip_trans:
  assumes "length xs = length ys" "length ys = length zs"
    and "list_all (\<lambda>(x, y). P x y) (zip xs ys)" "list_all (\<lambda>(y, z). Q y z) (zip ys zs)"
    and "\<And>x y z. x \<in> set xs \<Longrightarrow> P x y \<Longrightarrow> Q y z \<Longrightarrow> R x z"
  shows "list_all (\<lambda>(x, z). R x z) (zip xs zs)"
  using assms by (induction xs ys zs rule: list_induct3) auto

lemma dict_sub_trans:
  assumes "list_all (\<lambda>(k, x). case map_of d' k of None \<Rightarrow> False | Some y \<Rightarrow> py_eq x y) d"
    and "list_all (\<lambda>(k, x). case map_of d'' k of None \<Rightarrow> False | Some y \<Rightarrow> py_eq x y) d'"
    and "\<And>k x y z. (k, x) \<in> set d \<Longrightarrow> py_eq x y \<Longrightarrow> py_eq y z \<Longrightarrow> py_eq x z"
  shows "list_all (\<lambda>(k, x). case map_of d'' k of None \<Rightarrow> False | Some y \<Rightarrow> py_eq x y) d"
  unfolding list_all_iff
proof (clarify)
  fix k x assume mem: "(k, x) \<in> set d"
  with assms(1) obtain y where y: "map_of d' k = Some y" "py_eq x y"
    by (fastforce simp: list_all_iff split: option.splits)
  from y(1) have "(k, y) \<in> set d'" by (rule map_of_SomeD)
  with assms(2) obtain z where z: "map_of d'' k = Some z" "py_eq y z"
    by (fastforce simp: list_all_iff split: option.splits)
  from assms(3) [OF mem y(2) z(2)] z(1)
  show "case map_of d'' k of None \<Rightarrow> False | Some y \<Rightarrow> py_eq x y" by simp
qed

lemma py_eq_cases:
  assumes "py_eq v w"
  obtains (none) "v = PNone" "w = PNone"
  | (str) s where "v = PStr s" "w = PStr s"
  | (num) q where "as_number v = Some q" "as_number w = Some q"
  | (list) xs ys where "v = PList xs" "w = PList ys" "length xs = length ys"
      "list_all (\<lambda>(x, y). py_eq x y) (zip xs ys)"
  | (tuple) xs ys where "v = PTuple xs" "w = PTuple ys" "length xs = length ys"
      "list_all (\<lambda>(x, y). py_eq x y) (zip xs ys)"
  | (mapping) d d' where "as_mapping v = Some d" "as_mapping w = Some d'" "length d = length d'"
      "list_all (\<lambda>(k, x). case map_of d' k of None \<Rightarrow> False | Some y \<Rightarrow> py_eq x y) d"
  using assms by (cases v; cases w; simp)

lemma py_eq_trans: "py_eq u v \<Longrightarrow> py_eq v w \<Longrightarrow> py_eq u w"
proof (induction u arbitrary: v w rule: measure_induct_rule [of size])
  case (less u)
  from less.prems(1) show ?case
  proof (cases rule: py_eq_cases)
    case (num q)
    with less.prems(2) have "as_number w = Some q"
      by (cases v; cases w; auto)
    with num show ?thesis by (cases u; auto)
  next
    case (list xs ys)
    with less.prems(2) obtain zs where w: "w = PList zs" "length ys = length zs"
      "list_all (\<lambda>(x, y). py_eq x y) (zip ys zs)" by (cases w) auto
    have "list_all (\<lambda>(x, z). py_eq x z) (zip xs zs)"
      by (rule list_all_zip_trans [OF list(3) w(2) list(4) w(3)])
         (use less.IH list(1) size_seq_mem in force)
    with list w show ?thesis by simp
  next
    case (tuple xs ys)
    with less.prems(2) obtain zs where w: "w = PTuple zs" "length ys = length zs"
      "list_all (\<lambda>(x, y). py_eq x y) (zip ys zs)" by (cases w) auto
    have "list_all (\<lambda>(x, z). py_eq x z) (zip xs zs)"
      by (rule list_all_zip_trans [OF tuple(3) w(2) tuple(4) w(3)])
         (use less.IH tuple(1) size_seq_mem in force)
    with tuple w show ?thesis by simp
  next
    case (mapping d d')
    with less.prems(2) obtain d'' where w: "as_mapping w = Some d''" "length d' = length d''"
      "list_all (\<lambda>(k, x). case map_of d'' k of None \<Rightarrow> False | Some y \<Rightarrow> py_eq x y) d'"
      by (cases v) (auto split: option.splits)
    have small: "size x < size u" if "(k, x) \<in> set d" for k x
      using size_dict_mem [OF that] mapping(1) by (cases u) auto
    have "list_all (\<lambda>(k, x). case map_of d'' k of None \<Rightarrow> False | Some y \<Rightarrow> py_eq x y) d"
      by (rule dict_sub_trans [OF mapping(4) w(3)]) (rule less.IH [OF small])
    with mapping w show ?thesis by (cases u) auto
  qed (use less.prems in auto)
qed

section \<open>Text of values\<close>

text \<open>\<open>str.strip()\<close> on the code points below 256: what \<open>str.isspace\<close> accepts there.\<close>

definition is_space :: "char \<Rightarrow> bool" where
  "is_space c = (let n = (of_char c :: nat) in
     (9 \<le> n \<and> n \<le> 13) \<or> (28 \<le> n \<and> n \<le> 32) \<or> n = 133 \<or> n = 160)"

definition strip :: "string \<Rightarrow> string" where
  "strip s = rev (dropWhile is_space (rev (dropWhile is_space s)))"

lemma strip_id:
  assumes "s = [] \<or> (\<not> is_space (hd s) \<and> \<not> is_space (last s))"
  shows "strip s = s"
proof -
  have "dropWhile is_space s = s" "dropWhile is_space (rev s) = rev s"
    using assms by (auto simp: dropWhile_eq_self_iff hd_rev)
  then show ?thesis by (simp add: strip_def)
qed

text \<open>Decimal text of an integer, and \<open>str\<close> of the scalars it is applied to.\<close>

definition digit_char :: "nat \<Rightarrow> char" where
  "digit_char n = char_of (48 + n)"

fun dec_nat :: "nat \<Rightarrow> string" where
  "dec_nat n = (if n < 10 then [digit_char n] else dec_nat (n div 10) @ [digit_char (n mod 10)])"

declare dec_nat.simps [simp del]

definition dec_int :: "int \<Rightarrow> string" where
  "dec_int n = (if n < 0 then CHR ''-'' # dec_nat (nat (- n)) else dec_nat (nat n))"

fun py_str :: "pyval \<Rightarrow> string result" where
  "py_str PNone = Inr ''None''"
| "py_str (PBool b) = Inr (if b then ''True'' else ''False'')"
| "py_str (PInt n) = Inr (dec_int n)"
| "py_str (PStr s) = Inr s"
| "py_str _ = Inl (Unmodelled ''str'')"

text \<open>\<open>str(v or default)\<close>.\<close>

definition str_or :: "pyval \<Rightarrow> string \<Rightarrow> string result" where
  "str_or v d = py_str (if truthy v then v else PStr d)"

lemma str_or_PStr [simp]: "str_or (PStr s) d = Inr (if s = [] then d else s)"
  by (simp add: str_or_def)

text \<open>
  \<open>int(s)\<close> of a string: surrounding space, an optional sign, digits with single
  underscores between them; anything else is a \<open>ValueError\<close>.
\<close>

definition is_digit :: "char \<Rightarrow> bool" where
  "is_digit c = (48 \<le> (of_char c :: nat) \<and> (of_char c :: nat) \<le> 57)"

fun parse_digits :: "int \<Rightarrow> bool \<Rightarrow> string \<Rightarrow> int option" where
  "parse_digits acc after [] = (if after then Some acc else None)"
| "parse_digits acc after (c # cs) =
     (if is_digit c then parse_digits (10 * acc + (of_char c - 48)) True cs
      else if c = CHR ''_'' \<and> after then parse_digits acc False cs
      else None)"

definition parse_int :: "string \<Rightarrow> int result" where
  "parse_int s =
     (let t = strip s;
          r = (case t of
                 c # cs \<Rightarrow> if c = CHR ''-'' then map_option uminus (parse_digits 0 False cs)
                           else if c = CHR ''+'' then parse_digits 0 False cs
                           else parse_digits 0 False t
               | [] \<Rightarrow> None)
      in case r of None \<Rightarrow> Inl (ValueError ''invalid literal for int()'') | Some n \<Rightarrow> Inr n)"

end
