(* ===== verification/Json_Value.thy ===== *)
theory Json_Value
  imports Py_Value
begin

text \<open>
  \<^verbatim>\<open>codey/types/json_value.py\<close>: the decoder that detaches untrusted JSON under
  depth, node and byte budgets. A value is a tree with string keys, and a string has
  characters below 256, so the checks for container cycles, for keys that are no strings and for
  text that UTF-8 cannot encode never fire; the transport mode, which also takes enums, sets and dataclasses, is left out.
\<close>

section \<open>Limits and counters\<close>

record json_limits =
  jl_max_depth :: int
  jl_max_nodes :: int
  jl_max_string_bytes :: int

definition json_limits_init :: "json_limits \<Rightarrow> json_limits result" where
  "json_limits_init l =
     (if jl_max_depth l < 1 \<or> jl_max_nodes l < 1 \<or> jl_max_string_bytes l < 1
      then Inl (ValueError ''JSON limits must be positive integers'') else Inr l)"

definition DEFAULT_JSON_LIMITS :: json_limits where
  "DEFAULT_JSON_LIMITS =
     \<lparr>jl_max_depth = 64, jl_max_nodes = 1000000, jl_max_string_bytes = 32 * 1024 * 1024\<rparr>"

record json_decoder =
  jd_nodes :: int
  jd_string_bytes :: int

text \<open>\<open>len(s.encode("utf-8"))\<close> for the code points below 256.\<close>

definition utf8_length :: "string \<Rightarrow> int" where
  "utf8_length s = sum_list (map (\<lambda>c. if (of_char c :: nat) < 128 then 1 else 2) s)"

definition decode_string :: "json_limits \<Rightarrow> string \<Rightarrow> (json_decoder, string) action" where
  "decode_string lims s =
     bind_s (modify_s (\<lambda>d. d\<lparr>jd_string_bytes := jd_string_bytes d + utf8_length s\<rparr>)) (\<lambda>_.
     bind_s (read_s (\<lambda>d. raise_if (jd_string_bytes d > jl_max_string_bytes lims)
       (ValueError ''JSON string byte budget exceeded''))) (\<lambda>_. return_s s))"

definition count_node :: "json_limits \<Rightarrow> int \<Rightarrow> (json_decoder, unit) action" where
  "count_node lims depth =
     bind_s (modify_s (\<lambda>d. d\<lparr>jd_nodes := jd_nodes d + 1\<rparr>)) (\<lambda>_.
     read_s (\<lambda>d. raise_if (depth > jl_max_depth lims \<or> jd_nodes d > jl_max_nodes lims)
       (ValueError ''JSON depth or node budget exceeded'')))"

section \<open>The decoder\<close>

text \<open>
  \<open>value\<close> and \<open>container\<close> with \<open>transport=False\<close>; the flag is \<open>tuples\<close>. In
  \<open>result[self.string(key)] = self.value(item)\<close> the right-hand side runs first.
\<close>

fun decode_value :: "json_limits \<Rightarrow> bool \<Rightarrow> int \<Rightarrow> pyval \<Rightarrow> (json_decoder, pyval) action"
  and decode_items :: "json_limits \<Rightarrow> bool \<Rightarrow> int \<Rightarrow> pyval list \<Rightarrow> (json_decoder, pyval list) action"
  and decode_fields :: "json_limits \<Rightarrow> bool \<Rightarrow> int \<Rightarrow> jobj \<Rightarrow> (json_decoder, jobj) action"
where
  "decode_value lims tuples depth (PStr s) =
     bind_s (count_node lims depth) (\<lambda>_. bind_s (decode_string lims s) (\<lambda>t. return_s (PStr t)))"
| "decode_value lims tuples depth (PDict d) =
     bind_s (count_node lims depth) (\<lambda>_. bind_s (decode_fields lims tuples (depth + 1) d)
       (\<lambda>fields. return_s (PDict (dupdate fields []))))"
| "decode_value lims tuples depth (PProxy d) =
     bind_s (count_node lims depth) (\<lambda>_. bind_s (decode_fields lims tuples (depth + 1) d)
       (\<lambda>fields. return_s (PDict (dupdate fields []))))"
| "decode_value lims tuples depth (PList xs) =
     bind_s (count_node lims depth) (\<lambda>_. bind_s (decode_items lims tuples (depth + 1) xs) (\<lambda>ys. return_s (PList ys)))"
| "decode_value lims tuples depth (PTuple xs) =
     bind_s (count_node lims depth) (\<lambda>_.
       if tuples then bind_s (decode_items lims tuples (depth + 1) xs) (\<lambda>ys. return_s (PList ys))
       else read_s (\<lambda>_. Inl (ValueError ''JSON cannot encode tuple'')))"
| "decode_value lims tuples depth PNonFinite =
     bind_s (count_node lims depth) (\<lambda>_. read_s (\<lambda>_. Inl (ValueError ''JSON cannot encode float'')))"
| "decode_value lims tuples depth POpaque =
     bind_s (count_node lims depth) (\<lambda>_. read_s (\<lambda>_. Inl (ValueError ''JSON cannot encode '')))"
| "decode_value lims tuples depth v = bind_s (count_node lims depth) (\<lambda>_. return_s v)"
| "decode_items lims tuples depth [] = return_s []"
| "decode_items lims tuples depth (x # xs) =
     bind_s (decode_value lims tuples depth x) (\<lambda>y.
     bind_s (decode_items lims tuples depth xs) (\<lambda>ys. return_s (y # ys)))"
| "decode_fields lims tuples depth [] = return_s []"
| "decode_fields lims tuples depth ((k, v) # d) =
     bind_s (decode_value lims tuples depth v) (\<lambda>w.
     bind_s (decode_string lims k) (\<lambda>key.
     bind_s (decode_fields lims tuples depth d) (\<lambda>rest. return_s ((key, w) # rest))))"

definition decode_json :: "json_limits \<Rightarrow> bool \<Rightarrow> pyval \<Rightarrow> pyval result" where
  "decode_json lims tuples v = fst (decode_value lims tuples 0 v \<lparr>jd_nodes = 0, jd_string_bytes = 0\<rparr>)"

definition decode_json_value :: "pyval \<Rightarrow> pyval result" where
  "decode_json_value v = decode_json DEFAULT_JSON_LIMITS False v"

definition decode_json_object :: "pyval \<Rightarrow> jobj result" where
  "decode_json_object v =
     bind_r (decode_json_value v) (\<lambda>w. case w of PDict d \<Rightarrow> Inr d
       | _ \<Rightarrow> Inl (ValueError ''JSON value must be an object''))"

definition canonical_json_object :: "pyval \<Rightarrow> jobj result" where
  "canonical_json_object v =
     bind_r (decode_json DEFAULT_JSON_LIMITS True v) (\<lambda>w. case w of PDict d \<Rightarrow> Inr d
       | _ \<Rightarrow> Inl (ValueError ''canonical payload must be a mapping''))"

definition require_json_string :: "pyval \<Rightarrow> string \<Rightarrow> string result" where
  "require_json_string v field =
     (case as_str v of Some s \<Rightarrow> Inr s | None \<Rightarrow> Inl (ValueError (field @ '' must be a string'')))"

definition require_json_integer :: "pyval \<Rightarrow> string \<Rightarrow> int result" where
  "require_json_integer v field =
     (case as_int v of Some n \<Rightarrow> Inr n | None \<Rightarrow> Inl (ValueError (field @ '' must be an integer'')))"

definition require_json_boolean :: "pyval \<Rightarrow> string \<Rightarrow> bool result" where
  "require_json_boolean v field =
     (case as_bool v of Some b \<Rightarrow> Inr b | None \<Rightarrow> Inl (ValueError (field @ '' must be a boolean'')))"

definition require_json_strings :: "pyval \<Rightarrow> string \<Rightarrow> string list result" where
  "require_json_strings v field =
     (case v of PList xs \<Rightarrow> map_r (\<lambda>x. require_json_string x field) xs
      | _ \<Rightarrow> Inl (ValueError (field @ '' must be an array of strings'')))"

section \<open>What the decoder accepts\<close>

text \<open>
  The reference: which values are JSON, how deep they are, how many nodes and how many bytes
  of strings they hold, and the value that is left when every mapping is a dict and every
  sequence a list.
\<close>

fun json_like :: "bool \<Rightarrow> pyval \<Rightarrow> bool" where
  "json_like tuples PNonFinite = False"
| "json_like tuples POpaque = False"
| "json_like tuples (PDict d) = list_all (\<lambda>(k, v). json_like tuples v) d"
| "json_like tuples (PProxy d) = list_all (\<lambda>(k, v). json_like tuples v) d"
| "json_like tuples (PList xs) = list_all (json_like tuples) xs"
| "json_like tuples (PTuple xs) = (tuples \<and> list_all (json_like tuples) xs)"
| "json_like tuples v = True"

fun within_depth :: "int \<Rightarrow> pyval \<Rightarrow> bool" where
  "within_depth n (PDict d) = (0 \<le> n \<and> list_all (\<lambda>(k, v). within_depth (n - 1) v) d)"
| "within_depth n (PProxy d) = (0 \<le> n \<and> list_all (\<lambda>(k, v). within_depth (n - 1) v) d)"
| "within_depth n (PList xs) = (0 \<le> n \<and> list_all (within_depth (n - 1)) xs)"
| "within_depth n (PTuple xs) = (0 \<le> n \<and> list_all (within_depth (n - 1)) xs)"
| "within_depth n v = (0 \<le> n)"

fun json_nodes :: "pyval \<Rightarrow> int" where
  "json_nodes (PDict d) = 1 + sum_list (map (\<lambda>(k, v). json_nodes v) d)"
| "json_nodes (PProxy d) = 1 + sum_list (map (\<lambda>(k, v). json_nodes v) d)"
| "json_nodes (PList xs) = 1 + sum_list (map json_nodes xs)"
| "json_nodes (PTuple xs) = 1 + sum_list (map json_nodes xs)"
| "json_nodes v = 1"

fun json_bytes :: "pyval \<Rightarrow> int" where
  "json_bytes (PStr s) = utf8_length s"
| "json_bytes (PDict d) = sum_list (map (\<lambda>(k, v). json_bytes v + utf8_length k) d)"
| "json_bytes (PProxy d) = sum_list (map (\<lambda>(k, v). json_bytes v + utf8_length k) d)"
| "json_bytes (PList xs) = sum_list (map json_bytes xs)"
| "json_bytes (PTuple xs) = sum_list (map json_bytes xs)"
| "json_bytes v = 0"

fun detached :: "pyval \<Rightarrow> pyval" where
  "detached (PDict d) = PDict (dupdate (map (\<lambda>(k, v). (k, detached v)) d) [])"
| "detached (PProxy d) = PDict (dupdate (map (\<lambda>(k, v). (k, detached v)) d) [])"
| "detached (PList xs) = PList (map detached xs)"
| "detached (PTuple xs) = PList (map detached xs)"
| "detached v = v"

lemma utf8_length_nonneg [simp]: "0 \<le> utf8_length s"
  unfolding utf8_length_def by (intro sum_list_nonneg) auto

lemma json_nodes_pos: "0 < json_nodes v"
proof (induction v rule: json_nodes.induct)
  case (1 d)
  then have "0 \<le> sum_list (map (\<lambda>(k, v). json_nodes v) d)" by (intro sum_list_nonneg) fastforce
  then show ?case by simp
next
  case (2 d)
  then have "0 \<le> sum_list (map (\<lambda>(k, v). json_nodes v) d)" by (intro sum_list_nonneg) fastforce
  then show ?case by simp
next
  case (3 xs)
  then have "0 \<le> sum_list (map json_nodes xs)" by (intro sum_list_nonneg) fastforce
  then show ?case by simp
next
  case (4 xs)
  then have "0 \<le> sum_list (map json_nodes xs)" by (intro sum_list_nonneg) fastforce
  then show ?case by simp
qed simp_all

lemma json_bytes_nonneg [simp]: "0 \<le> json_bytes v"
proof (induction v rule: json_bytes.induct)
  case (2 d)
  then show ?case by (auto intro!: sum_list_nonneg add_nonneg_nonneg)
next
  case (3 d)
  then show ?case by (auto intro!: sum_list_nonneg add_nonneg_nonneg)
qed (auto intro!: sum_list_nonneg)

section \<open>The decoder meets the reference\<close>

lemma bind_s_Inr: "bind_s m f s = (Inr y, s') \<longleftrightarrow> (\<exists>x s1. m s = (Inr x, s1) \<and> f x s1 = (Inr y, s'))"
  by (auto simp: bind_s_def split: prod.splits sum.splits)

lemma count_node_run:
  "count_node lims depth s = (Inr u, s') \<longleftrightarrow> s' = s\<lparr>jd_nodes := jd_nodes s + 1\<rparr> \<and> depth \<le> jl_max_depth lims
     \<and> jd_nodes s + 1 \<le> jl_max_nodes lims"
  by (auto simp: count_node_def read_s_def raise_if_def)

lemma decode_string_run:
  "decode_string lims t s = (Inr u, s') \<longleftrightarrow> u = t \<and> s' = s\<lparr>jd_string_bytes := jd_string_bytes s + utf8_length t\<rparr>
     \<and> jd_string_bytes s + utf8_length t \<le> jl_max_string_bytes lims"
  by (auto simp: decode_string_def raise_if_def)

text \<open>The state after a run that adds the given nodes and bytes, and the budgets for it.\<close>

definition spent :: "json_decoder \<Rightarrow> int \<Rightarrow> int \<Rightarrow> json_decoder" where
  "spent s n b = \<lparr>jd_nodes = jd_nodes s + n, jd_string_bytes = jd_string_bytes s + b\<rparr>"

definition affords :: "json_limits \<Rightarrow> json_decoder \<Rightarrow> int \<Rightarrow> int \<Rightarrow> bool" where
  "affords lims s n b = (jd_nodes s + n \<le> jl_max_nodes lims \<and> jd_string_bytes s + b \<le> jl_max_string_bytes lims)"

lemma spent_spent [simp]: "spent (spent s n b) n' b' = spent s (n + n') (b + b')" "spent s 0 0 = s"
  by (simp_all add: spent_def)

lemma affords_spent [simp]: "affords lims (spent s n b) n' b' \<longleftrightarrow> affords lims s (n + n') (b + b')"
  by (simp add: affords_def spent_def add.assoc)

lemma affords_less: "affords lims s n b \<Longrightarrow> n' \<le> n \<Longrightarrow> b' \<le> b \<Longrightarrow> affords lims s n' b'"
  by (simp add: affords_def)

lemma count_node_spent:
  "affords lims s 0 0 \<Longrightarrow> count_node lims depth s = (Inr u, s') \<longleftrightarrow> s' = spent s 1 0 \<and> depth \<le> jl_max_depth lims \<and> affords lims s 1 0"
  by (auto simp: count_node_run spent_def affords_def)

lemma decode_string_spent:
  "affords lims s 0 0 \<Longrightarrow> decode_string lims t s = (Inr u, s') \<longleftrightarrow> u = t \<and> s' = spent s 0 (utf8_length t) \<and> affords lims s 0 (utf8_length t)"
  by (auto simp: decode_string_run spent_def affords_def)

definition items_nodes :: "pyval list \<Rightarrow> int" where "items_nodes xs = sum_list (map json_nodes xs)"
definition items_bytes :: "pyval list \<Rightarrow> int" where "items_bytes xs = sum_list (map json_bytes xs)"
definition fields_nodes :: "jobj \<Rightarrow> int" where "fields_nodes d = sum_list (map (\<lambda>(k, v). json_nodes v) d)"
definition fields_bytes :: "jobj \<Rightarrow> int" where "fields_bytes d = sum_list (map (\<lambda>(k, v). json_bytes v + utf8_length k) d)"

lemma cost_nonneg [simp]: "0 \<le> json_nodes v" "0 \<le> items_nodes xs" "0 \<le> items_bytes xs" "0 \<le> fields_nodes d" "0 \<le> fields_bytes d"
  using json_nodes_pos [of v] less_imp_le [OF json_nodes_pos]
  by (auto simp: items_nodes_def items_bytes_def fields_nodes_def fields_bytes_def intro!: sum_list_nonneg add_nonneg_nonneg)

lemma cost_Cons [simp]:
  "items_nodes [] = 0" "items_bytes [] = 0" "fields_nodes [] = 0" "fields_bytes [] = 0"
  "items_nodes (x # xs) = json_nodes x + items_nodes xs" "items_bytes (x # xs) = json_bytes x + items_bytes xs"
  "fields_nodes ((k, v) # d) = json_nodes v + fields_nodes d"
  "fields_bytes ((k, v) # d) = json_bytes v + (utf8_length k + fields_bytes d)"
  by (simp_all add: items_nodes_def items_bytes_def fields_nodes_def fields_bytes_def)

lemma cost_container:
  "json_nodes (PDict d) = 1 + fields_nodes d" "json_nodes (PProxy d) = 1 + fields_nodes d"
  "json_nodes (PList xs) = 1 + items_nodes xs" "json_nodes (PTuple xs) = 1 + items_nodes xs"
  "json_bytes (PDict d) = fields_bytes d" "json_bytes (PProxy d) = fields_bytes d"
  "json_bytes (PList xs) = items_bytes xs" "json_bytes (PTuple xs) = items_bytes xs"
  by (simp_all add: items_nodes_def items_bytes_def fields_nodes_def fields_bytes_def)

declare json_nodes.simps(1-4) [simp del] json_bytes.simps(2-5) [simp del] cost_container [simp]

lemma decode_runs:
  "affords lims s 0 0 \<Longrightarrow> decode_value lims tuples depth v s = (Inr w, s') \<longleftrightarrow>
     json_like tuples v \<and> within_depth (jl_max_depth lims - depth) v \<and> affords lims s (json_nodes v) (json_bytes v)
     \<and> w = detached v \<and> s' = spent s (json_nodes v) (json_bytes v)"
  "affords lims s 0 0 \<Longrightarrow> decode_items lims tuples depth xs s = (Inr ws, s') \<longleftrightarrow>
     list_all (json_like tuples) xs \<and> list_all (within_depth (jl_max_depth lims - depth)) xs
     \<and> affords lims s (items_nodes xs) (items_bytes xs) \<and> ws = map detached xs \<and> s' = spent s (items_nodes xs) (items_bytes xs)"
  "affords lims s 0 0 \<Longrightarrow> decode_fields lims tuples depth d s = (Inr ds, s') \<longleftrightarrow>
     list_all (\<lambda>(k, v). json_like tuples v) d \<and> list_all (\<lambda>(k, v). within_depth (jl_max_depth lims - depth) v) d
     \<and> affords lims s (fields_nodes d) (fields_bytes d) \<and> ds = map (\<lambda>(k, v). (k, detached v)) d
     \<and> s' = spent s (fields_nodes d) (fields_bytes d)"
proof (induction lims tuples depth v and lims tuples depth xs and lims tuples depth d
    arbitrary: s w s' and s ws s' and s ds s' rule: decode_value_decode_items_decode_fields.induct)
  case (1 lims tuples depth t)
  then show ?case
    by (simp add: bind_s_Inr count_node_spent decode_string_spent cong: conj_cong) (auto intro: affords_less)
next
  case (2 lims tuples depth d)
  then show ?case
    by (simp add: bind_s_Inr count_node_spent diff_diff_eq cong: conj_cong) (auto intro: affords_less)
next
  case (3 lims tuples depth d)
  then show ?case
    by (simp add: bind_s_Inr count_node_spent diff_diff_eq cong: conj_cong) (auto intro: affords_less)
next
  case (4 lims tuples depth xs)
  then show ?case
    by (simp add: bind_s_Inr count_node_spent diff_diff_eq cong: conj_cong) (auto intro: affords_less)
next
  case (5 lims tuples depth xs)
  then show ?case
    by (cases tuples; simp add: bind_s_Inr count_node_spent diff_diff_eq read_s_def cong: conj_cong)
       (auto intro: affords_less)
next
  case (10 lims tuples depth x xs)
  then show ?case
    by (simp add: bind_s_Inr cong: conj_cong) (auto intro: affords_less)
next
  case (12 lims tuples depth k v d)
  then show ?case
    by (simp add: bind_s_Inr decode_string_spent add.assoc cong: conj_cong) (auto intro: affords_less)
qed (auto simp: bind_s_Inr count_node_spent read_s_def)

lemma decode_accepts:
  assumes "0 \<le> jl_max_nodes lims" and "0 \<le> jl_max_string_bytes lims"
  shows "decode_json lims tuples v = Inr w \<longleftrightarrow>
     json_like tuples v \<and> within_depth (jl_max_depth lims) v \<and> json_nodes v \<le> jl_max_nodes lims
     \<and> json_bytes v \<le> jl_max_string_bytes lims \<and> w = detached v"
proof -
  have start: "affords lims \<lparr>jd_nodes = 0, jd_string_bytes = 0\<rparr> 0 0" using assms by (simp add: affords_def)
  have "decode_json lims tuples v = Inr w \<longleftrightarrow>
      (\<exists>s'. decode_value lims tuples 0 v \<lparr>jd_nodes = 0, jd_string_bytes = 0\<rparr> = (Inr w, s'))"
    unfolding decode_json_def by (metis fst_conv prod.collapse)
  then show ?thesis by (simp add: decode_runs(1) [OF start]) (auto simp: affords_def)
qed

text \<open>
  C34: the decoder accepts exactly the JSON values within its budgets, of which the depth, the
  number of nodes and the bytes of all strings and keys are bounded, and returns the value with
  every mapping a dict and every sequence a list.
\<close>

theorem decode_exact:
  assumes "0 \<le> jl_max_nodes lims" and "0 \<le> jl_max_string_bytes lims"
  shows "decode_json lims tuples v = Inr w \<longleftrightarrow>
     json_like tuples v \<and> within_depth (jl_max_depth lims) v \<and> json_nodes v \<le> jl_max_nodes lims
     \<and> json_bytes v \<le> jl_max_string_bytes lims \<and> w = detached v"
  by (rule decode_accepts [OF assms])

theorem decode_exact_witness:
  "decode_json \<lparr>jl_max_depth = 1, jl_max_nodes = 3, jl_max_string_bytes = 3\<rparr> True
     (PProxy [(''a'', PTuple []), (''b'', PStr ''c'')]) = Inr (PDict [(''a'', PList []), (''b'', PStr ''c'')])"
proof -
  let ?v = "PProxy [(''a'', PTuple []), (''b'', PStr ''c'')]"
  have "json_nodes ?v = 3" "json_bytes ?v = 3" "detached ?v = PDict [(''a'', PList []), (''b'', PStr ''c'')]"
    by code_simp+
  then show ?thesis by (subst decode_exact) simp_all
qed

text \<open>Distinct keys at every depth, the invariant of Python mappings.\<close>

fun keys_distinct :: "pyval \<Rightarrow> bool" where
  "keys_distinct (PDict d) = (distinct (map fst d) \<and> list_all (\<lambda>(k, v). keys_distinct v) d)"
| "keys_distinct (PProxy d) = (distinct (map fst d) \<and> list_all (\<lambda>(k, v). keys_distinct v) d)"
| "keys_distinct (PList xs) = list_all keys_distinct xs"
| "keys_distinct (PTuple xs) = list_all keys_distinct xs"
| "keys_distinct v = True"

lemma dset_fresh: "k \<notin> set (map fst d) \<Longrightarrow> dset k v d = d @ [(k, v)]"
  by (induction d) (auto simp: dset_def)

lemma dupdate_fresh:
  "distinct (map fst ps) \<Longrightarrow> set (map fst ps) \<inter> set (map fst d) = {} \<Longrightarrow> dupdate ps d = d @ ps"
  by (induction ps arbitrary: d) (auto simp: dset_fresh)

lemma detached_dict:
  assumes "distinct (map fst d)"
  shows "dupdate (map (\<lambda>(k, v). (k, detached v)) d) [] = map (\<lambda>(k, v). (k, detached v)) d"
  using dupdate_fresh [of "map (\<lambda>(k, v). (k, detached v)) d" "[]"] assms by simp

lemma fields_cost_map:
  "\<forall>p\<in>set d. json_nodes (f (snd p)) = json_nodes (snd p) \<and> json_bytes (f (snd p)) = json_bytes (snd p) \<Longrightarrow>
   fields_nodes (map (\<lambda>(k, v). (k, f v)) d) = fields_nodes d \<and> fields_bytes (map (\<lambda>(k, v). (k, f v)) d) = fields_bytes d"
  by (induction d) auto

lemma items_cost_map:
  "\<forall>v\<in>set xs. json_nodes (f v) = json_nodes v \<and> json_bytes (f v) = json_bytes v \<Longrightarrow>
   items_nodes (map f xs) = items_nodes xs \<and> items_bytes (map f xs) = items_bytes xs"
  by (induction xs) auto

lemma detached_cost: "keys_distinct v \<Longrightarrow> json_nodes (detached v) = json_nodes v \<and> json_bytes (detached v) = json_bytes v"
proof (induction v rule: keys_distinct.induct)
  case (1 d)
  then have "\<forall>p\<in>set d. json_nodes (detached (snd p)) = json_nodes (snd p) \<and> json_bytes (detached (snd p)) = json_bytes (snd p)"
    by (force simp: list_all_iff)
  from fields_cost_map [OF this] 1 show ?case by (simp add: detached_dict)
next
  case (2 d)
  then have "\<forall>p\<in>set d. json_nodes (detached (snd p)) = json_nodes (snd p) \<and> json_bytes (detached (snd p)) = json_bytes (snd p)"
    by (force simp: list_all_iff)
  from fields_cost_map [OF this] 2 show ?case by (simp add: detached_dict)
next
  case (3 xs)
  then show ?case using items_cost_map [of xs detached] by (simp add: list_all_iff)
next
  case (4 xs)
  then show ?case using items_cost_map [of xs detached] by (simp add: list_all_iff)
qed simp_all

lemma values_all:
  "list_all (\<lambda>(k, v). A v) d \<Longrightarrow> list_all (\<lambda>(k, v). B v) d \<Longrightarrow> (\<And>k v. (k, v) \<in> set d \<Longrightarrow> A v \<Longrightarrow> B v \<Longrightarrow> Q (f v)) \<Longrightarrow>
   list_all (\<lambda>(k, v). Q v) (map (\<lambda>(k, v). (k, f v)) d)"
  by (induction d) auto

lemma detached_json_like: "keys_distinct v \<Longrightarrow> json_like tuples v \<Longrightarrow> json_like tuples' (detached v)"
proof (induction v rule: keys_distinct.induct)
  case (1 d)
  note IH = "1.IH"
  show ?case using "1.prems" by (simp add: detached_dict) (elim conjE, rule values_all, assumption+, erule (2) IH [OF _ refl])
next
  case (2 d)
  note IH = "2.IH"
  show ?case using "2.prems" by (simp add: detached_dict) (elim conjE, rule values_all, assumption+, erule (2) IH [OF _ refl])
qed (auto simp: list_all_iff)

lemma detached_within_depth: "keys_distinct v \<Longrightarrow> within_depth n v \<Longrightarrow> within_depth n (detached v)"
proof (induction v arbitrary: n rule: keys_distinct.induct)
  case (1 d)
  note IH = "1.IH"
  show ?case using "1.prems" by (simp add: detached_dict) (elim conjE, rule values_all, assumption+, erule (2) IH [OF _ refl])
next
  case (2 d)
  note IH = "2.IH"
  show ?case using "2.prems" by (simp add: detached_dict) (elim conjE, rule values_all, assumption+, erule (2) IH [OF _ refl])
qed (auto simp: list_all_iff)

lemma detached_plain: "keys_distinct v \<Longrightarrow> json_like tuples v \<Longrightarrow> plain_json (detached v)"
proof (induction v rule: keys_distinct.induct)
  case (1 d)
  note IH = "1.IH"
  show ?case using "1.prems" by (simp add: detached_dict) (elim conjE, rule values_all, assumption+, erule (2) IH [OF _ refl])
next
  case (2 d)
  note IH = "2.IH"
  show ?case using "2.prems" by (simp add: detached_dict) (elim conjE, rule values_all, assumption+, erule (2) IH [OF _ refl])
qed (auto simp: list_all_iff)

lemma detached_plain_id: "plain_json v \<Longrightarrow> detached v = v"
  by (induction v rule: plain_json.induct)
     (auto simp: detached_dict list_all_iff intro!: map_idI)

text \<open>
  C35: decoding is stable. What the decoder returned, also the canonical one that takes
  tuples, is plain JSON, and the strict decoder with the same budgets reads it back
  unchanged.
\<close>

theorem decode_stable:
  assumes "keys_distinct v" and "decode_json lims tuples v = Inr w"
    and "0 \<le> jl_max_nodes lims" and "0 \<le> jl_max_string_bytes lims"
  shows "plain_json w \<and> decode_json lims False w = Inr w"
proof -
  from assms(2) have v: "json_like tuples v" "within_depth (jl_max_depth lims) v" "json_nodes v \<le> jl_max_nodes lims"
      "json_bytes v \<le> jl_max_string_bytes lims" "w = detached v"
    unfolding decode_accepts [OF assms(3,4)] by blast+
  then show ?thesis
    unfolding decode_accepts [OF assms(3,4)]
    using detached_json_like [OF assms(1) v(1)] detached_within_depth [OF assms(1) v(2)] detached_cost [OF assms(1)]
      detached_plain [OF assms(1) v(1)] detached_plain_id [of "detached v"] by simp
qed

theorem decode_stable_witness:
  "\<exists>w. decode_json DEFAULT_JSON_LIMITS True (PTuple [PProxy [(''k'', PInt 1)]]) = Inr w
     \<and> decode_json DEFAULT_JSON_LIMITS False w = Inr w"
proof -
  have "decode_json DEFAULT_JSON_LIMITS True (PTuple [PProxy [(''k'', PInt 1)]]) = Inr (PList [PDict [(''k'', PInt 1)]])"
    by code_simp
  from decode_stable [OF _ this] this show ?thesis by (simp add: DEFAULT_JSON_LIMITS_def)
qed

end
