(* ===== verification/Durable_Model.thy ===== *)
theory Durable_Model
  imports Py_Value
begin

text \<open>
  \<^verbatim>\<open>codey/durable/model.py\<close>: the transition tables of tasks, submissions and
  approvals, the immutable records of the durable store with the checks their
  \<open>__post_init__\<close> methods make, and the shape of a \<open>DurableMutation\<close>. A
  constructor is a function from the raw field values to the checked, canonical record;
  \<open>dataclasses.replace\<close> runs it again. The annotated types of the fields are the
  types of the model, so checks that only test an annotation disappear.
\<close>

named_theorems tables \<open>the transition tables as equations\<close>

section \<open>Task phases\<close>

definition TASK_PHASE_TRANSITIONS :: "(string, string list) dict" where
  "TASK_PHASE_TRANSITIONS =
    [(''accepted'', [''dispatching'', ''running'', ''failed'', ''cancelled'']),
     (''dispatching'', [''accepted'', ''running'', ''failed'', ''cancelled'']),
     (''running'', [''completion_pending'', ''failed'', ''cancelled'']),
     (''completion_pending'', [''completed'', ''failed'', ''cancelled'']),
     (''completed'', []), (''failed'', []), (''cancelled'', [])]"

definition TASK_CHECKPOINT_SCHEMA_VERSION :: int where
  "TASK_CHECKPOINT_SCHEMA_VERSION = 2"

definition V1_EXECUTION_PHASES :: "string list" where
  "V1_EXECUTION_PHASES =
    [''provider_prepared'', ''assistant_intent_committed'', ''assistant_response_pending'',
     ''assistant_response_unknown'', ''tool_intent_committed'', ''tool_effect_running'',
     ''tool_outcome_ready'', ''effect_unknown'', ''verification_pending'']"

definition migrate_checkpoint_phase :: "string \<Rightarrow> pyval \<Rightarrow> (string \<times> int) result" where
  "migrate_checkpoint_phase phase schema_version =
     (case as_int schema_version of
        None \<Rightarrow> Inl (ValueError ''unsupported task checkpoint schema'')
      | Some v \<Rightarrow>
          if v \<notin> set [1, TASK_CHECKPOINT_SCHEMA_VERSION]
          then Inl (ValueError ''unsupported task checkpoint schema'')
          else if v = 1 \<and> phase \<in> set V1_EXECUTION_PHASES
          then Inr (''running'', TASK_CHECKPOINT_SCHEMA_VERSION)
          else if \<not> has_key phase TASK_PHASE_TRANSITIONS
          then Inl (ValueError (''unknown task phase: '' @ phase))
          else Inr (phase, TASK_CHECKPOINT_SCHEMA_VERSION))"

definition FROZEN_TASK_STATE_KEYS :: "string list" where
  "FROZEN_TASK_STATE_KEYS =
    [''input_entry_id'', ''input_identity'', ''input_request'', ''task_policy'',
     ''reviewer_selection'', ''workflow_origin'', ''owner_task_id'', ''abandon_on_restart'',
     ''workflow_name'', ''workflow_input'', ''workflow_replay_contract'']"

definition valid_frozen_task_state :: "jobj \<Rightarrow> jobj \<Rightarrow> bool" where
  "valid_frozen_task_state previous current =
     list_all (\<lambda>key. case map_of previous key of
         None \<Rightarrow> True
       | Some p \<Rightarrow> (case map_of current key of
             None \<Rightarrow> False
           | Some c \<Rightarrow> py_eq (thaw_json p) (thaw_json c))) FROZEN_TASK_STATE_KEYS"

text \<open>
  \<open>value not in {...}\<close> hashes the value first: a list or a mapping raises
  \<open>TypeError\<close>.
\<close>

fun hashable :: "pyval \<Rightarrow> bool" where
  "hashable (PList xs) = False"
| "hashable (PDict d) = False"
| "hashable (PProxy d) = False"
| "hashable (PTuple xs) = list_all hashable xs"
| "hashable _ = True"

definition in_string_set :: "pyval \<Rightarrow> string list \<Rightarrow> bool result" where
  "in_string_set v xs =
     (if hashable v then Inr (case v of PStr s \<Rightarrow> s \<in> set xs | _ \<Rightarrow> False)
      else Inl (TypeError ''unhashable type''))"

definition validate_task_scheduler_state :: "jobj \<Rightarrow> unit result" where
  "validate_task_scheduler_state state =
     (let owner = pget state ''owner_task_id'';
          waiting_on = pget_default state ''waiting_on'' (PTuple []);
          join_policy = pget_default state ''join_policy'' (PStr ''allSettled'');
          abandon = pget_default state ''abandon_on_restart'' (PBool False)
      in if owner \<noteq> PNone \<and> \<not> nonempty_str owner
         then Inl (ValueError ''owner task ID must be a non-empty string'')
         else (case as_sequence waiting_on of
             None \<Rightarrow> Inl (ValueError ''waiting task dependencies must be a list'')
           | Some items \<Rightarrow>
               if list_ex (\<lambda>item. \<not> nonempty_str item) items
               then Inl (ValueError ''waiting task dependencies must be non-empty strings'')
               else if \<not> distinct items
               then Inl (ValueError ''waiting task dependencies must be unique'')
               else bind_r (in_string_set join_policy [''failFast'', ''allSettled'']) (\<lambda>known.
                 if \<not> known then Inl (ValueError ''unknown task join policy'')
                 else raise_if (as_bool abandon = None)
                        (ValueError ''abandon_on_restart must be boolean''))))"

definition validate_workflow_state :: "jobj \<Rightarrow> unit result" where
  "validate_workflow_state state =
     (let workflow_name = pget state ''workflow_name'';
          workflow_version = pget_default state ''workflow_version'' (PInt 1);
          replay_digest = pget state ''workflow_replay_digest''
      in if workflow_name \<noteq> PNone \<and> \<not> nonempty_str workflow_name
         then Inl (ValueError ''workflow name must be a non-empty string'')
         else if (case as_int workflow_version of None \<Rightarrow> True | Some n \<Rightarrow> n < 1)
         then Inl (ValueError ''workflow version must be a positive integer'')
         else if \<not> is_mapping (pget_default state ''workflow_input'' (PDict []))
         then Inl (ValueError ''workflow_input must be an object'')
         else if \<not> is_mapping (pget_default state ''workflow_checkpoint'' (PDict []))
         then Inl (ValueError ''workflow_checkpoint must be an object'')
         else raise_if (replay_digest \<noteq> PNone \<and> \<not> nonempty_str replay_digest)
                (ValueError ''workflow replay digest must be a non-empty string''))"

definition valid_task_transition :: "string option \<Rightarrow> string \<Rightarrow> bool" where
  "valid_task_transition previous current =
     (case previous of
        None \<Rightarrow> current \<in> set [''accepted'', ''dispatching'']
      | Some p \<Rightarrow>
          if p = current then has_key p TASK_PHASE_TRANSITIONS
          else (case map_of TASK_PHASE_TRANSITIONS p of
                  None \<Rightarrow> False
                | Some targets \<Rightarrow> current \<in> set targets))"

section \<open>Status enumerations and their transition tables\<close>

datatype submission_status = SubQueued | SubRunning | SubDone | SubUnanswered | SubCancelled

datatype submission_placement = PlacementQueued | PlacementPlaced

datatype approval_status =
  Requested | Approved | Denied | ExecutionClaimed | ExecutionSettled | Expired | ApprovalCancelled

datatype task_status =
  Pending | Running | Waiting | Completing | Completed | Failed | Cancelled

fun submission_status_value :: "submission_status \<Rightarrow> string" where
  "submission_status_value SubQueued = ''queued''"
| "submission_status_value SubRunning = ''running''"
| "submission_status_value SubDone = ''done''"
| "submission_status_value SubUnanswered = ''unanswered''"
| "submission_status_value SubCancelled = ''cancelled''"

fun placement_value :: "submission_placement \<Rightarrow> string" where
  "placement_value PlacementQueued = ''queued''"
| "placement_value PlacementPlaced = ''placed''"

fun approval_status_value :: "approval_status \<Rightarrow> string" where
  "approval_status_value Requested = ''requested''"
| "approval_status_value Approved = ''approved''"
| "approval_status_value Denied = ''denied''"
| "approval_status_value ExecutionClaimed = ''execution_claimed''"
| "approval_status_value ExecutionSettled = ''execution_settled''"
| "approval_status_value Expired = ''expired''"
| "approval_status_value ApprovalCancelled = ''cancelled''"

fun task_status_value :: "task_status \<Rightarrow> string" where
  "task_status_value Pending = ''pending''"
| "task_status_value Running = ''running''"
| "task_status_value Waiting = ''waiting''"
| "task_status_value Completing = ''completing''"
| "task_status_value Completed = ''completed''"
| "task_status_value Failed = ''failed''"
| "task_status_value Cancelled = ''cancelled''"

text \<open>\<open>ApprovalStatus(s)\<close> and \<open>TaskStatus(s)\<close> look a member up by its value.\<close>

definition approval_status_of :: "string \<Rightarrow> approval_status result" where
  "approval_status_of s =
     (case List.find (\<lambda>a. approval_status_value a = s)
         [Requested, Approved, Denied, ExecutionClaimed, ExecutionSettled, Expired, ApprovalCancelled] of
        None \<Rightarrow> Inl (ValueError (s @ '' is not a valid ApprovalStatus''))
      | Some a \<Rightarrow> Inr a)"

definition task_status_of :: "string \<Rightarrow> task_status result" where
  "task_status_of s =
     (case List.find (\<lambda>a. task_status_value a = s)
         [Pending, Running, Waiting, Completing, Completed, Failed, Cancelled] of
        None \<Rightarrow> Inl (ValueError (s @ '' is not a valid TaskStatus''))
      | Some a \<Rightarrow> Inr a)"

fun APPROVAL_STATUS_TRANSITIONS :: "approval_status \<Rightarrow> approval_status list" where
  "APPROVAL_STATUS_TRANSITIONS Requested = [Approved, Denied, Expired, ApprovalCancelled]"
| "APPROVAL_STATUS_TRANSITIONS Approved = [ExecutionClaimed, Expired, ApprovalCancelled]"
| "APPROVAL_STATUS_TRANSITIONS ExecutionClaimed = [ExecutionSettled]"
| "APPROVAL_STATUS_TRANSITIONS Denied = []"
| "APPROVAL_STATUS_TRANSITIONS ExecutionSettled = []"
| "APPROVAL_STATUS_TRANSITIONS Expired = []"
| "APPROVAL_STATUS_TRANSITIONS ApprovalCancelled = []"

definition valid_approval_transition :: "approval_status option \<Rightarrow> approval_status \<Rightarrow> bool" where
  "valid_approval_transition previous current =
     (case previous of
        None \<Rightarrow> current = Requested
      | Some p \<Rightarrow> current \<in> set (APPROVAL_STATUS_TRANSITIONS p))"

definition TASK_TERMINAL_STATUSES :: "task_status list" where
  "TASK_TERMINAL_STATUSES = [Completed, Failed, Cancelled]"

fun TASK_STATUS_TRANSITIONS :: "task_status \<Rightarrow> task_status list" where
  "TASK_STATUS_TRANSITIONS Pending = [Pending, Running, Waiting, Failed, Cancelled]"
| "TASK_STATUS_TRANSITIONS Running = [Running, Pending, Waiting, Completing, Failed, Cancelled]"
| "TASK_STATUS_TRANSITIONS Waiting = [Waiting, Running, Pending, Failed, Cancelled]"
| "TASK_STATUS_TRANSITIONS Completing = [Completing, Completed, Failed, Cancelled]"
| "TASK_STATUS_TRANSITIONS Completed = [Completed]"
| "TASK_STATUS_TRANSITIONS Failed = [Failed]"
| "TASK_STATUS_TRANSITIONS Cancelled = [Cancelled]"

definition task_status_for_phase :: "string \<Rightarrow> task_status" where
  "task_status_for_phase phase =
     (if phase = ''completed'' then Completed
      else if phase = ''failed'' then Failed
      else if phase = ''cancelled'' then Cancelled
      else if phase = ''completion_pending'' then Completing
      else if phase = ''accepted'' then Pending else Running)"

definition valid_task_status_transition :: "task_status option \<Rightarrow> task_status \<Rightarrow> bool" where
  "valid_task_status_transition previous current =
     (case previous of
        None \<Rightarrow> current \<in> set [Pending, Running]
      | Some p \<Rightarrow> current \<in> set (TASK_STATUS_TRANSITIONS p))"

fun SUBMISSION_TRANSITIONS :: "submission_status \<Rightarrow> submission_status list" where
  "SUBMISSION_TRANSITIONS SubQueued = [SubRunning, SubDone, SubUnanswered, SubCancelled]"
| "SUBMISSION_TRANSITIONS SubRunning = [SubDone, SubUnanswered, SubCancelled]"
| "SUBMISSION_TRANSITIONS SubDone = []"
| "SUBMISSION_TRANSITIONS SubUnanswered = []"
| "SUBMISSION_TRANSITIONS SubCancelled = []"

definition valid_submission_transition :: "submission_status \<Rightarrow> submission_status \<Rightarrow> bool" where
  "valid_submission_transition previous current = (current \<in> set (SUBMISSION_TRANSITIONS previous))"

section \<open>Records\<close>

record entry_draft =
  ed_entry_id :: string
  ed_conversation_id :: string
  ed_parent_id :: "string option"
  ed_kind :: string
  ed_payload :: jobj
  ed_commit_seq :: int
  ed_by_task_id :: "string option"

definition entry_draft_init :: "entry_draft \<Rightarrow> entry_draft result" where
  "entry_draft_init e =
     (if ed_entry_id e = [] \<or> ed_conversation_id e = [] \<or> ed_kind e = []
      then Inl (ValueError ''entry identity and kind are required'')
      else bind_r (canonical_obj (ed_payload e)) (\<lambda>payload. Inr (e\<lparr>ed_payload := payload\<rparr>)))"

definition entry_model :: "entry_draft \<Rightarrow> jobj option" where
  "entry_model e = as_mapping (pget (ed_payload e) ''model'')"

definition entry_head :: "entry_draft \<Rightarrow> string option" where
  "entry_head e = (case pget (ed_payload e) ''head'' of PStr s \<Rightarrow> if s = [] then None else Some s | _ \<Rightarrow> None)"

definition entry_edits :: "entry_draft \<Rightarrow> jobj list" where
  "entry_edits e = (case as_sequence (pget (ed_payload e) ''edits'') of
     None \<Rightarrow> [] | Some items \<Rightarrow> List.map_filter as_mapping items)"

text \<open>The generated \<open>__eq__\<close> of the dataclass: field by field, mappings by content.\<close>

definition entry_eq :: "entry_draft \<Rightarrow> entry_draft \<Rightarrow> bool" where
  "entry_eq a b =
     (ed_entry_id a = ed_entry_id b \<and> ed_conversation_id a = ed_conversation_id b
      \<and> ed_parent_id a = ed_parent_id b \<and> ed_kind a = ed_kind b
      \<and> obj_eq (ed_payload a) (ed_payload b)
      \<and> ed_commit_seq a = ed_commit_seq b \<and> ed_by_task_id a = ed_by_task_id b)"

record submission_draft =
  sd_submission_id :: string
  sd_request_id :: string
  sd_conversation_id :: string
  sd_entry :: "entry_draft option"
  sd_fingerprint :: string
  sd_status :: submission_status
  sd_placement :: submission_placement
  sd_mode :: string
  sd_content :: "jobj option"
  sd_reason :: "string option"

definition SUBMISSION_MODES :: "string list" where
  "SUBMISSION_MODES = [''steer'', ''follow_up'', ''write'']"

definition submission_draft_init :: "submission_draft \<Rightarrow> submission_draft result" where
  "submission_draft_init d =
     (let valid_write_terminal =
            (sd_mode d = ''write'' \<and> sd_status d = SubDone \<and> sd_placement d = PlacementPlaced)
            \<or> (sd_mode d = ''write'' \<and> sd_status d = SubUnanswered
                \<and> sd_placement d = PlacementQueued \<and> sd_reason d = Some ''stale'')
      in if sd_submission_id d = [] \<or> sd_request_id d = [] \<or> sd_conversation_id d = []
         then Inl (ValueError ''submission identity and request ID are required'')
         else if (case sd_entry d of None \<Rightarrow> False
                  | Some e \<Rightarrow> ed_conversation_id e \<noteq> sd_conversation_id d)
         then Inl (ValueError ''submission entry belongs to another conversation'')
         else if sd_mode d \<notin> set SUBMISSION_MODES
         then Inl (ValueError ''unknown submission mode'')
         else if sd_status d \<noteq> SubQueued \<and> \<not> valid_write_terminal
         then Inl (ValueError ''new input submissions must start queued'')
         else if sd_placement d = PlacementPlaced \<and> sd_entry d = None
         then Inl (ValueError ''placed submissions require an entry'')
         else if sd_placement d = PlacementQueued \<and> sd_entry d \<noteq> None
         then Inl (ValueError ''queued submissions cannot already have an entry'')
         else bind_r (canonical_opt (sd_content d)) (\<lambda>content.
           if sd_placement d = PlacementQueued \<and> content = None
           then Inl (ValueError ''queued submissions require content'')
           else if sd_reason d = Some []
           then Inl (ValueError ''submission reason cannot be empty'')
           else Inr (d\<lparr>sd_content := content\<rparr>)))"

record submission_record =
  sr_submission_id :: string
  sr_conversation_id :: string
  sr_request_id :: string
  sr_status :: submission_status
  sr_input_entry_id :: "string option"
  sr_answer_entry_id :: "string option"
  sr_reason :: "string option"
  sr_detail :: "jobj option"
  sr_placement :: submission_placement
  sr_mode :: string
  sr_content :: "jobj option"

text \<open>An optional string that is absent or empty is false in Python.\<close>

definition falsy :: "string option \<Rightarrow> bool" where
  "falsy x = (x = None \<or> x = Some [])"

definition consumed_steer :: "submission_record \<Rightarrow> jobj option \<Rightarrow> bool" where
  "consumed_steer r detail =
     (sr_mode r = ''steer''
      \<and> (case detail of None \<Rightarrow> False | Some d \<Rightarrow> nonempty_str (pget d ''consumed_by_task_id''))
      \<and> \<not> falsy (sr_input_entry_id r))"

definition submission_record_init :: "submission_record \<Rightarrow> submission_record result" where
  "submission_record_init r =
     (if sr_submission_id r = [] \<or> sr_conversation_id r = [] \<or> sr_request_id r = []
      then Inl (ValueError ''submission record identity is required'')
      else if sr_mode r \<notin> set SUBMISSION_MODES
      then Inl (ValueError ''unknown submission mode'')
      else if sr_placement r = PlacementPlaced \<and> falsy (sr_input_entry_id r)
      then Inl (ValueError ''placed submissions require an input entry'')
      else if sr_placement r = PlacementQueued \<and> sr_input_entry_id r \<noteq> None
      then Inl (ValueError ''queued submissions cannot reference an input entry'')
      else bind_r (canonical_opt (sr_detail r)) (\<lambda>detail.
           bind_r (canonical_opt (sr_content r)) (\<lambda>content.
             if sr_status r = SubDone \<and> sr_mode r = ''write'' \<and> falsy (sr_input_entry_id r)
             then Inl (ValueError ''completed writes require an entry'')
             else if sr_status r = SubDone \<and> sr_mode r \<noteq> ''write'' \<and> \<not> consumed_steer r detail
                     \<and> falsy (sr_answer_entry_id r)
             then Inl (ValueError ''completed submissions require an answer entry'')
             else if sr_status r \<noteq> SubDone \<and> sr_answer_entry_id r \<noteq> None
             then Inl (ValueError ''only completed submissions may reference an answer entry'')
             else Inr (r\<lparr>sr_detail := detail, sr_content := content\<rparr>))))"

record submission_update =
  su_submission_id :: string
  su_conversation_id :: string
  su_expected_status :: submission_status
  su_status :: submission_status
  su_answer_entry_id :: "string option"
  su_reason :: "string option"
  su_detail :: "jobj option"
  su_input_entry_id :: "string option"
  su_placement :: "submission_placement option"
  su_content :: "jobj option"
  su_mode :: "string option"

definition submission_update_init :: "submission_update \<Rightarrow> submission_update result" where
  "submission_update_init u =
     (if (case su_mode u of None \<Rightarrow> False | Some m \<Rightarrow> m \<notin> set [''steer'', ''follow_up''])
      then Inl (ValueError ''invalid queued input mode'')
      else bind_r (canonical_opt (su_content u)) (\<lambda>content.
        if su_expected_status u \<noteq> su_status u
           \<and> \<not> valid_submission_transition (su_expected_status u) (su_status u)
        then Inl (ValueError ''invalid submission transition'')
        else bind_r (canonical_opt (su_detail u)) (\<lambda>detail.
          if su_status u = SubDone \<and> su_answer_entry_id u = None \<and> su_input_entry_id u = None
          then Inl (ValueError ''completed submissions require an entry'')
          else if su_status u \<noteq> SubDone \<and> su_answer_entry_id u \<noteq> None
          then Inl (ValueError ''only completed submissions may reference an answer entry'')
          else Inr (u\<lparr>su_content := content, su_detail := detail\<rparr>))))"

subsection \<open>Approvals\<close>

record approval_record =
  apr_approval_id :: string
  apr_task_id :: string
  apr_conversation_id :: string
  apr_status :: approval_status
  apr_command_digest :: string
  apr_command_ref :: string
  apr_cwd :: string
  apr_revision :: int
  apr_settlement :: "jobj option"
  apr_continuation_status :: string
  apr_continuation_run_id :: string

definition CONTINUATION_STATUSES :: "string list" where
  "CONTINUATION_STATUSES =
    [''waiting_for_result'', ''queued'', ''resuming'', ''started'', ''failed'',
     ''unavailable'', ''cancelled'', ''not_required'']"

definition approval_record_init :: "approval_record \<Rightarrow> approval_record result" where
  "approval_record_init a =
     (if apr_approval_id a = [] \<or> apr_task_id a = [] \<or> apr_conversation_id a = []
      then Inl (ValueError ''approval identity is required'')
      else if apr_revision a < 0
      then Inl (ValueError ''approval revision cannot be negative'')
      else if apr_command_digest a = [] \<or> apr_command_ref a = [] \<or> apr_cwd a = []
      then Inl (ValueError ''approval command identity is required'')
      else if apr_continuation_status a \<notin> set CONTINUATION_STATUSES
      then Inl (ValueError ''invalid approval continuation status'')
      else bind_r (canonical_opt (apr_settlement a)) (\<lambda>settlement.
             Inr (a\<lparr>apr_settlement := settlement\<rparr>)))"

definition approval_to_payload :: "approval_record \<Rightarrow> jobj" where
  "approval_to_payload a =
    [(''approval_id'', PStr (apr_approval_id a)),
     (''task_id'', PStr (apr_task_id a)),
     (''conversation_id'', PStr (apr_conversation_id a)),
     (''status'', PStr (approval_status_value (apr_status a))),
     (''command_digest'', PStr (apr_command_digest a)),
     (''command_ref'', PStr (apr_command_ref a)),
     (''cwd'', PStr (apr_cwd a)),
     (''revision'', PInt (apr_revision a)),
     (''settlement'', (case apr_settlement a of None \<Rightarrow> PNone | Some d \<Rightarrow> thaw_json (PProxy d))),
     (''continuation_status'', PStr (apr_continuation_status a)),
     (''continuation_run_id'', PStr (apr_continuation_run_id a))]"

definition payload_revision :: "pyval \<Rightarrow> int result" where
  "payload_revision v =
     (case v of
        PInt n \<Rightarrow> Inr n
      | PBool b \<Rightarrow> Inr (if b then 1 else 0)
      | PStr s \<Rightarrow> parse_int s
      | _ \<Rightarrow> Inr 0)"

definition approval_from_payload :: "jobj \<Rightarrow> approval_record result" where
  "approval_from_payload payload =
     bind_r (payload_revision (pget payload ''revision'')) (\<lambda>revision.
     bind_r (str_or (pget payload ''approval_id'') []) (\<lambda>approval_id.
     bind_r (str_or (pget payload ''task_id'') []) (\<lambda>task_id.
     bind_r (str_or (pget payload ''conversation_id'') []) (\<lambda>conversation_id.
     bind_r (str_or (pget payload ''status'') []) (\<lambda>status_text.
     bind_r (approval_status_of status_text) (\<lambda>status.
     bind_r (str_or (pget payload ''command_digest'') []) (\<lambda>command_digest.
     bind_r (str_or (pget payload ''command_ref'') []) (\<lambda>command_ref.
     bind_r (str_or (pget payload ''cwd'') []) (\<lambda>cwd.
     bind_r (str_or (pget payload ''continuation_status'') ''waiting_for_result'') (\<lambda>continuation_status.
     bind_r (str_or (pget payload ''continuation_run_id'') []) (\<lambda>continuation_run_id.
       approval_record_init
         \<lparr>apr_approval_id = approval_id, apr_task_id = task_id,
          apr_conversation_id = conversation_id, apr_status = status,
          apr_command_digest = command_digest, apr_command_ref = command_ref, apr_cwd = cwd,
          apr_revision = revision, apr_settlement = as_mapping (pget payload ''settlement''),
          apr_continuation_status = continuation_status,
          apr_continuation_run_id = continuation_run_id\<rparr>)))))))))))"

subsection \<open>Identity of entries and submissions\<close>

definition same_entry_content :: "entry_draft \<Rightarrow> entry_draft \<Rightarrow> bool" where
  "same_entry_content a b =
     (ed_conversation_id a = ed_conversation_id b \<and> ed_parent_id a = ed_parent_id b
      \<and> ed_kind a = ed_kind b \<and> obj_eq (ed_payload a) (ed_payload b))"

definition or_empty :: "jobj option \<Rightarrow> jobj" where
  "or_empty x = (case x of None \<Rightarrow> [] | Some d \<Rightarrow> d)"

definition same_submission :: "submission_draft \<Rightarrow> submission_draft \<Rightarrow> bool" where
  "same_submission a b =
     (if sd_placement a \<noteq> sd_placement b \<or> sd_mode a \<noteq> sd_mode b \<or> sd_status a \<noteq> sd_status b
         \<or> sd_reason a \<noteq> sd_reason b
      then False
      else (case (sd_entry a, sd_entry b) of
              (Some x, Some y) \<Rightarrow>
                ed_conversation_id x = ed_conversation_id y \<and> ed_kind x = ed_kind y
                \<and> obj_eq (ed_payload x) (ed_payload y)
            | (None, None) \<Rightarrow> True
            | _ \<Rightarrow> False)
           \<and> obj_eq (or_empty (sd_content a)) (or_empty (sd_content b))
           \<and> sd_fingerprint a = sd_fingerprint b)"

subsection \<open>Commits\<close>

record commit_record =
  cr_sequence :: int
  cr_kind :: string
  cr_committed_at :: string
  cr_payload :: jobj

definition commit_record_init :: "commit_record \<Rightarrow> commit_record result" where
  "commit_record_init r =
     bind_r (canonical_obj (cr_payload r)) (\<lambda>payload. Inr (r\<lparr>cr_payload := payload\<rparr>))"

definition commit_record_to_payload :: "commit_record \<Rightarrow> jobj" where
  "commit_record_to_payload r =
     dupdate
       [(''type'', PStr ''durable_commit''), (''commit_seq'', PInt (cr_sequence r)),
        (''kind'', PStr (cr_kind r)), (''committed_at'', PStr (cr_committed_at r)),
        (''schema_version'', PInt 1)]
       (thaw_obj (cr_payload r))"

record commit_result =
  cres_revision :: int
  cres_sequence :: int
  cres_submission_id :: "string option"
  cres_record :: "commit_record option"

subsection \<open>Task checkpoints\<close>

record task_checkpoint =
  tc_task_id :: string
  tc_conversation_id :: string
  tc_submission_id :: string
  tc_phase :: string
  tc_revision :: int
  tc_provider_snapshot :: jobj
  tc_state :: jobj
  tc_current_turn_id :: "string option"
  tc_pending_effect_id :: "string option"
  tc_status :: task_status
  tc_schema_version :: int

definition attempt_token :: "task_checkpoint \<Rightarrow> string" where
  "attempt_token t = (case pget (tc_state t) ''attempt_token'' of PStr s \<Rightarrow> s | _ \<Rightarrow> [])"

definition owner_task_id :: "task_checkpoint \<Rightarrow> string option" where
  "owner_task_id t =
     (case pget (tc_state t) ''owner_task_id'' of PStr s \<Rightarrow> if s = [] then None else Some s | _ \<Rightarrow> None)"

definition waiting_on :: "task_checkpoint \<Rightarrow> string list" where
  "waiting_on t =
     (case as_sequence (pget_default (tc_state t) ''waiting_on'' (PTuple [])) of
        None \<Rightarrow> []
      | Some items \<Rightarrow> List.map_filter as_str items)"

definition join_policy :: "task_checkpoint \<Rightarrow> string" where
  "join_policy t =
     (case pget_default (tc_state t) ''join_policy'' (PStr ''allSettled'') of
        PStr s \<Rightarrow> if s \<in> set [''failFast'', ''allSettled''] then s else ''allSettled''
      | _ \<Rightarrow> ''allSettled'')"

definition workflow_name :: "task_checkpoint \<Rightarrow> string option" where
  "workflow_name t =
     (case pget (tc_state t) ''workflow_name'' of PStr s \<Rightarrow> if s = [] then None else Some s | _ \<Rightarrow> None)"

definition workflow_version :: "task_checkpoint \<Rightarrow> int" where
  "workflow_version t =
     (case pget_default (tc_state t) ''workflow_version'' (PInt 1) of
        PInt n \<Rightarrow> if 1 \<le> n then n else 1 | _ \<Rightarrow> 1)"

definition validate_attempt :: "jobj \<Rightarrow> unit result" where
  "validate_attempt state =
     (case (as_int (pget_default state ''attempt_number'' (PInt 0)),
            as_str (pget_default state ''attempt_token'' (PStr [])),
            as_str (pget_default state ''attempt_owner'' (PStr [])),
            as_int (pget_default state ''attempt_process_id'' (PInt 0))) of
        (Some attempt, Some token, Some owner, Some process_id) \<Rightarrow>
          if attempt < 0 \<or> process_id < 0
          then Inl (ValueError ''invalid task execution attempt'')
          else if (token \<noteq> []) \<noteq> (owner \<noteq> []) \<or> (token \<noteq> [] \<and> attempt = 0)
          then Inl (ValueError ''invalid task execution attempt ownership'')
          else if token \<noteq> [] \<and> process_id \<le> 0
          then Inl (ValueError ''running task attempt requires an owner process'')
          else raise_if (token = [] \<and> process_id \<noteq> 0)
                 (ValueError ''unowned task cannot retain an owner process'')
      | _ \<Rightarrow> Inl (ValueError ''invalid task execution attempt''))"

definition validate_pending_effects :: "jobj \<Rightarrow> string option \<Rightarrow> unit result" where
  "validate_pending_effects state pending_effect_id =
     (case pget state ''pending_effect_ids'' of
        PNone \<Rightarrow> raise_if (pending_effect_id \<noteq> None)
                  (ValueError ''pending effect checkpoint is inconsistent'')
      | PList ids \<Rightarrow>
          if list_ex (\<lambda>i. \<not> nonempty_str i) ids
          then Inl (ValueError ''pending effect IDs must be non-empty strings'')
          else if \<not> distinct ids
          then Inl (ValueError ''pending effect IDs must be unique'')
          else raise_if (pending_effect_id \<noteq> (if ids = [] then None else as_str (last ids)))
                 (ValueError ''pending effect checkpoint is inconsistent'')
      | _ \<Rightarrow> Inl (ValueError ''pending effect IDs must be a list''))"

text \<open>
  \<open>TaskCheckpoint.__post_init__\<close>; the first argument is the \<open>status\<close>
  argument, \<open>None\<close> when it is derived from the phase.
\<close>

definition task_checkpoint_init :: "task_status option \<Rightarrow> task_checkpoint \<Rightarrow> task_checkpoint result" where
  "task_checkpoint_init st t =
     (let status = (case st of None \<Rightarrow> task_status_for_phase (tc_phase t) | Some x \<Rightarrow> x);
          provider_snapshot = thaw_obj (tc_provider_snapshot t);
          state = thaw_obj (tc_state t)
      in if tc_task_id t = [] \<or> tc_conversation_id t = [] \<or> tc_submission_id t = [] \<or> tc_phase t = []
         then Inl (ValueError ''task identity and phase are required'')
         else if \<not> has_key (tc_phase t) TASK_PHASE_TRANSITIONS
         then Inl (ValueError (''unknown task phase: '' @ tc_phase t))
         else if tc_revision t < 0
         then Inl (ValueError ''task revision cannot be negative'')
         else if tc_schema_version t \<noteq> TASK_CHECKPOINT_SCHEMA_VERSION
         then Inl (ValueError ''unsupported task checkpoint schema'')
         else if status \<in> set TASK_TERMINAL_STATUSES \<and> tc_phase t \<noteq> task_status_value status
         then Inl (ValueError ''terminal task status must match its terminal phase'')
         else if status \<notin> set TASK_TERMINAL_STATUSES
                 \<and> tc_phase t \<in> set [''completed'', ''failed'', ''cancelled'']
         then Inl (ValueError ''terminal task phase requires a terminal status'')
         else bind_r (validate_json (PDict provider_snapshot)) (\<lambda>_.
              bind_r (validate_json (PDict state)) (\<lambda>_.
              bind_r (validate_task_scheduler_state state) (\<lambda>_.
              bind_r (validate_workflow_state state) (\<lambda>_.
              bind_r (validate_attempt state) (\<lambda>_.
              bind_r (validate_pending_effects state (tc_pending_effect_id t)) (\<lambda>_.
                Inr (t\<lparr>tc_status := status,
                       tc_provider_snapshot := freeze_obj provider_snapshot,
                       tc_state := freeze_obj state\<rparr>))))))))"

definition task_replace :: "task_checkpoint \<Rightarrow> task_checkpoint result" where
  "task_replace t = task_checkpoint_init (Some (tc_status t)) t"


definition workflow_input :: "task_checkpoint \<Rightarrow> jobj" where
  "workflow_input t =
     (case as_mapping (pget_default (tc_state t) ''workflow_input'' (PDict [])) of
        None \<Rightarrow> [] | Some d \<Rightarrow> d)"

definition workflow_checkpoint :: "task_checkpoint \<Rightarrow> jobj" where
  "workflow_checkpoint t =
     (case as_mapping (pget_default (tc_state t) ''workflow_checkpoint'' (PDict [])) of
        None \<Rightarrow> [] | Some d \<Rightarrow> d)"

definition replay_digest :: "task_checkpoint \<Rightarrow> string option" where
  "replay_digest t =
     (case pget (tc_state t) ''workflow_replay_digest'' of
        PStr s \<Rightarrow> if s = [] then None else Some s | _ \<Rightarrow> None)"

subsection \<open>Effects and artifacts\<close>

record effect_record =
  ef_effect_id :: string
  ef_task_id :: string
  ef_category :: string
  ef_replay_class :: string
  ef_args_digest :: string
  ef_status :: string
  ef_intent :: jobj
  ef_settlement :: "jobj option"

definition effect_record_init :: "effect_record \<Rightarrow> effect_record result" where
  "effect_record_init e =
     (if ef_effect_id e = [] \<or> ef_task_id e = [] \<or> ef_category e = [] \<or> ef_replay_class e = []
         \<or> ef_args_digest e = [] \<or> ef_status e = []
      then Inl (ValueError ''effect identity and classification are required'')
      else bind_r (canonical_obj (ef_intent e)) (\<lambda>intent.
           bind_r (canonical_opt (ef_settlement e)) (\<lambda>settlement.
             Inr (e\<lparr>ef_intent := intent, ef_settlement := settlement\<rparr>))))"

definition opt_obj_eq :: "jobj option \<Rightarrow> jobj option \<Rightarrow> bool" where
  "opt_obj_eq a b = (case (a, b) of (None, None) \<Rightarrow> True | (Some x, Some y) \<Rightarrow> obj_eq x y | _ \<Rightarrow> False)"

definition effect_eq :: "effect_record \<Rightarrow> effect_record \<Rightarrow> bool" where
  "effect_eq a b =
     (ef_effect_id a = ef_effect_id b \<and> ef_task_id a = ef_task_id b \<and> ef_category a = ef_category b
      \<and> ef_replay_class a = ef_replay_class b \<and> ef_args_digest a = ef_args_digest b
      \<and> ef_status a = ef_status b \<and> obj_eq (ef_intent a) (ef_intent b)
      \<and> opt_obj_eq (ef_settlement a) (ef_settlement b))"

record artifact_record =
  ar_handle :: string
  ar_sha256 :: string
  ar_byte_count :: int
  ar_storage_path :: string
  ar_owner_task_id :: "string option"
  ar_owner_effect_id :: "string option"
  ar_created_at :: string
  ar_metadata :: jobj

definition hex_chars :: string where
  "hex_chars = ''0123456789abcdef''"

definition artifact_record_init :: "artifact_record \<Rightarrow> artifact_record result" where
  "artifact_record_init a =
     (if ar_handle a = [] \<or> ar_sha256 a = [] \<or> length (ar_sha256 a) \<noteq> 64
         \<or> list_ex (\<lambda>c. c \<notin> set hex_chars) (ar_sha256 a)
      then Inl (ValueError ''artifact handle and sha256 are required'')
      else if ar_byte_count a < 0
      then Inl (ValueError ''artifact byte count must be a non-negative integer'')
      else if ar_storage_path a = []
      then Inl (ValueError ''artifact storage path is required'')
      else if ar_owner_task_id a = None \<and> ar_owner_effect_id a = None
      then Inl (ValueError ''artifact must have a task or effect owner'')
      else if ar_owner_task_id a = Some []
      then Inl (ValueError ''artifact task owner cannot be empty'')
      else if ar_owner_effect_id a = Some []
      then Inl (ValueError ''artifact effect owner cannot be empty'')
      else bind_r (canonical_obj (ar_metadata a)) (\<lambda>metadata. Inr (a\<lparr>ar_metadata := metadata\<rparr>)))"

definition validate_artifact_handles :: "artifact_record list \<Rightarrow> unit result" where
  "validate_artifact_handles artifacts =
     raise_if (\<not> distinct (map ar_handle artifacts))
       (ValueError ''artifact handles must be unique within a mutation'')"

section \<open>Guards on a checkpoint update\<close>

definition valid_cancellation_cleanup :: "jobj \<Rightarrow> task_checkpoint \<Rightarrow> bool" where
  "valid_cancellation_cleanup previous current =
     (case (as_mapping (pget previous ''operation''), as_mapping (pget (tc_state current) ''operation'')) of
        (Some before, Some after) \<Rightarrow>
          truthy (pget (tc_state current) ''cancel_requested'')
          \<and> tc_phase current = ''running''
          \<and> tc_status current \<in> set [Running, Pending, Waiting]
          \<and> list_all (\<lambda>key. py_eq (pget before key) (pget after key))
               [''session_id'', ''run_id'', ''operation_id'', ''writer_attempt'', ''repair_rounds'']
          \<and> (case pget after ''leaf'' of
               PStr leaf \<Rightarrow> leaf \<in> set
                 [''closing'', ''plan_ready'', ''completion_pending'', ''control_ready'',
                  ''provider_request_ready'', ''provider_effect_pending'', ''provider_response_ready'',
                  ''tool_effect_pending'', ''tool_delivery_pending'', ''kernel_settled'',
                  ''writer_settled'', ''repair_settled'', ''terminal'']
             | _ \<Rightarrow> False)
          \<and> \<not> py_eq (pget after ''stop_reason'') (PStr ''done'')
      | _ \<Rightarrow> False)"

definition kernel_cleanup_required :: "task_checkpoint \<Rightarrow> bool" where
  "kernel_cleanup_required task =
     (case as_mapping (pget (tc_state task) ''operation'') of
        None \<Rightarrow> False
      | Some operation \<Rightarrow>
          truthy (pget (tc_state task) ''pending_effect_ids'')
          \<or> (case pget operation ''leaf'' of
               PStr leaf \<Rightarrow> leaf \<in> set
                 [''provider_request_ready'', ''provider_response_ready'', ''plan_ready'',
                  ''completion_pending'', ''control_ready'', ''closing'',
                  ''tool_effect_pending'', ''tool_delivery_pending'']
             | _ \<Rightarrow> False))"

definition cancellation_receipts_only :: "task_checkpoint \<Rightarrow> effect_record list \<Rightarrow> bool" where
  "cancellation_receipts_only current effects =
     (case as_mapping (pget (tc_state current) ''operation'') of
        None \<Rightarrow> False
      | Some position \<Rightarrow>
          py_eq (pget position ''leaf'') (PStr ''provider_request_ready'')
          \<and> truthy (pget position ''work_ref'')
          \<and> list_all (\<lambda>effect. ef_category effect = ''provider_send''
                \<and> py_eq (pget (ef_intent effect) ''display_ref'') (PStr ''closing_acknowledgement'')
                \<and> py_eq (pget (ef_intent effect) ''request_ref'') (pget position ''request_ref'')) effects)"

definition valid_input_consumption ::
  "string \<Rightarrow> string \<Rightarrow> jobj \<Rightarrow> task_checkpoint \<Rightarrow> bool" where
  "valid_input_consumption previous_phase previous_status previous_state current =
     (previous_phase = ''accepted'' \<and> previous_status = ''pending''
      \<and> py_eq (pget previous_state ''input_mode'') (PStr ''steer'')
      \<and> py_eq (pget previous_state ''input_state'') (PStr ''queued'')
      \<and> \<not> truthy (pget previous_state ''attempt_token'')
      \<and> tc_phase current = ''completed'' \<and> tc_status current = Completed
      \<and> py_eq (pget (tc_state current) ''input_state'') (PStr ''consumed'')
      \<and> (case pget (tc_state current) ''consumed_by_task_id'' of
           PStr consumer \<Rightarrow> consumer \<noteq> [] \<and> consumer \<noteq> tc_task_id current
         | _ \<Rightarrow> False)
      \<and> is_str (pget (tc_state current) ''input_entry_id'')
      \<and> attempt_token current = [])"

definition valid_execution_attempt ::
  "jobj \<Rightarrow> task_status \<Rightarrow> task_checkpoint \<Rightarrow> string option \<Rightarrow> bool" where
  "valid_execution_attempt previous_state previous_status current expected =
     (let previous_token = pget_default previous_state ''attempt_token'' (PStr []);
          old_number = pget_default previous_state ''attempt_number'' (PInt 0);
          new_number = pget_default (tc_state current) ''attempt_number'' (PInt 0)
      in if \<not> py_eq previous_token (PStr (case expected of None \<Rightarrow> [] | Some e \<Rightarrow> e)) then False
         else if py_eq (PStr (attempt_token current)) previous_token
         then py_eq old_number new_number
              \<and> py_eq (pget_default previous_state ''attempt_owner'' (PStr []))
                      (pget_default (tc_state current) ''attempt_owner'' (PStr []))
         else if attempt_token current = []
         then tc_status current \<in> set [Pending, Waiting, Completed, Failed, Cancelled]
              \<and> py_eq new_number old_number
         else previous_status = Pending \<and> tc_status current = Running
              \<and> \<not> truthy previous_token
              \<and> (case as_int old_number of None \<Rightarrow> False | Some n \<Rightarrow> py_eq new_number (PInt (n + 1))))"

section \<open>Mutations\<close>

record create_conversation =
  cc_parent_conversation_id :: "string option"
  cc_parent_entry_id :: "string option"

definition create_conversation_init :: "create_conversation \<Rightarrow> create_conversation result" where
  "create_conversation_init c =
     (if falsy (cc_parent_conversation_id c) \<noteq> falsy (cc_parent_entry_id c)
      then Inl (ValueError ''a fork requires both its parent conversation and entry cap'')
      else Inr c)"

record durable_mutation =
  dm_conversation_id :: string
  dm_expected_revision :: int
  dm_entries :: "entry_draft list"
  dm_submission :: "submission_draft option"
  dm_task :: "task_checkpoint option"
  dm_task_updates :: "task_checkpoint list"
  dm_effect :: "effect_record option"
  dm_effects :: "effect_record list"
  dm_expected_effect_status :: "string option"
  dm_sub_update :: "submission_update option"
  dm_sub_updates :: "submission_update list"
  dm_settlements :: "effect_record list"
  dm_artifacts :: "artifact_record list"
  dm_expected_attempt_token :: "string option"
  dm_approval :: "approval_record option"
  dm_expected_approval_status :: "approval_status option"
  dm_create_conversation :: "create_conversation option"
  dm_delete_conversation :: bool
  dm_branch_entry_id :: "string option"
  dm_edited_entry_id :: "string option"
  dm_replaced_run_ids :: "string list"

text \<open>\<open>DurableMutation(conversation_id, expected_revision)\<close> with every other field at its default.\<close>

definition empty_mutation :: "string \<Rightarrow> int \<Rightarrow> durable_mutation" where
  "empty_mutation cid revision =
     \<lparr>dm_conversation_id = cid, dm_expected_revision = revision, dm_entries = [],
      dm_submission = None, dm_task = None, dm_task_updates = [], dm_effect = None,
      dm_effects = [], dm_expected_effect_status = None, dm_sub_update = None,
      dm_sub_updates = [], dm_settlements = [], dm_artifacts = [],
      dm_expected_attempt_token = None, dm_approval = None, dm_expected_approval_status = None,
      dm_create_conversation = None, dm_delete_conversation = False, dm_branch_entry_id = None,
      dm_edited_entry_id = None, dm_replaced_run_ids = []\<rparr>"

text \<open>The tuples \<open>(x,) if x is not None else ()\<close> joined with the plural field.\<close>

definition opt_list :: "'a option \<Rightarrow> 'a list" where
  "opt_list x = (case x of None \<Rightarrow> [] | Some y \<Rightarrow> [y])"

definition all_tasks :: "durable_mutation \<Rightarrow> task_checkpoint list" where
  "all_tasks m = opt_list (dm_task m) @ dm_task_updates m"

definition all_effects :: "durable_mutation \<Rightarrow> effect_record list" where
  "all_effects m = opt_list (dm_effect m) @ dm_effects m @ dm_settlements m"

definition all_updates :: "durable_mutation \<Rightarrow> submission_update list" where
  "all_updates m = opt_list (dm_sub_update m) @ dm_sub_updates m"

definition validate_mutation_tasks :: "durable_mutation \<Rightarrow> unit result" where
  "validate_mutation_tasks m =
     (if \<not> distinct (map tc_task_id (all_tasks m))
      then Inl (ValueError ''task IDs must be unique within a mutation'')
      else raise_if (list_ex (\<lambda>t. tc_conversation_id t \<noteq> dm_conversation_id m) (all_tasks m))
             (ValueError ''task belongs to another conversation''))"

definition validate_mutation_effects :: "durable_mutation \<Rightarrow> unit result" where
  "validate_mutation_effects m =
     (let effect_ids = map ef_effect_id (dm_effects m @ dm_settlements m);
          effect_task_ids = remdups (map ef_task_id (all_effects m))
      in if (case (dm_effect m, dm_task m) of
               (Some e, Some t) \<Rightarrow> ef_task_id e \<noteq> tc_task_id t | _ \<Rightarrow> False)
         then Inl (ValueError ''effect must belong to the task in this mutation'')
         else if \<not> distinct effect_ids
         then Inl (ValueError ''effect IDs must be unique within a mutation'')
         else if length effect_task_ids > 1
              \<or> (case dm_task m of None \<Rightarrow> False
                 | Some t \<Rightarrow> effect_task_ids \<noteq> [] \<and> set effect_task_ids \<noteq> {tc_task_id t})
         then Inl (ValueError ''effects must belong to one task in this mutation'')
         else if (case dm_effect m of None \<Rightarrow> False | Some e \<Rightarrow> ef_effect_id e \<in> set effect_ids)
         then Inl (ValueError ''effect cannot be listed twice in a mutation'')
         else bind_r (validate_artifact_handles (dm_artifacts m)) (\<lambda>_.
           if dm_expected_effect_status m \<noteq> None \<and> dm_effect m = None
           then Inl (ValueError ''expected_effect_status requires an effect update'')
           else raise_if (list_ex (\<lambda>e. ef_settlement e = None \<or> ef_status e = ''pending'') (dm_settlements m))
                  (ValueError ''effect settlements require a terminal outcome'')))"

definition validate_input_revision ::
  "task_checkpoint list \<Rightarrow> submission_update \<Rightarrow> unit result" where
  "validate_input_revision tasks u =
     (if su_content u = None \<and> su_mode u = None then Inr ()
      else (case List.find (\<lambda>t. tc_submission_id t = su_submission_id u) tasks of
          None \<Rightarrow> Inl (ValueError ''queued input revision requires its pending task in the same commit'')
        | Some t \<Rightarrow>
            if tc_phase t \<noteq> ''accepted'' \<or> tc_status t \<noteq> Pending
               \<or> \<not> py_eq (pget (tc_state t) ''input_state'') (PStr ''queued'')
               \<or> attempt_token t \<noteq> []
            then Inl (ValueError ''queued input revision requires its pending task in the same commit'')
            else if (case su_content u of None \<Rightarrow> False
                     | Some c \<Rightarrow> \<not> py_eq (pget c ''text'') (pget (tc_state t) ''input_text''))
            then Inl (ValueError ''queued input text must match its task'')
            else raise_if (case su_mode u of None \<Rightarrow> False
                     | Some mode \<Rightarrow> \<not> py_eq (PStr mode) (pget (tc_state t) ''input_mode''))
                   (ValueError ''queued input mode must match its task'')))"

definition validate_mutation_submissions :: "durable_mutation \<Rightarrow> unit result" where
  "validate_mutation_submissions m =
     (if \<not> distinct (map su_submission_id (all_updates m))
      then Inl (ValueError ''submission IDs must be unique within a mutation'')
      else if list_ex (\<lambda>u. su_conversation_id u \<noteq> dm_conversation_id m) (all_updates m)
      then Inl (ValueError ''submission update belongs to another conversation'')
      else check_each (validate_input_revision (all_tasks m)) (all_updates m))"

text \<open>The fields an edit, a deletion or a branch may not carry with it.\<close>

definition carries_side_changes :: "durable_mutation \<Rightarrow> bool" where
  "carries_side_changes m =
     (dm_task_updates m \<noteq> [] \<or> dm_effect m \<noteq> None \<or> dm_effects m \<noteq> []
      \<or> dm_sub_update m \<noteq> None \<or> dm_sub_updates m \<noteq> []
      \<or> dm_settlements m \<noteq> [] \<or> dm_artifacts m \<noteq> [] \<or> dm_approval m \<noteq> None)"

definition carries_changes :: "durable_mutation \<Rightarrow> bool" where
  "carries_changes m =
     (dm_entries m \<noteq> [] \<or> dm_submission m \<noteq> None \<or> dm_task m \<noteq> None \<or> carries_side_changes m)"

definition validate_mutation_shape :: "durable_mutation \<Rightarrow> unit result" where
  "validate_mutation_shape m =
     (if (case dm_edited_entry_id m of
            Some edited \<Rightarrow>
              edited = [] \<or> dm_branch_entry_id m \<noteq> None \<or> dm_create_conversation m \<noteq> None
              \<or> dm_delete_conversation m
              \<or> (case dm_entries m of [e] \<Rightarrow> ed_kind e \<noteq> ''user_message'' | _ \<Rightarrow> True)
              \<or> dm_submission m = None \<or> dm_task m = None \<or> carries_side_changes m
          | None \<Rightarrow> False)
      then Inl (ValueError ''an edit requires one replacement input, submission and task'')
      else if dm_edited_entry_id m = None \<and> dm_replaced_run_ids m \<noteq> []
      then Inl (ValueError ''replaced runs require an edit'')
      else if dm_create_conversation m \<noteq> None \<and> dm_delete_conversation m
      then Inl (ValueError ''a mutation cannot create and delete a conversation'')
      else if dm_delete_conversation m \<and> carries_changes m
      then Inl (ValueError ''conversation deletion cannot include other durable changes'')
      else if dm_branch_entry_id m = Some []
      then Inl (ValueError ''branch_entry_id must be a non-empty string'')
      else if dm_branch_entry_id m \<noteq> None
              \<and> (dm_create_conversation m \<noteq> None \<or> dm_delete_conversation m \<or> carries_changes m)
      then Inl (ValueError ''branch cannot include other durable changes'')
      else if list_ex (\<lambda>e. ed_conversation_id e \<noteq> dm_conversation_id m) (dm_entries m)
      then Inl (ValueError ''all mutation entries must belong to its conversation'')
      else if (case dm_submission m of None \<Rightarrow> False
               | Some d \<Rightarrow> sd_conversation_id d \<noteq> dm_conversation_id m)
      then Inl (ValueError ''submission belongs to another conversation'')
      else if (case dm_submission m of None \<Rightarrow> False
               | Some d \<Rightarrow> (case sd_entry d of None \<Rightarrow> False
                            | Some e \<Rightarrow> \<not> list_ex (entry_eq e) (dm_entries m)))
      then Inl (ValueError ''submission entry must be part of the same mutation'')
      else bind_r (validate_mutation_tasks m) (\<lambda>_.
           bind_r (validate_mutation_effects m) (\<lambda>_.
           bind_r (validate_mutation_submissions m) (\<lambda>_.
             if (case dm_approval m of None \<Rightarrow> False
                 | Some a \<Rightarrow> apr_conversation_id a \<noteq> dm_conversation_id m)
             then Inl (ValueError ''approval belongs to another conversation'')
             else if (case (dm_approval m, dm_task m) of
                        (Some a, Some t) \<Rightarrow> apr_task_id a \<noteq> tc_task_id t | _ \<Rightarrow> False)
             then Inl (ValueError ''approval must belong to the task in this mutation'')
             else raise_if (dm_expected_approval_status m \<noteq> None \<and> dm_approval m = None)
                    (ValueError ''expected_approval_status requires an approval update'')))))"

definition durable_mutation_init :: "durable_mutation \<Rightarrow> durable_mutation result" where
  "durable_mutation_init m =
     (if dm_conversation_id m = [] \<or> dm_expected_revision m < 0
      then Inl (ValueError ''conversation identity and non-negative revision are required'')
      else bind_r (validate_mutation_shape m) (\<lambda>_. Inr m))"

end
