(* ===== verification/Provider_Response.thy ===== *)
theory Provider_Response
  imports Json_Value Durable_Model
begin

text \<open>
  \<^verbatim>\<open>codey/durable/provider_response.py\<close>: the stored reply of a provider, its
  checks, and the conversation message derived from a reply with tool calls. The file system
  and the JSON text of a value (\<open>json.dumps\<close>) are arguments.
\<close>

record provider_call =
  pc_id :: string
  pc_name :: string
  pc_arguments :: jobj

datatype provider_reply =
    TextReply string
  | NativeReply (reply_text: string) (reply_reasoning: string) (reply_finish: string) (reply_raw: jobj)
      (reply_calls: "provider_call list")

definition has_exact_keys :: "jobj \<Rightarrow> string list \<Rightarrow> bool" where
  "has_exact_keys d ks = (set (dkeys d) = set ks)"

definition provider_call_of :: "pyval \<Rightarrow> provider_call result" where
  "provider_call_of call =
     (case call of
        PDict d \<Rightarrow>
          if \<not> has_exact_keys d [''id'', ''name'', ''arguments'']
          then Inl (ValueError ''provider response call is invalid'')
          else
          bind_r (require_json_string (pget d ''id'') ''call id'') (\<lambda>i.
          bind_r (require_json_string (pget d ''name'') ''call name'') (\<lambda>n.
          bind_r (decode_json_object (pget d ''arguments'')) (\<lambda>a.
          Inr \<lparr>pc_id = i, pc_name = n, pc_arguments = a\<rparr>)))
      | _ \<Rightarrow> Inl (ValueError ''provider response call is invalid''))"

definition validate_response :: "pyval \<Rightarrow> provider_reply result" where
  "validate_response payload =
     bind_r (decode_json_object payload) (\<lambda>d.
     bind_r (require_json_string (pget d ''text'') ''provider response text'') (\<lambda>reply.
     if pget d ''protocol'' = PStr ''text'' \<and> has_exact_keys d [''protocol'', ''text'']
     then Inr (TextReply reply)
     else if pget d ''protocol'' \<noteq> PStr ''native''
        \<or> \<not> has_exact_keys d [''protocol'', ''text'', ''reasoning'', ''finish'', ''raw'', ''tool_calls'']
     then Inl (ValueError ''provider response protocol is invalid'')
     else (case pget d ''tool_calls'' of
         PList calls \<Rightarrow>
           bind_r (map_r provider_call_of calls) (\<lambda>parsed.
           bind_r (require_json_string (pget d ''finish'') ''finish'') (\<lambda>finish.
           if finish \<notin> set [''complete'', ''output_limit'', ''protocol_error'']
           then Inl (ValueError ''provider response finish is invalid'')
           else
           bind_r (require_json_string (pget d ''reasoning'') ''reasoning'') (\<lambda>reasoning.
           bind_r (decode_json_object (pget d ''raw'')) (\<lambda>raw.
           Inr (NativeReply reply reasoning finish raw parsed)))))
       | _ \<Rightarrow> Inl (ValueError ''provider native response is invalid''))))"

definition tool_call_payload :: "(pyval \<Rightarrow> string) \<Rightarrow> provider_call \<Rightarrow> pyval" where
  "tool_call_payload dumps c =
     PDict [(''id'', PStr (pc_id c)), (''type'', PStr ''function''),
       (''function'', PDict [(''name'', PStr (pc_name c)), (''arguments'', PStr (dumps (PDict (pc_arguments c))))])]"

definition tool_call_message :: "(pyval \<Rightarrow> string) \<Rightarrow> pyval \<Rightarrow> jobj result" where
  "tool_call_message dumps payload =
     bind_r (validate_response payload) (\<lambda>reply.
     case reply of
       NativeReply t reasoning finish raw calls \<Rightarrow>
         if calls = [] then Inl (ValueError ''provider history reference has no tool calls'')
         else Inr ([(''content'', PStr t), (''tool_calls'', PList (map (tool_call_payload dumps) calls))]
                @ (if strip reasoning \<noteq> [] then [(''reasoning_content'', PStr reasoning)] else []))
     | TextReply t \<Rightarrow> Inl (ValueError ''provider history reference has no tool calls''))"

text \<open>A stored file: its size, the digest of its bytes and what \<open>json.loads\<close> makes of them.\<close>

record stored_file =
  sf_size :: int
  sf_sha256 :: string
  sf_json :: "pyval result"

definition read_response_artifact :: "(string \<Rightarrow> stored_file option) \<Rightarrow> artifact_record \<Rightarrow> pyval result" where
  "read_response_artifact files a =
     (case files (ar_storage_path a) of
        None \<Rightarrow> Inl (OSError ''No such file or directory'')
      | Some f \<Rightarrow>
          if sf_size f \<noteq> ar_byte_count a \<or> sf_sha256 f \<noteq> ar_sha256 a
          then Inl (ValueError ''registered response artifact digest mismatch'') else sf_json f)"

end
