(* ===== verification/Message_Input.thy ===== *)
theory Message_Input
  imports Json_Value Durable_Model
begin

text \<open>
  The checks on what a caller may attach to an input: attachments
  (\<^verbatim>\<open>codey/task/attachments.py\<close>), message metadata and the passive fields of
  a write (\<^verbatim>\<open>codey/durable/admission.py\<close>).
\<close>

section \<open>Attachments\<close>

definition MAX_ATTACHMENT_BYTES :: int where
  "MAX_ATTACHMENT_BYTES = 2 * 1024 * 1024"

definition MAX_ATTACHMENTS :: nat where
  "MAX_ATTACHMENTS = 4"

definition MAX_INPUT_BYTES :: int where
  "MAX_INPUT_BYTES = 4 * 1024 * 1024"

definition starts_with :: "string \<Rightarrow> string \<Rightarrow> bool" where
  "starts_with prefix s = (take (length prefix) s = prefix)"

text \<open>The identity of an attachment, which must be new.\<close>

definition attachment_identity :: "string list \<Rightarrow> jobj \<Rightarrow> string result" where
  "attachment_identity seen item =
     (case pget item ''id'' of
        PStr i \<Rightarrow>
          if \<not> starts_with ''att_'' i \<or> length i \<noteq> 68 \<or> i \<in> set seen
          then Inl (ValueError ''Invalid attachment identity.'') else Inr i
      | _ \<Rightarrow> Inl (ValueError ''Invalid attachment identity.''))"

definition attachment_size :: "jobj \<Rightarrow> int result" where
  "attachment_size item =
     (case (pget item ''name'', pget item ''size'', pget item ''sha256'') of
        (PStr name, PInt bytes, PStr sha) \<Rightarrow>
          if name = [] \<or> length name > 255 \<or> bytes \<le> 0 \<or> bytes > MAX_ATTACHMENT_BYTES \<or> length sha \<noteq> 64
          then Inl (ValueError ''Invalid attachment metadata.'') else Inr bytes
      | _ \<Rightarrow> Inl (ValueError ''Invalid attachment metadata.''))"

definition IMAGE_TYPES :: "string list" where
  "IMAGE_TYPES = [''image/png'', ''image/jpeg'', ''image/gif'', ''image/webp'']"

definition check_attachment_body :: "jobj \<Rightarrow> unit result" where
  "check_attachment_body item =
     (let media = pget item ''media_type'' in
      if media = PStr ''text/plain''
      then (case pget item ''text'' of
          PStr t \<Rightarrow> raise_if (utf8_length t > MAX_ATTACHMENT_BYTES) (ValueError ''Invalid attachment text.'')
        | _ \<Rightarrow> Inl (ValueError ''Invalid attachment text.''))
      else
      bind_r (in_string_set media IMAGE_TYPES) (\<lambda>image.
      if image
      then (case (media, pget item ''data_url'') of
          (PStr m, PStr data) \<Rightarrow>
            raise_if (\<not> starts_with (''data:'' @ m @ '';base64,'') data \<or> int (length data) > 3 * MAX_ATTACHMENT_BYTES)
              (ValueError ''Invalid attachment image.'')
        | _ \<Rightarrow> Inl (ValueError ''Invalid attachment image.''))
      else Inl (ValueError
        ''Unsupported attachment type. Choose a UTF-8 text file or PNG, JPEG, GIF, or WebP image.'')))"

text \<open>The loop: the identities seen, the used size and the items accepted so far.\<close>

fun attachment_loop :: "string list \<Rightarrow> int \<Rightarrow> pyval list \<Rightarrow> (int \<times> pyval list) result" where
  "attachment_loop seen used [] = Inr (used, [])"
| "attachment_loop seen used (raw # rest) =
     (case as_mapping raw of
        None \<Rightarrow> Inl (ValueError ''Invalid attachment content.'')
      | Some item \<Rightarrow>
          bind_r (attachment_identity seen item) (\<lambda>i.
          bind_r (attachment_size item) (\<lambda>bytes.
          bind_r (check_attachment_body item) (\<lambda>_.
          bind_r (attachment_loop (i # seen) (used + bytes) rest) (\<lambda>(used', items).
          Inr (used', PDict item # items))))))"

definition validate_attachments :: "pyval \<Rightarrow> pyval list result" where
  "validate_attachments v =
     (case as_sequence v of
        None \<Rightarrow> Inl (ValueError ''At most four attachments are allowed.'')
      | Some xs \<Rightarrow>
          if length xs > MAX_ATTACHMENTS then Inl (ValueError ''At most four attachments are allowed.'')
          else
          bind_r (attachment_loop [] 0 xs) (\<lambda>(used, items).
          if used > MAX_INPUT_BYTES then Inl (ValueError ''Attachments exceed the 4 MiB total limit.'')
          else Inr items))"

section \<open>Message metadata\<close>

definition metadata_source :: "pyval \<Rightarrow> jobj result" where
  "metadata_source v =
     (case as_mapping v of
        None \<Rightarrow> Inl (ValueError ''invalid message source metadata'')
      | Some d \<Rightarrow>
          if set (dkeys d) \<noteq> set [''actor_id'', ''name'', ''kind'']
             \<or> list_ex (\<lambda>x. case x of PStr s \<Rightarrow> s = [] \<or> length s > 512 | _ \<Rightarrow> True) (dvalues d)
          then Inl (ValueError ''invalid message source metadata'') else Inr d)"

definition metadata_field ::
  "string \<Rightarrow> (pyval \<Rightarrow> pyval result) \<Rightarrow> jobj \<Rightarrow> jobj \<Rightarrow> jobj result" where
  "metadata_field key check raw found =
     (case map_of raw key of
        None \<Rightarrow> Inr found
      | Some v \<Rightarrow> bind_r (check v) (\<lambda>w. Inr (dset key w found)))"

definition message_metadata :: "jobj option \<Rightarrow> jobj result" where
  "message_metadata state =
     (case as_mapping (pget_default (case state of None \<Rightarrow> [] | Some d \<Rightarrow> d) ''message_metadata'' (PDict [])) of
        None \<Rightarrow> Inl (ValueError ''invalid message metadata'')
      | Some raw \<Rightarrow>
          if \<not> set (dkeys raw) \<subseteq> set [''source'', ''in_reply_to_run_id'', ''attachments'']
          then Inl (ValueError ''invalid message metadata'')
          else
          bind_r (metadata_field ''attachments'' (\<lambda>v. bind_r (validate_attachments v) (\<lambda>xs. Inr (PList xs))) raw []) (\<lambda>d1.
          bind_r (metadata_field ''source'' (\<lambda>v. bind_r (metadata_source v) (\<lambda>d. Inr (PDict d))) raw d1) (\<lambda>d2.
          metadata_field ''in_reply_to_run_id'' (\<lambda>v. case v of
              PStr s \<Rightarrow> if length s > 512 then Inl (ValueError ''invalid reply metadata'') else Inr (PStr s)
            | _ \<Rightarrow> Inl (ValueError ''invalid reply metadata'')) raw d2)))"

section \<open>Passive fields of a write\<close>

text \<open>\<open>isinstance(value, Sequence)\<close>: a list, a tuple or a string.\<close>

fun as_py_sequence :: "pyval \<Rightarrow> pyval list option" where
  "as_py_sequence (PList xs) = Some xs"
| "as_py_sequence (PTuple xs) = Some xs"
| "as_py_sequence (PStr s) = Some (map (\<lambda>c. PStr [c]) s)"
| "as_py_sequence _ = None"

definition normalize_edit :: "pyval \<Rightarrow> pyval result" where
  "normalize_edit raw =
     (case as_mapping raw of
        None \<Rightarrow> Inl (ValueError ''passive entry edit must be an object'')
      | Some edit \<Rightarrow>
          if \<not> nonempty_str (pget edit ''target'')
          then Inl (ValueError ''passive entry edit target is required'')
          else
          bind_r (in_string_set (pget edit ''action'') [''omit'', ''replace'']) (\<lambda>known.
          if \<not> known then Inl (ValueError ''unknown passive entry edit action: '')
          else if pget edit ''action'' = PStr ''replace''
          then (case as_sequence (pget edit ''messages'') of
              None \<Rightarrow> Inl (ValueError ''replacement context messages must be a list'')
            | Some messages \<Rightarrow>
                if list_ex (\<lambda>m. as_mapping m = None) messages
                then Inl (ValueError ''replacement context message must be an object'')
                else Inr (PDict edit))
          else Inr (PDict edit)))"

definition normalize_passive_fields :: "pyval \<Rightarrow> pyval \<Rightarrow> (jobj option \<times> pyval list option) result" where
  "normalize_passive_fields model edits =
     bind_r (if model = PNone then Inr None
       else (case as_mapping model of
           None \<Rightarrow> Inl (ValueError ''passive entry model must be an object'')
         | Some d \<Rightarrow> Inr (Some d))) (\<lambda>normalized_model.
     bind_r (if edits = PNone then Inr None
       else (case as_py_sequence edits of
           None \<Rightarrow> Inl (ValueError ''passive entry edits must be a list'')
         | Some items \<Rightarrow> bind_r (map_r normalize_edit items) (\<lambda>es. Inr (Some es)))) (\<lambda>normalized_edits.
     Inr (normalized_model, normalized_edits)))"

section \<open>What accepted attachments satisfy\<close>

definition item_fields :: "pyval \<Rightarrow> jobj" where
  "item_fields v = (case as_mapping v of None \<Rightarrow> [] | Some d \<Rightarrow> d)"

definition item_id :: "pyval \<Rightarrow> pyval" where
  "item_id v = pget (item_fields v) ''id''"

definition item_bytes :: "pyval \<Rightarrow> int" where
  "item_bytes v = (case pget (item_fields v) ''size'' of PInt n \<Rightarrow> n | _ \<Rightarrow> 0)"

lemma attachment_identity_Inr:
  "attachment_identity seen item = Inr i \<Longrightarrow> pget item ''id'' = PStr i \<and> i \<notin> set seen \<and> length i = 68"
  by (auto simp: attachment_identity_def split: pyval.splits if_splits)

lemma attachment_size_Inr:
  "attachment_size item = Inr n \<Longrightarrow> pget item ''size'' = PInt n \<and> 0 < n \<and> n \<le> MAX_ATTACHMENT_BYTES"
  by (auto simp: attachment_size_def split: pyval.splits if_splits)

lemma attachment_loop_correct:
  assumes "attachment_loop seen n xs = Inr (used, items)"
  shows "length items = length xs \<and> distinct (map item_id items) \<and> set (map item_id items) \<inter> PStr ` set seen = {}
    \<and> (\<forall>x\<in>set items. 0 < item_bytes x \<and> item_bytes x \<le> MAX_ATTACHMENT_BYTES) \<and> used = n + sum_list (map item_bytes items)"
  using assms
proof (induction xs arbitrary: seen n used items)
  case (Cons raw rest)
  obtain item where item: "as_mapping raw = Some item"
    using Cons.prems by (cases "as_mapping raw") auto
  obtain i b used' items' where i: "attachment_identity seen item = Inr i" and b: "attachment_size item = Inr b"
    and rest: "attachment_loop (i # seen) (n + b) rest = Inr (used, items')" and items: "items = PDict item # items'"
    using Cons.prems item by (auto split: prod.splits)
  have here: "item_id (PDict item) = PStr i" "item_bytes (PDict item) = b"
    using attachment_identity_Inr [OF i] attachment_size_Inr [OF b] by (simp_all add: item_id_def item_bytes_def item_fields_def)
  show ?case
    using Cons.IH [OF rest] attachment_identity_Inr [OF i] attachment_size_Inr [OF b] by (auto simp: items here)
qed simp

text \<open>
  Accepted attachments are at most four, have distinct identities, and stay within the
  limits on one attachment and on all of them together.
\<close>

theorem attachments_bounded:
  assumes "validate_attachments v = Inr items"
  shows "length items \<le> MAX_ATTACHMENTS \<and> distinct (map item_id items)
    \<and> (\<forall>x\<in>set items. 0 < item_bytes x \<and> item_bytes x \<le> MAX_ATTACHMENT_BYTES)
    \<and> sum_list (map item_bytes items) \<le> MAX_INPUT_BYTES"
  using assms attachment_loop_correct [of "[]" 0]
  by (auto simp: validate_attachments_def not_less split: option.splits prod.splits)

definition sample_attachment :: "string \<Rightarrow> pyval" where
  "sample_attachment i = PDict [(''id'', PStr (''att_'' @ i)), (''name'', PStr ''a.txt''), (''media_type'', PStr ''text/plain''),
     (''size'', PInt 3), (''sha256'', PStr (replicate 64 CHR ''0'')), (''text'', PStr ''abc'')]"

definition sample_attachments :: "pyval list" where
  "sample_attachments = map sample_attachment [replicate 64 CHR ''1'', replicate 64 CHR ''2'']"

theorem attachments_bounded_witness:
  "validate_attachments (PList sample_attachments) = Inr sample_attachments \<and> length sample_attachments = 2
     \<and> distinct (map item_id sample_attachments) \<and> sum_list (map item_bytes sample_attachments) \<le> MAX_INPUT_BYTES"
proof -
  have run: "validate_attachments (PList sample_attachments) = Inr sample_attachments" by code_simp
  show ?thesis using attachments_bounded [OF run] run by (simp add: sample_attachments_def)
qed

end
