(* ===== verification/Lifecycle.thy ===== *)
theory Lifecycle
  imports Durable_Model
begin

text \<open>
  The contract the transition tables of the durable model share, as a locale: a step
  relation and the states in which nothing more happens. The clients' facts are proved once
  and obtained for task phases, task statuses, submissions and approvals by interpretation.
\<close>

locale lifecycle =
  fixes step :: "'a \<Rightarrow> 'a \<Rightarrow> bool" and final :: "'a \<Rightarrow> bool"
  assumes final_step: "final a \<Longrightarrow> step a b \<Longrightarrow> b = a"
begin

lemma final_absorbing: "step\<^sup>*\<^sup>* a b \<Longrightarrow> final a \<Longrightarrow> b = a"
  by (induction rule: rtranclp_induct) (auto dest: final_step)

text \<open>Along a run there is at most one final state.\<close>

lemma final_unique: "step\<^sup>*\<^sup>* a b \<Longrightarrow> step\<^sup>*\<^sup>* b c \<Longrightarrow> final b \<Longrightarrow> final c \<Longrightarrow> c = b"
  using final_absorbing by blast

text \<open>Any relation that only makes such steps or stays inherits the absorbing states.\<close>

lemma final_lift:
  assumes "R\<^sup>*\<^sup>* x y" and "\<And>x y. R x y \<Longrightarrow> f y = f x \<or> step (f x) (f y)" and "final (f x)"
  shows "f y = f x"
proof -
  from assms(1) have "step\<^sup>*\<^sup>* (f x) (f y)"
    by (induction rule: rtranclp_induct) (use assms(2) rtranclp.rtrancl_into_rtrancl in \<open>metis (full_types) rtranclp.rtrancl_refl\<close>)+
  with assms(3) show ?thesis by (rule final_absorbing [rotated])
qed

end

text \<open>A lifecycle whose real steps climb a bounded rank: the number of changes is bounded.\<close>

locale ranked_lifecycle = lifecycle step final
  for step :: "'a \<Rightarrow> 'a \<Rightarrow> bool" and final :: "'a \<Rightarrow> bool" +
  fixes rank :: "'a \<Rightarrow> nat" and bound :: nat
  assumes rank_step: "step a b \<Longrightarrow> rank a < rank b" and rank_bound: "rank a \<le> bound"
begin

lemma steps_rank: "(step ^^ n) a b \<Longrightarrow> rank a + n \<le> rank b"
proof (induction n arbitrary: b)
  case (Suc n)
  then obtain c where c: "(step ^^ n) a c" "step c b" by auto
  from Suc.IH [OF c(1)] rank_step [OF c(2)] show ?case by simp
qed simp

lemma steps_bounded: "(step ^^ n) a b \<Longrightarrow> n \<le> bound"
  using steps_rank [of n a b] rank_bound [of b] by simp

lemma no_return: "step\<^sup>+\<^sup>+ a b \<Longrightarrow> b \<noteq> a"
proof -
  assume "step\<^sup>+\<^sup>+ a b"
  then have "rank a < rank b" by (induction rule: tranclp_induct) (auto dest: rank_step)
  then show ?thesis by auto
qed

end

section \<open>The tables\<close>

definition task_phase_step :: "string \<Rightarrow> string \<Rightarrow> bool" where
  "task_phase_step a b = valid_task_transition (Some a) b"

definition terminal_phase :: "string \<Rightarrow> bool" where
  "terminal_phase a = (a \<in> set [''completed'', ''failed'', ''cancelled''])"

interpretation task_phase: lifecycle task_phase_step terminal_phase
proof unfold_locales
  fix a b
  assume "terminal_phase a" and step: "task_phase_step a b"
  then consider "a = ''completed''" | "a = ''failed''" | "a = ''cancelled''"
    unfolding terminal_phase_def by (simp only: set_simps insert_iff empty_iff) blast
  then have "map_of TASK_PHASE_TRANSITIONS a = Some []"
    by cases (simp_all add: TASK_PHASE_TRANSITIONS_def)
  with step show "b = a" by (simp add: task_phase_step_def valid_task_transition_def split: if_splits)
qed

definition task_status_step :: "task_status \<Rightarrow> task_status \<Rightarrow> bool" where
  "task_status_step a b = valid_task_status_transition (Some a) b"

definition terminal_status :: "task_status \<Rightarrow> bool" where
  "terminal_status a = (a \<in> set TASK_TERMINAL_STATUSES)"

interpretation task_status: lifecycle task_status_step terminal_status
  by unfold_locales
     (auto simp: task_status_step_def terminal_status_def TASK_TERMINAL_STATUSES_def valid_task_status_transition_def)

fun submission_rank :: "submission_status \<Rightarrow> nat" where
  "submission_rank SubQueued = 0"
| "submission_rank SubRunning = 1"
| "submission_rank _ = 2"

definition submission_final :: "submission_status \<Rightarrow> bool" where
  "submission_final a = (SUBMISSION_TRANSITIONS a = [])"

interpretation submissions: ranked_lifecycle valid_submission_transition submission_final submission_rank 2
proof unfold_locales
  fix a b :: submission_status
  show "submission_final a \<Longrightarrow> valid_submission_transition a b \<Longrightarrow> b = a"
    by (simp add: submission_final_def valid_submission_transition_def)
  show "valid_submission_transition a b \<Longrightarrow> submission_rank a < submission_rank b"
    by (cases a; cases b) (simp_all add: valid_submission_transition_def)
  show "submission_rank a \<le> 2" by (cases a) simp_all
qed

definition approval_step :: "approval_status \<Rightarrow> approval_status \<Rightarrow> bool" where
  "approval_step a b = valid_approval_transition (Some a) b"

definition approval_final :: "approval_status \<Rightarrow> bool" where
  "approval_final a = (APPROVAL_STATUS_TRANSITIONS a = [])"

fun approval_rank :: "approval_status \<Rightarrow> nat" where
  "approval_rank Requested = 0"
| "approval_rank Approved = 1"
| "approval_rank ExecutionClaimed = 2"
| "approval_rank _ = 3"

interpretation approvals: ranked_lifecycle approval_step approval_final approval_rank 3
proof unfold_locales
  fix a b :: approval_status
  show "approval_final a \<Longrightarrow> approval_step a b \<Longrightarrow> b = a"
    by (simp add: approval_final_def approval_step_def valid_approval_transition_def)
  show "approval_step a b \<Longrightarrow> approval_rank a < approval_rank b"
    by (cases a; cases b) (simp_all add: approval_step_def valid_approval_transition_def)
  show "approval_rank a \<le> 3" by (cases a) simp_all
qed

section \<open>Properties\<close>

lemma approval_claim_pred: "approval_step a ExecutionClaimed \<longleftrightarrow> a = Approved"
  and approval_settled_pred: "approval_step a ExecutionSettled \<longleftrightarrow> a = ExecutionClaimed"
  and approval_approved_pred: "approval_step a Approved \<longleftrightarrow> a = Requested"
  by (cases a; simp add: approval_step_def valid_approval_transition_def)+

text \<open>
  An approval makes at most three transitions, never returns to a status it left, and
  its command is only executed under a grant: a run that reaches \<open>ExecutionClaimed\<close> from
  the request went through \<open>Approved\<close>, and one that reaches \<open>ExecutionSettled\<close> went
  through the claim.
\<close>

theorem approval_execution_needs_grant:
  assumes "(approval_step ^^ n) Requested status"
  shows "n \<le> 3 \<and> (0 < n \<longrightarrow> status \<noteq> Requested)
    \<and> (status = ExecutionClaimed \<longrightarrow> n = 2 \<and> approval_step Requested Approved \<and> approval_step Approved status)
    \<and> (status = ExecutionSettled \<longrightarrow> n = 3 \<and> approval_step ExecutionClaimed status)"
proof -
  have rank: "approval_rank Requested + n \<le> approval_rank status" by (rule approvals.steps_rank [OF assms])
  have len: "status = ExecutionClaimed \<longrightarrow> n = 2" "status = ExecutionSettled \<longrightarrow> n = 3"
  proof -
    have claimed: "j = 2" if run: "(approval_step ^^ j) Requested ExecutionClaimed" for j
    proof -
      from run obtain k where k: "j = Suc k" "(approval_step ^^ k) Requested Approved"
        by (cases j) (auto simp: approval_claim_pred)
      then obtain l where "k = Suc l" "(approval_step ^^ l) Requested Requested"
        by (cases k) (auto simp: approval_approved_pred)
      with approvals.steps_rank [of l Requested Requested] k show ?thesis by simp
    qed
    then show "status = ExecutionClaimed \<longrightarrow> n = 2" using assms by blast
    show "status = ExecutionSettled \<longrightarrow> n = 3"
      using assms claimed by (cases n) (auto simp: approval_settled_pred)
  qed
  have "0 < n \<longrightarrow> status \<noteq> Requested" using rank by (cases status) simp_all
  moreover have "status = ExecutionClaimed \<longrightarrow> n = 2 \<and> approval_step Requested Approved \<and> approval_step Approved status"
    using len(1) by (simp add: approval_claim_pred approval_approved_pred)
  moreover have "status = ExecutionSettled \<longrightarrow> n = 3 \<and> approval_step ExecutionClaimed status"
    using len(2) by (simp add: approval_settled_pred)
  ultimately show ?thesis using approvals.steps_bounded [OF assms] by blast
qed

theorem approval_execution_needs_grant_witness:
  "(approval_step ^^ 3) Requested ExecutionSettled \<and> (3::nat) \<le> 3 \<and> approval_step ExecutionClaimed ExecutionSettled"
proof -
  have run: "(approval_step ^^ 3) Requested ExecutionSettled"
    by (simp add: numeral_3_eq_3 relcompp_apply approval_settled_pred approval_claim_pred approval_approved_pred)
  from approval_execution_needs_grant [OF run] run show ?thesis by simp
qed

text \<open>
  A finished submission stays finished, and a submission changes its status at most
  twice.
\<close>

theorem submission_status_final:
  assumes "(valid_submission_transition ^^ n) a b"
  shows "n \<le> 2 \<and> (submission_final a \<longrightarrow> n = 0 \<and> b = a)"
proof -
  have "n = 0 \<and> b = a" if "submission_final a"
  proof -
    have "b = a" using submissions.final_absorbing [OF _ that] relpowp_imp_rtranclp [OF assms] by blast
    with submissions.steps_rank [OF assms] show ?thesis by simp
  qed
  with submissions.steps_bounded [OF assms] show ?thesis by blast
qed

theorem submission_status_final_witness:
  "(valid_submission_transition ^^ 2) SubQueued SubDone \<and> (2::nat) \<le> 2"
proof -
  have run: "(valid_submission_transition ^^ 2) SubQueued SubDone"
    unfolding numeral_2_eq_2 by (rule relpowp_Suc_I [of _ _ _ SubRunning])
      (simp_all add: valid_submission_transition_def eq_OO)
  from submission_status_final [OF run] run show ?thesis by simp
qed

end
