(* ===== verification/Ancestry.thy ===== *)
theory Ancestry
  imports Durable_Model
begin

text \<open>
  \<^verbatim>\<open>codey/durable/ancestry.py\<close> and \<^verbatim>\<open>codey/durable/edit.py\<close>:
  the path of entries visible from a leaf, through the entry caps of forked conversations,
  and the checks of a history edit against that path. The two callables \<open>entries\<close> and
  \<open>parent\<close> are function arguments. The walk over conversations ends for a
  \<open>parent\<close> that knows finitely many conversations; it carries fuel, and
  \<open>ancestry_of_fuel\<close> shows that one unit per known conversation is enough.
\<close>

section \<open>Entry paths\<close>

text \<open>
  The loop of \<open>_local_path\<close>: \<open>path\<close> is accumulated in front, so it is the
  reversed Python list.
\<close>

function (sequential) local_path_loop ::
  "(string, entry_draft) dict \<Rightarrow> string list \<Rightarrow> entry_draft list \<Rightarrow> string option \<Rightarrow> entry_draft list result"
where
  "local_path_loop entries seen path None = Inr path"
| "local_path_loop entries seen path (Some current) =
     (if current \<in> set seen then Inl (ValueError ''conversation entry parent cycle'')
      else case map_of entries current of
             None \<Rightarrow> Inl (KeyError current)
           | Some entry \<Rightarrow> local_path_loop entries (current # seen) (entry # path) (ed_parent_id entry))"
  by pat_completeness auto
termination
proof (relation "measure (\<lambda>(entries, seen, path, current). card (set (dkeys entries) - set seen))",
    goal_cases)
  case (2 entries seen path current entry)
  from 2(2) have "current \<in> set (dkeys entries)" by (auto simp: dkeys_eq_dom)
  with 2(1) show ?case
    by (auto intro!: psubset_card_mono simp del: card_Diff_insert card_Diff_singleton)
qed simp

definition local_path :: "(string, entry_draft) dict \<Rightarrow> string \<Rightarrow> entry_draft list result" where
  "local_path entries leaf_id = local_path_loop entries [] [] (Some leaf_id)"

text \<open>The first loop of \<open>context_path\<close>; the list of ancestors is accumulated reversed.\<close>

type_synonym parent_fun = "string \<Rightarrow> (string option \<times> string option) result"
type_synonym entries_fun = "string \<Rightarrow> entry_draft list result"

fun ancestry_loop ::
  "nat \<Rightarrow> parent_fun \<Rightarrow> string list \<Rightarrow> (string \<times> string option) list \<Rightarrow> string option \<Rightarrow> string option
   \<Rightarrow> (string \<times> string option) list result"
where
  "ancestry_loop fuel parent seen ancestry None cap = Inr ancestry"
| "ancestry_loop 0 parent seen ancestry (Some current) cap = Inl (Unmodelled ''out of fuel'')"
| "ancestry_loop (Suc fuel) parent seen ancestry (Some current) cap =
     (if current \<in> set seen then Inl (ValueError ''conversation ancestry cycle'')
      else bind_r (parent current) (\<lambda>(current', cap').
        if current' = None \<and> cap' \<noteq> None
        then Inl (ValueError ''conversation cap has no parent'')
        else ancestry_loop fuel parent (current # seen) ((current, cap) # ancestry) current' cap'))"

definition entry_index :: "pyval \<Rightarrow> entry_draft list \<Rightarrow> nat option" where
  "entry_index v path = find_index (\<lambda>e. py_eq (PStr (ed_entry_id e)) v) path"

definition local_entries :: "entry_draft list \<Rightarrow> (string, entry_draft) dict" where
  "local_entries es = dupdate (map (\<lambda>e. (ed_entry_id e, e)) es) []"

text \<open>One round of the second loop: the path visible so far, then one conversation and its cap.\<close>

definition extend_path ::
  "entries_fun \<Rightarrow> (string \<times> string option) \<Rightarrow> entry_draft list \<Rightarrow> entry_draft list result"
where
  "extend_path entries step path =
     (case snd step of
        None \<Rightarrow> Inr path
      | Some leaf \<Rightarrow>
          bind_r (entries (fst step)) (\<lambda>rows.
            let locals = local_entries rows in
            if has_key leaf locals
            then bind_r (local_path locals leaf) (\<lambda>tail.
              if truthy (pget (ed_payload (hd tail)) ''edited_entry_id'')
              then let bridge = pget (ed_payload (hd tail)) ''edit_parent_entry_id'' in
                if bridge = PNone then Inr tail
                else (case entry_index bridge path of
                        None \<Rightarrow> Inl (KeyError ''edit parent is not visible'')
                      | Some position \<Rightarrow> Inr (take (position + 1) path @ tail))
              else Inr (path @ tail))
            else (case entry_index (PStr leaf) path of
                    None \<Rightarrow> Inl (KeyError (leaf @ '' is not visible from conversation '' @ fst step))
                  | Some position \<Rightarrow> Inr (take (position + 1) path))))"

fun extend_paths ::
  "entries_fun \<Rightarrow> (string \<times> string option) list \<Rightarrow> entry_draft list \<Rightarrow> entry_draft list result"
where
  "extend_paths entries [] path = Inr path"
| "extend_paths entries (step # steps) path =
     bind_r (extend_path entries step path) (extend_paths entries steps)"

definition context_path ::
  "nat \<Rightarrow> entries_fun \<Rightarrow> parent_fun \<Rightarrow> string \<Rightarrow> string option \<Rightarrow> entry_draft list result"
where
  "context_path fuel entries parent conversation_id leaf_id =
     bind_r (ancestry_loop fuel parent [] [] (Some conversation_id) leaf_id) (\<lambda>ancestry.
       extend_paths entries ancestry [])"

section \<open>Edits\<close>

text \<open>
  \<open>sorted\<close> over the set of task ids: \<open>sort\<close> after \<open>remdups\<close>. Strings compare
  by code points, which is the lexicographic order on lists of characters.
\<close>

definition owner_ids :: "entry_draft list \<Rightarrow> string list" where
  "owner_ids es = remdups (List.map_filter (\<lambda>e. if falsy (ed_by_task_id e) then None else ed_by_task_id e) es)"

definition edit_parent ::
  "string option \<Rightarrow> entry_draft list \<Rightarrow> bool \<Rightarrow> (string option \<times> string list) result"
where
  "edit_parent entry_id path busy =
     (if busy then Inl (CommitConflict ''Stop the current task before editing a message.'')
      else (case find_index (\<lambda>e. Some (ed_entry_id e) = entry_id) path of
          None \<Rightarrow> Inl (CommitConflict ''The message is no longer on the current conversation branch.'')
        | Some index \<Rightarrow>
            if ed_kind (path ! index) \<noteq> ''user_message''
            then Inl (CommitConflict ''The message is no longer on the current conversation branch.'')
            else Inr (if index = 0 then None else Some (ed_entry_id (path ! (index - 1))),
                      sort (owner_ids (drop index path)))))"

text \<open>\<open>value != optional string\<close>: \<open>None\<close> compares equal to \<open>None\<close> only.\<close>

definition opt_str :: "string option \<Rightarrow> pyval" where
  "opt_str x = (case x of None \<Rightarrow> PNone | Some s \<Rightarrow> PStr s)"

definition validate_edit :: "durable_mutation \<Rightarrow> entry_draft list \<Rightarrow> bool \<Rightarrow> string option result" where
  "validate_edit mutation path busy =
     bind_r (edit_parent (dm_edited_entry_id mutation) path busy) (\<lambda>(parent, replaced).
       if dm_replaced_run_ids mutation \<noteq> replaced
       then Inl (CommitConflict ''conversation branch changed'')
       else if \<not> py_eq (pget (ed_payload (hd (dm_entries mutation))) ''edited_entry_id'')
                       (opt_str (dm_edited_entry_id mutation))
       then Inl (CommitConflict ''replacement input must identify its source'')
       else if \<not> py_eq (pget (ed_payload (hd (dm_entries mutation))) ''edit_parent_entry_id'')
                       (opt_str parent)
       then Inl (CommitConflict ''replacement input must identify its prefix'')
       else Inr (case parent of
           None \<Rightarrow> None
         | Some p \<Rightarrow>
             if p \<in> set (map ed_entry_id
                   (filter (\<lambda>e. ed_conversation_id e = dm_conversation_id mutation) path))
             then Some p else None))"

definition validate_entry_owners ::
  "entry_draft list \<Rightarrow> entry_draft list \<Rightarrow> task_checkpoint list \<Rightarrow> unit result"
where
  "validate_entry_owners entries path tasks =
     check_each (\<lambda>task.
       let source = pget (tc_state task) ''input_entry_id'' in
       if tc_task_id task \<in> set (owner_ids entries) \<and> truthy source
       then bind_r (in_string_set source (map ed_entry_id path)) (\<lambda>visible.
         raise_if (\<not> visible)
           (CommitConflict ''task input is outside the active conversation branch''))
       else Inr ()) tasks"


section \<open>What a path is\<close>

text \<open>
  A list of entries in which every entry names its predecessor as its parent and the first
  one has none.
\<close>

fun linked_from :: "string option \<Rightarrow> entry_draft list \<Rightarrow> bool" where
  "linked_from prev [] = True"
| "linked_from prev (e # es) = (ed_parent_id e = prev \<and> linked_from (Some (ed_entry_id e)) es)"

definition keyed_by :: "('v \<Rightarrow> 'k) \<Rightarrow> ('k, 'v) dict \<Rightarrow> bool" where
  "keyed_by key d = (\<forall>k v. map_of d k = Some v \<longrightarrow> key v = k)"

lemma keyed_by_dset [intro]: "keyed_by key d \<Longrightarrow> keyed_by key (dset (key v) v d)"
  by (auto simp: keyed_by_def)

lemma keyed_by_Nil [simp]: "keyed_by key []"
  by (simp add: keyed_by_def)

lemma keyed_by_dpop [intro]: "keyed_by key d \<Longrightarrow> keyed_by key (dpop k d)"
  by (auto simp: keyed_by_def)

lemma keyed_by_dupdate:
  "keyed_by key d \<Longrightarrow> keyed_by key (dupdate (map (\<lambda>v. (key v, v)) vs) d)"
  by (induction vs arbitrary: d) auto

lemma keyed_local_entries: "keyed_by ed_entry_id (local_entries es)"
  unfolding local_entries_def by (rule keyed_by_dupdate) simp

lemma dkeys_dupdate: "set (dkeys (dupdate ps d)) = fst ` set ps \<union> set (dkeys d)"
  by (induction ps arbitrary: d) auto

lemma has_key_local_entries: "has_key k (local_entries es) \<longleftrightarrow> k \<in> ed_entry_id ` set es"
  by (simp add: has_key_iff local_entries_def dkeys_dupdate image_image) (simp add: dkeys_def)

lemma map_of_local_entries_mem: "map_of (local_entries es) k = Some e \<Longrightarrow> e \<in> set es"
proof (unfold local_entries_def)
  assume "map_of (dupdate (map (\<lambda>e. (ed_entry_id e, e)) es) []) k = Some e"
  then have "map_of (rev (map (\<lambda>e. (ed_entry_id e, e)) es)) k = Some e"
    by (simp add: map_of_dupdate split: option.splits)
  then show "e \<in> set es" by (auto dest!: map_of_SomeD)
qed

text \<open>
  Invariant of the loop: what has been collected is linked, and its first entry, if any,
  has the current id as its parent.
\<close>

lemma local_path_loop_linked:
  assumes "keyed_by ed_entry_id entries"
    and "path = [] \<or> linked_from cur path"
    and "local_path_loop entries seen path cur = Inr p"
  shows "\<exists>pre. p = pre @ path \<and> linked_from None p
           \<and> (cur \<noteq> None \<longrightarrow> pre \<noteq> [] \<and> cur = Some (ed_entry_id (last pre)))
           \<and> set pre \<subseteq> set (dvalues entries)
           \<and> distinct (map ed_entry_id pre) \<and> set (map ed_entry_id pre) \<inter> set seen = {}"
  using assms
proof (induction entries seen path cur rule: local_path_loop.induct)
  case (1 entries seen path)
  then show ?case by auto
next
  case (2 entries seen path current)
  from "2.prems"(3) obtain e where fresh: "current \<notin> set seen" and e: "map_of entries current = Some e"
    and rest: "local_path_loop entries (current # seen) (e # path) (ed_parent_id e) = Inr p"
    by (auto split: if_splits option.splits)
  from e "2.prems"(1) have id: "ed_entry_id e = current" by (simp add: keyed_by_def)
  have "e # path = [] \<or> linked_from (ed_parent_id e) (e # path)"
    using "2.prems"(2) id by auto
  from "2.IH" [OF fresh e "2.prems"(1) this rest] obtain pre where pre:
    "p = pre @ e # path" "linked_from None p" "set pre \<subseteq> set (dvalues entries)"
    "distinct (map ed_entry_id pre)" "set (map ed_entry_id pre) \<inter> set (current # seen) = {}"
    by blast
  have "e \<in> set (dvalues entries)"
    using map_of_SomeD [OF e] by (force simp: dvalues_def)
  with pre id fresh show ?case by (intro exI [of _ "pre @ [e]"]) auto
qed

lemma local_path_correct:
  assumes "keyed_by ed_entry_id entries" and "local_path entries leaf = Inr p"
  shows "p \<noteq> [] \<and> ed_entry_id (last p) = leaf \<and> linked_from None p
         \<and> set p \<subseteq> set (dvalues entries) \<and> distinct (map ed_entry_id p)"
  using local_path_loop_linked [of entries "[]" "Some leaf" "[]" p] assms
  by (auto simp: local_path_def)

text \<open>Shorter histories of visited conversations and more fuel do not change a result.\<close>

lemma ancestry_loop_weaken:
  assumes "ancestry_loop n parent seen acc cur cap = Inr a"
    and "set seen' \<subseteq> set seen" and "n \<le> n'"
  shows "\<exists>pre. a = pre @ acc \<and> ancestry_loop n' parent seen' acc' cur cap = Inr (pre @ acc')"
  using assms
proof (induction n parent seen acc cur cap arbitrary: n' seen' acc' rule: ancestry_loop.induct)
  case (3 fuel parent seen acc current cap)
  from "3.prems"(1) obtain cur' cap' where fresh: "current \<notin> set seen"
    and par: "parent current = Inr (cur', cap')" and ok: "\<not> (cur' = None \<and> cap' \<noteq> None)"
    and rest: "ancestry_loop fuel parent (current # seen) ((current, cap) # acc) cur' cap' = Inr a"
    by (auto split: if_splits)
  obtain m where m: "n' = Suc m" "fuel \<le> m" using "3.prems"(3) by (cases n') auto
  from "3.IH" [OF fresh ok rest, of "current # seen'" m "(current, cap) # acc'"] "3.prems"(2) m(2)
  obtain pre where "a = pre @ (current, cap) # acc"
    "ancestry_loop m parent (current # seen') ((current, cap) # acc') cur' cap' = Inr (pre @ (current, cap) # acc')"
    by auto
  with fresh par ok m(1) "3.prems"(2) show ?case
    by (intro exI [of _ "pre @ [(current, cap)]"]) auto
qed auto

text \<open>
  Fuel is enough: each round consumes a known conversation that was not seen before.
\<close>

lemma ancestry_of_fuel:
  assumes "\<And>c r. parent c = Inr r \<Longrightarrow> c \<in> S" and "finite S"
    and "\<And>c. parent c \<noteq> Inl (Unmodelled ''out of fuel'')"
    and "card (S - set seen) < n"
  shows "ancestry_loop n parent seen acc cur cap \<noteq> Inl (Unmodelled ''out of fuel'')"
  using assms
proof (induction n parent seen acc cur cap rule: ancestry_loop.induct)
  case (3 fuel parent seen acc current cap)
  show ?case
  proof (cases "current \<in> set seen")
    case False
    have "card (S - set (current # seen)) < fuel" if "parent current = Inr r" for r
    proof -
      from "3.prems"(1) that have "current \<in> S" by blast
      with False have "S - set (current # seen) \<subset> S - set seen" by auto
      from psubset_card_mono [OF _ this] "3.prems"(2,4) show ?thesis by simp
    qed
    with False "3.IH" "3.prems" show ?thesis
      by (auto simp: bind_r_eq_Inl split: if_splits)
  qed simp
qed auto


text \<open>The list of ancestors starts, in walking order, with the conversation itself.\<close>

lemma ancestry_loop_last:
  assumes "ancestry_loop n parent [] [] (Some c) leaf = Inr a"
  shows "\<exists>pre. a = pre @ [(c, leaf)]"
  using assms
proof (cases n)
  case (Suc m)
  with assms obtain cur cap where
    "ancestry_loop m parent [c] [(c, leaf)] cur cap = Inr a" by (auto split: if_splits)
  from ancestry_loop_weaken [OF this subset_refl order_refl] show ?thesis by auto
qed simp

lemma extend_paths_append:
  "extend_paths entries (xs @ ys) path = bind_r (extend_paths entries xs path) (extend_paths entries ys)"
proof (induction xs arbitrary: path)
  case (Cons x xs)
  then show ?case by (cases "extend_path entries x path") auto
qed (simp add: bind_r_def)

lemma entry_index_Some:
  "entry_index (PStr leaf) path = Some i \<Longrightarrow> i < length path \<and> ed_entry_id (path ! i) = leaf"
  by (auto simp: entry_index_def dest: find_index_Some)

lemma last_take_Suc: "i < length xs \<Longrightarrow> take (Suc i) xs \<noteq> [] \<and> last (take (Suc i) xs) = xs ! i"
  by (auto simp: take_Suc_conv_app_nth)

lemma extend_path_leaf:
  assumes "extend_path entries (c, Some leaf) path = Inr p"
  shows "p \<noteq> [] \<and> ed_entry_id (last p) = leaf"
proof -
  from assms obtain rows where rows: "entries c = Inr rows"
    by (auto simp: extend_path_def)
  show ?thesis
  proof (cases "has_key leaf (local_entries rows)")
    case True
    with assms rows obtain tail where "local_path (local_entries rows) leaf = Inr tail"
      "\<exists>pre. p = pre @ tail"
      by (auto simp: extend_path_def Let_def split: if_splits option.splits)
    with local_path_correct [OF keyed_local_entries] show ?thesis by fastforce
  next
    case False
    with assms rows obtain i where "entry_index (PStr leaf) path = Some i" "p = take (Suc i) path"
      by (auto simp: extend_path_def Let_def split: option.splits)
    with entry_index_Some last_take_Suc show ?thesis by metis
  qed
qed

lemma context_path_split:
  assumes "context_path n entries parent c leaf = Inr p"
  shows "\<exists>pre path. ancestry_loop n parent [] [] (Some c) leaf = Inr (pre @ [(c, leaf)])
           \<and> extend_paths entries pre [] = Inr path \<and> extend_path entries (c, leaf) path = Inr p"
proof -
  from assms obtain a where a: "ancestry_loop n parent [] [] (Some c) leaf = Inr a"
    "extend_paths entries a [] = Inr p" by (auto simp: context_path_def)
  from ancestry_loop_last [OF a(1)] obtain pre where "a = pre @ [(c, leaf)]" ..
  with a show ?thesis by (auto simp: extend_paths_append)
qed

lemma context_path_fuel:
  assumes "context_path n entries parent c leaf = Inr p" and "n \<le> n'"
  shows "context_path n' entries parent c leaf = Inr p"
proof -
  from assms(1) obtain a where a: "ancestry_loop n parent [] [] (Some c) leaf = Inr a"
    "extend_paths entries a [] = Inr p" by (auto simp: context_path_def)
  from ancestry_loop_weaken [OF a(1) subset_refl assms(2), of "[]"] a(2) show ?thesis
    by (auto simp: context_path_def)
qed

text \<open>What is visible in a conversation starts from what its fork point saw.\<close>

lemma context_path_parent:
  assumes "context_path (Suc n) entries parent c leaf = Inr p"
    and "parent c = Inr (Some pc, cap)"
  shows "\<exists>path. context_path n entries parent pc cap = Inr path
           \<and> extend_path entries (c, leaf) path = Inr p"
proof -
  from context_path_split [OF assms(1)] obtain pre path where split:
    "ancestry_loop (Suc n) parent [] [] (Some c) leaf = Inr (pre @ [(c, leaf)])"
    "extend_paths entries pre [] = Inr path" "extend_path entries (c, leaf) path = Inr p" by blast
  from split(1) assms(2)
  have "ancestry_loop n parent [c] [(c, leaf)] (Some pc) cap = Inr (pre @ [(c, leaf)])"
    by (auto split: if_splits)
  from ancestry_loop_weaken [OF this, of "[]" n "[]"]
  have "ancestry_loop n parent [] [] (Some pc) cap = Inr pre" by auto
  with split show ?thesis by (auto simp: context_path_def)
qed

lemma set_map_filter: "set (List.map_filter f xs) = {y. \<exists>x\<in>set xs. f x = Some y}"
  by (induction xs) (auto simp: List.map_filter_simps split: option.splits)

lemma set_owner_ids: "set (owner_ids es) = {t. t \<noteq> [] \<and> (\<exists>x\<in>set es. ed_by_task_id x = Some t)}"
  by (auto simp: owner_ids_def set_map_filter falsy_def)

section \<open>Properties\<close>

text \<open>
  A resolved context path is never empty for a given leaf and ends exactly at the leaf
  that was asked for, through any number of forks and edit bridges.
\<close>

theorem context_path_ends_at_leaf:
  assumes "context_path fuel entries parent conversation_id (Some leaf) = Inr path"
  shows "path \<noteq> [] \<and> ed_entry_id (last path) = leaf"
  using context_path_split [OF assms] extend_path_leaf by blast


definition sample_entry :: "string \<Rightarrow> string \<Rightarrow> string option \<Rightarrow> string option \<Rightarrow> entry_draft" where
  "sample_entry cid eid parent task =
     \<lparr>ed_entry_id = eid, ed_conversation_id = cid, ed_parent_id = parent, ed_kind = ''user_message'',
      ed_payload = [(''text'', PStr eid)], ed_commit_seq = 0, ed_by_task_id = task\<rparr>"

text \<open>Two messages in the conversation \<open>main\<close>; \<open>fork\<close> starts after the first.\<close>

definition sample_entries :: entries_fun where
  "sample_entries c =
     (if c = ''main''
      then Inr [sample_entry ''main'' ''e1'' None (Some ''t1''),
                sample_entry ''main'' ''e2'' (Some ''e1'') (Some ''t2'')]
      else if c = ''fork'' then Inr []
      else Inl (KeyError ''unknown conversation''))"

definition sample_parent :: parent_fun where
  "sample_parent c =
     (if c = ''main'' then Inr (None, None)
      else if c = ''fork'' then Inr (Some ''main'', Some ''e2'')
      else Inl (KeyError ''unknown conversation''))"

lemmas sample_simps =
  sample_entry_def sample_entries_def sample_parent_def context_path_def extend_path_def
  local_path_def local_entries_def dset_def has_key_def entry_index_def pget_def pget_default_def

theorem context_path_ends_at_leaf_witness:
  "context_path 3 sample_entries sample_parent ''fork'' (Some ''e1'')
     = Inr [sample_entry ''main'' ''e1'' None (Some ''t1'')]
   \<and> ed_entry_id (last [sample_entry ''main'' ''e1'' None (Some ''t1'')]) = ''e1''"
proof -
  have run: "context_path 3 sample_entries sample_parent ''fork'' (Some ''e1'')
      = Inr [sample_entry ''main'' ''e1'' None (Some ''t1'')]"
    by (simp add: sample_simps numeral_3_eq_3)
  from context_path_ends_at_leaf [OF run] run show ?thesis by simp
qed

text \<open>
  A fork whose leaf is not one of its own entries shows a prefix of what its fork
  point in the parent conversation shows; nothing behind the cap becomes visible.
\<close>

theorem fork_sees_prefix:
  assumes "context_path (Suc fuel) entries parent child (Some leaf) = Inr path"
    and "parent child = Inr (Some pc, cap)"
    and "entries child = Inr rows" and "leaf \<notin> ed_entry_id ` set rows"
  shows "\<exists>above n. context_path fuel entries parent pc cap = Inr above \<and> path = take n above"
proof -
  from context_path_parent [OF assms(1,2)] obtain above where
    above: "context_path fuel entries parent pc cap = Inr above"
      "extend_path entries (child, Some leaf) above = Inr path" by blast
  from above(2) assms(3,4) obtain i where "path = take (Suc i) above"
    by (auto simp: extend_path_def Let_def has_key_local_entries split: option.splits)
  with above(1) show ?thesis by blast
qed

theorem fork_sees_prefix_witness:
  "\<exists>above n. context_path 2 sample_entries sample_parent ''main'' (Some ''e2'') = Inr above
     \<and> [sample_entry ''main'' ''e1'' None (Some ''t1'')] = take n above"
  by (rule fork_sees_prefix [of 2 sample_entries sample_parent "''fork''" "''e1''" _ _ _ "[]"])
     (simp_all add: sample_simps numeral_2_eq_2)

text \<open>
  C36: resolving a path ends. Over a store that knows the finite set \<open>S\<close> of
  conversations, one unit of fuel more than there are conversations is never used up, even
  if the recorded ancestry is cyclic.
\<close>

theorem context_path_terminates:
  assumes "finite S" and "\<And>c r. parent c = Inr r \<Longrightarrow> c \<in> S"
    and "\<And>c. parent c \<noteq> Inl (Unmodelled ''out of fuel'')"
    and "\<And>c. entries c \<noteq> Inl (Unmodelled ''out of fuel'')"
  shows "context_path (Suc (card S)) entries parent conversation_id leaf
           \<noteq> Inl (Unmodelled ''out of fuel'')"
proof -
  have loop: "local_path_loop es seen p cur \<noteq> Inl (Unmodelled ''out of fuel'')" for es seen p cur
    by (induction es seen p cur rule: local_path_loop.induct) (auto split: option.splits)
  have step: "extend_path entries s p \<noteq> Inl (Unmodelled ''out of fuel'')" for s p
    using assms(4) loop
    by (auto simp: extend_path_def local_path_def Let_def bind_r_eq_Inl split: option.splits if_splits)
  have "extend_paths entries ss p \<noteq> Inl (Unmodelled ''out of fuel'')" for ss p
    by (induction ss arbitrary: p) (auto simp: bind_r_eq_Inl step)
  moreover have "ancestry_loop (Suc (card S)) parent [] [] (Some conversation_id) leaf
      \<noteq> Inl (Unmodelled ''out of fuel'')"
    by (rule ancestry_of_fuel [OF assms(2,1,3)]) (auto simp: assms)
  ultimately show ?thesis by (auto simp: context_path_def bind_r_eq_Inl)
qed

theorem context_path_terminates_witness:
  "context_path (Suc (card {''main'', ''fork''})) sample_entries sample_parent ''fork'' (Some ''e1'')
     \<noteq> Inl (Unmodelled ''out of fuel'')"
  by (rule context_path_terminates)
     (auto simp: sample_parent_def sample_entries_def split: if_splits)

text \<open>
  C40: an accepted edit names a user message of the visible path; the prefix it keeps is
  everything before that message, and the replaced runs are exactly the tasks that own an
  entry from the message on, in ascending order and without repetition.
\<close>

theorem edit_parent_correct:
  assumes "edit_parent entry_id path busy = Inr (parent, replaced)"
  shows "\<not> busy \<and> (\<exists>pre e post. path = pre @ e # post \<and> entry_id = Some (ed_entry_id e)
           \<and> ed_kind e = ''user_message''
           \<and> parent = (if pre = [] then None else Some (ed_entry_id (last pre)))
           \<and> set replaced = {t. t \<noteq> [] \<and> (\<exists>x\<in>set (e # post). ed_by_task_id x = Some t)}
           \<and> sorted replaced \<and> distinct replaced)"
proof -
  from assms obtain i where i: "\<not> busy" "find_index (\<lambda>e. Some (ed_entry_id e) = entry_id) path = Some i"
    "ed_kind (path ! i) = ''user_message''"
    "parent = (if i = 0 then None else Some (ed_entry_id (path ! (i - 1))))"
    "replaced = sort (owner_ids (drop i path))"
    by (auto simp: edit_parent_def split: if_splits option.splits)
  from find_index_Some [OF i(2)] have len: "i < length path" and eid: "entry_id = Some (ed_entry_id (path ! i))"
    by auto
  have split: "path = take i path @ path ! i # drop (Suc i) path"
    by (simp add: id_take_nth_drop [symmetric] len)
  have par: "parent = (if take i path = [] then None else Some (ed_entry_id (last (take i path))))"
    using i(4) len by (auto simp: last_conv_nth min_def)
  have owners: "set replaced = {t. t \<noteq> [] \<and> (\<exists>x\<in>set (path ! i # drop (Suc i) path). ed_by_task_id x = Some t)}"
    using Cons_nth_drop_Suc [OF len] i(5) by (simp add: set_owner_ids)
  have order: "sorted replaced" "distinct replaced"
    using i(5) by (simp_all add: owner_ids_def)
  from i(1,3) eid split par owners order show ?thesis by blast
qed

theorem edit_parent_correct_witness:
  "edit_parent (Some ''e2'')
     [sample_entry ''main'' ''e1'' None (Some ''t1''), sample_entry ''main'' ''e2'' (Some ''e1'') (Some ''t2'')]
     False = Inr (Some ''e1'', [''t2'']) \<and> sorted [''t2'']"
proof -
  have run: "edit_parent (Some ''e2'')
     [sample_entry ''main'' ''e1'' None (Some ''t1''), sample_entry ''main'' ''e2'' (Some ''e1'') (Some ''t2'')]
     False = Inr (Some ''e1'', [''t2''])"
    by (simp add: edit_parent_def owner_ids_def map_filter_def falsy_def sample_entry_def)
  from edit_parent_correct [OF run] run show ?thesis by simp
qed

end
