(* ===== verification/Timeline.thy ===== *)
theory Timeline
  imports Ancestry
begin

text \<open>
  \<^verbatim>\<open>codey/durable/timeline.py\<close> and \<^verbatim>\<open>codey/durable/events.py\<close>:
  the private execution history of a task (each commit stores the checkpoints and effects it
  changed as a payload, and a snapshot is rebuilt from these payloads alone), and the public
  projection of a mutation that goes into its commit record. Enum members are \<open>StrEnum\<close>s,
  so they are their values in a payload. A payload whose value has a type no annotation
  allows is \<open>Unmodelled\<close>.
\<close>

section \<open>Execution history\<close>

record task_transition =
  tt_commit_seq :: int
  tt_task :: task_checkpoint
  tt_effect_changes :: "effect_record list"
  tt_head_entry_id :: "string option"

record task_snapshot =
  ts_commit_seq :: int
  ts_task :: task_checkpoint
  ts_effects :: "effect_record list"
  ts_head_entry_id :: "string option"

definition opt_obj :: "jobj option \<Rightarrow> pyval" where
  "opt_obj x = (case x of None \<Rightarrow> PNone | Some d \<Rightarrow> PDict d)"

definition checkpoint_payload :: "task_checkpoint \<Rightarrow> jobj" where
  "checkpoint_payload task =
    [(''task_id'', PStr (tc_task_id task)), (''conversation_id'', PStr (tc_conversation_id task)),
     (''submission_id'', PStr (tc_submission_id task)), (''phase'', PStr (tc_phase task)),
     (''revision'', PInt (tc_revision task)),
     (''provider_snapshot'', PDict (thaw_obj (tc_provider_snapshot task))),
     (''state'', PDict (thaw_obj (tc_state task))),
     (''current_turn_id'', opt_str (tc_current_turn_id task)),
     (''pending_effect_id'', opt_str (tc_pending_effect_id task)),
     (''status'', PStr (task_status_value (tc_status task))),
     (''schema_version'', PInt (tc_schema_version task))]"

text \<open>\<open>raw[key]\<close>, and the reads whose static type is only asserted by \<open>cast\<close>.\<close>

definition getitem :: "jobj \<Rightarrow> string \<Rightarrow> pyval result" where
  "getitem d k = (case map_of d k of None \<Rightarrow> Inl (KeyError k) | Some v \<Rightarrow> Inr v)"

definition get_text :: "jobj \<Rightarrow> string \<Rightarrow> string result" where
  "get_text d k = bind_r (getitem d k) py_str"

definition get_int :: "jobj \<Rightarrow> string \<Rightarrow> int result" where
  "get_int d k = bind_r (getitem d k) (\<lambda>v.
     case v of PInt n \<Rightarrow> Inr n | PBool b \<Rightarrow> Inr (of_bool b) | _ \<Rightarrow> Inl (Unmodelled k))"

definition get_mapping :: "jobj \<Rightarrow> string \<Rightarrow> jobj result" where
  "get_mapping d k = bind_r (getitem d k) (\<lambda>v.
     case as_mapping v of Some m \<Rightarrow> Inr m | None \<Rightarrow> Inl (Unmodelled k))"

definition get_opt_mapping :: "jobj \<Rightarrow> string \<Rightarrow> jobj option result" where
  "get_opt_mapping d k = bind_r (getitem d k) (\<lambda>v.
     if v = PNone then Inr None
     else case as_mapping v of Some m \<Rightarrow> Inr (Some m) | None \<Rightarrow> Inl (Unmodelled k))"

definition get_opt_str :: "jobj \<Rightarrow> string \<Rightarrow> string option result" where
  "get_opt_str d k = bind_r (getitem d k) (\<lambda>v.
     case v of PNone \<Rightarrow> Inr None | PStr s \<Rightarrow> Inr (Some s) | _ \<Rightarrow> Inl (Unmodelled k))"

definition checkpoint_from_payload :: "jobj \<Rightarrow> task_checkpoint result" where
  "checkpoint_from_payload raw =
     bind_r (get_text raw ''phase'') (\<lambda>raw_phase.
     bind_r (getitem raw ''schema_version'') (\<lambda>raw_version.
     bind_r (migrate_checkpoint_phase raw_phase raw_version) (\<lambda>(phase, version).
     bind_r (get_text raw ''task_id'') (\<lambda>task_id.
     bind_r (get_text raw ''conversation_id'') (\<lambda>conversation_id.
     bind_r (get_text raw ''submission_id'') (\<lambda>submission_id.
     bind_r (get_int raw ''revision'') (\<lambda>revision.
     bind_r (get_mapping raw ''provider_snapshot'') (\<lambda>provider_snapshot.
     bind_r (get_mapping raw ''state'') (\<lambda>state.
     bind_r (get_opt_str raw ''current_turn_id'') (\<lambda>current_turn_id.
     bind_r (get_opt_str raw ''pending_effect_id'') (\<lambda>pending_effect_id.
     bind_r (get_text raw ''status'') (\<lambda>status_text.
     bind_r (task_status_of status_text) (\<lambda>status.
       task_checkpoint_init (Some status)
         \<lparr>tc_task_id = task_id, tc_conversation_id = conversation_id,
          tc_submission_id = submission_id, tc_phase = phase, tc_revision = revision,
          tc_provider_snapshot = provider_snapshot, tc_state = state,
          tc_current_turn_id = current_turn_id, tc_pending_effect_id = pending_effect_id,
          tc_status = status, tc_schema_version = version\<rparr>)))))))))))))"

definition effect_payload :: "effect_record \<Rightarrow> jobj" where
  "effect_payload effect =
    [(''effect_id'', PStr (ef_effect_id effect)), (''task_id'', PStr (ef_task_id effect)),
     (''category'', PStr (ef_category effect)), (''replay_class'', PStr (ef_replay_class effect)),
     (''args_digest'', PStr (ef_args_digest effect)), (''status'', PStr (ef_status effect)),
     (''intent'', PDict (thaw_obj (ef_intent effect))),
     (''settlement'', opt_obj (map_option thaw_obj (ef_settlement effect)))]"

definition execution_payload :: "durable_mutation \<Rightarrow> string option \<Rightarrow> jobj" where
  "execution_payload mutation head =
     (case all_tasks mutation of
        [] \<Rightarrow> []
      | task # tasks \<Rightarrow>
         [(''schema_version'', PInt 1),
          (''task'', PDict (checkpoint_payload task)),
          (''tasks'', PList (map (\<lambda>t. PDict (checkpoint_payload t)) (task # tasks))),
          (''head_entry_id'', opt_str head),
          (''effects'', PList (map (\<lambda>e. PDict (effect_payload e)) (all_effects mutation)))])"

definition effect_from_payload :: "jobj \<Rightarrow> effect_record result" where
  "effect_from_payload effect =
     bind_r (get_text effect ''effect_id'') (\<lambda>effect_id.
     bind_r (get_text effect ''task_id'') (\<lambda>task_id.
     bind_r (get_text effect ''category'') (\<lambda>category.
     bind_r (get_text effect ''replay_class'') (\<lambda>replay_class.
     bind_r (get_text effect ''args_digest'') (\<lambda>args_digest.
     bind_r (get_text effect ''status'') (\<lambda>status.
     bind_r (get_mapping effect ''intent'') (\<lambda>intent.
     bind_r (get_opt_mapping effect ''settlement'') (\<lambda>settlement.
       effect_record_init
         \<lparr>ef_effect_id = effect_id, ef_task_id = task_id, ef_category = category,
          ef_replay_class = replay_class, ef_args_digest = args_digest, ef_status = status,
          ef_intent = intent, ef_settlement = settlement\<rparr>))))))))"

text \<open>The rows of the payload's \<open>effects\<close> list that belong to the selected task.\<close>

definition effect_rows :: "string option \<Rightarrow> pyval \<Rightarrow> jobj list result" where
  "effect_rows task_id effects =
     (case as_sequence effects of
        None \<Rightarrow> Inl (Unmodelled ''effects'')
      | Some items \<Rightarrow>
          bind_r (map_r (\<lambda>item. case as_mapping item of
                             Some d \<Rightarrow> Inr d | None \<Rightarrow> Inl (Unmodelled ''effects'')) items) (\<lambda>rows.
            Inr (filter (\<lambda>row. case task_id of None \<Rightarrow> True
                                | Some t \<Rightarrow> py_eq (pget row ''task_id'') (PStr t)) rows)))"

definition select_task_row :: "jobj \<Rightarrow> string option \<Rightarrow> jobj result" where
  "select_task_row raw task_id =
     (case (task_id, as_sequence (pget raw ''tasks'')) of
        (Some t, Some rows) \<Rightarrow>
          (case List.find (\<lambda>d. py_eq (pget d ''task_id'') (PStr t)) (List.map_filter as_mapping rows) of
             None \<Rightarrow> Inl (KeyError t)
           | Some row \<Rightarrow> Inr row)
      | _ \<Rightarrow> get_mapping raw ''task'')"

definition transition_from_payload :: "int \<Rightarrow> jobj \<Rightarrow> string option \<Rightarrow> task_transition result" where
  "transition_from_payload sequence raw task_id =
     (if \<not> py_eq (pget raw ''schema_version'') (PInt 1)
      then Inl (ValueError ''unsupported workflow timeline schema'')
      else bind_r (getitem raw ''effects'') (\<lambda>effects.
           bind_r (select_task_row raw task_id) (\<lambda>raw_task.
           bind_r (checkpoint_from_payload raw_task) (\<lambda>task.
           bind_r (effect_rows task_id effects) (\<lambda>rows.
           bind_r (map_r effect_from_payload rows) (\<lambda>changes.
           bind_r (get_opt_str raw ''head_entry_id'') (\<lambda>head.
             Inr \<lparr>tt_commit_seq = sequence, tt_task = task, tt_effect_changes = changes,
                  tt_head_entry_id = head\<rparr>)))))))"

definition apply_effects :: "effect_record list \<Rightarrow> (string, effect_record) dict \<Rightarrow> (string, effect_record) dict" where
  "apply_effects effects d = dupdate (map (\<lambda>e. (ef_effect_id e, e)) effects) d"

definition snapshot_at :: "task_transition list \<Rightarrow> task_snapshot result" where
  "snapshot_at transitions =
     (if transitions = [] then Inl (KeyError ''task has no checkpoint at this commit'')
      else let latest = last transitions in
        Inr \<lparr>ts_commit_seq = tt_commit_seq latest, ts_task = tt_task latest,
             ts_effects = dvalues (fold (\<lambda>t. apply_effects (tt_effect_changes t)) transitions []),
             ts_head_entry_id = tt_head_entry_id latest\<rparr>)"

definition public_commit_payload :: "jobj \<Rightarrow> jobj" where
  "public_commit_payload payload = filter (\<lambda>(key, value). key \<noteq> ''_workflow'') payload"

section \<open>Public projections\<close>

definition task_progressed :: "task_checkpoint \<Rightarrow> pyval" where
  "task_progressed task = PDict
    [(''type'', PStr ''task_progressed''), (''task_id'', PStr (tc_task_id task)),
     (''phase'', PStr (tc_phase task)), (''status'', PStr (task_status_value (tc_status task))),
     (''revision'', PInt (tc_revision task))]"

definition update_projections :: "submission_update \<Rightarrow> pyval list" where
  "update_projections update =
     PDict [(''type'', PStr ''submission_progressed''),
            (''submission_id'', PStr (su_submission_id update)),
            (''status'', PStr (submission_status_value (su_status update))),
            (''placement'', opt_str (map_option placement_value (su_placement update)))]
     # (if su_status update \<in> set [SubDone, SubUnanswered, SubCancelled]
        then [PDict [(''type'', PStr ''submission_completed''),
                     (''submission_id'', PStr (su_submission_id update)),
                     (''status'', PStr (submission_status_value (su_status update))),
                     (''answer_entry_id'', opt_str (su_answer_entry_id update))]]
        else [])"

text \<open>The projections in the order of the code: those before the task checkpoints and those after.\<close>

definition opening_projections :: "durable_mutation \<Rightarrow> pyval list" where
  "opening_projections m =
     (case dm_create_conversation m of
        None \<Rightarrow> []
      | Some creation \<Rightarrow>
          [PDict [(''type'', PStr ''conversation_created''),
                  (''conversation_id'', PStr (dm_conversation_id m)),
                  (''parent_conversation_id'', opt_str (cc_parent_conversation_id creation)),
                  (''parent_entry_id'', opt_str (cc_parent_entry_id creation))]])
     @ (if dm_delete_conversation m
        then [PDict [(''type'', PStr ''conversation_deleted''),
                     (''conversation_id'', PStr (dm_conversation_id m))]]
        else [])
     @ (case dm_branch_entry_id m of
          None \<Rightarrow> []
        | Some entry_id \<Rightarrow>
            [PDict [(''type'', PStr ''conversation_branched''),
                    (''conversation_id'', PStr (dm_conversation_id m)),
                    (''head_entry_id'', PStr entry_id)]])
     @ map (\<lambda>entry. PDict [(''type'', PStr ''entry_appended''),
                            (''entry_id'', PStr (ed_entry_id entry)),
                            (''kind'', PStr (ed_kind entry))]) (dm_entries m)
     @ (case dm_submission m of
          None \<Rightarrow> []
        | Some submission \<Rightarrow>
            [PDict [(''type'', PStr ''submission_admitted''),
                    (''submission_id'', PStr (sd_submission_id submission)),
                    (''request_id'', PStr (sd_request_id submission)),
                    (''status'', PStr (submission_status_value (sd_status submission))),
                    (''placement'', PStr (placement_value (sd_placement submission))),
                    (''mode'', PStr (sd_mode submission))]])"

definition closing_projections :: "durable_mutation \<Rightarrow> pyval list" where
  "closing_projections m =
     map (\<lambda>effect. PDict [(''type'', PStr ''effect_settled''),
                           (''task_id'', PStr (ef_task_id effect)),
                           (''effect_id'', PStr (ef_effect_id effect)),
                           (''status'', PStr (ef_status effect))])
         (filter (\<lambda>effect. ef_settlement effect \<noteq> None) (all_effects m))
     @ concat (map update_projections (all_updates m))"

text \<open>
  The loop over \<open>task_updates\<close> rebinds the variable \<open>task\<close>, so the
  \<open>task_id\<close> field is that of the last checkpoint of the mutation.
\<close>

definition mutation_projection :: "durable_mutation \<Rightarrow> jobj" where
  "mutation_projection m =
     [(''session_id'', PStr (dm_conversation_id m))]
     @ (case dm_edited_entry_id m of
          None \<Rightarrow> []
        | Some edited \<Rightarrow>
            [(''edited_entry_id'', PStr edited),
             (''replaced_run_ids'', PList (map PStr (dm_replaced_run_ids m)))])
     @ [(''entry_ids'', PList (map (\<lambda>e. PStr (ed_entry_id e)) (dm_entries m))),
        (''task_id'', PStr (if all_tasks m = [] then [] else tc_task_id (last (all_tasks m)))),
        (''projections'',
         PList (opening_projections m @ map task_progressed (all_tasks m) @ closing_projections m))]"

definition committed_task_version :: "commit_result \<Rightarrow> string \<Rightarrow> jobj result" where
  "committed_task_version result task_id =
     (case cres_record result of
        None \<Rightarrow> Inr []
      | Some r \<Rightarrow>
          (case as_sequence (pget_default (cr_payload r) ''projections'' (PTuple [])) of
             None \<Rightarrow> Inl (ValueError ''commit projections must be a sequence'')
           | Some rows \<Rightarrow>
               (case List.find (\<lambda>row. py_eq (pget row ''type'') (PStr ''task_progressed'')
                                  \<and> py_eq (pget row ''task_id'') (PStr task_id))
                       (List.map_filter as_mapping rows) of
                  None \<Rightarrow> Inr []
                | Some row \<Rightarrow>
                    bind_r (getitem row ''revision'') (\<lambda>revision.
                    bind_r (get_text row ''status'') (\<lambda>status.
                      Inr [(''task_revision'', revision), (''task_status'', PStr status)])))))"



section \<open>Round trips\<close>

text \<open>
  A record object of the program has been through its constructor; these predicates say
  that its fields are the canonical ones.
\<close>

definition checkpoint_ok :: "task_checkpoint \<Rightarrow> bool" where
  "checkpoint_ok t = (task_replace t = Inr t)"

definition effect_ok :: "effect_record \<Rightarrow> bool" where
  "effect_ok e = (effect_record_init e = Inr e)"

lemma thaw_json_idem [simp]: "thaw_json (thaw_json v) = thaw_json v"
  by (induction v rule: thaw_json.induct) (auto simp: case_prod_beta)

lemma thaw_obj_idem [simp]: "thaw_obj (thaw_obj d) = thaw_obj d"
  by (auto simp: thaw_obj_def)

lemma getitem_Cons [simp]:
  "getitem ((k, v) # d) k' = (if k = k' then Inr v else getitem d k')"
  by (simp add: getitem_def)

lemma case_opt_str [simp]:
  "(case opt_str x of PNone \<Rightarrow> Inr None | PStr s \<Rightarrow> Inr (Some s) | _ \<Rightarrow> Inl e) = Inr x"
  by (cases x) (simp_all add: opt_str_def)

lemma migrate_checkpoint_phase_current [simp]:
  "has_key phase TASK_PHASE_TRANSITIONS \<Longrightarrow>
     migrate_checkpoint_phase phase (PInt TASK_CHECKPOINT_SCHEMA_VERSION)
       = Inr (phase, TASK_CHECKPOINT_SCHEMA_VERSION)"
  by (simp add: migrate_checkpoint_phase_def TASK_CHECKPOINT_SCHEMA_VERSION_def)

lemma task_status_of_value [simp]: "task_status_of (task_status_value s) = Inr s"
  by (cases s) (simp_all add: task_status_of_def)


text \<open>The constructor in one formula: the checks it makes and the record it returns.\<close>

definition checkpoint_guards :: "task_status \<Rightarrow> task_checkpoint \<Rightarrow> bool" where
  "checkpoint_guards status t =
     (tc_task_id t \<noteq> [] \<and> tc_conversation_id t \<noteq> [] \<and> tc_submission_id t \<noteq> [] \<and> tc_phase t \<noteq> []
      \<and> has_key (tc_phase t) TASK_PHASE_TRANSITIONS \<and> 0 \<le> tc_revision t
      \<and> tc_schema_version t = TASK_CHECKPOINT_SCHEMA_VERSION
      \<and> (status \<in> set TASK_TERMINAL_STATUSES \<longrightarrow> tc_phase t = task_status_value status)
      \<and> (tc_phase t \<in> set [''completed'', ''failed'', ''cancelled''] \<longrightarrow> status \<in> set TASK_TERMINAL_STATUSES)
      \<and> validate_json (PDict (thaw_obj (tc_provider_snapshot t))) = Inr ()
      \<and> validate_json (PDict (thaw_obj (tc_state t))) = Inr ()
      \<and> validate_task_scheduler_state (thaw_obj (tc_state t)) = Inr ()
      \<and> validate_workflow_state (thaw_obj (tc_state t)) = Inr ()
      \<and> validate_attempt (thaw_obj (tc_state t)) = Inr ()
      \<and> validate_pending_effects (thaw_obj (tc_state t)) (tc_pending_effect_id t) = Inr ())"

lemma task_checkpoint_init_Some:
  "task_checkpoint_init (Some status) t = Inr t' \<longleftrightarrow>
     checkpoint_guards status t
     \<and> t' = t\<lparr>tc_status := status, tc_provider_snapshot := freeze_obj (thaw_obj (tc_provider_snapshot t)),
             tc_state := freeze_obj (thaw_obj (tc_state t))\<rparr>"
  by (simp add: task_checkpoint_init_def checkpoint_guards_def Let_def not_less eq_commute [of t'])
     (auto simp del: set_simps)

lemma checkpoint_ok_iff:
  "checkpoint_ok t \<longleftrightarrow> checkpoint_guards (tc_status t) t
     \<and> freeze_obj (thaw_obj (tc_state t)) = tc_state t
     \<and> freeze_obj (thaw_obj (tc_provider_snapshot t)) = tc_provider_snapshot t"
  by (cases t) (auto simp: checkpoint_ok_def task_replace_def task_checkpoint_init_Some)

lemma checkpoint_guards_thawed [simp]:
  "checkpoint_guards st (t\<lparr>tc_provider_snapshot := thaw_obj (tc_provider_snapshot t), tc_state := thaw_obj (tc_state t)\<rparr>)
     = checkpoint_guards st t"
  unfolding checkpoint_guards_def by simp

lemma checkpoint_round_trip:
  assumes "checkpoint_ok t"
  shows "checkpoint_from_payload (checkpoint_payload t) = Inr t"
proof -
  from assms have ok: "checkpoint_guards (tc_status t) t"
    and froz: "freeze_obj (thaw_obj (tc_state t)) = tc_state t"
      "freeze_obj (thaw_obj (tc_provider_snapshot t)) = tc_provider_snapshot t"
    by (simp_all add: checkpoint_ok_iff)
  have phase: "has_key (tc_phase t) TASK_PHASE_TRANSITIONS"
      "tc_schema_version t = TASK_CHECKPOINT_SCHEMA_VERSION"
    using ok by (simp_all only: checkpoint_guards_def)
  have read: "checkpoint_from_payload (checkpoint_payload t) =
      task_checkpoint_init (Some (tc_status t))
        (t\<lparr>tc_provider_snapshot := thaw_obj (tc_provider_snapshot t), tc_state := thaw_obj (tc_state t)\<rparr>)"
    using phase
    by (cases t) (simp add: checkpoint_from_payload_def checkpoint_payload_def get_text_def get_int_def
        get_mapping_def get_opt_str_def)
  show ?thesis
    unfolding read task_checkpoint_init_Some checkpoint_guards_thawed using ok froz
    by (cases t) simp
qed

lemma effect_ok_iff:
  "effect_ok e \<longleftrightarrow> ef_effect_id e \<noteq> [] \<and> ef_task_id e \<noteq> [] \<and> ef_category e \<noteq> [] \<and> ef_replay_class e \<noteq> []
     \<and> ef_args_digest e \<noteq> [] \<and> ef_status e \<noteq> [] \<and> canonical_obj (ef_intent e) = Inr (ef_intent e)
     \<and> canonical_opt (ef_settlement e) = Inr (ef_settlement e)"
  by (cases e) (auto simp: effect_ok_def effect_record_init_def)

lemma canonical_obj_thaw [simp]: "canonical_obj (thaw_obj d) = canonical_obj d"
  by (simp add: canonical_obj_def)

lemma canonical_opt_thaw [simp]: "canonical_opt (map_option thaw_obj x) = canonical_opt x"
  by (cases x) (simp_all add: canonical_opt_def)

lemma get_opt_obj [simp]: "get_opt_mapping [(k, opt_obj x)] k = Inr x"
  by (cases x) (simp_all add: get_opt_mapping_def opt_obj_def)

lemma get_opt_mapping_skip [simp]:
  "k \<noteq> k' \<Longrightarrow> get_opt_mapping ((k, v) # d) k' = get_opt_mapping d k'"
  by (simp add: get_opt_mapping_def)

lemma effect_round_trip:
  assumes "effect_ok e"
  shows "effect_from_payload (effect_payload e) = Inr e"
  using assms
  by (cases e) (simp add: effect_from_payload_def effect_payload_def get_text_def get_mapping_def
      effect_record_init_def effect_ok_iff)

text \<open>A whole commit reads back as the transition of each task it changed.\<close>

lemma map_filter_as_mapping [simp]: "List.map_filter as_mapping (map (\<lambda>t. PDict (f t)) ts) = map f ts"
  by (induction ts) (simp_all add: List.map_filter_simps)

lemma find_map_distinct:
  "distinct (map key ts) \<Longrightarrow> t \<in> set ts \<Longrightarrow> (\<And>x. P (f x) \<longleftrightarrow> key x = key t) \<Longrightarrow>
     List.find P (map f ts) = Some (f t)"
  by (induction ts) (auto simp: image_iff)

lemma rows_of_effects [simp]:
  "map_r (\<lambda>item. case as_mapping item of Some d \<Rightarrow> Inr d | None \<Rightarrow> Inl (Unmodelled k))
     (map (\<lambda>e. PDict (f e)) es) = Inr (map f es)"
  by (induction es) auto

lemma effects_round_trip:
  "\<forall>e\<in>set es. effect_ok e \<Longrightarrow> map_r effect_from_payload (map effect_payload es) = Inr es"
  by (induction es) (auto simp: effect_round_trip)

lemma pget_effect_payload [simp]: "pget (effect_payload e) ''task_id'' = PStr (ef_task_id e)"
  by (simp add: effect_payload_def pget_def pget_default_def)

lemma pget_checkpoint_payload [simp]: "pget (checkpoint_payload t) ''task_id'' = PStr (tc_task_id t)"
  by (simp add: checkpoint_payload_def pget_def pget_default_def)

definition commit_transition :: "int \<Rightarrow> durable_mutation \<Rightarrow> string option \<Rightarrow> task_checkpoint \<Rightarrow> task_transition" where
  "commit_transition sequence m head t =
     \<lparr>tt_commit_seq = sequence, tt_task = t,
      tt_effect_changes = filter (\<lambda>e. ef_task_id e = tc_task_id t) (all_effects m),
      tt_head_entry_id = head\<rparr>"

lemma filter_effect_rows:
  "filter (\<lambda>row. py_eq (pget row ''task_id'') (PStr i)) (map effect_payload es)
     = map effect_payload (filter (\<lambda>e. ef_task_id e = i) es)"
  by (induction es) auto

lemma transition_round_trip:
  assumes "\<forall>t\<in>set (all_tasks m). checkpoint_ok t" and "\<forall>e\<in>set (all_effects m). effect_ok e"
    and "distinct (map tc_task_id (all_tasks m))" and "t \<in> set (all_tasks m)"
  shows "transition_from_payload seq (execution_payload m head) (Some (tc_task_id t))
           = Inr (commit_transition seq m head t)"
proof -
  have find: "List.find (\<lambda>d. py_eq (pget d ''task_id'') (PStr (tc_task_id t)))
      (map checkpoint_payload (all_tasks m)) = Some (checkpoint_payload t)"
    by (rule find_map_distinct [OF assms(3,4)]) simp
  from assms(4) obtain t0 ts where tasks: "all_tasks m = t0 # ts" by (cases "all_tasks m") auto
  have sel: "select_task_row (execution_payload m head) (Some (tc_task_id t)) = Inr (checkpoint_payload t)"
    using find unfolding execution_payload_def tasks list.case
    by (simp add: select_task_row_def pget_def pget_default_def List.map_filter_simps del: find.simps)
  have read: "map_r effect_from_payload
      (filter (\<lambda>row. py_eq (pget row ''task_id'') (PStr (tc_task_id t))) (map effect_payload (all_effects m)))
      = Inr (filter (\<lambda>e. ef_task_id e = tc_task_id t) (all_effects m))"
    unfolding filter_effect_rows by (rule effects_round_trip) (use assms(2) in auto)
  show ?thesis
    using sel read checkpoint_round_trip [of t] bspec [OF assms(1,4)]
    by (simp add: transition_from_payload_def execution_payload_def tasks effect_rows_def
        commit_transition_def get_opt_str_def pget_def pget_default_def del: filter_map)
qed


section \<open>Commit records\<close>

definition projection_record :: "int \<Rightarrow> string \<Rightarrow> string \<Rightarrow> durable_mutation \<Rightarrow> commit_record" where
  "projection_record sequence now database_id m =
     \<lparr>cr_sequence = sequence, cr_kind = ''durable'', cr_committed_at = now,
      cr_payload = dset ''database_id'' (PStr database_id) (mutation_projection m)\<rparr>"

lemma thaw_scalar [simp]: "thaw_json (opt_str x) = opt_str x" "dumps_ok (opt_str x)"
  by (cases x; simp add: opt_str_def)+

lemma thaw_obj_dset [simp]: "thaw_obj (dset k v d) = dset k (thaw_json v) (thaw_obj d)"
  by (induction d) (auto simp: thaw_obj_def dset_def)

lemma thaw_mutation_projection [simp]: "thaw_obj (mutation_projection m) = mutation_projection m"
  by (simp add: mutation_projection_def thaw_obj_def split: option.splits)

lemma dumps_ok_projections:
  "list_all dumps_ok (opening_projections m)" "list_all dumps_ok (closing_projections m)"
  "list_all dumps_ok (map task_progressed ts)"
  by (auto simp: opening_projections_def closing_projections_def update_projections_def
      task_progressed_def list_all_iff split: option.splits if_splits)

lemma dumps_ok_mutation_projection: "list_all (\<lambda>(k, v). dumps_ok v) (mutation_projection m)"
  using dumps_ok_projections
  by (auto simp: mutation_projection_def list_all_iff split: option.splits)

lemma dumps_ok_dset: "dumps_ok v \<Longrightarrow> list_all (\<lambda>(k, v). dumps_ok v) d \<Longrightarrow> list_all (\<lambda>(k, v). dumps_ok v) (dset k v d)"
  by (induction d) (auto simp: dset_def)

text \<open>The record of a commit can always be built.\<close>

lemma commit_record_init_projection:
  "commit_record_init (projection_record seq now db m)
     = Inr ((projection_record seq now db m)\<lparr>cr_payload :=
         freeze_obj (dset ''database_id'' (PStr db) (mutation_projection m))\<rparr>)"
  by (simp add: commit_record_init_def projection_record_def canonical_obj_def validate_json_def
      dumps_ok_dset dumps_ok_mutation_projection)

lemma find_append: "List.find P (xs @ ys) = (case List.find P xs of None \<Rightarrow> List.find P ys | Some x \<Rightarrow> Some x)"
  by (induction xs) auto

lemma map_of_freeze_obj: "map_of (freeze_obj d) k = map_option freeze_json (map_of d k)"
  by (induction d) (auto simp: freeze_obj_def)

lemma map_filter_append [simp]: "List.map_filter f (xs @ ys) = List.map_filter f xs @ List.map_filter f ys"
  by (simp add: List.map_filter_def)

lemma map_of_projections: "map_of (mutation_projection m) ''projections'' =
    Some (PList (opening_projections m @ map task_progressed (all_tasks m) @ closing_projections m))"
  by (simp add: mutation_projection_def split: option.splits)

definition progress_row :: "task_checkpoint \<Rightarrow> jobj" where
  "progress_row task =
    [(''type'', PStr ''task_progressed''), (''task_id'', PStr (tc_task_id task)),
     (''phase'', PStr (tc_phase task)), (''status'', PStr (task_status_value (tc_status task))),
     (''revision'', PInt (tc_revision task))]"

lemma progress_rows:
  "List.map_filter as_mapping (map freeze_json (map task_progressed ts)) = map progress_row ts"
  by (induction ts) (simp_all add: List.map_filter_simps task_progressed_def progress_row_def)

lemma no_opening_progress:
  "row \<in> set (List.map_filter as_mapping (map freeze_json (opening_projections m)))
     \<Longrightarrow> pget row ''type'' \<noteq> PStr ''task_progressed''"
  by (auto simp: opening_projections_def set_map_filter pget_def pget_default_def
      split: option.splits if_splits)

text \<open>
  The version of a task reported from a commit record is the one this commit wrote,
  whatever else the commit changed.
\<close>

theorem committed_task_version_exact:
  assumes "distinct (map tc_task_id (all_tasks m))" and "t \<in> set (all_tasks m)"
    and "commit_record_init (projection_record seq now db m) = Inr r"
    and "cres_record result = Some r"
  shows "committed_task_version result (tc_task_id t) =
    Inr [(''task_revision'', PInt (tc_revision t)), (''task_status'', PStr (task_status_value (tc_status t)))]"
proof -
  let ?P = "\<lambda>row. py_eq (pget row ''type'') (PStr ''task_progressed'') \<and> py_eq (pget row ''task_id'') (PStr (tc_task_id t))"
  have payload: "cr_payload r = freeze_obj (dset ''database_id'' (PStr db) (mutation_projection m))"
    using assms(3) by (auto simp: commit_record_init_projection)
  have before: "List.find ?P (List.map_filter as_mapping (map freeze_json (opening_projections m))) = None"
    using no_opening_progress by (fastforce simp: find_None_iff)
  have tasks: "List.find ?P (map progress_row (all_tasks m)) = Some (progress_row t)"
    by (rule find_map_distinct [OF assms(1,2)]) (simp add: progress_row_def pget_def pget_default_def)
  have "List.find ?P (List.map_filter as_mapping (map freeze_json
      (opening_projections m @ map task_progressed (all_tasks m) @ closing_projections m))) = Some (progress_row t)"
    using before tasks progress_rows [of "all_tasks m"]
    by (simp only: map_append map_filter_append find_append) simp
  then show ?thesis
    unfolding committed_task_version_def assms(4) option.case payload
    by (simp add: pget_default_def map_of_freeze_obj map_of_projections progress_row_def get_text_def
        del: map_append)
qed

section \<open>Snapshots\<close>

lemma dupdate_append: "dupdate (ps @ qs) d = dupdate qs (dupdate ps d)"
  by (induction ps arbitrary: d) auto

definition all_changes :: "task_transition list \<Rightarrow> effect_record list" where
  "all_changes ts = concat (map tt_effect_changes ts)"

lemma fold_apply_effects: "fold (\<lambda>t. apply_effects (tt_effect_changes t)) ts d = apply_effects (all_changes ts) d"
  by (induction ts arbitrary: d) (auto simp: apply_effects_def all_changes_def dupdate_append)

lemma map_of_keyed: "map_of (map (\<lambda>e. (f e, e)) es) k = List.find (\<lambda>e. f e = k) es"
  by (induction es) auto

lemma apply_effects_lookup:
  "map_of (apply_effects es []) k = List.find (\<lambda>e. ef_effect_id e = k) (rev es)"
  by (simp add: apply_effects_def map_of_dupdate rev_map map_of_keyed split: option.splits)

text \<open>
  A snapshot rebuilt from the history shows the checkpoint, head and sequence number of
  the last transition, and for every effect exactly its latest recorded version.
\<close>

theorem snapshot_at_latest:
  assumes "snapshot_at transitions = Inr s"
  shows "ts_task s = tt_task (last transitions) \<and> ts_commit_seq s = tt_commit_seq (last transitions)
    \<and> ts_head_entry_id s = tt_head_entry_id (last transitions)
    \<and> (\<forall>e. e \<in> set (ts_effects s) \<longleftrightarrow>
          List.find (\<lambda>x. ef_effect_id x = ef_effect_id e) (rev (concat (map tt_effect_changes transitions))) = Some e)"
proof -
  let ?d = "apply_effects (all_changes transitions) []"
  have "distinct (dkeys ?d)"
    unfolding apply_effects_def by (rule distinct_dkeys_dupdate) (simp add: dkeys_def)
  moreover have "keyed_by ef_effect_id ?d" unfolding apply_effects_def by (rule keyed_by_dupdate) simp
  ultimately have "e \<in> set (dvalues ?d) \<longleftrightarrow> map_of ?d (ef_effect_id e) = Some e" for e
    by (auto simp: dvalues_mem keyed_by_def)
  then have effects: "e \<in> set (dvalues ?d) \<longleftrightarrow>
      List.find (\<lambda>x. ef_effect_id x = ef_effect_id e) (rev (all_changes transitions)) = Some e" for e
    by (simp only: apply_effects_lookup)
  from assms have s: "s = \<lparr>ts_commit_seq = tt_commit_seq (last transitions), ts_task = tt_task (last transitions),
      ts_effects = dvalues ?d, ts_head_entry_id = tt_head_entry_id (last transitions)\<rparr>"
    by (simp add: snapshot_at_def Let_def fold_apply_effects)
  show ?thesis
    unfolding s task_snapshot.simps effects by (simp add: all_changes_def)
qed


section \<open>Instances\<close>

definition sample_task :: "string \<Rightarrow> string \<Rightarrow> int \<Rightarrow> task_checkpoint" where
  "sample_task tid phase revision =
     \<lparr>tc_task_id = tid, tc_conversation_id = ''main'', tc_submission_id = ''s-'' @ tid, tc_phase = phase,
      tc_revision = revision, tc_provider_snapshot = [(''model'', PStr ''m'')],
      tc_state = [(''input_mode'', PStr ''follow_up''), (''waiting_on'', PTuple [])],
      tc_current_turn_id = None, tc_pending_effect_id = None,
      tc_status = task_status_for_phase phase, tc_schema_version = 2\<rparr>"

definition sample_effect :: "string \<Rightarrow> string \<Rightarrow> string \<Rightarrow> jobj option \<Rightarrow> effect_record" where
  "sample_effect eid tid status settlement =
     \<lparr>ef_effect_id = eid, ef_task_id = tid, ef_category = ''tool'', ef_replay_class = ''never'',
      ef_args_digest = ''d'', ef_status = status, ef_intent = [(''tool'', PStr ''read'')],
      ef_settlement = settlement\<rparr>"

definition sample_mutation :: durable_mutation where
  "sample_mutation = (empty_mutation ''main'' 3)
     \<lparr>dm_task := Some (sample_task ''t1'' ''running'' 4),
      dm_task_updates := [sample_task ''t2'' ''accepted'' 0],
      dm_effect := Some (sample_effect ''f1'' ''t1'' ''pending'' None)\<rparr>"

lemmas checkpoint_simps =
  checkpoint_ok_def task_replace_def task_checkpoint_init_def TASK_PHASE_TRANSITIONS_def
  TASK_CHECKPOINT_SCHEMA_VERSION_def TASK_TERMINAL_STATUSES_def validate_json_def
  validate_task_scheduler_state_def validate_workflow_state_def validate_attempt_def
  validate_pending_effects_def freeze_obj_def thaw_obj_def pget_def pget_default_def has_key_def
  in_string_set_def is_mapping_def nonempty_str_def task_status_for_phase_def

lemma sample_task_ok:
  "checkpoint_ok (sample_task ''t1'' ''running'' 4)" "checkpoint_ok (sample_task ''t2'' ''accepted'' 0)"
  by (simp_all add: sample_task_def checkpoint_simps)

lemma sample_effect_ok: "effect_ok (sample_effect ''f1'' ''t1'' ''pending'' None)"
  by (simp add: sample_effect_def effect_ok_def effect_record_init_def canonical_obj_def
      canonical_opt_def validate_json_def freeze_obj_def thaw_obj_def)

lemma sample_mutation_tasks:
  "all_tasks sample_mutation = [sample_task ''t1'' ''running'' 4, sample_task ''t2'' ''accepted'' 0]"
  "all_effects sample_mutation = [sample_effect ''f1'' ''t1'' ''pending'' None]"
  by (simp_all add: sample_mutation_def empty_mutation_def all_tasks_def all_effects_def opt_list_def)

theorem committed_task_version_exact_witness:
  "\<exists>r. commit_record_init (projection_record 7 ''now'' ''db'' sample_mutation) = Inr r
     \<and> committed_task_version \<lparr>cres_revision = 3, cres_sequence = 7, cres_submission_id = None, cres_record = Some r\<rparr> ''t1''
         = Inr [(''task_revision'', PInt 4), (''task_status'', PStr ''running'')]"
proof -
  obtain r where r: "commit_record_init (projection_record 7 ''now'' ''db'' sample_mutation) = Inr r"
    unfolding commit_record_init_projection by blast
  have "distinct (map tc_task_id (all_tasks sample_mutation))"
    "sample_task ''t1'' ''running'' 4 \<in> set (all_tasks sample_mutation)"
    by (simp_all add: sample_mutation_tasks sample_task_def)
  from committed_task_version_exact [OF this r, of "\<lparr>cres_revision = 3, cres_sequence = 7, cres_submission_id = None, cres_record = Some r\<rparr>"] r
  show ?thesis by (auto simp: sample_task_def task_status_for_phase_def)
qed

text \<open>
  The private history of a commit is faithful. Each task the mutation changes is read
  back from the stored payload as exactly the checkpoint that was committed, with exactly
  its own effect changes, in order, and the new head.
\<close>

theorem history_round_trip:
  assumes "\<forall>t\<in>set (all_tasks m). checkpoint_ok t" and "\<forall>e\<in>set (all_effects m). effect_ok e"
    and "distinct (map tc_task_id (all_tasks m))" and "t \<in> set (all_tasks m)"
  shows "transition_from_payload seq (execution_payload m head) (Some (tc_task_id t))
     = Inr \<lparr>tt_commit_seq = seq, tt_task = t,
            tt_effect_changes = filter (\<lambda>e. ef_task_id e = tc_task_id t) (all_effects m),
            tt_head_entry_id = head\<rparr>"
  using transition_round_trip [OF assms] by (simp add: commit_transition_def)

theorem history_round_trip_witness:
  "transition_from_payload 7 (execution_payload sample_mutation (Some ''e2'')) (Some ''t2'')
     = Inr \<lparr>tt_commit_seq = 7, tt_task = sample_task ''t2'' ''accepted'' 0, tt_effect_changes = [],
            tt_head_entry_id = Some ''e2''\<rparr>"
proof -
  have "\<forall>t\<in>set (all_tasks sample_mutation). checkpoint_ok t" "\<forall>e\<in>set (all_effects sample_mutation). effect_ok e"
    by (simp_all add: sample_mutation_tasks sample_task_ok sample_effect_ok)
  moreover have "distinct (map tc_task_id (all_tasks sample_mutation))"
    "sample_task ''t2'' ''accepted'' 0 \<in> set (all_tasks sample_mutation)"
    by (simp_all add: sample_mutation_tasks sample_task_def)
  ultimately show ?thesis
    using history_round_trip [of sample_mutation "sample_task ''t2'' ''accepted'' 0" 7 "Some ''e2''"]
    by (simp add: sample_mutation_tasks sample_task_def sample_effect_def)
qed

theorem snapshot_at_latest_witness:
  "\<exists>s. snapshot_at
      [\<lparr>tt_commit_seq = 1, tt_task = sample_task ''t1'' ''running'' 1,
        tt_effect_changes = [sample_effect ''f1'' ''t1'' ''pending'' None], tt_head_entry_id = None\<rparr>,
       \<lparr>tt_commit_seq = 2, tt_task = sample_task ''t1'' ''running'' 2,
        tt_effect_changes = [sample_effect ''f1'' ''t1'' ''done'' (Some [])], tt_head_entry_id = None\<rparr>] = Inr s
     \<and> tc_revision (ts_task s) = 2 \<and> sample_effect ''f1'' ''t1'' ''done'' (Some []) \<in> set (ts_effects s)"
proof -
  let ?ts = "[\<lparr>tt_commit_seq = 1, tt_task = sample_task ''t1'' ''running'' 1,
        tt_effect_changes = [sample_effect ''f1'' ''t1'' ''pending'' None], tt_head_entry_id = None\<rparr>,
       \<lparr>tt_commit_seq = 2, tt_task = sample_task ''t1'' ''running'' 2,
        tt_effect_changes = [sample_effect ''f1'' ''t1'' ''done'' (Some [])], tt_head_entry_id = None\<rparr>]"
  obtain s where "snapshot_at ?ts = Inr s" by (simp add: snapshot_at_def Let_def)
  with snapshot_at_latest [OF this] show ?thesis by (auto simp: sample_task_def)
qed

end
