(* ===== verification/Memory_Store.thy ===== *)
theory Memory_Store
  imports Timeline
begin

text \<open>
  \<^verbatim>\<open>codey/durable/memory.py\<close>: the reference implementation
  \<open>MemoryDurableStore\<close> of the durable append contract. The state record has one field
  per attribute of the object. A method that writes is an action on the state, so an
  exception leaves the state as the code leaves it. The wall clock, the uuid of the
  database and \<open>process_is_alive\<close> are arguments. The lock serialises the methods, so
  each one is one step.
\<close>

section \<open>State\<close>

record submission_item =
  si_record :: submission_record
  si_entry :: "entry_draft option"
  si_result :: commit_result
  si_fingerprint :: string

record store =
  st_database_id :: string
  st_entries :: "(string, entry_draft list) dict"
  st_heads :: "(string, string option \<times> int) dict"
  st_parents :: "(string, string option \<times> string option) dict"
  st_submissions :: "(string \<times> string, submission_item) dict"
  st_submission_ids :: "string set"
  st_tasks :: "(string, task_checkpoint) dict"
  st_finalization :: "string set"
  st_waiters :: "(string, string set) dict"
  st_owners :: "(string, string set) dict"
  st_effects :: "(string, effect_record) dict"
  st_artifacts :: "(string, artifact_record) dict"
  st_sequence :: int
  st_commits :: "commit_record list"
  st_history :: "(string, task_transition list) dict"
  st_scheduler_owner :: "(string \<times> int) option"

definition empty_store :: "string \<Rightarrow> store" where
  "empty_store uuid =
     \<lparr>st_database_id = ''database-'' @ uuid, st_entries = [], st_heads = [], st_parents = [],
      st_submissions = [], st_submission_ids = {}, st_tasks = [], st_finalization = {},
      st_waiters = [], st_owners = [], st_effects = [], st_artifacts = [], st_sequence = 0,
      st_commits = [], st_history = [], st_scheduler_owner = None\<rparr>"

section \<open>Reads\<close>

definition conversation :: "store \<Rightarrow> string \<Rightarrow> (string option \<times> int) result" where
  "conversation s cid =
     (case map_of (st_heads s) cid of
        None \<Rightarrow> Inl (KeyError (''unknown conversation: '' @ cid))
      | Some h \<Rightarrow> Inr h)"

definition lookup_key :: "('k, 'v) dict \<Rightarrow> 'k \<Rightarrow> string \<Rightarrow> 'v result" where
  "lookup_key d k name = (case map_of d k of None \<Rightarrow> Inl (KeyError name) | Some v \<Rightarrow> Inr v)"

definition store_entries :: "store \<Rightarrow> string \<Rightarrow> entry_draft list result" where
  "store_entries s cid = bind_r (conversation s cid) (\<lambda>_. lookup_key (st_entries s) cid cid)"

definition conversation_parent :: "store \<Rightarrow> string \<Rightarrow> (string option \<times> string option) result" where
  "conversation_parent s cid = bind_r (conversation s cid) (\<lambda>_. lookup_key (st_parents s) cid cid)"

text \<open>\<open>context_path(cid, leaf, entries=self.entries, parent=self.conversation_parent)\<close>.\<close>

definition store_path :: "store \<Rightarrow> string \<Rightarrow> string option \<Rightarrow> entry_draft list result" where
  "store_path s cid leaf =
     context_path (Suc (length (st_heads s))) (store_entries s) (conversation_parent s) cid leaf"

definition store_head :: "store \<Rightarrow> string \<Rightarrow> (string option \<times> int) result" where
  "store_head s cid = conversation s cid"

definition has_conversation :: "store \<Rightarrow> string \<Rightarrow> bool" where
  "has_conversation s cid = has_key cid (st_heads s)"

definition conversation_ids :: "store \<Rightarrow> string list" where
  "conversation_ids s = sort (dkeys (st_heads s))"

definition store_task :: "store \<Rightarrow> string \<Rightarrow> task_checkpoint result" where
  "store_task s tid = lookup_key (st_tasks s) tid tid"

definition store_effect :: "store \<Rightarrow> string \<Rightarrow> effect_record result" where
  "store_effect s eid = lookup_key (st_effects s) eid eid"

definition store_approval :: "store \<Rightarrow> string \<Rightarrow> approval_record result" where
  "store_approval s approval_id =
     (case List.map_filter (\<lambda>t.
             case as_mapping (pget_default (tc_state t) ''approvals'' (PDict [])) of
               None \<Rightarrow> None | Some raw \<Rightarrow> as_mapping (pget raw approval_id)) (dvalues (st_tasks s)) of
        [] \<Rightarrow> Inl (KeyError (''unknown approval: '' @ approval_id))
      | payload # _ \<Rightarrow> approval_from_payload payload)"

definition effects_for_task :: "store \<Rightarrow> string \<Rightarrow> effect_record list" where
  "effects_for_task s tid = filter (\<lambda>e. ef_task_id e = tid) (dvalues (st_effects s))"

definition store_artifact :: "store \<Rightarrow> string \<Rightarrow> artifact_record result" where
  "store_artifact s handle = lookup_key (st_artifacts s) handle (''unknown artifact: '' @ handle)"

definition artifacts_for_task :: "store \<Rightarrow> string \<Rightarrow> artifact_record list" where
  "artifacts_for_task s tid = filter (\<lambda>a. ar_owner_task_id a = Some tid) (dvalues (st_artifacts s))"

definition artifacts_for_effect :: "store \<Rightarrow> string \<Rightarrow> artifact_record list" where
  "artifacts_for_effect s eid = filter (\<lambda>a. ar_owner_effect_id a = Some eid) (dvalues (st_artifacts s))"

definition find_submission :: "store \<Rightarrow> string \<Rightarrow> submission_record option" where
  "find_submission s sid =
     List.find (\<lambda>r. sr_submission_id r = sid) (map si_record (dvalues (st_submissions s)))"

definition store_submission :: "store \<Rightarrow> string \<Rightarrow> submission_record result" where
  "store_submission s sid =
     (case find_submission s sid of
        None \<Rightarrow> Inl (KeyError (''unknown submission: '' @ sid)) | Some r \<Rightarrow> Inr r)"

definition queued_submissions :: "store \<Rightarrow> string option \<Rightarrow> submission_record list result" where
  "queued_submissions s cid =
     (let queued = filter (\<lambda>r. sr_status r = SubQueued \<and> sr_placement r = PlacementQueued
                \<and> (case cid of None \<Rightarrow> True | Some c \<Rightarrow> sr_conversation_id r = c))
              (map si_record (dvalues (st_submissions s)))
      in bind_r (map_r (\<lambda>r.
           bind_r (lookup_key (st_submissions s) (sr_conversation_id r, sr_request_id r) (sr_request_id r))
             (\<lambda>item. Inr (cres_sequence (si_result item), r))) queued) (\<lambda>keyed.
           Inr (map snd (sort_key fst keyed))))"

definition submission_result_for_request ::
  "store \<Rightarrow> string \<Rightarrow> string \<Rightarrow> string \<Rightarrow> commit_result option result"
where
  "submission_result_for_request s cid rid fingerprint =
     (case map_of (st_submissions s) (cid, rid) of
        None \<Rightarrow> Inr None
      | Some item \<Rightarrow>
          if si_fingerprint item \<noteq> fingerprint
          then Inl (IdempotencyConflict ''request_id was already admitted with different durable result content'')
          else Inr (Some (si_result item)))"

definition pending_tasks :: "store \<Rightarrow> task_checkpoint list" where
  "pending_tasks s = filter (\<lambda>t. tc_status t \<notin> set TASK_TERMINAL_STATUSES) (dvalues (st_tasks s))"

definition finalization_queue :: "store \<Rightarrow> string list" where
  "finalization_queue s = sorted_list_of_set (st_finalization s)"

definition store_tasks :: "store \<Rightarrow> task_checkpoint list" where
  "store_tasks s = dvalues (st_tasks s)"

text \<open>\<open>d.get(k, set())\<close>.\<close>

definition get_set :: "('k, 'a set) dict \<Rightarrow> 'k \<Rightarrow> 'a set" where
  "get_set d k = (case map_of d k of None \<Rightarrow> {} | Some x \<Rightarrow> x)"

definition waiting_dependents :: "store \<Rightarrow> string \<Rightarrow> task_checkpoint list" where
  "waiting_dependents s tid =
     filter (\<lambda>t. tc_task_id t \<in> get_set (st_waiters s) tid) (dvalues (st_tasks s))"

definition owned_dependents :: "store \<Rightarrow> string \<Rightarrow> task_checkpoint list" where
  "owned_dependents s tid =
     List.map_filter (map_of (st_tasks s)) (sorted_list_of_set (get_set (st_owners s) tid))"

definition task_history :: "store \<Rightarrow> string \<Rightarrow> int option \<Rightarrow> task_transition list" where
  "task_history s tid through =
     filter (\<lambda>point. case through of None \<Rightarrow> True | Some n \<Rightarrow> tt_commit_seq point \<le> n)
       (case map_of (st_history s) tid of None \<Rightarrow> [] | Some points \<Rightarrow> points)"

definition commit_sequence :: "store \<Rightarrow> int" where
  "commit_sequence s = st_sequence s"

definition commits_after :: "store \<Rightarrow> int \<Rightarrow> int \<Rightarrow> commit_record list" where
  "commits_after s sequence limit =
     take (nat (max 1 (min 2048 limit))) (filter (\<lambda>r. cr_sequence r > sequence) (st_commits s))"

definition existing_submission :: "store \<Rightarrow> submission_draft option \<Rightarrow> commit_result option result" where
  "existing_submission s draft =
     (case draft of
        None \<Rightarrow> Inr None
      | Some d \<Rightarrow>
          (case map_of (st_submissions s) (sd_conversation_id d, sd_request_id d) of
             None \<Rightarrow> Inr None
           | Some item \<Rightarrow>
               bind_r (submission_draft_init
                   \<lparr>sd_submission_id = sr_submission_id (si_record item),
                    sd_request_id = sd_request_id d, sd_conversation_id = sd_conversation_id d,
                    sd_entry = si_entry item, sd_fingerprint = si_fingerprint item,
                    sd_status = SubQueued, sd_placement = sr_placement (si_record item),
                    sd_mode = sr_mode (si_record item), sd_content = sr_content (si_record item),
                    sd_reason = None\<rparr>) (\<lambda>existing.
                 if \<not> same_submission existing d
                 then Inl (IdempotencyConflict ''request_id was already admitted with different input'')
                 else Inr (Some ((si_result item)\<lparr>cres_record := None\<rparr>)))))"


section \<open>Validation\<close>

fun validate_entry_chain_loop ::
  "string set \<Rightarrow> string option \<Rightarrow> entry_draft list \<Rightarrow> unit result"
where
  "validate_entry_chain_loop existing_ids parent [] = Inr ()"
| "validate_entry_chain_loop existing_ids parent (entry # rest) =
     (if ed_parent_id entry \<noteq> parent \<or> ed_entry_id entry \<in> existing_ids
      then Inl (CommitConflict ''mutation entries do not extend the active branch'')
      else validate_entry_chain_loop (insert (ed_entry_id entry) existing_ids)
             (Some (ed_entry_id entry)) rest)"

definition stored_entry_ids :: "store \<Rightarrow> string set" where
  "stored_entry_ids s = set (map ed_entry_id (concat (dvalues (st_entries s))))"

definition validate_entry_chain :: "store \<Rightarrow> entry_draft list \<Rightarrow> string option \<Rightarrow> unit result" where
  "validate_entry_chain s es head = validate_entry_chain_loop (stored_entry_ids s) head es"

text \<open>The \<open>while cursor not in seen\<close> loop; it returns the final cursor.\<close>

function owner_cursor :: "(string, task_checkpoint) dict \<Rightarrow> string list \<Rightarrow> string \<Rightarrow> string" where
  "owner_cursor ts seen cursor =
     (if cursor \<in> set seen then cursor
      else case map_of ts cursor of
             None \<Rightarrow> cursor
           | Some parent \<Rightarrow>
               (case owner_task_id parent of
                  None \<Rightarrow> cursor
                | Some next_owner \<Rightarrow> owner_cursor ts (cursor # seen) next_owner))"
  by pat_completeness auto
termination
proof (relation "measure (\<lambda>(ts, seen, cursor). card (set (dkeys ts) - set seen))", goal_cases)
  case (2 ts seen cursor parent next_owner)
  from 2(2) have "cursor \<in> set (dkeys ts)" by (auto simp: dkeys_eq_dom)
  with 2(1) show ?case
    by (auto intro!: psubset_card_mono simp del: card_Diff_insert card_Diff_singleton)
qed simp

declare owner_cursor.simps [simp del]

definition validate_task_owner :: "store \<Rightarrow> task_checkpoint \<Rightarrow> unit result" where
  "validate_task_owner s t =
     (case owner_task_id t of
        None \<Rightarrow> Inr ()
      | Some owner \<Rightarrow>
          if owner = tc_task_id t then Inl (CommitConflict ''a task cannot own itself'')
          else if \<not> has_key owner (st_tasks s) then Inl (CommitConflict ''owner task does not exist'')
          else raise_if (owner_cursor (st_tasks s) [tc_task_id t] owner = tc_task_id t)
                 (CommitConflict ''task ownership cycle''))"

definition validate_task_update ::
  "task_checkpoint \<Rightarrow> task_checkpoint \<Rightarrow> string option \<Rightarrow> unit result"
where
  "validate_task_update existing t expected_attempt_token =
     (let consumed = valid_input_consumption (tc_phase existing) (task_status_value (tc_status existing))
                       (tc_state existing) t
      in if truthy (pget (tc_state existing) ''cancel_requested'')
            \<and> tc_phase t \<notin> set [''cancelled'', ''failed'']
            \<and> \<not> valid_cancellation_cleanup (tc_state existing) t
         then Inl (CommitConflict ''task cancellation barrier is active'')
         else if \<not> valid_execution_attempt (tc_state existing) (tc_status existing) t expected_attempt_token
         then Inl (CommitConflict ''task execution attempt changed'')
         else if tc_revision t \<noteq> tc_revision existing + 1
         then Inl (CommitConflict ''task revision changed'')
         else if tc_conversation_id t \<noteq> tc_conversation_id existing
                 \<or> tc_submission_id t \<noteq> tc_submission_id existing
                 \<or> \<not> obj_eq (tc_provider_snapshot t) (tc_provider_snapshot existing)
         then Inl (CommitConflict ''task identity is immutable'')
         else if \<not> valid_frozen_task_state (tc_state existing) (tc_state t)
         then Inl (CommitConflict ''admitted task state is immutable'')
         else if \<not> consumed \<and> \<not> valid_task_transition (Some (tc_phase existing)) (tc_phase t)
         then Inl (CommitConflict (''invalid task phase transition: '' @ tc_phase existing @ '' -> '' @ tc_phase t))
         else raise_if (\<not> consumed \<and> \<not> valid_task_status_transition (Some (tc_status existing)) (tc_status t))
                (CommitConflict (''invalid task status transition: '' @ task_status_value (tc_status existing)
                   @ '' -> '' @ task_status_value (tc_status t))))"

definition validate_task ::
  "store \<Rightarrow> submission_draft option \<Rightarrow> string option \<Rightarrow> task_checkpoint \<Rightarrow> unit result"
where
  "validate_task s proposed_submission expected_attempt_token t =
     (let submission_exists = list_ex (\<lambda>item. sr_submission_id (si_record item) = tc_submission_id t
                \<and> sr_conversation_id (si_record item) = tc_conversation_id t) (dvalues (st_submissions s));
          proposed_matches = (case proposed_submission of
              None \<Rightarrow> False
            | Some d \<Rightarrow> sd_submission_id d = tc_submission_id t \<and> sd_conversation_id d = tc_conversation_id t);
          existing = map_of (st_tasks s) (tc_task_id t)
      in if \<not> submission_exists \<and> \<not> proposed_matches
         then Inl (CommitConflict ''task must belong to a committed submission'')
         else if existing = None \<and> tc_revision t \<noteq> 0
         then Inl (CommitConflict ''new task must start at revision zero'')
         else if existing = None \<and> \<not> valid_task_transition None (tc_phase t)
         then Inl (CommitConflict ''new task must start in accepted phase'')
         else bind_r (validate_task_owner s t) (\<lambda>_.
           case existing of
             Some old \<Rightarrow> validate_task_update old t expected_attempt_token
           | None \<Rightarrow> raise_if (\<not> valid_task_status_transition None (tc_status t))
               (CommitConflict ''new task must start with a non-terminal scheduler status'')))"

definition validate_submission_update ::
  "store \<Rightarrow> entry_draft list \<Rightarrow> submission_update \<Rightarrow> unit result"
where
  "validate_submission_update s es u =
     (case find_submission s (su_submission_id u) of
        None \<Rightarrow> Inl (CommitConflict ''unknown submission'')
      | Some current \<Rightarrow>
          if sr_conversation_id current \<noteq> su_conversation_id u
          then Inl (CommitConflict ''unknown submission'')
          else if sr_status current \<noteq> su_expected_status u
                  \<or> (sr_status current \<noteq> su_status u
                     \<and> \<not> valid_submission_transition (sr_status current) (su_status u))
          then Inl (CommitConflict ''submission status changed'')
          else if (su_content u \<noteq> None \<or> su_mode u \<noteq> None)
                  \<and> (sr_status current \<noteq> SubQueued \<or> sr_placement current \<noteq> PlacementQueued
                     \<or> sr_input_entry_id current \<noteq> None \<or> sr_mode current = ''write''
                     \<or> su_status u \<noteq> SubQueued \<or> su_input_entry_id u \<noteq> None \<or> su_placement u \<noteq> None)
          then Inl (CommitConflict ''only queued user inputs can be revised'')
          else if (case su_answer_entry_id u of None \<Rightarrow> False | Some a \<Rightarrow> a \<notin> set (map ed_entry_id es))
          then Inl (CommitConflict ''answer entry must be part of the same commit'')
          else if (case su_input_entry_id u of None \<Rightarrow> False | Some a \<Rightarrow> a \<notin> set (map ed_entry_id es))
          then Inl (CommitConflict ''placed input entry must be part of the same commit'')
          else (case su_placement u of
              None \<Rightarrow> Inr ()
            | Some placement \<Rightarrow>
                if sr_placement current = PlacementPlaced \<and> placement \<noteq> PlacementPlaced
                then Inl (CommitConflict ''placed submission cannot return to queued'')
                else raise_if (placement = PlacementPlaced \<and> su_input_entry_id u = None
                         \<and> sr_input_entry_id current = None)
                       (CommitConflict ''placing a submission requires an input entry'')))"

definition effect_identity_eq :: "effect_record \<Rightarrow> effect_record \<Rightarrow> bool" where
  "effect_identity_eq a b =
     (ef_task_id a = ef_task_id b \<and> ef_category a = ef_category b \<and> ef_replay_class a = ef_replay_class b
      \<and> ef_args_digest a = ef_args_digest b \<and> obj_eq (ef_intent a) (ef_intent b))"

text \<open>\<open>effect in mutation.settlements\<close>: the same object, or an equal one.\<close>

definition in_settlements :: "durable_mutation \<Rightarrow> effect_record \<Rightarrow> bool" where
  "in_settlements m e = list_ex (\<lambda>x. e = x \<or> effect_eq e x) (dm_settlements m)"

text \<open>
  \<open>effect is not mutation.effect\<close> compares objects. The effects of a constructed mutation have
  distinct ids, so of its rows only \<open>mutation.effect\<close> itself is equal to it, and the equality
  below decides the same.
\<close>

definition validate_effect :: "store \<Rightarrow> durable_mutation \<Rightarrow> effect_record \<Rightarrow> unit result" where
  "validate_effect s m e =
     (if \<not> has_key (ef_task_id e) (st_tasks s)
         \<and> (case dm_task m of None \<Rightarrow> True | Some t \<Rightarrow> tc_task_id t \<noteq> ef_task_id e)
      then Inl (CommitConflict ''effect task does not exist'')
      else (case map_of (st_effects s) (ef_effect_id e) of
          None \<Rightarrow> raise_if (in_settlements m e) (CommitConflict ''effect status changed'')
        | Some existing \<Rightarrow>
            let expected = (if in_settlements m e then Some ''pending'' else dm_expected_effect_status m)
            in if ef_settlement existing \<noteq> None
               then Inl (CommitConflict ''effect is already settled'')
               else if (dm_effect m \<noteq> Some e \<and> \<not> in_settlements m e) \<or> expected \<noteq> Some (ef_status existing)
               then Inl (CommitConflict ''effect status changed'')
               else raise_if (\<not> effect_identity_eq existing e)
                      (CommitConflict ''effect identity is immutable'')))"

definition validate_effects :: "store \<Rightarrow> durable_mutation \<Rightarrow> unit result" where
  "validate_effects s m =
     (if all_effects m \<noteq> [] \<and> dm_task m = None
      then Inl (CommitConflict ''effect mutation requires its task checkpoint'')
      else check_each (validate_effect s m) (all_effects m))"

definition validate_artifact :: "store \<Rightarrow> durable_mutation \<Rightarrow> artifact_record \<Rightarrow> unit result" where
  "validate_artifact s m a =
     (if has_key (ar_handle a) (st_artifacts s)
      then Inl (CommitConflict ''artifact handle already exists'')
      else if (case ar_owner_task_id a of None \<Rightarrow> False
               | Some owner \<Rightarrow> \<not> has_key owner (st_tasks s) \<and> owner \<notin> set (map tc_task_id (all_tasks m)))
      then Inl (CommitConflict ''artifact owner task does not exist'')
      else raise_if (case ar_owner_effect_id a of None \<Rightarrow> False
               | Some owner \<Rightarrow> \<not> has_key owner (st_effects s)
                              \<and> owner \<notin> set (map ef_effect_id (all_effects m)))
             (CommitConflict ''artifact owner effect does not exist''))"

definition validate_artifacts :: "store \<Rightarrow> durable_mutation \<Rightarrow> unit result" where
  "validate_artifacts s m = check_each (validate_artifact s m) (dm_artifacts m)"

text \<open>
  The owners of the new entries are visited in the order in which they occur; Python
  iterates over a set, but the only visible outcome is whether one of them is rejected.
\<close>

definition mutation_owners :: "store \<Rightarrow> durable_mutation \<Rightarrow> task_checkpoint list" where
  "mutation_owners s m =
     List.map_filter (map_of (st_tasks s)) (remdups (List.map_filter ed_by_task_id (dm_entries m)))"

definition conversation_busy :: "store \<Rightarrow> string \<Rightarrow> bool" where
  "conversation_busy s cid = list_ex (\<lambda>t. tc_conversation_id t = cid) (pending_tasks s)"

definition validate_branch :: "store \<Rightarrow> durable_mutation \<Rightarrow> unit result" where
  "validate_branch s m =
     (case dm_branch_entry_id m of
        None \<Rightarrow> Inr ()
      | Some eid \<Rightarrow>
          bind_r (lookup_key (st_entries s) (dm_conversation_id m) (dm_conversation_id m)) (\<lambda>rows.
            raise_if (eid \<notin> set (map ed_entry_id rows))
              (CommitConflict ''branch entry does not belong to conversation'')))"

text \<open>The parent the new entries must extend, after the owner and edit checks.\<close>

definition commit_parent :: "store \<Rightarrow> durable_mutation \<Rightarrow> string option \<Rightarrow> string option result" where
  "commit_parent s m head =
     bind_r (if dm_entries m \<noteq> [] \<and> dm_edited_entry_id m = None \<and> dm_create_conversation m = None
             then bind_r (store_path s (dm_conversation_id m) head) (\<lambda>path.
                    validate_entry_owners (dm_entries m) path (mutation_owners s m))
             else Inr ()) (\<lambda>_.
       if dm_edited_entry_id m \<noteq> None
       then bind_r (store_path s (dm_conversation_id m) head) (\<lambda>path.
              validate_edit m path (conversation_busy s (dm_conversation_id m)))
       else Inr head)"

definition validate_commit_mutation :: "store \<Rightarrow> durable_mutation \<Rightarrow> string option \<Rightarrow> unit result" where
  "validate_commit_mutation s m head =
     bind_r (validate_branch s m) (\<lambda>_.
     bind_r (commit_parent s m head) (\<lambda>parent.
     bind_r (validate_entry_chain s (dm_entries m) parent) (\<lambda>_.
     bind_r (check_each (validate_task s (dm_submission m) (dm_expected_attempt_token m)) (opt_list (dm_task m))) (\<lambda>_.
     bind_r (check_each (validate_task s None None) (dm_task_updates m)) (\<lambda>_.
     bind_r (check_each (validate_submission_update s (dm_entries m)) (all_updates m)) (\<lambda>_.
     bind_r (validate_effects s m) (\<lambda>_.
       validate_artifacts s m)))))))"


section \<open>Writes\<close>

subsection \<open>Indexes\<close>

definition replace_waiters :: "task_checkpoint \<Rightarrow> (string, string set) dict \<Rightarrow> (string, string set) dict" where
  "replace_waiters t waiters =
     fold (\<lambda>dependency d. dset dependency (insert (tc_task_id t) (get_set d dependency)) d)
       (waiting_on t) (map (\<lambda>(k, ids). (k, ids - {tc_task_id t})) waiters)"

definition replace_owner :: "task_checkpoint \<Rightarrow> (string, string set) dict \<Rightarrow> (string, string set) dict" where
  "replace_owner t owners =
     (let cleared = map (\<lambda>(k, ids). (k, ids - {tc_task_id t})) owners
      in case owner_task_id t of
           None \<Rightarrow> cleared
         | Some owner \<Rightarrow> dset owner (insert (tc_task_id t) (get_set cleared owner)) cleared)"

definition record_finalization :: "task_checkpoint \<Rightarrow> string set \<Rightarrow> string set" where
  "record_finalization t finalization =
     (if tc_status t \<in> set [Completing, Waiting] then insert (tc_task_id t) finalization
      else finalization - {tc_task_id t})"

definition put_task :: "task_checkpoint \<Rightarrow> store \<Rightarrow> store" where
  "put_task t s =
     s\<lparr>st_tasks := dset (tc_task_id t) t (st_tasks s),
       st_finalization := record_finalization t (st_finalization s),
       st_waiters := replace_waiters t (st_waiters s),
       st_owners := replace_owner t (st_owners s)\<rparr>"

text \<open>\<open>self._history.setdefault(task_id, [])\<close>, then the append of the transition.\<close>

definition history_slot :: "string \<Rightarrow> store \<Rightarrow> store" where
  "history_slot tid s =
     (if has_key tid (st_history s) then s else s\<lparr>st_history := dset tid [] (st_history s)\<rparr>)"

definition append_history :: "string \<Rightarrow> task_transition \<Rightarrow> store \<Rightarrow> store" where
  "append_history tid point s =
     s\<lparr>st_history := dset tid ((case map_of (st_history s) tid of None \<Rightarrow> [] | Some points \<Rightarrow> points) @ [point])
                       (st_history s)\<rparr>"

text \<open>
  One checkpoint of a commit; \<open>selected\<close> is the task id given to
  \<open>transition_from_payload\<close> for the members of \<open>task_updates\<close>.
\<close>

definition write_task ::
  "durable_mutation \<Rightarrow> string option \<Rightarrow> string option \<Rightarrow> task_checkpoint \<Rightarrow> (store, unit) action"
where
  "write_task m new_head selected t =
     bind_s (modify_s (put_task t)) (\<lambda>_.
     bind_s (modify_s (history_slot (tc_task_id t))) (\<lambda>_.
     bind_s (read_s (\<lambda>s. transition_from_payload (st_sequence s) (execution_payload m new_head) selected)) (\<lambda>point.
       modify_s (append_history (tc_task_id t) point))))"

subsection \<open>Submissions\<close>

definition write_submission :: "durable_mutation \<Rightarrow> int \<Rightarrow> commit_record \<Rightarrow> (store, unit) action" where
  "write_submission m revision r =
     (case dm_submission m of
        None \<Rightarrow> return_s ()
      | Some d \<Rightarrow>
          bind_s (read_s (\<lambda>_. submission_record_init
             \<lparr>sr_submission_id = sd_submission_id d, sr_conversation_id = dm_conversation_id m,
              sr_request_id = sd_request_id d, sr_status = sd_status d,
              sr_input_entry_id = map_option ed_entry_id (sd_entry d), sr_answer_entry_id = None,
              sr_reason = sd_reason d, sr_detail = None, sr_placement = sd_placement d,
              sr_mode = sd_mode d, sr_content = sd_content d\<rparr>)) (\<lambda>rec.
          modify_s (\<lambda>s. s\<lparr>
            st_submissions := dset (dm_conversation_id m, sd_request_id d)
              \<lparr>si_record = rec, si_entry = sd_entry d,
               si_result = \<lparr>cres_revision = revision, cres_sequence = cr_sequence r,
                            cres_submission_id = Some (sd_submission_id d), cres_record = Some r\<rparr>,
               si_fingerprint = sd_fingerprint d\<rparr> (st_submissions s),
            st_submission_ids := insert (sd_submission_id d) (st_submission_ids s)\<rparr>)))"

definition updated_record :: "submission_update \<Rightarrow> submission_record \<Rightarrow> submission_record" where
  "updated_record u r =
     \<lparr>sr_submission_id = sr_submission_id r, sr_conversation_id = sr_conversation_id r,
      sr_request_id = sr_request_id r, sr_status = su_status u,
      sr_input_entry_id = (if su_input_entry_id u = None then sr_input_entry_id r else su_input_entry_id u),
      sr_answer_entry_id = su_answer_entry_id u, sr_reason = su_reason u, sr_detail = su_detail u,
      sr_placement = (case su_placement u of None \<Rightarrow> sr_placement r | Some p \<Rightarrow> p),
      sr_mode = (case su_mode u of None \<Rightarrow> sr_mode r | Some md \<Rightarrow> md),
      sr_content = (case su_content u of None \<Rightarrow> sr_content r | Some c \<Rightarrow> Some c)\<rparr>"

definition update_submission :: "entry_draft list \<Rightarrow> submission_update \<Rightarrow> (store, unit) action" where
  "update_submission es u =
     bind_s (read_s (\<lambda>s.
       case List.find (\<lambda>(key, item). sr_submission_id (si_record item) = su_submission_id u) (st_submissions s) of
         None \<Rightarrow> Inl (CommitConflict ''submission disappeared during commit'')
       | Some (key, current) \<Rightarrow>
           bind_r (submission_record_init (updated_record u (si_record current))) (\<lambda>rec.
             Inr (key, current\<lparr>si_record := rec,
               si_entry := (case su_input_entry_id u of
                   None \<Rightarrow> si_entry current
                 | Some eid \<Rightarrow> (case List.find (\<lambda>e. ed_entry_id e = eid) es of
                       None \<Rightarrow> si_entry current | Some e \<Rightarrow> Some e))\<rparr>)))) (\<lambda>(key, item).
     modify_s (\<lambda>s. s\<lparr>st_submissions := dset key item (st_submissions s)\<rparr>))"

subsection \<open>Commit\<close>

definition task_by_submission :: "durable_mutation \<Rightarrow> (string, string) dict" where
  "task_by_submission m = dupdate (map (\<lambda>t. (tc_submission_id t, tc_task_id t)) (all_tasks m)) []"

definition entry_task_ids :: "durable_mutation \<Rightarrow> (string, string) dict" where
  "entry_task_ids m =
     dupdate (List.map_filter (\<lambda>u.
         case (su_input_entry_id u, map_of (task_by_submission m) (su_submission_id u)) of
           (Some eid, Some tid) \<Rightarrow> Some (eid, tid) | _ \<Rightarrow> None) (all_updates m)) []"

definition stamped_entry :: "durable_mutation \<Rightarrow> int \<Rightarrow> entry_draft \<Rightarrow> entry_draft" where
  "stamped_entry m sequence e =
     e\<lparr>ed_commit_seq := sequence,
       ed_by_task_id := (if falsy (ed_by_task_id e) then map_of (entry_task_ids m) (ed_entry_id e)
                         else ed_by_task_id e)\<rparr>"

definition extend_entries :: "durable_mutation \<Rightarrow> entry_draft list \<Rightarrow> (store, unit) action" where
  "extend_entries m stored =
     bind_s (modify_s (\<lambda>s. case dm_create_conversation m of
         None \<Rightarrow> s
       | Some creation \<Rightarrow>
           s\<lparr>st_entries := dset (dm_conversation_id m) [] (st_entries s),
             st_parents := dset (dm_conversation_id m)
               (cc_parent_conversation_id creation, cc_parent_entry_id creation) (st_parents s)\<rparr>)) (\<lambda>_.
     bind_s (read_s (\<lambda>s. lookup_key (st_entries s) (dm_conversation_id m) (dm_conversation_id m))) (\<lambda>rows.
       modify_s (\<lambda>s. s\<lparr>st_entries := dset (dm_conversation_id m) (rows @ stored) (st_entries s)\<rparr>)))"

definition put_effects :: "durable_mutation \<Rightarrow> store \<Rightarrow> store" where
  "put_effects m s = s\<lparr>st_effects := apply_effects (all_effects m) (st_effects s)\<rparr>"

definition put_artifacts :: "durable_mutation \<Rightarrow> store \<Rightarrow> store" where
  "put_artifacts m s = s\<lparr>st_artifacts := dupdate (map (\<lambda>a. (ar_handle a, a)) (dm_artifacts m)) (st_artifacts s)\<rparr>"

definition new_revision :: "durable_mutation \<Rightarrow> int \<Rightarrow> int" where
  "new_revision m revision =
     revision + (if dm_branch_entry_id m \<noteq> None then 1 else int (length (dm_entries m)))"

definition new_head :: "durable_mutation \<Rightarrow> string option \<Rightarrow> string option" where
  "new_head m head =
     (if \<not> falsy (dm_branch_entry_id m) then dm_branch_entry_id m
      else if dm_entries m \<noteq> [] then Some (ed_entry_id (last (dm_entries m))) else head)"

text \<open>\<open>result = replace(result, submission_id=...)\<close> after the submission and each update.\<close>

definition result_submission_id :: "durable_mutation \<Rightarrow> string option" where
  "result_submission_id m =
     (if all_updates m \<noteq> [] then Some (su_submission_id (last (all_updates m)))
      else map_option sd_submission_id (dm_submission m))"

definition append_commit :: "string \<Rightarrow> durable_mutation \<Rightarrow> (store, commit_record) action" where
  "append_commit now m =
     bind_s (modify_s (\<lambda>s. s\<lparr>st_sequence := st_sequence s + 1\<rparr>)) (\<lambda>_.
     bind_s (read_s (\<lambda>s. commit_record_init (projection_record (st_sequence s) now (st_database_id s) m))) (\<lambda>r.
     bind_s (modify_s (\<lambda>s. s\<lparr>st_commits := st_commits s @ [r]\<rparr>)) (\<lambda>_.
       return_s r)))"

definition write_commit ::
  "string \<Rightarrow> durable_mutation \<Rightarrow> string option \<Rightarrow> int \<Rightarrow> (store, commit_result) action"
where
  "write_commit now m head revision =
     (let rev' = new_revision m revision; head' = new_head m head in
     bind_s (append_commit now m) (\<lambda>r.
     bind_s (read_s (\<lambda>s. map_r (\<lambda>e. entry_draft_init (stamped_entry m (st_sequence s) e)) (dm_entries m))) (\<lambda>stored.
     bind_s (extend_entries m stored) (\<lambda>_.
     bind_s (modify_s (\<lambda>s. s\<lparr>st_heads := dset (dm_conversation_id m) (head', rev') (st_heads s)\<rparr>)) (\<lambda>_.
     bind_s (each_s (write_task m head' None) (opt_list (dm_task m))) (\<lambda>_.
     bind_s (each_s (\<lambda>t. write_task m head' (Some (tc_task_id t)) t) (dm_task_updates m)) (\<lambda>_.
     bind_s (modify_s (put_effects m)) (\<lambda>_.
     bind_s (modify_s (put_artifacts m)) (\<lambda>_.
     bind_s (write_submission m rev' r) (\<lambda>_.
     bind_s (each_s (update_submission (dm_entries m)) (all_updates m)) (\<lambda>_.
       return_s \<lparr>cres_revision = rev', cres_sequence = cr_sequence r,
                 cres_submission_id = result_submission_id m, cres_record = Some r\<rparr>)))))))))))"

definition drop_tasks :: "string list \<Rightarrow> (string, string set) dict \<Rightarrow> (string, string set) dict" where
  "drop_tasks ids d = map (\<lambda>(k, xs). (k, xs - set ids)) (filter (\<lambda>(k, xs). k \<notin> set ids) d)"

definition remove_conversation :: "string \<Rightarrow> store \<Rightarrow> store" where
  "remove_conversation cid s =
     (let task_ids = map fst (filter (\<lambda>(tid, t). tc_conversation_id t = cid) (st_tasks s));
          removed = filter (\<lambda>(key, item). sr_conversation_id (si_record item) = cid) (st_submissions s);
          removed_effect_ids = map fst (filter (\<lambda>(eid, e). ef_task_id e \<in> set task_ids) (st_effects s))
      in s\<lparr>st_submission_ids := st_submission_ids s
             - set (map (\<lambda>(key, item). sr_submission_id (si_record item)) removed),
           st_submissions := filter (\<lambda>(key, item). sr_conversation_id (si_record item) \<noteq> cid) (st_submissions s),
           st_tasks := filter (\<lambda>(tid, t). tc_conversation_id t \<noteq> cid) (st_tasks s),
           st_finalization := st_finalization s - set task_ids,
           st_history := filter (\<lambda>(tid, points). tid \<notin> set task_ids) (st_history s),
           st_waiters := drop_tasks task_ids (st_waiters s),
           st_owners := drop_tasks task_ids (st_owners s),
           st_effects := filter (\<lambda>(eid, e). ef_task_id e \<notin> set task_ids) (st_effects s),
           st_artifacts := filter (\<lambda>(h, a).
               \<not> (case ar_owner_task_id a of None \<Rightarrow> False | Some t \<Rightarrow> t \<in> set task_ids)
               \<and> \<not> (case ar_owner_effect_id a of None \<Rightarrow> False | Some e \<Rightarrow> e \<in> set removed_effect_ids))
             (st_artifacts s),
           st_entries := dpop cid (st_entries s),
           st_heads := dpop cid (st_heads s),
           st_parents := dpop cid (st_parents s)\<rparr>)"

definition has_forked_children :: "store \<Rightarrow> string \<Rightarrow> bool" where
  "has_forked_children s cid = list_ex (\<lambda>(parent, entry). parent = Some cid) (dvalues (st_parents s))"

definition commit_delete_conversation :: "string \<Rightarrow> durable_mutation \<Rightarrow> int \<Rightarrow> (store, commit_result) action" where
  "commit_delete_conversation now m revision =
     bind_s (read_s (\<lambda>s. raise_if (has_forked_children s (dm_conversation_id m))
                            (CommitConflict ''conversation has forked children''))) (\<lambda>_.
     bind_s (append_commit now m) (\<lambda>r.
     bind_s (modify_s (remove_conversation (dm_conversation_id m))) (\<lambda>_.
       return_s \<lparr>cres_revision = revision + 1, cres_sequence = cr_sequence r,
                 cres_submission_id = None, cres_record = Some r\<rparr>)))"

definition is_noop :: "durable_mutation \<Rightarrow> bool" where
  "is_noop m =
     (dm_task m = None \<and> dm_effect m = None \<and> dm_effects m = [] \<and> dm_settlements m = []
      \<and> dm_submission m = None \<and> dm_sub_update m = None \<and> dm_sub_updates m = []
      \<and> dm_task_updates m = [] \<and> dm_entries m = [] \<and> dm_artifacts m = []
      \<and> dm_branch_entry_id m = None \<and> dm_create_conversation m = None)"

text \<open>
  What \<open>commit\<close> decides before its first write: an answer that leaves the store as it
  is, a deletion, or a write on top of a head and revision.
\<close>

datatype commit_plan = Answer commit_result | Delete int | Write "string option" int

definition plan_creation :: "store \<Rightarrow> durable_mutation \<Rightarrow> create_conversation \<Rightarrow> commit_result option result" where
  "plan_creation s m creation =
     bind_r (existing_submission s (dm_submission m)) (\<lambda>prior.
       case prior of
         Some r \<Rightarrow> Inr (Some r)
       | None \<Rightarrow>
           if has_key (dm_conversation_id m) (st_heads s)
           then Inl (CommitConflict ''conversation already exists'')
           else (case cc_parent_conversation_id creation of
               None \<Rightarrow> Inr None
             | Some pcid \<Rightarrow> bind_r (store_path s pcid (cc_parent_entry_id creation)) (\<lambda>_. Inr None)))"

definition plan_at :: "store \<Rightarrow> durable_mutation \<Rightarrow> string option \<Rightarrow> int \<Rightarrow> commit_plan result" where
  "plan_at s m head revision =
     (if revision \<noteq> dm_expected_revision m
      then bind_r (existing_submission s (dm_submission m)) (\<lambda>prior.
             case prior of Some r \<Rightarrow> Inr (Answer r)
             | None \<Rightarrow> Inl (CommitConflict ''conversation revision changed''))
      else if dm_delete_conversation m then Inr (Delete revision)
      else bind_r (existing_submission s (dm_submission m)) (\<lambda>prior.
             case prior of
               Some r \<Rightarrow> Inr (Answer (r\<lparr>cres_record := None\<rparr>))
             | None \<Rightarrow>
                 if (case dm_submission m of None \<Rightarrow> False
                     | Some d \<Rightarrow> sd_submission_id d \<in> st_submission_ids s)
                 then Inl (IdempotencyConflict ''submission ID was already used'')
                 else bind_r (validate_commit_mutation s m head) (\<lambda>_.
                   if is_noop m
                   then Inr (Answer \<lparr>cres_revision = revision, cres_sequence = st_sequence s,
                                     cres_submission_id = None, cres_record = None\<rparr>)
                   else Inr (Write head revision))))"

definition commit_plan_of :: "store \<Rightarrow> durable_mutation \<Rightarrow> commit_plan result" where
  "commit_plan_of s m =
     (case dm_create_conversation m of
        Some creation \<Rightarrow>
          bind_r (plan_creation s m creation) (\<lambda>prior.
            case prior of Some r \<Rightarrow> Inr (Answer r) | None \<Rightarrow> plan_at s m None 0)
      | None \<Rightarrow>
          bind_r (conversation s (dm_conversation_id m)) (\<lambda>(head, revision).
            plan_at s m head revision))"

definition commit :: "string \<Rightarrow> durable_mutation \<Rightarrow> (store, commit_result) action" where
  "commit now m =
     bind_s (read_s (\<lambda>s. commit_plan_of s m)) (\<lambda>plan.
       case plan of
         Answer r \<Rightarrow> return_s r
       | Delete revision \<Rightarrow> commit_delete_conversation now m revision
       | Write head revision \<Rightarrow> write_commit now m head revision)"


subsection \<open>The remaining methods\<close>

definition create_conversation :: "string \<Rightarrow> string option \<Rightarrow> string option \<Rightarrow> (store, unit) action" where
  "create_conversation cid pcid peid s =
     (if cid = [] then (Inl (ValueError ''conversation_id is required''), s)
      else if has_key cid (st_heads s)
      then (bind_r (lookup_key (st_parents s) cid cid) (\<lambda>parents.
              raise_if (parents \<noteq> (pcid, peid))
                (CommitConflict ''conversation identity already exists with different ancestry'')), s)
      else (Inr (), s\<lparr>st_heads := dset cid (None, 0) (st_heads s),
                      st_entries := dset cid [] (st_entries s),
                      st_parents := dset cid (pcid, peid) (st_parents s)\<rparr>))"

text \<open>\<open>self.commit(DurableMutation(...))\<close>: the constructor runs first.\<close>

definition commit_new :: "string \<Rightarrow> durable_mutation \<Rightarrow> (store, commit_result) action" where
  "commit_new now m = bind_s (read_s (\<lambda>_. durable_mutation_init m)) (commit now)"

definition append_entry :: "string \<Rightarrow> entry_draft \<Rightarrow> int \<Rightarrow> (store, commit_result) action" where
  "append_entry now draft expected_revision =
     commit_new now ((empty_mutation (ed_conversation_id draft) expected_revision)\<lparr>dm_entries := [draft]\<rparr>)"

definition submit :: "string \<Rightarrow> submission_draft \<Rightarrow> (store, commit_result) action" where
  "submit now draft =
     bind_s (read_s (\<lambda>s. conversation s (sd_conversation_id draft))) (\<lambda>(head, revision).
       commit_new now ((empty_mutation (sd_conversation_id draft) revision)
         \<lparr>dm_entries := opt_list (sd_entry draft), dm_submission := Some draft\<rparr>))"

definition branch :: "string \<Rightarrow> string \<Rightarrow> string \<Rightarrow> int option \<Rightarrow> (store, commit_result) action" where
  "branch now cid eid expected_revision =
     bind_s (read_s (\<lambda>s. conversation s cid)) (\<lambda>(head, revision).
       commit_new now ((empty_mutation cid (case expected_revision of None \<Rightarrow> revision | Some n \<Rightarrow> n))
         \<lparr>dm_branch_entry_id := Some eid\<rparr>))"

definition fork :: "string \<Rightarrow> string \<Rightarrow> string \<Rightarrow> string \<Rightarrow> (store, commit_result) action" where
  "fork now cid eid child =
     bind_s (read_s (\<lambda>s. store_path s cid (Some eid))) (\<lambda>_.
     bind_s (read_s (\<lambda>s. raise_if (has_key child (st_heads s))
                            (ValueError (''conversation already exists: '' @ child)))) (\<lambda>_.
     bind_s (create_conversation child (Some cid) (Some eid)) (\<lambda>_.
     bind_s (modify_s (\<lambda>s. s\<lparr>st_sequence := st_sequence s + 1\<rparr>)) (\<lambda>_.
     bind_s (read_s (\<lambda>s. commit_record_init
        \<lparr>cr_sequence = st_sequence s, cr_kind = ''fork'', cr_committed_at = now,
         cr_payload = [(''database_id'', PStr (st_database_id s)), (''session_id'', PStr child),
                       (''parent_session_id'', PStr cid), (''parent_entry_id'', PStr eid)]\<rparr>)) (\<lambda>r.
     bind_s (modify_s (\<lambda>s. s\<lparr>st_commits := st_commits s @ [r]\<rparr>)) (\<lambda>_.
       return_s \<lparr>cres_revision = 0, cres_sequence = cr_sequence r,
                 cres_submission_id = None, cres_record = Some r\<rparr>))))))"

definition drop_submission :: "(string \<times> string) \<times> submission_item \<Rightarrow> store \<Rightarrow> store" where
  "drop_submission row s =
     s\<lparr>st_submissions := dpop (fst row) (st_submissions s),
       st_submission_ids := st_submission_ids s - {sr_submission_id (si_record (snd row))},
       st_tasks := dpop (sr_submission_id (si_record (snd row))) (st_tasks s)\<rparr>"

definition drop_task :: "string \<Rightarrow> store \<Rightarrow> store" where
  "drop_task tid s =
     s\<lparr>st_tasks := dpop tid (st_tasks s), st_finalization := st_finalization s - {tid},
       st_effects := filter (\<lambda>(eid, e). ef_task_id e \<noteq> tid) (st_effects s)\<rparr>"

definition delete_conversation :: "string \<Rightarrow> (store, unit) action" where
  "delete_conversation cid =
     bind_s (read_s (\<lambda>s. conversation s cid)) (\<lambda>_.
     bind_s (read_s (\<lambda>s. raise_if (has_forked_children s cid)
                            (CommitConflict ''conversation has forked children''))) (\<lambda>_.
     bind_s (modify_s (\<lambda>s. s\<lparr>st_entries := dpop cid (st_entries s), st_heads := dpop cid (st_heads s),
                              st_parents := dpop cid (st_parents s)\<rparr>)) (\<lambda>_.
     bind_s (modify_s (\<lambda>s. fold drop_submission
        (filter (\<lambda>(key, item). sr_conversation_id (si_record item) = cid) (st_submissions s)) s)) (\<lambda>_.
       modify_s (\<lambda>s. fold drop_task
        (map fst (filter (\<lambda>(tid, t). tc_conversation_id t = cid) (st_tasks s))) s)))))"

definition acquire_scheduler_owner :: "(int \<Rightarrow> bool) \<Rightarrow> string \<Rightarrow> int \<Rightarrow> (store, unit) action" where
  "acquire_scheduler_owner process_is_alive owner_id process_id s =
     (if owner_id = [] \<or> process_id \<le> 0
      then (Inl (ValueError ''scheduler owner identity is invalid''), s)
      else (case st_scheduler_owner s of
          None \<Rightarrow> (Inr (), s\<lparr>st_scheduler_owner := Some (owner_id, process_id)\<rparr>)
        | Some current \<Rightarrow>
            if fst current = owner_id
            then (Inr (), s\<lparr>st_scheduler_owner := Some (owner_id, process_id)\<rparr>)
            else if process_is_alive (snd current)
            then (Inl (SchedulerOwnershipError ''another live scheduler owns this durable store''), s)
            else (Inr (), s\<lparr>st_scheduler_owner := Some (owner_id, process_id)\<rparr>)))"

definition release_scheduler_owner :: "string \<Rightarrow> store \<Rightarrow> store" where
  "release_scheduler_owner owner_id s =
     (case st_scheduler_owner s of
        None \<Rightarrow> s
      | Some current \<Rightarrow> if fst current = owner_id then s\<lparr>st_scheduler_owner := None\<rparr> else s)"

end
