(* ===== verification/Commit_Form.thy ===== *)
theory Commit_Form
  imports Memory_Store
begin

text \<open>
  The write phase of \<open>MemoryDurableStore.commit\<close> in closed form: for a mutation made of
  records that went through their constructors, everything up to the submission rows is
  one function of the state that cannot raise.
\<close>

section \<open>Mutations as the program builds them\<close>

definition entry_ok :: "entry_draft \<Rightarrow> bool" where
  "entry_ok e = (entry_draft_init e = Inr e)"

definition submission_ok :: "submission_draft \<Rightarrow> bool" where
  "submission_ok d = (submission_draft_init d = Inr d)"

definition mutation_ok :: "durable_mutation \<Rightarrow> bool" where
  "mutation_ok m =
     (durable_mutation_init m = Inr m
      \<and> list_all entry_ok (dm_entries m) \<and> list_all checkpoint_ok (all_tasks m)
      \<and> list_all effect_ok (all_effects m) \<and> list_all submission_ok (opt_list (dm_submission m)))"

lemma entry_ok_iff:
  "entry_ok e \<longleftrightarrow> ed_entry_id e \<noteq> [] \<and> ed_conversation_id e \<noteq> [] \<and> ed_kind e \<noteq> []
     \<and> canonical_obj (ed_payload e) = Inr (ed_payload e)"
  by (cases e) (auto simp: entry_ok_def entry_draft_init_def)

lemma entry_ok_stamped: "entry_ok e \<Longrightarrow> entry_draft_init (stamped_entry m n e) = Inr (stamped_entry m n e)"
  unfolding entry_ok_def [symmetric] by (simp add: entry_ok_iff stamped_entry_def)

text \<open>What the constructor of a mutation guarantees.\<close>

lemma mutation_shape:
  assumes "durable_mutation_init m = Inr m"
  shows "dm_conversation_id m \<noteq> []" and "0 \<le> dm_expected_revision m"
    and "distinct (map tc_task_id (all_tasks m))"
    and "\<forall>t\<in>set (all_tasks m). tc_conversation_id t = dm_conversation_id m"
    and "\<forall>e\<in>set (dm_entries m). ed_conversation_id e = dm_conversation_id m"
    and "\<forall>d. dm_submission m = Some d \<longrightarrow> sd_conversation_id d = dm_conversation_id m"
    and "distinct (map su_submission_id (all_updates m))"
    and "\<forall>u\<in>set (all_updates m). su_conversation_id u = dm_conversation_id m"
    and "dm_delete_conversation m \<Longrightarrow> dm_create_conversation m = None"
    and "dm_branch_entry_id m \<noteq> Some []"
    and "dm_branch_entry_id m \<noteq> None \<Longrightarrow> dm_entries m = [] \<and> dm_create_conversation m = None"
    and "dm_edited_entry_id m \<noteq> None \<Longrightarrow> dm_create_conversation m = None \<and> length (dm_entries m) = 1"
  using assms
  by (auto simp: durable_mutation_init_def validate_mutation_shape_def validate_mutation_tasks_def
      validate_mutation_submissions_def carries_changes_def list_ex_iff split: option.splits list.splits)

lemma mutation_effects_shape:
  assumes "durable_mutation_init m = Inr m"
  shows "distinct (map ef_effect_id (all_effects m))"
    and "dm_task m = Some t \<Longrightarrow> e \<in> set (all_effects m) \<Longrightarrow> ef_task_id e = tc_task_id t"
    and "e \<in> set (dm_settlements m) \<Longrightarrow> ef_settlement e \<noteq> None"
    and "distinct (map ar_handle (dm_artifacts m))"
proof -
  from assms have shape: "validate_mutation_effects m = Inr ()"
    by (simp add: durable_mutation_init_def validate_mutation_shape_def)
  show "distinct (map ef_effect_id (all_effects m))"
    using shape by (auto simp: validate_mutation_effects_def Let_def all_effects_def opt_list_def split: option.splits)
  show "ef_settlement e \<noteq> None" if "e \<in> set (dm_settlements m)"
    using shape that by (auto simp: validate_mutation_effects_def Let_def list_ex_iff)
  show "distinct (map ar_handle (dm_artifacts m))"
    using shape by (simp add: validate_mutation_effects_def validate_artifact_handles_def Let_def)
  show "ef_task_id e = tc_task_id t" if "dm_task m = Some t" "e \<in> set (all_effects m)"
  proof -
    from shape that(1) have "map ef_task_id (all_effects m) \<noteq> [] \<longrightarrow>
        set (map ef_task_id (all_effects m)) = {tc_task_id t}"
      by (auto simp: validate_mutation_effects_def Let_def)
    with that(2) show ?thesis by auto
  qed
qed

lemma mutation_ok_shape: "mutation_ok m \<Longrightarrow> durable_mutation_init m = Inr m"
  by (simp add: mutation_ok_def)

lemmas mutation_okD =
  mutation_shape [OF mutation_ok_shape] mutation_effects_shape [OF mutation_ok_shape]


section \<open>The write phase in closed form\<close>

lemma dset_dset [simp]: "dset k v (dset k w d) = dset k v d"
  by (induction d) (auto simp: dset_def)

lemma map_r_stamped:
  "list_all entry_ok es \<Longrightarrow> map_r (\<lambda>e. entry_draft_init (stamped_entry m n e)) es = Inr (map (stamped_entry m n) es)"
  by (rule map_r_total) (auto simp: list_all_iff entry_ok_stamped)

definition record_task :: "task_transition \<Rightarrow> task_checkpoint \<Rightarrow> store \<Rightarrow> store" where
  "record_task point t s = append_history (tc_task_id t) point (put_task t s)"

lemma append_history_slot: "append_history tid p (history_slot tid s) = append_history tid p s"
  by (auto simp: append_history_def history_slot_def has_key_def)

lemma st_sequence_put [simp]:
  "st_sequence (put_task t s) = st_sequence s" "st_sequence (history_slot tid s) = st_sequence s"
  "st_sequence (append_history tid p s) = st_sequence s" "st_sequence (record_task p t s) = st_sequence s"
  by (simp_all add: put_task_def history_slot_def append_history_def record_task_def)

text \<open>The checkpoint of \<open>dm_task\<close> is read from the singular field, with every effect.\<close>

lemma transition_round_trip_first:
  assumes "mutation_ok m" and "dm_task m = Some t"
  shows "transition_from_payload seq (execution_payload m head) None = Inr (commit_transition seq m head t)"
proof -
  have tasks: "all_tasks m = t # dm_task_updates m"
    using assms(2) by (simp add: all_tasks_def opt_list_def)
  have t: "checkpoint_ok t" and es: "\<forall>e\<in>set (all_effects m). effect_ok e"
    using assms(1) by (simp_all add: mutation_ok_def tasks list_all_iff)
  have own: "filter (\<lambda>e. ef_task_id e = tc_task_id t) (all_effects m) = all_effects m"
    using mutation_okD(14) [OF assms] by (simp add: filter_id_conv)
  have payload: "execution_payload m head =
      [(''schema_version'', PInt 1), (''task'', PDict (checkpoint_payload t)),
       (''tasks'', PList (map (\<lambda>t. PDict (checkpoint_payload t)) (all_tasks m))),
       (''head_entry_id'', opt_str head), (''effects'', PList (map (\<lambda>e. PDict (effect_payload e)) (all_effects m)))]"
    by (simp add: execution_payload_def tasks)
  show ?thesis
    unfolding transition_from_payload_def payload
    by (simp add: select_task_row_def get_mapping_def checkpoint_round_trip [OF t] effect_rows_def
        effects_round_trip [OF es] get_opt_str_def commit_transition_def own pget_def pget_default_def)
qed

lemma write_task_form:
  assumes "\<And>n. transition_from_payload n (execution_payload m head) selected = Inr (p n)"
  shows "write_task m head selected t s = (Inr (), record_task (p (st_sequence s)) t s)"
  by (simp add: write_task_def assms record_task_def append_history_slot)

lemma each_write_task:
  assumes "mutation_ok m" and "set ts \<subseteq> set (all_tasks m)"
  shows "each_s (\<lambda>t. write_task m head (Some (tc_task_id t)) t) ts s
           = (Inr (), fold (\<lambda>t. record_task (commit_transition (st_sequence s) m head t) t) ts s)"
  using assms(2)
proof (induction ts arbitrary: s)
  case (Cons t ts)
  have "transition_from_payload n (execution_payload m head) (Some (tc_task_id t)) = Inr (commit_transition n m head t)" for n
    using assms(1) Cons.prems mutation_okD(3) [OF assms(1)]
    by (intro transition_round_trip) (auto simp: mutation_ok_def list_all_iff)
  from write_task_form [OF this] Cons show ?case by (simp add: bind_s_def)
qed simp

definition commit_row :: "string \<Rightarrow> durable_mutation \<Rightarrow> store \<Rightarrow> commit_record" where
  "commit_row now m s =
     (projection_record (st_sequence s + 1) now (st_database_id s) m)\<lparr>cr_payload :=
        freeze_obj (dset ''database_id'' (PStr (st_database_id s)) (mutation_projection m))\<rparr>"

definition commit_entries :: "durable_mutation \<Rightarrow> store \<Rightarrow> (string, entry_draft list) dict" where
  "commit_entries m s =
     (let rows = (case dm_create_conversation m of
                    None \<Rightarrow> the (map_of (st_entries s) (dm_conversation_id m)) | Some _ \<Rightarrow> [])
      in dset (dm_conversation_id m) (rows @ map (stamped_entry m (st_sequence s + 1)) (dm_entries m)) (st_entries s))"

definition commit_base :: "string \<Rightarrow> durable_mutation \<Rightarrow> string option \<Rightarrow> int \<Rightarrow> store \<Rightarrow> store" where
  "commit_base now m head revision s =
     s\<lparr>st_sequence := st_sequence s + 1,
       st_commits := st_commits s @ [commit_row now m s],
       st_entries := commit_entries m s,
       st_parents := (case dm_create_conversation m of
           None \<Rightarrow> st_parents s
         | Some creation \<Rightarrow> dset (dm_conversation_id m)
             (cc_parent_conversation_id creation, cc_parent_entry_id creation) (st_parents s)),
       st_heads := dset (dm_conversation_id m) (new_head m head, new_revision m revision) (st_heads s)\<rparr>"

definition commit_tasks :: "int \<Rightarrow> durable_mutation \<Rightarrow> string option \<Rightarrow> store \<Rightarrow> store" where
  "commit_tasks n m head s = fold (\<lambda>t. record_task (commit_transition n m head t) t) (all_tasks m) s"

definition put_submission :: "durable_mutation \<Rightarrow> int \<Rightarrow> commit_record \<Rightarrow> store \<Rightarrow> store" where
  "put_submission m revision r s = snd (write_submission m revision r s)"

definition commit_core :: "string \<Rightarrow> durable_mutation \<Rightarrow> string option \<Rightarrow> int \<Rightarrow> store \<Rightarrow> store" where
  "commit_core now m head revision s =
     put_submission m (new_revision m revision) (commit_row now m s)
       (put_artifacts m (put_effects m
         (commit_tasks (st_sequence s + 1) m (new_head m head) (commit_base now m head revision s))))"

lemma append_commit_form:
  "append_commit now m s = (Inr (commit_row now m s),
     s\<lparr>st_sequence := st_sequence s + 1, st_commits := st_commits s @ [commit_row now m s]\<rparr>)"
  by (simp add: append_commit_def commit_record_init_projection commit_row_def)

lemma write_submission_ok:
  assumes "mutation_ok m"
  shows "fst (write_submission m revision r s) = Inr ()"
proof (cases "dm_submission m")
  case (Some d)
  with assms have d: "submission_draft_init d = Inr d"
    by (simp add: mutation_ok_def submission_ok_def opt_list_def)
  have cid: "dm_conversation_id m = sd_conversation_id d" using mutation_okD(6) [OF assms] Some by simp
  have entry: "sd_entry d = Some e \<Longrightarrow> ed_entry_id e \<noteq> []" for e
  proof -
    assume e: "sd_entry d = Some e"
    have "list_ex (entry_eq e) (dm_entries m)"
      using mutation_ok_shape [OF assms] Some e
      by (auto simp: durable_mutation_init_def validate_mutation_shape_def)
    then obtain x where "x \<in> set (dm_entries m)" "entry_eq e x" by (auto simp: list_ex_iff)
    moreover then have "entry_ok x" using assms by (auto simp: mutation_ok_def list_all_iff)
    ultimately show ?thesis by (simp add: entry_eq_def entry_ok_iff)
  qed
  have content: "canonical_opt (sd_content d) = Inr (sd_content d)"
    using d by (cases d) (auto simp: submission_draft_init_def Let_def)
  have "\<exists>rec. submission_record_init
     \<lparr>sr_submission_id = sd_submission_id d, sr_conversation_id = dm_conversation_id m,
      sr_request_id = sd_request_id d, sr_status = sd_status d,
      sr_input_entry_id = map_option ed_entry_id (sd_entry d), sr_answer_entry_id = None,
      sr_reason = sd_reason d, sr_detail = None, sr_placement = sd_placement d,
      sr_mode = sd_mode d, sr_content = sd_content d\<rparr> = Inr rec"
    unfolding cid using d entry content
    by (cases "sd_entry d"; cases "sd_placement d")
       (auto simp: submission_record_init_def submission_draft_init_def Let_def falsy_def
          canonical_opt_def [of None])
  with Some show ?thesis by (auto simp: write_submission_def)
qed (simp add: write_submission_def)


lemma write_submission_form:
  "mutation_ok m \<Longrightarrow> write_submission m revision r s = (Inr (), put_submission m revision r s)"
  using write_submission_ok by (simp add: put_submission_def prod_eq_iff)

lemma each_opt_task:
  assumes "mutation_ok m"
  shows "each_s (write_task m head None) (opt_list (dm_task m)) s
     = (Inr (), fold (\<lambda>t. record_task (commit_transition (st_sequence s) m head t) t) (opt_list (dm_task m)) s)"
proof (cases "dm_task m")
  case (Some t)
  from write_task_form [OF transition_round_trip_first [OF assms Some], where t = t and s = s]
  show ?thesis by (simp add: Some opt_list_def bind_s_def)
qed (simp add: opt_list_def)

lemma sequence_fold_record [simp]: "st_sequence (fold (\<lambda>t. record_task (p t) t) ts s) = st_sequence s"
  by (induction ts arbitrary: s) simp_all

definition commit_answer :: "string \<Rightarrow> durable_mutation \<Rightarrow> int \<Rightarrow> store \<Rightarrow> commit_result" where
  "commit_answer now m revision s =
     \<lparr>cres_revision = new_revision m revision, cres_sequence = st_sequence s + 1,
      cres_submission_id = result_submission_id m, cres_record = Some (commit_row now m s)\<rparr>"

lemma cr_sequence_commit_row [simp]: "cr_sequence (commit_row now m s) = st_sequence s + 1"
  by (simp add: commit_row_def projection_record_def)

theorem write_commit_form:
  assumes "mutation_ok m"
    and "dm_create_conversation m = None \<Longrightarrow> has_key (dm_conversation_id m) (st_entries s)"
  shows "write_commit now m head revision s =
    bind_s (each_s (update_submission (dm_entries m)) (all_updates m))
      (\<lambda>_. return_s (commit_answer now m revision s)) (commit_core now m head revision s)"
proof -
  let ?n = "st_sequence s + 1"
  let ?s1 = "s\<lparr>st_sequence := ?n, st_commits := st_commits s @ [commit_row now m s]\<rparr>"
  have stored: "map_r (\<lambda>e. entry_draft_init (stamped_entry m ?n e)) (dm_entries m)
      = Inr (map (stamped_entry m ?n) (dm_entries m))"
    using assms(1) by (intro map_r_stamped) (simp add: mutation_ok_def)
  have entries: "extend_entries m (map (stamped_entry m ?n) (dm_entries m)) ?s1 =
    (Inr (), ?s1\<lparr>st_entries := commit_entries m s,
              st_parents := (case dm_create_conversation m of
                  None \<Rightarrow> st_parents s
                | Some creation \<Rightarrow> dset (dm_conversation_id m)
                    (cc_parent_conversation_id creation, cc_parent_entry_id creation) (st_parents s))\<rparr>)"
    using assms(2) by (cases "dm_create_conversation m")
      (auto simp: extend_entries_def commit_entries_def lookup_key_def has_key_def Let_def)
  have base: "?s1\<lparr>st_entries := commit_entries m s,
        st_parents := (case dm_create_conversation m of
                  None \<Rightarrow> st_parents s
                | Some creation \<Rightarrow> dset (dm_conversation_id m)
                    (cc_parent_conversation_id creation, cc_parent_entry_id creation) (st_parents s)),
        st_heads := dset (dm_conversation_id m) (new_head m head, new_revision m revision) (st_heads s)\<rparr>
      = commit_base now m head revision s"
    by (simp add: commit_base_def)
  have seq: "st_sequence (commit_base now m head revision s) = ?n" by (simp add: commit_base_def)
  have updates: "set (dm_task_updates m) \<subseteq> set (all_tasks m)" by (auto simp: all_tasks_def)
  show ?thesis
    unfolding write_commit_def Let_def
    by (simp add: bind_s_def append_commit_form stored read_s_def entries base each_opt_task [OF assms(1)] seq
        each_write_task [OF assms(1) updates] write_submission_form [OF assms(1)]
        commit_core_def commit_tasks_def all_tasks_def commit_answer_def)
qed

text \<open>The three ways a commit goes.\<close>

lemma commit_cases:
  assumes "commit now m s = (res, s')"
  obtains (rejected) e where "commit_plan_of s m = Inl e" "res = Inl e" "s' = s"
  | (answered) r where "commit_plan_of s m = Inr (Answer r)" "res = Inr r" "s' = s"
  | (deleted) revision where "commit_plan_of s m = Inr (Delete revision)"
      "commit_delete_conversation now m revision s = (res, s')"
  | (written) head revision where "commit_plan_of s m = Inr (Write head revision)"
      "write_commit now m head revision s = (res, s')"
proof (cases "commit_plan_of s m")
  case (Inl e)
  with assms have "res = Inl e" "s' = s" by (auto simp: commit_def)
  with Inl show ?thesis by (rule rejected)
next
  case (Inr plan)
  show ?thesis
  proof (cases plan)
    case (Answer r)
    with Inr assms have "res = Inr r" "s' = s" by (auto simp: commit_def)
    with Inr Answer show ?thesis by (intro answered) simp_all
  next
    case (Delete revision)
    with Inr assms have "commit_delete_conversation now m revision s = (res, s')" by (simp add: commit_def)
    with Inr Delete show ?thesis by (intro deleted) simp_all
  next
    case (Write head revision)
    with Inr assms have "write_commit now m head revision s = (res, s')" by (simp add: commit_def)
    with Inr Write show ?thesis by (intro written) simp_all
  qed
qed

lemma commit_plan_ofD:
  assumes "commit_plan_of s m = Inr plan" and "\<nexists>r. plan = Answer r"
  shows "(if dm_create_conversation m = None
          then \<exists>head revision. map_of (st_heads s) (dm_conversation_id m) = Some (head, revision)
                 \<and> plan_at s m head revision = Inr plan
          else \<not> has_key (dm_conversation_id m) (st_heads s) \<and> plan_at s m None 0 = Inr plan
               \<and> (\<forall>pc. cc_parent_conversation_id (the (dm_create_conversation m)) = Some pc \<longrightarrow>
                   (\<exists>p. store_path s pc (cc_parent_entry_id (the (dm_create_conversation m))) = Inr p)))"
  using assms
  by (auto simp: commit_plan_of_def plan_creation_def conversation_def
      split: option.splits if_splits prod.splits)

lemma plan_at_Write:
  assumes "plan_at s m head revision = Inr (Write head' revision')"
  shows "head' = head" and "revision' = revision" and "revision = dm_expected_revision m"
    and "\<not> dm_delete_conversation m" and "existing_submission s (dm_submission m) = Inr None"
    and "\<forall>d. dm_submission m = Some d \<longrightarrow> sd_submission_id d \<notin> st_submission_ids s"
    and "validate_commit_mutation s m head = Inr ()" and "\<not> is_noop m"
  using assms by (auto simp: plan_at_def split: if_splits option.splits)

lemma plan_at_Delete:
  assumes "plan_at s m head revision = Inr (Delete revision')"
  shows "revision' = revision" and "revision = dm_expected_revision m" and "dm_delete_conversation m"
  using assms by (auto simp: plan_at_def split: if_splits option.splits)

lemma validate_commit_mutationD:
  assumes "validate_commit_mutation s m head = Inr ()"
  shows "validate_branch s m = Inr ()"
    and "\<exists>parent. commit_parent s m head = Inr parent \<and> validate_entry_chain s (dm_entries m) parent = Inr ()"
    and "dm_task m = Some t \<Longrightarrow> validate_task s (dm_submission m) (dm_expected_attempt_token m) t = Inr ()"
    and "t' \<in> set (dm_task_updates m) \<Longrightarrow> validate_task s None None t' = Inr ()"
    and "u \<in> set (all_updates m) \<Longrightarrow> validate_submission_update s (dm_entries m) u = Inr ()"
    and "validate_effects s m = Inr ()" and "validate_artifacts s m = Inr ()"
  using assms by (auto simp: validate_commit_mutation_def opt_list_def)

end
