(* ===== verification/Store_Invariant.thy ===== *)
theory Store_Invariant
  imports Commit_Form
begin

text \<open>
  The invariant of the memory store, in one part per group of attributes, and that every
  method which writes preserves it, whether it returns or raises.
\<close>

section \<open>Fields after a commit\<close>

lemma record_task_fields [simp]:
  "st_database_id (record_task p t s) = st_database_id s"
  "st_entries (record_task p t s) = st_entries s" "st_heads (record_task p t s) = st_heads s"
  "st_parents (record_task p t s) = st_parents s" "st_submissions (record_task p t s) = st_submissions s"
  "st_submission_ids (record_task p t s) = st_submission_ids s"
  "st_tasks (record_task p t s) = dset (tc_task_id t) t (st_tasks s)"
  "st_finalization (record_task p t s) = record_finalization t (st_finalization s)"
  "st_waiters (record_task p t s) = replace_waiters t (st_waiters s)"
  "st_owners (record_task p t s) = replace_owner t (st_owners s)"
  "st_effects (record_task p t s) = st_effects s" "st_artifacts (record_task p t s) = st_artifacts s"
  "st_commits (record_task p t s) = st_commits s"
  "st_scheduler_owner (record_task p t s) = st_scheduler_owner s"
  by (simp_all add: record_task_def put_task_def append_history_def)

lemma fold_record_fields:
  "st_database_id (fold (\<lambda>t. record_task (p t) t) ts s) = st_database_id s"
  "st_entries (fold (\<lambda>t. record_task (p t) t) ts s) = st_entries s"
  "st_heads (fold (\<lambda>t. record_task (p t) t) ts s) = st_heads s"
  "st_parents (fold (\<lambda>t. record_task (p t) t) ts s) = st_parents s"
  "st_submissions (fold (\<lambda>t. record_task (p t) t) ts s) = st_submissions s"
  "st_submission_ids (fold (\<lambda>t. record_task (p t) t) ts s) = st_submission_ids s"
  "st_tasks (fold (\<lambda>t. record_task (p t) t) ts s) = dupdate (map (\<lambda>t. (tc_task_id t, t)) ts) (st_tasks s)"
  "st_finalization (fold (\<lambda>t. record_task (p t) t) ts s) = fold record_finalization ts (st_finalization s)"
  "st_waiters (fold (\<lambda>t. record_task (p t) t) ts s) = fold replace_waiters ts (st_waiters s)"
  "st_owners (fold (\<lambda>t. record_task (p t) t) ts s) = fold replace_owner ts (st_owners s)"
  "st_effects (fold (\<lambda>t. record_task (p t) t) ts s) = st_effects s"
  "st_artifacts (fold (\<lambda>t. record_task (p t) t) ts s) = st_artifacts s"
  "st_commits (fold (\<lambda>t. record_task (p t) t) ts s) = st_commits s"
  "st_scheduler_owner (fold (\<lambda>t. record_task (p t) t) ts s) = st_scheduler_owner s"
  by (induction ts arbitrary: s) simp_all

definition committed_submissions :: "string \<Rightarrow> durable_mutation \<Rightarrow> int \<Rightarrow> store \<Rightarrow> (string \<times> string, submission_item) dict" where
  "committed_submissions now m revision s =
     st_submissions (put_submission m (new_revision m revision) (commit_row now m s) s)"

lemma put_submission_frame:
  "st_database_id (put_submission m n r s) = st_database_id s"
  "st_entries (put_submission m n r s) = st_entries s"
  "st_heads (put_submission m n r s) = st_heads s"
  "st_parents (put_submission m n r s) = st_parents s"
  "st_tasks (put_submission m n r s) = st_tasks s"
  "st_finalization (put_submission m n r s) = st_finalization s"
  "st_waiters (put_submission m n r s) = st_waiters s"
  "st_owners (put_submission m n r s) = st_owners s"
  "st_effects (put_submission m n r s) = st_effects s"
  "st_artifacts (put_submission m n r s) = st_artifacts s"
  "st_sequence (put_submission m n r s) = st_sequence s"
  "st_commits (put_submission m n r s) = st_commits s"
  "st_history (put_submission m n r s) = st_history s"
  "st_scheduler_owner (put_submission m n r s) = st_scheduler_owner s"
  by (auto simp: put_submission_def write_submission_def split: option.splits sum.splits)

lemma put_submission_local:
  "st_submissions s = st_submissions s' \<Longrightarrow>
     st_submissions (put_submission m n r s) = st_submissions (put_submission m n r s')"
  "st_submission_ids s = st_submission_ids s' \<Longrightarrow>
     st_submission_ids (put_submission m n r s) = st_submission_ids (put_submission m n r s')"
  by (auto simp: put_submission_def write_submission_def split: option.splits sum.splits)

lemmas commit_core_defs =
  commit_core_def commit_tasks_def commit_base_def put_effects_def put_artifacts_def

lemma commit_core_fields:
  "st_database_id (commit_core now m head revision s) = st_database_id s"
  "st_entries (commit_core now m head revision s) = commit_entries m s"
  "st_heads (commit_core now m head revision s)
     = dset (dm_conversation_id m) (new_head m head, new_revision m revision) (st_heads s)"
  "st_parents (commit_core now m head revision s) = (case dm_create_conversation m of
      None \<Rightarrow> st_parents s
    | Some creation \<Rightarrow> dset (dm_conversation_id m)
        (cc_parent_conversation_id creation, cc_parent_entry_id creation) (st_parents s))"
  "st_tasks (commit_core now m head revision s)
     = dupdate (map (\<lambda>t. (tc_task_id t, t)) (all_tasks m)) (st_tasks s)"
  "st_finalization (commit_core now m head revision s) = fold record_finalization (all_tasks m) (st_finalization s)"
  "st_waiters (commit_core now m head revision s) = fold replace_waiters (all_tasks m) (st_waiters s)"
  "st_owners (commit_core now m head revision s) = fold replace_owner (all_tasks m) (st_owners s)"
  "st_effects (commit_core now m head revision s) = apply_effects (all_effects m) (st_effects s)"
  "st_artifacts (commit_core now m head revision s)
     = dupdate (map (\<lambda>a. (ar_handle a, a)) (dm_artifacts m)) (st_artifacts s)"
  "st_sequence (commit_core now m head revision s) = st_sequence s + 1"
  "st_commits (commit_core now m head revision s) = st_commits s @ [commit_row now m s]"
  "st_scheduler_owner (commit_core now m head revision s) = st_scheduler_owner s"
  by (simp_all add: commit_core_defs put_submission_frame fold_record_fields)

lemma commit_core_submissions:
  "st_submissions (commit_core now m head revision s) = committed_submissions now m revision s"
  "st_submission_ids (commit_core now m head revision s)
     = st_submission_ids (put_submission m (new_revision m revision) (commit_row now m s) s)"
  unfolding commit_core_defs committed_submissions_def
  by (rule put_submission_local; simp add: fold_record_fields)+

text \<open>Submission updates touch the submission rows only.\<close>

definition same_but_submissions :: "store \<Rightarrow> store \<Rightarrow> bool" where
  "same_but_submissions s s' = (s' = s\<lparr>st_submissions := st_submissions s'\<rparr>)"

lemma update_submission_frame: "same_but_submissions s (snd (update_submission es u s))"
  by (auto simp: same_but_submissions_def update_submission_def split: sum.splits prod.splits)

lemma same_but_submissions_trans:
  "same_but_submissions a b \<Longrightarrow> same_but_submissions b c \<Longrightarrow> same_but_submissions a c"
  by (cases a; cases b; cases c) (auto simp: same_but_submissions_def)

lemma same_but_submissions_refl [simp]: "same_but_submissions s s"
  by (simp add: same_but_submissions_def)

lemma updates_frame: "same_but_submissions s (snd (each_s (update_submission es) us s))"
proof (induction us arbitrary: s)
  case (Cons u us)
  obtain r s1 where step: "update_submission es u s = (r, s1)" by fastforce
  with update_submission_frame [of s es u] have s1: "same_but_submissions s s1" by simp
  show ?case
  proof (cases r)
    case (Inr x)
    with Cons.IH [of s1] s1 step show ?thesis
      by (auto simp: bind_s_def intro: same_but_submissions_trans)
  qed (use step s1 in \<open>simp add: bind_s_def\<close>)
qed simp

text \<open>The state after a write, returned or raised, is the core state up to submission rows.\<close>

lemma write_commit_state:
  assumes "mutation_ok m"
    and "dm_create_conversation m = None \<Longrightarrow> has_key (dm_conversation_id m) (st_entries s)"
  shows "snd (write_commit now m head revision s)
    = snd (each_s (update_submission (dm_entries m)) (all_updates m) (commit_core now m head revision s))"
  by (subst write_commit_form [OF assms]) (auto simp: bind_s_def split: prod.splits sum.splits)


section \<open>Conversations and entries\<close>

text \<open>Every entry of a conversation is its root or names an earlier entry as its parent.\<close>

fun closed_rows :: "string set \<Rightarrow> entry_draft list \<Rightarrow> bool" where
  "closed_rows known [] = True"
| "closed_rows known (e # es) =
     ((case ed_parent_id e of None \<Rightarrow> True | Some p \<Rightarrow> p \<in> known) \<and> closed_rows (insert (ed_entry_id e) known) es)"

lemma closed_rows_append:
  "closed_rows known (xs @ ys) \<longleftrightarrow> closed_rows known xs \<and> closed_rows (known \<union> ed_entry_id ` set xs) ys"
  by (induction xs arbitrary: known) (auto simp: insert_commute)

lemma linked_closed:
  "linked_from p es \<Longrightarrow> (case p of None \<Rightarrow> True | Some x \<Rightarrow> x \<in> known) \<Longrightarrow> closed_rows known es"
  by (induction es arbitrary: p known) auto

lemma validate_entry_chain_loopD:
  "validate_entry_chain_loop ids p es = Inr () \<Longrightarrow>
     linked_from p es \<and> distinct (map ed_entry_id es) \<and> ids \<inter> ed_entry_id ` set es = {}"
  by (induction es arbitrary: ids p) (auto split: if_splits)

definition wf_keys :: "store \<Rightarrow> bool" where
  "wf_keys s =
     (distinct (dkeys (st_heads s)) \<and> distinct (dkeys (st_entries s)) \<and> distinct (dkeys (st_parents s))
      \<and> set (dkeys (st_entries s)) = set (dkeys (st_heads s)) \<and> set (dkeys (st_parents s)) = set (dkeys (st_heads s)))"

definition wf_rows :: "store \<Rightarrow> bool" where
  "wf_rows s =
     (\<forall>cid rows. map_of (st_entries s) cid = Some rows \<longrightarrow>
        (\<forall>e\<in>set rows. ed_conversation_id e = cid) \<and> closed_rows {} rows \<and> distinct (map ed_entry_id rows))"

definition wf_disjoint :: "store \<Rightarrow> bool" where
  "wf_disjoint s =
     (\<forall>c rows c' rows'. map_of (st_entries s) c = Some rows \<longrightarrow> map_of (st_entries s) c' = Some rows' \<longrightarrow>
        c \<noteq> c' \<longrightarrow> ed_entry_id ` set rows \<inter> ed_entry_id ` set rows' = {})"

definition wf_heads :: "store \<Rightarrow> bool" where
  "wf_heads s =
     (\<forall>cid h n. map_of (st_heads s) cid = Some (h, n) \<longrightarrow> 0 \<le> n
        \<and> (\<forall>x. h = Some x \<longrightarrow> x \<in> ed_entry_id ` set (the (map_of (st_entries s) cid))))"

definition wf_conversations :: "store \<Rightarrow> bool" where
  "wf_conversations s = (wf_keys s \<and> wf_rows s \<and> wf_disjoint s \<and> wf_heads s)"

lemma wf_keysD:
  assumes "wf_keys s"
  shows "distinct (dkeys (st_heads s))" and "distinct (dkeys (st_entries s))" and "distinct (dkeys (st_parents s))"
    and "has_key c (st_entries s) \<longleftrightarrow> has_key c (st_heads s)"
    and "has_key c (st_parents s) \<longleftrightarrow> has_key c (st_heads s)"
  using assms by (simp_all add: wf_keys_def has_key_iff)

lemma wf_rowsD:
  assumes "wf_rows s" and "map_of (st_entries s) c = Some rows"
  shows "\<forall>e\<in>set rows. ed_conversation_id e = c" and "closed_rows {} rows"
    and "distinct (map ed_entry_id rows)"
  using assms by (auto simp: wf_rows_def)

lemma wf_headsD:
  assumes "wf_heads s" and "map_of (st_heads s) c = Some (h, n)"
  shows "0 \<le> n" and "h = Some x \<Longrightarrow> x \<in> ed_entry_id ` set (the (map_of (st_entries s) c))"
  using assms unfolding wf_heads_def by blast+

lemma stored_entry_ids_iff:
  assumes "distinct (dkeys (st_entries s))"
  shows "x \<in> stored_entry_ids s \<longleftrightarrow> (\<exists>c rows. map_of (st_entries s) c = Some rows \<and> x \<in> ed_entry_id ` set rows)"
proof -
  have "x \<in> stored_entry_ids s \<longleftrightarrow> (\<exists>rows\<in>set (dvalues (st_entries s)). x \<in> ed_entry_id ` set rows)"
    by (auto simp: stored_entry_ids_def)
  then show ?thesis by (auto simp only: dvalues_mem [OF assms] Bex_def)
qed

lemma dvalues_local_entries: "set (dvalues (local_entries es)) \<subseteq> set es"
proof -
  have "distinct (dkeys (local_entries es))"
    unfolding local_entries_def by (rule distinct_dkeys_dupdate) (simp add: dkeys_def)
  from dvalues_mem [OF this] map_of_local_entries_mem show ?thesis by blast
qed

text \<open>A resolved path only shows stored entries.\<close>

lemma extend_path_stored:
  assumes "extend_path entries step path = Inr p"
  shows "set p \<subseteq> set path \<union> {e. \<exists>c rows. entries c = Inr rows \<and> e \<in> set rows}"
proof (cases "snd step")
  case None
  with assms show ?thesis by (simp add: extend_path_def)
next
  case (Some leaf)
  with assms obtain rows where rows: "entries (fst step) = Inr rows" by (auto simp: extend_path_def)
  have tail: "set tail \<subseteq> set rows" if "local_path (local_entries rows) leaf = Inr tail" for tail
    using local_path_correct [OF keyed_local_entries that] dvalues_local_entries by blast
  show ?thesis
    using assms rows tail Some
    by (fastforce simp: extend_path_def Let_def dest: in_set_takeD split: option.splits if_splits)
qed

lemma extend_paths_stored:
  "extend_paths entries steps path = Inr p \<Longrightarrow>
     set p \<subseteq> set path \<union> {e. \<exists>c rows. entries c = Inr rows \<and> e \<in> set rows}"
proof (induction steps arbitrary: path)
  case (Cons st steps)
  then obtain q where "extend_path entries st path = Inr q" "extend_paths entries steps q = Inr p" by auto
  with Cons.IH extend_path_stored show ?case by blast
qed simp

lemma store_path_stored:
  assumes "wf_conversations s" and "store_path s cid leaf = Inr p" and "e \<in> set p"
  shows "\<exists>rows. map_of (st_entries s) (ed_conversation_id e) = Some rows \<and> e \<in> set rows"
proof -
  from assms(2) obtain a where "extend_paths (store_entries s) a [] = Inr p"
    by (auto simp: store_path_def context_path_def)
  from extend_paths_stored [OF this] assms(3) obtain c rows where
    "store_entries s c = Inr rows" and e: "e \<in> set rows" by auto
  then have "map_of (st_entries s) c = Some rows"
    by (auto simp: store_entries_def lookup_key_def split: option.splits)
  moreover from this assms(1) e have "ed_conversation_id e = c"
    by (auto simp: wf_conversations_def dest: wf_rowsD)
  ultimately show ?thesis using e by blast
qed

lemma commit_parent_local:
  assumes "wf_conversations s" and "commit_parent s m head = Inr (Some p)"
    and "\<And>x. head = Some x \<Longrightarrow> x \<in> ed_entry_id ` set (the (map_of (st_entries s) (dm_conversation_id m)))"
  shows "p \<in> ed_entry_id ` set (the (map_of (st_entries s) (dm_conversation_id m)))"
proof (cases "dm_edited_entry_id m")
  case None
  with assms(2) have "head = Some p" by (auto simp: commit_parent_def)
  with assms(3) show ?thesis .
next
  case (Some edited)
  with assms(2) obtain path where path: "store_path s (dm_conversation_id m) head = Inr path"
    "validate_edit m path (conversation_busy s (dm_conversation_id m)) = Inr (Some p)"
    by (auto simp: commit_parent_def)
  then obtain e where "e \<in> set path" "ed_entry_id e = p" "ed_conversation_id e = dm_conversation_id m"
    by (auto simp: validate_edit_def split: if_splits option.splits)
  with store_path_stored [OF assms(1) path(1)] show ?thesis by force
qed


subsection \<open>A planned write\<close>

lemma planned_write:
  assumes "commit_plan_of s m = Inr (Write head revision)"
  shows "dm_create_conversation m = None \<Longrightarrow> map_of (st_heads s) (dm_conversation_id m) = Some (head, revision)"
    and "dm_create_conversation m \<noteq> None \<Longrightarrow> \<not> has_key (dm_conversation_id m) (st_heads s) \<and> head = None \<and> revision = 0"
    and "validate_commit_mutation s m head = Inr ()" and "revision = dm_expected_revision m"
    and "existing_submission s (dm_submission m) = Inr None"
    and "\<forall>d. dm_submission m = Some d \<longrightarrow> sd_submission_id d \<notin> st_submission_ids s"
    and "\<not> is_noop m" and "\<not> dm_delete_conversation m"
proof -
  obtain h n where plan: "plan_at s m h n = Inr (Write head revision)"
    and none: "dm_create_conversation m = None \<longrightarrow> map_of (st_heads s) (dm_conversation_id m) = Some (h, n)"
    and some: "dm_create_conversation m \<noteq> None \<longrightarrow> \<not> has_key (dm_conversation_id m) (st_heads s) \<and> h = None \<and> n = 0"
    using commit_plan_ofD [OF assms] by (auto split: if_splits)
  note facts = plan_at_Write [OF plan]
  show "dm_create_conversation m = None \<Longrightarrow> map_of (st_heads s) (dm_conversation_id m) = Some (head, revision)"
    and "dm_create_conversation m \<noteq> None \<Longrightarrow> \<not> has_key (dm_conversation_id m) (st_heads s) \<and> head = None \<and> revision = 0"
    and "validate_commit_mutation s m head = Inr ()" and "revision = dm_expected_revision m"
    and "existing_submission s (dm_submission m) = Inr None"
    and "\<forall>d. dm_submission m = Some d \<longrightarrow> sd_submission_id d \<notin> st_submission_ids s"
    and "\<not> is_noop m" and "\<not> dm_delete_conversation m"
    using facts none some by simp_all
qed

lemma planned_delete:
  assumes "commit_plan_of s m = Inr (Delete revision)" and "mutation_ok m"
  shows "\<exists>head. map_of (st_heads s) (dm_conversation_id m) = Some (head, revision)"
    and "revision = dm_expected_revision m" and "dm_delete_conversation m"
proof -
  have "dm_delete_conversation m" "revision = dm_expected_revision m"
    using commit_plan_ofD [OF assms(1)] plan_at_Delete by (auto split: if_splits)
  moreover with mutation_okD(9) [OF assms(2)] have "dm_create_conversation m = None" by blast
  ultimately show "\<exists>head. map_of (st_heads s) (dm_conversation_id m) = Some (head, revision)"
    and "revision = dm_expected_revision m" and "dm_delete_conversation m"
    using commit_plan_ofD [OF assms(1)] plan_at_Delete by fastforce+
qed

definition base_rows :: "durable_mutation \<Rightarrow> store \<Rightarrow> entry_draft list" where
  "base_rows m s = (case dm_create_conversation m of
     None \<Rightarrow> the (map_of (st_entries s) (dm_conversation_id m)) | Some _ \<Rightarrow> [])"

lemma commit_entries_rows:
  "commit_entries m s = dset (dm_conversation_id m)
     (base_rows m s @ map (stamped_entry m (st_sequence s + 1)) (dm_entries m)) (st_entries s)"
  by (simp add: commit_entries_def base_rows_def)

lemma stamped_fields [simp]:
  "ed_entry_id (stamped_entry m n e) = ed_entry_id e"
  "ed_conversation_id (stamped_entry m n e) = ed_conversation_id e"
  "ed_parent_id (stamped_entry m n e) = ed_parent_id e" "ed_kind (stamped_entry m n e) = ed_kind e"
  "ed_payload (stamped_entry m n e) = ed_payload e" "ed_commit_seq (stamped_entry m n e) = n"
  by (simp_all add: stamped_entry_def)

lemma linked_stamped [simp]: "linked_from p (map (stamped_entry m n) es) = linked_from p es"
  by (induction es arbitrary: p) auto

lemma write_key_facts:
  assumes "wf_conversations s" and "mutation_ok m" and "commit_plan_of s m = Inr (Write head revision)"
  shows "dm_create_conversation m = None \<Longrightarrow>
      map_of (st_entries s) (dm_conversation_id m) = Some (base_rows m s)"
    and "dm_create_conversation m \<noteq> None \<Longrightarrow> map_of (st_entries s) (dm_conversation_id m) = None \<and> base_rows m s = []"
    and "head = Some x \<Longrightarrow> x \<in> ed_entry_id ` set (base_rows m s)" and "0 \<le> revision"
proof -
  have keys: "has_key c (st_entries s) \<longleftrightarrow> has_key c (st_heads s)" for c
    using assms(1) by (simp add: wf_conversations_def wf_keysD(4))
  show old: "map_of (st_entries s) (dm_conversation_id m) = Some (base_rows m s)" if "dm_create_conversation m = None"
    using planned_write(1) [OF assms(3) that] that keys [of "dm_conversation_id m"]
    by (auto simp: has_key_def base_rows_def)
  show fresh: "map_of (st_entries s) (dm_conversation_id m) = None \<and> base_rows m s = []" if "dm_create_conversation m \<noteq> None"
    using planned_write(2) [OF assms(3) that] that keys [of "dm_conversation_id m"]
    by (auto simp: has_key_def base_rows_def)
  have heads: "wf_heads s" using assms(1) by (simp add: wf_conversations_def)
  show "x \<in> ed_entry_id ` set (base_rows m s)" if x: "head = Some x"
  proof (cases "dm_create_conversation m")
    case None
    with wf_headsD(2) [OF heads planned_write(1) [OF assms(3) None] x] old show ?thesis by simp
  qed (use planned_write(2) [OF assms(3)] x in auto)
  show "0 \<le> revision"
    using planned_write(4) [OF assms(3)] mutation_okD(2) [OF assms(2)] by simp
qed

lemma write_new_rows:
  assumes "wf_conversations s" and "mutation_ok m" and "commit_plan_of s m = Inr (Write head revision)"
  shows "closed_rows (ed_entry_id ` set (base_rows m s)) (map (stamped_entry m n) (dm_entries m))"
    and "distinct (map ed_entry_id (dm_entries m))"
    and "map_of (st_entries s) c = Some rows \<Longrightarrow> ed_entry_id ` set rows \<inter> ed_entry_id ` set (dm_entries m) = {}"
proof -
  from validate_commit_mutationD(2) [OF planned_write(3) [OF assms(3)]] obtain parent where
    parent: "commit_parent s m head = Inr parent"
    and chain: "validate_entry_chain s (dm_entries m) parent = Inr ()" by blast
  note chainD = validate_entry_chain_loopD [OF chain [unfolded validate_entry_chain_def]]
  have "p \<in> ed_entry_id ` set (base_rows m s)" if p: "parent = Some p" for p
  proof (cases "dm_create_conversation m")
    case None
    from commit_parent_local [OF assms(1) parent [unfolded p]] write_key_facts(1,3) [OF assms] None
    show ?thesis by simp
  next
    case (Some c)
    with mutation_okD(12) [OF assms(2)] have "dm_edited_entry_id m = None" by (cases "dm_edited_entry_id m") auto
    with parent p have "head = Some p" by (auto simp: commit_parent_def)
    with write_key_facts(3) [OF assms] show ?thesis by blast
  qed
  with chainD show "closed_rows (ed_entry_id ` set (base_rows m s)) (map (stamped_entry m n) (dm_entries m))"
    by (intro linked_closed [of parent]) (auto split: option.splits)
  show "distinct (map ed_entry_id (dm_entries m))" using chainD by blast
  show "ed_entry_id ` set rows \<inter> ed_entry_id ` set (dm_entries m) = {}" if "map_of (st_entries s) c = Some rows"
  proof -
    have "distinct (dkeys (st_entries s))" using assms(1) by (simp add: wf_conversations_def wf_keysD(2))
    with stored_entry_ids_iff [OF this] that have "ed_entry_id ` set rows \<subseteq> stored_entry_ids s" by blast
    with chainD show ?thesis by blast
  qed
qed

lemma pairwise_update:
  assumes "\<And>c r c' r'. f c = Some r \<Longrightarrow> f c' = Some r' \<Longrightarrow> c \<noteq> c' \<Longrightarrow> A r \<inter> A r' = {}"
    and "\<And>c r. c \<noteq> k \<Longrightarrow> f c = Some r \<Longrightarrow> A r \<inter> A v = {}"
  shows "\<forall>c r c' r'. (f(k \<mapsto> v)) c = Some r \<longrightarrow> (f(k \<mapsto> v)) c' = Some r' \<longrightarrow> c \<noteq> c' \<longrightarrow> A r \<inter> A r' = {}"
proof (intro allI impI)
  fix c r c' r'
  assume "(f(k \<mapsto> v)) c = Some r" "(f(k \<mapsto> v)) c' = Some r'" "c \<noteq> c'"
  with assms(1) [of c r c' r'] assms(2) [of c r] assms(2) [of c' r'] show "A r \<inter> A r' = {}"
    by (auto split: if_splits)
qed

lemma wf_conversations_commit:
  assumes "wf_conversations s" and "mutation_ok m" and "commit_plan_of s m = Inr (Write head revision)"
  shows "wf_conversations (commit_core now m head revision s)"
proof -
  let ?cid = "dm_conversation_id m"
  let ?new = "map (stamped_entry m (st_sequence s + 1)) (dm_entries m)"
  let ?rows = "base_rows m s @ ?new"
  have wf: "wf_keys s" "wf_rows s" "wf_disjoint s" "wf_heads s"
    using assms(1) by (simp_all add: wf_conversations_def)
  note facts = write_key_facts [OF assms] write_new_rows [OF assms]
  have base: "(\<forall>e\<in>set (base_rows m s). ed_conversation_id e = ?cid) \<and> closed_rows {} (base_rows m s)
      \<and> distinct (map ed_entry_id (base_rows m s))
      \<and> ed_entry_id ` set (base_rows m s) \<inter> ed_entry_id ` set (dm_entries m) = {}"
    by (cases "dm_create_conversation m") (use facts wf_rowsD [OF wf(2)] in auto)
  have parents: "dm_create_conversation m = None \<Longrightarrow> has_key ?cid (st_heads s)"
    using planned_write(1) [OF assms(3)] by (auto simp: has_key_def)
  have keys: "wf_keys (commit_core now m head revision s)"
    using wf(1) parents
    by (auto simp: wf_keys_def commit_core_fields commit_entries_rows has_key_iff split: option.splits)
  have new_ids: "ed_entry_id ` set ?new = ed_entry_id ` set (dm_entries m)" by (auto simp: image_image)
  have rows: "wf_rows (commit_core now m head revision s)"
    using wf(2) base facts(5,6) mutation_okD(5) [OF assms(2)] new_ids
    by (auto simp: wf_rows_def commit_core_fields commit_entries_rows closed_rows_append comp_def split: if_splits)
  have other: "ed_entry_id ` set r \<inter> ed_entry_id ` set ?rows = {}"
    if "c \<noteq> ?cid" "map_of (st_entries s) c = Some r" for c r
  proof -
    have "ed_entry_id ` set r \<inter> ed_entry_id ` set (base_rows m s) = {}"
      using facts(1,2) wf(3) that by (cases "dm_create_conversation m") (auto simp: wf_disjoint_def)
    with facts(7) [OF that(2)] new_ids show ?thesis by auto
  qed
  have disj: "wf_disjoint (commit_core now m head revision s)"
    unfolding wf_disjoint_def commit_core_fields commit_entries_rows map_of_dset
    by (rule pairwise_update) (use wf(3) other in \<open>auto simp: wf_disjoint_def\<close>)
  have "x \<in> ed_entry_id ` set ?rows" if "new_head m head = Some x" for x
  proof (cases "dm_branch_entry_id m")
    case None
    with that facts(3) new_ids show ?thesis
      by (auto simp: new_head_def falsy_def image_Un split: if_splits)
  next
    case (Some b)
    with mutation_okD(10,11) [OF assms(2)] that have b: "b = x" "dm_create_conversation m = None"
      by (auto simp: new_head_def falsy_def)
    with validate_commit_mutationD(1) [OF planned_write(3) [OF assms(3)]] Some facts(1) [OF b(2)]
    show ?thesis by (auto simp: validate_branch_def lookup_key_def)
  qed
  moreover have "0 \<le> new_revision m revision" using facts(4) by (simp add: new_revision_def)
  ultimately have "wf_heads (commit_core now m head revision s)"
    unfolding wf_heads_def commit_core_fields commit_entries_rows map_of_dset
    using wf_headsD [OF wf(4)] by (auto split: if_splits)
  with keys rows disj show ?thesis by (simp add: wf_conversations_def)
qed


section \<open>Submissions\<close>

definition row_id :: "store \<Rightarrow> string \<times> string \<Rightarrow> string option" where
  "row_id s k = map_option (\<lambda>i. sr_submission_id (si_record i)) (map_of (st_submissions s) k)"

definition row_conversation :: "store \<Rightarrow> string \<times> string \<Rightarrow> string option" where
  "row_conversation s k = map_option (\<lambda>i. sr_conversation_id (si_record i)) (map_of (st_submissions s) k)"

definition submission_refs :: "store \<Rightarrow> (string \<times> string) set" where
  "submission_refs s = {(x, c). \<exists>k. row_id s k = Some x \<and> row_conversation s k = Some c}"

definition item_key :: "submission_item \<Rightarrow> string \<times> string" where
  "item_key i = (sr_conversation_id (si_record i), sr_request_id (si_record i))"

definition wf_submissions :: "store \<Rightarrow> bool" where
  "wf_submissions s =
     (distinct (dkeys (st_submissions s)) \<and> keyed_by item_key (st_submissions s)
      \<and> (\<forall>k k' x. row_id s k = Some x \<longrightarrow> row_id s k' = Some x \<longrightarrow> k = k')
      \<and> st_submission_ids s = fst ` submission_refs s
      \<and> (\<forall>k x. row_conversation s k = Some x \<longrightarrow> has_key x (st_heads s)))"

lemma wf_submissionsD:
  assumes "wf_submissions s"
  shows "distinct (dkeys (st_submissions s))" and "keyed_by item_key (st_submissions s)"
    and "\<forall>k k' x. row_id s k = Some x \<longrightarrow> row_id s k' = Some x \<longrightarrow> k = k'"
    and "st_submission_ids s = fst ` submission_refs s"
    and "\<forall>k x. row_conversation s k = Some x \<longrightarrow> has_key x (st_heads s)"
  using assms unfolding wf_submissions_def by - (elim conjE, assumption)+

text \<open>The constructor of a submission record keeps everything but the two mappings.\<close>

lemma submission_record_init_shape:
  assumes "submission_record_init r = Inr r'"
  shows "\<exists>detail content. r' = r\<lparr>sr_detail := detail, sr_content := content\<rparr>"
  using assms unfolding submission_record_init_def if_Inl_Inr bind_r_eq_Inr by (elim conjE exE) blast

lemma submission_record_init_fields:
  assumes "submission_record_init r = Inr r'"
  shows "sr_submission_id r' = sr_submission_id r" "sr_conversation_id r' = sr_conversation_id r"
    "sr_request_id r' = sr_request_id r" "sr_status r' = sr_status r"
    "sr_input_entry_id r' = sr_input_entry_id r" "sr_answer_entry_id r' = sr_answer_entry_id r"
    "sr_placement r' = sr_placement r" "sr_mode r' = sr_mode r" "sr_reason r' = sr_reason r"
  using submission_record_init_shape [OF assms] by auto

lemma update_submission_cases:
  assumes "wf_submissions s" and "update_submission es u s = (res, s')"
  obtains (raised) e where "res = Inl e" "s' = s"
  | (updated) k i i' where "res = Inr ()" "s' = s\<lparr>st_submissions := dset k i' (st_submissions s)\<rparr>"
      "map_of (st_submissions s) k = Some i" "sr_submission_id (si_record i) = su_submission_id u"
      "submission_record_init (updated_record u (si_record i)) = Inr (si_record i')"
      "si_result i' = si_result i" "si_fingerprint i' = si_fingerprint i"
proof (cases "List.find (\<lambda>(key, item). sr_submission_id (si_record item) = su_submission_id u) (st_submissions s)")
  case None
  with assms(2) have "res = Inl (CommitConflict ''submission disappeared during commit'')" "s' = s"
    by (auto simp: update_submission_def)
  then show ?thesis by (rule raised)
next
  case (Some p)
  then obtain k i where p: "p = (k, i)" "(k, i) \<in> set (st_submissions s)"
    "sr_submission_id (si_record i) = su_submission_id u"
    by (cases p) (auto dest: find_Some_mem)
  have look: "map_of (st_submissions s) k = Some i"
    using p(2) dict_mem_iff [OF wf_submissionsD(1) [OF assms(1)]] by blast
  show ?thesis
  proof (cases "submission_record_init (updated_record u (si_record i))")
    case (Inl e)
    with Some p(1) assms(2) have "res = Inl e" "s' = s" by (auto simp: update_submission_def)
    then show ?thesis by (rule raised)
  next
    case (Inr rec)
    let ?i' = "i\<lparr>si_record := rec, si_entry := (case su_input_entry_id u of
                   None \<Rightarrow> si_entry i
                 | Some eid \<Rightarrow> (case List.find (\<lambda>e. ed_entry_id e = eid) es of
                       None \<Rightarrow> si_entry i | Some e \<Rightarrow> Some e))\<rparr>"
    from Some p(1) assms(2) Inr have "res = Inr ()" "s' = s\<lparr>st_submissions := dset k ?i' (st_submissions s)\<rparr>"
      by (auto simp: update_submission_def)
    with updated [of k ?i' i] look p(3) Inr show ?thesis by simp
  qed
qed

lemma updated_item_fields:
  assumes "submission_record_init (updated_record u (si_record i)) = Inr (si_record i')"
  shows "item_key i' = item_key i" "sr_submission_id (si_record i') = sr_submission_id (si_record i)"
    "sr_conversation_id (si_record i') = sr_conversation_id (si_record i)"
  using submission_record_init_fields [OF assms] by (simp_all add: item_key_def updated_record_def)

lemma update_submission_wf:
  assumes "wf_submissions s" and "update_submission es u s = (res, s')"
  shows "wf_submissions s' \<and> submission_refs s' = submission_refs s"
  using assms
proof (cases rule: update_submission_cases)
  case (updated k i i')
  note same = updated_item_fields [OF updated(5)]
  have keyed: "keyed_by item_key (st_submissions s')" and dist: "distinct (dkeys (st_submissions s'))"
    using wf_submissionsD(1,2) [OF assms(1)] updated(2,3) same by (auto simp: keyed_by_def)
  have ids: "row_id s' = row_id s" "row_conversation s' = row_conversation s"
    using updated(2,3) same by (auto simp: row_id_def row_conversation_def)
  then have refs: "submission_refs s' = submission_refs s" by (simp add: submission_refs_def)
  have rest: "st_submission_ids s' = st_submission_ids s" "st_heads s' = st_heads s"
    using updated(2) by simp_all
  show ?thesis
    unfolding wf_submissions_def ids refs rest
    using wf_submissionsD(3-5) [OF assms(1)] keyed dist by blast
qed (use assms in auto)

lemma updates_wf:
  "wf_submissions s \<Longrightarrow> wf_submissions (snd (each_s (update_submission es) us s))
     \<and> submission_refs (snd (each_s (update_submission es) us s)) = submission_refs s"
proof (induction us arbitrary: s)
  case (Cons u us)
  obtain r s1 where step: "update_submission es u s = (r, s1)" by fastforce
  from update_submission_wf [OF Cons.prems step] Cons.IH [of s1] step show ?case
    by (cases r) (auto simp: bind_s_def)
qed simp


lemma put_submission_cases:
  assumes "mutation_ok m"
  obtains (none) "dm_submission m = None" "put_submission m n r s = s"
  | (some) d i where "dm_submission m = Some d"
      "put_submission m n r s = s\<lparr>st_submissions := dset (dm_conversation_id m, sd_request_id d) i (st_submissions s),
         st_submission_ids := insert (sd_submission_id d) (st_submission_ids s)\<rparr>"
      "sr_submission_id (si_record i) = sd_submission_id d" "sr_conversation_id (si_record i) = dm_conversation_id m"
      "sr_request_id (si_record i) = sd_request_id d" "sr_status (si_record i) = sd_status d"
      "sr_placement (si_record i) = sd_placement d" "sr_mode (si_record i) = sd_mode d"
      "sr_content (si_record i) = sd_content d" "si_entry i = sd_entry d" "si_fingerprint i = sd_fingerprint d"
      "si_result i = \<lparr>cres_revision = n, cres_sequence = cr_sequence r,
                      cres_submission_id = Some (sd_submission_id d), cres_record = Some r\<rparr>"
proof (cases "dm_submission m")
  case None
  then show ?thesis by (intro none) (simp_all add: put_submission_def write_submission_def)
next
  case (Some d)
  let ?raw = "\<lparr>sr_submission_id = sd_submission_id d, sr_conversation_id = dm_conversation_id m,
      sr_request_id = sd_request_id d, sr_status = sd_status d,
      sr_input_entry_id = map_option ed_entry_id (sd_entry d), sr_answer_entry_id = None,
      sr_reason = sd_reason d, sr_detail = None, sr_placement = sd_placement d,
      sr_mode = sd_mode d, sr_content = sd_content d\<rparr>"
  obtain rec where rec: "submission_record_init ?raw = Inr rec"
    using write_submission_ok [OF assms, of n r s] Some
    by (cases "submission_record_init ?raw") (auto simp: write_submission_def)
  note f = submission_record_init_fields [OF rec]
  have content: "sr_content rec = sd_content d"
  proof -
    have "canonical_opt (sd_content d) = Inr (sd_content d)"
      using assms Some by (cases d)
        (auto simp: mutation_ok_def submission_ok_def opt_list_def submission_draft_init_def Let_def)
    with rec show ?thesis
      unfolding submission_record_init_def if_Inl_Inr bind_r_eq_Inr by (elim conjE exE) auto
  qed
  let ?i = "\<lparr>si_record = rec, si_entry = sd_entry d,
               si_result = \<lparr>cres_revision = n, cres_sequence = cr_sequence r,
                            cres_submission_id = Some (sd_submission_id d), cres_record = Some r\<rparr>,
               si_fingerprint = sd_fingerprint d\<rparr>"
  have "put_submission m n r s = s\<lparr>st_submissions := dset (dm_conversation_id m, sd_request_id d) ?i (st_submissions s),
         st_submission_ids := insert (sd_submission_id d) (st_submission_ids s)\<rparr>"
    using Some rec by (simp add: put_submission_def write_submission_def)
  from some [OF Some this] f content show ?thesis by simp
qed

lemma no_existing_submission:
  assumes "existing_submission s (Some d) = Inr None"
  shows "map_of (st_submissions s) (sd_conversation_id d, sd_request_id d) = None"
  using assms by (auto simp: existing_submission_def split: option.splits if_splits)

lemma refs_update:
  assumes "f k0 = None"
  shows "{(x, c). \<exists>k. (f(k0 \<mapsto> a)) k = Some x \<and> (g(k0 \<mapsto> b)) k = Some c}
     = insert (a, b) {(x, c). \<exists>k. f k = Some x \<and> g k = Some c}"
proof (intro set_eqI iffI, goal_cases)
  case (1 p)
  then obtain k where "(f(k0 \<mapsto> a)) k = Some (fst p)" "(g(k0 \<mapsto> b)) k = Some (snd p)" by auto
  then show ?case by (cases "k = k0") auto
next
  case (2 p)
  show ?case
  proof (cases "p = (a, b)")
    case False
    with 2 have "\<exists>k. f k = Some (fst p) \<and> g k = Some (snd p)" by (cases p) auto
    then obtain k where k: "f k = Some (fst p)" "g k = Some (snd p)" by blast
    with assms have "k \<noteq> k0" by auto
    with k show ?thesis by (auto intro!: exI [of _ k])
  qed (auto intro!: exI [of _ k0])
qed

lemma inj_update:
  assumes "\<forall>k k' x. f k = Some x \<longrightarrow> f k' = Some x \<longrightarrow> k = k'" and "\<And>k. f k \<noteq> Some a"
  shows "\<forall>k k' x. (f(k0 \<mapsto> a)) k = Some x \<longrightarrow> (f(k0 \<mapsto> a)) k' = Some x \<longrightarrow> k = k'"
  using assms by simp metis

lemma wf_submissions_commit:
  assumes "wf_submissions s" and "mutation_ok m" and "commit_plan_of s m = Inr (Write head revision)"
  shows "wf_submissions (commit_core now m head revision s)"
    and "submission_refs s \<subseteq> submission_refs (commit_core now m head revision s)"
    and "dm_submission m = Some d \<Longrightarrow>
      (sd_submission_id d, dm_conversation_id m) \<in> submission_refs (commit_core now m head revision s)"
proof -
  let ?s' = "commit_core now m head revision s"
  let ?p = "put_submission m (new_revision m revision) (commit_row now m s) s"
  note subs = commit_core_submissions [of now m head revision s, unfolded committed_submissions_def]
  have heads: "has_key x (st_heads s) \<Longrightarrow> has_key x (st_heads ?s')" for x
    by (simp add: commit_core_fields)
  have mine: "has_key (dm_conversation_id m) (st_heads ?s')" by (simp add: commit_core_fields)
  have refs: "submission_refs ?s' = submission_refs ?p" "row_id ?s' = row_id ?p" "row_conversation ?s' = row_conversation ?p"
    by (auto simp: submission_refs_def row_id_def row_conversation_def subs)
  have all: "wf_submissions ?s' \<and> submission_refs s \<subseteq> submission_refs ?s' \<and>
      (dm_submission m = Some d \<longrightarrow> (sd_submission_id d, dm_conversation_id m) \<in> submission_refs ?s')"
    using assms(2)
  proof (cases rule: put_submission_cases [where n = "new_revision m revision" and r = "commit_row now m s" and s = s])
    case none
    show ?thesis
      unfolding wf_submissions_def refs subs none
      using wf_submissionsD [OF assms(1)] heads by simp
  next
    case (some d' i)
    let ?k = "(dm_conversation_id m, sd_request_id d')"
    have cid: "sd_conversation_id d' = dm_conversation_id m" using mutation_okD(6) [OF assms(2)] some(1) by simp
    have free: "map_of (st_submissions s) ?k = None"
      using no_existing_submission [of s d'] planned_write(5) [OF assms(3)] some(1) cid by simp
    have new_id: "sd_submission_id d' \<notin> st_submission_ids s" using planned_write(6) [OF assms(3)] some(1) by simp
    have ids: "row_id ?p = (row_id s)(?k \<mapsto> sd_submission_id d')"
      "row_conversation ?p = (row_conversation s)(?k \<mapsto> dm_conversation_id m)"
      using some by (auto simp: row_id_def row_conversation_def)
    have old: "row_id s ?k = None" "row_conversation s ?k = None"
      using free by (simp_all add: row_id_def row_conversation_def)
    have p_refs: "submission_refs ?p = insert (sd_submission_id d', dm_conversation_id m) (submission_refs s)"
      unfolding submission_refs_def ids by (rule refs_update) (rule old(1))
    have fresh: "row_id s k \<noteq> Some (sd_submission_id d')" for k
    proof
      assume k: "row_id s k = Some (sd_submission_id d')"
      then obtain c where "row_conversation s k = Some c" by (auto simp: row_id_def row_conversation_def)
      with k have "(sd_submission_id d', c) \<in> submission_refs s"
        by (cases k) (auto simp: submission_refs_def)
      then have "sd_submission_id d' \<in> fst ` submission_refs s" by (rule image_eqI [rotated]) simp
      with new_id wf_submissionsD(4) [OF assms(1)] show False by simp
    qed
    have keyed: "keyed_by item_key (st_submissions ?p)" "distinct (dkeys (st_submissions ?p))"
      using wf_submissionsD(1,2) [OF assms(1)] some by (auto simp: keyed_by_def item_key_def)
    have inj: "\<forall>k k' x. row_id ?p k = Some x \<longrightarrow> row_id ?p k' = Some x \<longrightarrow> k = k'"
      unfolding ids by (rule inj_update [OF wf_submissionsD(3) [OF assms(1)] fresh])
    have convs: "\<forall>k x. row_conversation ?p k = Some x \<longrightarrow> has_key x (st_heads ?s')"
      unfolding ids fun_upd_apply using wf_submissionsD(5) [OF assms(1)] heads mine by (metis option.inject)
    have id_set: "st_submission_ids ?p = fst ` submission_refs ?p"
      unfolding p_refs using some(2) wf_submissionsD(4) [OF assms(1)] by simp
    show ?thesis
      unfolding wf_submissions_def refs subs
      using keyed inj convs id_set p_refs some(1) by auto
  qed
  from all show "wf_submissions ?s'" "submission_refs s \<subseteq> submission_refs ?s'"
    "dm_submission m = Some d \<Longrightarrow> (sd_submission_id d, dm_conversation_id m) \<in> submission_refs ?s'"
    by simp_all
qed

end
