(* ===== verification/Store_Tasks.thy ===== *)
theory Store_Tasks
  imports Store_Invariant
begin

text \<open>
  The second half of the store invariant: task checkpoints and their submission, effects,
  artifacts, the commit log, the private history and the three derived indexes
  (finalization, waiters, owners); and the invariant \<open>wf_store\<close> that joins all parts.
\<close>

section \<open>Tasks, effects and artifacts\<close>

definition wf_tasks :: "store \<Rightarrow> bool" where
  "wf_tasks s =
     (distinct (dkeys (st_tasks s)) \<and> keyed_by tc_task_id (st_tasks s)
      \<and> (\<forall>t\<in>ran (map_of (st_tasks s)).
            checkpoint_ok t \<and> (tc_submission_id t, tc_conversation_id t) \<in> submission_refs s))"

definition wf_effects :: "store \<Rightarrow> bool" where
  "wf_effects s =
     (distinct (dkeys (st_effects s)) \<and> keyed_by ef_effect_id (st_effects s)
      \<and> (\<forall>e\<in>ran (map_of (st_effects s)). effect_ok e \<and> has_key (ef_task_id e) (st_tasks s)))"

definition wf_artifacts :: "store \<Rightarrow> bool" where
  "wf_artifacts s = (distinct (dkeys (st_artifacts s)) \<and> keyed_by ar_handle (st_artifacts s))"

definition wf_log :: "store \<Rightarrow> bool" where
  "wf_log s = (0 \<le> st_sequence s \<and> map cr_sequence (st_commits s) = [1..st_sequence s])"

lemma has_key_dupdate: "has_key k (dupdate ps d) \<longleftrightarrow> k \<in> fst ` set ps \<or> has_key k d"
  by (auto simp: has_key_iff dkeys_dupdate)

lemma ran_dupdate: "ran (map_of (dupdate ps d)) \<subseteq> snd ` set ps \<union> ran (map_of d)"
proof
  fix v assume "v \<in> ran (map_of (dupdate ps d))"
  then obtain k where "map_of (dupdate ps d) k = Some v" by (auto simp: ran_def)
  then have "map_of (rev ps) k = Some v \<or> map_of d k = Some v"
    by (auto simp: map_of_dupdate split: option.splits)
  then show "v \<in> snd ` set ps \<union> ran (map_of d)"
  proof
    assume "map_of (rev ps) k = Some v"
    from map_of_SomeD [OF this] show ?thesis by force
  qed (auto simp: ran_def)
qed

lemma validate_task_submission:
  assumes "validate_task s proposed expected t = Inr ()" and "distinct (dkeys (st_submissions s))"
  shows "(tc_submission_id t, tc_conversation_id t) \<in> submission_refs s
    \<or> (\<exists>d. proposed = Some d \<and> sd_submission_id d = tc_submission_id t \<and> sd_conversation_id d = tc_conversation_id t)"
proof -
  from assms(1) have "list_ex (\<lambda>item. sr_submission_id (si_record item) = tc_submission_id t
       \<and> sr_conversation_id (si_record item) = tc_conversation_id t) (dvalues (st_submissions s))
     \<or> (case proposed of None \<Rightarrow> False
        | Some d \<Rightarrow> sd_submission_id d = tc_submission_id t \<and> sd_conversation_id d = tc_conversation_id t)"
    by (simp only: validate_task_def Let_def if_Inl_Inr) simp
  then show ?thesis
  proof
    assume "list_ex (\<lambda>item. sr_submission_id (si_record item) = tc_submission_id t
       \<and> sr_conversation_id (si_record item) = tc_conversation_id t) (dvalues (st_submissions s))"
    then obtain i where "i \<in> set (dvalues (st_submissions s))" and
      i: "sr_submission_id (si_record i) = tc_submission_id t" "sr_conversation_id (si_record i) = tc_conversation_id t"
      by (auto simp: list_ex_iff)
    then obtain k where "map_of (st_submissions s) k = Some i" using dvalues_mem [OF assms(2)] by blast
    with i have "row_id s k = Some (tc_submission_id t)" "row_conversation s k = Some (tc_conversation_id t)"
      by (simp_all add: row_id_def row_conversation_def)
    then show ?thesis by (cases k) (auto simp: submission_refs_def)
  qed (auto split: option.splits)
qed

lemma validated_task:
  assumes "commit_plan_of s m = Inr (Write head revision)" and "t \<in> set (all_tasks m)"
  shows "\<exists>proposed expected. validate_task s proposed expected t = Inr ()
    \<and> (proposed = None \<and> expected = None \<or> dm_task m = Some t \<and> proposed = dm_submission m \<and> expected = dm_expected_attempt_token m)"
proof (cases "dm_task m = Some t")
  case True
  with validate_commit_mutationD(3) [OF planned_write(3) [OF assms(1)]] show ?thesis by blast
next
  case False
  with assms(2) have "t \<in> set (dm_task_updates m)" by (auto simp: all_tasks_def opt_list_def split: option.splits)
  with validate_commit_mutationD(4) [OF planned_write(3) [OF assms(1)]] show ?thesis by blast
qed

lemma wf_tasks_commit:
  assumes "wf_tasks s" and "wf_submissions s" and "mutation_ok m"
    and "commit_plan_of s m = Inr (Write head revision)"
  shows "wf_tasks (commit_core now m head revision s)"
proof -
  let ?s' = "commit_core now m head revision s"
  note refs = wf_submissions_commit(2,3) [OF assms(2-4), where now = now]
  have new: "(tc_submission_id t, tc_conversation_id t) \<in> submission_refs ?s'" if t: "t \<in> set (all_tasks m)" for t
  proof -
    obtain proposed expected where v: "validate_task s proposed expected t = Inr ()"
      "proposed = None \<or> proposed = dm_submission m" using validated_task [OF assms(4) t] by blast
    from validate_task_submission [OF v(1) wf_submissionsD(1) [OF assms(2)]] show ?thesis
    proof
      assume "\<exists>d. proposed = Some d \<and> sd_submission_id d = tc_submission_id t \<and> sd_conversation_id d = tc_conversation_id t"
      then obtain d where d: "dm_submission m = Some d" "sd_submission_id d = tc_submission_id t"
        "sd_conversation_id d = tc_conversation_id t" using v(2) by (metis option.distinct(1))
      from refs(2) [OF d(1)] mutation_okD(6) [OF assms(3)] d show ?thesis by simp
    qed (rule subsetD [OF refs(1)])
  qed
  have ok: "checkpoint_ok t" if "t \<in> set (all_tasks m)" for t
    using assms(3) that by (simp add: mutation_ok_def list_all_iff)
  have "t \<in> set (all_tasks m) \<or> t \<in> ran (map_of (st_tasks s))" if "t \<in> ran (map_of (st_tasks ?s'))" for t
    using that ran_dupdate [of "map (\<lambda>t. (tc_task_id t, t)) (all_tasks m)" "st_tasks s"]
    by (auto simp: commit_core_fields)
  with new ok assms(1) refs(1) show ?thesis
    by (simp add: wf_tasks_def commit_core_fields keyed_by_dupdate) blast
qed

lemma wf_effects_commit:
  assumes "wf_effects s" and "mutation_ok m" and "commit_plan_of s m = Inr (Write head revision)"
  shows "wf_effects (commit_core now m head revision s)"
proof -
  let ?s' = "commit_core now m head revision s"
  have old: "has_key x (st_tasks ?s')" if "has_key x (st_tasks s)" for x
    using that by (simp add: commit_core_fields has_key_dupdate)
  have new: "effect_ok e \<and> has_key (ef_task_id e) (st_tasks ?s')" if e: "e \<in> set (all_effects m)" for e
  proof -
    have "validate_effects s m = Inr ()" by (rule validate_commit_mutationD(6) [OF planned_write(3) [OF assms(3)]])
    with e obtain t where t: "dm_task m = Some t" by (cases "dm_task m") (auto simp: validate_effects_def)
    with mutation_okD(14) [OF assms(2)] e have "ef_task_id e = tc_task_id t" by blast
    moreover have "has_key (tc_task_id t) (st_tasks ?s')"
      using t by (auto simp: commit_core_fields has_key_dupdate all_tasks_def opt_list_def)
    ultimately show ?thesis using assms(2) e by (simp add: mutation_ok_def list_all_iff)
  qed
  have "e \<in> set (all_effects m) \<or> e \<in> ran (map_of (st_effects s))" if "e \<in> ran (map_of (st_effects ?s'))" for e
    using that ran_dupdate [of "map (\<lambda>e. (ef_effect_id e, e)) (all_effects m)" "st_effects s"]
    by (auto simp: commit_core_fields apply_effects_def)
  with new old assms(1) show ?thesis
    by (simp add: wf_effects_def commit_core_fields(9) apply_effects_def keyed_by_dupdate) blast
qed

lemma wf_artifacts_commit: "wf_artifacts s \<Longrightarrow> wf_artifacts (commit_core now m head revision s)"
  by (simp add: wf_artifacts_def commit_core_fields keyed_by_dupdate)

lemma wf_log_commit: "wf_log s \<Longrightarrow> wf_log (commit_core now m head revision s)"
  using upto_rec2 [of 1 "st_sequence s + 1"] by (simp add: wf_log_def commit_core_fields)


section \<open>Derived indexes\<close>

text \<open>
  An index maps a key to the ids of the tasks that mention it. The store keeps two of them
  with the same contract: replacing one task's keys changes only that task's membership.
\<close>

definition index_sound :: "(task_checkpoint \<Rightarrow> string list) \<Rightarrow> (string, string set) dict \<Rightarrow> (string, task_checkpoint) dict \<Rightarrow> bool" where
  "index_sound keys_of d ts = (\<forall>k. get_set d k \<subseteq> {tid. \<exists>t. map_of ts tid = Some t \<and> k \<in> set (keys_of t)})"

definition index_exact :: "(task_checkpoint \<Rightarrow> string list) \<Rightarrow> (string, string set) dict \<Rightarrow> (string, task_checkpoint) dict \<Rightarrow> bool" where
  "index_exact keys_of d ts = (\<forall>k. get_set d k = {tid. \<exists>t. map_of ts tid = Some t \<and> k \<in> set (keys_of t)})"

locale task_index =
  fixes keys_of :: "task_checkpoint \<Rightarrow> string list"
    and update :: "task_checkpoint \<Rightarrow> (string, string set) dict \<Rightarrow> (string, string set) dict"
  assumes get_set_update: "get_set (update t d) k =
    (if k \<in> set (keys_of t) then insert (tc_task_id t) (get_set d k) else get_set d k - {tc_task_id t})"
begin

lemma update_sound:
  "index_sound keys_of d ts \<Longrightarrow> index_sound keys_of (update t d) (dset (tc_task_id t) t ts)"
  unfolding index_sound_def get_set_update by (auto split: if_splits)

lemma update_exact:
  "index_exact keys_of d ts \<Longrightarrow> index_exact keys_of (update t d) (dset (tc_task_id t) t ts)"
  unfolding index_exact_def get_set_update by (auto split: if_splits)

lemma fold_update_sound:
  "index_sound keys_of d ts \<Longrightarrow>
     index_sound keys_of (fold update xs d) (dupdate (map (\<lambda>t. (tc_task_id t, t)) xs) ts)"
  by (induction xs arbitrary: d ts) (auto intro: update_sound)

lemma fold_update_exact:
  "index_exact keys_of d ts \<Longrightarrow>
     index_exact keys_of (fold update xs d) (dupdate (map (\<lambda>t. (tc_task_id t, t)) xs) ts)"
  by (induction xs arbitrary: d ts) (auto intro: update_exact)

text \<open>Looking a key up in an exact index finds the tasks that mention it.\<close>

lemma lookup_exact:
  assumes "index_exact keys_of d ts" and "distinct (dkeys ts)" and "keyed_by tc_task_id ts"
  shows "set (filter (\<lambda>t. tc_task_id t \<in> get_set d k) (dvalues ts)) = {t \<in> ran (map_of ts). k \<in> set (keys_of t)}"
  using assms by (auto simp: index_exact_def dvalues_mem keyed_by_def ran_def)

end

lemma get_set_dset: "get_set (dset k v d) k' = (if k' = k then v else get_set d k')"
  by (simp add: get_set_def)

lemma get_set_cleared: "get_set (map (\<lambda>(k, ids). (k, ids - X)) d) k = get_set d k - X"
  by (simp add: get_set_def map_of_map split: option.splits)

lemma get_set_add:
  "get_set (fold (\<lambda>dep d. dset dep (insert x (get_set d dep)) d) deps d) k
     = (if k \<in> set deps then insert x (get_set d k) else get_set d k)"
  by (induction deps arbitrary: d) (auto simp: get_set_dset)

interpretation waiters: task_index waiting_on replace_waiters
  by unfold_locales (simp add: replace_waiters_def get_set_add get_set_cleared)

interpretation owners: task_index "\<lambda>t. opt_list (owner_task_id t)" replace_owner
  by unfold_locales
     (auto simp: replace_owner_def get_set_dset get_set_cleared opt_list_def Let_def split: option.splits)

definition finalizing :: "task_checkpoint \<Rightarrow> bool" where
  "finalizing t = (tc_status t \<in> set [Completing, Waiting])"

definition wf_finalization :: "store \<Rightarrow> bool" where
  "wf_finalization s =
     (st_finalization s = {tid. \<exists>t. map_of (st_tasks s) tid = Some t \<and> finalizing t})"

lemma fold_finalization:
  "fin = {tid. \<exists>t. map_of ts tid = Some t \<and> finalizing t} \<Longrightarrow>
     fold record_finalization xs fin =
       {tid. \<exists>t. map_of (dupdate (map (\<lambda>t. (tc_task_id t, t)) xs) ts) tid = Some t \<and> finalizing t}"
proof (induction xs arbitrary: fin ts)
  case (Cons x xs)
  have "record_finalization x fin = {tid. \<exists>t. map_of (dset (tc_task_id x) x ts) tid = Some t \<and> finalizing t}"
    using Cons.prems by (auto simp: record_finalization_def finalizing_def split: if_splits)
  from Cons.IH [OF this] show ?case by simp
qed simp

definition wf_indexes :: "store \<Rightarrow> bool" where
  "wf_indexes s = (wf_finalization s \<and> index_sound waiting_on (st_waiters s) (st_tasks s)
     \<and> index_sound (\<lambda>t. opt_list (owner_task_id t)) (st_owners s) (st_tasks s))"

definition exact_indexes :: "store \<Rightarrow> bool" where
  "exact_indexes s = (index_exact waiting_on (st_waiters s) (st_tasks s)
     \<and> index_exact (\<lambda>t. opt_list (owner_task_id t)) (st_owners s) (st_tasks s))"

lemma wf_indexes_commit: "wf_indexes s \<Longrightarrow> wf_indexes (commit_core now m head revision s)"
  by (simp add: wf_indexes_def wf_finalization_def commit_core_fields fold_finalization
      waiters.fold_update_sound owners.fold_update_sound)

lemma exact_indexes_commit: "exact_indexes s \<Longrightarrow> exact_indexes (commit_core now m head revision s)"
  by (simp add: exact_indexes_def commit_core_fields waiters.fold_update_exact owners.fold_update_exact)

section \<open>History\<close>

definition points_of :: "store \<Rightarrow> string \<Rightarrow> task_transition list" where
  "points_of s tid = (case map_of (st_history s) tid of None \<Rightarrow> [] | Some points \<Rightarrow> points)"

text \<open>
  The history of a task holds one transition per revision, in commit order, and ends with
  the current checkpoint.
\<close>

definition history_of :: "int \<Rightarrow> task_checkpoint \<Rightarrow> task_transition list \<Rightarrow> bool" where
  "history_of sequence t points =
     (points \<noteq> [] \<and> tt_task (last points) = t
      \<and> map (\<lambda>p. tc_revision (tt_task p)) points = [0..tc_revision t]
      \<and> (\<forall>p\<in>set points. tc_task_id (tt_task p) = tc_task_id t \<and> tt_commit_seq p \<le> sequence
            \<and> checkpoint_ok (tt_task p))
      \<and> sorted_wrt (<) (map tt_commit_seq points))"

definition wf_history :: "store \<Rightarrow> bool" where
  "wf_history s =
     (distinct (dkeys (st_history s)) \<and> (\<forall>tid. has_key tid (st_history s) = has_key tid (st_tasks s))
      \<and> (\<forall>tid t. map_of (st_tasks s) tid = Some t \<longrightarrow> history_of (st_sequence s) t (points_of s tid)))"

lemma record_task_history: "st_history (record_task p t s) = dset (tc_task_id t) (points_of s (tc_task_id t) @ [p]) (st_history s)"
  by (simp add: record_task_def append_history_def put_task_def points_of_def)

lemma points_of_record:
  "points_of (record_task p t s) tid = (if tid = tc_task_id t then points_of s tid @ [p] else points_of s tid)"
  by (simp add: points_of_def record_task_history)

lemma points_of_fold:
  assumes "distinct (map tc_task_id ts)"
  shows "points_of (fold (\<lambda>t. record_task (p t) t) ts s) tid =
     points_of s tid @ map p (filter (\<lambda>t. tc_task_id t = tid) ts)"
  by (induction ts arbitrary: s) (auto simp: points_of_record)

lemma keys_fold_record:
  "set (dkeys (st_history (fold (\<lambda>t. record_task (p t) t) ts s))) = set (dkeys (st_history s)) \<union> tc_task_id ` set ts"
  "distinct (dkeys (st_history s)) \<Longrightarrow> distinct (dkeys (st_history (fold (\<lambda>t. record_task (p t) t) ts s)))"
  by (induction ts arbitrary: s) (auto simp: record_task_history)

lemma commit_core_history:
  "st_history (commit_core now m head revision s) =
     st_history (fold (\<lambda>t. record_task (commit_transition (st_sequence s + 1) m (new_head m head) t) t) (all_tasks m)
       (commit_base now m head revision s))"
  by (simp add: commit_core_def put_submission_frame put_artifacts_def put_effects_def commit_tasks_def)

lemma commit_core_points:
  assumes "distinct (map tc_task_id (all_tasks m))"
  shows "points_of (commit_core now m head revision s) tid =
     points_of s tid @ map (commit_transition (st_sequence s + 1) m (new_head m head))
       (filter (\<lambda>t. tc_task_id t = tid) (all_tasks m))"
proof -
  have "points_of (commit_core now m head revision s) tid = points_of (fold (\<lambda>t. record_task (commit_transition (st_sequence s + 1) m (new_head m head) t) t) (all_tasks m)
       (commit_base now m head revision s)) tid"
    by (simp add: points_of_def commit_core_history)
  also have "\<dots> = points_of s tid @ map (commit_transition (st_sequence s + 1) m (new_head m head))
       (filter (\<lambda>t. tc_task_id t = tid) (all_tasks m))"
    unfolding points_of_fold [OF assms] by (simp add: points_of_def commit_base_def)
  finally show ?thesis .
qed


lemma validate_task_new:
  assumes "validate_task s proposed expected t = Inr ()" and "map_of (st_tasks s) (tc_task_id t) = None"
  shows "tc_revision t = 0" and "valid_task_transition None (tc_phase t)"
    and "valid_task_status_transition None (tc_status t)"
  using assms by (simp_all only: validate_task_def Let_def if_Inl_Inr bind_r_eq_Inr option.case) simp_all

lemma validate_task_old:
  assumes "validate_task s proposed expected t = Inr ()" and "map_of (st_tasks s) (tc_task_id t) = Some old"
  shows "validate_task_update old t expected = Inr ()"
  using assms by (simp only: validate_task_def Let_def if_Inl_Inr bind_r_eq_Inr option.case) simp

lemma validate_task_updateD:
  assumes "validate_task_update old t expected = Inr ()"
  shows "valid_execution_attempt (tc_state old) (tc_status old) t expected"
    and "tc_revision t = tc_revision old + 1" and "tc_conversation_id t = tc_conversation_id old"
    and "tc_submission_id t = tc_submission_id old"
    and "obj_eq (tc_provider_snapshot t) (tc_provider_snapshot old)"
    and "valid_frozen_task_state (tc_state old) (tc_state t)"
    and "valid_input_consumption (tc_phase old) (task_status_value (tc_status old)) (tc_state old) t
       \<or> valid_task_transition (Some (tc_phase old)) (tc_phase t)
         \<and> valid_task_status_transition (Some (tc_status old)) (tc_status t)"
    and "truthy (pget (tc_state old) ''cancel_requested'') \<Longrightarrow>
       tc_phase t \<in> set [''cancelled'', ''failed''] \<or> valid_cancellation_cleanup (tc_state old) t"
  using assms unfolding validate_task_update_def Let_def if_Inl_Inr raise_if_Inr by - (elim conjE, blast)+

lemma dupdate_keyed:
  "distinct (map key ts) \<Longrightarrow> map_of (dupdate (map (\<lambda>t. (key t, t)) ts) d) k =
     (case filter (\<lambda>t. key t = k) ts of [] \<Rightarrow> map_of d k | t # _ \<Rightarrow> Some t)"
proof (induction ts arbitrary: d)
  case (Cons x ts)
  have "key x = k \<Longrightarrow> filter (\<lambda>t. key t = k) ts = []" 
    using Cons.prems by (intro filter_False) (metis distinct.simps(2) image_eqI list.set_map list.simps(9))
  with Cons show ?case by (auto split: list.splits)
qed simp

lemma filter_key_cases:
  assumes "distinct (map key ts)"
  obtains (absent) "filter (\<lambda>t. key t = k) ts = []"
  | (present) t where "filter (\<lambda>t. key t = k) ts = [t]" "t \<in> set ts" "key t = k"
proof (cases "filter (\<lambda>t. key t = k) ts")
  case Nil
  then show ?thesis by (rule absent)
next
  case (Cons t rest)
  then have "t \<in> set (filter (\<lambda>t. key t = k) ts)" by simp
  then have t: "t \<in> set ts" "key t = k" by auto
  have "distinct (map key (filter (\<lambda>t. key t = k) ts))" using assms by (rule distinct_map_filter)
  moreover have "\<forall>y\<in>set (t # rest). key y = k" unfolding Cons [symmetric] by simp
  ultimately have "rest = []" using Cons by (cases rest) auto
  with Cons t present show ?thesis by blast
qed

lemma history_of_mono: "history_of n t points \<Longrightarrow> n \<le> n' \<Longrightarrow> history_of n' t points"
  by (auto simp: history_of_def intro: order_trans)

lemma history_of_append:
  assumes "history_of n old points" and "tc_revision t = tc_revision old + 1" and "tc_task_id t = tc_task_id old"
    and "tt_task p = t" and "tt_commit_seq p = n + 1" and "0 \<le> tc_revision old" and "checkpoint_ok t"
  shows "history_of (n + 1) t (points @ [p])"
  using assms upto_rec2 [of 0 "tc_revision old + 1"]
  by (auto simp: history_of_def sorted_wrt_append)

lemma wf_history_commit:
  assumes "wf_history s" and "wf_tasks s" and "mutation_ok m"
    and "commit_plan_of s m = Inr (Write head revision)"
  shows "wf_history (commit_core now m head revision s)"
proof -
  let ?s' = "commit_core now m head revision s" and ?n = "st_sequence s"
  let ?p = "commit_transition (?n + 1) m (new_head m head)"
  note dist = mutation_okD(3) [OF assms(3)]
  have keys: "distinct (dkeys (st_history ?s')) \<and> has_key tid (st_history ?s') = has_key tid (st_tasks ?s')" for tid
    unfolding commit_core_history using assms(1) keys_fold_record
    by (auto simp: wf_history_def has_key_iff commit_core_fields dkeys_dupdate commit_base_def image_image)
  have "history_of (?n + 1) t (points_of ?s' tid)" if t: "map_of (st_tasks ?s') tid = Some t" for tid t
    using dist
  proof (cases rule: filter_key_cases [where k = tid])
    case absent
    with t have "map_of (st_tasks s) tid = Some t" by (simp add: commit_core_fields dupdate_keyed [OF dist])
    with assms(1) have "history_of ?n t (points_of s tid)" by (simp add: wf_history_def)
    with absent show ?thesis
      unfolding commit_core_points [OF dist] by (auto intro: history_of_mono)
  next
    case (present x)
    with t have x: "x = t" "tc_task_id t = tid" "t \<in> set (all_tasks m)"
      by (simp_all add: commit_core_fields dupdate_keyed [OF dist])
    obtain pr ex where v: "validate_task s pr ex t = Inr ()" using validated_task [OF assms(4) x(3)] by blast
    have ok: "checkpoint_ok t" using x(3) assms(3) by (simp add: mutation_ok_def list_all_iff)
    have points: "points_of ?s' tid = points_of s tid @ [?p t]"
      unfolding commit_core_points [OF dist] present(1) x(1) by simp
    show ?thesis
    proof (cases "map_of (st_tasks s) tid")
      case None
      with assms(1) have "\<not> has_key tid (st_history s)" by (simp add: wf_history_def) (simp add: has_key_def)
      then have "points_of s tid = []" by (simp add: has_key_def points_of_def)
      with points validate_task_new(1) [OF v] None x(2) ok show ?thesis
        by (simp add: history_of_def commit_transition_def)
    next
      case (Some old)
      with x(2) have up: "tc_revision t = tc_revision old + 1" using validate_task_updateD(2) [OF validate_task_old [OF v]] by simp
      have "checkpoint_ok old" "tc_task_id old = tid"
        using assms(2) Some by (auto simp: wf_tasks_def keyed_by_def ran_def)
      then have "0 \<le> tc_revision old" unfolding checkpoint_ok_iff checkpoint_guards_def by blast
      with assms(1) Some up x(2) ok \<open>tc_task_id old = tid\<close> show ?thesis
        unfolding points by (intro history_of_append [of _ old]) (auto simp: wf_history_def commit_transition_def)
    qed
  qed
  with keys show ?thesis by (simp add: wf_history_def commit_core_fields(11))
qed

end
