(* ===== verification/Store_Wf.thy ===== *)
theory Store_Wf
  imports Store_Tasks
begin

text \<open>
  The whole store invariant \<open>wf_store\<close>, and that every method of the memory store which
  writes preserves it: commits (also those that raise half-way), deletions, forks,
  creation and scheduler ownership.
\<close>

definition wf_store :: "store \<Rightarrow> bool" where
  "wf_store s =
     (wf_conversations s \<and> wf_submissions s \<and> wf_tasks s \<and> wf_effects s \<and> wf_artifacts s
      \<and> wf_log s \<and> wf_history s \<and> wf_indexes s)"

lemma wf_storeD:
  assumes "wf_store s"
  shows "wf_conversations s" and "wf_submissions s" and "wf_tasks s" and "wf_effects s"
    and "wf_artifacts s" and "wf_log s" and "wf_history s" and "wf_indexes s"
  using assms by (simp_all add: wf_store_def)

lemma wf_empty_store: "wf_store (empty_store uuid)"
  by (simp add: wf_store_def wf_conversations_def wf_keys_def wf_rows_def wf_disjoint_def wf_heads_def
      wf_submissions_def submission_refs_def row_id_def row_conversation_def wf_tasks_def wf_effects_def
      wf_artifacts_def wf_log_def wf_history_def wf_indexes_def wf_finalization_def index_sound_def
      get_set_def empty_store_def dkeys_def)

section \<open>Writes\<close>

lemma wf_store_commit_core:
  assumes "wf_store s" and "mutation_ok m" and "commit_plan_of s m = Inr (Write head revision)"
  shows "wf_store (commit_core now m head revision s)"
  using wf_storeD [OF assms(1)] assms(2,3)
  by (simp add: wf_store_def wf_conversations_commit wf_submissions_commit(1) wf_tasks_commit
      wf_effects_commit wf_artifacts_commit wf_log_commit wf_history_commit wf_indexes_commit)

lemma wf_store_submissions:
  assumes "wf_store s" and "same_but_submissions s s'" and "wf_submissions s'"
    and "submission_refs s' = submission_refs s"
  shows "wf_store s'"
proof -
  obtain x where s': "s' = s\<lparr>st_submissions := x\<rparr>" using assms(2) by (auto simp: same_but_submissions_def)
  have conv: "wf_conversations s'"
    using wf_storeD(1) [OF assms(1)]
    unfolding s' wf_conversations_def wf_keys_def wf_rows_def wf_disjoint_def wf_heads_def by simp
  have tasks: "wf_tasks s'"
    using wf_storeD(3) [OF assms(1)] assms(4) unfolding s' wf_tasks_def by simp
  have hist: "wf_history s'" "wf_indexes s'" "wf_log s'" "wf_artifacts s'" "wf_effects s'"
    using wf_storeD(4-8) [OF assms(1)]
    unfolding s' wf_history_def points_of_def wf_indexes_def wf_finalization_def wf_log_def
      wf_artifacts_def wf_effects_def by simp_all
  show ?thesis using conv tasks hist assms(3) by (simp add: wf_store_def)
qed

lemma planned_write_entries:
  assumes "wf_store s" and "commit_plan_of s m = Inr (Write head revision)"
    and "dm_create_conversation m = None"
  shows "has_key (dm_conversation_id m) (st_entries s)"
  using planned_write(1) [OF assms(2,3)] wf_storeD(1) [OF assms(1)]
  by (simp add: wf_conversations_def wf_keysD(4)) (simp add: has_key_def)

lemma wf_store_write:
  assumes "wf_store s" and "mutation_ok m" and "commit_plan_of s m = Inr (Write head revision)"
  shows "wf_store (snd (write_commit now m head revision s))"
proof -
  let ?c = "commit_core now m head revision s"
  have core: "wf_store ?c" by (rule wf_store_commit_core [OF assms])
  have "snd (write_commit now m head revision s)
      = snd (each_s (update_submission (dm_entries m)) (all_updates m) ?c)"
    by (rule write_commit_state [OF assms(2)]) (rule planned_write_entries [OF assms(1,3)])
  with core updates_wf [OF wf_storeD(2) [OF core]] updates_frame show ?thesis
    by (auto intro: wf_store_submissions)
qed

section \<open>Deletion\<close>

lemma map_of_filter:
  assumes "distinct (dkeys d)"
  shows "map_of (filter (\<lambda>(k, v). P k v) d) k =
    (case map_of d k of None \<Rightarrow> None | Some v \<Rightarrow> if P k v then Some v else None)"
  using assms
proof (induction d)
  case (Cons p d)
  obtain a b where p: "p = (a, b)" by fastforce
  have "a = k \<Longrightarrow> map_of d k = None" using Cons.prems p by (auto simp: dkeys_def map_of_eq_None_iff)
  with Cons p show ?case by (auto simp: dkeys_def split: option.splits)
qed simp

lemma distinct_filter_keys: "distinct (dkeys d) \<Longrightarrow> distinct (dkeys (filter P d))"
  by (simp add: dkeys_def distinct_map_filter)

definition conversation_tasks :: "string \<Rightarrow> store \<Rightarrow> string list" where
  "conversation_tasks cid s = map fst (filter (\<lambda>(tid, t). tc_conversation_id t = cid) (st_tasks s))"

lemma conversation_tasks_iff:
  assumes "distinct (dkeys (st_tasks s))"
  shows "tid \<in> set (conversation_tasks cid s) \<longleftrightarrow> (\<exists>t. map_of (st_tasks s) tid = Some t \<and> tc_conversation_id t = cid)"
  using dict_mem_iff [OF assms] by (force simp: conversation_tasks_def)

lemma get_set_drop_tasks: "get_set (drop_tasks ids d) k \<subseteq> get_set d k - set ids"
  and get_set_dropped: "k \<in> set ids \<Longrightarrow> get_set (drop_tasks ids d) k = {}"
  by (induction d) (auto simp: drop_tasks_def get_set_def split: option.splits if_splits)

lemma remove_fields:
  "st_database_id (remove_conversation cid s) = st_database_id s"
  "st_sequence (remove_conversation cid s) = st_sequence s" "st_commits (remove_conversation cid s) = st_commits s"
  "st_entries (remove_conversation cid s) = dpop cid (st_entries s)"
  "st_heads (remove_conversation cid s) = dpop cid (st_heads s)"
  "st_parents (remove_conversation cid s) = dpop cid (st_parents s)"
  "st_submissions (remove_conversation cid s)
     = filter (\<lambda>(key, item). sr_conversation_id (si_record item) \<noteq> cid) (st_submissions s)"
  "st_submission_ids (remove_conversation cid s) = st_submission_ids s - set (map (\<lambda>(key, item). sr_submission_id (si_record item))
     (filter (\<lambda>(key, item). sr_conversation_id (si_record item) = cid) (st_submissions s)))"
  "st_tasks (remove_conversation cid s) = filter (\<lambda>(tid, t). tc_conversation_id t \<noteq> cid) (st_tasks s)"
  "st_finalization (remove_conversation cid s) = st_finalization s - set (conversation_tasks cid s)"
  "st_history (remove_conversation cid s) = filter (\<lambda>(tid, points). tid \<notin> set (conversation_tasks cid s)) (st_history s)"
  "st_waiters (remove_conversation cid s) = drop_tasks (conversation_tasks cid s) (st_waiters s)"
  "st_owners (remove_conversation cid s) = drop_tasks (conversation_tasks cid s) (st_owners s)"
  "st_effects (remove_conversation cid s) = filter (\<lambda>(eid, e). ef_task_id e \<notin> set (conversation_tasks cid s)) (st_effects s)"
  "st_scheduler_owner (remove_conversation cid s) = st_scheduler_owner s"
  by (simp_all add: remove_conversation_def conversation_tasks_def Let_def)

lemma wf_conversations_remove:
  assumes "wf_conversations s"
  shows "wf_conversations (remove_conversation cid s)"
proof -
  have keys: "set (dkeys (dpop cid d)) = set (dkeys d) - {cid}" for d :: "(string, 'v) dict"
    by (auto simp: dkeys_eq_dom)
  have wf: "wf_keys s" "wf_rows s" "wf_disjoint s" "wf_heads s"
    using assms by (simp_all add: wf_conversations_def)
  have "wf_keys (remove_conversation cid s)"
    using wf(1) by (simp add: wf_keys_def remove_fields keys)
  moreover have "wf_rows (remove_conversation cid s)"
    using wf(2) by (simp add: wf_rows_def remove_fields)
  moreover have "wf_disjoint (remove_conversation cid s)"
    using wf(3) unfolding wf_disjoint_def remove_fields map_of_dpop fun_upd_apply
    by (metis option.distinct(1))
  moreover have "wf_heads (remove_conversation cid s)"
    using wf(4) by (simp add: wf_heads_def remove_fields)
  ultimately show ?thesis by (simp add: wf_conversations_def)
qed

lemma rows_remove:
  assumes "distinct (dkeys (st_submissions s))"
  shows "row_conversation (remove_conversation cid s) k =
      (if row_conversation s k = Some cid then None else row_conversation s k)"
    and "row_id (remove_conversation cid s) k = (if row_conversation s k = Some cid then None else row_id s k)"
  unfolding row_conversation_def row_id_def remove_fields map_of_filter [OF assms]
  by (simp_all split: option.splits)

lemma submission_refs_remove:
  assumes "distinct (dkeys (st_submissions s))"
  shows "submission_refs (remove_conversation cid s) = {(x, c) \<in> submission_refs s. c \<noteq> cid}"
proof -
  have "(\<exists>k. row_id (remove_conversation cid s) k = Some x \<and> row_conversation (remove_conversation cid s) k = Some c)
     \<longleftrightarrow> (\<exists>k. row_id s k = Some x \<and> row_conversation s k = Some c) \<and> c \<noteq> cid" for x c
    unfolding rows_remove [OF assms] by (metis option.distinct(1) option.inject)
  then show ?thesis unfolding submission_refs_def by blast
qed

lemma refs_unique:
  assumes "wf_submissions s" and "(x, c) \<in> submission_refs s" and "(x, c') \<in> submission_refs s"
  shows "c = c'"
  using assms wf_submissionsD(3) [OF assms(1)] unfolding submission_refs_def by force

lemma wf_submissions_remove:
  assumes "wf_submissions s"
  shows "wf_submissions (remove_conversation cid s)"
proof -
  note D = wf_submissionsD [OF assms]
  have removed: "set (map (\<lambda>(key, item). sr_submission_id (si_record item))
      (filter (\<lambda>(key, item). sr_conversation_id (si_record item) = cid) (st_submissions s)))
      = {x. (x, cid) \<in> submission_refs s}" (is "?l = ?r")
  proof (intro set_eqI iffI)
    fix x assume "x \<in> ?l"
    then obtain k i where "(k, i) \<in> set (st_submissions s)" "sr_conversation_id (si_record i) = cid"
      "sr_submission_id (si_record i) = x" by auto
    then have "map_of (st_submissions s) k = Some i" "sr_conversation_id (si_record i) = cid"
      "sr_submission_id (si_record i) = x" by (simp_all add: dict_mem_iff [OF D(1)])
    then show "x \<in> ?r" by (cases k) (auto simp: submission_refs_def row_id_def row_conversation_def)
  next
    fix x assume "x \<in> ?r"
    then obtain k where "row_id s k = Some x" "row_conversation s k = Some cid" by (auto simp: submission_refs_def)
    then obtain i where "map_of (st_submissions s) k = Some i" "sr_conversation_id (si_record i) = cid"
      "sr_submission_id (si_record i) = x" by (auto simp: row_id_def row_conversation_def)
    then show "x \<in> ?l" using map_of_SomeD by force
  qed
  have keyed: "keyed_by item_key (st_submissions (remove_conversation cid s))"
    using D(2) by (simp add: keyed_by_def remove_fields map_of_filter [OF D(1)] split: option.splits)
  have ids: "st_submission_ids (remove_conversation cid s) = fst ` submission_refs (remove_conversation cid s)"
    unfolding remove_fields removed submission_refs_remove [OF D(1)] D(4)
    using refs_unique [OF assms] by (auto simp: image_iff)
  have inj: "\<forall>k k' x. row_id (remove_conversation cid s) k = Some x \<longrightarrow> row_id (remove_conversation cid s) k' = Some x \<longrightarrow> k = k'"
    unfolding rows_remove [OF D(1)] using D(3) by (metis option.distinct(1))
  have convs: "\<forall>k x. row_conversation (remove_conversation cid s) k = Some x \<longrightarrow> has_key x (st_heads (remove_conversation cid s))"
    unfolding rows_remove [OF D(1)] remove_fields using D(5) by (auto simp: has_key_def)
  show ?thesis
    unfolding wf_submissions_def using keyed ids inj convs D(1) by (simp add: remove_fields distinct_filter_keys)
qed

lemma remove_tasks_lookup:
  assumes "wf_tasks s"
  shows "map_of (st_tasks (remove_conversation cid s)) tid =
      (if tid \<in> set (conversation_tasks cid s) then None else map_of (st_tasks s) tid)"
proof -
  have "distinct (dkeys (st_tasks s))" using assms by (simp add: wf_tasks_def)
  then show ?thesis
    by (auto simp: remove_fields map_of_filter conversation_tasks_iff split: option.splits)
qed

lemma wf_tasks_remove:
  assumes "wf_tasks s" and "wf_submissions s"
  shows "wf_tasks (remove_conversation cid s)"
proof -
  have d: "distinct (dkeys (st_tasks s))" "keyed_by tc_task_id (st_tasks s)"
    and ok: "\<forall>t\<in>ran (map_of (st_tasks s)). checkpoint_ok t \<and> (tc_submission_id t, tc_conversation_id t) \<in> submission_refs s"
    using assms(1) by (simp_all add: wf_tasks_def)
  have ran: "t \<in> ran (map_of (st_tasks s)) \<and> tc_conversation_id t \<noteq> cid"
    if "t \<in> ran (map_of (st_tasks (remove_conversation cid s)))" for t
    using that by (auto simp: ran_def remove_fields map_of_filter [OF d(1)] split: option.splits if_splits)
  have "keyed_by tc_task_id (st_tasks (remove_conversation cid s))"
    using d(2) by (simp add: keyed_by_def remove_fields map_of_filter [OF d(1)] split: option.splits)
  moreover have "distinct (dkeys (st_tasks (remove_conversation cid s)))"
    using d(1) by (simp add: remove_fields distinct_filter_keys)
  ultimately show ?thesis
    unfolding wf_tasks_def submission_refs_remove [OF wf_submissionsD(1) [OF assms(2)]]
    using ok ran by blast
qed

lemma wf_effects_remove:
  assumes "wf_effects s" and "wf_tasks s"
  shows "wf_effects (remove_conversation cid s)"
proof -
  have d: "distinct (dkeys (st_effects s))" "keyed_by ef_effect_id (st_effects s)"
    and ok: "\<forall>e\<in>ran (map_of (st_effects s)). effect_ok e \<and> has_key (ef_task_id e) (st_tasks s)"
    using assms(1) by (simp_all add: wf_effects_def)
  have "effect_ok e \<and> has_key (ef_task_id e) (st_tasks (remove_conversation cid s))"
    if "e \<in> ran (map_of (st_effects (remove_conversation cid s)))" for e
  proof -
    from that have e: "e \<in> ran (map_of (st_effects s))" "ef_task_id e \<notin> set (conversation_tasks cid s)"
      by (auto simp: ran_def remove_fields map_of_filter [OF d(1)] split: option.splits if_splits)
    with ok show ?thesis by (auto simp: has_key_def remove_tasks_lookup [OF assms(2)])
  qed
  moreover have "keyed_by ef_effect_id (st_effects (remove_conversation cid s))"
    using d(2) by (simp add: keyed_by_def remove_fields map_of_filter [OF d(1)] split: option.splits)
  moreover have "distinct (dkeys (st_effects (remove_conversation cid s)))"
    using d(1) by (simp add: remove_fields distinct_filter_keys)
  ultimately show ?thesis by (simp add: wf_effects_def)
qed

lemma wf_artifacts_remove: "wf_artifacts s \<Longrightarrow> wf_artifacts (remove_conversation cid s)"
  unfolding wf_artifacts_def remove_conversation_def Let_def
  by (auto simp: distinct_filter_keys keyed_by_def map_of_filter split: option.splits if_splits)

lemma wf_history_remove:
  assumes "wf_history s" and "wf_tasks s"
  shows "wf_history (remove_conversation cid s)"
proof -
  have d: "distinct (dkeys (st_history s))" and k: "has_key tid (st_history s) = has_key tid (st_tasks s)"
    and h: "map_of (st_tasks s) tid = Some t \<Longrightarrow> history_of (st_sequence s) t (points_of s tid)" for tid t
    using assms(1) by (auto simp: wf_history_def)
  have look: "map_of (st_history (remove_conversation cid s)) tid =
      (if tid \<in> set (conversation_tasks cid s) then None else map_of (st_history s) tid)" for tid
    by (simp add: remove_fields map_of_filter [OF d] split: option.splits)
  have "has_key tid (st_history (remove_conversation cid s)) = has_key tid (st_tasks (remove_conversation cid s))" for tid
    using k by (simp add: has_key_def look remove_tasks_lookup [OF assms(2)])
  moreover have "history_of (st_sequence s) t (points_of (remove_conversation cid s) tid)"
    if "map_of (st_tasks (remove_conversation cid s)) tid = Some t" for tid t
    using that h by (simp add: remove_tasks_lookup [OF assms(2)] points_of_def look split: if_splits)
  ultimately show ?thesis using d by (simp add: wf_history_def remove_fields(2) remove_fields(11) distinct_filter_keys)
qed

lemma index_sound_remove:
  assumes "index_sound keys_of d (st_tasks s)" and "wf_tasks s"
  shows "index_sound keys_of (drop_tasks (conversation_tasks cid s) d) (st_tasks (remove_conversation cid s))"
  unfolding index_sound_def remove_tasks_lookup [OF assms(2)]
proof
  fix k
  show "get_set (drop_tasks (conversation_tasks cid s) d) k
      \<subseteq> {tid. \<exists>t. (if tid \<in> set (conversation_tasks cid s) then None else map_of (st_tasks s) tid) = Some t \<and> k \<in> set (keys_of t)}"
    using get_set_drop_tasks [of "conversation_tasks cid s" d k] assms(1) by (fastforce simp: index_sound_def)
qed

lemma wf_indexes_remove:
  assumes "wf_indexes s" and "wf_tasks s"
  shows "wf_indexes (remove_conversation cid s)"
proof -
  have "wf_finalization (remove_conversation cid s)"
    using assms(1) unfolding wf_indexes_def wf_finalization_def remove_tasks_lookup [OF assms(2)]
    by (auto simp: remove_fields(10))
  with assms index_sound_remove show ?thesis by (simp add: wf_indexes_def remove_fields(12,13))
qed

lemma wf_store_remove:
  assumes "wf_store s"
  shows "wf_store (remove_conversation cid s)"
proof -
  have "wf_log (remove_conversation cid s)"
    using wf_storeD(6) [OF assms] by (simp add: wf_log_def remove_fields)
  with wf_storeD [OF assms] show ?thesis
    by (simp add: wf_store_def wf_conversations_remove wf_submissions_remove wf_tasks_remove wf_effects_remove
        wf_artifacts_remove wf_history_remove wf_indexes_remove)
qed


section \<open>The public methods\<close>

lemma wf_store_append_commit:
  assumes "wf_store s" and "cr_sequence r = st_sequence s + 1"
  shows "wf_store (s\<lparr>st_sequence := st_sequence s + 1, st_commits := st_commits s @ [r]\<rparr>)"
proof -
  let ?s = "s\<lparr>st_sequence := st_sequence s + 1, st_commits := st_commits s @ [r]\<rparr>"
  have rows: "row_id ?s = row_id s" "row_conversation ?s = row_conversation s" "submission_refs ?s = submission_refs s"
    "points_of ?s = points_of s"
    by (auto simp: row_id_def row_conversation_def submission_refs_def points_of_def)
  have "wf_log ?s" using wf_storeD(6) [OF assms(1)] assms(2) upto_rec2 [of 1 "st_sequence s + 1"] by (simp add: wf_log_def)
  moreover have "wf_history ?s"
    using wf_storeD(7) [OF assms(1)] history_of_mono [of "st_sequence s" _ _ "st_sequence s + 1"]
    by (simp add: wf_history_def rows)
  moreover have "wf_conversations ?s"
    using wf_storeD(1) [OF assms(1)] by (simp add: wf_conversations_def wf_keys_def wf_rows_def wf_disjoint_def wf_heads_def)
  moreover have "wf_submissions ?s" using wf_storeD(2) [OF assms(1)] by (simp add: wf_submissions_def rows)
  moreover have "wf_tasks ?s" using wf_storeD(3) [OF assms(1)] by (simp add: wf_tasks_def rows)
  moreover have "wf_effects ?s" "wf_artifacts ?s" "wf_indexes ?s"
    using wf_storeD(4,5,8) [OF assms(1)] by (simp_all add: wf_effects_def wf_artifacts_def wf_indexes_def wf_finalization_def)
  ultimately show ?thesis by (simp add: wf_store_def)
qed

lemma commit_delete_form:
  "commit_delete_conversation now m revision s =
     (if has_forked_children s (dm_conversation_id m)
      then (Inl (CommitConflict ''conversation has forked children''), s)
      else (Inr \<lparr>cres_revision = revision + 1, cres_sequence = st_sequence s + 1,
                 cres_submission_id = None, cres_record = Some (commit_row now m s)\<rparr>,
            remove_conversation (dm_conversation_id m)
              (s\<lparr>st_sequence := st_sequence s + 1, st_commits := st_commits s @ [commit_row now m s]\<rparr>)))"
  by (simp add: commit_delete_conversation_def bind_s_def append_commit_form read_s_def raise_if_def)

lemma wf_store_delete: "wf_store s \<Longrightarrow> wf_store (snd (commit_delete_conversation now m revision s))"
  by (simp add: commit_delete_form wf_store_remove wf_store_append_commit)

lemma wf_store_commit:
  assumes "wf_store s" and "mutation_ok m"
  shows "wf_store (snd (commit now m s))"
proof -
  obtain res s' where run: "commit now m s = (res, s')" by fastforce
  then show ?thesis
  proof (cases rule: commit_cases)
    case (deleted revision)
    with wf_store_delete [OF assms(1)] run show ?thesis by (metis snd_conv)
  next
    case (written head revision)
    with wf_store_write [OF assms written(1)] run show ?thesis by (metis snd_conv)
  qed (use assms(1) run in simp_all)
qed

definition new_conversation :: "string \<Rightarrow> string option \<Rightarrow> string option \<Rightarrow> store \<Rightarrow> store" where
  "new_conversation cid pcid peid s =
     s\<lparr>st_heads := dset cid (None, 0) (st_heads s), st_entries := dset cid [] (st_entries s),
       st_parents := dset cid (pcid, peid) (st_parents s)\<rparr>"

lemma wf_store_new_conversation:
  assumes "wf_store s" and "\<not> has_key cid (st_heads s)"
  shows "wf_store (new_conversation cid pcid peid s)"
proof -
  let ?s = "new_conversation cid pcid peid s"
  have wf: "wf_keys s" "wf_rows s" "wf_disjoint s" "wf_heads s"
    using wf_storeD(1) [OF assms(1)] by (simp_all add: wf_conversations_def)
  have rows: "row_id ?s = row_id s" "row_conversation ?s = row_conversation s" "submission_refs ?s = submission_refs s"
    "points_of ?s = points_of s"
    by (auto simp: row_id_def row_conversation_def submission_refs_def points_of_def new_conversation_def)
  have keys: "wf_keys ?s" using wf(1) by (simp add: wf_keys_def new_conversation_def)
  have "wf_rows ?s" using wf(2) by (simp add: wf_rows_def new_conversation_def)
  moreover have "wf_disjoint ?s"
    unfolding wf_disjoint_def new_conversation_def
    by simp (use wf(3) in \<open>auto simp: wf_disjoint_def split: if_splits\<close>)
  moreover have "wf_heads ?s" using wf(4) by (simp add: wf_heads_def new_conversation_def)
  moreover have "wf_submissions ?s"
    using wf_storeD(2) [OF assms(1)] unfolding wf_submissions_def rows by (auto simp: new_conversation_def)
  moreover have "wf_tasks ?s" using wf_storeD(3) [OF assms(1)] unfolding wf_tasks_def rows by (simp add: new_conversation_def)
  moreover have "wf_effects ?s" "wf_artifacts ?s" "wf_indexes ?s" "wf_log ?s"
    using wf_storeD(4,5,6,8) [OF assms(1)]
    by (simp_all add: wf_effects_def wf_artifacts_def wf_indexes_def wf_finalization_def wf_log_def new_conversation_def)
  moreover have "wf_history ?s" using wf_storeD(7) [OF assms(1)] unfolding wf_history_def rows by (simp add: new_conversation_def)
  ultimately show ?thesis using keys by (simp add: wf_store_def wf_conversations_def)
qed

lemma create_conversation_form:
  "snd (create_conversation cid pcid peid s) =
     (if cid = [] \<or> has_key cid (st_heads s) then s else new_conversation cid pcid peid s)"
  by (simp add: create_conversation_def new_conversation_def)

lemma wf_store_create: "wf_store s \<Longrightarrow> wf_store (snd (create_conversation cid pcid peid s))"
  by (simp add: create_conversation_form wf_store_new_conversation)

lemma fork_record_init:
  "commit_record_init \<lparr>cr_sequence = n, cr_kind = ''fork'', cr_committed_at = now,
     cr_payload = [(''database_id'', PStr db), (''session_id'', PStr child),
                   (''parent_session_id'', PStr cid), (''parent_entry_id'', PStr eid)]\<rparr>
   = Inr \<lparr>cr_sequence = n, cr_kind = ''fork'', cr_committed_at = now,
     cr_payload = [(''database_id'', PStr db), (''session_id'', PStr child),
                   (''parent_session_id'', PStr cid), (''parent_entry_id'', PStr eid)]\<rparr>"
  by (simp add: commit_record_init_def canonical_obj_def validate_json_def thaw_obj_def freeze_obj_def)

definition fork_row :: "string \<Rightarrow> string \<Rightarrow> string \<Rightarrow> string \<Rightarrow> store \<Rightarrow> commit_record" where
  "fork_row now cid eid child s =
     \<lparr>cr_sequence = st_sequence s + 1, cr_kind = ''fork'', cr_committed_at = now,
      cr_payload = [(''database_id'', PStr (st_database_id s)), (''session_id'', PStr child),
                    (''parent_session_id'', PStr cid), (''parent_entry_id'', PStr eid)]\<rparr>"

lemma fork_form:
  "fork now cid eid child s =
     (case store_path s cid (Some eid) of
        Inl e \<Rightarrow> (Inl e, s)
      | Inr _ \<Rightarrow>
          if has_key child (st_heads s) then (Inl (ValueError (''conversation already exists: '' @ child)), s)
          else if child = [] then (Inl (ValueError ''conversation_id is required''), s)
          else (Inr \<lparr>cres_revision = 0, cres_sequence = st_sequence s + 1, cres_submission_id = None,
                     cres_record = Some (fork_row now cid eid child s)\<rparr>,
                (new_conversation child (Some cid) (Some eid) s)
                  \<lparr>st_sequence := st_sequence s + 1, st_commits := st_commits s @ [fork_row now cid eid child s]\<rparr>))"
  by (auto simp: fork_def bind_s_def read_s_def raise_if_def create_conversation_def fork_record_init
      new_conversation_def fork_row_def split: sum.splits)

lemma wf_store_fork:
  assumes "wf_store s"
  shows "wf_store (snd (fork now cid eid child s))"
proof -
  have "wf_store ((new_conversation child (Some cid) (Some eid) s)
      \<lparr>st_sequence := st_sequence s + 1, st_commits := st_commits s @ [fork_row now cid eid child s]\<rparr>)"
    if "\<not> has_key child (st_heads s)"
    using wf_store_append_commit [OF wf_store_new_conversation [OF assms that], of "fork_row now cid eid child s" "Some cid" "Some eid"]
    by (simp add: new_conversation_def fork_row_def)
  with assms show ?thesis by (simp add: fork_form split: sum.splits)
qed

lemma wf_store_scheduler: "wf_store (s\<lparr>st_scheduler_owner := x\<rparr>) = wf_store s"
  by (simp add: wf_store_def wf_conversations_def wf_keys_def wf_rows_def wf_disjoint_def wf_heads_def
      wf_submissions_def submission_refs_def row_id_def row_conversation_def wf_tasks_def wf_effects_def
      wf_artifacts_def wf_log_def wf_history_def points_of_def wf_indexes_def wf_finalization_def)

lemma wf_store_acquire: "wf_store s \<Longrightarrow> wf_store (snd (acquire_scheduler_owner alive owner_id process_id s))"
  by (simp add: acquire_scheduler_owner_def wf_store_scheduler split: option.splits)

lemma wf_store_release: "wf_store s \<Longrightarrow> wf_store (release_scheduler_owner owner_id s)"
  by (simp add: release_scheduler_owner_def wf_store_scheduler split: option.splits)

text \<open>\<open>append\<close>, \<open>submit\<close> and \<open>branch\<close> are commits of the mutation they build.\<close>

lemma durable_mutation_init_id: "durable_mutation_init m = Inr m' \<Longrightarrow> m' = m"
  by (auto simp: durable_mutation_init_def)

lemma commit_new_cases:
  assumes "list_all entry_ok (dm_entries m)" "list_all checkpoint_ok (all_tasks m)"
    "list_all effect_ok (all_effects m)" "list_all submission_ok (opt_list (dm_submission m))"
  shows "snd (commit_new now m s) = s \<or> mutation_ok m \<and> commit_new now m s = commit now m s"
proof (cases "durable_mutation_init m")
  case (Inr m')
  with durable_mutation_init_id have "m' = m" by blast
  with Inr assms show ?thesis by (simp add: commit_new_def mutation_ok_def)
qed (simp add: commit_new_def)

section \<open>Runs of the store\<close>

text \<open>
  The steps of a store: every method of the memory store that changes it, but for its direct
  \<open>delete_conversation\<close>. The program deletes conversations by a commit; the direct method
  has no caller and does not keep the invariant.
\<close>

inductive store_step :: "store \<Rightarrow> store \<Rightarrow> bool" where
  commit: "mutation_ok m \<Longrightarrow> store_step s (snd (commit now m s))"
| create: "store_step s (snd (create_conversation cid pcid peid s))"
| fork: "store_step s (snd (fork now cid eid child s))"
| acquire: "store_step s (snd (acquire_scheduler_owner alive owner_id process_id s))"
| release: "store_step s (release_scheduler_owner owner_id s)"

inductive_cases store_stepE: "store_step s s'"

lemma store_step_wf: "store_step s s' \<Longrightarrow> wf_store s \<Longrightarrow> wf_store s'"
  by (erule store_stepE)
     (simp_all add: wf_store_commit wf_store_create wf_store_fork wf_store_acquire wf_store_release)

lemma store_run_wf: "store_step\<^sup>*\<^sup>* s s' \<Longrightarrow> wf_store s \<Longrightarrow> wf_store s'"
  by (induction rule: rtranclp_induct) (auto intro: store_step_wf)

end
