(* ===== verification/Store_Progress.thy ===== *)
theory Store_Progress
  imports Store_Wf
begin

text \<open>
  How the rows of the store evolve along runs without deletion: checkpoints advance by
  validated updates only, settled effects and finished submissions never change, entries
  are only appended, and the derived indexes stay exact.
\<close>

section \<open>State after a write\<close>

lemma same_but_submissions_fields:
  assumes "same_but_submissions s s'"
  shows "st_database_id s' = st_database_id s" "st_entries s' = st_entries s" "st_heads s' = st_heads s"
    "st_parents s' = st_parents s" "st_submission_ids s' = st_submission_ids s" "st_tasks s' = st_tasks s"
    "st_finalization s' = st_finalization s" "st_waiters s' = st_waiters s" "st_owners s' = st_owners s"
    "st_effects s' = st_effects s" "st_artifacts s' = st_artifacts s" "st_sequence s' = st_sequence s"
    "st_commits s' = st_commits s" "st_history s' = st_history s" "st_scheduler_owner s' = st_scheduler_owner s"
  using assms by (metis (no_types) same_but_submissions_def store.select_convs store.surjective store.update_convs(5))+

lemma write_same_core:
  assumes "wf_store s" and "mutation_ok m" and "commit_plan_of s m = Inr (Write head revision)"
  shows "same_but_submissions (commit_core now m head revision s) (snd (write_commit now m head revision s))"
proof -
  have "snd (write_commit now m head revision s)
      = snd (each_s (update_submission (dm_entries m)) (all_updates m) (commit_core now m head revision s))"
    by (rule write_commit_state [OF assms(2)]) (rule planned_write_entries [OF assms(1,3)])
  then show ?thesis using updates_frame by simp
qed

lemmas write_fields = same_but_submissions_fields [OF write_same_core, unfolded commit_core_fields]


section \<open>Runs without deletion\<close>

inductive live_step :: "store \<Rightarrow> store \<Rightarrow> bool" where
  commit: "mutation_ok m \<Longrightarrow> \<not> dm_delete_conversation m \<Longrightarrow> live_step s (snd (commit now m s))"
| create: "live_step s (snd (create_conversation cid pcid peid s))"
| fork: "live_step s (snd (fork now cid eid child s))"
| acquire: "live_step s (snd (acquire_scheduler_owner alive owner_id process_id s))"
| release: "live_step s (release_scheduler_owner owner_id s)"

lemma live_step_store_step: "live_step s s' \<Longrightarrow> store_step s s'"
  by (induction rule: live_step.induct) (auto intro: store_step.intros)

text \<open>
  A step either writes a planned mutation, or leaves every table but those of the
  conversations, the log and the scheduler owner as it is.
\<close>

definition same_tables :: "store \<Rightarrow> store \<Rightarrow> bool" where
  "same_tables s s' = (st_submissions s' = st_submissions s \<and> st_submission_ids s' = st_submission_ids s
     \<and> st_tasks s' = st_tasks s \<and> st_finalization s' = st_finalization s \<and> st_waiters s' = st_waiters s
     \<and> st_owners s' = st_owners s \<and> st_effects s' = st_effects s \<and> st_artifacts s' = st_artifacts s
     \<and> st_history s' = st_history s
     \<and> (\<forall>c rows. map_of (st_entries s) c = Some rows \<longrightarrow> map_of (st_entries s') c = Some rows)
     \<and> (\<forall>c h. map_of (st_heads s) c = Some h \<longrightarrow> map_of (st_heads s') c = Some h)
     \<and> st_sequence s \<le> st_sequence s')"

lemma same_tables_refl [simp]: "same_tables s s"
  by (simp add: same_tables_def)

lemma same_tables_new:
  assumes "wf_store s" and "\<not> has_key cid (st_heads s)"
  shows "same_tables s (new_conversation cid pcid peid s)"
proof -
  have "\<not> has_key cid (st_entries s)"
    using wf_storeD(1) [OF assms(1)] assms(2) by (simp add: wf_conversations_def wf_keysD(4))
  with assms(2) show ?thesis by (auto simp: same_tables_def new_conversation_def has_key_def)
qed

lemma live_step_cases:
  assumes "live_step s s'" and "wf_store s"
  obtains (same) "same_tables s s'"
  | (written) m now head revision where "mutation_ok m" "commit_plan_of s m = Inr (Write head revision)"
      "s' = snd (write_commit now m head revision s)"
  using assms(1)
proof cases
  case (commit m now)
  obtain res t where run: "commit now m s = (res, t)" by fastforce
  then show ?thesis
  proof (cases rule: commit_cases)
    case (deleted revision)
    with planned_delete(3) [OF deleted(1)] commit show ?thesis by blast
  next
    case (written head revision)
    then show ?thesis
      using that(2) [of m head revision now] commit run by (simp add: commit_def)
  qed (use commit run same in auto)
next
  case (create cid pcid peid)
  with assms(2) same_tables_new same show ?thesis by (auto simp: create_conversation_form split: if_splits)
next
  case (fork now cid eid child)
  show ?thesis
  proof (rule same)
    have "same_tables s ((new_conversation child (Some cid) (Some eid) s)
        \<lparr>st_sequence := st_sequence s + 1, st_commits := st_commits s @ [fork_row now cid eid child s]\<rparr>)"
      if "\<not> has_key child (st_heads s)"
      using same_tables_new [OF assms(2) that, of "Some cid" "Some eid"] by (simp add: same_tables_def)
    with fork show "same_tables s s'" by (simp add: fork_form split: sum.splits)
  qed
next
  case (acquire alive owner_id process_id)
  then have "same_tables s s'" by (simp add: acquire_scheduler_owner_def same_tables_def split: option.splits)
  then show ?thesis by (rule same)
next
  case (release owner_id)
  then have "same_tables s s'" by (simp add: release_scheduler_owner_def same_tables_def split: option.splits)
  then show ?thesis by (rule same)
qed

lemma live_step_wf: "live_step s s' \<Longrightarrow> wf_store s \<Longrightarrow> wf_store s'"
  by (rule store_step_wf [OF live_step_store_step])

text \<open>Induction over a run, with the invariant at hand in every step.\<close>

lemma live_run_induct [consumes 2, case_names refl step]:
  assumes "live_step\<^sup>*\<^sup>* s s'" and "wf_store s"
    and "P s" and "\<And>a b. live_step\<^sup>*\<^sup>* s a \<Longrightarrow> wf_store a \<Longrightarrow> live_step a b \<Longrightarrow> P a \<Longrightarrow> P b"
  shows "P s'"
proof -
  from assms(1) have "P s' \<and> wf_store s'"
  proof (induction rule: rtranclp_induct)
    case (step a b)
    with assms(4) [of a b] live_step_wf show ?case by blast
  qed (use assms in simp)
  then show ?thesis ..
qed

lemma live_run_wf: "live_step\<^sup>*\<^sup>* s s' \<Longrightarrow> wf_store s \<Longrightarrow> wf_store s'"
  by (rule live_run_induct [of s s' wf_store]) (auto intro: live_step_wf)

section \<open>Checkpoints\<close>

definition task_update :: "task_checkpoint \<Rightarrow> task_checkpoint \<Rightarrow> bool" where
  "task_update old t = (tc_task_id t = tc_task_id old \<and> (\<exists>expected. validate_task_update old t expected = Inr ()))"

lemma write_task_lookup:
  assumes "wf_store s" and "mutation_ok m" and "commit_plan_of s m = Inr (Write head revision)"
    and "map_of (st_tasks s) tid = Some t"
  shows "\<exists>t'. map_of (st_tasks (snd (write_commit now m head revision s))) tid = Some t' \<and> (t' = t \<or> task_update t t')"
proof -
  note dist = mutation_okD(3) [OF assms(2)]
  have id: "tc_task_id t = tid" using wf_storeD(3) [OF assms(1)] assms(4) by (auto simp: wf_tasks_def keyed_by_def)
  show ?thesis
    unfolding write_fields(6) [OF assms(1-3)] using dist
  proof (cases rule: filter_key_cases [where k = tid])
    case (present x)
    obtain pr ex where "validate_task s pr ex x = Inr ()" using validated_task [OF assms(3) present(2)] by blast
    with validate_task_old [of s pr ex x t] present(3) assms(4) have "validate_task_update t x ex = Inr ()" by simp
    with present id show "\<exists>t'. map_of (dupdate (map (\<lambda>t. (tc_task_id t, t)) (all_tasks m)) (st_tasks s)) tid = Some t' \<and> (t' = t \<or> task_update t t')"
      by (auto simp: dupdate_keyed [OF dist] task_update_def)
  qed (use assms(4) in \<open>simp add: dupdate_keyed [OF dist]\<close>)
qed

lemma live_step_task:
  assumes "live_step s s'" and "wf_store s" and "map_of (st_tasks s) tid = Some t"
  shows "\<exists>t'. map_of (st_tasks s') tid = Some t' \<and> (t' = t \<or> task_update t t')"
  using assms(1,2)
proof (cases rule: live_step_cases)
  case same
  with assms(3) show ?thesis by (simp add: same_tables_def)
next
  case (written m now head revision)
  with write_task_lookup [OF assms(2) written(1,2) assms(3)] show ?thesis by simp
qed

lemma live_run_task:
  assumes "live_step\<^sup>*\<^sup>* s s'" and "wf_store s" and "map_of (st_tasks s) tid = Some t"
  shows "\<exists>t'. map_of (st_tasks s') tid = Some t' \<and> task_update\<^sup>*\<^sup>* t t'"
  using assms(1,2)
proof (induction rule: live_run_induct)
  case (step a b)
  then obtain u where u: "map_of (st_tasks a) tid = Some u" "task_update\<^sup>*\<^sup>* t u" by blast
  from live_step_task [OF step(3,2) u(1)] u(2) show ?case by (meson rtranclp.rtrancl_into_rtrancl)
qed (use assms(3) in auto)

section \<open>Effects\<close>

lemma apply_effects_keyed:
  "distinct (map ef_effect_id es) \<Longrightarrow> map_of (apply_effects es d) k =
     (case filter (\<lambda>e. ef_effect_id e = k) es of [] \<Rightarrow> map_of d k | e # _ \<Rightarrow> Some e)"
  unfolding apply_effects_def by (rule dupdate_keyed)

lemma live_step_settled_effect:
  assumes "live_step s s'" and "wf_store s" and "map_of (st_effects s) eid = Some e" and "ef_settlement e \<noteq> None"
  shows "map_of (st_effects s') eid = Some e"
  using assms(1,2)
proof (cases rule: live_step_cases)
  case same
  with assms(3) show ?thesis by (simp add: same_tables_def)
next
  case (written m now head revision)
  note dist = mutation_okD(13) [OF written(1)]
  have valid: "validate_effects s m = Inr ()" by (rule validate_commit_mutationD(6) [OF planned_write(3) [OF written(2)]])
  show ?thesis
    unfolding written(3) write_fields(10) [OF assms(2) written(1,2)] using dist
  proof (cases rule: filter_key_cases [where k = eid])
    case absent
    then show "map_of (apply_effects (all_effects m) (st_effects s)) eid = Some e"
      using assms(3) by (simp add: apply_effects_keyed [OF dist])
  next
    case (present x)
    from valid present(2) have "validate_effect s m x = Inr ()" by (simp add: validate_effects_def)
    with present(3) assms(3,4) show "map_of (apply_effects (all_effects m) (st_effects s)) eid = Some e"
      by (simp add: validate_effect_def Let_def)
  qed
qed

section \<open>Entries\<close>

lemma live_step_entries:
  assumes "live_step s s'" and "wf_store s" and "map_of (st_entries s) c = Some rows"
  shows "\<exists>more. map_of (st_entries s') c = Some (rows @ more)"
  using assms(1,2)
proof (cases rule: live_step_cases)
  case same
  with assms(3) show ?thesis by (simp add: same_tables_def)
next
  case (written m now head revision)
  note key = write_key_facts [OF wf_storeD(1) [OF assms(2)] written(1,2)]
  show ?thesis
    unfolding written(3) write_fields(2) [OF assms(2) written(1,2)] commit_entries_rows
    using key(1,2) assms(3) by (cases "dm_create_conversation m") auto
qed

section \<open>Indexes\<close>

lemma live_step_exact:
  assumes "live_step s s'" and "wf_store s" and "exact_indexes s"
  shows "exact_indexes s'"
  using assms(1,2)
proof (cases rule: live_step_cases)
  case same
  with assms(3) show ?thesis by (simp add: same_tables_def exact_indexes_def)
next
  case (written m now head revision)
  from exact_indexes_commit [OF assms(3)] show ?thesis
    unfolding exact_indexes_def commit_core_fields written(3) write_fields(6,8,9) [OF assms(2) written(1,2)] .
qed


section \<open>Submissions\<close>

lemma updates_row:
  assumes "wf_submissions s" and "distinct (map su_submission_id us)" and "map_of (st_submissions s) k = Some i"
  shows "\<exists>i'. map_of (st_submissions (snd (each_s (update_submission es) us s))) k = Some i'
     \<and> (i' = i \<or> (\<exists>u\<in>set us. su_submission_id u = sr_submission_id (si_record i)
                   \<and> submission_record_init (updated_record u (si_record i)) = Inr (si_record i')))"
  using assms
proof (induction us arbitrary: s i)
  case (Cons u us)
  obtain res s1 where step: "update_submission es u s = (res, s1)" by fastforce
  from update_submission_wf [OF Cons.prems(1) step] have wf1: "wf_submissions s1" by blast
  from Cons.prems(1) step show ?case
  proof (cases rule: update_submission_cases)
    case (raised e)
    with step Cons.prems(3) show ?thesis by (simp add: bind_s_def)
  next
    case (updated k0 i0 i1)
    have run: "snd (each_s (update_submission es) (u # us) s) = snd (each_s (update_submission es) us s1)"
      using step updated(1) by (simp add: bind_s_def)
    show ?thesis
    proof (cases "k0 = k")
      case True
      with updated(2,3) Cons.prems(3) have i0: "i0 = i" and look: "map_of (st_submissions s1) k = Some i1" by auto
      note same = updated_item_fields [OF updated(5)]
      from Cons.IH [OF wf1 _ look] Cons.prems(2) obtain i' where
        i': "map_of (st_submissions (snd (each_s (update_submission es) us s1))) k = Some i'"
        "i' = i1 \<or> (\<exists>v\<in>set us. su_submission_id v = sr_submission_id (si_record i1))" by auto
      moreover have "\<forall>v\<in>set us. su_submission_id v \<noteq> sr_submission_id (si_record i1)"
        using Cons.prems(2) updated(4) same by (metis distinct.simps(2) image_eqI list.set_map list.simps(9))
      ultimately have "i' = i1" by blast
      with i' updated(4,5) i0 show ?thesis unfolding run by auto
    next
      case False
      with updated(2) Cons.prems(3) have "map_of (st_submissions s1) k = Some i" by simp
      from Cons.IH [OF wf1 _ this] Cons.prems(2) show ?thesis unfolding run by auto
    qed
  qed
qed simp

lemma find_submission_row:
  assumes "wf_submissions s" and "map_of (st_submissions s) k = Some i"
  shows "find_submission s (sr_submission_id (si_record i)) = Some (si_record i)"
proof -
  note D = wf_submissionsD [OF assms(1)]
  have mem: "si_record i \<in> set (map si_record (dvalues (st_submissions s)))"
    using assms(2) map_of_SomeD [OF assms(2)] by (force simp: dvalues_def)
  show ?thesis
  proof (cases "find_submission s (sr_submission_id (si_record i))")
    case None
    with mem show ?thesis by (auto simp: find_submission_def find_None_iff)
  next
    case (Some r)
    from find_Some_mem [OF Some [unfolded find_submission_def]] obtain i0 where
      i0: "i0 \<in> set (dvalues (st_submissions s))" "r = si_record i0"
      "sr_submission_id (si_record i0) = sr_submission_id (si_record i)" by auto
    then obtain k0 where k0: "map_of (st_submissions s) k0 = Some i0" using dvalues_mem [OF D(1)] by blast
    with i0(3) assms(2) have "row_id s k0 = row_id s k" "row_id s k = Some (sr_submission_id (si_record i))"
      by (simp_all add: row_id_def)
    with D(3) have "k0 = k" by metis
    with k0 assms(2) i0(2) Some show ?thesis by simp
  qed
qed

definition submission_progress :: "submission_record \<Rightarrow> submission_record \<Rightarrow> bool" where
  "submission_progress r r' =
     (sr_submission_id r' = sr_submission_id r \<and> sr_request_id r' = sr_request_id r
      \<and> (sr_status r' = sr_status r \<or> valid_submission_transition (sr_status r) (sr_status r'))
      \<and> (sr_placement r = PlacementPlaced \<longrightarrow> sr_placement r' = PlacementPlaced))"

lemma validated_update_progress:
  assumes "wf_submissions s" and "map_of (st_submissions s) k = Some i"
    and "validate_submission_update s es u = Inr ()" and "su_submission_id u = sr_submission_id (si_record i)"
    and "submission_record_init (updated_record u (si_record i)) = Inr r'"
  shows "submission_progress (si_record i) r'"
proof -
  note found = find_submission_row [OF assms(1,2)]
  have status: "su_status u = sr_status (si_record i) \<or> valid_submission_transition (sr_status (si_record i)) (su_status u)"
    and place: "su_placement u \<noteq> None \<longrightarrow> sr_placement (si_record i) = PlacementPlaced \<longrightarrow> su_placement u = Some PlacementPlaced"
    using assms(3) unfolding validate_submission_update_def assms(4) found option.case if_Inl_Inr
    by (auto split: option.splits)
  from status place submission_record_init_fields [OF assms(5)] show ?thesis
    by (auto simp: submission_progress_def updated_record_def split: option.splits)
qed

lemma committed_row:
  assumes "wf_store s" and "mutation_ok m" and "commit_plan_of s m = Inr (Write head revision)"
    and "map_of (st_submissions s) k = Some i"
  shows "map_of (st_submissions (commit_core now m head revision s)) k = Some i"
  unfolding commit_core_submissions committed_submissions_def
  using assms(2)
proof (cases rule: put_submission_cases [where n = "new_revision m revision" and r = "commit_row now m s" and s = s])
  case (some d i')
  have "map_of (st_submissions s) (dm_conversation_id m, sd_request_id d) = None"
    using no_existing_submission [of s d] planned_write(5) [OF assms(3)] some(1) mutation_okD(6) [OF assms(2)] by simp
  with some(2) assms(4)
  show "map_of (st_submissions (put_submission m (new_revision m revision) (commit_row now m s) s)) k = Some i"
    by auto
qed (use assms(4) in simp)

lemma live_step_submission:
  assumes "live_step s s'" and "wf_store s" and "map_of (st_submissions s) k = Some i"
  shows "\<exists>i'. map_of (st_submissions s') k = Some i' \<and> (i' = i \<or> submission_progress (si_record i) (si_record i'))"
  using assms(1,2)
proof (cases rule: live_step_cases)
  case same
  with assms(3) show ?thesis by (simp add: same_tables_def)
next
  case (written m now head revision)
  let ?c = "commit_core now m head revision s"
  have wfc: "wf_submissions ?c" by (rule wf_storeD(2) [OF wf_store_commit_core [OF assms(2) written(1,2)]])
  have s': "s' = snd (each_s (update_submission (dm_entries m)) (all_updates m) ?c)"
    unfolding written(3) by (rule write_commit_state [OF written(1)]) (rule planned_write_entries [OF assms(2) written(2)])
  from updates_row [OF wfc mutation_okD(7) [OF written(1)] committed_row [OF assms(2) written(1,2) assms(3)], of "dm_entries m"]
  obtain i' where i': "map_of (st_submissions s') k = Some i'"
    "i' = i \<or> (\<exists>u\<in>set (all_updates m). su_submission_id u = sr_submission_id (si_record i)
                   \<and> submission_record_init (updated_record u (si_record i)) = Inr (si_record i'))"
    unfolding s' by blast
  have "submission_progress (si_record i) (si_record i')" if "i' \<noteq> i"
    using i'(2) that validated_update_progress [OF wf_storeD(2) [OF assms(2)] assms(3)]
      validate_commit_mutationD(5) [OF planned_write(3) [OF written(2)]] by blast
  with i'(1) show ?thesis by blast
qed

end
