(* ===== verification/Store_Contract.thy ===== *)
theory Store_Contract
  imports Store_Progress Lifecycle
begin

text \<open>
  The optimistic concurrency contract of a durable store as its clients (sessions, the
  scheduler, admission) rely on it: a writer names the revision it read, and the store
  accepts the write only if nothing moved in between. The contract is a locale; what
  clients conclude from it is proved there, and the memory store is an instance.
\<close>

locale versioned_store =
  fixes put :: "'m \<Rightarrow> 's \<Rightarrow> 'r result \<times> 's"
    and step :: "'s \<Rightarrow> 's \<Rightarrow> bool" and inv :: "'s \<Rightarrow> bool"
    and moves :: "'m \<Rightarrow> bool" and plain :: "'m \<Rightarrow> bool"
    and key :: "'m \<Rightarrow> string" and expected :: "'m \<Rightarrow> int"
    and version :: "'s \<Rightarrow> string \<Rightarrow> int option" and conflict :: py_error
  assumes put_step: "moves m \<Longrightarrow> step s (snd (put m s))"
    and step_inv: "step s s' \<Longrightarrow> inv s \<Longrightarrow> inv s'"
    and step_monotone: "step s s' \<Longrightarrow> inv s \<Longrightarrow> version s c = Some v \<Longrightarrow> \<exists>v'. version s' c = Some v' \<and> v \<le> v'"
    and put_advances: "inv s \<Longrightarrow> moves m \<Longrightarrow> put m s = (Inr r, s') \<Longrightarrow> \<exists>v. version s' (key m) = Some v \<and> expected m < v"
    and put_stale: "plain m \<Longrightarrow> version s (key m) = Some v \<Longrightarrow> v \<noteq> expected m \<Longrightarrow> put m s = (Inl conflict, s)"
begin

lemma run_inv: "step\<^sup>*\<^sup>* s s' \<Longrightarrow> inv s \<Longrightarrow> inv s'"
  by (induction rule: rtranclp_induct) (auto intro: step_inv)

lemma run_monotone:
  assumes "step\<^sup>*\<^sup>* s s'" and "inv s" and "version s c = Some v"
  shows "\<exists>v'. version s' c = Some v' \<and> v \<le> v'"
  using assms(1)
proof (induction rule: rtranclp_induct)
  case (step a b)
  then obtain v1 where v1: "version a c = Some v1" "v \<le> v1" by blast
  from step_monotone [OF step.hyps(2) run_inv [OF step.hyps(1) assms(2)] v1(1)] v1(2) show ?case
    by (meson order_trans)
qed (simp add: assms(3))

text \<open>
  No lost update: after one of two writers that read the same revision has succeeded, the
  other meets the conflict, however many other steps come in between, and it changes nothing.
\<close>

lemma no_lost_update:
  assumes "inv s" and "moves a" and "plain b" and "key a = key b" and "expected a = expected b"
    and "put a s = (Inr r, s1)" and "step\<^sup>*\<^sup>* s1 s2"
  shows "put b s2 = (Inl conflict, s2)"
proof -
  from put_advances [OF assms(1,2,6)] obtain v where v: "version s1 (key a) = Some v" "expected a < v" by blast
  have s1: "inv s1" using step_inv [OF put_step [OF assms(2), of s] assms(1)] assms(6) by simp
  from run_monotone [OF assms(7) s1 v(1)] obtain v' where "version s2 (key b) = Some v'" "v \<le> v'"
    using assms(4) by auto
  with v(2) assms(5) put_stale [OF assms(3)] show ?thesis by auto
qed

end

section \<open>The memory store is a versioned store\<close>

definition revision_of :: "store \<Rightarrow> string \<Rightarrow> int option" where
  "revision_of s cid = map_option snd (map_of (st_heads s) cid)"

text \<open>
  A write without resubmission or creation; one that also appends entries or moves the head
  of its conversation, and so moves the revision on.
\<close>

definition plain_write :: "durable_mutation \<Rightarrow> bool" where
  "plain_write m = (dm_submission m = None \<and> dm_create_conversation m = None)"

definition moving_write :: "durable_mutation \<Rightarrow> bool" where
  "moving_write m = (mutation_ok m \<and> (dm_entries m \<noteq> [] \<or> dm_branch_entry_id m \<noteq> None)
     \<and> plain_write m \<and> \<not> dm_delete_conversation m)"

lemma plan_no_submission:
  assumes "dm_create_conversation m = None" and "dm_submission m = None"
    and "commit_plan_of s m = Inr (Answer r)"
  shows "is_noop m"
  using assms by (auto simp: commit_plan_of_def plan_at_def existing_submission_def
      split: prod.splits if_splits)

lemma commit_stale:
  assumes "plain_write m" and "revision_of s (dm_conversation_id m) = Some n" and "n \<noteq> dm_expected_revision m"
  shows "commit now m s = (Inl (CommitConflict ''conversation revision changed''), s)"
  using assms
  by (auto simp: plain_write_def commit_def commit_plan_of_def plan_at_def existing_submission_def conversation_def
      revision_of_def read_s_def bind_s_def split: option.splits)

lemma write_revision:
  assumes "wf_store s" and "mutation_ok m" and "commit_plan_of s m = Inr (Write head revision)"
  shows "revision_of (snd (write_commit now m head revision s)) c =
     (if c = dm_conversation_id m then Some (new_revision m (dm_expected_revision m)) else revision_of s c)"
  unfolding revision_of_def write_fields(3) [OF assms] using planned_write(4) [OF assms(3)] by simp

lemma planned_revision:
  assumes "commit_plan_of s m = Inr (Write head revision)" and "revision_of s (dm_conversation_id m) = Some n"
  shows "n = dm_expected_revision m"
proof (cases "dm_create_conversation m")
  case None
  then show ?thesis using planned_write(1,4) [OF assms(1)] assms(2) by (simp add: revision_of_def)
next
  case (Some c)
  then show ?thesis using planned_write(2) [OF assms(1)] assms(2) by (auto simp: revision_of_def has_key_def)
qed

lemma live_step_revision:
  assumes "live_step s s'" and "wf_store s" and "revision_of s c = Some v"
  shows "\<exists>v'. revision_of s' c = Some v' \<and> v \<le> v'"
  using assms(1,2)
proof (cases rule: live_step_cases)
  case same
  with assms(3) show ?thesis by (auto simp: revision_of_def same_tables_def)
next
  case (written m now head revision)
  with write_revision [OF assms(2) written(1,2), of now c] planned_revision [OF written(2)] assms(3)
  show ?thesis by (auto simp: new_revision_def)
qed

interpretation memory: versioned_store "\<lambda>(now, m). commit now m" live_step wf_store
  "\<lambda>(now, m). moving_write m" "\<lambda>(now, m). plain_write m" "\<lambda>(now, m). dm_conversation_id m"
  "\<lambda>(now, m). dm_expected_revision m" revision_of "CommitConflict ''conversation revision changed''"
proof unfold_locales
  fix p :: "string \<times> durable_mutation" and s
  obtain now m where p: "p = (now, m)" by (cases p)
  show "live_step s (snd ((case p of (now, m) \<Rightarrow> commit now m) s))" if "case p of (now, m) \<Rightarrow> moving_write m"
    using that by (simp add: p moving_write_def live_step.commit)
  show "\<exists>v. revision_of s' (case p of (now, m) \<Rightarrow> dm_conversation_id m) = Some v
      \<and> (case p of (now, m) \<Rightarrow> dm_expected_revision m) < v"
    if wf: "wf_store s" and moving: "case p of (now, m) \<Rightarrow> moving_write m"
      and run: "(case p of (now, m) \<Rightarrow> commit now m) s = (Inr r, s')" for r s'
  proof -
    have m: "moving_write m" and c: "commit now m s = (Inr r, s')" using moving run by (simp_all add: p)
    from c obtain head revision where "commit_plan_of s m = Inr (Write head revision)"
      "write_commit now m head revision s = (Inr r, s')"
    proof (cases rule: commit_cases)
      case (answered r)
      with plan_no_submission [of m s r] m show ?thesis by (auto simp: moving_write_def plain_write_def is_noop_def)
    next
      case (deleted revision)
      with planned_delete(3) [OF deleted(1)] m show ?thesis by (auto simp: moving_write_def)
    qed (use that in auto)
    with write_revision [OF wf _ this(1), of now "dm_conversation_id m"] m show ?thesis
      by (auto simp: p moving_write_def new_revision_def)
  qed
  show "(case p of (now, m) \<Rightarrow> commit now m) s = (Inl (CommitConflict ''conversation revision changed''), s)"
    if "case p of (now, m) \<Rightarrow> plain_write m" "revision_of s (case p of (now, m) \<Rightarrow> dm_conversation_id m) = Some v"
      "v \<noteq> (case p of (now, m) \<Rightarrow> dm_expected_revision m)" for v
    using commit_stale [of m s v now] that by (simp add: p)
qed (auto intro: live_step_wf live_step_revision)

end
