(* ===== verification/Store_Properties.thy ===== *)
theory Store_Properties
  imports Store_Contract
begin

text \<open>
  What the durable store guarantees to the rest of the program, on the definitions that
  model \<^verbatim>\<open>codey/durable/memory.py\<close>, with an instance of each guarantee.
\<close>

section \<open>Instances\<close>

definition sample_append :: "string \<Rightarrow> string option \<Rightarrow> int \<Rightarrow> durable_mutation" where
  "sample_append eid parent revision =
     (empty_mutation ''main'' revision)\<lparr>dm_entries := [sample_entry ''main'' eid parent None]\<rparr>"

text \<open>A queued input of mode \<open>follow_up\<close> and the task that will answer it.\<close>

definition sample_draft :: submission_draft where
  "sample_draft =
     \<lparr>sd_submission_id = ''s-t1'', sd_request_id = ''r1'', sd_conversation_id = ''main'', sd_entry = None,
      sd_fingerprint = ''f'', sd_status = SubQueued, sd_placement = PlacementQueued, sd_mode = ''follow_up'',
      sd_content = Some [(''text'', PStr ''hi'')], sd_reason = None\<rparr>"

definition sample_submit :: durable_mutation where
  "sample_submit = (empty_mutation ''main'' 0)
     \<lparr>dm_submission := Some sample_draft, dm_task := Some (sample_task ''t1'' ''accepted'' 0)\<rparr>"

definition sample_task_step :: "string \<Rightarrow> int \<Rightarrow> effect_record list \<Rightarrow> effect_record list \<Rightarrow> durable_mutation" where
  "sample_task_step phase revision effects settlements = (empty_mutation ''main'' 0)
     \<lparr>dm_task := Some (sample_task ''t1'' phase revision), dm_effects := effects, dm_settlements := settlements\<rparr>"

text \<open>
  \<open>store0\<close>: an empty conversation; \<open>store1\<close>: with a submission and its task;
  \<open>store2\<close>: the task runs and has a pending effect; \<open>store3\<close>: the effect is settled
  and the task has failed.
\<close>

definition store0 :: store where
  "store0 = snd (create_conversation ''main'' None None (empty_store ''u''))"

lemma store0_code [code]:
  "store0 = \<lparr>st_database_id = ''database-u'', st_entries = [(''main'', [])],
     st_heads = [(''main'', None, 0)], st_parents = [(''main'', None, None)],
     st_submissions = [], st_submission_ids = {}, st_tasks = [],
     st_finalization = {}, st_waiters = [], st_owners = [], st_effects = [],
     st_artifacts = [], st_sequence = 0, st_commits = [], st_history = [],
     st_scheduler_owner = None\<rparr>"
  by code_simp

definition store1 :: store where
  "store1 = snd (commit ''t1'' sample_submit store0)"

lemma store1_code [code]:
  "store1 = \<lparr>st_database_id = ''database-u'', st_entries = [(''main'', [])],
     st_heads = [(''main'', None, 0)], st_parents = [(''main'', None, None)],
     st_submissions =
     [((''main'', ''r1''),
     \<lparr>si_record =
     \<lparr>sr_submission_id = ''s-t1'', sr_conversation_id = ''main'',
     sr_request_id = ''r1'', sr_status = SubQueued,
     sr_input_entry_id = None, sr_answer_entry_id = None,
     sr_reason = None, sr_detail = None,
     sr_placement = PlacementQueued, sr_mode = ''follow_up'',
     sr_content = Some [(''text'', PStr ''hi'')]\<rparr>,
     si_entry = None,
     si_result =
     \<lparr>cres_revision = 0, cres_sequence = 1,
     cres_submission_id = Some ''s-t1'',
     cres_record =
     Some
     \<lparr>cr_sequence = 1, cr_kind = ''durable'',
     cr_committed_at = ''t1'',
     cr_payload =
     [(''session_id'', PStr ''main''),
     (''entry_ids'', PTuple []),
     (''task_id'', PStr ''t1''),
     (''projections'',
     PTuple
     [PProxy
     [(''type'', PStr ''submission_admitted''),
     (''submission_id'', PStr ''s-t1''),
     (''request_id'', PStr ''r1''),
     (''status'', PStr ''queued''),
     (''placement'', PStr ''queued''),
     (''mode'', PStr ''follow_up'')],
     PProxy
     [(''type'', PStr ''task_progressed''),
     (''task_id'', PStr ''t1''),
     (''phase'', PStr ''accepted''),
     (''status'', PStr ''pending''),
     (''revision'', PInt 0)]]),
     (''database_id'', PStr ''database-u'')]\<rparr>\<rparr>,
     si_fingerprint = ''f''\<rparr>)],
     st_submission_ids = {''s-t1''},
     st_tasks =
     [(''t1'',
     \<lparr>tc_task_id = ''t1'', tc_conversation_id = ''main'',
     tc_submission_id = ''s-t1'', tc_phase = ''accepted'',
     tc_revision = 0,
     tc_provider_snapshot = [(''model'', PStr ''m'')],
     tc_state =
     [(''input_mode'', PStr ''follow_up''),
     (''waiting_on'', PTuple [])],
     tc_current_turn_id = None, tc_pending_effect_id = None,
     tc_status = Pending, tc_schema_version = 2\<rparr>)],
     st_finalization = {}, st_waiters = [], st_owners = [], st_effects = [],
     st_artifacts = [], st_sequence = 1,
     st_commits =
     [\<lparr>cr_sequence = 1, cr_kind = ''durable'', cr_committed_at = ''t1'',
     cr_payload =
     [(''session_id'', PStr ''main''), (''entry_ids'', PTuple []),
     (''task_id'', PStr ''t1''),
     (''projections'',
     PTuple
     [PProxy
     [(''type'', PStr ''submission_admitted''),
     (''submission_id'', PStr ''s-t1''),
     (''request_id'', PStr ''r1''),
     (''status'', PStr ''queued''),
     (''placement'', PStr ''queued''),
     (''mode'', PStr ''follow_up'')],
     PProxy
     [(''type'', PStr ''task_progressed''),
     (''task_id'', PStr ''t1''),
     (''phase'', PStr ''accepted''),
     (''status'', PStr ''pending''), (''revision'', PInt 0)]]),
     (''database_id'', PStr ''database-u'')]\<rparr>],
     st_history =
     [(''t1'',
     [\<lparr>tt_commit_seq = 1,
     tt_task =
     \<lparr>tc_task_id = ''t1'', tc_conversation_id = ''main'',
     tc_submission_id = ''s-t1'', tc_phase = ''accepted'',
     tc_revision = 0,
     tc_provider_snapshot = [(''model'', PStr ''m'')],
     tc_state =
     [(''input_mode'', PStr ''follow_up''),
     (''waiting_on'', PTuple [])],
     tc_current_turn_id = None, tc_pending_effect_id = None,
     tc_status = Pending, tc_schema_version = 2\<rparr>,
     tt_effect_changes = [], tt_head_entry_id = None\<rparr>])],
     st_scheduler_owner = None\<rparr>"
  by code_simp

definition store2 :: store where
  "store2 = snd (commit ''t2'' (sample_task_step ''running'' 1 [sample_effect ''f1'' ''t1'' ''pending'' None] []) store1)"

lemma store2_code [code]:
  "store2 = \<lparr>st_database_id = ''database-u'', st_entries = [(''main'', [])],
     st_heads = [(''main'', None, 0)], st_parents = [(''main'', None, None)],
     st_submissions =
     [((''main'', ''r1''),
     \<lparr>si_record =
     \<lparr>sr_submission_id = ''s-t1'', sr_conversation_id = ''main'',
     sr_request_id = ''r1'', sr_status = SubQueued,
     sr_input_entry_id = None, sr_answer_entry_id = None,
     sr_reason = None, sr_detail = None,
     sr_placement = PlacementQueued, sr_mode = ''follow_up'',
     sr_content = Some [(''text'', PStr ''hi'')]\<rparr>,
     si_entry = None,
     si_result =
     \<lparr>cres_revision = 0, cres_sequence = 1,
     cres_submission_id = Some ''s-t1'',
     cres_record =
     Some
     \<lparr>cr_sequence = 1, cr_kind = ''durable'',
     cr_committed_at = ''t1'',
     cr_payload =
     [(''session_id'', PStr ''main''),
     (''entry_ids'', PTuple []),
     (''task_id'', PStr ''t1''),
     (''projections'',
     PTuple
     [PProxy
     [(''type'', PStr ''submission_admitted''),
     (''submission_id'', PStr ''s-t1''),
     (''request_id'', PStr ''r1''),
     (''status'', PStr ''queued''),
     (''placement'', PStr ''queued''),
     (''mode'', PStr ''follow_up'')],
     PProxy
     [(''type'', PStr ''task_progressed''),
     (''task_id'', PStr ''t1''),
     (''phase'', PStr ''accepted''),
     (''status'', PStr ''pending''),
     (''revision'', PInt 0)]]),
     (''database_id'', PStr ''database-u'')]\<rparr>\<rparr>,
     si_fingerprint = ''f''\<rparr>)],
     st_submission_ids = {''s-t1''},
     st_tasks =
     [(''t1'',
     \<lparr>tc_task_id = ''t1'', tc_conversation_id = ''main'',
     tc_submission_id = ''s-t1'', tc_phase = ''running'',
     tc_revision = 1,
     tc_provider_snapshot = [(''model'', PStr ''m'')],
     tc_state =
     [(''input_mode'', PStr ''follow_up''),
     (''waiting_on'', PTuple [])],
     tc_current_turn_id = None, tc_pending_effect_id = None,
     tc_status = Running, tc_schema_version = 2\<rparr>)],
     st_finalization = {}, st_waiters = [], st_owners = [],
     st_effects =
     [(''f1'',
     \<lparr>ef_effect_id = ''f1'', ef_task_id = ''t1'', ef_category = ''tool'',
     ef_replay_class = ''never'', ef_args_digest = ''d'',
     ef_status = ''pending'', ef_intent = [(''tool'', PStr ''read'')],
     ef_settlement = None\<rparr>)],
     st_artifacts = [], st_sequence = 2,
     st_commits =
     [\<lparr>cr_sequence = 1, cr_kind = ''durable'', cr_committed_at = ''t1'',
     cr_payload =
     [(''session_id'', PStr ''main''), (''entry_ids'', PTuple []),
     (''task_id'', PStr ''t1''),
     (''projections'',
     PTuple
     [PProxy
     [(''type'', PStr ''submission_admitted''),
     (''submission_id'', PStr ''s-t1''),
     (''request_id'', PStr ''r1''),
     (''status'', PStr ''queued''),
     (''placement'', PStr ''queued''),
     (''mode'', PStr ''follow_up'')],
     PProxy
     [(''type'', PStr ''task_progressed''),
     (''task_id'', PStr ''t1''),
     (''phase'', PStr ''accepted''),
     (''status'', PStr ''pending''), (''revision'', PInt 0)]]),
     (''database_id'', PStr ''database-u'')]\<rparr>,
     \<lparr>cr_sequence = 2, cr_kind = ''durable'', cr_committed_at = ''t2'',
     cr_payload =
     [(''session_id'', PStr ''main''), (''entry_ids'', PTuple []),
     (''task_id'', PStr ''t1''),
     (''projections'',
     PTuple
     [PProxy
     [(''type'', PStr ''task_progressed''),
     (''task_id'', PStr ''t1''), (''phase'', PStr ''running''),
     (''status'', PStr ''running''), (''revision'', PInt 1)]]),
     (''database_id'', PStr ''database-u'')]\<rparr>],
     st_history =
     [(''t1'',
     [\<lparr>tt_commit_seq = 1,
     tt_task =
     \<lparr>tc_task_id = ''t1'', tc_conversation_id = ''main'',
     tc_submission_id = ''s-t1'', tc_phase = ''accepted'',
     tc_revision = 0,
     tc_provider_snapshot = [(''model'', PStr ''m'')],
     tc_state =
     [(''input_mode'', PStr ''follow_up''),
     (''waiting_on'', PTuple [])],
     tc_current_turn_id = None, tc_pending_effect_id = None,
     tc_status = Pending, tc_schema_version = 2\<rparr>,
     tt_effect_changes = [], tt_head_entry_id = None\<rparr>,
     \<lparr>tt_commit_seq = 2,
     tt_task =
     \<lparr>tc_task_id = ''t1'', tc_conversation_id = ''main'',
     tc_submission_id = ''s-t1'', tc_phase = ''running'',
     tc_revision = 1,
     tc_provider_snapshot = [(''model'', PStr ''m'')],
     tc_state =
     [(''input_mode'', PStr ''follow_up''),
     (''waiting_on'', PTuple [])],
     tc_current_turn_id = None, tc_pending_effect_id = None,
     tc_status = Running, tc_schema_version = 2\<rparr>,
     tt_effect_changes =
     [\<lparr>ef_effect_id = ''f1'', ef_task_id = ''t1'',
     ef_category = ''tool'', ef_replay_class = ''never'',
     ef_args_digest = ''d'', ef_status = ''pending'',
     ef_intent = [(''tool'', PStr ''read'')],
     ef_settlement = None\<rparr>],
     tt_head_entry_id = None\<rparr>])],
     st_scheduler_owner = None\<rparr>"
  by code_simp

definition store3 :: store where
  "store3 = snd (commit ''t3'' (sample_task_step ''failed'' 2 [] [sample_effect ''f1'' ''t1'' ''done'' (Some [])]) store2)"

lemma store3_code [code]:
  "store3 = \<lparr>st_database_id = ''database-u'', st_entries = [(''main'', [])],
     st_heads = [(''main'', None, 0)], st_parents = [(''main'', None, None)],
     st_submissions =
     [((''main'', ''r1''),
     \<lparr>si_record =
     \<lparr>sr_submission_id = ''s-t1'', sr_conversation_id = ''main'',
     sr_request_id = ''r1'', sr_status = SubQueued,
     sr_input_entry_id = None, sr_answer_entry_id = None,
     sr_reason = None, sr_detail = None,
     sr_placement = PlacementQueued, sr_mode = ''follow_up'',
     sr_content = Some [(''text'', PStr ''hi'')]\<rparr>,
     si_entry = None,
     si_result =
     \<lparr>cres_revision = 0, cres_sequence = 1,
     cres_submission_id = Some ''s-t1'',
     cres_record =
     Some
     \<lparr>cr_sequence = 1, cr_kind = ''durable'',
     cr_committed_at = ''t1'',
     cr_payload =
     [(''session_id'', PStr ''main''),
     (''entry_ids'', PTuple []),
     (''task_id'', PStr ''t1''),
     (''projections'',
     PTuple
     [PProxy
     [(''type'', PStr ''submission_admitted''),
     (''submission_id'', PStr ''s-t1''),
     (''request_id'', PStr ''r1''),
     (''status'', PStr ''queued''),
     (''placement'', PStr ''queued''),
     (''mode'', PStr ''follow_up'')],
     PProxy
     [(''type'', PStr ''task_progressed''),
     (''task_id'', PStr ''t1''),
     (''phase'', PStr ''accepted''),
     (''status'', PStr ''pending''),
     (''revision'', PInt 0)]]),
     (''database_id'', PStr ''database-u'')]\<rparr>\<rparr>,
     si_fingerprint = ''f''\<rparr>)],
     st_submission_ids = {''s-t1''},
     st_tasks =
     [(''t1'',
     \<lparr>tc_task_id = ''t1'', tc_conversation_id = ''main'',
     tc_submission_id = ''s-t1'', tc_phase = ''failed'',
     tc_revision = 2,
     tc_provider_snapshot = [(''model'', PStr ''m'')],
     tc_state =
     [(''input_mode'', PStr ''follow_up''),
     (''waiting_on'', PTuple [])],
     tc_current_turn_id = None, tc_pending_effect_id = None,
     tc_status = Failed, tc_schema_version = 2\<rparr>)],
     st_finalization = {}, st_waiters = [], st_owners = [],
     st_effects =
     [(''f1'',
     \<lparr>ef_effect_id = ''f1'', ef_task_id = ''t1'', ef_category = ''tool'',
     ef_replay_class = ''never'', ef_args_digest = ''d'',
     ef_status = ''done'', ef_intent = [(''tool'', PStr ''read'')],
     ef_settlement = Some []\<rparr>)],
     st_artifacts = [], st_sequence = 3,
     st_commits =
     [\<lparr>cr_sequence = 1, cr_kind = ''durable'', cr_committed_at = ''t1'',
     cr_payload =
     [(''session_id'', PStr ''main''), (''entry_ids'', PTuple []),
     (''task_id'', PStr ''t1''),
     (''projections'',
     PTuple
     [PProxy
     [(''type'', PStr ''submission_admitted''),
     (''submission_id'', PStr ''s-t1''),
     (''request_id'', PStr ''r1''),
     (''status'', PStr ''queued''),
     (''placement'', PStr ''queued''),
     (''mode'', PStr ''follow_up'')],
     PProxy
     [(''type'', PStr ''task_progressed''),
     (''task_id'', PStr ''t1''),
     (''phase'', PStr ''accepted''),
     (''status'', PStr ''pending''), (''revision'', PInt 0)]]),
     (''database_id'', PStr ''database-u'')]\<rparr>,
     \<lparr>cr_sequence = 2, cr_kind = ''durable'', cr_committed_at = ''t2'',
     cr_payload =
     [(''session_id'', PStr ''main''), (''entry_ids'', PTuple []),
     (''task_id'', PStr ''t1''),
     (''projections'',
     PTuple
     [PProxy
     [(''type'', PStr ''task_progressed''),
     (''task_id'', PStr ''t1''), (''phase'', PStr ''running''),
     (''status'', PStr ''running''), (''revision'', PInt 1)]]),
     (''database_id'', PStr ''database-u'')]\<rparr>,
     \<lparr>cr_sequence = 3, cr_kind = ''durable'', cr_committed_at = ''t3'',
     cr_payload =
     [(''session_id'', PStr ''main''), (''entry_ids'', PTuple []),
     (''task_id'', PStr ''t1''),
     (''projections'',
     PTuple
     [PProxy
     [(''type'', PStr ''task_progressed''),
     (''task_id'', PStr ''t1''), (''phase'', PStr ''failed''),
     (''status'', PStr ''failed''), (''revision'', PInt 2)],
     PProxy
     [(''type'', PStr ''effect_settled''),
     (''task_id'', PStr ''t1''), (''effect_id'', PStr ''f1''),
     (''status'', PStr ''done'')]]),
     (''database_id'', PStr ''database-u'')]\<rparr>],
     st_history =
     [(''t1'',
     [\<lparr>tt_commit_seq = 1,
     tt_task =
     \<lparr>tc_task_id = ''t1'', tc_conversation_id = ''main'',
     tc_submission_id = ''s-t1'', tc_phase = ''accepted'',
     tc_revision = 0,
     tc_provider_snapshot = [(''model'', PStr ''m'')],
     tc_state =
     [(''input_mode'', PStr ''follow_up''),
     (''waiting_on'', PTuple [])],
     tc_current_turn_id = None, tc_pending_effect_id = None,
     tc_status = Pending, tc_schema_version = 2\<rparr>,
     tt_effect_changes = [], tt_head_entry_id = None\<rparr>,
     \<lparr>tt_commit_seq = 2,
     tt_task =
     \<lparr>tc_task_id = ''t1'', tc_conversation_id = ''main'',
     tc_submission_id = ''s-t1'', tc_phase = ''running'',
     tc_revision = 1,
     tc_provider_snapshot = [(''model'', PStr ''m'')],
     tc_state =
     [(''input_mode'', PStr ''follow_up''),
     (''waiting_on'', PTuple [])],
     tc_current_turn_id = None, tc_pending_effect_id = None,
     tc_status = Running, tc_schema_version = 2\<rparr>,
     tt_effect_changes =
     [\<lparr>ef_effect_id = ''f1'', ef_task_id = ''t1'',
     ef_category = ''tool'', ef_replay_class = ''never'',
     ef_args_digest = ''d'', ef_status = ''pending'',
     ef_intent = [(''tool'', PStr ''read'')],
     ef_settlement = None\<rparr>],
     tt_head_entry_id = None\<rparr>,
     \<lparr>tt_commit_seq = 3,
     tt_task =
     \<lparr>tc_task_id = ''t1'', tc_conversation_id = ''main'',
     tc_submission_id = ''s-t1'', tc_phase = ''failed'',
     tc_revision = 2,
     tc_provider_snapshot = [(''model'', PStr ''m'')],
     tc_state =
     [(''input_mode'', PStr ''follow_up''),
     (''waiting_on'', PTuple [])],
     tc_current_turn_id = None, tc_pending_effect_id = None,
     tc_status = Failed, tc_schema_version = 2\<rparr>,
     tt_effect_changes =
     [\<lparr>ef_effect_id = ''f1'', ef_task_id = ''t1'',
     ef_category = ''tool'', ef_replay_class = ''never'',
     ef_args_digest = ''d'', ef_status = ''done'',
     ef_intent = [(''tool'', PStr ''read'')],
     ef_settlement = Some []\<rparr>],
     tt_head_entry_id = None\<rparr>])],
     st_scheduler_owner = None\<rparr>"
  by code_simp

lemma sample_mutations_ok:
  "mutation_ok sample_submit"
  "mutation_ok (sample_task_step ''running'' 1 [sample_effect ''f1'' ''t1'' ''pending'' None] [])"
  "mutation_ok (sample_task_step ''failed'' 2 [] [sample_effect ''f1'' ''t1'' ''done'' (Some [])])"
  "mutation_ok (sample_append ''e1'' None 0)" "mutation_ok (sample_append ''e2'' None 0)"
  by code_simp+

lemma store0_step: "live_step (empty_store ''u'') store0"
  unfolding store0_def by (rule live_step.create)

lemma store1_step: "live_step store0 store1"
  unfolding store1_def by (rule live_step.commit) (code_simp+)

lemma store2_step: "live_step store1 store2"
  unfolding store2_def by (rule live_step.commit) (code_simp+)

lemma store3_step: "live_step store2 store3"
  unfolding store3_def by (rule live_step.commit) (code_simp+)

lemma store0_wf: "wf_store store0"
  by (rule live_step_wf [OF store0_step wf_empty_store])

lemma store1_wf: "wf_store store1"
  by (rule live_step_wf [OF store1_step store0_wf])

lemma store2_wf: "wf_store store2"
  by (rule live_step_wf [OF store2_step store1_wf])

lemma store3_wf: "wf_store store3"
  by (rule live_step_wf [OF store3_step store2_wf])

lemma sample_run: "live_step\<^sup>*\<^sup>* (empty_store ''u'') store3"
  using store0_step store1_step store2_step store3_step by (meson rtranclp.rtrancl_into_rtrancl rtranclp.rtrancl_refl)

section \<open>Invariant\<close>

text \<open>
  C1: every store reachable from the empty one by commits (also rejected and interrupted
  ones, and deletions of conversations, which the program makes through a commit), forks,
  creations and scheduler hand-overs satisfies the
  store invariant: conversation tables agree, entries form closed chains with globally
  unique ids, heads exist, submission ids are unique, tasks have their submission, effects
  have their task, the commit log is gap-free, every task has its complete history, and the
  derived indexes are sound. The one operation left out is the store's method
  \<open>delete_conversation\<close>, which no code of the program calls: it leaves the history and
  the index rows of the deleted tasks behind (\<open>direct_delete_leaves_history\<close>).
\<close>

theorem reachable_store_wf:
  assumes "store_step\<^sup>*\<^sup>* (empty_store uuid) s"
  shows "wf_store s"
  by (rule store_run_wf [OF assms wf_empty_store])

theorem reachable_store_wf_witness: "wf_store (snd (commit ''t1'' sample_submit store0))"
proof (rule reachable_store_wf [of "''u''"])
  have "store_step (empty_store ''u'') store0" "store_step store0 (snd (commit ''t1'' sample_submit store0))"
    using live_step_store_step [OF store0_step] live_step_store_step [OF store1_step] by (simp_all add: store1_def)
  then show "store_step\<^sup>*\<^sup>* (empty_store ''u'') (snd (commit ''t1'' sample_submit store0))"
    by (meson rtranclp.rtrancl_into_rtrancl rtranclp.rtrancl_refl)
qed

section \<open>Concurrency control\<close>

text \<open>
  C2: no lost update. Two writers name the same revision of a conversation; the first appends
  entries or moves the head and succeeds. Whatever other commits, creations, forks and
  scheduler hand-overs follow, short of a deletion, the second one, whatever it would write,
  is refused with the revision conflict and changes nothing.
\<close>

theorem commit_no_lost_update:
  assumes "wf_store s" and "mutation_ok a" and "dm_entries a \<noteq> [] \<or> dm_branch_entry_id a \<noteq> None"
    and "\<not> dm_delete_conversation a"
    and "dm_submission a = None" and "dm_create_conversation a = None"
    and "dm_submission b = None" and "dm_create_conversation b = None"
    and "dm_conversation_id a = dm_conversation_id b" and "dm_expected_revision a = dm_expected_revision b"
    and "commit now a s = (Inr r, s1)" and "live_step\<^sup>*\<^sup>* s1 s2"
  shows "commit later b s2 = (Inl (CommitConflict ''conversation revision changed''), s2)"
  using memory.no_lost_update [of s "(now, a)" "(later, b)" r s1 s2] assms
  by (simp add: moving_write_def plain_write_def)

theorem commit_no_lost_update_witness:
  "commit ''t3'' (sample_append ''e2'' None 0) (snd (commit ''t2'' (sample_append ''e3'' (Some ''e1'') 1)
      (snd (commit ''t1'' (sample_append ''e1'' None 0) store0))))
   = (Inl (CommitConflict ''conversation revision changed''), snd (commit ''t2'' (sample_append ''e3'' (Some ''e1'') 1)
      (snd (commit ''t1'' (sample_append ''e1'' None 0) store0))))"
proof -
  have "\<not> isl (fst (commit ''t1'' (sample_append ''e1'' None 0) store0))" by code_simp
  then obtain r where run: "commit ''t1'' (sample_append ''e1'' None 0) store0
      = (Inr r, snd (commit ''t1'' (sample_append ''e1'' None 0) store0))"
    by (metis isl_def old.sum.exhaust prod.collapse)
  have "mutation_ok (sample_append ''e3'' (Some ''e1'') 1)" "\<not> dm_delete_conversation (sample_append ''e3'' (Some ''e1'') 1)"
    by code_simp+
  note between = live_step.commit [OF this]
  show ?thesis
    by (rule commit_no_lost_update [OF store0_wf sample_mutations_ok(4) _ _ _ _ _ _ _ _ run r_into_rtranclp [of live_step, OF between]])
       (simp_all add: sample_append_def empty_mutation_def)
qed

section \<open>Atomicity\<close>

lemma each_s_nil: "bind_s (each_s f []) g = g ()"
  by (simp add: bind_s_def fun_eq_iff)

lemma commit_all_or_nothing:
  assumes "wf_store s" and "mutation_ok m" and "all_updates m = []"
    and "commit now m s = (Inl e, s')"
  shows "s' = s"
  using assms(4)
proof (cases rule: commit_cases)
  case (deleted revision)
  then show ?thesis by (simp add: commit_delete_form split: if_splits)
next
  case (written head revision)
  have "write_commit now m head revision s = (Inr (commit_answer now m revision s), commit_core now m head revision s)"
    using write_commit_form [OF assms(2) planned_write_entries [OF assms(1) written(1)]] assms(3)
    by (simp add: bind_s_def)
  with written(2) show ?thesis by simp
qed simp_all

text \<open>
  C20: a commit without submission updates is atomic: if it raises, the store is exactly
  what it was before.
\<close>

theorem commit_atomic:
  assumes "wf_store s" and "mutation_ok m" and "all_updates m = []"
    and "commit now m s = (Inl e, s')"
  shows "s' = s"
  by (rule commit_all_or_nothing [OF assms])

theorem commit_atomic_witness:
  "snd (commit ''t9'' (sample_append ''e1'' (Some ''missing'') 0) store0) = store0"
proof -
  have "isl (fst (commit ''t9'' (sample_append ''e1'' (Some ''missing'') 0) store0))" by code_simp
  then obtain e where run: "commit ''t9'' (sample_append ''e1'' (Some ''missing'') 0) store0
      = (Inl e, snd (commit ''t9'' (sample_append ''e1'' (Some ''missing'') 0) store0))"
    by (metis isl_def prod.collapse)
  have "mutation_ok (sample_append ''e1'' (Some ''missing'') 0)" "all_updates (sample_append ''e1'' (Some ''missing'') 0) = []"
    by code_simp+
  from commit_atomic [OF store0_wf this run] show ?thesis .
qed

definition late_failure :: durable_mutation where
  "late_failure = (empty_mutation ''main'' 0)
     \<lparr>dm_entries := [sample_entry ''main'' ''e1'' None None],
      dm_sub_update := Some
        \<lparr>su_submission_id = ''s-t1'', su_conversation_id = ''main'', su_expected_status = SubQueued,
         su_status = SubDone, su_answer_entry_id = None, su_reason = None, su_detail = None,
         su_input_entry_id = Some ''e1'', su_placement = Some PlacementPlaced, su_content = None, su_mode = None\<rparr>\<rparr>"

text \<open>
  With submission updates a commit of the memory store is not atomic. An accepted
  update can mark a \<open>follow_up\<close> input as done that only names an input entry; the
  record constructor then raises after the sequence number, the commit log and the entries
  have been written.
\<close>

lemma commit_updates_not_atomic:
  "submission_update_init (the (dm_sub_update late_failure)) = Inr (the (dm_sub_update late_failure))
   \<and> mutation_ok late_failure
   \<and> fst (commit ''t2'' late_failure store1) = Inl (ValueError ''completed submissions require an answer entry'')
   \<and> st_sequence (snd (commit ''t2'' late_failure store1)) = st_sequence store1 + 1"
  by code_simp

end
