(* ===== verification/Store_Guarantees.thy ===== *)
theory Store_Guarantees
  imports Store_Properties
begin

text \<open>
  Guarantees of the durable store on the rows it keeps: results and idempotency of commits,
  the life of checkpoints, effects and submissions, complete histories and indexes,
  deletion, and the exclusive scheduler owner.
\<close>

section \<open>Results and idempotency\<close>

text \<open>Each row of a list lies under its key in the new table, all other keys are as before.\<close>

definition rows_put :: "('v \<Rightarrow> string) \<Rightarrow> 'v list \<Rightarrow> (string, 'v) dict \<Rightarrow> (string, 'v) dict \<Rightarrow> bool" where
  "rows_put key rows d d' = ((\<forall>r\<in>set rows. map_of d' (key r) = Some r)
     \<and> (\<forall>k. k \<notin> key ` set rows \<longrightarrow> map_of d' k = map_of d k))"

lemma rows_put_dupdate:
  assumes "distinct (map key rows)"
  shows "rows_put key rows d (dupdate (map (\<lambda>r. (key r, r)) rows) d)"
  unfolding rows_put_def dupdate_keyed [OF assms]
proof (intro conjI ballI allI impI)
  fix r
  assume r: "r \<in> set rows"
  from assms show "(case filter (\<lambda>t. key t = key r) rows of [] \<Rightarrow> map_of d (key r) | t # _ \<Rightarrow> Some t) = Some r"
  proof (cases rule: filter_key_cases [where k = "key r"])
    case absent
    with r show ?thesis by (auto simp: filter_empty_conv)
  next
    case (present x)
    with assms r have "x = r" by (auto simp: distinct_map inj_on_def)
    with present(1) show ?thesis by simp
  qed
next
  fix k
  assume "k \<notin> key ` set rows"
  then have "filter (\<lambda>t. key t = k) rows = []" by (auto simp: filter_empty_conv)
  then show "(case filter (\<lambda>t. key t = k) rows of [] \<Rightarrow> map_of d k | t # _ \<Rightarrow> Some t) = map_of d k" by simp
qed




text \<open>The mappings of a draft are Python dicts of strict JSON: distinct keys, no NaN.\<close>

definition proper_draft :: "submission_draft \<Rightarrow> bool" where
  "proper_draft d = ((case sd_entry d of None \<Rightarrow> True | Some e \<Rightarrow> proper (PDict (ed_payload e)))
     \<and> proper (PDict (or_empty (sd_content d))))"

lemma same_submission_refl: "proper_draft d \<Longrightarrow> same_submission d d"
  using py_eq_refl by (auto simp: proper_draft_def same_submission_def obj_eq_def simp del: py_eq_dict split: option.splits)

lemma existing_after_write:
  assumes "wf_store s" and "mutation_ok m" and "commit_plan_of s m = Inr (Write head revision)"
    and "dm_submission m = Some d" and "sd_status d = SubQueued" and "sd_reason d = None" and "proper_draft d"
  shows "existing_submission (commit_core now m head revision s) (Some d) =
     Inr (Some \<lparr>cres_revision = new_revision m revision, cres_sequence = st_sequence s + 1,
                cres_submission_id = Some (sd_submission_id d), cres_record = None\<rparr>)"
  using assms(2)
proof (cases rule: put_submission_cases [where n = "new_revision m revision" and r = "commit_row now m s" and s = s])
  case (some d' i)
  have d': "d' = d" using some(1) assms(4) by simp
  have cid: "sd_conversation_id d = dm_conversation_id m" using mutation_okD(6) [OF assms(2)] assms(4) by simp
  have look: "map_of (st_submissions (commit_core now m head revision s)) (sd_conversation_id d, sd_request_id d) = Some i"
    unfolding commit_core_submissions committed_submissions_def some(2) d' cid by simp
  have "submission_draft_init d = Inr d"
    using assms(2,4) by (simp add: mutation_ok_def submission_ok_def opt_list_def)
  then have "submission_draft_init
      \<lparr>sd_submission_id = sr_submission_id (si_record i), sd_request_id = sd_request_id d,
       sd_conversation_id = sd_conversation_id d, sd_entry = si_entry i, sd_fingerprint = si_fingerprint i,
       sd_status = SubQueued, sd_placement = sr_placement (si_record i), sd_mode = sr_mode (si_record i),
       sd_content = sr_content (si_record i), sd_reason = None\<rparr> = Inr d"
    using some(3-12) assms(5,6) d' by (cases d) simp
  with look same_submission_refl [OF assms(7)] some(12) d' show ?thesis
    by (simp add: existing_submission_def)
qed (use assms(4) in simp)

text \<open>
  C38: admission is idempotent. After a queued submission without a reason, with proper JSON
  content, was committed by a mutation without updates, committing the same submission again on
  the store it left, with whatever expected revision and whatever else the mutation
  carries, returns the revision and sequence number of the first commit and changes
  nothing.
\<close>

theorem resubmission_idempotent:
  assumes "wf_store s" and "mutation_ok m" and "all_updates m = []" and "\<not> dm_delete_conversation m"
    and "dm_submission m = Some d" and "sd_status d = SubQueued" and "sd_reason d = None" and "proper_draft d"
    and "commit now m s = (Inr r, s')" and "s' \<noteq> s"
    and "mutation_ok m'" and "dm_submission m' = Some d" and "\<not> dm_delete_conversation m'"
  shows "commit later m' s' = (Inr (r\<lparr>cres_record := None\<rparr>), s')"
  using assms(9)
proof (cases rule: commit_cases)
  case (deleted revision)
  with planned_delete(3) [OF deleted(1) assms(2)] assms(4) show ?thesis by blast
next
  case (written head revision)
  have form: "write_commit now m head revision s = (Inr (commit_answer now m revision s), commit_core now m head revision s)"
    using write_commit_form [OF assms(2) planned_write_entries [OF assms(1) written(1)]] assms(3)
    by (simp add: bind_s_def)
  with written(2) have s': "s' = commit_core now m head revision s" and r: "r = commit_answer now m revision s" by simp_all
  have ex: "existing_submission s' (Some d) = Inr (Some (r\<lparr>cres_record := None\<rparr>))"
    unfolding s' r existing_after_write [OF assms(1,2) written(1) assms(5-8)]
    by (simp add: commit_answer_def result_submission_id_def assms(3,5))
  have "dm_conversation_id m' = dm_conversation_id m"
    using mutation_okD(6) [OF assms(2)] mutation_okD(6) [OF assms(11)] assms(5,12) by simp
  then have "has_key (dm_conversation_id m') (st_heads s')" by (simp add: s' commit_core_fields)
  then obtain h n where "map_of (st_heads s') (dm_conversation_id m') = Some (h, n)" by (auto simp: has_key_def)
  then have "commit_plan_of s' m' = Inr (Answer (r\<lparr>cres_record := None\<rparr>))"
    using ex assms(12,13)
    by (auto simp: commit_plan_of_def plan_creation_def plan_at_def conversation_def split: option.splits)
  then show ?thesis by (simp add: commit_def)
qed (use assms(10) in auto)

theorem resubmission_idempotent_witness:
  "\<exists>r. commit ''t1'' sample_submit store0 = (Inr r, store1)
     \<and> commit ''t9'' sample_submit store1 = (Inr (r\<lparr>cres_record := None\<rparr>), store1)"
proof -
  have "\<not> isl (fst (commit ''t1'' sample_submit store0))" by code_simp
  then obtain r where run: "commit ''t1'' sample_submit store0 = (Inr r, store1)"
    unfolding store1_def by (metis isl_def old.sum.exhaust prod.collapse)
  have "st_sequence store1 = 1" "st_sequence store0 = 0" by code_simp+
  then have "store1 \<noteq> store0" by auto
  moreover have "mutation_ok sample_submit" "all_updates sample_submit = []" "\<not> dm_delete_conversation sample_submit"
    "dm_submission sample_submit = Some sample_draft" "sd_status sample_draft = SubQueued"
    "sd_reason sample_draft = None" "proper_draft sample_draft" by code_simp+
  ultimately show ?thesis using resubmission_idempotent [OF store0_wf _ _ _ _ _ _ _ run] run by blast
qed

section \<open>Checkpoints\<close>

lemma task_update_phase:
  assumes "task_update a b" shows "tc_phase b = tc_phase a \<or> task_phase_step (tc_phase a) (tc_phase b) \<or> tc_phase a = ''accepted''"
proof -
  from assms obtain ex where "validate_task_update a b ex = Inr ()" by (auto simp: task_update_def)
  from validate_task_updateD(7) [OF this] show ?thesis
    by (auto simp: valid_input_consumption_def task_phase_step_def)
qed

lemma task_update_status:
  assumes "task_update a b" shows "task_status_step (tc_status a) (tc_status b) \<or> tc_status a = Pending"
proof -
  from assms obtain ex where "validate_task_update a b ex = Inr ()" by (auto simp: task_update_def)
  from validate_task_updateD(7) [OF this] show ?thesis
    by (cases "tc_status a") (auto simp: valid_input_consumption_def task_status_step_def)
qed

lemma terminal_not_accepted: "terminal_phase p \<Longrightarrow> p \<noteq> ''accepted''"
  by (auto simp: terminal_phase_def)

lemma task_updates_terminal:
  assumes "task_update\<^sup>*\<^sup>* a b" and "terminal_phase (tc_phase a)" and "terminal_status (tc_status a)"
  shows "tc_phase b = tc_phase a \<and> tc_status b = tc_status a"
  using assms(1)
proof (induction rule: rtranclp_induct)
  case (step b c)
  from step.IH assms(2,3) have t: "terminal_phase (tc_phase b)" "terminal_status (tc_status b)" by simp_all
  from task_update_phase [OF step.hyps(2)] terminal_not_accepted [OF t(1)] task_phase.final_step [OF t(1)]
  have "tc_phase c = tc_phase b" by blast
  moreover from task_update_status [OF step.hyps(2)] t(2) task_status.final_step [OF t(2)]
  have "tc_status c = tc_status b" by (auto simp: terminal_status_def TASK_TERMINAL_STATUSES_def)
  ultimately show ?case using step.IH by simp
qed simp

lemma task_updates_identity:
  assumes "task_update\<^sup>*\<^sup>* a b"
  shows "tc_task_id b = tc_task_id a \<and> tc_conversation_id b = tc_conversation_id a
    \<and> tc_submission_id b = tc_submission_id a \<and> tc_revision a \<le> tc_revision b"
  using assms
proof (induction rule: rtranclp_induct)
  case (step b c)
  from step.hyps(2) obtain ex where v: "validate_task_update b c ex = Inr ()" "tc_task_id c = tc_task_id b"
    by (auto simp: task_update_def)
  from validate_task_updateD(2-4) [OF v(1)] v(2) step.IH show ?case by simp
qed simp

text \<open>
  C22: along any run without deletion a task keeps its identity (id, conversation and
  submission), its revision never decreases, and once it is completed, failed or cancelled
  its phase and scheduler status never change again.
\<close>

theorem task_terminal_forever:
  assumes "wf_store s" and "live_step\<^sup>*\<^sup>* s s'" and "map_of (st_tasks s) tid = Some t"
  shows "\<exists>t'. map_of (st_tasks s') tid = Some t' \<and> tc_task_id t' = tid
    \<and> tc_conversation_id t' = tc_conversation_id t \<and> tc_submission_id t' = tc_submission_id t
    \<and> tc_revision t \<le> tc_revision t'
    \<and> (tc_phase t \<in> {''completed'', ''failed'', ''cancelled''} \<longrightarrow> tc_phase t' = tc_phase t \<and> tc_status t' = tc_status t)"
proof -
  from live_run_task [OF assms(2,1,3)] obtain t' where
    t': "map_of (st_tasks s') tid = Some t'" "task_update\<^sup>*\<^sup>* t t'" by blast
  have ok: "checkpoint_ok t" "tc_task_id t = tid"
    using wf_storeD(3) [OF assms(1)] assms(3) by (auto simp: wf_tasks_def keyed_by_def ran_def)
  have "terminal_status (tc_status t)" if "terminal_phase (tc_phase t)"
  proof -
    from ok(1) have "tc_phase t \<in> set [''completed'', ''failed'', ''cancelled''] \<longrightarrow> tc_status t \<in> set TASK_TERMINAL_STATUSES"
      unfolding checkpoint_ok_iff checkpoint_guards_def by blast
    with that show ?thesis by (simp only: terminal_phase_def terminal_status_def)
  qed
  with task_updates_terminal [OF t'(2)] task_updates_identity [OF t'(2)] t'(1) ok(2) show ?thesis
    by (auto simp: terminal_phase_def)
qed


lemma lookup_task_store3: "map_option (\<lambda>t. (tc_phase t, tc_status t)) (map_of (st_tasks store3) ''t1'') = Some (''failed'', Failed)"
  by code_simp

theorem task_terminal_forever_witness:
  "\<exists>t'. map_of (st_tasks (snd (create_conversation ''other'' None None store3))) ''t1'' = Some t'
     \<and> tc_phase t' = ''failed'' \<and> tc_status t' = Failed"
proof -
  obtain t where t: "map_of (st_tasks store3) ''t1'' = Some t" "tc_phase t = ''failed''" "tc_status t = Failed"
    using lookup_task_store3 by auto
  have "live_step\<^sup>*\<^sup>* store3 (snd (create_conversation ''other'' None None store3))"
    by (rule r_into_rtranclp) (rule live_step.create)
  from task_terminal_forever [OF store3_wf this t(1)] t(2,3) show ?thesis by auto
qed

text \<open>The token that a mutation vouches for in its update of a task.\<close>

definition fence_token :: "durable_mutation \<Rightarrow> task_checkpoint \<Rightarrow> string" where
  "fence_token m t =
     (if dm_task m = Some t then (case dm_expected_attempt_token m of None \<Rightarrow> [] | Some e \<Rightarrow> e) else [])"

lemma stored_token:
  assumes "checkpoint_ok old"
  shows "pget_default (tc_state old) ''attempt_token'' (PStr []) = PStr (attempt_token old)"
proof -
  have "validate_attempt (thaw_obj (tc_state old)) = Inr ()" "freeze_obj (thaw_obj (tc_state old)) = tc_state old"
    using assms unfolding checkpoint_ok_iff checkpoint_guards_def by blast+
  then have "\<exists>tok. pget_default (thaw_obj (tc_state old)) ''attempt_token'' (PStr []) = PStr tok"
    by (auto simp: validate_attempt_def split: option.splits elim!: as_str.elims)
  then obtain tok where tok: "pget_default (freeze_obj (thaw_obj (tc_state old))) ''attempt_token'' (PStr []) = PStr tok"
    by (auto simp: pget_default_def map_of_freeze_obj split: option.splits)
  with \<open>freeze_obj (thaw_obj (tc_state old)) = tc_state old\<close> show ?thesis
    by (auto simp: attempt_token_def pget_def pget_default_def split: option.splits)
qed

lemma fenced_task:
  assumes "checkpoint_ok old" and "map_of (st_tasks s) (tc_task_id t) = Some old"
    and "validate_task s proposed expected t = Inr ()"
  shows "attempt_token old = (case expected of None \<Rightarrow> [] | Some e \<Rightarrow> e)"
  using validate_task_updateD(1) [OF validate_task_old [OF assms(3,2)]] stored_token [OF assms(1)]
  by (auto simp: valid_execution_attempt_def Let_def split: if_splits)

lemma plan_write_fenced:
  assumes "validate_commit_mutation s m head = Inr ()" and "t \<in> set (all_tasks m)"
    and "checkpoint_ok old" and "map_of (st_tasks s) (tc_task_id t) = Some old"
  shows "attempt_token old = fence_token m t"
proof (cases "dm_task m = Some t")
  case True
  with fenced_task [OF assms(3,4) validate_commit_mutationD(3) [OF assms(1) True]] show ?thesis
    by (simp add: fence_token_def)
next
  case False
  with assms(2) have "t \<in> set (dm_task_updates m)" by (auto simp: all_tasks_def opt_list_def split: option.splits)
  with fenced_task [OF assms(3,4) validate_commit_mutationD(4) [OF assms(1)]] False show ?thesis
    by (simp add: fence_token_def)
qed

lemma deletes_no_task:
  assumes "mutation_ok m" and "dm_delete_conversation m" shows "all_tasks m = []"
  using assms(2) mutation_ok_shape [OF assms(1)]
  by (auto simp: durable_mutation_init_def validate_mutation_shape_def carries_changes_def carries_side_changes_def
      all_tasks_def opt_list_def split: option.splits if_splits)

lemma answered_noop:
  assumes "dm_submission m = None" and "commit_plan_of s m = Inr (Answer r)"
  shows "is_noop m"
  using assms by (auto simp: commit_plan_of_def plan_creation_def plan_at_def existing_submission_def
      split: prod.splits if_splits option.splits)

lemma noop_no_task: "is_noop m \<Longrightarrow> all_tasks m = []"
  by (simp add: is_noop_def all_tasks_def opt_list_def)

lemma commit_fenced:
  assumes "wf_store s" and "mutation_ok m" and "t \<in> set (all_tasks m)"
    and "map_of (st_tasks s) (tc_task_id t) = Some old" and "attempt_token old \<noteq> fence_token m t"
  shows "snd (commit now m s) = s \<and> (dm_submission m = None \<longrightarrow> (\<exists>e. fst (commit now m s) = Inl e))"
proof -
  have old: "checkpoint_ok old" using wf_storeD(3) [OF assms(1)] assms(4) by (auto simp: wf_tasks_def ran_def)
  obtain res s' where run: "commit now m s = (res, s')" by fastforce
  then show ?thesis
  proof (cases rule: commit_cases)
    case (answered r)
    have "dm_submission m \<noteq> None" using answered_noop [OF _ answered(1)] noop_no_task [of m] assms(3) by fastforce
    with answered run show ?thesis by simp
  next
    case (deleted revision)
    with deletes_no_task [OF assms(2) planned_delete(3) [OF deleted(1) assms(2)]] assms(3) show ?thesis by simp
  next
    case (written head revision)
    from plan_write_fenced [OF planned_write(3) [OF written(1)] assms(3) old assms(4)] assms(5) show ?thesis by blast
  qed (use run in auto)
qed

text \<open>
  C15: fencing. A commit that updates a stored task, as its own task or among the further
  task updates, changes nothing unless it vouches for the attempt token that the stored
  checkpoint carries: the expected token for its own task, no token at all for the others.
  Such a commit is rejected; only a resubmission is still answered from the stored result.
\<close>

theorem attempt_token_fences:
  assumes "wf_store s" and "mutation_ok m" and "map_of (st_tasks s) (tc_task_id t) = Some old"
    and "dm_task m = Some t \<and> attempt_token old \<noteq> (case dm_expected_attempt_token m of None \<Rightarrow> [] | Some e \<Rightarrow> e)
       \<or> t \<in> set (dm_task_updates m) \<and> attempt_token old \<noteq> []"
  shows "snd (commit now m s) = s \<and> (dm_submission m = None \<longrightarrow> (\<exists>e. fst (commit now m s) = Inl e))"
proof (rule commit_fenced [OF assms(1,2) _ assms(3)])
  show "t \<in> set (all_tasks m)" using assms(4) by (auto simp: all_tasks_def opt_list_def)
  have "dm_task m \<noteq> Some t" if "t \<in> set (dm_task_updates m)"
    using mutation_okD(3) [OF assms(2)] that by (auto simp: all_tasks_def opt_list_def)
  with assms(4) show "attempt_token old \<noteq> fence_token m t" by (auto simp: fence_token_def)
qed

text \<open>The task runs under the token \<open>tok-1\<close>; a worker of an older attempt reports its progress.\<close>

definition attempt_state :: "string \<Rightarrow> int \<Rightarrow> jobj" where
  "attempt_state tok n =
     [(''input_mode'', PStr ''follow_up''), (''waiting_on'', PTuple []), (''attempt_token'', PStr tok),
      (''attempt_owner'', PStr ''owner-a''), (''attempt_process_id'', PInt 7), (''attempt_number'', PInt n)]"

definition attempt_step :: "string \<Rightarrow> string \<Rightarrow> int \<Rightarrow> durable_mutation" where
  "attempt_step expected tok revision = (sample_task_step ''running'' revision [] [])
     \<lparr>dm_task := Some ((sample_task ''t1'' ''running'' revision)\<lparr>tc_state := attempt_state tok 1\<rparr>),
      dm_expected_attempt_token := Some expected\<rparr>"

definition claimed_store :: store where
  "claimed_store = snd (commit ''t2'' (attempt_step [] ''tok-1'' 1) store1)"

theorem attempt_token_fences_witness:
  "\<exists>e. commit ''t3'' (attempt_step ''tok-0'' ''tok-1'' 2) claimed_store = (Inl e, claimed_store)"
proof -
  have "mutation_ok (attempt_step [] ''tok-1'' 1)" "\<not> dm_delete_conversation (attempt_step [] ''tok-1'' 1)" by code_simp+
  then have wf: "wf_store claimed_store"
    unfolding claimed_store_def by (intro live_step_wf [OF live_step.commit store1_wf])
  have "map_option attempt_token (map_of (st_tasks claimed_store) ''t1'') = Some ''tok-1''" by code_simp
  then obtain old where old: "map_of (st_tasks claimed_store) ''t1'' = Some old" "attempt_token old = ''tok-1''" by auto
  let ?m = "attempt_step ''tok-0'' ''tok-1'' 2" and ?t = "(sample_task ''t1'' ''running'' 2)\<lparr>tc_state := attempt_state ''tok-1'' 1\<rparr>"
  have m: "mutation_ok ?m" "dm_submission ?m = None" by code_simp+
  have "map_of (st_tasks claimed_store) (tc_task_id ?t) = Some old"
    "dm_task ?m = Some ?t \<and> attempt_token old \<noteq> (case dm_expected_attempt_token ?m of None \<Rightarrow> [] | Some e \<Rightarrow> e)
       \<or> ?t \<in> set (dm_task_updates ?m) \<and> attempt_token old \<noteq> []"
    using old by (simp_all add: attempt_step_def sample_task_step_def sample_task_def)
  from attempt_token_fences [OF wf m(1) this, of "''t3''"] m(2) show ?thesis by (metis prod.collapse)
qed

section \<open>Effects, submissions and entries\<close>

lemma live_run_settled_effect:
  assumes "wf_store s" and "live_step\<^sup>*\<^sup>* s s'" and "map_of (st_effects s) eid = Some e" and "ef_settlement e \<noteq> None"
  shows "map_of (st_effects s') eid = Some e"
  using assms(2,1)
proof (induction rule: live_run_induct)
  case (step a b)
  with live_step_settled_effect [OF step(3,2)] assms(4) show ?case by blast
qed (rule assms(3))

text \<open>
  C14: a settled effect is final: along any run without deletion its record stays exactly
  as it was settled.
\<close>

theorem settled_effect_immutable:
  assumes "wf_store s" and "live_step\<^sup>*\<^sup>* s s'" and "map_of (st_effects s) eid = Some e" and "ef_settlement e \<noteq> None"
  shows "map_of (st_effects s') eid = Some e"
  by (rule live_run_settled_effect [OF assms])

theorem settled_effect_immutable_witness:
  "\<exists>e. map_of (st_effects store3) ''f1'' = Some e \<and> ef_settlement e \<noteq> None
     \<and> map_of (st_effects (snd (commit ''t4'' (sample_append ''e1'' None 0) store3))) ''f1'' = Some e"
proof -
  have "map_option (\<lambda>e. ef_settlement e \<noteq> None) (map_of (st_effects store3) ''f1'') = Some True" by code_simp
  then obtain e where e: "map_of (st_effects store3) ''f1'' = Some e" "ef_settlement e \<noteq> None" by auto
  have "live_step store3 (snd (commit ''t4'' (sample_append ''e1'' None 0) store3))"
    by (rule live_step.commit) (code_simp+)
  from settled_effect_immutable [OF store3_wf r_into_rtranclp [of live_step, OF this] e] e show ?thesis by blast
qed

lemma submission_progress_trans:
  assumes "submission_progress a b" and "valid_submission_transition\<^sup>*\<^sup>* (sr_status z) (sr_status a)"
  shows "valid_submission_transition\<^sup>*\<^sup>* (sr_status z) (sr_status b)"
  using assms unfolding submission_progress_def by (metis rtranclp.rtrancl_into_rtrancl)

text \<open>
  C23: along any run without deletion a submission keeps its row, its ids and its request;
  its status only follows the submission table, so a finished one never changes status
  again; and once its input is placed in the conversation it never returns to the queue.
\<close>

theorem submission_only_progresses:
  assumes "wf_store s" and "live_step\<^sup>*\<^sup>* s s'" and "map_of (st_submissions s) k = Some i"
  shows "\<exists>i'. map_of (st_submissions s') k = Some i'
    \<and> sr_submission_id (si_record i') = sr_submission_id (si_record i)
    \<and> sr_request_id (si_record i') = sr_request_id (si_record i)
    \<and> valid_submission_transition\<^sup>*\<^sup>* (sr_status (si_record i)) (sr_status (si_record i'))
    \<and> (SUBMISSION_TRANSITIONS (sr_status (si_record i)) = [] \<longrightarrow> sr_status (si_record i') = sr_status (si_record i))
    \<and> (sr_placement (si_record i) = PlacementPlaced \<longrightarrow> sr_placement (si_record i') = PlacementPlaced)"
proof -
  have "\<exists>i'. map_of (st_submissions s') k = Some i'
    \<and> sr_submission_id (si_record i') = sr_submission_id (si_record i)
    \<and> sr_request_id (si_record i') = sr_request_id (si_record i)
    \<and> valid_submission_transition\<^sup>*\<^sup>* (sr_status (si_record i)) (sr_status (si_record i'))
    \<and> (sr_placement (si_record i) = PlacementPlaced \<longrightarrow> sr_placement (si_record i') = PlacementPlaced)"
    using assms(2,1)
  proof (induction rule: live_run_induct)
    case (step a b)
    then obtain x where x: "map_of (st_submissions a) k = Some x"
      "sr_submission_id (si_record x) = sr_submission_id (si_record i)"
      "sr_request_id (si_record x) = sr_request_id (si_record i)"
      "valid_submission_transition\<^sup>*\<^sup>* (sr_status (si_record i)) (sr_status (si_record x))"
      "sr_placement (si_record i) = PlacementPlaced \<longrightarrow> sr_placement (si_record x) = PlacementPlaced" by blast
    from live_step_submission [OF step(3,2) x(1)] obtain y where
      y: "map_of (st_submissions b) k = Some y" "y = x \<or> submission_progress (si_record x) (si_record y)" by blast
    from y(2) show ?case
    proof
      assume p: "submission_progress (si_record x) (si_record y)"
      with submission_progress_trans [OF p x(4)] y(1) x show ?thesis by (auto simp: submission_progress_def)
    qed (use y(1) x in blast)
  qed (use assms(3) in auto)
  with submissions.final_absorbing show ?thesis unfolding submission_final_def by blast
qed

theorem submission_only_progresses_witness:
  "\<exists>i'. map_of (st_submissions store3) (''main'', ''r1'') = Some i' \<and> sr_submission_id (si_record i') = ''s-t1''"
proof -
  have "map_option (\<lambda>i. sr_submission_id (si_record i)) (map_of (st_submissions store1) (''main'', ''r1'')) = Some ''s-t1''"
    by code_simp
  then obtain i where i: "map_of (st_submissions store1) (''main'', ''r1'') = Some i" "sr_submission_id (si_record i) = ''s-t1''"
    by auto
  have "live_step\<^sup>*\<^sup>* store1 store3" using store2_step store3_step by auto
  from submission_only_progresses [OF store1_wf this i(1)] i(2) show ?thesis by auto
qed

text \<open>
  C24: conversations are append-only: along any run without deletion the entries of a
  conversation are a prefix of what it later holds.
\<close>

theorem entries_append_only:
  assumes "wf_store s" and "live_step\<^sup>*\<^sup>* s s'" and "map_of (st_entries s) cid = Some rows"
  shows "\<exists>more. map_of (st_entries s') cid = Some (rows @ more)"
  using assms(2,1)
proof (induction rule: live_run_induct)
  case (step a b)
  then obtain more where "map_of (st_entries a) cid = Some (rows @ more)" by blast
  from live_step_entries [OF step(3,2) this] show ?case by auto
qed (use assms(3) in auto)

theorem entries_append_only_witness:
  "\<exists>more. map_of (st_entries store3) ''main'' = Some ([] @ more)"
proof -
  have "map_of (st_entries store0) ''main'' = Some []" by code_simp
  moreover have "live_step\<^sup>*\<^sup>* store0 store3" using store1_step store2_step store3_step
    by (meson rtranclp.rtrancl_into_rtrancl rtranclp.rtrancl_refl)
  ultimately show ?thesis using entries_append_only [OF store0_wf] by blast
qed

end
