(* ===== verification/Store_Queries.thy ===== *)
theory Store_Queries
  imports Store_Guarantees
begin

text \<open>
  What the reads of the durable store return in a well-formed store: histories, dependents,
  entry paths; and the methods that remove a conversation or hand over the scheduler.
\<close>

section \<open>History\<close>

lemma task_history_points: "task_history s tid None = points_of s tid"
  by (simp add: task_history_def points_of_def)

lemma task_history_through: "task_history s tid (Some n) = filter (\<lambda>p. tt_commit_seq p \<le> n) (points_of s tid)"
  by (simp add: task_history_def points_of_def)

lemma snapshot_at_Some: "points \<noteq> [] \<Longrightarrow> \<exists>snap. snapshot_at points = Inr snap \<and> ts_task snap = tt_task (last points)
    \<and> ts_commit_seq snap = tt_commit_seq (last points)"
  by (simp add: snapshot_at_def Let_def)

text \<open>
  C28: the private history of a task is complete and its replay is exact. It has one
  transition per revision from 0 to the current one, the snapshot of the whole history is
  the current checkpoint, and a snapshot at an earlier cursor never shows a commit behind
  that cursor.
\<close>

theorem history_replays_task:
  assumes "wf_store s" and "map_of (st_tasks s) tid = Some t"
  shows "map (\<lambda>p. tc_revision (tt_task p)) (task_history s tid None) = [0..tc_revision t]
    \<and> (\<exists>snap. snapshot_at (task_history s tid None) = Inr snap \<and> ts_task snap = t)
    \<and> (\<forall>n snap. snapshot_at (task_history s tid (Some n)) = Inr snap \<longrightarrow>
          ts_commit_seq snap \<le> n \<and> tc_task_id (ts_task snap) = tid \<and> tc_revision (ts_task snap) \<le> tc_revision t)"
proof -
  have h: "history_of (st_sequence s) t (points_of s tid)" and id: "tc_task_id t = tid"
    using wf_storeD(3,7) [OF assms(1)] assms(2) by (auto simp: wf_history_def wf_tasks_def keyed_by_def)
  have "ts_commit_seq snap \<le> n \<and> tc_task_id (ts_task snap) = tid \<and> tc_revision (ts_task snap) \<le> tc_revision t"
    if snap: "snapshot_at (task_history s tid (Some n)) = Inr snap" for n snap
  proof -
    let ?ps = "filter (\<lambda>p. tt_commit_seq p \<le> n) (points_of s tid)"
    have ne: "?ps \<noteq> []" using snap by (auto simp: task_history_through snapshot_at_def)
    then have mem: "last ?ps \<in> set ?ps" by (rule last_in_set)
    then have p: "tt_commit_seq (last ?ps) \<le> n" "last ?ps \<in> set (points_of s tid)" by auto
    from h have revs: "map (\<lambda>p. tc_revision (tt_task p)) (points_of s tid) = [0..tc_revision t]"
      by (simp only: history_of_def)
    have "tc_revision (tt_task (last ?ps)) \<in> set (map (\<lambda>p. tc_revision (tt_task p)) (points_of s tid))" using p(2) by auto
    then have "tc_revision (tt_task (last ?ps)) \<le> tc_revision t" unfolding revs by simp
    with p h id ne snap show ?thesis by (auto simp: task_history_through snapshot_at_def Let_def history_of_def)
  qed
  moreover have "\<exists>snap. snapshot_at (points_of s tid) = Inr snap \<and> ts_task snap = t"
    using h snapshot_at_Some [of "points_of s tid"] by (auto simp: history_of_def)
  ultimately show ?thesis using h by (simp add: task_history_points history_of_def)
qed

theorem history_replays_task_witness:
  "\<exists>t. map_of (st_tasks store3) ''t1'' = Some t
     \<and> map (\<lambda>p. tc_revision (tt_task p)) (task_history store3 ''t1'' None) = [0..2]
     \<and> (\<exists>snap. snapshot_at (task_history store3 ''t1'' None) = Inr snap \<and> ts_task snap = t)"
proof -
  have "map_option tc_revision (map_of (st_tasks store3) ''t1'') = Some 2" by code_simp
  then obtain t where t: "map_of (st_tasks store3) ''t1'' = Some t" "tc_revision t = 2" by auto
  from history_replays_task [OF store3_wf t(1)] t show ?thesis by auto
qed

section \<open>Dependents\<close>

lemma finite_indexed:
  assumes "index_exact keys_of d ts" shows "finite (get_set d k)"
proof -
  have "get_set d k \<subseteq> dom (map_of ts)" using assms by (auto simp: index_exact_def)
  then show ?thesis by (rule finite_subset) (rule finite_dom_map_of)
qed

lemma finite_finalization:
  assumes "wf_finalization s" shows "finite (st_finalization s)"
proof -
  have "st_finalization s \<subseteq> dom (map_of (st_tasks s))" using assms by (auto simp: wf_finalization_def)
  then show ?thesis by (rule finite_subset) (rule finite_dom_map_of)
qed

lemma live_run_exact:
  assumes "live_step\<^sup>*\<^sup>* s s'" and "wf_store s" and "exact_indexes s" shows "exact_indexes s'"
  using assms(1,2) by (induction rule: live_run_induct) (use assms(3) live_step_exact in auto)

lemma exact_empty: "exact_indexes (empty_store uuid)"
  by (simp add: exact_indexes_def index_exact_def get_set_def empty_store_def)

text \<open>
  C39: the derived indexes answer exactly. In a store reached without deletion, the waiting
  dependents of a task are the tasks that wait on it, the owned dependents those it owns,
  and the finalization queue lists, sorted, the tasks that are completing or waiting.
\<close>

theorem dependents_exact:
  assumes "live_step\<^sup>*\<^sup>* (empty_store uuid) s"
  shows "set (waiting_dependents s tid) = {t. (\<exists>k. map_of (st_tasks s) k = Some t) \<and> tid \<in> set (waiting_on t)}
    \<and> set (owned_dependents s tid) = {t. (\<exists>k. map_of (st_tasks s) k = Some t) \<and> owner_task_id t = Some tid}
    \<and> sorted (finalization_queue s)
    \<and> set (finalization_queue s) = {k. \<exists>t. map_of (st_tasks s) k = Some t \<and> tc_status t \<in> {Completing, Waiting}}"
proof -
  have wf: "wf_store s" by (rule live_run_wf [OF assms wf_empty_store])
  have ex: "exact_indexes s" by (rule live_run_exact [OF assms wf_empty_store exact_empty])
  have t: "distinct (dkeys (st_tasks s))" "keyed_by tc_task_id (st_tasks s)"
    using wf_storeD(3) [OF wf] by (simp_all add: wf_tasks_def)
  have w: "index_exact waiting_on (st_waiters s) (st_tasks s)"
    and o: "index_exact (\<lambda>t. opt_list (owner_task_id t)) (st_owners s) (st_tasks s)"
    using ex by (simp_all add: exact_indexes_def)
  have waiting: "set (waiting_dependents s tid) = {t. (\<exists>k. map_of (st_tasks s) k = Some t) \<and> tid \<in> set (waiting_on t)}"
    unfolding waiting_dependents_def waiters.lookup_exact [OF w t] by (auto simp: ran_def)
  have owned: "set (owned_dependents s tid) = {t. (\<exists>k. map_of (st_tasks s) k = Some t) \<and> owner_task_id t = Some tid}"
    unfolding owned_dependents_def set_map_filter set_sorted_list_of_set [OF finite_indexed [OF o]]
    using o by (auto simp: index_exact_def opt_list_def split: option.splits) metis
  have fin: "wf_finalization s" using wf_storeD(8) [OF wf] by (simp add: wf_indexes_def)
  then have "set (finalization_queue s) = {k. \<exists>t. map_of (st_tasks s) k = Some t \<and> tc_status t \<in> {Completing, Waiting}}"
    unfolding finalization_queue_def set_sorted_list_of_set [OF finite_finalization [OF fin]]
    by (simp add: wf_finalization_def finalizing_def)
  with waiting owned show ?thesis by (simp add: finalization_queue_def)
qed

theorem dependents_exact_witness:
  "set (waiting_dependents store3 ''t0'') = {t. (\<exists>k. map_of (st_tasks store3) k = Some t) \<and> ''t0'' \<in> set (waiting_on t)}"
  using dependents_exact [OF sample_run, of "''t0''"] by blast

section \<open>Entry paths\<close>

lemma closed_rows_parent:
  "closed_rows known rows \<Longrightarrow> i < length rows \<Longrightarrow> ed_parent_id (rows ! i) = Some p \<Longrightarrow>
     p \<in> known \<or> (\<exists>j<i. ed_entry_id (rows ! j) = p)"
proof (induction rows arbitrary: known i)
  case (Cons e rows)
  show ?case
  proof (cases i)
    case 0
    with Cons.prems show ?thesis by simp
  next
    case (Suc n)
    with Cons.IH [of "insert (ed_entry_id e) known" n] Cons.prems
    have "p \<in> insert (ed_entry_id e) known \<or> (\<exists>j<n. ed_entry_id (rows ! j) = p)" by simp
    with Suc show ?thesis by (auto intro: exI [of _ 0] exI [of _ "Suc _"])
  qed
qed simp

lemma local_path_loop_succeeds:
  assumes "closed_rows {} rows" and "distinct (map ed_entry_id rows)" and "i < length rows"
    and "\<And>j. j \<le> i \<Longrightarrow> ed_entry_id (rows ! j) \<notin> set seen"
  shows "\<exists>p. local_path_loop (local_entries rows) seen path (Some (ed_entry_id (rows ! i))) = Inr p"
  using assms(3,4)
proof (induction i arbitrary: seen path rule: less_induct)
  case (less i)
  let ?e = "rows ! i"
  have "has_key (ed_entry_id ?e) (local_entries rows)" using less.prems(1) by (auto simp: has_key_local_entries)
  then obtain x where x: "map_of (local_entries rows) (ed_entry_id ?e) = Some x" by (auto simp: has_key_def)
  have "x \<in> set rows" "ed_entry_id x = ed_entry_id ?e"
    using map_of_local_entries_mem [OF x] keyed_local_entries [of rows] x by (auto simp: keyed_by_def)
  then have xe: "x = ?e" using assms(2) less.prems(1) by (metis distinct_map in_set_conv_nth inj_onD nth_mem)
  show ?case
  proof (cases "ed_parent_id ?e")
    case None
    with less.prems x xe show ?thesis by simp
  next
    case (Some p)
    with closed_rows_parent [OF assms(1) less.prems(1)] obtain j where j: "j < i" "ed_entry_id (rows ! j) = p" by auto
    have "ed_entry_id (rows ! k) \<notin> set (ed_entry_id ?e # seen)" if "k \<le> j" for k
    proof -
      have "k < i" using that j(1) by simp
      then have "ed_entry_id (rows ! k) \<noteq> ed_entry_id ?e"
        using assms(2) less.prems(1) by (simp add: distinct_conv_nth)
      with less.prems(2) [of k] \<open>k < i\<close> show ?thesis by simp
    qed
    with less.IH [OF j(1), of "ed_entry_id ?e # seen" "x # path"] j less.prems x xe Some show ?thesis by auto
  qed
qed

text \<open>
  No stored entry is orphaned. Walking the parents of any entry of a conversation
  ends without an error at a root, the path is linked entry by entry, stays inside the
  conversation, visits no entry twice and ends at the entry.
\<close>

theorem stored_entry_path:
  assumes "wf_store s" and "map_of (st_entries s) cid = Some rows" and "e \<in> set rows"
  shows "\<exists>p. local_path (local_entries rows) (ed_entry_id e) = Inr p \<and> p \<noteq> [] \<and> last p = e
    \<and> linked_from None p \<and> set p \<subseteq> set rows \<and> distinct (map ed_entry_id p)"
proof -
  have rows: "closed_rows {} rows" "distinct (map ed_entry_id rows)"
    using wf_storeD(1) [OF assms(1)] assms(2) by (auto simp: wf_conversations_def dest: wf_rowsD)
  from assms(3) obtain i where i: "i < length rows" "rows ! i = e" by (auto simp: in_set_conv_nth)
  from local_path_loop_succeeds [OF rows i(1), of "[]" "[]"] i(2) obtain p where
    p: "local_path (local_entries rows) (ed_entry_id e) = Inr p" by (auto simp: local_path_def)
  note c = local_path_correct [OF keyed_local_entries p]
  then have sub: "set p \<subseteq> set rows" using dvalues_local_entries by blast
  have "last p \<in> set rows" "ed_entry_id (last p) = ed_entry_id e" using c sub by auto
  with assms(3) rows(2) have "last p = e" by (metis distinct_map inj_onD)
  with p c sub show ?thesis by blast
qed

theorem stored_entry_path_witness:
  "\<exists>rows e p. map_of (st_entries (snd (commit ''t1'' (sample_append ''e1'' None 0) store0))) ''main'' = Some rows
     \<and> e \<in> set rows \<and> local_path (local_entries rows) (ed_entry_id e) = Inr p \<and> last p = e"
proof -
  let ?s = "snd (commit ''t1'' (sample_append ''e1'' None 0) store0)"
  have "live_step store0 ?s" by (rule live_step.commit) (code_simp+)
  from live_step_wf [OF this store0_wf] have wf: "wf_store ?s" .
  have "map_option (map ed_entry_id) (map_of (st_entries ?s) ''main'') = Some [''e1'']" by code_simp
  then obtain e where "map_of (st_entries ?s) ''main'' = Some [e]" by auto
  with stored_entry_path [OF wf this, of e] show ?thesis by fastforce
qed


section \<open>Deletion\<close>

definition sample_delete :: durable_mutation where
  "sample_delete = (empty_mutation ''main'' 0)\<lparr>dm_delete_conversation := True\<rparr>"

text \<open>What is left of a table row, if only the rows with a property are kept.\<close>

definition keep_row :: "('v \<Rightarrow> bool) \<Rightarrow> 'v option \<Rightarrow> 'v option" where
  "keep_row P r = (case r of None \<Rightarrow> None | Some x \<Rightarrow> if P x then Some x else None)"

definition tasks_of :: "store \<Rightarrow> string \<Rightarrow> string set" where
  "tasks_of s cid = {tid. \<exists>t. map_of (st_tasks s) tid = Some t \<and> tc_conversation_id t = cid}"

definition effects_of :: "store \<Rightarrow> string \<Rightarrow> string set" where
  "effects_of s cid = {eid. \<exists>e. map_of (st_effects s) eid = Some e \<and> ef_task_id e \<in> tasks_of s cid}"

lemma kept_rows:
  assumes "distinct (dkeys d)" and "\<And>x. P k x = Q x"
  shows "map_of (filter (\<lambda>(k, v). P k v) d) k = keep_row Q (map_of d k)"
  by (simp add: map_of_filter [OF assms(1)] keep_row_def assms(2) split: option.splits)

lemma get_set_drop: "get_set (drop_tasks ids d) k = (if k \<in> set ids then {} else get_set d k - set ids)"
  by (induction d) (auto simp: drop_tasks_def get_set_def split: option.splits if_splits)

lemma deleted_effects:
  assumes "distinct (dkeys (st_effects s))" and "set ids = tasks_of s cid"
  shows "set (map fst (filter (\<lambda>(eid, e). ef_task_id e \<in> set ids) (st_effects s))) = effects_of s cid"
  using dict_mem_iff [OF assms(1)] by (force simp: effects_of_def assms(2))

lemma remove_artifacts:
  "st_artifacts (remove_conversation cid s) = filter (\<lambda>(h, a).
      \<not> (case ar_owner_task_id a of None \<Rightarrow> False | Some t \<Rightarrow> t \<in> set (conversation_tasks cid s))
      \<and> \<not> (case ar_owner_effect_id a of None \<Rightarrow> False
          | Some e \<Rightarrow> e \<in> set (map fst (filter (\<lambda>(eid, e). ef_task_id e \<in> set (conversation_tasks cid s)) (st_effects s)))))
    (st_artifacts s)"
  unfolding remove_conversation_def conversation_tasks_def Let_def by simp

text \<open>
  C30: a committed deletion removes exactly what belongs to the conversation. It is only
  possible while no fork refers to the conversation. Afterwards its entries, head, ancestry,
  submissions and submission ids are gone, and so are the checkpoints, histories,
  finalization marks, waiter and owner index rows of its tasks, the effects of these tasks,
  and the artifacts that one of these tasks or effects owns. Every other row of every one of
  these tables is as before.
\<close>

theorem delete_removes_conversation:
  assumes "wf_store s" and "mutation_ok m" and "dm_delete_conversation m"
    and "commit now m s = (Inr r, s')" and "s' \<noteq> s" and "cid = dm_conversation_id m"
  shows "\<not> has_forked_children s cid
    \<and> (\<forall>c. map_of (st_entries s') c = (if c = cid then None else map_of (st_entries s) c)
         \<and> map_of (st_heads s') c = (if c = cid then None else map_of (st_heads s) c)
         \<and> map_of (st_parents s') c = (if c = cid then None else map_of (st_parents s) c))
    \<and> (\<forall>k. map_of (st_submissions s') k
         = keep_row (\<lambda>i. sr_conversation_id (si_record i) \<noteq> cid) (map_of (st_submissions s) k))
    \<and> st_submission_ids s' = st_submission_ids s - {sid. \<exists>k i. map_of (st_submissions s) k = Some i
         \<and> sr_submission_id (si_record i) = sid \<and> sr_conversation_id (si_record i) = cid}
    \<and> (\<forall>tid. map_of (st_tasks s') tid = keep_row (\<lambda>t. tc_conversation_id t \<noteq> cid) (map_of (st_tasks s) tid)
         \<and> map_of (st_history s') tid = (if tid \<in> tasks_of s cid then None else map_of (st_history s) tid)
         \<and> get_set (st_waiters s') tid = (if tid \<in> tasks_of s cid then {} else get_set (st_waiters s) tid - tasks_of s cid)
         \<and> get_set (st_owners s') tid = (if tid \<in> tasks_of s cid then {} else get_set (st_owners s) tid - tasks_of s cid))
    \<and> st_finalization s' = st_finalization s - tasks_of s cid
    \<and> (\<forall>eid. map_of (st_effects s') eid = keep_row (\<lambda>e. ef_task_id e \<notin> tasks_of s cid) (map_of (st_effects s) eid))
    \<and> (\<forall>h. map_of (st_artifacts s') h = keep_row (\<lambda>a. ar_owner_task_id a \<notin> Some ` tasks_of s cid
         \<and> ar_owner_effect_id a \<notin> Some ` effects_of s cid) (map_of (st_artifacts s) h))"
  using assms(4)
proof (cases rule: commit_cases)
  case (deleted revision)
  let ?s1 = "s\<lparr>st_sequence := st_sequence s + 1, st_commits := st_commits s @ [commit_row now m s]\<rparr>"
  let ?ids = "conversation_tasks cid ?s1"
  have s': "s' = remove_conversation cid ?s1" and kids: "\<not> has_forked_children s cid"
    using deleted(2) assms(6) by (auto simp: commit_delete_form split: if_splits)
  have dt: "distinct (dkeys (st_tasks s))" and ds: "distinct (dkeys (st_submissions s))"
    and de: "distinct (dkeys (st_effects s))" and dh: "distinct (dkeys (st_history s))"
    and da: "distinct (dkeys (st_artifacts s))"
    using wf_storeD [OF assms(1)]
    by (simp_all add: wf_tasks_def wf_submissionsD(1) wf_effects_def wf_history_def wf_artifacts_def)
  have ids: "set ?ids = tasks_of s cid" using conversation_tasks_iff [of ?s1 _ cid] dt by (auto simp: tasks_of_def)
  have rows: "map_of (st_entries s') c = (if c = cid then None else map_of (st_entries s) c)"
    "map_of (st_heads s') c = (if c = cid then None else map_of (st_heads s) c)"
    "map_of (st_parents s') c = (if c = cid then None else map_of (st_parents s) c)" for c
    by (simp_all add: s' remove_fields)
  have subs: "map_of (st_submissions s') k = keep_row (\<lambda>i. sr_conversation_id (si_record i) \<noteq> cid) (map_of (st_submissions s) k)" for k
    unfolding s' remove_fields by (simp add: kept_rows [OF ds])
  have sids: "st_submission_ids s' = st_submission_ids s - {sid. \<exists>k i. map_of (st_submissions s) k = Some i
         \<and> sr_submission_id (si_record i) = sid \<and> sr_conversation_id (si_record i) = cid}"
    unfolding s' remove_fields using dict_mem_iff [OF ds] by force
  have tasks: "map_of (st_tasks s') tid = keep_row (\<lambda>t. tc_conversation_id t \<noteq> cid) (map_of (st_tasks s) tid)" for tid
    unfolding s' remove_fields by (simp add: kept_rows [OF dt])
  have hist: "map_of (st_history s') tid = (if tid \<in> tasks_of s cid then None else map_of (st_history s) tid)" for tid
    unfolding s' remove_fields by (simp add: map_of_filter [OF dh] ids split: option.splits)
  have effects: "map_of (st_effects s') eid = keep_row (\<lambda>e. ef_task_id e \<notin> tasks_of s cid) (map_of (st_effects s) eid)" for eid
    unfolding s' remove_fields by (simp add: kept_rows [OF de] ids)
  have same: "st_artifacts ?s1 = st_artifacts s" "st_effects ?s1 = st_effects s" by simp_all
  have artifacts: "map_of (st_artifacts s') h = keep_row (\<lambda>a. ar_owner_task_id a \<notin> Some ` tasks_of s cid
         \<and> ar_owner_effect_id a \<notin> Some ` effects_of s cid) (map_of (st_artifacts s) h)" for h
    unfolding s' remove_artifacts same unfolding deleted_effects [OF de ids] unfolding ids
    by (rule kept_rows [OF da]) (auto split: option.splits)
  have index: "get_set (st_waiters s') tid = (if tid \<in> tasks_of s cid then {} else get_set (st_waiters s) tid - tasks_of s cid)"
    "get_set (st_owners s') tid = (if tid \<in> tasks_of s cid then {} else get_set (st_owners s) tid - tasks_of s cid)" for tid
    unfolding s' remove_fields get_set_drop ids by simp_all
  have "st_finalization s' = st_finalization s - tasks_of s cid"
    unfolding s' remove_fields by (simp add: ids)
  then show ?thesis by (intro conjI allI kids rows subs sids tasks hist index effects artifacts)
next
  case (written head revision)
  with planned_write(8) assms(3) show ?thesis by blast
qed (use assms(5) in auto)

theorem delete_removes_conversation_witness:
  "\<not> has_key ''main'' (st_heads (snd (commit ''t9'' sample_delete store1)))"
proof -
  let ?s' = "snd (commit ''t9'' sample_delete store1)"
  have "\<not> isl (fst (commit ''t9'' sample_delete store1))" by code_simp
  then obtain r where run: "commit ''t9'' sample_delete store1 = (Inr r, ?s')"
    by (metis isl_def old.sum.exhaust prod.collapse)
  have "st_sequence ?s' = 2" "st_sequence store1 = 1" by code_simp+
  then have "?s' \<noteq> store1" by auto
  moreover have "mutation_ok sample_delete" "dm_delete_conversation sample_delete" "dm_conversation_id sample_delete = ''main''"
    by code_simp+
  ultimately have "map_of (st_heads ?s') ''main'' = None"
    using delete_removes_conversation [OF store1_wf _ _ run, of "''main''"] by metis
  then show ?thesis by (simp add: has_key_def)
qed

text \<open>
  The direct method \<open>delete_conversation\<close> is not the same operation as a committed
  deletion: it leaves the history of the removed tasks behind, so the store it returns is
  not well-formed.
\<close>

theorem direct_delete_leaves_history:
  "fst (delete_conversation ''main'' store1) = Inr ()
   \<and> \<not> has_key ''t1'' (st_tasks (snd (delete_conversation ''main'' store1)))
   \<and> has_key ''t1'' (st_history (snd (delete_conversation ''main'' store1)))
   \<and> \<not> wf_store (snd (delete_conversation ''main'' store1))"
proof -
  have keys: "fst (delete_conversation ''main'' store1) = Inr ()"
    "\<not> has_key ''t1'' (st_tasks (snd (delete_conversation ''main'' store1)))"
    "has_key ''t1'' (st_history (snd (delete_conversation ''main'' store1)))"
    by (code_simp, code_simp, code_simp)
  then have "\<not> wf_history (snd (delete_conversation ''main'' store1))" unfolding wf_history_def by blast
  with keys wf_storeD(7) show ?thesis by blast
qed

section \<open>Scheduler ownership\<close>

text \<open>
  At most one live scheduler. While the recorded owner's process is alive, another
  owner can neither take the store over nor release it; the owner itself can renew and
  release, and after its process died the store can be taken over.
\<close>

theorem scheduler_exclusive:
  assumes "st_scheduler_owner s = Some (owner, pid)" and "other \<noteq> owner" and "other \<noteq> []" and "0 < pid'"
  shows "(alive pid \<longrightarrow> (\<exists>e. acquire_scheduler_owner alive other pid' s = (Inl (SchedulerOwnershipError e), s)))
    \<and> release_scheduler_owner other s = s
    \<and> (\<not> alive pid \<longrightarrow> acquire_scheduler_owner alive other pid' s = (Inr (), s\<lparr>st_scheduler_owner := Some (other, pid')\<rparr>))
    \<and> (owner \<noteq> [] \<longrightarrow> acquire_scheduler_owner alive owner pid' s = (Inr (), s\<lparr>st_scheduler_owner := Some (owner, pid')\<rparr>))
    \<and> st_scheduler_owner (release_scheduler_owner owner s) = None"
  using assms by (auto simp: acquire_scheduler_owner_def release_scheduler_owner_def)

theorem scheduler_exclusive_witness:
  "\<exists>e. acquire_scheduler_owner (\<lambda>p. p = 7) ''b'' 8 (store0\<lparr>st_scheduler_owner := Some (''a'', 7)\<rparr>)
     = (Inl (SchedulerOwnershipError e), store0\<lparr>st_scheduler_owner := Some (''a'', 7)\<rparr>)"
  using scheduler_exclusive [of "store0\<lparr>st_scheduler_owner := Some (''a'', 7)\<rparr>" "''a''" 7 "''b''" 8 "\<lambda>p. p = 7"] by simp

end
