(* ===== verification/Api_Selection.thy ===== *)
theory Api_Selection
  imports Durable_Model
begin

text \<open>
  The model selection admitted for one run
  (\<^verbatim>\<open>codey/runtime/core/api_selection.py\<close> and
  \<^verbatim>\<open>reasoning.py\<close>): the record with the checks of its constructor, the size
  bound on a persisted selection and its two payload directions.
\<close>

section \<open>The text length of a persisted selection\<close>

text \<open>
  \<open>len(str(payload))\<close> of a dictionary of scalars. A string prints inside single
  quotes unless it holds one and no double quote; the quote, the backslash, tab, newline
  and return take two characters, the other unprintable characters four.
\<close>

definition repr_quote :: "string \<Rightarrow> char" where
  "repr_quote s =
     (if CHR 0x27 \<in> set s \<and> CHR 0x22 \<notin> set s then CHR 0x22 else CHR 0x27)"

definition repr_char_len :: "char \<Rightarrow> char \<Rightarrow> nat" where
  "repr_char_len q c =
     (let n = (of_char c :: nat) in
      if c = q \<or> n = 92 \<or> n = 9 \<or> n = 10 \<or> n = 13 then 2
      else if n < 32 \<or> (127 \<le> n \<and> n \<le> 160) \<or> n = 173 then 4
      else 1)"

definition repr_str_len :: "string \<Rightarrow> nat" where
  "repr_str_len s = 2 + sum_list (map (repr_char_len (repr_quote s)) s)"

text \<open>
  An integer of more than 4300 digits has no text: \<open>str\<close> raises
  \<open>ValueError\<close>. The text of floats, containers and other objects is not computed;
  no field of a selection accepts one.
\<close>

fun repr_len :: "pyval \<Rightarrow> nat option" where
  "repr_len PNone = Some 4"
| "repr_len (PBool b) = Some (if b then 4 else 5)"
| "repr_len (PInt n) =
     (if 4300 < length (dec_nat (nat \<bar>n\<bar>)) then None else Some (length (dec_int n)))"
| "repr_len (PStr s) = Some (repr_str_len s)"
| "repr_len _ = None"

fun repr_items_len :: "jobj \<Rightarrow> nat option" where
  "repr_items_len [] = Some 0"
| "repr_items_len ((k, v) # d) =
     (case repr_len v of None \<Rightarrow> None
      | Some n \<Rightarrow> map_option (\<lambda>m. repr_str_len k + n + 4 + m) (repr_items_len d))"

definition repr_dict_len :: "jobj \<Rightarrow> nat option" where
  "repr_dict_len d = (if d = [] then Some 2 else repr_items_len d)"

section \<open>The selection\<close>

definition REASONING_EFFORTS :: "string list" where
  "REASONING_EFFORTS = [''off'', ''minimal'', ''low'', ''medium'', ''high'', ''xhigh'', ''max'']"

definition CATALOG_REASONING_EFFORTS :: "string list" where
  "CATALOG_REASONING_EFFORTS = filter (\<lambda>e. e \<noteq> ''off'') REASONING_EFFORTS"

fun normalize_efforts_loop :: "string list \<Rightarrow> pyval list \<Rightarrow> string list" where
  "normalize_efforts_loop result [] = result"
| "normalize_efforts_loop result (v # vs) =
     (case v of
        PStr s \<Rightarrow>
          if s \<in> set CATALOG_REASONING_EFFORTS \<and> s \<notin> set result
          then normalize_efforts_loop (result @ [s]) vs
          else normalize_efforts_loop result vs
      | _ \<Rightarrow> normalize_efforts_loop result vs)"

definition normalize_efforts :: "pyval list \<Rightarrow> string list" where
  "normalize_efforts vs = normalize_efforts_loop [] vs"

definition compile_selection ::
  "string list \<Rightarrow> bool \<Rightarrow> pyval \<Rightarrow> pyval \<Rightarrow> (string option \<times> bool option) result" where
  "compile_selection efforts toggle effort thinking =
     (if effort \<noteq> PNone then
        (case effort of
           PStr e \<Rightarrow>
             if e \<notin> set efforts
             then Inl (ValueError ''selected model does not advertise this reasoning effort'')
             else if thinking \<noteq> PNone
             then Inl (ValueError ''reasoning effort and thinking toggle cannot be selected together'')
             else Inr (Some e, None)
         | _ \<Rightarrow> Inl (ValueError ''selected model does not advertise this reasoning effort''))
      else if thinking \<noteq> PNone then
        (case thinking of
           PBool b \<Rightarrow>
             if \<not> toggle \<or> efforts \<noteq> []
             then Inl (ValueError ''selected model does not advertise a standalone thinking toggle'')
             else Inr (None, Some b)
         | _ \<Rightarrow> Inl (ValueError ''thinking must be true, false, or null''))
      else Inr (None, None))"

record api_run_selection =
  connection_id :: string
  connection_revision :: string
  model_id :: string
  protocol :: string
  native_tools :: bool
  context_window_tokens :: int
  context_reserve_tokens :: int
  context_keep_recent_tokens :: int
  thinking_enabled :: "bool option"
  reasoning_effort :: "string option"
  stream_replies :: bool
  tool_choice :: string
  output_tokens :: "int option"
  token_counter :: string
  budget_source :: string
  input_limit_tokens :: "int option"
  text_tool_format :: string
  supports_images :: "bool option"

definition SELECTION_REQUIRED :: "string list" where
  "SELECTION_REQUIRED =
     [''connection_id'', ''connection_revision'', ''model_id'', ''protocol'', ''native_tools'']"

definition SELECTION_DEFAULTS :: jobj where
  "SELECTION_DEFAULTS =
     [(''context_window_tokens'', PInt 32768), (''context_reserve_tokens'', PInt 8192),
      (''context_keep_recent_tokens'', PInt 12000), (''thinking_enabled'', PNone),
      (''reasoning_effort'', PNone), (''stream'', PBool False), (''tool_choice'', PStr ''auto''),
      (''output_tokens'', PNone), (''token_counter'', PStr ''estimated''),
      (''budget_source'', PStr ''configuration''), (''input_limit_tokens'', PNone),
      (''text_tool_format'', PStr ''plain''), (''supports_images'', PNone)]"

text \<open>The attribute a constructor call with keywords \<open>d\<close> sets.\<close>

definition attr :: "jobj \<Rightarrow> string \<Rightarrow> pyval" where
  "attr d k = pget_default d k (pget SELECTION_DEFAULTS k)"

definition identity_text :: "pyval \<Rightarrow> string result" where
  "identity_text v =
     (case v of
        PStr s \<Rightarrow> if strip s = [] \<or> length s > 1000
                  then Inl (ValueError ''invalid API connection or model identity'') else Inr s
      | _ \<Rightarrow> Inl (ValueError ''invalid API connection or model identity''))"

definition label_text :: "string \<Rightarrow> pyval \<Rightarrow> string result" where
  "label_text msg v =
     (case v of
        PStr s \<Rightarrow> if s = [] \<or> length s > 80 then Inl (ValueError msg) else Inr s
      | _ \<Rightarrow> Inl (ValueError msg))"

definition known_text :: "string list \<Rightarrow> string \<Rightarrow> pyval \<Rightarrow> string result" where
  "known_text known msg v =
     bind_r (in_string_set v known) (\<lambda>ok.
       case v of PStr s \<Rightarrow> if ok then Inr s else Inl (ValueError msg)
               | _ \<Rightarrow> Inl (ValueError msg))"

definition opt_known :: "string list \<Rightarrow> string \<Rightarrow> pyval \<Rightarrow> string option result" where
  "opt_known known msg v =
     (if v = PNone then Inr None else bind_r (known_text known msg v) (\<lambda>e. Inr (Some e)))"

definition flag :: "string \<Rightarrow> pyval \<Rightarrow> bool result" where
  "flag msg v = (case as_bool v of None \<Rightarrow> Inl (ValueError msg) | Some b \<Rightarrow> Inr b)"

definition opt_flag :: "string \<Rightarrow> pyval \<Rightarrow> bool option result" where
  "opt_flag msg v = (if v = PNone then Inr None else bind_r (flag msg v) (\<lambda>b. Inr (Some b)))"

definition positive :: "string \<Rightarrow> pyval \<Rightarrow> int result" where
  "positive msg v =
     (case as_int v of None \<Rightarrow> Inl (ValueError msg)
      | Some n \<Rightarrow> if n \<le> 0 then Inl (ValueError msg) else Inr n)"

definition opt_positive :: "string \<Rightarrow> pyval \<Rightarrow> int option result" where
  "opt_positive msg v =
     (if v = PNone then Inr None else bind_r (positive msg v) (\<lambda>n. Inr (Some n)))"

text \<open>
  \<open>ApiRunSelection(**d)\<close>: an unknown or missing argument is a \<open>TypeError\<close>,
  then the checks of \<open>__post_init__\<close> in their order.
\<close>

definition api_run_selection_init :: "jobj \<Rightarrow> api_run_selection result" where
  "api_run_selection_init d =
     (if list_ex (\<lambda>k. k \<notin> set SELECTION_REQUIRED \<and> \<not> has_key k SELECTION_DEFAULTS) (dkeys d)
       \<or> list_ex (\<lambda>k. \<not> has_key k d) SELECTION_REQUIRED
      then Inl (TypeError ''ApiRunSelection arguments'')
      else
      bind_r (identity_text (attr d ''connection_id'')) (\<lambda>connection.
      bind_r (identity_text (attr d ''connection_revision'')) (\<lambda>revision.
      bind_r (identity_text (attr d ''model_id'')) (\<lambda>model.
      bind_r (known_text [''openai-completions'', ''openai-responses'']
                ''unsupported API protocol'' (attr d ''protocol'')) (\<lambda>proto.
      bind_r (known_text [''plain'', ''json_schema''] ''unsupported text tool format''
                (attr d ''text_tool_format'')) (\<lambda>fmt.
      bind_r (raise_if (fmt = ''json_schema'' \<and>
                (proto \<noteq> ''openai-completions'' \<or> truthy (attr d ''native_tools'')
                 \<or> attr d ''thinking_enabled'' \<noteq> PBool False))
                (ValueError ''JSON tool format requires compatibility tools and thinking disabled'')) (\<lambda>_.
      bind_r (label_text ''unsupported request token counter'' (attr d ''token_counter'')) (\<lambda>counter.
      bind_r (label_text ''invalid context budget source'' (attr d ''budget_source'')) (\<lambda>budget.
      bind_r (flag ''API capability flags must be booleans'' (attr d ''native_tools'')) (\<lambda>native.
      bind_r (flag ''API capability flags must be booleans'' (attr d ''stream'')) (\<lambda>stream.
      bind_r (opt_flag ''Image capability must be a boolean or unknown'' (attr d ''supports_images'')) (\<lambda>images.
      bind_r (opt_flag ''thinking flag must be boolean'' (attr d ''thinking_enabled'')) (\<lambda>thinking.
      bind_r (opt_known REASONING_EFFORTS ''unsupported reasoning effort''
                (attr d ''reasoning_effort'')) (\<lambda>effort.
      bind_r (known_text [''auto'', ''required''] ''unsupported tool choice'' (attr d ''tool_choice'')) (\<lambda>choice.
      bind_r (positive ''invalid API context budget'' (attr d ''context_window_tokens'')) (\<lambda>window.
      bind_r (positive ''invalid API context budget'' (attr d ''context_reserve_tokens'')) (\<lambda>reserve.
      bind_r (positive ''invalid API context budget'' (attr d ''context_keep_recent_tokens'')) (\<lambda>keep.
      bind_r (raise_if (window \<le> reserve \<or> keep > window - reserve)
                (ValueError ''inconsistent API context budget'')) (\<lambda>_.
      bind_r (opt_positive ''invalid independent input limit'' (attr d ''input_limit_tokens'')) (\<lambda>limit.
      bind_r (opt_positive ''invalid API output budget'' (attr d ''output_tokens'')) (\<lambda>out.
      bind_r (raise_if (case out of None \<Rightarrow> False | Some n \<Rightarrow> n > reserve)
                (ValueError ''invalid API output budget'')) (\<lambda>_.
      Inr \<lparr>connection_id = connection, connection_revision = revision, model_id = model,
           protocol = proto, native_tools = native, context_window_tokens = window,
           context_reserve_tokens = reserve, context_keep_recent_tokens = keep,
           thinking_enabled = thinking, reasoning_effort = effort, stream_replies = stream,
           tool_choice = choice, output_tokens = out, token_counter = counter,
           budget_source = budget, input_limit_tokens = limit, text_tool_format = fmt,
           supports_images = images\<rparr>))))))))))))))))))))))"

definition opt_int :: "int option \<Rightarrow> pyval" where
  "opt_int x = (case x of None \<Rightarrow> PNone | Some n \<Rightarrow> PInt n)"

definition opt_bool :: "bool option \<Rightarrow> pyval" where
  "opt_bool x = (case x of None \<Rightarrow> PNone | Some b \<Rightarrow> PBool b)"

definition opt_text :: "string option \<Rightarrow> pyval" where
  "opt_text x = (case x of None \<Rightarrow> PNone | Some t \<Rightarrow> PStr t)"

definition selection_to_payload :: "api_run_selection \<Rightarrow> jobj" where
  "selection_to_payload s =
     [(''connection_id'', PStr (connection_id s)),
      (''connection_revision'', PStr (connection_revision s)),
      (''model_id'', PStr (model_id s)),
      (''protocol'', PStr (protocol s)),
      (''native_tools'', PBool (native_tools s)),
      (''context_window_tokens'', PInt (context_window_tokens s)),
      (''context_reserve_tokens'', PInt (context_reserve_tokens s)),
      (''context_keep_recent_tokens'', PInt (context_keep_recent_tokens s)),
      (''thinking_enabled'', opt_bool (thinking_enabled s)),
      (''reasoning_effort'', opt_text (reasoning_effort s)),
      (''stream'', PBool (stream_replies s)),
      (''tool_choice'', PStr (tool_choice s)),
      (''output_tokens'', opt_int (output_tokens s)),
      (''token_counter'', PStr (token_counter s)),
      (''budget_source'', PStr (budget_source s)),
      (''input_limit_tokens'', opt_int (input_limit_tokens s)),
      (''text_tool_format'', PStr (text_tool_format s)),
      (''supports_images'', opt_bool (supports_images s))]"

text \<open>
  \<open>from_payload\<close>: a payload whose text is too long, or not defined here, is
  refused; \<open>TypeError\<close> becomes \<open>ValueError\<close>.
\<close>

definition selection_from_payload :: "pyval \<Rightarrow> api_run_selection result" where
  "selection_from_payload v =
     (case v of
        PDict d \<Rightarrow>
          (case repr_dict_len d of
             None \<Rightarrow> Inl (ValueError ''invalid persisted API selection'')
           | Some n \<Rightarrow>
               if n > 8000 then Inl (ValueError ''invalid persisted API selection'')
               else (case api_run_selection_init d of
                       Inl (TypeError _) \<Rightarrow> Inl (ValueError ''invalid persisted API selection fields'')
                     | r \<Rightarrow> r))
      | _ \<Rightarrow> Inl (ValueError ''invalid persisted API selection''))"

section \<open>What an accepted selection guarantees\<close>

definition selection_ok :: "api_run_selection \<Rightarrow> bool" where
  "selection_ok s =
     (list_all (\<lambda>t. strip t \<noteq> [] \<and> length t \<le> 1000)
        [connection_id s, connection_revision s, model_id s]
      \<and> protocol s \<in> set [''openai-completions'', ''openai-responses'']
      \<and> text_tool_format s \<in> set [''plain'', ''json_schema'']
      \<and> (text_tool_format s = ''json_schema'' \<longrightarrow>
            protocol s = ''openai-completions'' \<and> \<not> native_tools s \<and> thinking_enabled s = Some False)
      \<and> list_all (\<lambda>t. t \<noteq> [] \<and> length t \<le> 80) [token_counter s, budget_source s]
      \<and> (case reasoning_effort s of None \<Rightarrow> True | Some e \<Rightarrow> e \<in> set REASONING_EFFORTS)
      \<and> tool_choice s \<in> set [''auto'', ''required'']
      \<and> 0 < context_reserve_tokens s \<and> 0 < context_keep_recent_tokens s
      \<and> context_reserve_tokens s + context_keep_recent_tokens s \<le> context_window_tokens s
      \<and> (case input_limit_tokens s of None \<Rightarrow> True | Some n \<Rightarrow> 0 < n)
      \<and> (case output_tokens s of None \<Rightarrow> True
         | Some n \<Rightarrow> 0 < n \<and> n \<le> context_reserve_tokens s))"

lemma identity_text_Inr [simp]:
  "identity_text v = Inr s \<longleftrightarrow> v = PStr s \<and> strip s \<noteq> [] \<and> length s \<le> 1000"
  by (cases v) (auto simp: identity_text_def)

lemma label_text_Inr [simp]:
  "label_text msg v = Inr s \<longleftrightarrow> v = PStr s \<and> s \<noteq> [] \<and> length s \<le> 80"
  by (cases v) (auto simp: label_text_def)

lemma known_text_Inr [simp]: "known_text known msg v = Inr s \<longleftrightarrow> v = PStr s \<and> s \<in> set known"
  by (cases v) (auto simp: known_text_def in_string_set_def)

lemma flag_Inr [simp]: "flag msg v = Inr b \<longleftrightarrow> v = PBool b"
  by (cases v) (auto simp: flag_def)

lemma opt_flag_Inr [simp]: "opt_flag msg v = Inr b \<longleftrightarrow> v = opt_bool b"
  by (cases v; cases b) (auto simp: opt_flag_def opt_bool_def flag_def)

lemma positive_Inr [simp]: "positive msg v = Inr n \<longleftrightarrow> v = PInt n \<and> 0 < n"
  by (cases v) (auto simp: positive_def)

lemma opt_positive_Inr [simp]:
  "opt_positive msg v = Inr x \<longleftrightarrow> v = opt_int x \<and> (case x of None \<Rightarrow> True | Some n \<Rightarrow> 0 < n)"
  by (cases v; cases x) (auto simp: opt_positive_def opt_int_def positive_def)

lemma selection_keys:
  "\<not> list_ex (\<lambda>k. k \<notin> set SELECTION_REQUIRED \<and> \<not> has_key k SELECTION_DEFAULTS)
       (dkeys (selection_to_payload s))"
  "\<not> list_ex (\<lambda>k. \<not> has_key k (selection_to_payload s)) SELECTION_REQUIRED"
  by (simp_all add: SELECTION_REQUIRED_def SELECTION_DEFAULTS_def selection_to_payload_def
        dkeys_def has_key_def)

lemma selection_attr [simp]:
  "attr (selection_to_payload s) ''connection_id'' = PStr (connection_id s)"
  "attr (selection_to_payload s) ''connection_revision'' = PStr (connection_revision s)"
  "attr (selection_to_payload s) ''model_id'' = PStr (model_id s)"
  "attr (selection_to_payload s) ''protocol'' = PStr (protocol s)"
  "attr (selection_to_payload s) ''native_tools'' = PBool (native_tools s)"
  "attr (selection_to_payload s) ''context_window_tokens'' = PInt (context_window_tokens s)"
  "attr (selection_to_payload s) ''context_reserve_tokens'' = PInt (context_reserve_tokens s)"
  "attr (selection_to_payload s) ''context_keep_recent_tokens'' = PInt (context_keep_recent_tokens s)"
  "attr (selection_to_payload s) ''thinking_enabled'' = opt_bool (thinking_enabled s)"
  "attr (selection_to_payload s) ''reasoning_effort'' = opt_text (reasoning_effort s)"
  "attr (selection_to_payload s) ''stream'' = PBool (stream_replies s)"
  "attr (selection_to_payload s) ''tool_choice'' = PStr (tool_choice s)"
  "attr (selection_to_payload s) ''output_tokens'' = opt_int (output_tokens s)"
  "attr (selection_to_payload s) ''token_counter'' = PStr (token_counter s)"
  "attr (selection_to_payload s) ''budget_source'' = PStr (budget_source s)"
  "attr (selection_to_payload s) ''input_limit_tokens'' = opt_int (input_limit_tokens s)"
  "attr (selection_to_payload s) ''text_tool_format'' = PStr (text_tool_format s)"
  "attr (selection_to_payload s) ''supports_images'' = opt_bool (supports_images s)"
  by (simp_all add: attr_def pget_default_def selection_to_payload_def)

lemma opt_known_Inr [simp]:
  "opt_known known msg v = Inr x
   \<longleftrightarrow> v = opt_text x \<and> (case x of None \<Rightarrow> True | Some e \<Rightarrow> e \<in> set known)"
  by (cases x) (auto simp: opt_text_def opt_known_def)

lemma opt_bool_eq [simp]: "opt_bool x = PBool b \<longleftrightarrow> x = Some b"
  by (cases x) (simp_all add: opt_bool_def)

text \<open>The same readers as rewrite rules on the values that \<open>to_payload\<close> writes.\<close>

lemma selection_readers:
  "strip t \<noteq> [] \<Longrightarrow> length t \<le> 1000 \<Longrightarrow> identity_text (PStr t) = Inr t"
  "t \<noteq> [] \<Longrightarrow> length t \<le> 80 \<Longrightarrow> label_text msg (PStr t) = Inr t"
  "t \<in> set known \<Longrightarrow> known_text known msg (PStr t) = Inr t"
  "flag msg (PBool b) = Inr b"
  "opt_flag msg (opt_bool ob) = Inr ob"
  "0 < n \<Longrightarrow> positive msg (PInt n) = Inr n"
  "(case x of None \<Rightarrow> True | Some n \<Rightarrow> 0 < n) \<Longrightarrow> opt_positive msg (opt_int x) = Inr x"
  "(case e of None \<Rightarrow> True | Some u \<Rightarrow> u \<in> set known) \<Longrightarrow>
     opt_known known msg (opt_text e) = Inr e"
  by simp_all

lemma within_reserve:
  "(case x of None \<Rightarrow> True | Some n \<Rightarrow> 0 < n \<and> n \<le> r) \<longleftrightarrow>
   (case x of None \<Rightarrow> True | Some n \<Rightarrow> 0 < n) \<and> \<not> (case x of None \<Rightarrow> False | Some n \<Rightarrow> n > (r :: int))"
  by (auto split: option.splits)

lemma selection_init_ok: "api_run_selection_init d = Inr s \<Longrightarrow> selection_ok s"
  unfolding api_run_selection_init_def
  apply (simp only: if_Inl_Inr bind_r_eq_Inr raise_if_Inr sum.inject)
  apply (elim exE conjE)
  apply hypsubst
  apply (simp add: selection_ok_def within_reserve cong: option.case_cong)
  done

lemma selection_init_round:
  "selection_ok s \<Longrightarrow> api_run_selection_init (selection_to_payload s) = Inr s"
  using selection_keys [of s]
  by (simp add: selection_ok_def within_reserve api_run_selection_init_def selection_readers)

lemma selection_from_payload_Inr:
  "selection_from_payload v = Inr s \<longleftrightarrow>
   (\<exists>d n. v = PDict d \<and> repr_dict_len d = Some n \<and> n \<le> 8000 \<and> api_run_selection_init d = Inr s)"
  by (cases v) (auto simp: selection_from_payload_def split: option.splits sum.splits py_error.splits)

text \<open>
  An admitted selection is safe to run with and survives storage. Whatever payload it was
  read from, its context budget is consistent (the reserve and the recent window fit into
  the context window, the output budget into the reserve), its JSON tool format comes only
  with compatibility tools and thinking off, and when its own payload stays within the size
  bound, reading that payload gives back exactly the same selection.
\<close>

theorem selection_round_trip:
  assumes "selection_from_payload v = Inr s"
  shows "0 < context_reserve_tokens s
    \<and> context_reserve_tokens s + context_keep_recent_tokens s \<le> context_window_tokens s
    \<and> (\<forall>n. output_tokens s = Some n \<longrightarrow> 0 < n \<and> n \<le> context_reserve_tokens s)
    \<and> (text_tool_format s = ''json_schema'' \<longrightarrow> \<not> native_tools s \<and> thinking_enabled s = Some False)
    \<and> (\<forall>m. repr_dict_len (selection_to_payload s) = Some m \<longrightarrow> m \<le> 8000 \<longrightarrow>
           selection_from_payload (PDict (selection_to_payload s)) = Inr s)"
proof -
  from assms have ok: "selection_ok s"
    by (auto simp: selection_from_payload_Inr dest: selection_init_ok)
  with selection_init_round [OF ok] show ?thesis
    by (simp add: selection_ok_def selection_from_payload_Inr split: option.splits)
qed

definition sample_selection_args :: jobj where
  "sample_selection_args =
     [(''connection_id'', PStr ''c''), (''connection_revision'', PStr ''1''),
      (''model_id'', PStr ''m''), (''protocol'', PStr ''openai-completions''),
      (''native_tools'', PBool True), (''output_tokens'', PInt 4096)]"

definition sample_selection :: api_run_selection where
  "sample_selection =
     \<lparr>connection_id = ''c'', connection_revision = ''1'', model_id = ''m'',
      protocol = ''openai-completions'', native_tools = True, context_window_tokens = 32768,
      context_reserve_tokens = 8192, context_keep_recent_tokens = 12000,
      thinking_enabled = None, reasoning_effort = None, stream_replies = False,
      tool_choice = ''auto'', output_tokens = Some 4096, token_counter = ''estimated'',
      budget_source = ''configuration'', input_limit_tokens = None,
      text_tool_format = ''plain'', supports_images = None\<rparr>"

lemmas repr_simps = repr_dict_len_def repr_str_len_def repr_char_len_def repr_quote_def
  dec_int_def dec_nat.simps Let_def

lemma sample_selection_read:
  "api_run_selection_init sample_selection_args = Inr sample_selection"
  "repr_dict_len sample_selection_args = Some 146"
  "repr_dict_len (selection_to_payload sample_selection) = Some 485"
    apply code_simp
   apply (simp add: sample_selection_args_def repr_simps)
  apply (simp add: selection_to_payload_def sample_selection_def opt_int_def opt_bool_def opt_text_def repr_simps)
  done

theorem selection_round_trip_witness:
  "selection_from_payload (PDict sample_selection_args) = Inr sample_selection
   \<and> (4096 :: int) \<le> context_reserve_tokens sample_selection
   \<and> selection_from_payload (PDict (selection_to_payload sample_selection)) = Inr sample_selection"
proof -
  have read: "selection_from_payload (PDict sample_selection_args) = Inr sample_selection"
    using sample_selection_read by (simp add: selection_from_payload_Inr)
  from selection_round_trip [OF read] sample_selection_read(3) read show ?thesis
    by (simp add: sample_selection_def)
qed

definition bulky_selection_args :: "string \<Rightarrow> string \<Rightarrow> jobj" where
  "bulky_selection_args revision model =
     [(''connection_id'', PStr ''c''), (''connection_revision'', PStr revision),
      (''model_id'', PStr model), (''protocol'', PStr ''openai-completions''),
      (''native_tools'', PBool True)]"

definition bulky_selection :: "string \<Rightarrow> string \<Rightarrow> api_run_selection" where
  "bulky_selection revision model =
     sample_selection\<lparr>connection_revision := revision, model_id := model, output_tokens := None\<rparr>"

lemma repr_str_len_replicate: "0 < n \<Longrightarrow> repr_str_len (replicate n (CHR 0x01)) = 2 + 4 * n"
  by (simp add: repr_str_len_def repr_quote_def repr_char_len_def sum_list_replicate Let_def)

lemma strip_replicate: "strip (replicate n (CHR 0x01)) = replicate n (CHR 0x01)"
  by (rule strip_id) (cases "n = 0"; simp add: is_space_def Let_def)

lemma bulky_init:
  assumes "strip r \<noteq> []" "length r \<le> 1000" "strip m \<noteq> []" "length m \<le> 1000"
  shows "api_run_selection_init (bulky_selection_args r m) = Inr (bulky_selection r m)"
  unfolding api_run_selection_init_def bulky_selection_args_def
  using assms
  by (simp add: attr_def pget_def pget_default_def dkeys_def has_key_def
        SELECTION_REQUIRED_def SELECTION_DEFAULTS_def bulky_selection_def sample_selection_def
        identity_text_def label_text_def known_text_def in_string_set_def flag_def opt_flag_def
        opt_known_def positive_def opt_positive_def is_space_def strip_def)

lemma bulky_len:
  "repr_dict_len (bulky_selection_args r m) = Some (117 + repr_str_len r + repr_str_len m)"
  "repr_dict_len (selection_to_payload (bulky_selection r m))
     = Some (479 + repr_str_len r + repr_str_len m)"
   apply (simp add: bulky_selection_args_def repr_simps)
  apply (simp add: selection_to_payload_def bulky_selection_def sample_selection_def opt_int_def
      opt_bool_def opt_text_def repr_simps)
  done

text \<open>
  The size bound is checked on the text that was sent and not on the text that is stored.
  Reading fills in the defaults, so a selection can be admitted whose own payload is too
  large to be read again.
\<close>

theorem selection_admitted_not_rereadable:
  "\<exists>d s. selection_from_payload (PDict d) = Inr s \<and>
     selection_from_payload (PDict (selection_to_payload s))
       = Inl (ValueError ''invalid persisted API selection'')"
proof (intro exI conjI)
  let ?r = "replicate 900 (CHR 0x01)" and ?m = "replicate 1000 (CHR 0x01)"
  have len: "repr_str_len ?r = 3602" "repr_str_len ?m = 4002"
    by (simp_all add: repr_str_len_replicate)
  have "strip ?r \<noteq> []" "strip ?m \<noteq> []" by (simp_all add: strip_replicate)
  then have init: "api_run_selection_init (bulky_selection_args ?r ?m) = Inr (bulky_selection ?r ?m)"
    by (intro bulky_init) simp_all
  show "selection_from_payload (PDict (bulky_selection_args ?r ?m)) = Inr (bulky_selection ?r ?m)"
    unfolding selection_from_payload_Inr using init len by (simp add: bulky_len(1))
  show "selection_from_payload (PDict (selection_to_payload (bulky_selection ?r ?m)))
      = Inl (ValueError ''invalid persisted API selection'')"
    by (simp add: selection_from_payload_def bulky_len(2) len)
qed

end
