(* ===== verification/Operation_Progress.thy ===== *)
theory Operation_Progress
  imports Durable_Model
begin

text \<open>
  The bounded progress history of an operation
  (\<^verbatim>\<open>codey/runtime/core/progress.py\<close>) and the execution counters that carry it
  (\<open>RuntimeExecutionCounters\<close> of \<^verbatim>\<open>operation_payload.py\<close>), with both
  payload directions.
\<close>

section \<open>Progress snapshots\<close>

record tool_attempt =
  ta_tool :: string
  ta_call_fp :: string
  ta_result_fp :: string
  ta_ok :: bool
  ta_changed :: bool
  ta_turn :: int
  ta_edit_epoch :: int

record progress_snapshot =
  pr_limit :: int
  pr_seen :: "(string \<times> string \<times> string) list"
  pr_attempts :: "tool_attempt list"
  pr_idle :: int
  pr_last_batch_id :: string
  pr_schema_version :: int
  pr_repair_failure_key :: string
  pr_repair_rejections :: int

definition new_progress :: progress_snapshot where
  "new_progress =
     \<lparr>pr_limit = 4, pr_seen = [], pr_attempts = [], pr_idle = 0, pr_last_batch_id = [],
      pr_schema_version = 1, pr_repair_failure_key = [], pr_repair_rejections = 0\<rparr>"

definition attempt_payload :: "tool_attempt \<Rightarrow> pyval" where
  "attempt_payload a =
     PDict [(''tool'', PStr (ta_tool a)), (''call_fp'', PStr (ta_call_fp a)),
       (''result_fp'', PStr (ta_result_fp a)), (''ok'', PBool (ta_ok a)),
       (''changed'', PBool (ta_changed a)), (''turn'', PInt (ta_turn a)),
       (''edit_epoch'', PInt (ta_edit_epoch a))]"

definition seen_payload :: "string \<times> string \<times> string \<Rightarrow> pyval" where
  "seen_payload key = (case key of (a, b, c) \<Rightarrow> PList [PStr a, PStr b, PStr c])"

definition progress_to_payload :: "progress_snapshot \<Rightarrow> jobj result" where
  "progress_to_payload p =
     (let payload =
        [(''limit'', PInt (pr_limit p)), (''seen'', PList (map seen_payload (pr_seen p))),
         (''attempts'', PList (map attempt_payload (pr_attempts p))),
         (''idle'', PInt (pr_idle p)), (''last_batch_id'', PStr (pr_last_batch_id p))]
      in if pr_schema_version p = 2 then
           Inr (payload @ [(''schema_version'', PInt 2),
             (''repair_failure_key'', PStr (pr_repair_failure_key p)),
             (''repair_rejections'', PInt (pr_repair_rejections p))])
         else if pr_schema_version p \<noteq> 1 \<or> pr_repair_failure_key p \<noteq> []
             \<or> pr_repair_rejections p \<noteq> 0
         then Inl (ValueError ''repair observations require progress schema v2'')
         else Inr payload)"

definition lower_hex :: "char \<Rightarrow> bool" where
  "lower_hex c = (c \<in> set ''0123456789abcdef'')"

definition seen_of_payload :: "pyval \<Rightarrow> (string \<times> string \<times> string) result" where
  "seen_of_payload v =
     (case v of
        PList [PStr a, PStr b, PStr c] \<Rightarrow>
          if length c \<noteq> 24 \<or> \<not> list_all lower_hex c
          then Inl (ValueError ''invalid progress information key'') else Inr (a, b, c)
      | _ \<Rightarrow> Inl (ValueError ''invalid progress information key''))"

definition ATTEMPT_KEYS :: "string list" where
  "ATTEMPT_KEYS = [''tool'', ''call_fp'', ''result_fp'', ''ok'', ''changed'', ''turn'', ''edit_epoch'']"

text \<open>\<open>set(d) == {...}\<close> for the keys of a dictionary.\<close>

definition has_exactly :: "string list \<Rightarrow> jobj \<Rightarrow> bool" where
  "has_exactly keys d = (list_all (\<lambda>k. has_key k d) keys \<and> list_all (\<lambda>k. k \<in> set keys) (dkeys d))"

definition attempt_of_payload :: "pyval \<Rightarrow> tool_attempt result" where
  "attempt_of_payload v =
     (case v of
        PDict d \<Rightarrow>
          if \<not> has_exactly ATTEMPT_KEYS d then Inl (ValueError ''invalid progress attempt'')
          else (case (pget d ''tool'', pget d ''call_fp'', pget d ''result_fp'', pget d ''ok'',
                      pget d ''changed'', pget d ''turn'', pget d ''edit_epoch'') of
                 (PStr t, PStr c, PStr r, PBool k, PBool g, PInt n, PInt e) \<Rightarrow>
                   if n < 0 \<or> e < 0 then Inl (ValueError ''invalid progress attempt'')
                   else Inr \<lparr>ta_tool = t, ta_call_fp = c, ta_result_fp = r, ta_ok = k,
                             ta_changed = g, ta_turn = n, ta_edit_epoch = e\<rparr>
               | _ \<Rightarrow> Inl (ValueError ''invalid progress attempt''))
      | _ \<Rightarrow> Inl (ValueError ''invalid progress attempt''))"

definition progress_fields :: "int \<Rightarrow> string list" where
  "progress_fields version =
     [''limit'', ''seen'', ''attempts'', ''idle'', ''last_batch_id''] @
     (if version = 2 then [''schema_version'', ''repair_failure_key'', ''repair_rejections''] else [])"

definition progress_history ::
  "jobj \<Rightarrow> ((string \<times> string \<times> string) list \<times> tool_attempt list) result" where
  "progress_history d =
     (case (pget d ''seen'', pget d ''attempts'') of
        (PList raw_seen, PList raw_attempts) \<Rightarrow>
          if length raw_seen > 256 \<or> length raw_attempts > 16
          then Inl (ValueError ''progress snapshot exceeds its bounded history'')
          else bind_r (map_r seen_of_payload raw_seen) (\<lambda>seen.
            if \<not> distinct seen then Inl (ValueError ''duplicate progress information key'')
            else bind_r (map_r attempt_of_payload raw_attempts) (\<lambda>attempts. Inr (seen, attempts)))
      | _ \<Rightarrow> Inl (ValueError ''progress snapshot exceeds its bounded history''))"

definition progress_from_payload :: "pyval \<Rightarrow> progress_snapshot result" where
  "progress_from_payload v =
     (case v of
        PDict d \<Rightarrow>
          (case pget_default d ''schema_version'' (PInt 1) of
             PInt version \<Rightarrow>
               if version \<noteq> 1 \<and> version \<noteq> 2
               then Inl (ValueError ''invalid progress snapshot version'')
               else if \<not> has_exactly (progress_fields version) d
               then Inl (ValueError ''invalid progress snapshot shape'')
               else (case (pget d ''limit'', pget d ''idle'', pget d ''last_batch_id'') of
                  (PInt limit, PInt idle, PStr batch) \<Rightarrow>
                    if limit < 1 \<or> idle < 0 \<or> length batch > 240
                    then Inl (ValueError ''invalid progress counts or batch identity'')
                    else (case (pget_default d ''repair_failure_key'' (PStr []),
                                pget_default d ''repair_rejections'' (PInt 0)) of
                       (PStr failure_key, PInt rejections) \<Rightarrow>
                         if length failure_key > 4096 \<or> \<not> (0 \<le> rejections \<and> rejections \<le> limit)
                           \<or> (failure_key \<noteq> []) \<noteq> (rejections \<noteq> 0)
                         then Inl (ValueError ''invalid repair rejection observation'')
                         else bind_r (progress_history d) (\<lambda>(seen, attempts).
                           Inr \<lparr>pr_limit = limit, pr_seen = seen, pr_attempts = attempts,
                             pr_idle = idle, pr_last_batch_id = batch, pr_schema_version = version,
                             pr_repair_failure_key = failure_key, pr_repair_rejections = rejections\<rparr>)
                     | _ \<Rightarrow> Inl (ValueError ''invalid repair rejection observation''))
                | _ \<Rightarrow> Inl (ValueError ''invalid progress counts or batch identity''))
           | _ \<Rightarrow> Inl (ValueError ''invalid progress snapshot version''))
      | _ \<Rightarrow> Inl (ValueError ''invalid progress snapshot shape''))"

section \<open>Execution counters\<close>

record execution_counters =
  ec_invalid_turns :: int
  ec_length_continuation_used :: bool
  ec_closing_round :: int
  ec_progress :: progress_snapshot

definition new_counters :: execution_counters where
  "new_counters =
     \<lparr>ec_invalid_turns = 0, ec_length_continuation_used = False, ec_closing_round = 0,
      ec_progress = new_progress\<rparr>"

definition COUNTER_KEYS :: "string list" where
  "COUNTER_KEYS = [''invalid_turns'', ''length_continuation_used'', ''closing_round'', ''progress'']"

definition counters_to_payload :: "execution_counters \<Rightarrow> jobj result" where
  "counters_to_payload c =
     bind_r (progress_to_payload (ec_progress c)) (\<lambda>progress.
       Inr [(''invalid_turns'', PInt (ec_invalid_turns c)),
            (''length_continuation_used'', PBool (ec_length_continuation_used c)),
            (''closing_round'', PInt (ec_closing_round c)), (''progress'', PDict progress)])"

text \<open>\<open>except ValueError as exc: raise RuntimeOperationTransitionError(str(exc))\<close>.\<close>

definition as_transition :: "'a result \<Rightarrow> 'a result" where
  "as_transition r =
     (case r of
        Inl (ValueError msg) \<Rightarrow> Inl (TransitionError msg)
      | Inl e \<Rightarrow> Inl e
      | Inr x \<Rightarrow> Inr x)"

lemma as_transition_Inr [simp]: "as_transition r = Inr x \<longleftrightarrow> r = Inr x"
  by (auto simp: as_transition_def split: sum.splits py_error.splits)

lemma as_transition_Inr_eq [simp]: "as_transition (Inr x) = Inr x"
  by (simp add: as_transition_def)

definition counters_from_payload :: "pyval \<Rightarrow> execution_counters result" where
  "counters_from_payload v =
     (case v of
        PDict d \<Rightarrow>
          if \<not> has_exactly COUNTER_KEYS d
          then Inl (TransitionError ''invalid operation execution counters'')
          else (case (pget d ''invalid_turns'', pget d ''length_continuation_used'', pget d ''closing_round'') of
             (PInt turns, PBool used, PInt closing) \<Rightarrow>
               if turns < 0 \<or> \<not> (0 \<le> closing \<and> closing \<le> 4)
               then Inl (TransitionError ''invalid operation execution counters'')
               else bind_r (as_transition (progress_from_payload (pget d ''progress''))) (\<lambda>progress.
                    Inr \<lparr>ec_invalid_turns = turns, ec_length_continuation_used = used,
                         ec_closing_round = closing, ec_progress = progress\<rparr>)
           | _ \<Rightarrow> Inl (TransitionError ''invalid operation execution counters''))
      | _ \<Rightarrow> Inl (TransitionError ''invalid operation execution counters''))"

section \<open>Well-formed snapshots and their round trip\<close>

definition attempt_ok :: "tool_attempt \<Rightarrow> bool" where
  "attempt_ok a = (0 \<le> ta_turn a \<and> 0 \<le> ta_edit_epoch a)"

definition seen_ok :: "string \<times> string \<times> string \<Rightarrow> bool" where
  "seen_ok key = (case key of (a, b, c) \<Rightarrow> length c = 24 \<and> list_all lower_hex c)"

definition progress_ok :: "progress_snapshot \<Rightarrow> bool" where
  "progress_ok p =
     (1 \<le> pr_limit p \<and> 0 \<le> pr_idle p \<and> length (pr_last_batch_id p) \<le> 240
      \<and> (pr_schema_version p = 1 \<and> pr_repair_failure_key p = [] \<and> pr_repair_rejections p = 0
         \<or> pr_schema_version p = 2)
      \<and> length (pr_repair_failure_key p) \<le> 4096
      \<and> 0 \<le> pr_repair_rejections p \<and> pr_repair_rejections p \<le> pr_limit p
      \<and> (pr_repair_failure_key p = [] \<longleftrightarrow> pr_repair_rejections p = 0)
      \<and> length (pr_seen p) \<le> 256 \<and> length (pr_attempts p) \<le> 16
      \<and> distinct (pr_seen p) \<and> list_all seen_ok (pr_seen p) \<and> list_all attempt_ok (pr_attempts p))"

definition counters_ok :: "execution_counters \<Rightarrow> bool" where
  "counters_ok c =
     (0 \<le> ec_invalid_turns c \<and> 0 \<le> ec_closing_round c \<and> ec_closing_round c \<le> 4
      \<and> progress_ok (ec_progress c))"

lemma seen_of_payload_Inr:
  "seen_of_payload v = Inr key \<longleftrightarrow> v = seen_payload key \<and> seen_ok key"
  by (cases key) (auto simp: seen_of_payload_def seen_payload_def seen_ok_def
        split: pyval.splits list.splits)

lemma attempt_of_payload_ok: "attempt_of_payload v = Inr a \<Longrightarrow> attempt_ok a"
  by (simp only: attempt_of_payload_def read_value_Inr prod.case if_Inl_Inr)
     (auto simp: attempt_ok_def)

lemma attempt_round: "attempt_ok a \<Longrightarrow> attempt_of_payload (attempt_payload a) = Inr a"
  by (simp add: attempt_of_payload_def attempt_payload_def attempt_ok_def ATTEMPT_KEYS_def
        has_exactly_def has_key_def dkeys_def pget_def pget_default_def)

lemma seen_list_round:
  "list_all seen_ok keys \<Longrightarrow> map_r seen_of_payload (map seen_payload keys) = Inr keys"
  by (simp add: map_r_Inr list_all2_map1 list_all2_same seen_of_payload_Inr list_all_iff)

lemma attempt_list_round:
  "list_all attempt_ok xs \<Longrightarrow> map_r attempt_of_payload (map attempt_payload xs) = Inr xs"
  by (simp add: map_r_Inr list_all2_map1 list_all2_same attempt_round list_all_iff)

lemma map_r_all: "map_r f xs = Inr ys \<Longrightarrow> (\<And>x y. f x = Inr y \<Longrightarrow> P y) \<Longrightarrow> list_all P ys"
  by (auto simp: map_r_Inr list_all2_conv_all_nth list_all_length)

lemma map_r_length: "map_r f xs = Inr ys \<Longrightarrow> length ys = length xs"
  by (auto simp: map_r_Inr list_all2_lengthD)

lemma progress_history_ok:
  assumes "progress_history d = Inr (seen, attempts)"
  shows "length seen \<le> 256 \<and> length attempts \<le> 16 \<and> distinct seen
    \<and> list_all seen_ok seen \<and> list_all attempt_ok attempts"
proof -
  from assms obtain raw_seen raw_attempts where
      raw: "pget d ''seen'' = PList raw_seen" "pget d ''attempts'' = PList raw_attempts"
      "length raw_seen \<le> 256" "length raw_attempts \<le> 16" "distinct seen"
    and m: "map_r seen_of_payload raw_seen = Inr seen" "map_r attempt_of_payload raw_attempts = Inr attempts"
    by (simp only: progress_history_def read_value_Inr prod.case if_Inl_Inr bind_r_eq_Inr) auto
  show ?thesis
    using raw map_r_length [OF m(1)] map_r_length [OF m(2)]
      map_r_all [OF m(1), of seen_ok] map_r_all [OF m(2), of attempt_ok]
    by (simp add: seen_of_payload_Inr attempt_of_payload_ok)
qed

lemma progress_from_payload_D:
  assumes "progress_from_payload v = Inr p"
  shows "\<exists>d. v = PDict d \<and> has_exactly (progress_fields (pr_schema_version p)) d
    \<and> (pr_schema_version p = 1 \<or> pr_schema_version p = 2)
    \<and> 1 \<le> pr_limit p \<and> 0 \<le> pr_idle p \<and> length (pr_last_batch_id p) \<le> 240
    \<and> pget_default d ''repair_failure_key'' (PStr []) = PStr (pr_repair_failure_key p)
    \<and> pget_default d ''repair_rejections'' (PInt 0) = PInt (pr_repair_rejections p)
    \<and> length (pr_repair_failure_key p) \<le> 4096 \<and> 0 \<le> pr_repair_rejections p
    \<and> pr_repair_rejections p \<le> pr_limit p
    \<and> (pr_repair_failure_key p = [] \<longleftrightarrow> pr_repair_rejections p = 0)
    \<and> progress_history d = Inr (pr_seen p, pr_attempts p)"
  using assms
  apply (simp only: progress_from_payload_def read_value_Inr prod.case if_Inl_Inr bind_r_eq_Inr
      split_paired_Ex sum.inject)
  apply (elim exE conjE)
  apply (hypsubst, intro exI conjI, rule refl)
  apply (simp_all, linarith?)
  done

lemma version_one_fields:
  assumes "has_exactly (progress_fields 1) d"
  shows "map_of d ''repair_failure_key'' = None \<and> map_of d ''repair_rejections'' = None"
proof -
  have "map_of d k = None" if "k \<notin> set (progress_fields 1)" for k
    using assms that by (auto simp: has_exactly_def list_all_iff dkeys_eq_dom)
  then show ?thesis by (simp add: progress_fields_def)
qed

lemma progress_from_payload_ok:
  assumes "progress_from_payload v = Inr p" shows "progress_ok p"
proof -
  obtain d where d: "has_exactly (progress_fields (pr_schema_version p)) d"
      "pget_default d ''repair_failure_key'' (PStr []) = PStr (pr_repair_failure_key p)"
      "pget_default d ''repair_rejections'' (PInt 0) = PInt (pr_repair_rejections p)"
      "progress_history d = Inr (pr_seen p, pr_attempts p)"
    using progress_from_payload_D [OF assms] by blast
  have "pr_repair_failure_key p = [] \<and> pr_repair_rejections p = 0" if "pr_schema_version p = 1"
    using version_one_fields [of d] d that by (simp add: pget_default_def)
  with progress_from_payload_D [OF assms] progress_history_ok [OF d(4)] show ?thesis
    unfolding progress_ok_def by blast
qed

text \<open>The two payload forms, one per schema version.\<close>

definition progress_base :: "progress_snapshot \<Rightarrow> jobj" where
  "progress_base p =
     [(''limit'', PInt (pr_limit p)), (''seen'', PList (map seen_payload (pr_seen p))),
      (''attempts'', PList (map attempt_payload (pr_attempts p))),
      (''idle'', PInt (pr_idle p)), (''last_batch_id'', PStr (pr_last_batch_id p))]"

definition progress_repairs :: "progress_snapshot \<Rightarrow> jobj" where
  "progress_repairs p =
     (if pr_schema_version p = 2 then
        [(''schema_version'', PInt 2), (''repair_failure_key'', PStr (pr_repair_failure_key p)),
         (''repair_rejections'', PInt (pr_repair_rejections p))] else [])"

lemma progress_to_payload_form:
  "progress_ok p \<Longrightarrow> progress_to_payload p = Inr (progress_base p @ progress_repairs p)"
  by (auto simp: progress_ok_def progress_to_payload_def progress_base_def progress_repairs_def Let_def)

lemma progress_payload_get:
  assumes "progress_ok p"
  defines "d \<equiv> progress_base p @ progress_repairs p"
  shows "pget_default d ''schema_version'' (PInt 1) = PInt (pr_schema_version p)"
    and "has_exactly (progress_fields (pr_schema_version p)) d"
    and "pget d ''limit'' = PInt (pr_limit p)" "pget d ''idle'' = PInt (pr_idle p)"
    and "pget d ''last_batch_id'' = PStr (pr_last_batch_id p)"
    and "pget_default d ''repair_failure_key'' (PStr []) = PStr (pr_repair_failure_key p)"
    and "pget_default d ''repair_rejections'' (PInt 0) = PInt (pr_repair_rejections p)"
    and "progress_history d = Inr (pr_seen p, pr_attempts p)"
  using assms(1) seen_list_round [of "pr_seen p"] attempt_list_round [of "pr_attempts p"]
  unfolding d_def progress_ok_def
  by (auto simp: progress_base_def progress_repairs_def progress_fields_def has_exactly_def
        progress_history_def has_key_def dkeys_def pget_def pget_default_def)

lemma progress_round:
  assumes "progress_ok p"
  shows "\<exists>d. progress_to_payload p = Inr d \<and> progress_from_payload (PDict d) = Inr p"
proof -
  have "progress_from_payload (PDict (progress_base p @ progress_repairs p)) = Inr p"
    using assms unfolding progress_from_payload_def
    by (simp add: progress_payload_get [OF assms]) (auto simp: progress_ok_def)
  with progress_to_payload_form [OF assms] show ?thesis by simp
qed

lemma counters_from_payload_ok: "counters_from_payload v = Inr c \<Longrightarrow> counters_ok c"
  by (simp only: counters_from_payload_def read_value_Inr prod.case if_Inl_Inr bind_r_eq_Inr
        as_transition_Inr)
     (auto simp: counters_ok_def dest: progress_from_payload_ok)

lemma counters_round:
  assumes "counters_ok c"
  shows "\<exists>d. counters_to_payload c = Inr d \<and> counters_from_payload (PDict d) = Inr c"
  using assms progress_round [of "ec_progress c"]
  by (auto simp: counters_ok_def counters_to_payload_def counters_from_payload_def COUNTER_KEYS_def
        has_exactly_def has_key_def dkeys_def pget_def pget_default_def)

lemma new_counters_ok [simp]: "counters_ok new_counters"
  by (simp add: counters_ok_def new_counters_def new_progress_def progress_ok_def)

end
