(* ===== verification/Operation_Payload.thy ===== *)
theory Operation_Payload
  imports Api_Selection Operation_Progress
begin

text \<open>
  The persisted schema of a runtime operation
  (\<^verbatim>\<open>codey/runtime/core/operation_payload.py\<close>): leaves, the operation state
  and its terminal record, and the reader that accepts only consistent records.
\<close>

named_theorems leaf_simps \<open>membership in the leaf groups\<close>

section \<open>Leaves\<close>

text \<open>
  One constructor per constant \<open>LEAF_...\<close>; \<open>LEAVES\<close> lists them all, so a
  text outside of it is no leaf.
\<close>

datatype leaf =
    LEAF_ACCEPTED
  | LEAF_WRITER_RUNNING
  | LEAF_PROVIDER_REQUEST_READY
  | LEAF_PROVIDER_EFFECT_PENDING
  | LEAF_PROVIDER_RESPONSE_READY
  | LEAF_PLAN_READY
  | LEAF_COMPLETION_PENDING
  | LEAF_CONTROL_READY
  | LEAF_CLOSING
  | LEAF_KERNEL_SETTLED
  | LEAF_TOOL_EFFECT_PENDING
  | LEAF_TOOL_DELIVERY_PENDING
  | LEAF_WRITER_SETTLED
  | LEAF_COMPLETION_PROOF_RECORDED
  | LEAF_REPAIR_CONTEXT_ADMITTED
  | LEAF_REPAIR_RUNNING
  | LEAF_REPAIR_SETTLED
  | LEAF_TERMINAL

fun leaf_value :: "leaf \<Rightarrow> string" where
  "leaf_value LEAF_ACCEPTED = ''accepted''"
| "leaf_value LEAF_WRITER_RUNNING = ''writer_running''"
| "leaf_value LEAF_PROVIDER_REQUEST_READY = ''provider_request_ready''"
| "leaf_value LEAF_PROVIDER_EFFECT_PENDING = ''provider_effect_pending''"
| "leaf_value LEAF_PROVIDER_RESPONSE_READY = ''provider_response_ready''"
| "leaf_value LEAF_PLAN_READY = ''plan_ready''"
| "leaf_value LEAF_COMPLETION_PENDING = ''completion_pending''"
| "leaf_value LEAF_CONTROL_READY = ''control_ready''"
| "leaf_value LEAF_CLOSING = ''closing''"
| "leaf_value LEAF_KERNEL_SETTLED = ''kernel_settled''"
| "leaf_value LEAF_TOOL_EFFECT_PENDING = ''tool_effect_pending''"
| "leaf_value LEAF_TOOL_DELIVERY_PENDING = ''tool_delivery_pending''"
| "leaf_value LEAF_WRITER_SETTLED = ''writer_settled''"
| "leaf_value LEAF_COMPLETION_PROOF_RECORDED = ''completion_proof_recorded''"
| "leaf_value LEAF_REPAIR_CONTEXT_ADMITTED = ''repair_context_admitted''"
| "leaf_value LEAF_REPAIR_RUNNING = ''repair_running''"
| "leaf_value LEAF_REPAIR_SETTLED = ''repair_settled''"
| "leaf_value LEAF_TERMINAL = ''terminal''"

definition LEAVES :: "leaf list" where
  "LEAVES =
     [LEAF_ACCEPTED, LEAF_WRITER_RUNNING, LEAF_PROVIDER_REQUEST_READY,
      LEAF_PROVIDER_EFFECT_PENDING, LEAF_PROVIDER_RESPONSE_READY, LEAF_PLAN_READY,
      LEAF_COMPLETION_PENDING, LEAF_CONTROL_READY, LEAF_CLOSING, LEAF_KERNEL_SETTLED,
      LEAF_TOOL_EFFECT_PENDING, LEAF_TOOL_DELIVERY_PENDING, LEAF_WRITER_SETTLED,
      LEAF_COMPLETION_PROOF_RECORDED, LEAF_REPAIR_CONTEXT_ADMITTED, LEAF_REPAIR_RUNNING,
      LEAF_REPAIR_SETTLED, LEAF_TERMINAL]"

definition leaf_of :: "string \<Rightarrow> leaf option" where
  "leaf_of t = List.find (\<lambda>l. leaf_value l = t) LEAVES"

definition DRIVER_WRITER :: string where "DRIVER_WRITER = ''writer''"

definition DRIVER_REPAIR :: string where "DRIVER_REPAIR = ''repair''"

definition DRIVERS :: "string list" where "DRIVERS = [DRIVER_WRITER, DRIVER_REPAIR]"

definition PENDING_LEAVES :: "leaf list" where
  "PENDING_LEAVES =
     [LEAF_PROVIDER_REQUEST_READY, LEAF_PROVIDER_EFFECT_PENDING, LEAF_PROVIDER_RESPONSE_READY,
      LEAF_PLAN_READY, LEAF_COMPLETION_PENDING, LEAF_CONTROL_READY, LEAF_CLOSING,
      LEAF_KERNEL_SETTLED, LEAF_TOOL_EFFECT_PENDING, LEAF_TOOL_DELIVERY_PENDING]"

definition RESPONSE_LEAVES :: "leaf list" where
  "RESPONSE_LEAVES =
     [LEAF_PROVIDER_RESPONSE_READY, LEAF_PLAN_READY, LEAF_COMPLETION_PENDING,
      LEAF_CONTROL_READY, LEAF_CLOSING, LEAF_TOOL_EFFECT_PENDING, LEAF_TOOL_DELIVERY_PENDING]"

definition WORK_LEAVES :: "leaf list" where
  "WORK_LEAVES =
     [LEAF_CONTROL_READY, LEAF_CLOSING, LEAF_KERNEL_SETTLED, LEAF_PROVIDER_REQUEST_READY,
      LEAF_PROVIDER_EFFECT_PENDING, LEAF_PROVIDER_RESPONSE_READY]"

definition PRE_REPAIR_LEAVES :: "leaf list" where
  "PRE_REPAIR_LEAVES = [LEAF_ACCEPTED, LEAF_WRITER_RUNNING, LEAF_WRITER_SETTLED]"

definition REPAIR_STRUCTURAL_LEAVES :: "leaf list" where
  "REPAIR_STRUCTURAL_LEAVES =
     [LEAF_REPAIR_CONTEXT_ADMITTED, LEAF_REPAIR_RUNNING, LEAF_REPAIR_SETTLED]"

definition POST_PROOF_BASE_LEAVES :: "leaf list" where
  "POST_PROOF_BASE_LEAVES = LEAF_COMPLETION_PROOF_RECORDED # REPAIR_STRUCTURAL_LEAVES"

definition VERDICT_LEAVES :: "leaf list" where
  "VERDICT_LEAVES = [LEAF_COMPLETION_PROOF_RECORDED, LEAF_REPAIR_SETTLED, LEAF_TERMINAL]"

lemmas leaf_groups = PENDING_LEAVES_def RESPONSE_LEAVES_def WORK_LEAVES_def PRE_REPAIR_LEAVES_def
  REPAIR_STRUCTURAL_LEAVES_def POST_PROOF_BASE_LEAVES_def VERDICT_LEAVES_def

lemma leaf_of_value [simp]: "leaf_of (leaf_value l) = Some l"
  by (cases l) (simp_all add: leaf_of_def LEAVES_def)

lemma leaf_of_Some: "leaf_of t = Some l \<longleftrightarrow> t = leaf_value l"
  by (auto simp: leaf_of_def find_Some_iff) (use leaf_of_def leaf_of_value in \<open>metis find_Some_iff\<close>)

section \<open>Limits, keys and recorded statuses\<close>

definition SCHEMA_VERSION :: int where "SCHEMA_VERSION = 6"

definition KIND :: string where "KIND = ''runtime_operation_state''"

definition MAX_TEXT_CHARS :: nat where "MAX_TEXT_CHARS = 80"

definition MAX_REF_CHARS :: nat where "MAX_REF_CHARS = 160"

definition MAX_PROJECT_REF_CHARS :: nat where "MAX_PROJECT_REF_CHARS = 240"

definition MAX_ID_CHARS :: nat where "MAX_ID_CHARS = 200"

lemmas char_limits = MAX_TEXT_CHARS_def MAX_REF_CHARS_def MAX_PROJECT_REF_CHARS_def MAX_ID_CHARS_def

definition KNOWN_PAYLOAD_KEYS :: "string list" where
  "KNOWN_PAYLOAD_KEYS =
     [''schema_version'', ''kind'', ''session_id'', ''run_id'', ''operation_id'', ''lane'',
      ''project_ref'', ''provider_id'', ''turn_budget'', ''max_repair_rounds'', ''leaf'',
      ''started_at'', ''updated_at'', ''task_kind'', ''task_policy'',
      ''model_selection'', ''reviewer_selection'', ''final_delivery'',
      ''writer_attempt'', ''candidate_validation_attempted'', ''turns_used'', ''stop_reason'',
      ''completion_proof_ref'', ''completion_proof_status'', ''repair_rounds'', ''continuation_ref'',
      ''repair_context_ref'', ''blocked_reason'', ''driver'', ''turn'', ''tool_index'', ''terminal'',
      ''response_ref'', ''request_ref'', ''counters'', ''work_ref'', ''logical_turn'']"

definition KNOWN_TERMINAL_KEYS :: "string list" where
  "KNOWN_TERMINAL_KEYS =
     [''stop_reason'', ''summary_chars'', ''turns'', ''max_turns'', ''provider'',
      ''blocked_reason'', ''finished_at'']"

definition RECORDED_PROOF_STATUSES :: "string list" where
  "RECORDED_PROOF_STATUSES = [''complete'', ''complete_with_limitations'', ''failed'', ''blocked'']"

definition BLOCKABLE_PROOF_STATUSES :: "string list" where
  "BLOCKABLE_PROOF_STATUSES = [''failed'', ''blocked'']"

definition REPAIR_SOURCE_PROOF_STATUSES :: "string list" where
  "REPAIR_SOURCE_PROOF_STATUSES = [''failed'']"

text \<open>
  The reference patterns \<open>^prefix:[0-9a-f]{n}$\<close>. With \<open>match\<close> the dollar
  also accepts one newline at the end; \<open>fullmatch\<close> does not.
\<close>

definition ref_fullmatch :: "string \<Rightarrow> nat \<Rightarrow> string \<Rightarrow> bool" where
  "ref_fullmatch prefix n t =
     (take (length prefix) t = prefix \<and> length t = length prefix + n
      \<and> list_all lower_hex (drop (length prefix) t))"

definition ref_match :: "string \<Rightarrow> nat \<Rightarrow> string \<Rightarrow> bool" where
  "ref_match prefix n t =
     (ref_fullmatch prefix n t
      \<or> (t \<noteq> [] \<and> last t = CHR 0x0A \<and> ref_fullmatch prefix n (butlast t)))"

definition project_ref_match :: "string \<Rightarrow> bool" where
  "project_ref_match t = ref_match ''project:'' 24 t"

definition proof_ref_match :: "string \<Rightarrow> bool" where
  "proof_ref_match t = ref_match ''completion_proof:'' 16 t"

definition proof_ref_fullmatch :: "string \<Rightarrow> bool" where
  "proof_ref_fullmatch t = ref_fullmatch ''completion_proof:'' 16 t"

definition sha256_ref_match :: "string \<Rightarrow> bool" where
  "sha256_ref_match t = ref_match ''sha256:'' 64 t"

section \<open>Field readers\<close>

text \<open>\<open>_text\<close> and \<open>_count\<close>; the limit and the bounds are the keyword arguments.\<close>

definition text_field :: "nat \<Rightarrow> bool \<Rightarrow> string \<Rightarrow> pyval \<Rightarrow> string result" where
  "text_field limit allow_empty field v =
     (case v of
        PStr t \<Rightarrow>
          if strip t \<noteq> t then Inl (TransitionError (field @ '' must be canonical''))
          else if t = [] \<and> \<not> allow_empty then Inl (TransitionError (field @ '' must not be empty''))
          else if length t > limit
          then Inl (TransitionError (field @ '' exceeds '' @ dec_nat limit @ '' chars''))
          else Inr t
      | _ \<Rightarrow> Inl (TransitionError (field @ '' must be string'')))"

definition count_field :: "int \<Rightarrow> int option \<Rightarrow> string \<Rightarrow> pyval \<Rightarrow> int result" where
  "count_field minimum maximum field v =
     (case v of
        PInt n \<Rightarrow>
          if n < minimum then Inl (TransitionError (field @ '' must be int >= '' @ dec_int minimum))
          else (case maximum of
                  None \<Rightarrow> Inr n
                | Some m \<Rightarrow>
                    if n > m then Inl (TransitionError (field @ '' must be at most '' @ dec_int m))
                    else Inr n)
      | _ \<Rightarrow> Inl (TransitionError (field @ '' must be int >= '' @ dec_int minimum)))"

definition text_ok :: "nat \<Rightarrow> bool \<Rightarrow> string \<Rightarrow> bool" where
  "text_ok limit allow_empty t = (strip t = t \<and> (t \<noteq> [] \<or> allow_empty) \<and> length t \<le> limit)"

definition count_ok :: "int \<Rightarrow> int option \<Rightarrow> int \<Rightarrow> bool" where
  "count_ok minimum maximum n =
     (minimum \<le> n \<and> (case maximum of None \<Rightarrow> True | Some m \<Rightarrow> n \<le> m))"

lemma text_field_Inr [simp]:
  "text_field limit e field v = Inr t \<longleftrightarrow> v = PStr t \<and> text_ok limit e t"
  by (cases v) (auto simp: text_field_def text_ok_def)

lemma count_field_Inr [simp]:
  "count_field lo hi field v = Inr n \<longleftrightarrow> v = PInt n \<and> count_ok lo hi n"
  by (cases v; cases hi) (auto simp: count_field_def count_ok_def)

lemma field_readers:
  "text_ok limit e t \<Longrightarrow> text_field limit e field (PStr t) = Inr t"
  "count_ok lo hi n \<Longrightarrow> count_field lo hi field (PInt n) = Inr n"
  by simp_all

lemma count_ok_simps [simp]:
  "count_ok lo None n \<longleftrightarrow> lo \<le> n" "count_ok lo (Some hi) n \<longleftrightarrow> lo \<le> n \<and> n \<le> hi"
  by (simp_all add: count_ok_def)

text \<open>A canonical text has no newline at its end, so \<open>match\<close> and \<open>fullmatch\<close> agree on it.\<close>

lemma strip_last: "strip t = t \<Longrightarrow> t \<noteq> [] \<Longrightarrow> \<not> is_space (last t)"
proof -
  assume "strip t = t" "t \<noteq> []"
  then have "rev (dropWhile is_space (rev (dropWhile is_space t))) = t" by (simp add: strip_def)
  moreover have "u = [] \<or> \<not> is_space (hd u)" if "u = dropWhile is_space w" for u w
    using that by (metis dropWhile_eq_Nil_conv hd_dropWhile)
  ultimately show ?thesis
    using \<open>t \<noteq> []\<close> by (metis hd_rev rev_is_Nil_conv rev_rev_ident)
qed

lemma ref_match_canonical: "strip t = t \<Longrightarrow> ref_match prefix n t = ref_fullmatch prefix n t"
  using strip_last [of t] by (auto simp: ref_match_def is_space_def Let_def)

definition parse_final_delivery :: "pyval \<Rightarrow> string result" where
  "parse_final_delivery v =
     (case v of
        PStr t \<Rightarrow> if t \<notin> set [''not_required'', ''success'', ''failed'', ''unknown'']
                  then Inl (TransitionError ''invalid final model result delivery'') else Inr t
      | _ \<Rightarrow> Inl (TransitionError ''invalid final model result delivery''))"

definition parse_model_selection :: "pyval \<Rightarrow> jobj result" where
  "parse_model_selection v =
     (if v = PNone \<or> py_eq v (PDict []) then Inr []
      else (case selection_from_payload v of
              Inl (ValueError _) \<Rightarrow> Inl (TransitionError ''invalid admitted API selection'')
            | Inl e \<Rightarrow> Inl e
            | Inr s \<Rightarrow> Inr (selection_to_payload s)))"

text \<open>\<open>json.dumps(value, allow_nan=False)\<close> decides; the deep copy is the value itself.\<close>

definition parse_task_policy :: "pyval \<Rightarrow> jobj result" where
  "parse_task_policy v =
     (case v of
        PNone \<Rightarrow> Inr []
      | PDict d \<Rightarrow> if dumps_ok (PDict d) then Inr d
                    else Inl (TransitionError ''task_policy must be JSON data'')
      | _ \<Rightarrow> Inl (TransitionError ''task_policy must be an object''))"

definition selection_stored :: "jobj \<Rightarrow> bool" where
  "selection_stored d = (d = [] \<or> parse_model_selection (PDict d) = Inr d)"

section \<open>Records\<close>

record operation_terminal =
  tm_stop_reason :: string
  tm_summary_chars :: int
  tm_turns :: int
  tm_max_turns :: int
  tm_provider :: string
  tm_blocked_reason :: string
  tm_finished_at :: string

definition terminal_to_payload :: "operation_terminal \<Rightarrow> jobj" where
  "terminal_to_payload t =
     [(''stop_reason'', PStr (tm_stop_reason t)), (''summary_chars'', PInt (tm_summary_chars t)),
      (''turns'', PInt (tm_turns t)), (''max_turns'', PInt (tm_max_turns t)),
      (''provider'', PStr (tm_provider t)), (''blocked_reason'', PStr (tm_blocked_reason t)),
      (''finished_at'', PStr (tm_finished_at t))]"

definition read_terminal :: "jobj \<Rightarrow> operation_terminal result" where
  "read_terminal d =
     (if list_ex (\<lambda>k. k \<notin> set KNOWN_TERMINAL_KEYS) (dkeys d)
      then Inl (TransitionError ''terminal payload carries unknown keys'')
      else
      bind_r (text_field MAX_TEXT_CHARS True ''stop_reason'' (pget d ''stop_reason'')) (\<lambda>stop.
      bind_r (count_field 0 None ''summary_chars'' (pget d ''summary_chars'')) (\<lambda>chars.
      bind_r (count_field 0 None ''turns'' (pget d ''turns'')) (\<lambda>turns.
      bind_r (count_field 0 None ''max_turns'' (pget d ''max_turns'')) (\<lambda>max_turns.
      bind_r (text_field MAX_TEXT_CHARS True ''provider'' (pget d ''provider'')) (\<lambda>provider.
      bind_r (text_field MAX_TEXT_CHARS True ''blocked_reason'' (pget d ''blocked_reason'')) (\<lambda>blocked.
      bind_r (text_field 40 False ''finished_at'' (pget d ''finished_at'')) (\<lambda>finished.
      Inr \<lparr>tm_stop_reason = stop, tm_summary_chars = chars, tm_turns = turns,
           tm_max_turns = max_turns, tm_provider = provider, tm_blocked_reason = blocked,
           tm_finished_at = finished\<rparr>))))))))"

definition terminal_from_payload :: "pyval \<Rightarrow> operation_terminal option" where
  "terminal_from_payload v =
     (case v of PDict d \<Rightarrow> (case read_terminal d of Inl _ \<Rightarrow> None | Inr t \<Rightarrow> Some t) | _ \<Rightarrow> None)"

definition terminal_identity :: "operation_terminal \<Rightarrow> operation_terminal" where
  "terminal_identity t = t\<lparr>tm_finished_at := []\<rparr>"

definition terminal_ok :: "operation_terminal \<Rightarrow> bool" where
  "terminal_ok t =
     (text_ok MAX_TEXT_CHARS True (tm_stop_reason t) \<and> 0 \<le> tm_summary_chars t \<and> 0 \<le> tm_turns t
      \<and> 0 \<le> tm_max_turns t \<and> text_ok MAX_TEXT_CHARS True (tm_provider t)
      \<and> text_ok MAX_TEXT_CHARS True (tm_blocked_reason t) \<and> text_ok 40 False (tm_finished_at t))"

lemma read_terminal_ok: "read_terminal d = Inr t \<Longrightarrow> terminal_ok t"
  by (auto simp: read_terminal_def terminal_ok_def)

lemma terminal_from_payload_ok: "terminal_from_payload v = Some t \<Longrightarrow> terminal_ok t"
  by (auto simp: terminal_from_payload_def dest: read_terminal_ok split: pyval.splits sum.splits)

lemma terminal_round:
  "terminal_ok t \<Longrightarrow> terminal_from_payload (PDict (terminal_to_payload t)) = Some t"
  by (simp add: terminal_from_payload_def read_terminal_def terminal_to_payload_def terminal_ok_def
        KNOWN_TERMINAL_KEYS_def dkeys_def pget_def pget_default_def field_readers)

record operation_state =
  op_session_id :: string
  op_run_id :: string
  op_operation_id :: string
  op_lane :: string
  op_project_ref :: string
  op_provider_id :: string
  op_turn_budget :: int
  op_max_repair_rounds :: int
  op_leaf :: leaf
  op_started_at :: string
  op_updated_at :: string
  op_task_kind :: string
  op_task_policy :: jobj
  op_model_selection :: jobj
  op_reviewer_selection :: jobj
  op_final_delivery :: string
  op_writer_attempt :: int
  op_candidate_validation_attempted :: bool
  op_turns_used :: int
  op_stop_reason :: string
  op_completion_proof_ref :: string
  op_completion_proof_status :: string
  op_repair_rounds :: int
  op_repair_context_ref :: string
  op_blocked_reason :: string
  op_driver :: string
  op_turn :: int
  op_tool_index :: int
  op_response_ref :: string
  op_request_ref :: string
  op_work_ref :: string
  op_continuation_ref :: string
  op_logical_turn :: int
  op_counters :: execution_counters
  op_terminal :: "operation_terminal option"

section \<open>Writing the payload\<close>

definition payload_base :: "operation_state \<Rightarrow> jobj \<Rightarrow> jobj" where
  "payload_base s counters =
     [(''schema_version'', PInt SCHEMA_VERSION),
      (''kind'', PStr KIND),
      (''session_id'', PStr (op_session_id s)),
      (''run_id'', PStr (op_run_id s)),
      (''operation_id'', PStr (op_operation_id s)),
      (''lane'', PStr (op_lane s)),
      (''project_ref'', PStr (op_project_ref s)),
      (''provider_id'', PStr (op_provider_id s)),
      (''turn_budget'', PInt (op_turn_budget s)),
      (''max_repair_rounds'', PInt (op_max_repair_rounds s)),
      (''leaf'', PStr (leaf_value (op_leaf s))),
      (''started_at'', PStr (op_started_at s)),
      (''updated_at'', PStr (op_updated_at s)),
      (''task_kind'', PStr (op_task_kind s)),
      (''writer_attempt'', PInt (op_writer_attempt s)),
      (''candidate_validation_attempted'', PBool (op_candidate_validation_attempted s)),
      (''turns_used'', PInt (op_turns_used s)),
      (''stop_reason'', PStr (op_stop_reason s)),
      (''completion_proof_ref'', PStr (op_completion_proof_ref s)),
      (''completion_proof_status'', PStr (op_completion_proof_status s)),
      (''repair_rounds'', PInt (op_repair_rounds s)),
      (''repair_context_ref'', PStr (op_repair_context_ref s)),
      (''blocked_reason'', PStr (op_blocked_reason s)),
      (''driver'', PStr (op_driver s)),
      (''turn'', PInt (op_turn s)),
      (''tool_index'', PInt (op_tool_index s)),
      (''counters'', PDict counters),
      (''logical_turn'', PInt (op_logical_turn s))]"

definition optional_text :: "string \<Rightarrow> string \<Rightarrow> jobj" where
  "optional_text k t = (if t = [] then [] else [(k, PStr t)])"

definition optional_selection :: "string \<Rightarrow> jobj \<Rightarrow> jobj result" where
  "optional_selection k d =
     (if d = [] then Inr []
      else bind_r (parse_model_selection (PDict d)) (\<lambda>d'. Inr [(k, PDict d')]))"

definition optional_delivery :: "string \<Rightarrow> jobj result" where
  "optional_delivery t =
     (if t = ''not_required'' then Inr []
      else bind_r (parse_final_delivery (PStr t)) (\<lambda>t'. Inr [(''final_delivery'', PStr t')]))"

definition operation_to_payload :: "operation_state \<Rightarrow> jobj result" where
  "operation_to_payload s =
     bind_r (counters_to_payload (op_counters s)) (\<lambda>counters.
     bind_r (optional_delivery (op_final_delivery s)) (\<lambda>delivery.
     bind_r (optional_selection ''model_selection'' (op_model_selection s)) (\<lambda>model.
     bind_r (optional_selection ''reviewer_selection'' (op_reviewer_selection s)) (\<lambda>reviewer.
     Inr (payload_base s counters @ delivery
          @ optional_text ''response_ref'' (op_response_ref s)
          @ optional_text ''work_ref'' (op_work_ref s)
          @ optional_text ''continuation_ref'' (op_continuation_ref s)
          @ optional_text ''request_ref'' (op_request_ref s)
          @ model @ reviewer
          @ (if op_task_policy s = [] then [] else [(''task_policy'', PDict (op_task_policy s))])
          @ (case op_terminal s of None \<Rightarrow> []
             | Some t \<Rightarrow> [(''terminal'', PDict (terminal_to_payload t))]))))))"

section \<open>Consistency checks\<close>

definition is_repair_leaf :: "leaf \<Rightarrow> string \<Rightarrow> bool" where
  "is_repair_leaf l driver =
     (l \<in> set REPAIR_STRUCTURAL_LEAVES \<or> (l \<in> set PENDING_LEAVES \<and> driver = DRIVER_REPAIR))"

definition is_writer_pending_leaf :: "leaf \<Rightarrow> string \<Rightarrow> bool" where
  "is_writer_pending_leaf l driver = (l \<in> set PENDING_LEAVES \<and> driver = DRIVER_WRITER)"

definition valid_project_ref :: "string \<Rightarrow> bool" where
  "valid_project_ref t = (t = [] \<or> project_ref_match t)"

definition proof_facts_claimed :: "string \<Rightarrow> string \<Rightarrow> bool option \<Rightarrow> bool" where
  "proof_facts_claimed proof_ref proof_status satisfied =
     (proof_ref \<noteq> [] \<or> proof_status \<noteq> [] \<or> satisfied \<noteq> None)"

definition proof_facts_complete :: "string \<Rightarrow> string \<Rightarrow> bool option \<Rightarrow> bool" where
  "proof_facts_complete proof_ref proof_status satisfied =
     (proof_ref \<noteq> [] \<and> proof_status \<noteq> [] \<and> satisfied \<noteq> None)"

definition repair_facts_claimed :: "int \<Rightarrow> string \<Rightarrow> bool" where
  "repair_facts_claimed rounds context_ref = (rounds > 0 \<or> context_ref \<noteq> [])"

definition blocked_verdict_facts_supported :: "string \<Rightarrow> string \<Rightarrow> bool option \<Rightarrow> bool" where
  "blocked_verdict_facts_supported proof_ref proof_status satisfied =
     (proof_facts_complete proof_ref proof_status satisfied
      \<and> proof_status \<in> set BLOCKABLE_PROOF_STATUSES \<and> satisfied = Some False)"

definition proof_satisfied :: "string \<Rightarrow> string \<Rightarrow> bool option" where
  "proof_satisfied proof_ref proof_status =
     (if proof_ref \<noteq> [] then Some (proof_status = ''complete'') else None)"

definition validate_pending_leaf :: "leaf \<Rightarrow> string \<Rightarrow> int \<Rightarrow> int \<Rightarrow> unit result" where
  "validate_pending_leaf l driver turn tool_index =
     (if l \<notin> set PENDING_LEAVES then
        raise_if (driver \<noteq> [] \<or> turn \<noteq> 0 \<or> tool_index \<noteq> 0)
          (TransitionError ''non-pending leaf carries pending effect facts'')
      else if driver \<notin> set DRIVERS then Inl (TransitionError ''pending leaf requires driver'')
      else raise_if (l \<in> set [LEAF_PROVIDER_REQUEST_READY, LEAF_PROVIDER_EFFECT_PENDING,
                             LEAF_PROVIDER_RESPONSE_READY] \<and> tool_index \<noteq> 0)
             (TransitionError ''provider pending cannot carry tool index''))"

definition require_repair_leaf_consistent ::
  "leaf \<Rightarrow> string \<Rightarrow> string \<Rightarrow> string \<Rightarrow> int \<Rightarrow> bool result" where
  "require_repair_leaf_consistent l driver context_ref proof_status rounds =
     (let repair = is_repair_leaf l driver in
      if repair \<and> context_ref = [] then Inl (TransitionError ''repair leaf requires context ref'')
      else if repair \<and> proof_status \<noteq> ''failed''
      then Inl (TransitionError ''repair leaf requires failed proof'')
      else if repair \<and> l \<noteq> LEAF_REPAIR_CONTEXT_ADMITTED \<and> rounds < 1
      then Inl (TransitionError ''repair execution requires committed round'')
      else Inr repair)"

definition require_proof_stage_consistent ::
  "leaf \<Rightarrow> string \<Rightarrow> bool \<Rightarrow> string \<Rightarrow> string \<Rightarrow> bool option \<Rightarrow> int \<Rightarrow> string \<Rightarrow> unit result" where
  "require_proof_stage_consistent l driver repair proof_ref proof_status satisfied rounds context_ref =
     (if l \<in> set PRE_REPAIR_LEAVES \<or> is_writer_pending_leaf l driver then
        if repair_facts_claimed rounds context_ref
        then Inl (TransitionError ''pre-repair leaf cannot carry repair facts'')
        else raise_if (proof_facts_claimed proof_ref proof_status satisfied)
               (TransitionError ''pre-repair leaf cannot carry proof facts'')
      else if l \<in> set POST_PROOF_BASE_LEAVES \<or> repair then
        if \<not> proof_facts_complete proof_ref proof_status satisfied
        then Inl (TransitionError ''post-proof leaf requires proof facts'')
        else raise_if (l = LEAF_COMPLETION_PROOF_RECORDED \<and> repair_facts_claimed rounds context_ref
                       \<and> (context_ref = [] \<or> rounds < 1))
               (TransitionError ''re-proof carries partial repair record'')
      else if l = LEAF_TERMINAL then
        (let complete = proof_facts_complete proof_ref proof_status satisfied in
         if proof_facts_claimed proof_ref proof_status satisfied \<and> \<not> complete
         then Inl (TransitionError ''terminal carries incomplete proof facts'')
         else if repair_facts_claimed rounds context_ref \<and> \<not> complete
         then Inl (TransitionError ''terminal carries repair facts without proof'')
         else if rounds > 0 \<and> context_ref = []
         then Inl (TransitionError ''terminal carries rounds without context'')
         else raise_if (context_ref \<noteq> [] \<and> rounds = 0 \<and> proof_status \<noteq> ''failed'')
                (TransitionError ''terminal admitted context requires failed proof''))
      else Inr ())"

definition require_verdict :: "leaf \<Rightarrow> string \<Rightarrow> string \<Rightarrow> bool option \<Rightarrow> string \<Rightarrow> unit result" where
  "require_verdict l proof_ref proof_status satisfied blocked_reason =
     (if blocked_reason \<noteq> [] \<and> l \<notin> set VERDICT_LEAVES
      then Inl (TransitionError ''blocked verdict is not valid for leaf'')
      else raise_if (blocked_reason \<noteq> []
             \<and> \<not> blocked_verdict_facts_supported proof_ref proof_status satisfied)
             (TransitionError ''blocked verdict requires failed or blocked proof''))"

definition require_fresh_leaf_facts :: "leaf \<Rightarrow> int \<Rightarrow> int \<Rightarrow> string \<Rightarrow> unit result" where
  "require_fresh_leaf_facts l writer_attempt turns_used stop_reason =
     (if l = LEAF_ACCEPTED \<and> (writer_attempt \<noteq> 1 \<or> turns_used \<noteq> 0 \<or> stop_reason \<noteq> [])
      then Inl (TransitionError ''accepted must be fresh'')
      else raise_if (l = LEAF_WRITER_RUNNING
             \<and> (stop_reason \<noteq> [] \<or> (writer_attempt = 1 \<and> turns_used \<noteq> 0)))
             (TransitionError ''writer_running cannot carry settled facts''))"

text \<open>The three references a leaf may, must or must not carry.\<close>

definition response_ref_fits :: "leaf \<Rightarrow> string \<Rightarrow> bool" where
  "response_ref_fits l r =
     (\<not> (l \<in> set [LEAF_PROVIDER_RESPONSE_READY, LEAF_PLAN_READY, LEAF_COMPLETION_PENDING] \<and> r = [])
      \<and> \<not> (r \<noteq> [] \<and> l \<notin> set (LEAF_PROVIDER_REQUEST_READY # RESPONSE_LEAVES)))"

definition request_ref_fits :: "leaf \<Rightarrow> string \<Rightarrow> bool" where
  "request_ref_fits l r = ((r \<noteq> []) = (l = LEAF_PROVIDER_REQUEST_READY))"

definition work_ref_fits :: "leaf \<Rightarrow> string \<Rightarrow> bool" where
  "work_ref_fits l r =
     (\<not> (l \<in> set [LEAF_CONTROL_READY, LEAF_CLOSING, LEAF_KERNEL_SETTLED] \<and> r = [])
      \<and> \<not> (r \<noteq> [] \<and> l \<notin> set WORK_LEAVES))"

section \<open>Reading a payload\<close>

abbreviation text80 :: "bool \<Rightarrow> string \<Rightarrow> jobj \<Rightarrow> string result" where
  "text80 e k d \<equiv> text_field MAX_TEXT_CHARS e k (pget d k)"

abbreviation opt_text80 :: "string \<Rightarrow> jobj \<Rightarrow> string result" where
  "opt_text80 k d \<equiv> text_field MAX_TEXT_CHARS True k (pget_default d k (PStr []))"

definition parse_operation_identity ::
  "jobj \<Rightarrow> (string \<times> string \<times> string \<times> string \<times> leaf) result" where
  "parse_operation_identity d =
     bind_r (text_field MAX_ID_CHARS False ''session_id'' (pget d ''session_id'')) (\<lambda>session_id.
     bind_r (text_field MAX_ID_CHARS False ''run_id'' (pget d ''run_id'')) (\<lambda>run_id.
     bind_r (text_field MAX_ID_CHARS False ''operation_id'' (pget d ''operation_id'')) (\<lambda>operation_id.
     bind_r (text_field MAX_ID_CHARS False ''lane'' (pget d ''lane'')) (\<lambda>lane.
     bind_r (text_field 48 False ''leaf'' (pget d ''leaf'')) (\<lambda>t.
     (case leaf_of t of
        None \<Rightarrow> Inl (TransitionError ''unknown operation leaf'')
      | Some l \<Rightarrow> Inr (session_id, run_id, operation_id, lane, l)))))))"

definition parse_continuation_ref :: "jobj \<Rightarrow> string result" where
  "parse_continuation_ref d =
     bind_r (opt_text80 ''continuation_ref'' d) (\<lambda>reference.
       if reference \<noteq> [] \<and> (pget d ''task_kind'' \<noteq> PStr ''research''
                            \<or> \<not> ref_fullmatch ''artifact_'' 24 reference)
       then Inl (TransitionError ''invalid research continuation reference'') else Inr reference)"

definition parse_operation_counts :: "jobj \<Rightarrow> (int \<times> int \<times> int \<times> int \<times> int \<times> int) result" where
  "parse_operation_counts d =
     bind_r (count_field 0 None ''turn_budget'' (pget d ''turn_budget'')) (\<lambda>turn_budget.
     bind_r (count_field 0 None ''max_repair_rounds'' (pget d ''max_repair_rounds'')) (\<lambda>max_rounds.
     bind_r (count_field 0 (Some turn_budget) ''turns_used'' (pget d ''turns_used'')) (\<lambda>turns_used.
     bind_r (count_field 0 (Some max_rounds) ''repair_rounds'' (pget d ''repair_rounds'')) (\<lambda>rounds.
     bind_r (count_field 0 None ''turn'' (pget d ''turn'')) (\<lambda>turn.
     bind_r (count_field 0 None ''tool_index'' (pget d ''tool_index'')) (\<lambda>tool_index.
     Inr (turn_budget, max_rounds, turns_used, rounds, turn, tool_index)))))))"

definition parse_operation_project :: "jobj \<Rightarrow> (string \<times> int \<times> string) result" where
  "parse_operation_project d =
     bind_r (text_field MAX_PROJECT_REF_CHARS True ''project_ref'' (pget d ''project_ref'')) (\<lambda>project_ref.
       if \<not> valid_project_ref project_ref
       then Inl (TransitionError ''project_ref must be project ref'')
       else
     bind_r (count_field 1 None ''writer_attempt'' (pget d ''writer_attempt'')) (\<lambda>writer_attempt.
     bind_r (text80 True ''stop_reason'' d) (\<lambda>stop_reason.
     Inr (project_ref, writer_attempt, stop_reason))))"

definition parse_operation_proof ::
  "jobj \<Rightarrow> leaf \<Rightarrow> int \<Rightarrow> int \<Rightarrow> (string \<times> string \<times> bool option \<times> string \<times> string) result" where
  "parse_operation_proof d l turn tool_index =
     bind_r (text_field MAX_REF_CHARS True ''completion_proof_ref'' (pget d ''completion_proof_ref'')) (\<lambda>proof_ref.
     bind_r (text80 True ''completion_proof_status'' d) (\<lambda>proof_status.
     if proof_ref \<noteq> [] \<and> \<not> proof_ref_match proof_ref
     then Inl (TransitionError ''completion_proof_ref must be completion proof ref'')
     else if proof_status \<noteq> [] \<and> proof_status \<notin> set RECORDED_PROOF_STATUSES
     then Inl (TransitionError ''unknown proof status'')
     else
     bind_r (text_field MAX_REF_CHARS True ''repair_context_ref'' (pget d ''repair_context_ref'')) (\<lambda>context_ref.
     if context_ref \<noteq> [] \<and> \<not> sha256_ref_match context_ref
     then Inl (TransitionError ''repair_context_ref must be sha256 digest'')
     else
     bind_r (text80 True ''driver'' d) (\<lambda>driver.
     bind_r (validate_pending_leaf l driver turn tool_index) (\<lambda>_.
     Inr (proof_ref, proof_status, proof_satisfied proof_ref proof_status, context_ref, driver))))))"

definition parse_operation_verdict ::
  "jobj \<Rightarrow> leaf \<Rightarrow> string \<Rightarrow> string \<Rightarrow> bool option \<Rightarrow> string result" where
  "parse_operation_verdict d l proof_ref proof_status satisfied =
     bind_r (text80 True ''blocked_reason'' d) (\<lambda>blocked_reason.
     bind_r (require_verdict l proof_ref proof_status satisfied blocked_reason) (\<lambda>_.
     Inr blocked_reason))"

definition parse_operation_terminal ::
  "jobj \<Rightarrow> leaf \<Rightarrow> int \<Rightarrow> string \<Rightarrow> operation_terminal option result" where
  "parse_operation_terminal d l turn_budget blocked_reason =
     (if l = LEAF_TERMINAL then
        (case terminal_from_payload (pget d ''terminal'') of
           None \<Rightarrow> Inl (TransitionError ''terminal leaf requires terminal payload'')
         | Some t \<Rightarrow>
             if tm_max_turns t \<noteq> turn_budget
             then Inl (TransitionError ''terminal max_turns must match budget'')
             else if tm_turns t > tm_max_turns t
             then Inl (TransitionError ''terminal turns exceeds max_turns'')
             else if blocked_reason \<noteq> tm_blocked_reason t
             then Inl (TransitionError ''terminal blocked reason mismatch'')
             else Inr (Some t))
      else if has_key ''terminal'' d
      then Inl (TransitionError ''non-terminal must not carry terminal'')
      else Inr None)"

definition read_operation_state :: "jobj \<Rightarrow> operation_state result" where
  "read_operation_state d =
     (if list_ex (\<lambda>k. k \<notin> set KNOWN_PAYLOAD_KEYS) (dkeys d)
      then Inl (TransitionError ''runtime operation state carries unknown keys'')
      else
      bind_r (parse_operation_identity d) (\<lambda>(session_id, run_id, operation_id, lane, l).
      bind_r (opt_text80 ''response_ref'' d) (\<lambda>response_ref.
      bind_r (raise_if (\<not> response_ref_fits l response_ref)
        (TransitionError ''response reference does not match operation leaf'')) (\<lambda>_.
      bind_r (opt_text80 ''request_ref'' d) (\<lambda>request_ref.
      bind_r (raise_if (\<not> request_ref_fits l request_ref)
        (TransitionError ''request reference does not match operation leaf'')) (\<lambda>_.
      bind_r (opt_text80 ''work_ref'' d) (\<lambda>work_ref.
      bind_r (raise_if (\<not> work_ref_fits l work_ref)
        (TransitionError ''decision reference does not match operation leaf'')) (\<lambda>_.
      bind_r (parse_operation_counts d) (\<lambda>(turn_budget, max_rounds, turns_used, rounds, turn, tool_index).
      bind_r (parse_operation_project d) (\<lambda>(project_ref, writer_attempt, stop_reason).
      bind_r (case as_bool (pget d ''candidate_validation_attempted'') of
                None \<Rightarrow> Inl (TransitionError ''invalid candidate validation consumption'')
              | Some b \<Rightarrow> if b \<and> writer_attempt < 2
                  then Inl (TransitionError ''invalid candidate validation consumption'') else Inr b) (\<lambda>validation.
      bind_r (parse_operation_proof d l turn tool_index) (\<lambda>(proof_ref, proof_status, satisfied, context_ref, driver).
      bind_r (require_repair_leaf_consistent l driver context_ref proof_status rounds) (\<lambda>repair.
      bind_r (require_proof_stage_consistent l driver repair proof_ref proof_status satisfied rounds context_ref) (\<lambda>_.
      bind_r (parse_operation_verdict d l proof_ref proof_status satisfied) (\<lambda>blocked_reason.
      bind_r (require_fresh_leaf_facts l writer_attempt turns_used stop_reason) (\<lambda>_.
      bind_r (parse_operation_terminal d l turn_budget blocked_reason) (\<lambda>terminal.
      bind_r (text80 False ''provider_id'' d) (\<lambda>provider_id.
      bind_r (text_field 40 False ''started_at'' (pget d ''started_at'')) (\<lambda>started_at.
      bind_r (text_field 40 False ''updated_at'' (pget d ''updated_at'')) (\<lambda>updated_at.
      bind_r (text80 False ''task_kind'' d) (\<lambda>task_kind.
      bind_r (parse_task_policy (pget d ''task_policy'')) (\<lambda>task_policy.
      bind_r (parse_model_selection (pget d ''model_selection'')) (\<lambda>model_selection.
      bind_r (parse_model_selection (pget d ''reviewer_selection'')) (\<lambda>reviewer_selection.
      bind_r (parse_final_delivery (pget_default d ''final_delivery'' (PStr ''not_required''))) (\<lambda>delivery.
      bind_r (parse_continuation_ref d) (\<lambda>continuation_ref.
      bind_r (count_field 0 None ''logical_turn'' (pget_default d ''logical_turn'' (PInt 0))) (\<lambda>logical_turn.
      bind_r (counters_from_payload (pget d ''counters'')) (\<lambda>counters.
      Inr \<lparr>op_session_id = session_id, op_run_id = run_id, op_operation_id = operation_id,
           op_lane = lane, op_project_ref = project_ref, op_provider_id = provider_id,
           op_turn_budget = turn_budget, op_max_repair_rounds = max_rounds, op_leaf = l,
           op_started_at = started_at, op_updated_at = updated_at, op_task_kind = task_kind,
           op_task_policy = task_policy, op_model_selection = model_selection,
           op_reviewer_selection = reviewer_selection, op_final_delivery = delivery,
           op_writer_attempt = writer_attempt, op_candidate_validation_attempted = validation,
           op_turns_used = turns_used, op_stop_reason = stop_reason,
           op_completion_proof_ref = proof_ref, op_completion_proof_status = proof_status,
           op_repair_rounds = rounds, op_repair_context_ref = context_ref,
           op_blocked_reason = blocked_reason, op_driver = driver, op_turn = turn,
           op_tool_index = tool_index, op_response_ref = response_ref,
           op_request_ref = request_ref, op_work_ref = work_ref,
           op_continuation_ref = continuation_ref, op_logical_turn = logical_turn,
           op_counters = counters, op_terminal = terminal\<rparr>))))))))))))))))))))))))))))"

text \<open>
  \<open>except RuntimeOperationTransitionError: return None\<close>. The readers turn the \<open>ValueError\<close> of
  a nested record into that error themselves, and raise nothing else on the values of the model, so
  every error of the reading is a refusal.
\<close>

definition operation_from_payload :: "pyval \<Rightarrow> operation_state option" where
  "operation_from_payload v =
     (case v of
        PDict d \<Rightarrow>
          if pget d ''schema_version'' \<noteq> PInt SCHEMA_VERSION then None
          else if pget d ''kind'' \<noteq> PStr KIND then None
          else (case read_operation_state d of Inl _ \<Rightarrow> None | Inr s \<Rightarrow> Some s)
      | _ \<Rightarrow> None)"

end
