(* ===== verification/Operation_Wf.thy ===== *)
theory Operation_Wf
  imports Operation_Payload
begin

text \<open>
  The consistency invariant of a stored operation state. It is exactly what the reader of
  \<^verbatim>\<open>operation_payload.py\<close> enforces: every state it accepts satisfies the
  invariant, and every state with the invariant is written and read back unchanged.
\<close>

section \<open>The invariant, group by group\<close>

definition op_texts_ok :: "operation_state \<Rightarrow> bool" where
  "op_texts_ok s =
     (list_all (text_ok MAX_ID_CHARS False)
        [op_session_id s, op_run_id s, op_operation_id s, op_lane s]
      \<and> list_all (text_ok MAX_TEXT_CHARS False) [op_provider_id s, op_task_kind s]
      \<and> list_all (text_ok 40 False) [op_started_at s, op_updated_at s]
      \<and> list_all (text_ok MAX_TEXT_CHARS True)
          [op_stop_reason s, op_completion_proof_status s, op_blocked_reason s, op_driver s,
           op_response_ref s, op_request_ref s, op_work_ref s, op_continuation_ref s])"

definition op_counts_ok :: "operation_state \<Rightarrow> bool" where
  "op_counts_ok s =
     (0 \<le> op_turns_used s \<and> op_turns_used s \<le> op_turn_budget s
      \<and> 0 \<le> op_repair_rounds s \<and> op_repair_rounds s \<le> op_max_repair_rounds s
      \<and> 0 \<le> op_turn s \<and> 0 \<le> op_tool_index s \<and> 0 \<le> op_logical_turn s
      \<and> 1 \<le> op_writer_attempt s
      \<and> (op_candidate_validation_attempted s \<longrightarrow> 2 \<le> op_writer_attempt s)
      \<and> counters_ok (op_counters s))"

definition op_refs_ok :: "operation_state \<Rightarrow> bool" where
  "op_refs_ok s =
     (text_ok MAX_PROJECT_REF_CHARS True (op_project_ref s) \<and> valid_project_ref (op_project_ref s)
      \<and> text_ok MAX_REF_CHARS True (op_completion_proof_ref s)
      \<and> (op_completion_proof_ref s = [] \<or> proof_ref_match (op_completion_proof_ref s))
      \<and> (op_completion_proof_status s = [] \<or>
           op_completion_proof_status s \<in> set RECORDED_PROOF_STATUSES)
      \<and> text_ok MAX_REF_CHARS True (op_repair_context_ref s)
      \<and> (op_repair_context_ref s = [] \<or> sha256_ref_match (op_repair_context_ref s))
      \<and> response_ref_fits (op_leaf s) (op_response_ref s)
      \<and> request_ref_fits (op_leaf s) (op_request_ref s)
      \<and> work_ref_fits (op_leaf s) (op_work_ref s)
      \<and> (op_continuation_ref s = [] \<or>
           op_task_kind s = ''research'' \<and> ref_fullmatch ''artifact_'' 24 (op_continuation_ref s)))"

definition op_satisfied :: "operation_state \<Rightarrow> bool option" where
  "op_satisfied s = proof_satisfied (op_completion_proof_ref s) (op_completion_proof_status s)"

definition op_stage_ok :: "operation_state \<Rightarrow> bool" where
  "op_stage_ok s =
     (validate_pending_leaf (op_leaf s) (op_driver s) (op_turn s) (op_tool_index s) = Inr ()
      \<and> require_repair_leaf_consistent (op_leaf s) (op_driver s) (op_repair_context_ref s)
          (op_completion_proof_status s) (op_repair_rounds s)
          = Inr (is_repair_leaf (op_leaf s) (op_driver s))
      \<and> require_proof_stage_consistent (op_leaf s) (op_driver s)
          (is_repair_leaf (op_leaf s) (op_driver s)) (op_completion_proof_ref s)
          (op_completion_proof_status s) (op_satisfied s) (op_repair_rounds s)
          (op_repair_context_ref s) = Inr ()
      \<and> require_verdict (op_leaf s) (op_completion_proof_ref s) (op_completion_proof_status s)
          (op_satisfied s) (op_blocked_reason s) = Inr ()
      \<and> require_fresh_leaf_facts (op_leaf s) (op_writer_attempt s) (op_turns_used s)
          (op_stop_reason s) = Inr ())"

definition terminal_fits :: "leaf \<Rightarrow> int \<Rightarrow> string \<Rightarrow> operation_terminal option \<Rightarrow> bool" where
  "terminal_fits l budget blocked x =
     (case x of None \<Rightarrow> l \<noteq> LEAF_TERMINAL
      | Some t \<Rightarrow> l = LEAF_TERMINAL \<and> terminal_ok t \<and> tm_max_turns t = budget
          \<and> tm_turns t \<le> budget \<and> tm_blocked_reason t = blocked)"

definition op_terminal_ok :: "operation_state \<Rightarrow> bool" where
  "op_terminal_ok s =
     terminal_fits (op_leaf s) (op_turn_budget s) (op_blocked_reason s) (op_terminal s)"

definition op_data_ok :: "operation_state \<Rightarrow> bool" where
  "op_data_ok s =
     (dumps_ok (PDict (op_task_policy s))
      \<and> op_final_delivery s \<in> set [''not_required'', ''success'', ''failed'', ''unknown''])"

definition op_selections_ok :: "operation_state \<Rightarrow> bool" where
  "op_selections_ok s =
     (selection_stored (op_model_selection s) \<and> selection_stored (op_reviewer_selection s))"

definition operation_valid :: "operation_state \<Rightarrow> bool" where
  "operation_valid s =
     (op_texts_ok s \<and> op_counts_ok s \<and> op_refs_ok s \<and> op_stage_ok s \<and> op_terminal_ok s \<and> op_data_ok s)"

lemmas operation_valid_parts = op_texts_ok_def op_counts_ok_def op_refs_ok_def op_stage_ok_def
  op_terminal_ok_def op_data_ok_def

section \<open>What the reader accepts\<close>

lemma parse_task_policy_Inr:
  "parse_task_policy v = Inr d \<longleftrightarrow> (v = PNone \<and> d = [] \<or> v = PDict d \<and> dumps_ok (PDict d))"
  by (cases v) (auto simp: parse_task_policy_def)

lemma parse_final_delivery_Inr:
  "parse_final_delivery v = Inr t \<longleftrightarrow>
     v = PStr t \<and> t \<in> set [''not_required'', ''success'', ''failed'', ''unknown'']"
  by (cases v) (auto simp: parse_final_delivery_def)

lemma require_repair_leaf_Inr:
  "require_repair_leaf_consistent l driver c st r = Inr b \<longleftrightarrow>
     b = is_repair_leaf l driver \<and>
     (is_repair_leaf l driver \<longrightarrow>
        c \<noteq> [] \<and> st = ''failed'' \<and> (l \<noteq> LEAF_REPAIR_CONTEXT_ADMITTED \<longrightarrow> 1 \<le> r))"
  by (auto simp: require_repair_leaf_consistent_def Let_def)

lemma parse_operation_terminal_Inr:
  assumes "parse_operation_terminal d l budget blocked = Inr x"
  shows "terminal_fits l budget blocked x"
proof (cases "l = LEAF_TERMINAL")
  case True
  with assms obtain t where t: "terminal_from_payload (pget d ''terminal'') = Some t" and
      "x = Some t" "tm_max_turns t = budget" "tm_turns t \<le> budget" "tm_blocked_reason t = blocked"
    by (auto simp: parse_operation_terminal_def split: option.splits if_splits)
  with terminal_from_payload_ok [OF t] True show ?thesis by (simp add: terminal_fits_def)
next
  case False
  with assms show ?thesis by (simp add: parse_operation_terminal_def terminal_fits_def split: if_splits)
qed

lemma leaf_value_inject [simp]: "leaf_value a = leaf_value b \<longleftrightarrow> a = b"
  by (metis leaf_of_value option.inject)

lemma case_leaf_Inr:
  "(case leaf_of t of None \<Rightarrow> Inl e | Some l \<Rightarrow> Inr (f l)) = Inr y
    \<longleftrightarrow> (\<exists>l. t = leaf_value l \<and> y = f l)"
  by (cases "leaf_of t") (auto simp: leaf_of_Some)

lemma case_flag_Inr:
  "(case as_bool v of None \<Rightarrow> Inl e | Some b \<Rightarrow> if b \<and> P then Inl e else Inr b) = Inr c
    \<longleftrightarrow> v = PBool c \<and> (c \<longrightarrow> \<not> P)"
  by (cases v) auto

lemmas operation_readers = parse_operation_identity_def parse_operation_counts_def
  parse_operation_project_def parse_operation_proof_def parse_operation_verdict_def
  parse_continuation_ref_def

lemmas reader_Inr = if_Inl_Inr bind_r_eq_Inr raise_if_Inr text_field_Inr count_field_Inr
  split_paired_Ex prod.case sum.inject prod.inject case_leaf_Inr case_flag_Inr
  parse_task_policy_Inr parse_final_delivery_Inr require_repair_leaf_Inr

lemma read_operation_state_valid: "read_operation_state d = Inr s \<Longrightarrow> operation_valid s"
  apply (simp only: read_operation_state_def operation_readers reader_Inr)
  apply (elim exE conjE)
  apply hypsubst
  apply (unfold operation_valid_def, intro conjI)
       apply (simp add: op_texts_ok_def)
      apply (simp add: op_counts_ok_def counters_from_payload_ok not_less)
     apply (simp add: op_refs_ok_def)
    apply (simp add: op_stage_ok_def op_satisfied_def require_repair_leaf_Inr)
   apply (simp only: op_terminal_ok_def operation_state.simps, erule parse_operation_terminal_Inr)
  apply (simp only: op_data_ok_def operation_state.simps, erule disjE; simp)
  done

section \<open>Round trip\<close>

text \<open>\<open>d\<close> holds, under every key, what the fields of \<open>s\<close> say.\<close>

definition describes :: "jobj \<Rightarrow> operation_state \<Rightarrow> bool" where
  "describes d s =
     (list_all (\<lambda>(k, v). pget d k = v)
        [(''session_id'', PStr (op_session_id s)), (''run_id'', PStr (op_run_id s)),
         (''operation_id'', PStr (op_operation_id s)), (''lane'', PStr (op_lane s)),
         (''project_ref'', PStr (op_project_ref s)), (''provider_id'', PStr (op_provider_id s)),
         (''turn_budget'', PInt (op_turn_budget s)),
         (''max_repair_rounds'', PInt (op_max_repair_rounds s)),
         (''leaf'', PStr (leaf_value (op_leaf s))), (''started_at'', PStr (op_started_at s)),
         (''updated_at'', PStr (op_updated_at s)), (''task_kind'', PStr (op_task_kind s)),
         (''writer_attempt'', PInt (op_writer_attempt s)),
         (''candidate_validation_attempted'', PBool (op_candidate_validation_attempted s)),
         (''turns_used'', PInt (op_turns_used s)), (''stop_reason'', PStr (op_stop_reason s)),
         (''completion_proof_ref'', PStr (op_completion_proof_ref s)),
         (''completion_proof_status'', PStr (op_completion_proof_status s)),
         (''repair_rounds'', PInt (op_repair_rounds s)),
         (''repair_context_ref'', PStr (op_repair_context_ref s)),
         (''blocked_reason'', PStr (op_blocked_reason s)), (''driver'', PStr (op_driver s)),
         (''turn'', PInt (op_turn s)), (''tool_index'', PInt (op_tool_index s))]
      \<and> list_all (\<lambda>(k, t). pget_default d k (PStr []) = PStr t)
        [(''response_ref'', op_response_ref s), (''request_ref'', op_request_ref s),
         (''work_ref'', op_work_ref s), (''continuation_ref'', op_continuation_ref s)]
      \<and> pget_default d ''final_delivery'' (PStr ''not_required'') = PStr (op_final_delivery s)
      \<and> pget_default d ''logical_turn'' (PInt 0) = PInt (op_logical_turn s)
      \<and> parse_task_policy (pget d ''task_policy'') = Inr (op_task_policy s)
      \<and> parse_model_selection (pget d ''model_selection'') = Inr (op_model_selection s)
      \<and> parse_model_selection (pget d ''reviewer_selection'') = Inr (op_reviewer_selection s)
      \<and> counters_from_payload (pget d ''counters'') = Inr (op_counters s)
      \<and> (case op_terminal s of None \<Rightarrow> \<not> has_key ''terminal'' d
         | Some t \<Rightarrow> terminal_from_payload (pget d ''terminal'') = Some t))"

lemma leaf_text_ok: "text_ok 48 False (leaf_value l)"
  by (cases l) (simp_all add: text_ok_def strip_def is_space_def Let_def)

lemma described_terminal:
  assumes "op_terminal_ok s"
    and "case op_terminal s of None \<Rightarrow> \<not> has_key ''terminal'' d
         | Some t \<Rightarrow> terminal_from_payload (pget d ''terminal'') = Some t"
  shows "parse_operation_terminal d (op_leaf s) (op_turn_budget s) (op_blocked_reason s)
    = Inr (op_terminal s)"
  using assms
  by (cases "op_terminal s") (simp_all add: op_terminal_ok_def terminal_fits_def parse_operation_terminal_def)

lemma described_parts:
  assumes "operation_valid s" "describes d s"
  shows "parse_operation_identity d
      = Inr (op_session_id s, op_run_id s, op_operation_id s, op_lane s, op_leaf s)"
    and "parse_operation_counts d = Inr (op_turn_budget s, op_max_repair_rounds s, op_turns_used s,
      op_repair_rounds s, op_turn s, op_tool_index s)"
    and "parse_operation_project d = Inr (op_project_ref s, op_writer_attempt s, op_stop_reason s)"
    and "parse_operation_proof d (op_leaf s) (op_turn s) (op_tool_index s)
      = Inr (op_completion_proof_ref s, op_completion_proof_status s, op_satisfied s,
          op_repair_context_ref s, op_driver s)"
    and "parse_operation_verdict d (op_leaf s) (op_completion_proof_ref s)
      (op_completion_proof_status s) (op_satisfied s) = Inr (op_blocked_reason s)"
    and "parse_continuation_ref d = Inr (op_continuation_ref s)"
proof -
  note parts = assms(1) [unfolded operation_valid_def]
  show "parse_operation_identity d
      = Inr (op_session_id s, op_run_id s, op_operation_id s, op_lane s, op_leaf s)"
    using parts assms(2)
    by (simp add: describes_def parse_operation_identity_def op_texts_ok_def field_readers leaf_text_ok)
  show "parse_operation_counts d = Inr (op_turn_budget s, op_max_repair_rounds s, op_turns_used s,
      op_repair_rounds s, op_turn s, op_tool_index s)"
    using parts assms(2)
    by (simp add: describes_def parse_operation_counts_def op_counts_ok_def field_readers)
  show "parse_operation_project d = Inr (op_project_ref s, op_writer_attempt s, op_stop_reason s)"
    using parts assms(2)
    by (simp add: describes_def parse_operation_project_def op_counts_ok_def op_texts_ok_def
          op_refs_ok_def field_readers)
  show "parse_operation_proof d (op_leaf s) (op_turn s) (op_tool_index s)
      = Inr (op_completion_proof_ref s, op_completion_proof_status s, op_satisfied s,
          op_repair_context_ref s, op_driver s)"
    using parts assms(2)
    by (simp add: describes_def parse_operation_proof_def op_texts_ok_def op_refs_ok_def
          op_stage_ok_def op_satisfied_def field_readers)
  show "parse_operation_verdict d (op_leaf s) (op_completion_proof_ref s)
      (op_completion_proof_status s) (op_satisfied s) = Inr (op_blocked_reason s)"
    using parts assms(2)
    by (simp add: describes_def parse_operation_verdict_def op_texts_ok_def op_stage_ok_def field_readers)
  show "parse_continuation_ref d = Inr (op_continuation_ref s)"
    using parts assms(2)
    by (simp add: describes_def parse_continuation_ref_def op_texts_ok_def op_refs_ok_def field_readers)
qed

lemma read_described:
  assumes ok: "operation_valid s" and d: "describes d s"
    and keys: "\<not> list_ex (\<lambda>k. k \<notin> set KNOWN_PAYLOAD_KEYS) (dkeys d)"
  shows "read_operation_state d = Inr s"
proof -
  note parts = ok [unfolded operation_valid_def]
  have terminal: "parse_operation_terminal d (op_leaf s) (op_turn_budget s) (op_blocked_reason s)
      = Inr (op_terminal s)"
    using described_terminal parts d by (simp add: describes_def)
  have stage: "require_repair_leaf_consistent (op_leaf s) (op_driver s) (op_repair_context_ref s)
      (op_completion_proof_status s) (op_repair_rounds s) = Inr (is_repair_leaf (op_leaf s) (op_driver s))"
    "require_proof_stage_consistent (op_leaf s) (op_driver s)
      (is_repair_leaf (op_leaf s) (op_driver s)) (op_completion_proof_ref s)
      (op_completion_proof_status s) (op_satisfied s) (op_repair_rounds s)
      (op_repair_context_ref s) = Inr ()"
    "require_fresh_leaf_facts (op_leaf s) (op_writer_attempt s) (op_turns_used s)
      (op_stop_reason s) = Inr ()"
    using parts by (simp_all add: op_stage_ok_def)
  have refs: "response_ref_fits (op_leaf s) (op_response_ref s)"
    "request_ref_fits (op_leaf s) (op_request_ref s)" "work_ref_fits (op_leaf s) (op_work_ref s)"
    using parts by (simp_all add: op_refs_ok_def)
  have flag: "\<not> (op_candidate_validation_attempted s \<and> op_writer_attempt s < 2)"
    using parts by (auto simp: op_counts_ok_def)
  have readers: "opt_text80 ''response_ref'' d = Inr (op_response_ref s)"
    "opt_text80 ''request_ref'' d = Inr (op_request_ref s)"
    "opt_text80 ''work_ref'' d = Inr (op_work_ref s)"
    "pget d ''candidate_validation_attempted'' = PBool (op_candidate_validation_attempted s)"
    "text80 False ''provider_id'' d = Inr (op_provider_id s)"
    "text80 False ''task_kind'' d = Inr (op_task_kind s)"
    "text_field 40 False ''started_at'' (pget d ''started_at'') = Inr (op_started_at s)"
    "text_field 40 False ''updated_at'' (pget d ''updated_at'') = Inr (op_updated_at s)"
    "count_field 0 None ''logical_turn'' (pget_default d ''logical_turn'' (PInt 0)) = Inr (op_logical_turn s)"
    "parse_final_delivery (pget_default d ''final_delivery'' (PStr ''not_required'')) = Inr (op_final_delivery s)"
    "parse_task_policy (pget d ''task_policy'') = Inr (op_task_policy s)"
    "parse_model_selection (pget d ''model_selection'') = Inr (op_model_selection s)"
    "parse_model_selection (pget d ''reviewer_selection'') = Inr (op_reviewer_selection s)"
    "counters_from_payload (pget d ''counters'') = Inr (op_counters s)"
    using parts d
    by (simp_all add: describes_def op_texts_ok_def op_counts_ok_def op_data_ok_def parse_final_delivery_Inr)
  show ?thesis
    unfolding read_operation_state_def
    using keys flag
    by (simp only: described_parts [OF ok d] readers refs stage terminal prod.case bind_r_Inr if_False
          raise_if_simps not_True_eq_False as_bool.simps option.case) simp
qed

end
