(* ===== verification/Operation_Round.thy ===== *)
theory Operation_Round
  imports Operation_Wf
begin

text \<open>
  The round trip of an operation state through its payload, and the properties of the
  reader of \<^verbatim>\<open>operation_payload.py\<close>.
\<close>

definition optional_object :: "string \<Rightarrow> jobj \<Rightarrow> jobj" where
  "optional_object k d = (if d = [] then [] else [(k, PDict d)])"

definition payload_options :: "operation_state \<Rightarrow> jobj" where
  "payload_options s =
     (if op_final_delivery s = ''not_required'' then []
      else [(''final_delivery'', PStr (op_final_delivery s))])
     @ optional_text ''response_ref'' (op_response_ref s)
     @ optional_text ''work_ref'' (op_work_ref s)
     @ optional_text ''continuation_ref'' (op_continuation_ref s)
     @ optional_text ''request_ref'' (op_request_ref s)
     @ optional_object ''model_selection'' (op_model_selection s)
     @ optional_object ''reviewer_selection'' (op_reviewer_selection s)
     @ optional_object ''task_policy'' (op_task_policy s)
     @ (case op_terminal s of None \<Rightarrow> [] | Some t \<Rightarrow> [(''terminal'', PDict (terminal_to_payload t))])"

lemma selection_stored_optional:
  "selection_stored d \<Longrightarrow> optional_selection k d = Inr (optional_object k d)"
  by (auto simp: selection_stored_def optional_selection_def optional_object_def)

lemma optional_delivery_known:
  "t \<in> set [''not_required'', ''success'', ''failed'', ''unknown''] \<Longrightarrow>
   optional_delivery t = Inr (if t = ''not_required'' then [] else [(''final_delivery'', PStr t)])"
  by (auto simp: optional_delivery_def parse_final_delivery_def)

lemma operation_to_payload_form:
  assumes "operation_valid s" "op_selections_ok s" "counters_to_payload (op_counters s) = Inr c"
  shows "operation_to_payload s = Inr (payload_base s c @ payload_options s)"
proof -
  have del: "op_final_delivery s \<in> set [''not_required'', ''success'', ''failed'', ''unknown'']"
    using assms(1) by (simp add: operation_valid_def op_data_ok_def)
  have sel: "selection_stored (op_model_selection s)" "selection_stored (op_reviewer_selection s)"
    using assms(2) by (simp_all add: op_selections_ok_def)
  show ?thesis
    by (simp add: operation_to_payload_def assms(3) optional_delivery_known [OF del]
          selection_stored_optional [OF sel(1)] selection_stored_optional [OF sel(2)]
          payload_options_def optional_object_def)
qed

lemma map_of_optional [simp]:
  "map_of (optional_text k t) k' = (if t \<noteq> [] \<and> k' = k then Some (PStr t) else None)"
  "map_of (optional_object k d) k' = (if d \<noteq> [] \<and> k' = k then Some (PDict d) else None)"
  by (simp_all add: optional_text_def optional_object_def)

lemma map_of_terminal [simp]:
  "map_of (case x of None \<Rightarrow> [] | Some t \<Rightarrow> [(k, f t)]) k'
     = (if k' = k then map_option f x else None)"
  by (cases x) auto

lemma payload_base_get:
  "list_all (\<lambda>(k, v). pget (payload_base s c @ rest) k = v) (payload_base s c)"
  "pget_default (payload_base s c @ rest) ''logical_turn'' v = PInt (op_logical_turn s)"
  by (simp_all add: payload_base_def pget_def pget_default_def)

lemma payload_options_get:
  "k \<notin> fst ` set (payload_base s c) \<Longrightarrow>
   pget_default (payload_base s c @ payload_options s) k v = pget_default (payload_options s) k v"
  by (simp add: pget_default_def map_add_def map_of_eq_None_iff [THEN iffD2] split: option.splits)

lemma payload_option_keys:
  "list_all (\<lambda>k. k \<notin> fst ` set (payload_base s c))
     [''final_delivery'', ''response_ref'', ''work_ref'', ''continuation_ref'', ''request_ref'',
      ''model_selection'', ''reviewer_selection'', ''task_policy'', ''terminal'']"
  by (simp add: payload_base_def)

lemma payload_options_values:
  "pget_default (payload_options s) ''final_delivery'' (PStr ''not_required'') = PStr (op_final_delivery s)"
  "pget_default (payload_options s) ''response_ref'' (PStr []) = PStr (op_response_ref s)"
  "pget_default (payload_options s) ''work_ref'' (PStr []) = PStr (op_work_ref s)"
  "pget_default (payload_options s) ''continuation_ref'' (PStr []) = PStr (op_continuation_ref s)"
  "pget_default (payload_options s) ''request_ref'' (PStr []) = PStr (op_request_ref s)"
  "pget_default (payload_options s) ''model_selection'' PNone
     = (if op_model_selection s = [] then PNone else PDict (op_model_selection s))"
  "pget_default (payload_options s) ''reviewer_selection'' PNone
     = (if op_reviewer_selection s = [] then PNone else PDict (op_reviewer_selection s))"
  "pget_default (payload_options s) ''task_policy'' PNone
     = (if op_task_policy s = [] then PNone else PDict (op_task_policy s))"
  "pget_default (payload_options s) ''terminal'' PNone
     = (case op_terminal s of None \<Rightarrow> PNone | Some t \<Rightarrow> PDict (terminal_to_payload t))"
  by (simp_all add: payload_options_def pget_default_def map_add_def split: option.splits)

lemma payload_terminal_key:
  "has_key ''terminal'' (payload_base s c @ payload_options s) \<longleftrightarrow> op_terminal s \<noteq> None"
proof -
  have "map_of (payload_base s c) ''terminal'' = None"
    by (simp add: payload_base_def)
  then show ?thesis
    by (simp add: has_key_def map_add_def payload_options_def split: option.splits)
qed

lemma optional_keys:
  "P k \<Longrightarrow> list_all P (dkeys (optional_text k t))"
  "P k \<Longrightarrow> list_all P (dkeys (optional_object k d))"
  "P k \<Longrightarrow> list_all P (dkeys (if b then [] else [(k, v)]))"
  "P k \<Longrightarrow> list_all P (dkeys (case x of None \<Rightarrow> [] | Some y \<Rightarrow> [(k, f y)]))"
  by (simp_all add: optional_text_def optional_object_def dkeys_def split: option.split)

lemma dkeys_append: "dkeys (d @ e) = dkeys d @ dkeys e"
  by (simp add: dkeys_def)

lemma payload_keys_known:
  "\<not> list_ex (\<lambda>k. k \<notin> set KNOWN_PAYLOAD_KEYS) (dkeys (payload_base s c @ payload_options s))"
proof -
  have "list_all (\<lambda>k. k \<in> set KNOWN_PAYLOAD_KEYS) (dkeys (payload_options s))"
    unfolding payload_options_def dkeys_append list_all_append
    by (intro conjI optional_keys) (simp_all add: KNOWN_PAYLOAD_KEYS_def)
  moreover have "list_all (\<lambda>k. k \<in> set KNOWN_PAYLOAD_KEYS) (dkeys (payload_base s c))"
    by (simp add: payload_base_def dkeys_def KNOWN_PAYLOAD_KEYS_def)
  ultimately show ?thesis
    unfolding dkeys_append by (simp only: list_ex_iff list_all_iff set_append) blast
qed

lemma stored_selection_read:
  "selection_stored d \<Longrightarrow> parse_model_selection (if d = [] then PNone else PDict d) = Inr d"
  by (auto simp: selection_stored_def parse_model_selection_def)

lemma payload_describes:
  assumes ok: "operation_valid s" and sel: "op_selections_ok s"
    and c: "counters_from_payload (PDict c) = Inr (op_counters s)"
  shows "describes (payload_base s c @ payload_options s) s"
proof -
  let ?d = "payload_base s c @ payload_options s"
  have get: "pget_default ?d k v = pget_default (payload_options s) k v"
    if "k \<in> set [''final_delivery'', ''response_ref'', ''work_ref'', ''continuation_ref'',
      ''request_ref'', ''model_selection'', ''reviewer_selection'', ''task_policy'', ''terminal'']" for k v
    using payload_options_get [of k s c v] payload_option_keys [of s c] that
    by (auto simp: list_all_iff)
  have "parse_model_selection (pget ?d ''model_selection'') = Inr (op_model_selection s)"
    "parse_model_selection (pget ?d ''reviewer_selection'') = Inr (op_reviewer_selection s)"
    using sel by (simp_all add: pget_def get payload_options_values stored_selection_read op_selections_ok_def)
  moreover have "parse_task_policy (pget ?d ''task_policy'') = Inr (op_task_policy s)"
    using ok by (simp add: pget_def get payload_options_values parse_task_policy_Inr
        operation_valid_def op_data_ok_def)
  moreover have "case op_terminal s of None \<Rightarrow> \<not> has_key ''terminal'' ?d
      | Some t \<Rightarrow> terminal_from_payload (pget ?d ''terminal'') = Some t"
    using ok by (auto simp: payload_terminal_key pget_def get payload_options_values terminal_round
        operation_valid_def op_terminal_ok_def terminal_fits_def split: option.splits)
  moreover have "list_all (\<lambda>(k, v). pget ?d k = v) (payload_base s c)"
    by (rule payload_base_get)
  ultimately show ?thesis
    using c by (simp add: describes_def get payload_options_values payload_base_get(2))
      (simp add: payload_base_def)
qed

lemma operation_valid_round:
  assumes ok: "operation_valid s" and sel: "op_selections_ok s"
  shows "\<exists>d. operation_to_payload s = Inr d \<and> operation_from_payload (PDict d) = Some s"
proof -
  obtain c where c: "counters_to_payload (op_counters s) = Inr c"
      "counters_from_payload (PDict c) = Inr (op_counters s)"
    using counters_round ok by (auto simp: operation_valid_def op_counts_ok_def)
  let ?d = "payload_base s c @ payload_options s"
  have "read_operation_state ?d = Inr s"
    by (rule read_described [OF ok payload_describes [OF ok sel c(2)] payload_keys_known])
  moreover have "pget ?d ''schema_version'' = PInt SCHEMA_VERSION" "pget ?d ''kind'' = PStr KIND"
    by (simp_all add: payload_base_def pget_def pget_default_def)
  ultimately have "operation_from_payload (PDict ?d) = Some s"
    by (simp add: operation_from_payload_def)
  with operation_to_payload_form [OF ok sel c(1)] show ?thesis by blast
qed

lemma operation_from_payload_valid: "operation_from_payload v = Some s \<Longrightarrow> operation_valid s"
  by (cases v) (auto simp: operation_from_payload_def dest: read_operation_state_valid
      split: if_splits sum.splits)

section \<open>Properties of the stored form\<close>

lemma read_operation_state_selections:
  "read_operation_state d = Inr s \<Longrightarrow>
     parse_model_selection (pget d ''model_selection'') = Inr (op_model_selection s)
     \<and> parse_model_selection (pget d ''reviewer_selection'') = Inr (op_reviewer_selection s)"
  apply (simp only: read_operation_state_def bind_r_eq_Inr if_Inl_Inr split_paired_Ex prod.case sum.inject)
  apply (elim exE conjE)
  apply (hypsubst, simp only: operation_state.simps)
  done

definition selection_text_fits :: "jobj \<Rightarrow> bool" where
  "selection_text_fits d = (case repr_dict_len d of None \<Rightarrow> False | Some n \<Rightarrow> n \<le> 8000)"

lemma parse_model_selection_Inr:
  assumes "parse_model_selection v = Inr m"
  shows "m = [] \<or> (\<exists>sel. m = selection_to_payload sel \<and> selection_ok sel)"
proof (cases "v = PNone \<or> py_eq v (PDict [])")
  case True
  with assms show ?thesis by (simp add: parse_model_selection_def)
next
  case False
  with assms obtain sel where "selection_from_payload v = Inr sel" "m = selection_to_payload sel"
    unfolding parse_model_selection_def by (auto split: sum.splits py_error.splits)
  then show ?thesis by (auto simp: selection_from_payload_Inr dest: selection_init_ok)
qed

lemma parsed_selection_stored:
  assumes "parse_model_selection v = Inr m" "selection_text_fits m"
  shows "selection_stored m"
proof (cases "m = []")
  case False
  with parse_model_selection_Inr [OF assms(1)] obtain sel
    where sel: "m = selection_to_payload sel" "selection_ok sel" by blast
  have "selection_from_payload (PDict m) = Inr sel"
    using sel assms(2) selection_init_round
    by (auto simp: selection_from_payload_Inr selection_text_fits_def split: option.splits)
  with False sel show ?thesis
    by (simp add: selection_stored_def parse_model_selection_def)
qed (simp add: selection_stored_def)

lemma operation_from_payload_D:
  "operation_from_payload v = Some s \<Longrightarrow> \<exists>d. v = PDict d \<and> read_operation_state d = Inr s"
  by (cases v) (auto simp: operation_from_payload_def split: if_splits sum.splits)

text \<open>
  An operation state is never lost by storing it. A state that was read from storage, and
  whose model selections print within the size bound, is written without an error, and
  reading what was written gives back exactly this state.
\<close>

theorem operation_round_trip:
  assumes "operation_from_payload v = Some s"
    and "selection_text_fits (op_model_selection s)" "selection_text_fits (op_reviewer_selection s)"
  shows "\<exists>d. operation_to_payload s = Inr d \<and> operation_from_payload (PDict d) = Some s"
proof (rule operation_valid_round)
  show "operation_valid s" by (rule operation_from_payload_valid [OF assms(1)])
  from operation_from_payload_D [OF assms(1)] obtain d where "read_operation_state d = Inr s" by blast
  from read_operation_state_selections [OF this] assms(2,3) show "op_selections_ok s"
    by (auto simp: op_selections_ok_def intro: parsed_selection_stored)
qed

text \<open>A fresh operation with small budgets.\<close>

definition sample_operation :: operation_state where
  "sample_operation =
     \<lparr>op_session_id = ''s1'', op_run_id = ''r1'', op_operation_id = ''task:1'', op_lane = ''run:1'',
      op_project_ref = [], op_provider_id = ''p'', op_turn_budget = 4, op_max_repair_rounds = 1,
      op_leaf = LEAF_ACCEPTED, op_started_at = ''t0'', op_updated_at = ''t0'',
      op_task_kind = ''project'', op_task_policy = [(''mode'', PStr ''safe'')], op_model_selection = [],
      op_reviewer_selection = [], op_final_delivery = ''not_required'', op_writer_attempt = 1,
      op_candidate_validation_attempted = False, op_turns_used = 0, op_stop_reason = [],
      op_completion_proof_ref = [], op_completion_proof_status = [], op_repair_rounds = 0,
      op_repair_context_ref = [], op_blocked_reason = [], op_driver = [], op_turn = 0,
      op_tool_index = 0, op_response_ref = [], op_request_ref = [], op_work_ref = [],
      op_continuation_ref = [], op_logical_turn = 0, op_counters = new_counters, op_terminal = None\<rparr>"

lemma sample_operation_valid: "operation_valid sample_operation"
  by code_simp

lemma sample_operation_selections: "op_selections_ok sample_operation"
  by (simp add: op_selections_ok_def selection_stored_def sample_operation_def)

lemma sample_operation_read: "\<exists>v. operation_from_payload v = Some sample_operation"
  using operation_valid_round [OF sample_operation_valid sample_operation_selections] by blast

theorem operation_round_trip_witness:
  "\<exists>d. operation_to_payload sample_operation = Inr d
     \<and> operation_from_payload (PDict d) = Some sample_operation"
proof -
  obtain v where v: "operation_from_payload v = Some sample_operation"
    using sample_operation_read by blast
  show ?thesis
    by (rule operation_round_trip [OF v])
       (simp_all add: sample_operation_def selection_text_fits_def repr_dict_len_def)
qed

text \<open>
  C29: storage holds only consistent operation states. Whatever bytes a payload was decoded
  from, a state that is accepted stays within its turn and repair budgets; it is in a
  repair leaf only with a failed proof and an admitted repair context; it carries a
  blocked verdict only on a verdict leaf and over a failed or blocked proof; and it has a
  terminal record exactly when it is terminal.
\<close>

theorem stored_operation_consistent:
  assumes "operation_from_payload v = Some s"
  shows "0 \<le> op_turns_used s \<and> op_turns_used s \<le> op_turn_budget s
    \<and> 0 \<le> op_repair_rounds s \<and> op_repair_rounds s \<le> op_max_repair_rounds s
    \<and> (is_repair_leaf (op_leaf s) (op_driver s) \<longrightarrow>
         op_completion_proof_status s = ''failed'' \<and> sha256_ref_match (op_repair_context_ref s))
    \<and> (op_blocked_reason s \<noteq> [] \<longrightarrow> op_leaf s \<in> set VERDICT_LEAVES
         \<and> op_completion_proof_status s \<in> set [''failed'', ''blocked''])
    \<and> (op_leaf s = LEAF_TERMINAL \<longleftrightarrow> op_terminal s \<noteq> None)"
proof -
  have ok: "operation_valid s" by (rule operation_from_payload_valid [OF assms])
  then have stage: "op_stage_ok s" and refs: "op_refs_ok s" by (simp_all add: operation_valid_def)
  from ok have counts: "op_counts_ok s" and ter: "op_terminal_ok s" by (simp_all add: operation_valid_def)
  have "op_completion_proof_status s = ''failed'' \<and> sha256_ref_match (op_repair_context_ref s)"
    if "is_repair_leaf (op_leaf s) (op_driver s)"
    using stage refs that by (auto simp: op_stage_ok_def op_refs_ok_def require_repair_leaf_Inr)
  moreover have "op_leaf s \<in> set VERDICT_LEAVES \<and> op_completion_proof_status s \<in> set [''failed'', ''blocked'']"
    if "op_blocked_reason s \<noteq> []"
    using stage that by (simp add: op_stage_ok_def require_verdict_def
        blocked_verdict_facts_supported_def BLOCKABLE_PROOF_STATUSES_def)
  moreover have "op_leaf s = LEAF_TERMINAL \<longleftrightarrow> op_terminal s \<noteq> None"
    using ter by (auto simp: op_terminal_ok_def terminal_fits_def split: option.splits)
  ultimately show ?thesis using counts unfolding op_counts_ok_def by blast
qed

theorem stored_operation_consistent_witness:
  "\<exists>v. operation_from_payload v = Some sample_operation
     \<and> op_turns_used sample_operation \<le> op_turn_budget sample_operation"
  using sample_operation_read stored_operation_consistent by blast

end
