(* ===== verification/Operation_State.thy ===== *)
theory Operation_State
  imports Operation_Round Lifecycle
begin

text \<open>
  The state machine of a runtime operation
  (\<^verbatim>\<open>codey/runtime/core/operation_state.py\<close> and
  \<^verbatim>\<open>outcome.py\<close>): the table of allowed leaf transitions and one definition
  per \<open>mark_...\<close> function. The clock is the argument \<open>now\<close>; the digest and
  the resolution of a project path are arguments of the functions that use them.
\<close>

section \<open>Transitions\<close>

fun ALLOWED_TRANSITIONS :: "leaf \<Rightarrow> leaf list" where
  "ALLOWED_TRANSITIONS LEAF_ACCEPTED = [LEAF_TERMINAL, LEAF_WRITER_RUNNING]"
| "ALLOWED_TRANSITIONS LEAF_WRITER_RUNNING =
     [LEAF_CLOSING, LEAF_PROVIDER_EFFECT_PENDING, LEAF_PROVIDER_REQUEST_READY,
      LEAF_PROVIDER_RESPONSE_READY, LEAF_TERMINAL, LEAF_TOOL_DELIVERY_PENDING,
      LEAF_TOOL_EFFECT_PENDING, LEAF_WRITER_SETTLED]"
| "ALLOWED_TRANSITIONS LEAF_PROVIDER_EFFECT_PENDING =
     [LEAF_CONTROL_READY, LEAF_PROVIDER_RESPONSE_READY, LEAF_REPAIR_RUNNING, LEAF_TERMINAL,
      LEAF_TOOL_DELIVERY_PENDING, LEAF_TOOL_EFFECT_PENDING, LEAF_WRITER_RUNNING]"
| "ALLOWED_TRANSITIONS LEAF_PROVIDER_RESPONSE_READY =
     [LEAF_CLOSING, LEAF_COMPLETION_PENDING, LEAF_CONTROL_READY, LEAF_PLAN_READY,
      LEAF_PROVIDER_REQUEST_READY, LEAF_REPAIR_RUNNING, LEAF_TERMINAL,
      LEAF_TOOL_DELIVERY_PENDING, LEAF_TOOL_EFFECT_PENDING, LEAF_WRITER_RUNNING]"
| "ALLOWED_TRANSITIONS LEAF_TOOL_EFFECT_PENDING =
     [LEAF_TERMINAL, LEAF_TOOL_DELIVERY_PENDING, LEAF_TOOL_EFFECT_PENDING]"
| "ALLOWED_TRANSITIONS LEAF_TOOL_DELIVERY_PENDING =
     [LEAF_CLOSING, LEAF_COMPLETION_PENDING, LEAF_PROVIDER_EFFECT_PENDING,
      LEAF_PROVIDER_REQUEST_READY, LEAF_REPAIR_RUNNING, LEAF_TERMINAL, LEAF_WRITER_RUNNING]"
| "ALLOWED_TRANSITIONS LEAF_WRITER_SETTLED =
     [LEAF_COMPLETION_PROOF_RECORDED, LEAF_TERMINAL, LEAF_WRITER_RUNNING]"
| "ALLOWED_TRANSITIONS LEAF_COMPLETION_PROOF_RECORDED = [LEAF_REPAIR_CONTEXT_ADMITTED, LEAF_TERMINAL]"
| "ALLOWED_TRANSITIONS LEAF_REPAIR_CONTEXT_ADMITTED = [LEAF_REPAIR_RUNNING, LEAF_TERMINAL]"
| "ALLOWED_TRANSITIONS LEAF_REPAIR_RUNNING =
     [LEAF_CLOSING, LEAF_PROVIDER_EFFECT_PENDING, LEAF_PROVIDER_REQUEST_READY,
      LEAF_PROVIDER_RESPONSE_READY, LEAF_REPAIR_SETTLED, LEAF_TERMINAL,
      LEAF_TOOL_DELIVERY_PENDING, LEAF_TOOL_EFFECT_PENDING]"
| "ALLOWED_TRANSITIONS LEAF_REPAIR_SETTLED =
     [LEAF_COMPLETION_PROOF_RECORDED, LEAF_REPAIR_RUNNING, LEAF_TERMINAL]"
| "ALLOWED_TRANSITIONS LEAF_TERMINAL = [LEAF_TERMINAL]"
| "ALLOWED_TRANSITIONS LEAF_PROVIDER_REQUEST_READY = [LEAF_CLOSING, LEAF_PROVIDER_EFFECT_PENDING]"
| "ALLOWED_TRANSITIONS LEAF_PLAN_READY =
     [LEAF_CLOSING, LEAF_CONTROL_READY, LEAF_TOOL_EFFECT_PENDING]"
| "ALLOWED_TRANSITIONS LEAF_COMPLETION_PENDING = [LEAF_CLOSING, LEAF_CONTROL_READY]"
| "ALLOWED_TRANSITIONS LEAF_CONTROL_READY =
     [LEAF_CLOSING, LEAF_COMPLETION_PENDING, LEAF_KERNEL_SETTLED, LEAF_PROVIDER_REQUEST_READY]"
| "ALLOWED_TRANSITIONS LEAF_CLOSING = [LEAF_CLOSING, LEAF_KERNEL_SETTLED, LEAF_PROVIDER_REQUEST_READY]"
| "ALLOWED_TRANSITIONS LEAF_KERNEL_SETTLED =
     [LEAF_CLOSING, LEAF_REPAIR_RUNNING, LEAF_REPAIR_SETTLED, LEAF_TERMINAL,
      LEAF_WRITER_RUNNING, LEAF_WRITER_SETTLED]"

text \<open>
  \<open>_transition(state, next_leaf, **updates)\<close>. The keywords are a function on the
  record; \<open>setdefault\<close> clears a field only when the keywords do not set it, which
  is clearing first and applying the keywords afterwards.
\<close>

definition clear_for :: "leaf \<Rightarrow> operation_state \<Rightarrow> operation_state" where
  "clear_for l s =
     (let s1 = (if l \<notin> set (LEAF_PROVIDER_REQUEST_READY # RESPONSE_LEAVES)
                then s\<lparr>op_response_ref := []\<rparr> else s);
          s2 = (if l \<notin> set WORK_LEAVES then s1\<lparr>op_work_ref := []\<rparr> else s1);
          s3 = (if l \<noteq> LEAF_PROVIDER_REQUEST_READY then s2\<lparr>op_request_ref := []\<rparr> else s2)
      in if l \<notin> set PENDING_LEAVES
         then s3\<lparr>op_driver := [], op_turn := 0, op_tool_index := 0\<rparr> else s3)"

definition transition ::
  "string \<Rightarrow> leaf \<Rightarrow> (operation_state \<Rightarrow> operation_state) \<Rightarrow> operation_state \<Rightarrow> operation_state result" where
  "transition now l updates s =
     (if l \<notin> set (ALLOWED_TRANSITIONS (op_leaf s))
      then Inl (TransitionError (''illegal transition '' @ leaf_value (op_leaf s) @ '' -> '' @ leaf_value l))
      else if op_blocked_reason s \<noteq> [] \<and> l \<noteq> LEAF_TERMINAL
      then Inl (TransitionError ''blocked verdict may only finish'')
      else Inr (updates (clear_for l s)\<lparr>op_leaf := l, op_updated_at := now\<rparr>))"

definition completion_proof_satisfied :: "operation_state \<Rightarrow> bool option" where
  "completion_proof_satisfied s =
     (if op_completion_proof_ref s = [] then None
      else Some (op_completion_proof_status s = ''complete''))"

definition repair_candidate_proof :: "operation_state \<Rightarrow> bool" where
  "repair_candidate_proof s =
     (op_completion_proof_ref s \<noteq> []
      \<and> op_completion_proof_status s \<in> set REPAIR_SOURCE_PROOF_STATUSES
      \<and> completion_proof_satisfied s = Some False)"

definition blocked_verdict_supported :: "operation_state \<Rightarrow> bool" where
  "blocked_verdict_supported s =
     (op_completion_proof_ref s \<noteq> []
      \<and> op_completion_proof_status s \<in> set BLOCKABLE_PROOF_STATUSES
      \<and> completion_proof_satisfied s = Some False)"

section \<open>A new operation\<close>

definition session_key :: "(string \<Rightarrow> string) \<Rightarrow> string \<Rightarrow> string" where
  "session_key sha256 session_id = take 24 (sha256 session_id)"

definition project_key :: "(string \<Rightarrow> string) \<Rightarrow> (string \<Rightarrow> string) \<Rightarrow> string \<Rightarrow> string" where
  "project_key sha256 resolve project = take 24 (sha256 (resolve project))"

definition operation_id_for_run :: "(string \<Rightarrow> string) \<Rightarrow> string \<Rightarrow> string" where
  "operation_id_for_run sha256 run_id = ''task:'' @ take 24 (sha256 run_id)"

definition lane_for_run :: "(string \<Rightarrow> string) \<Rightarrow> string \<Rightarrow> string" where
  "lane_for_run sha256 run_id = ''run:'' @ take 24 (session_key sha256 run_id)"

definition project_ref_of :: "(string \<Rightarrow> string) \<Rightarrow> (string \<Rightarrow> string) \<Rightarrow> pyval \<Rightarrow> string result" where
  "project_ref_of sha256 resolve project =
     bind_r (str_or project []) (\<lambda>t.
       let text = strip t in
       Inr (if text = [] then [] else ''project:'' @ project_key sha256 resolve text))"

definition canonical_id :: "string \<Rightarrow> string result" where
  "canonical_id v = text_field MAX_ID_CHARS False ''id'' (PStr v)"

definition new_operation_state ::
  "(string \<Rightarrow> string) \<Rightarrow> (string \<Rightarrow> string) \<Rightarrow> string \<Rightarrow> string \<Rightarrow> string \<Rightarrow> pyval \<Rightarrow> string \<Rightarrow> int \<Rightarrow> int
    \<Rightarrow> string \<Rightarrow> pyval \<Rightarrow> pyval \<Rightarrow> operation_state result" where
  "new_operation_state sha256 resolve now session_id run_id project provider_id turn_budget
     max_repair_rounds task_kind task_policy model_selection =
     bind_r (canonical_id session_id) (\<lambda>session.
     bind_r (canonical_id run_id) (\<lambda>run.
     bind_r (project_ref_of sha256 resolve project) (\<lambda>project_ref.
     bind_r (text_field MAX_TEXT_CHARS False ''provider_id'' (PStr provider_id)) (\<lambda>provider.
     bind_r (count_field 0 None ''turn_budget'' (PInt turn_budget)) (\<lambda>budget.
     bind_r (count_field 0 None ''max_repair_rounds'' (PInt max_repair_rounds)) (\<lambda>rounds.
     bind_r (text_field MAX_TEXT_CHARS False ''task_kind'' (PStr task_kind)) (\<lambda>kind.
     bind_r (parse_task_policy task_policy) (\<lambda>policy.
     bind_r (parse_model_selection model_selection) (\<lambda>selection.
     Inr \<lparr>op_session_id = session, op_run_id = run, op_operation_id = operation_id_for_run sha256 run,
          op_lane = lane_for_run sha256 run, op_project_ref = project_ref, op_provider_id = provider,
          op_turn_budget = budget, op_max_repair_rounds = rounds, op_leaf = LEAF_ACCEPTED,
          op_started_at = now, op_updated_at = now, op_task_kind = kind, op_task_policy = policy,
          op_model_selection = selection, op_reviewer_selection = [],
          op_final_delivery = ''not_required'', op_writer_attempt = 1,
          op_candidate_validation_attempted = False, op_turns_used = 0, op_stop_reason = [],
          op_completion_proof_ref = [], op_completion_proof_status = [], op_repair_rounds = 0,
          op_repair_context_ref = [], op_blocked_reason = [], op_driver = [], op_turn = 0,
          op_tool_index = 0, op_response_ref = [], op_request_ref = [], op_work_ref = [],
          op_continuation_ref = [], op_logical_turn = 0, op_counters = new_counters,
          op_terminal = None\<rparr>)))))))))"

definition INTERRUPTED_WRITING :: string where
  "INTERRUPTED_WRITING = ''Writing was interrupted''"

definition INTERRUPTED_COMPLETION_CHECK :: string where
  "INTERRUPTED_COMPLETION_CHECK = ''Completion check was interrupted''"

definition INTERRUPTED_FINISHING :: string where
  "INTERRUPTED_FINISHING = ''Finishing was interrupted''"

definition INTERRUPTED_REPAIR :: string where
  "INTERRUPTED_REPAIR = ''Stopped during repair''"

definition operation_progress_text :: "operation_state option \<Rightarrow> string" where
  "operation_progress_text x =
     (case x of
        None \<Rightarrow> []
      | Some s \<Rightarrow>
          if op_leaf s = LEAF_TERMINAL then []
          else if op_leaf s \<in> set [LEAF_ACCEPTED, LEAF_WRITER_RUNNING, LEAF_PROVIDER_EFFECT_PENDING,
                 LEAF_TOOL_EFFECT_PENDING, LEAF_TOOL_DELIVERY_PENDING]
               \<and> \<not> is_repair_leaf (op_leaf s) (op_driver s)
          then INTERRUPTED_WRITING
          else if op_leaf s \<in> set [LEAF_REPAIR_CONTEXT_ADMITTED, LEAF_REPAIR_RUNNING,
                 LEAF_PROVIDER_EFFECT_PENDING, LEAF_TOOL_EFFECT_PENDING, LEAF_TOOL_DELIVERY_PENDING]
               \<and> is_repair_leaf (op_leaf s) (op_driver s)
          then INTERRUPTED_REPAIR
          else if op_leaf s = LEAF_COMPLETION_PROOF_RECORDED \<and> completion_proof_satisfied s = Some True
          then INTERRUPTED_FINISHING
          else INTERRUPTED_COMPLETION_CHECK)"

section \<open>The mark functions\<close>

abbreviation known_text80 :: "bool \<Rightarrow> string \<Rightarrow> string \<Rightarrow> string result" where
  "known_text80 e field t \<equiv> text_field MAX_TEXT_CHARS e field (PStr t)"

text \<open>The three blocks of \<open>mark_writer_running\<close> that change the state.\<close>

definition start_research_successor ::
  "string \<Rightarrow> operation_state \<Rightarrow> string \<Rightarrow> int \<Rightarrow> operation_state result" where
  "start_research_successor now s provider attempt =
     (if attempt \<le> op_writer_attempt s \<or> op_leaf s \<noteq> LEAF_KERNEL_SETTLED
         \<or> op_driver s \<noteq> DRIVER_WRITER \<or> op_provider_id s \<noteq> provider
      then Inl (TransitionError ''research invocation requires its settled predecessor'')
      else bind_r (count_field 0 (Some (op_turn_budget s)) ''turns_used''
                    (PInt (op_turns_used s + op_logical_turn s))) (\<lambda>used.
        transition now LEAF_WRITER_RUNNING (\<lambda>x. x\<lparr>op_writer_attempt := attempt,
          op_turns_used := used, op_counters := new_counters, op_logical_turn := 0,
          op_stop_reason := [], op_work_ref := [], op_request_ref := [],
          op_response_ref := []\<rparr>) s))"

definition restart_settled_writer ::
  "string \<Rightarrow> operation_state \<Rightarrow> string \<Rightarrow> int \<Rightarrow> operation_state result" where
  "restart_settled_writer now s provider attempt =
     (if op_stop_reason s \<in> set [''question'', ''approval''] \<and> attempt = op_writer_attempt s
      then transition now LEAF_WRITER_RUNNING (\<lambda>x. x\<lparr>op_provider_id := provider,
             op_writer_attempt := attempt + 1, op_stop_reason := []\<rparr>) s
      else if attempt \<le> op_writer_attempt s \<or> op_stop_reason s \<noteq> ''done''
              \<or> op_completion_proof_ref s \<noteq> []
      then Inl (TransitionError ''writer restart requires a new attempt after done before final proof'')
      else transition now LEAF_WRITER_RUNNING (\<lambda>x. x\<lparr>op_provider_id := provider,
             op_writer_attempt := attempt, op_turns_used := op_turns_used s,
             op_stop_reason := [], op_counters := new_counters, op_logical_turn := 0\<rparr>) s)"

definition rebind_writer ::
  "string \<Rightarrow> operation_state \<Rightarrow> string \<Rightarrow> int \<Rightarrow> operation_state result" where
  "rebind_writer now s provider attempt =
     (if op_provider_id s = provider \<and> op_writer_attempt s = attempt then Inr s
      else Inr (s\<lparr>op_provider_id := provider, op_writer_attempt := attempt, op_updated_at := now\<rparr>))"

definition mark_writer_running ::
  "string \<Rightarrow> operation_state \<Rightarrow> string \<Rightarrow> int option \<Rightarrow> operation_state result" where
  "mark_writer_running now s provider_id writer_attempt =
     bind_r (known_text80 False ''provider_id'' provider_id) (\<lambda>provider.
     bind_r (case writer_attempt of None \<Rightarrow> Inr (op_writer_attempt s)
             | Some n \<Rightarrow> count_field 1 None ''writer_attempt'' (PInt n)) (\<lambda>attempt.
     if op_task_kind s = ''research'' \<and> op_writer_attempt s > 0 \<and> writer_attempt \<noteq> None
        \<and> attempt \<noteq> op_writer_attempt s
     then start_research_successor now s provider attempt
     else if op_leaf s \<in> set PENDING_LEAVES \<and> op_leaf s \<noteq> LEAF_TOOL_DELIVERY_PENDING
     then if op_driver s \<noteq> DRIVER_WRITER \<or> op_provider_id s \<noteq> provider
             \<or> op_writer_attempt s \<noteq> attempt
          then Inl (TransitionError ''pending writer identity cannot be rebound'')
          else Inr s
     else if op_leaf s = LEAF_WRITER_SETTLED then restart_settled_writer now s provider attempt
     else if op_leaf s \<in> set [LEAF_WRITER_RUNNING, LEAF_TOOL_DELIVERY_PENDING]
     then rebind_writer now s provider attempt
     else transition now LEAF_WRITER_RUNNING (\<lambda>x. x\<lparr>op_provider_id := provider,
            op_writer_attempt := attempt\<rparr>) s))"

definition mark_candidate_validation_running ::
  "string \<Rightarrow> operation_state \<Rightarrow> string \<Rightarrow> int \<Rightarrow> operation_state result" where
  "mark_candidate_validation_running now s provider_id writer_attempt =
     bind_r (known_text80 False ''provider_id'' provider_id) (\<lambda>provider.
     bind_r (count_field (op_writer_attempt s + 1) None ''writer_attempt'' (PInt writer_attempt)) (\<lambda>attempt.
     let repair = (op_leaf s = LEAF_REPAIR_SETTLED) in
     if op_leaf s \<notin> set [LEAF_WRITER_SETTLED, LEAF_REPAIR_SETTLED]
        \<or> op_stop_reason s \<noteq> ''no_progress'' \<or> op_candidate_validation_attempted s
        \<or> op_blocked_reason s \<noteq> [] \<or> (\<not> repair \<and> op_completion_proof_ref s \<noteq> [])
        \<or> (repair \<and> (op_completion_proof_status s \<noteq> ''failed'' \<or> op_repair_context_ref s = []
                      \<or> op_repair_rounds s \<noteq> 1))
        \<or> op_turn_budget s - op_turns_used s < 2 \<or> op_provider_id s \<noteq> provider
        \<or> op_task_kind s \<noteq> ''project''
     then Inl (TransitionError ''stopped candidate validation admission is unavailable'')
     else transition now (if repair then LEAF_REPAIR_RUNNING else LEAF_WRITER_RUNNING)
            (\<lambda>x. x\<lparr>op_writer_attempt := attempt, op_candidate_validation_attempted := True,
               op_stop_reason := [], op_counters := new_counters, op_logical_turn := 0\<rparr>) s))"

definition mark_writer_settled ::
  "string \<Rightarrow> operation_state \<Rightarrow> string \<Rightarrow> int \<Rightarrow> string \<Rightarrow> operation_state result" where
  "mark_writer_settled now s provider_id turns_used stop_reason =
     bind_r (known_text80 False ''provider_id'' provider_id) (\<lambda>provider.
     bind_r (count_field 0 (Some (op_turn_budget s)) ''turns_used'' (PInt turns_used)) (\<lambda>used.
     bind_r (known_text80 True ''stop_reason'' stop_reason) (\<lambda>stop.
     transition now LEAF_WRITER_SETTLED (\<lambda>x. x\<lparr>op_provider_id := provider,
       op_turns_used := used, op_stop_reason := stop\<rparr>) s)))"

definition mark_provider_request_ready ::
  "string \<Rightarrow> operation_state \<Rightarrow> string \<Rightarrow> string \<Rightarrow> int \<Rightarrow> operation_state result" where
  "mark_provider_request_ready now s request_ref driver turn =
     (if driver \<notin> set DRIVERS
      then Inl (TransitionError ''prepared request requires a writer or repair identity'')
      else
      bind_r (known_text80 False ''request_ref'' request_ref) (\<lambda>ref.
      bind_r (count_field 0 None ''turn'' (PInt turn)) (\<lambda>n.
      transition now LEAF_PROVIDER_REQUEST_READY (\<lambda>x. x\<lparr>op_request_ref := ref,
        op_driver := driver, op_turn := n, op_tool_index := 0,
        op_response_ref := (if op_leaf s = LEAF_PROVIDER_RESPONSE_READY then op_response_ref s else [])\<rparr>) s)))"

definition mark_provider_effect_pending ::
  "string \<Rightarrow> operation_state \<Rightarrow> string \<Rightarrow> string \<Rightarrow> int \<Rightarrow> operation_state result" where
  "mark_provider_effect_pending now s driver provider_id turn =
     (if driver \<notin> set DRIVERS
      then Inl (TransitionError ''provider effect driver must be writer or repair'')
      else
      bind_r (known_text80 False ''provider_id'' provider_id) (\<lambda>provider.
      bind_r (count_field 0 None ''turn'' (PInt turn)) (\<lambda>n.
      transition now LEAF_PROVIDER_EFFECT_PENDING (\<lambda>x. x\<lparr>op_provider_id := provider,
        op_driver := driver, op_turn := n, op_tool_index := 0\<rparr>) s)))"

definition mark_tool_delivery_pending ::
  "string \<Rightarrow> operation_state \<Rightarrow> string \<Rightarrow> int \<Rightarrow> operation_state result" where
  "mark_tool_delivery_pending now s driver turn =
     (if driver \<notin> set DRIVERS
      then Inl (TransitionError ''tool delivery driver must be writer or repair'')
      else
      bind_r (count_field 0 None ''turn'' (PInt turn)) (\<lambda>n.
      transition now LEAF_TOOL_DELIVERY_PENDING (\<lambda>x. x\<lparr>op_driver := driver, op_turn := n,
        op_tool_index := 0\<rparr>) s))"

definition mark_provider_effect_settled ::
  "string \<Rightarrow> operation_state \<Rightarrow> int option \<Rightarrow> operation_state result" where
  "mark_provider_effect_settled now s delivery_turn =
     (if op_leaf s = LEAF_PROVIDER_REQUEST_READY
      then Inr (s\<lparr>op_response_ref := [], op_updated_at := now\<rparr>)
      else if op_leaf s = LEAF_PROVIDER_EFFECT_PENDING \<and> op_work_ref s \<noteq> []
      then transition now LEAF_CONTROL_READY (\<lambda>x. x) s
      else if op_leaf s = LEAF_PROVIDER_EFFECT_PENDING \<and> delivery_turn \<noteq> None
      then bind_r (mark_tool_delivery_pending now s (op_driver s) (the delivery_turn)) (\<lambda>x.
             Inr (x\<lparr>op_logical_turn := the delivery_turn\<rparr>))
      else if op_leaf s \<in> set (LEAF_KERNEL_SETTLED # RESPONSE_LEAVES) then Inr s
      else if op_leaf s \<in> set [LEAF_WRITER_RUNNING, LEAF_REPAIR_RUNNING] then Inr s
      else if op_leaf s \<notin> set [LEAF_PROVIDER_EFFECT_PENDING, LEAF_PROVIDER_RESPONSE_READY]
      then Inl (TransitionError ''expected provider_effect_pending'')
      else if op_driver s = DRIVER_REPAIR then transition now LEAF_REPAIR_RUNNING (\<lambda>x. x) s
      else transition now LEAF_WRITER_RUNNING (\<lambda>x. x) s)"

definition mark_provider_response_ready ::
  "string \<Rightarrow> operation_state \<Rightarrow> string \<Rightarrow> operation_state result" where
  "mark_provider_response_ready now s response_ref =
     bind_r (known_text80 False ''response_ref'' response_ref) (\<lambda>ref.
     transition now LEAF_PROVIDER_RESPONSE_READY (\<lambda>x. x\<lparr>op_response_ref := ref\<rparr>) s)"

definition advance_execution ::
  "string \<Rightarrow> operation_state \<Rightarrow> leaf \<Rightarrow> int option \<Rightarrow> string option \<Rightarrow> execution_counters option
    \<Rightarrow> operation_state result" where
  "advance_execution now s l logical_turn work_ref counters =
     bind_r (case logical_turn of None \<Rightarrow> Inr (\<lambda>x. x)
             | Some n \<Rightarrow> bind_r (count_field 0 None ''logical_turn'' (PInt n))
                 (\<lambda>n'. Inr (\<lambda>x. x\<lparr>op_logical_turn := n'\<rparr>))) (\<lambda>set_turn.
     bind_r (case work_ref of None \<Rightarrow> Inr (\<lambda>x. x)
             | Some t \<Rightarrow> bind_r (known_text80 True ''work_ref'' t)
                 (\<lambda>t'. Inr (\<lambda>x. x\<lparr>op_work_ref := t'\<rparr>))) (\<lambda>set_work.
     bind_r (case counters of None \<Rightarrow> Inr (\<lambda>x. x)
             | Some c \<Rightarrow> bind_r (counters_to_payload c) (\<lambda>d.
                 bind_r (counters_from_payload (PDict d)) (\<lambda>c'. Inr (\<lambda>x. x\<lparr>op_counters := c'\<rparr>)))) (\<lambda>set_counters.
     transition now l (\<lambda>x.
       let y = set_counters (set_work (set_turn x)) in
       if l \<in> set PENDING_LEAVES
       then y\<lparr>op_driver := (if op_driver s \<noteq> [] then op_driver s
                           else if is_repair_leaf (op_leaf s) (op_driver s) then DRIVER_REPAIR
                           else DRIVER_WRITER),
              op_turn := op_turn s, op_tool_index := 0\<rparr>
       else y) s)))"

definition mark_tool_effect_pending ::
  "string \<Rightarrow> operation_state \<Rightarrow> string \<Rightarrow> int \<Rightarrow> int \<Rightarrow> operation_state result" where
  "mark_tool_effect_pending now s driver turn tool_index =
     (if driver \<notin> set DRIVERS
      then Inl (TransitionError ''tool effect driver must be writer or repair'')
      else
      bind_r (count_field 0 None ''turn'' (PInt turn)) (\<lambda>n.
      bind_r (count_field 0 None ''tool_index'' (PInt tool_index)) (\<lambda>i.
      transition now LEAF_TOOL_EFFECT_PENDING (\<lambda>x. x\<lparr>op_driver := driver, op_turn := n,
        op_tool_index := i\<rparr>) s)))"

definition mark_tool_effect_settled ::
  "string \<Rightarrow> operation_state \<Rightarrow> bool \<Rightarrow> operation_state result" where
  "mark_tool_effect_settled now s has_remaining =
     (if op_leaf s \<noteq> LEAF_TOOL_EFFECT_PENDING
      then Inl (TransitionError ''expected tool_effect_pending'')
      else if has_remaining
      then transition now LEAF_TOOL_EFFECT_PENDING (\<lambda>x. x\<lparr>op_driver := op_driver s,
             op_turn := op_turn s, op_tool_index := op_tool_index s\<rparr>) s
      else mark_tool_delivery_pending now s (op_driver s) (op_turn s))"

definition mark_tool_delivery_settled :: "string \<Rightarrow> operation_state \<Rightarrow> operation_state result" where
  "mark_tool_delivery_settled now s =
     (if op_leaf s \<noteq> LEAF_TOOL_DELIVERY_PENDING
      then Inl (TransitionError ''tool delivery settlement requires delivery_pending'')
      else if op_driver s = DRIVER_REPAIR then transition now LEAF_REPAIR_RUNNING (\<lambda>x. x) s
      else transition now LEAF_WRITER_RUNNING (\<lambda>x. x) s)"

definition mark_completion_proof_recorded ::
  "string \<Rightarrow> operation_state \<Rightarrow> string \<Rightarrow> string \<Rightarrow> operation_state result" where
  "mark_completion_proof_recorded now s proof_ref proof_status =
     bind_r (text_field MAX_REF_CHARS False ''proof_ref'' (PStr proof_ref)) (\<lambda>ref.
     bind_r (known_text80 False ''proof_status'' proof_status) (\<lambda>status.
     if \<not> proof_ref_match ref then Inl (TransitionError ''proof_ref must be completion proof ref'')
     else if status \<notin> set RECORDED_PROOF_STATUSES then Inl (TransitionError ''unknown proof status'')
     else transition now LEAF_COMPLETION_PROOF_RECORDED (\<lambda>x. x\<lparr>op_completion_proof_ref := ref,
            op_completion_proof_status := status\<rparr>) s))"

definition mark_repair_context_admitted ::
  "string \<Rightarrow> operation_state \<Rightarrow> string \<Rightarrow> operation_state result" where
  "mark_repair_context_admitted now s context_ref =
     (if \<not> repair_candidate_proof s
      then Inl (TransitionError ''repair context requires a failed proof'')
      else
      bind_r (text_field MAX_REF_CHARS False ''context_ref'' (PStr context_ref)) (\<lambda>digest.
      if \<not> sha256_ref_match digest then Inl (TransitionError ''context_ref must be sha256 digest'')
      else transition now LEAF_REPAIR_CONTEXT_ADMITTED (\<lambda>x. x\<lparr>op_repair_context_ref := digest\<rparr>) s))"

definition mark_repair_running :: "string \<Rightarrow> operation_state \<Rightarrow> string \<Rightarrow> operation_state result" where
  "mark_repair_running now s provider_id =
     (if op_repair_rounds s \<ge> op_max_repair_rounds s
      then Inl (TransitionError ''repair round budget exhausted'')
      else
      bind_r (known_text80 False ''provider_id'' provider_id) (\<lambda>provider.
      transition now LEAF_REPAIR_RUNNING (\<lambda>x. x\<lparr>op_provider_id := provider,
        op_repair_rounds := op_repair_rounds s + 1, op_counters := new_counters,
        op_logical_turn := 0\<rparr>) s))"

definition mark_repair_settled ::
  "string \<Rightarrow> operation_state \<Rightarrow> string \<Rightarrow> string \<Rightarrow> string \<Rightarrow> int option \<Rightarrow> operation_state result" where
  "mark_repair_settled now s provider_id stop_reason blocked_reason turns_used =
     bind_r (known_text80 True ''blocked_reason'' blocked_reason) (\<lambda>verdict.
     if verdict \<noteq> [] \<and> \<not> blocked_verdict_supported s
     then Inl (TransitionError ''blocked verdict requires failed proof'')
     else
     bind_r (known_text80 False ''provider_id'' provider_id) (\<lambda>provider.
     bind_r (known_text80 True ''stop_reason'' stop_reason) (\<lambda>stop.
     bind_r (case turns_used of None \<Rightarrow> Inr (op_turns_used s)
             | Some n \<Rightarrow> count_field 0 (Some (op_turn_budget s)) ''turns_used'' (PInt n)) (\<lambda>used.
     transition now LEAF_REPAIR_SETTLED (\<lambda>x. x\<lparr>op_provider_id := provider, op_stop_reason := stop,
       op_blocked_reason := verdict, op_turns_used := used\<rparr>) s))))"

definition mark_completion_blocked :: "string \<Rightarrow> operation_state \<Rightarrow> string \<Rightarrow> operation_state result" where
  "mark_completion_blocked now s reason =
     (if op_leaf s \<noteq> LEAF_COMPLETION_PROOF_RECORDED
      then Inl (TransitionError ''completion verdict requires recorded proof'')
      else if \<not> blocked_verdict_supported s
      then Inl (TransitionError ''blocked verdict requires failed proof'')
      else
      bind_r (known_text80 False ''reason'' reason) (\<lambda>verdict.
      if op_blocked_reason s = verdict then Inr s
      else if op_blocked_reason s \<noteq> [] then Inl (TransitionError ''blocked verdict is immutable'')
      else Inr (s\<lparr>op_blocked_reason := verdict, op_updated_at := now\<rparr>)))"

definition mark_terminal ::
  "string \<Rightarrow> operation_state \<Rightarrow> string \<Rightarrow> int \<Rightarrow> int \<Rightarrow> int \<Rightarrow> string \<Rightarrow> string option \<Rightarrow> string option
    \<Rightarrow> string \<Rightarrow> string \<Rightarrow> operation_state result" where
  "mark_terminal now s stop_reason summary_chars turns max_turns provider blocked_reason
     final_delivery proof_ref proof_status =
     bind_r (case final_delivery of None \<Rightarrow> Inr (op_final_delivery s)
             | Some t \<Rightarrow> parse_final_delivery (PStr t)) (\<lambda>delivery.
     if proof_ref \<noteq> [] \<and> (\<not> proof_ref_fullmatch proof_ref
                          \<or> proof_status \<notin> set RECORDED_PROOF_STATUSES)
     then Inl (TransitionError ''invalid terminal completion proof'')
     else if proof_ref \<noteq> [] \<and> op_completion_proof_ref s \<noteq> []
             \<and> op_completion_proof_ref s \<noteq> proof_ref
     then Inl (TransitionError ''terminal cannot replace completion proof'')
     else
     bind_r (known_text80 True ''blocked_reason''
               (case blocked_reason of None \<Rightarrow> op_blocked_reason s | Some t \<Rightarrow> t)) (\<lambda>verdict.
     if verdict \<noteq> [] \<and> \<not> blocked_verdict_supported s
     then Inl (TransitionError ''blocked verdict requires failed proof'')
     else
     bind_r (known_text80 True ''stop_reason'' stop_reason) (\<lambda>stop.
     bind_r (count_field 0 None ''summary_chars'' (PInt summary_chars)) (\<lambda>chars.
     bind_r (count_field 0 (Some (op_turn_budget s)) ''turns'' (PInt turns)) (\<lambda>used.
     bind_r (count_field 0 None ''max_turns'' (PInt max_turns)) (\<lambda>most.
     bind_r (known_text80 True ''provider'' provider) (\<lambda>prov.
     let terminal = \<lparr>tm_stop_reason = stop, tm_summary_chars = chars, tm_turns = used,
           tm_max_turns = most, tm_provider = prov, tm_blocked_reason = verdict,
           tm_finished_at = now\<rparr> in
     if tm_max_turns terminal \<noteq> op_turn_budget s
     then Inl (TransitionError ''terminal max_turns must match budget'')
     else if op_leaf s = LEAF_TERMINAL
     then (if map_option terminal_identity (op_terminal s) = Some (terminal_identity terminal)
              \<and> op_final_delivery s = delivery
           then Inr s
           else Inl (TransitionError ''terminal state is immutable''))
     else transition now LEAF_TERMINAL (\<lambda>x. x\<lparr>op_terminal := Some terminal,
            op_final_delivery := delivery,
            op_completion_proof_ref := (if proof_ref \<noteq> [] then proof_ref else op_completion_proof_ref s),
            op_completion_proof_status :=
              (if proof_status \<noteq> [] then proof_status else op_completion_proof_status s),
            op_blocked_reason := verdict\<rparr>) s)))))))"

section \<open>Outcome\<close>

record operation_outcome =
  oc_status :: string
  oc_reason :: string
  oc_summary :: string
  oc_metadata :: jobj

definition outcome_completed :: "string \<Rightarrow> operation_outcome" where
  "outcome_completed summary =
     \<lparr>oc_status = ''completed'', oc_reason = [], oc_summary = summary, oc_metadata = []\<rparr>"

definition outcome_failed :: "string \<Rightarrow> string \<Rightarrow> operation_outcome" where
  "outcome_failed reason summary =
     \<lparr>oc_status = ''failed'', oc_reason = reason, oc_summary = summary, oc_metadata = []\<rparr>"

definition outcome_aborted :: "string \<Rightarrow> operation_outcome" where
  "outcome_aborted reason =
     \<lparr>oc_status = ''aborted'', oc_reason = reason, oc_summary = [], oc_metadata = []\<rparr>"

definition outcome_suspended :: "string \<Rightarrow> operation_outcome" where
  "outcome_suspended reason =
     \<lparr>oc_status = ''suspended'', oc_reason = reason, oc_summary = [], oc_metadata = []\<rparr>"

definition outcome_to_payload :: "operation_outcome \<Rightarrow> jobj" where
  "outcome_to_payload c =
     [(''outcome'', PStr (oc_status c))] @ optional_text ''reason'' (oc_reason c)
     @ optional_text ''summary'' (oc_summary c) @ optional_object ''metadata'' (oc_metadata c)"

definition operation_outcome_from_stop_reason :: "string \<Rightarrow> string \<Rightarrow> string \<Rightarrow> operation_outcome" where
  "operation_outcome_from_stop_reason reason blocked summary =
     (if reason = ''done'' then outcome_completed (if summary = [] then ''done'' else summary)
      else if reason = ''stopped'' then outcome_aborted ''stopped''
      else if reason \<in> set [''approval'', ''question''] then outcome_suspended reason
      else if blocked \<noteq> [] then outcome_failed blocked summary
      else if reason \<noteq> [] then outcome_failed reason summary
      else outcome_completed summary)"

definition outcome_for_terminal :: "operation_state \<Rightarrow> operation_outcome" where
  "outcome_for_terminal s =
     (let reason = (case op_terminal s of None \<Rightarrow> op_stop_reason s | Some t \<Rightarrow> tm_stop_reason t)
      in operation_outcome_from_stop_reason reason (op_blocked_reason s)
           (if reason = ''done'' then ''done'' else []))"

definition operation_state_entry :: "operation_state \<Rightarrow> jobj result" where
  "operation_state_entry s =
     bind_r (operation_to_payload s) (\<lambda>payload.
     Inr [(''lane'', PStr (op_lane s)), (''operation_id'', PStr (op_operation_id s)),
          (''kind'', PStr ''operation_state''), (''payload'', PDict payload)])"

definition operation_started_entry :: "operation_state \<Rightarrow> jobj" where
  "operation_started_entry s =
     [(''lane'', PStr (op_lane s)), (''operation_id'', PStr (op_operation_id s)),
      (''kind'', PStr ''operation_started''),
      (''payload'', PDict [(''operation_kind'', PStr (op_task_kind s))])]"

end
