(* ===== verification/Operation_Steps.thy ===== *)
theory Operation_Steps
  imports Operation_State
begin

text \<open>
  The operation state machine keeps its states readable: every \<open>mark_...\<close> function
  preserves the invariant of \<open>Operation_Wf\<close>, strengthened by what the writer phase
  needs, whenever the caller names the driver of the phase the operation is in.
\<close>

section \<open>The invariant by phases\<close>

definition writer_side :: "leaf \<Rightarrow> string \<Rightarrow> bool" where
  "writer_side l driver = (l \<in> set PRE_REPAIR_LEAVES \<or> is_writer_pending_leaf l driver)"

definition writing :: "operation_state \<Rightarrow> bool" where
  "writing s = (op_leaf s = LEAF_WRITER_RUNNING \<or> is_writer_pending_leaf (op_leaf s) (op_driver s))"

definition operation_wf :: "operation_state \<Rightarrow> bool" where
  "operation_wf s =
     (operation_valid s
      \<and> (writing s \<longrightarrow> op_stop_reason s = [] \<and> (op_writer_attempt s = 1 \<longrightarrow> op_turns_used s = 0)))"

text \<open>What each group of leaves says about the recorded facts.\<close>

definition no_proof :: "operation_state \<Rightarrow> bool" where
  "no_proof s =
     (op_completion_proof_ref s = [] \<and> op_completion_proof_status s = []
      \<and> op_repair_rounds s \<le> 0 \<and> op_repair_context_ref s = [])"

definition failed_proof :: "operation_state \<Rightarrow> bool" where
  "failed_proof s =
     (op_completion_proof_ref s \<noteq> [] \<and> op_completion_proof_status s = ''failed''
      \<and> op_repair_context_ref s \<noteq> [])"

definition pending_facts :: "operation_state \<Rightarrow> bool" where
  "pending_facts s =
     (if op_leaf s \<in> set PENDING_LEAVES then
        op_driver s \<in> set DRIVERS \<and>
        (op_leaf s \<in> set [LEAF_PROVIDER_REQUEST_READY, LEAF_PROVIDER_EFFECT_PENDING,
                        LEAF_PROVIDER_RESPONSE_READY] \<longrightarrow> op_tool_index s = 0)
      else op_driver s = [] \<and> op_turn s = 0 \<and> op_tool_index s = 0)"

definition verdict_facts :: "operation_state \<Rightarrow> bool" where
  "verdict_facts s =
     (op_blocked_reason s = [] \<or>
      op_leaf s \<in> set VERDICT_LEAVES \<and> op_completion_proof_ref s \<noteq> []
      \<and> op_completion_proof_status s \<in> set BLOCKABLE_PROOF_STATUSES)"

definition proof_facts :: "operation_state \<Rightarrow> bool" where
  "proof_facts s =
     (if writer_side (op_leaf s) (op_driver s) then no_proof s
      else if is_repair_leaf (op_leaf s) (op_driver s) then
        failed_proof s \<and> (op_leaf s \<noteq> LEAF_REPAIR_CONTEXT_ADMITTED \<longrightarrow> 1 \<le> op_repair_rounds s)
      else if op_leaf s = LEAF_COMPLETION_PROOF_RECORDED then
        op_completion_proof_ref s \<noteq> [] \<and> op_completion_proof_status s \<noteq> []
        \<and> (op_repair_rounds s > 0 \<longleftrightarrow> op_repair_context_ref s \<noteq> [])
      else if op_leaf s = LEAF_TERMINAL then
        (op_completion_proof_ref s = [] \<longleftrightarrow> op_completion_proof_status s = [])
        \<and> (op_repair_rounds s > 0 \<longrightarrow> op_repair_context_ref s \<noteq> [])
        \<and> (op_repair_context_ref s \<noteq> [] \<longrightarrow> op_completion_proof_ref s \<noteq> []
             \<and> (op_repair_rounds s = 0 \<longrightarrow> op_completion_proof_status s = ''failed''))
      else True)"

definition fresh_facts :: "operation_state \<Rightarrow> bool" where
  "fresh_facts s =
     (require_fresh_leaf_facts (op_leaf s) (op_writer_attempt s) (op_turns_used s) (op_stop_reason s) = Inr ())"

lemma writer_not_repair:
  "writer_side l driver \<Longrightarrow> \<not> is_repair_leaf l driver"
  by (cases l) (auto simp: writer_side_def is_repair_leaf_def is_writer_pending_leaf_def leaf_groups
      DRIVER_WRITER_def DRIVER_REPAIR_def)

lemma pending_facts_iff:
  "validate_pending_leaf (op_leaf s) (op_driver s) (op_turn s) (op_tool_index s) = Inr () \<longleftrightarrow> pending_facts s"
  by (auto simp: validate_pending_leaf_def pending_facts_def)

lemma op_satisfied_simps:
  "op_satisfied s = None \<longleftrightarrow> op_completion_proof_ref s = []"
  "op_satisfied s = Some False \<longleftrightarrow>
     op_completion_proof_ref s \<noteq> [] \<and> op_completion_proof_status s \<noteq> ''complete''"
  by (auto simp: op_satisfied_def proof_satisfied_def)

lemma verdict_facts_iff:
  "require_verdict (op_leaf s) (op_completion_proof_ref s) (op_completion_proof_status s)
     (op_satisfied s) (op_blocked_reason s) = Inr () \<longleftrightarrow> verdict_facts s"
  by (auto simp: require_verdict_def verdict_facts_def blocked_verdict_facts_supported_def
      proof_facts_complete_def op_satisfied_simps BLOCKABLE_PROOF_STATUSES_def)

lemma proof_facts_iff:
  assumes "0 \<le> op_repair_rounds s"
  shows "require_repair_leaf_consistent (op_leaf s) (op_driver s) (op_repair_context_ref s)
       (op_completion_proof_status s) (op_repair_rounds s) = Inr (is_repair_leaf (op_leaf s) (op_driver s))
     \<and> require_proof_stage_consistent (op_leaf s) (op_driver s)
          (is_repair_leaf (op_leaf s) (op_driver s)) (op_completion_proof_ref s)
          (op_completion_proof_status s) (op_satisfied s) (op_repair_rounds s)
          (op_repair_context_ref s) = Inr () \<longleftrightarrow> proof_facts s"
  using assms writer_not_repair [of "op_leaf s" "op_driver s"]
  by (auto simp: require_repair_leaf_Inr require_proof_stage_consistent_def proof_facts_def
      writer_side_def [symmetric] no_proof_def failed_proof_def repair_facts_claimed_def
      proof_facts_claimed_def proof_facts_complete_def op_satisfied_simps Let_def
      POST_PROOF_BASE_LEAVES_def is_repair_leaf_def REPAIR_STRUCTURAL_LEAVES_def)

lemma op_stage_ok_iff:
  "0 \<le> op_repair_rounds s \<Longrightarrow>
   op_stage_ok s \<longleftrightarrow> pending_facts s \<and> proof_facts s \<and> verdict_facts s \<and> fresh_facts s"
  using pending_facts_iff [of s] verdict_facts_iff [of s] proof_facts_iff [of s]
  unfolding op_stage_ok_def fresh_facts_def by blast

section \<open>Transitions and the frame\<close>

lemma transition_Inr:
  "transition now l updates s = Inr s' \<longleftrightarrow>
     l \<in> set (ALLOWED_TRANSITIONS (op_leaf s)) \<and> (op_blocked_reason s = [] \<or> l = LEAF_TERMINAL)
     \<and> s' = (updates (clear_for l s))\<lparr>op_leaf := l, op_updated_at := now\<rparr>"
  by (auto simp: transition_def)

lemma clear_for_frame [simp]:
  "op_session_id (clear_for l s) = op_session_id s" "op_run_id (clear_for l s) = op_run_id s"
  "op_operation_id (clear_for l s) = op_operation_id s" "op_lane (clear_for l s) = op_lane s"
  "op_project_ref (clear_for l s) = op_project_ref s" "op_provider_id (clear_for l s) = op_provider_id s"
  "op_turn_budget (clear_for l s) = op_turn_budget s"
  "op_max_repair_rounds (clear_for l s) = op_max_repair_rounds s"
  "op_started_at (clear_for l s) = op_started_at s" "op_task_kind (clear_for l s) = op_task_kind s"
  "op_task_policy (clear_for l s) = op_task_policy s"
  "op_model_selection (clear_for l s) = op_model_selection s"
  "op_reviewer_selection (clear_for l s) = op_reviewer_selection s"
  "op_final_delivery (clear_for l s) = op_final_delivery s"
  "op_writer_attempt (clear_for l s) = op_writer_attempt s"
  "op_candidate_validation_attempted (clear_for l s) = op_candidate_validation_attempted s"
  "op_turns_used (clear_for l s) = op_turns_used s" "op_stop_reason (clear_for l s) = op_stop_reason s"
  "op_completion_proof_ref (clear_for l s) = op_completion_proof_ref s"
  "op_completion_proof_status (clear_for l s) = op_completion_proof_status s"
  "op_repair_rounds (clear_for l s) = op_repair_rounds s"
  "op_repair_context_ref (clear_for l s) = op_repair_context_ref s"
  "op_blocked_reason (clear_for l s) = op_blocked_reason s"
  "op_continuation_ref (clear_for l s) = op_continuation_ref s"
  "op_logical_turn (clear_for l s) = op_logical_turn s" "op_counters (clear_for l s) = op_counters s"
  "op_terminal (clear_for l s) = op_terminal s"
  by (simp_all add: clear_for_def Let_def)

lemma clear_for_refs [simp]:
  "op_response_ref (clear_for l s) =
     (if l \<in> set (LEAF_PROVIDER_REQUEST_READY # RESPONSE_LEAVES) then op_response_ref s else [])"
  "op_work_ref (clear_for l s) = (if l \<in> set WORK_LEAVES then op_work_ref s else [])"
  "op_request_ref (clear_for l s) = (if l = LEAF_PROVIDER_REQUEST_READY then op_request_ref s else [])"
  "op_driver (clear_for l s) = (if l \<in> set PENDING_LEAVES then op_driver s else [])"
  "op_turn (clear_for l s) = (if l \<in> set PENDING_LEAVES then op_turn s else 0)"
  "op_tool_index (clear_for l s) = (if l \<in> set PENDING_LEAVES then op_tool_index s else 0)"
  by (simp_all add: clear_for_def Let_def)

lemma text_ok_empty [simp]: "text_ok n True []"
  by (simp add: text_ok_def strip_def)

text \<open>The leaves a transition may come from.\<close>

lemma allowed_into:
  "LEAF_WRITER_RUNNING \<in> set (ALLOWED_TRANSITIONS m) \<longleftrightarrow>
     m \<in> {LEAF_ACCEPTED, LEAF_PROVIDER_EFFECT_PENDING, LEAF_PROVIDER_RESPONSE_READY,
          LEAF_TOOL_DELIVERY_PENDING, LEAF_WRITER_SETTLED, LEAF_KERNEL_SETTLED}"
  "LEAF_WRITER_SETTLED \<in> set (ALLOWED_TRANSITIONS m) \<longleftrightarrow> m \<in> {LEAF_WRITER_RUNNING, LEAF_KERNEL_SETTLED}"
  "LEAF_COMPLETION_PROOF_RECORDED \<in> set (ALLOWED_TRANSITIONS m) \<longleftrightarrow>
     m \<in> {LEAF_WRITER_SETTLED, LEAF_REPAIR_SETTLED}"
  "LEAF_REPAIR_CONTEXT_ADMITTED \<in> set (ALLOWED_TRANSITIONS m) \<longleftrightarrow> m = LEAF_COMPLETION_PROOF_RECORDED"
  "LEAF_REPAIR_RUNNING \<in> set (ALLOWED_TRANSITIONS m) \<longleftrightarrow>
     m \<in> {LEAF_PROVIDER_EFFECT_PENDING, LEAF_PROVIDER_RESPONSE_READY, LEAF_TOOL_DELIVERY_PENDING,
          LEAF_REPAIR_CONTEXT_ADMITTED, LEAF_REPAIR_SETTLED, LEAF_KERNEL_SETTLED}"
  "LEAF_REPAIR_SETTLED \<in> set (ALLOWED_TRANSITIONS m) \<longleftrightarrow> m \<in> {LEAF_REPAIR_RUNNING, LEAF_KERNEL_SETTLED}"
  by (cases m; simp)+

lemma running_into_pending:
  "l \<in> set PENDING_LEAVES \<Longrightarrow> l \<in> set (ALLOWED_TRANSITIONS m) \<Longrightarrow>
   m \<in> {LEAF_WRITER_RUNNING, LEAF_REPAIR_RUNNING} \<union> set PENDING_LEAVES"
  by (cases m) (auto simp: PENDING_LEAVES_def)

section \<open>Preservation\<close>

text \<open>The caller speaks for the phase the operation is in.\<close>

definition in_repair :: "operation_state \<Rightarrow> bool" where
  "in_repair s = is_repair_leaf (op_leaf s) (op_driver s)"

definition driver_fits :: "operation_state \<Rightarrow> string \<Rightarrow> bool" where
  "driver_fits s driver = (driver = (if in_repair s then DRIVER_REPAIR else DRIVER_WRITER))"

lemma operation_wfI:
  assumes "op_texts_ok s" "op_counts_ok s" "op_refs_ok s" "op_terminal_ok s" "op_data_ok s"
    and "pending_facts s" "proof_facts s" "verdict_facts s" "fresh_facts s"
    and "writing s \<Longrightarrow> op_stop_reason s = [] \<and> (op_writer_attempt s = 1 \<longrightarrow> op_turns_used s = 0)"
  shows "operation_wf s"
  using assms op_stage_ok_iff [of s] by (simp add: operation_wf_def operation_valid_def op_counts_ok_def)

lemma operation_wfD:
  assumes "operation_wf s"
  shows "op_texts_ok s" "op_counts_ok s" "op_refs_ok s" "op_terminal_ok s" "op_data_ok s"
    and "pending_facts s" "proof_facts s" "verdict_facts s" "fresh_facts s"
    and "writing s \<Longrightarrow> op_stop_reason s = [] \<and> (op_writer_attempt s = 1 \<longrightarrow> op_turns_used s = 0)"
  using assms op_stage_ok_iff [of s] by (auto simp: operation_wf_def operation_valid_def op_counts_ok_def)

lemma writer_no_proof:
  assumes "operation_wf s" "\<not> in_repair s" "op_leaf s \<notin> {LEAF_COMPLETION_PROOF_RECORDED, LEAF_TERMINAL}"
  shows "no_proof s"
proof -
  have "writer_side (op_leaf s) (op_driver s)"
    using operation_wfD(6) [OF assms(1)] assms(2,3)
    by (cases "op_leaf s") (auto simp: pending_facts_def in_repair_def writer_side_def
        is_writer_pending_leaf_def is_repair_leaf_def leaf_groups DRIVERS_def)
  with operation_wfD(7) [OF assms(1)] show ?thesis by (simp add: proof_facts_def)
qed

lemma repair_failed_proof:
  assumes "operation_wf s" "in_repair s"
  shows "failed_proof s" "op_leaf s \<noteq> LEAF_REPAIR_CONTEXT_ADMITTED \<Longrightarrow> 1 \<le> op_repair_rounds s"
  using operation_wfD(7) [OF assms(1)] assms(2) writer_not_repair
  by (auto simp: proof_facts_def in_repair_def split: if_splits)

lemma not_terminal: "operation_wf s \<Longrightarrow> op_leaf s \<noteq> LEAF_TERMINAL \<Longrightarrow> op_terminal s = None"
  by (drule operation_wfD(4)) (auto simp: op_terminal_ok_def terminal_fits_def split: option.splits)

lemmas driver_simps = DRIVERS_def DRIVER_WRITER_def DRIVER_REPAIR_def

lemmas frame_simps = op_texts_ok_def op_counts_ok_def op_data_ok_def

lemmas target_simps = op_refs_ok_def response_ref_fits_def request_ref_fits_def work_ref_fits_def
  op_terminal_ok_def terminal_fits_def pending_facts_def proof_facts_def writer_side_def
  verdict_facts_def fresh_facts_def require_fresh_leaf_facts_def writing_def
  is_writer_pending_leaf_def is_repair_leaf_def leaf_groups

lemmas mark_Inr = bind_r_eq_Inr if_Inl_Inr text_field_Inr count_field_Inr transition_Inr pyval.inject

lemma mark_writer_settled_wf:
  assumes wf: "operation_wf s" and now: "text_ok 40 False now" and phase: "\<not> in_repair s"
    and step: "mark_writer_settled now s provider turns stop = Inr s'"
  shows "operation_wf s'"
proof -
  from step have leaf: "op_leaf s \<in> {LEAF_WRITER_RUNNING, LEAF_KERNEL_SETTLED}"
    by (auto simp: mark_writer_settled_def mark_Inr allowed_into)
  have "no_proof s" "op_terminal s = None"
    using writer_no_proof [OF wf phase] not_terminal [OF wf] leaf by auto
  with operation_wfD(1-3,5) [OF wf] now step show ?thesis
    by (simp only: mark_writer_settled_def mark_Inr, elim exE conjE, hypsubst, intro operation_wfI)
       (simp_all add: frame_simps target_simps no_proof_def)
qed

text \<open>
  Entering the two running leaves and the pending leaves. Each \<open>mark_...\<close> function
  that enters one of them is an instance, up to fields it leaves as they are.
\<close>

definition enter_writing ::
  "string \<Rightarrow> string \<Rightarrow> int \<Rightarrow> bool \<Rightarrow> int \<Rightarrow> execution_counters \<Rightarrow> int \<Rightarrow> operation_state \<Rightarrow> operation_state" where
  "enter_writing now p a v t c n s =
     (clear_for LEAF_WRITER_RUNNING s)\<lparr>op_leaf := LEAF_WRITER_RUNNING, op_updated_at := now,
       op_provider_id := p, op_writer_attempt := a, op_candidate_validation_attempted := v,
       op_turns_used := t, op_stop_reason := [], op_counters := c, op_logical_turn := n\<rparr>"

lemma enter_writing_wf:
  assumes wf: "operation_wf s" and now: "text_ok 40 False now" and "\<not> in_repair s"
    and leaf: "op_leaf s \<notin> {LEAF_COMPLETION_PROOF_RECORDED, LEAF_TERMINAL}"
    and args: "op_blocked_reason s = []" "text_ok MAX_TEXT_CHARS False p" "1 \<le> a" "v \<longrightarrow> 2 \<le> a"
      "0 \<le> t" "t \<le> op_turn_budget s" "a = 1 \<longrightarrow> t = 0" "counters_ok c" "0 \<le> n"
  shows "operation_wf (enter_writing now p a v t c n s)"
proof -
  have "no_proof s" "op_terminal s = None"
    using writer_no_proof [OF wf assms(3)] not_terminal [OF wf] leaf by auto
  with operation_wfD(1-3,5) [OF wf] now args show ?thesis
    unfolding enter_writing_def
    by (intro operation_wfI) (simp_all add: frame_simps target_simps no_proof_def)
qed

definition enter_repairing ::
  "string \<Rightarrow> string \<Rightarrow> int \<Rightarrow> bool \<Rightarrow> int \<Rightarrow> string \<Rightarrow> execution_counters \<Rightarrow> int \<Rightarrow> operation_state \<Rightarrow> operation_state" where
  "enter_repairing now p a v r st c n s =
     (clear_for LEAF_REPAIR_RUNNING s)\<lparr>op_leaf := LEAF_REPAIR_RUNNING, op_updated_at := now,
       op_provider_id := p, op_writer_attempt := a, op_candidate_validation_attempted := v,
       op_repair_rounds := r, op_stop_reason := st, op_counters := c, op_logical_turn := n\<rparr>"

lemma enter_repairing_wf:
  assumes wf: "operation_wf s" and now: "text_ok 40 False now" and rep: "in_repair s"
    and args: "op_blocked_reason s = []" "text_ok MAX_TEXT_CHARS False p" "1 \<le> a" "v \<longrightarrow> 2 \<le> a"
      "1 \<le> r" "r \<le> op_max_repair_rounds s" "text_ok MAX_TEXT_CHARS True st" "counters_ok c" "0 \<le> n"
  shows "operation_wf (enter_repairing now p a v r st c n s)"
proof -
  have "op_leaf s \<noteq> LEAF_TERMINAL" using rep by (auto simp: in_repair_def is_repair_leaf_def leaf_groups)
  then have "failed_proof s" "op_terminal s = None"
    using repair_failed_proof [OF wf rep] not_terminal [OF wf] by auto
  with operation_wfD(1-3,5) [OF wf] now args show ?thesis
    unfolding enter_repairing_def
    by (intro operation_wfI) (simp_all add: frame_simps target_simps failed_proof_def)
qed

definition enter_pending ::
  "string \<Rightarrow> leaf \<Rightarrow> string \<Rightarrow> string \<Rightarrow> int \<Rightarrow> int \<Rightarrow> string \<Rightarrow> string \<Rightarrow> string \<Rightarrow> execution_counters \<Rightarrow> int
    \<Rightarrow> operation_state \<Rightarrow> operation_state" where
  "enter_pending now l p d k i resp req work c n s =
     s\<lparr>op_leaf := l, op_updated_at := now, op_provider_id := p, op_driver := d, op_turn := k,
       op_tool_index := i, op_response_ref := resp, op_request_ref := req, op_work_ref := work,
       op_counters := c, op_logical_turn := n\<rparr>"

lemma drivers_differ [simp]: "DRIVER_WRITER \<noteq> DRIVER_REPAIR" "DRIVER_REPAIR \<noteq> DRIVER_WRITER"
  by (simp_all add: driver_simps)

lemma pending_source:
  assumes "operation_wf s" "op_leaf s \<in> {LEAF_WRITER_RUNNING, LEAF_REPAIR_RUNNING} \<union> set PENDING_LEAVES"
  shows "op_terminal s = None" "op_blocked_reason s = []" "\<not> in_repair s \<Longrightarrow> writing s"
proof -
  show "op_terminal s = None" using not_terminal [OF assms(1)] assms(2) by (auto simp: PENDING_LEAVES_def)
  show "op_blocked_reason s = []"
    using operation_wfD(8) [OF assms(1)] assms(2) by (auto simp: verdict_facts_def leaf_groups)
  show "writing s" if "\<not> in_repair s"
    using operation_wfD(6) [OF assms(1)] assms(2) that
    by (auto simp: pending_facts_def writing_def in_repair_def is_repair_leaf_def
        is_writer_pending_leaf_def DRIVERS_def REPAIR_STRUCTURAL_LEAVES_def)
qed

lemma enter_pending_wf:
  assumes wf: "operation_wf s" and now: "text_ok 40 False now"
    and src: "op_leaf s \<in> {LEAF_WRITER_RUNNING, LEAF_REPAIR_RUNNING} \<union> set PENDING_LEAVES"
    and l: "l \<in> set PENDING_LEAVES" and d: "driver_fits s d"
    and args: "text_ok MAX_TEXT_CHARS False p" "0 \<le> k" "0 \<le> i"
      "list_all (text_ok MAX_TEXT_CHARS True) [resp, req, work]" "counters_ok c" "0 \<le> n"
      "l \<in> set [LEAF_PROVIDER_REQUEST_READY, LEAF_PROVIDER_EFFECT_PENDING, LEAF_PROVIDER_RESPONSE_READY]
         \<longrightarrow> i = 0"
    and refs: "response_ref_fits l resp" "request_ref_fits l req" "work_ref_fits l work"
  shows "operation_wf (enter_pending now l p d k i resp req work c n s)"
proof -
  have drv: "d = DRIVER_WRITER \<or> d = DRIVER_REPAIR" using d by (simp add: driver_fits_def)
  then have dtext: "text_ok MAX_TEXT_CHARS True d"
    by (auto simp: driver_simps text_ok_def strip_def is_space_def Let_def char_limits)
  have phase: "if d = DRIVER_REPAIR then failed_proof s \<and> 1 \<le> op_repair_rounds s
      else no_proof s \<and> op_stop_reason s = [] \<and> (op_writer_attempt s = 1 \<longrightarrow> op_turns_used s = 0)"
  proof (cases "in_repair s")
    case True
    with d have "d = DRIVER_REPAIR" by (simp add: driver_fits_def)
    moreover have "op_leaf s \<noteq> LEAF_REPAIR_CONTEXT_ADMITTED" using src by (auto simp: PENDING_LEAVES_def)
    ultimately show ?thesis using repair_failed_proof [OF wf True] by simp
  next
    case False
    with d have "d \<noteq> DRIVER_REPAIR" by (simp add: driver_fits_def driver_simps)
    moreover have "no_proof s"
      by (rule writer_no_proof [OF wf False]) (use src in \<open>auto simp: PENDING_LEAVES_def\<close>)
    ultimately show ?thesis
      using operation_wfD(10) [OF wf pending_source(3) [OF wf src False]] by simp
  qed
  have other: "l \<notin> set PRE_REPAIR_LEAVES" "l \<notin> set REPAIR_STRUCTURAL_LEAVES" "l \<noteq> LEAF_TERMINAL"
      "l \<noteq> LEAF_ACCEPTED" "l \<noteq> LEAF_WRITER_RUNNING" "l \<noteq> LEAF_REPAIR_CONTEXT_ADMITTED"
    using l by (auto simp: leaf_groups)
  show ?thesis
    unfolding enter_pending_def
  proof (rule operation_wfI, goal_cases)
    case 3 then show ?case using operation_wfD(3) [OF wf] refs by (simp add: op_refs_ok_def)
  next
    case 4 then show ?case using pending_source(1) [OF wf src] other by (simp add: op_terminal_ok_def terminal_fits_def)
  next
    case 6 then show ?case using l drv args by (simp add: pending_facts_def DRIVERS_def)
  next
    case 7 then show ?case
      using phase l drv other
      by (auto simp: proof_facts_def writer_side_def is_writer_pending_leaf_def is_repair_leaf_def
          no_proof_def failed_proof_def split: if_splits)
  next
    case 8 then show ?case using pending_source(2) [OF wf src] by (simp add: verdict_facts_def)
  next
    case 9 then show ?case using other by (simp add: fresh_facts_def require_fresh_leaf_facts_def)
  next
    case 10 then show ?case
      using phase other by (auto simp: writing_def is_writer_pending_leaf_def driver_simps split: if_splits)
  qed (use operation_wfD(1,2,5) [OF wf] now args dtext in \<open>simp_all add: frame_simps\<close>)
qed

section \<open>Preservation, function by function\<close>

text \<open>A rebinding of the writer must not lower the attempt.\<close>

definition attempt_fits :: "operation_state \<Rightarrow> int option \<Rightarrow> bool" where
  "attempt_fits s x = (case x of None \<Rightarrow> True | Some n \<Rightarrow> op_writer_attempt s \<le> n)"

lemma rebind_wf:
  assumes wf: "operation_wf s" and now: "text_ok 40 False now" and acc: "op_leaf s \<noteq> LEAF_ACCEPTED"
    and args: "text_ok MAX_TEXT_CHARS False p" "op_writer_attempt s \<le> a"
  shows "operation_wf (s\<lparr>op_provider_id := p, op_writer_attempt := a, op_updated_at := now\<rparr>)"
    (is "operation_wf ?t")
proof -
  have same: "writing ?t = writing s" "pending_facts ?t = pending_facts s" "proof_facts ?t = proof_facts s"
      "verdict_facts ?t = verdict_facts s" "op_terminal_ok ?t = op_terminal_ok s"
      "op_refs_ok ?t = op_refs_ok s" "op_data_ok ?t = op_data_ok s"
    by (simp_all add: writing_def pending_facts_def proof_facts_def no_proof_def failed_proof_def
        verdict_facts_def op_terminal_ok_def op_refs_ok_def op_data_ok_def)
  have "op_texts_ok ?t" "op_counts_ok ?t"
    using operation_wfD(1,2) [OF wf] now args by (simp_all add: frame_simps) auto
  moreover have low: "1 \<le> op_writer_attempt s" using operation_wfD(2) [OF wf] by (simp add: op_counts_ok_def)
  moreover have "fresh_facts ?t"
    using operation_wfD(9) [OF wf] acc args(2) low
    by (auto simp: fresh_facts_def require_fresh_leaf_facts_def)
  ultimately show ?thesis
    using operation_wfD [OF wf] args(2) same by (intro operation_wfI) auto
qed

lemma writer_sources_not_repair:
  "op_leaf s \<in> {LEAF_ACCEPTED, LEAF_WRITER_SETTLED, LEAF_WRITER_RUNNING} \<Longrightarrow> \<not> in_repair s"
  by (auto simp: in_repair_def is_repair_leaf_def leaf_groups)

lemma wf_counts:
  assumes "operation_wf s"
  shows "0 \<le> op_turns_used s" "op_turns_used s \<le> op_turn_budget s" "1 \<le> op_writer_attempt s"
    "op_candidate_validation_attempted s \<longrightarrow> 2 \<le> op_writer_attempt s" "counters_ok (op_counters s)"
    "0 \<le> op_logical_turn s" "0 \<le> op_repair_rounds s" "op_repair_rounds s \<le> op_max_repair_rounds s"
  using operation_wfD(2) [OF assms] by (simp_all add: op_counts_ok_def)

lemma start_research_successor_wf:
  assumes wf: "operation_wf s" and now: "text_ok 40 False now" and p: "text_ok MAX_TEXT_CHARS False p"
    and step: "start_research_successor now s p n = Inr s'"
  shows "operation_wf s'"
proof -
  have src: "op_leaf s = LEAF_KERNEL_SETTLED" "op_driver s = DRIVER_WRITER" "op_provider_id s = p"
      "op_writer_attempt s < n" "0 \<le> op_turns_used s + op_logical_turn s"
      "op_turns_used s + op_logical_turn s \<le> op_turn_budget s" "op_blocked_reason s = []"
    using step by (simp_all add: start_research_successor_def mark_Inr not_le)
  have "s' = enter_writing now p n (op_candidate_validation_attempted s)
      (op_turns_used s + op_logical_turn s) new_counters 0 s"
    using step by (intro operation_state.equality)
      (simp_all add: start_research_successor_def mark_Inr enter_writing_def leaf_groups)
  then show ?thesis
    using src p wf_counts [OF wf]
    by (auto intro!: enter_writing_wf [OF wf now] simp: in_repair_def is_repair_leaf_def leaf_groups)
qed

lemma restart_settled_writer_wf:
  assumes wf: "operation_wf s" and now: "text_ok 40 False now" and p: "text_ok MAX_TEXT_CHARS False p"
    and leaf: "op_leaf s = LEAF_WRITER_SETTLED"
    and step: "restart_settled_writer now s p n = Inr s'"
  shows "operation_wf s'"
proof (cases "op_stop_reason s \<in> set [''question'', ''approval''] \<and> n = op_writer_attempt s")
  case True
  then have blocked: "op_blocked_reason s = []"
    and eq: "s' = enter_writing now p (op_writer_attempt s + 1) (op_candidate_validation_attempted s)
      (op_turns_used s) (op_counters s) (op_logical_turn s) s"
    using step by (auto simp: restart_settled_writer_def mark_Inr enter_writing_def leaf_groups
        intro!: operation_state.equality)
  show ?thesis unfolding eq
    using blocked leaf p wf_counts [OF wf] writer_sources_not_repair [of s]
    by (intro enter_writing_wf [OF wf now]) auto
next
  case False
  note step' = step [unfolded restart_settled_writer_def if_not_P [OF False]]
  then have src: "op_blocked_reason s = []" "op_writer_attempt s < n" by (simp_all add: mark_Inr not_le)
  have eq: "s' = enter_writing now p n (op_candidate_validation_attempted s) (op_turns_used s) new_counters 0 s"
    using step' by (simp add: mark_Inr enter_writing_def)
  show ?thesis unfolding eq
    using src leaf p wf_counts [OF wf] writer_sources_not_repair [of s]
    by (intro enter_writing_wf [OF wf now]) auto
qed

lemma start_writer_wf:
  assumes wf: "operation_wf s" and now: "text_ok 40 False now" and p: "text_ok MAX_TEXT_CHARS False p"
    and n: "1 \<le> n" and leaf: "op_leaf s \<notin> set PENDING_LEAVES" "op_leaf s \<noteq> LEAF_WRITER_SETTLED"
    and step: "transition now LEAF_WRITER_RUNNING (\<lambda>x. x\<lparr>op_provider_id := p, op_writer_attempt := n\<rparr>) s = Inr s'"
  shows "operation_wf s'"
proof -
  have acc: "op_leaf s = LEAF_ACCEPTED"
    using step leaf by (auto simp: transition_Inr allowed_into PENDING_LEAVES_def)
  with operation_wfD(9) [OF wf]
  have fresh: "op_writer_attempt s = 1" "op_turns_used s = 0" "op_stop_reason s = []"
    by (simp_all add: fresh_facts_def require_fresh_leaf_facts_def split: if_splits)
  have eq: "s' = enter_writing now p n (op_candidate_validation_attempted s) 0 (op_counters s) (op_logical_turn s) s"
    using step fresh by (intro operation_state.equality) (simp_all add: transition_Inr enter_writing_def)
  show ?thesis unfolding eq
    using step acc p n fresh wf_counts [OF wf] writer_sources_not_repair [of s]
    by (intro enter_writing_wf [OF wf now]) (auto simp: transition_Inr)
qed

lemma mark_writer_running_wf:
  assumes wf: "operation_wf s" and now: "text_ok 40 False now" and fits: "attempt_fits s a"
    and step: "mark_writer_running now s p a = Inr s'"
  shows "operation_wf s'"
proof -
  from step obtain n where p: "text_ok MAX_TEXT_CHARS False p"
      and n: "(case a of None \<Rightarrow> Inr (op_writer_attempt s)
             | Some n \<Rightarrow> count_field 1 None ''writer_attempt'' (PInt n)) = Inr n"
    by (simp only: mark_writer_running_def bind_r_eq_Inr text_field_Inr pyval.inject) blast
  have n1: "1 \<le> n" "op_writer_attempt s \<le> n"
    using n fits wf_counts [OF wf] by (auto simp: attempt_fits_def split: option.splits)
  have rebind: "operation_wf s'" if "rebind_writer now s p n = Inr s'" "op_leaf s \<noteq> LEAF_ACCEPTED"
    using that wf rebind_wf [OF wf now that(2) p n1(2)] by (auto simp: rebind_writer_def split: if_splits)
  note step' = step [unfolded mark_writer_running_def field_readers(1) [OF p] bind_r_Inr n]
  show ?thesis
    using step' wf start_research_successor_wf [OF wf now p] restart_settled_writer_wf [OF wf now p]
      start_writer_wf [OF wf now p n1(1)] rebind
    by (simp only: split: if_splits) (auto simp: PENDING_LEAVES_def)
qed

lemma mark_candidate_validation_running_wf:
  assumes wf: "operation_wf s" and now: "text_ok 40 False now"
    and step: "mark_candidate_validation_running now s p a = Inr s'"
  shows "operation_wf s'"
proof -
  let ?repair = "op_leaf s = LEAF_REPAIR_SETTLED"
  from step have args: "text_ok MAX_TEXT_CHARS False p" "op_writer_attempt s + 1 \<le> a"
      "?repair \<or> op_leaf s = LEAF_WRITER_SETTLED" "op_blocked_reason s = []"
      "?repair \<Longrightarrow> op_repair_rounds s = 1" "op_turns_used s \<le> op_turn_budget s"
      "op_provider_id s = p"
    and run: "transition now (if ?repair then LEAF_REPAIR_RUNNING else LEAF_WRITER_RUNNING)
            (\<lambda>x. x\<lparr>op_writer_attempt := a, op_candidate_validation_attempted := True,
               op_stop_reason := [], op_counters := new_counters, op_logical_turn := 0\<rparr>) s = Inr s'"
    by (auto simp: mark_candidate_validation_running_def mark_Inr Let_def)
  show ?thesis
  proof (cases ?repair)
    case True
    have eq: "s' = enter_repairing now p a True (op_repair_rounds s) [] new_counters 0 s"
      using run True args by (intro operation_state.equality) (simp_all add: transition_Inr enter_repairing_def)
    show ?thesis unfolding eq
      using True args wf_counts [OF wf]
      by (intro enter_repairing_wf [OF wf now]) (auto simp: in_repair_def is_repair_leaf_def leaf_groups)
  next
    case False
    have eq: "s' = enter_writing now p a True (op_turns_used s) new_counters 0 s"
      using run False args by (intro operation_state.equality) (simp_all add: transition_Inr enter_writing_def)
    show ?thesis unfolding eq
      using False args wf_counts [OF wf] writer_sources_not_repair [of s]
      by (intro enter_writing_wf [OF wf now]) auto
  qed
qed

lemma transition_source:
  "l \<in> set PENDING_LEAVES \<Longrightarrow> transition now l updates s = Inr s' \<Longrightarrow>
   op_leaf s \<in> {LEAF_WRITER_RUNNING, LEAF_REPAIR_RUNNING} \<union> set PENDING_LEAVES"
  unfolding transition_Inr by (blast dest: running_into_pending)

lemma wf_texts:
  assumes "operation_wf s"
  shows "text_ok MAX_TEXT_CHARS True (op_response_ref s)" "text_ok MAX_TEXT_CHARS True (op_request_ref s)"
    "text_ok MAX_TEXT_CHARS True (op_work_ref s)" "text_ok MAX_TEXT_CHARS False (op_provider_id s)"
    "text_ok MAX_TEXT_CHARS True (op_stop_reason s)" "0 \<le> op_turn s" "0 \<le> op_tool_index s"
  using operation_wfD(1,2) [OF assms] by (simp_all add: op_texts_ok_def op_counts_ok_def)

lemmas ref_fits_simps = response_ref_fits_def request_ref_fits_def work_ref_fits_def leaf_groups

lemma text_ok_nonempty: "text_ok n False t \<Longrightarrow> text_ok n True t \<and> t \<noteq> []"
  by (simp add: text_ok_def)

lemma mark_provider_request_ready_wf:
  assumes wf: "operation_wf s" and now: "text_ok 40 False now" and d: "driver_fits s d"
    and step: "mark_provider_request_ready now s r d k = Inr s'"
  shows "operation_wf s'"
proof -
  let ?resp = "if op_leaf s = LEAF_PROVIDER_RESPONSE_READY then op_response_ref s else []"
  from step have args: "text_ok MAX_TEXT_CHARS True r" "r \<noteq> []" "0 \<le> k"
    and run: "transition now LEAF_PROVIDER_REQUEST_READY (\<lambda>x. x\<lparr>op_request_ref := r, op_driver := d,
      op_turn := k, op_tool_index := 0, op_response_ref := ?resp\<rparr>) s = Inr s'"
    by (auto simp: mark_provider_request_ready_def mark_Inr text_ok_def simp del: transition_Inr)
  have eq: "s' = enter_pending now LEAF_PROVIDER_REQUEST_READY (op_provider_id s) d k 0 ?resp r
      (op_work_ref s) (op_counters s) (op_logical_turn s) s"
    using run by (intro operation_state.equality) (simp_all add: transition_Inr enter_pending_def leaf_groups)
  show ?thesis unfolding eq
    by (rule enter_pending_wf [OF wf now transition_source [OF _ run] _ d])
       (use args wf_texts [OF wf] wf_counts [OF wf] in \<open>simp_all add: ref_fits_simps\<close>)
qed

lemma mark_provider_effect_pending_wf:
  assumes wf: "operation_wf s" and now: "text_ok 40 False now" and d: "driver_fits s d"
    and step: "mark_provider_effect_pending now s d p k = Inr s'"
  shows "operation_wf s'"
proof -
  from step have args: "text_ok MAX_TEXT_CHARS False p" "0 \<le> k"
    and run: "transition now LEAF_PROVIDER_EFFECT_PENDING (\<lambda>x. x\<lparr>op_provider_id := p,
      op_driver := d, op_turn := k, op_tool_index := 0\<rparr>) s = Inr s'"
    by (auto simp: mark_provider_effect_pending_def mark_Inr)
  have eq: "s' = enter_pending now LEAF_PROVIDER_EFFECT_PENDING p d k 0 [] [] (op_work_ref s)
      (op_counters s) (op_logical_turn s) s"
    using run by (intro operation_state.equality) (simp_all add: transition_Inr enter_pending_def leaf_groups)
  show ?thesis unfolding eq
    by (rule enter_pending_wf [OF wf now transition_source [OF _ run] _ d])
       (use args wf_texts [OF wf] wf_counts [OF wf] in \<open>simp_all add: ref_fits_simps\<close>)
qed

lemma mark_tool_effect_pending_wf:
  assumes wf: "operation_wf s" and now: "text_ok 40 False now" and d: "driver_fits s d"
    and step: "mark_tool_effect_pending now s d k i = Inr s'"
  shows "operation_wf s'"
proof -
  from step have args: "0 \<le> k" "0 \<le> i"
    and run: "transition now LEAF_TOOL_EFFECT_PENDING (\<lambda>x. x\<lparr>op_driver := d, op_turn := k,
      op_tool_index := i\<rparr>) s = Inr s'"
    by (auto simp: mark_tool_effect_pending_def mark_Inr)
  have eq: "s' = enter_pending now LEAF_TOOL_EFFECT_PENDING (op_provider_id s) d k i (op_response_ref s) [] []
      (op_counters s) (op_logical_turn s) s"
    using run by (intro operation_state.equality) (simp_all add: transition_Inr enter_pending_def leaf_groups)
  show ?thesis unfolding eq
    by (rule enter_pending_wf [OF wf now transition_source [OF _ run] _ d])
       (use args wf_texts [OF wf] wf_counts [OF wf] in \<open>simp_all add: ref_fits_simps\<close>)
qed

lemma mark_tool_delivery_pending_wf:
  assumes wf: "operation_wf s" and now: "text_ok 40 False now" and d: "driver_fits s d"
    and step: "mark_tool_delivery_pending now s d k = Inr s'"
  shows "operation_wf s'"
proof -
  from step have args: "0 \<le> k"
    and run: "transition now LEAF_TOOL_DELIVERY_PENDING (\<lambda>x. x\<lparr>op_driver := d, op_turn := k,
      op_tool_index := 0\<rparr>) s = Inr s'"
    by (auto simp: mark_tool_delivery_pending_def mark_Inr)
  have eq: "s' = enter_pending now LEAF_TOOL_DELIVERY_PENDING (op_provider_id s) d k 0 (op_response_ref s) [] []
      (op_counters s) (op_logical_turn s) s"
    using run by (intro operation_state.equality) (simp_all add: transition_Inr enter_pending_def leaf_groups)
  show ?thesis unfolding eq
    by (rule enter_pending_wf [OF wf now transition_source [OF _ run] _ d])
       (use args wf_texts [OF wf] wf_counts [OF wf] in \<open>simp_all add: ref_fits_simps\<close>)
qed

text \<open>Going back to the running leaf of the phase, with nothing but the position changed.\<close>

lemma driver_phase:
  assumes "operation_wf s" "op_leaf s \<in> set PENDING_LEAVES"
  shows "op_driver s = DRIVER_REPAIR \<longleftrightarrow> in_repair s" "driver_fits s (op_driver s)"
  using operation_wfD(6) [OF assms(1)] assms(2)
  by (auto simp: pending_facts_def in_repair_def is_repair_leaf_def leaf_groups driver_fits_def DRIVERS_def)

lemma return_to_running_wf:
  assumes wf: "operation_wf s" and now: "text_ok 40 False now" and leaf: "op_leaf s \<in> set PENDING_LEAVES"
    and step: "transition now (if op_driver s = DRIVER_REPAIR then LEAF_REPAIR_RUNNING else LEAF_WRITER_RUNNING)
      (\<lambda>x. x) s = Inr s'"
  shows "operation_wf s'"
proof (cases "in_repair s")
  case True
  then have eq: "s' = enter_repairing now (op_provider_id s) (op_writer_attempt s)
      (op_candidate_validation_attempted s) (op_repair_rounds s) (op_stop_reason s) (op_counters s) (op_logical_turn s) s"
    using step driver_phase [OF wf leaf]
    by (intro operation_state.equality) (simp_all add: transition_Inr enter_repairing_def)
  have "op_leaf s \<noteq> LEAF_REPAIR_CONTEXT_ADMITTED" using leaf by (auto simp: PENDING_LEAVES_def)
  with True step show ?thesis unfolding eq
    by (intro enter_repairing_wf [OF wf now True])
       (use driver_phase [OF wf leaf] wf_counts [OF wf] wf_texts [OF wf] repair_failed_proof [OF wf True]
        in \<open>auto simp: transition_Inr\<close>)
next
  case False
  have src: "op_leaf s \<in> {LEAF_WRITER_RUNNING, LEAF_REPAIR_RUNNING} \<union> set PENDING_LEAVES" using leaf by simp
  note w = operation_wfD(10) [OF wf pending_source(3) [OF wf src False]]
  from False have eq: "s' = enter_writing now (op_provider_id s) (op_writer_attempt s)
      (op_candidate_validation_attempted s) (op_turns_used s) (op_counters s) (op_logical_turn s) s"
    using step driver_phase [OF wf leaf] w
    by (intro operation_state.equality) (simp_all add: transition_Inr enter_writing_def)
  show ?thesis unfolding eq
    by (intro enter_writing_wf [OF wf now False])
       (use w leaf wf_counts [OF wf] wf_texts [OF wf] pending_source(2) [OF wf src] in \<open>auto simp: PENDING_LEAVES_def\<close>)
qed

lemma mark_tool_delivery_settled_wf:
  assumes wf: "operation_wf s" and now: "text_ok 40 False now"
    and step: "mark_tool_delivery_settled now s = Inr s'"
  shows "operation_wf s'"
  by (rule return_to_running_wf [OF wf now])
     (use step in \<open>auto simp: mark_tool_delivery_settled_def PENDING_LEAVES_def split: if_splits\<close>)

lemma mark_tool_effect_settled_wf:
  assumes wf: "operation_wf s" and now: "text_ok 40 False now"
    and step: "mark_tool_effect_settled now s remaining = Inr s'"
  shows "operation_wf s'"
proof -
  have leaf: "op_leaf s = LEAF_TOOL_EFFECT_PENDING" "op_leaf s \<in> set PENDING_LEAVES"
    using step by (auto simp: mark_tool_effect_settled_def PENDING_LEAVES_def split: if_splits)
  note d = driver_phase(2) [OF wf leaf(2)]
  have drv: "op_driver s \<in> set DRIVERS" using d by (simp add: driver_fits_def DRIVERS_def)
  have "mark_tool_effect_pending now s (op_driver s) (op_turn s) (op_tool_index s) = Inr s'" if remaining
    using step that leaf drv wf_texts [OF wf]
    by (simp add: mark_tool_effect_settled_def mark_tool_effect_pending_def field_readers)
  then show ?thesis
    using step leaf mark_tool_effect_pending_wf [OF wf now d] mark_tool_delivery_pending_wf [OF wf now d]
    by (cases remaining) (simp_all add: mark_tool_effect_settled_def)
qed

lemma mark_provider_response_ready_wf:
  assumes wf: "operation_wf s" and now: "text_ok 40 False now"
    and leaf: "op_leaf s = LEAF_PROVIDER_EFFECT_PENDING"
    and step: "mark_provider_response_ready now s r = Inr s'"
  shows "operation_wf s'"
proof -
  from step have args: "text_ok MAX_TEXT_CHARS True r" "r \<noteq> []"
    and run: "transition now LEAF_PROVIDER_RESPONSE_READY (\<lambda>x. x\<lparr>op_response_ref := r\<rparr>) s = Inr s'"
    by (auto simp: mark_provider_response_ready_def text_ok_def)
  have pend: "op_leaf s \<in> set PENDING_LEAVES" and idx: "op_tool_index s = 0"
    using leaf operation_wfD(6) [OF wf] by (simp_all add: PENDING_LEAVES_def pending_facts_def)
  have eq: "s' = enter_pending now LEAF_PROVIDER_RESPONSE_READY (op_provider_id s) (op_driver s) (op_turn s) 0 r []
      (op_work_ref s) (op_counters s) (op_logical_turn s) s"
    using run idx by (intro operation_state.equality) (simp_all add: transition_Inr enter_pending_def leaf_groups)
  show ?thesis unfolding eq
    by (rule enter_pending_wf [OF wf now transition_source [OF _ run] _ driver_phase(2) [OF wf pend]])
       (use args wf_texts [OF wf] wf_counts [OF wf] in \<open>simp_all add: ref_fits_simps\<close>)
qed

lemma clear_response_wf:
  assumes wf: "operation_wf s" and now: "text_ok 40 False now" and leaf: "op_leaf s = LEAF_PROVIDER_REQUEST_READY"
  shows "operation_wf (s\<lparr>op_response_ref := [], op_updated_at := now\<rparr>)"
proof -
  have src: "op_leaf s \<in> {LEAF_WRITER_RUNNING, LEAF_REPAIR_RUNNING} \<union> set PENDING_LEAVES"
    and pend: "op_leaf s \<in> set PENDING_LEAVES" and idx: "op_tool_index s = 0"
    using leaf operation_wfD(6) [OF wf] by (simp_all add: PENDING_LEAVES_def pending_facts_def)
  have eq: "s\<lparr>op_response_ref := [], op_updated_at := now\<rparr>
      = enter_pending now LEAF_PROVIDER_REQUEST_READY (op_provider_id s) (op_driver s) (op_turn s) 0 []
          (op_request_ref s) (op_work_ref s) (op_counters s) (op_logical_turn s) s"
    using leaf idx by (intro operation_state.equality) (simp_all add: enter_pending_def)
  show ?thesis unfolding eq
    by (rule enter_pending_wf [OF wf now src _ driver_phase(2) [OF wf pend]])
       (use leaf wf_texts [OF wf] wf_counts [OF wf] operation_wfD(3) [OF wf] in
        \<open>simp_all add: ref_fits_simps op_refs_ok_def\<close>)
qed

end
