(* ===== verification/Operation_Machine.thy ===== *)
theory Operation_Machine
  imports Operation_Steps
begin

text \<open>
  The remaining steps of the operation state machine: settling effects, advancing the
  execution, recording proofs, repairing and entering the terminal leaf.
\<close>

section \<open>Settling an effect and advancing the execution\<close>

text \<open>A transition between pending leaves that keeps the driver.\<close>

lemma pending_move_wf:
  assumes wf: "operation_wf s" and now: "text_ok 40 False now"
    and l: "l \<in> set PENDING_LEAVES" "l \<noteq> LEAF_PROVIDER_REQUEST_READY" and d: "driver_fits s d"
    and args: "0 \<le> k" "0 \<le> n" "counters_ok c" "text_ok MAX_TEXT_CHARS True w"
    and refs: "response_ref_fits l (op_response_ref (clear_for l s))" "work_ref_fits l w"
    and step: "transition now l (\<lambda>x. x\<lparr>op_logical_turn := n, op_work_ref := w, op_counters := c,
      op_driver := d, op_turn := k, op_tool_index := 0\<rparr>) s = Inr s'"
  shows "operation_wf s'"
proof -
  have eq: "s' = enter_pending now l (op_provider_id s) d k 0 (op_response_ref (clear_for l s)) [] w c n s"
    using step l by (intro operation_state.equality) (simp_all add: transition_Inr enter_pending_def)
  show ?thesis unfolding eq
    by (rule enter_pending_wf [OF wf now transition_source [OF l(1) step] l(1) d])
       (use args refs l wf_texts [OF wf] in \<open>simp_all add: request_ref_fits_def\<close>)
qed

lemma pending_update:
  assumes "op_driver x = d" "op_turn x = k" "op_tool_index x = 0" "op_work_ref x = w" "op_counters x = c"
    "op_logical_turn x = n"
  shows "x = x\<lparr>op_logical_turn := n, op_work_ref := w, op_counters := c, op_driver := d, op_turn := k, op_tool_index := 0\<rparr>"
  using assms by (intro operation_state.equality) simp_all

lemma settle_to_control_wf:
  assumes wf: "operation_wf s" and now: "text_ok 40 False now"
    and leaf: "op_leaf s = LEAF_PROVIDER_EFFECT_PENDING" and work: "op_work_ref s \<noteq> []"
    and step: "transition now LEAF_CONTROL_READY (\<lambda>x. x) s = Inr s'"
  shows "operation_wf s'"
proof -
  have pend: "op_leaf s \<in> set PENDING_LEAVES" and idx: "op_tool_index s = 0"
    using leaf operation_wfD(6) [OF wf] by (simp_all add: PENDING_LEAVES_def pending_facts_def)
  have step': "transition now LEAF_CONTROL_READY (\<lambda>x. x\<lparr>op_logical_turn := op_logical_turn s,
      op_work_ref := op_work_ref s, op_counters := op_counters s, op_driver := op_driver s,
      op_turn := op_turn s, op_tool_index := 0\<rparr>) s = Inr s'"
    using step idx by (simp add: transition_Inr) (intro operation_state.equality; simp add: leaf_groups)
  show ?thesis
    by (rule pending_move_wf [OF wf now _ _ driver_phase(2) [OF wf pend] _ _ _ _ _ _ step'])
       (use work wf_texts [OF wf] wf_counts [OF wf] in \<open>simp_all add: ref_fits_simps\<close>)
qed

lemma set_logical_turn_wf: "operation_wf s \<Longrightarrow> 0 \<le> n \<Longrightarrow> operation_wf (s\<lparr>op_logical_turn := n\<rparr>)"
  by (simp add: operation_wf_def operation_valid_def operation_valid_parts op_satisfied_def writing_def)

lemma settle_to_delivery_wf:
  assumes wf: "operation_wf s" and now: "text_ok 40 False now"
    and leaf: "op_leaf s = LEAF_PROVIDER_EFFECT_PENDING"
    and step: "bind_r (mark_tool_delivery_pending now s (op_driver s) n) (\<lambda>x. Inr (x\<lparr>op_logical_turn := n\<rparr>)) = Inr s'"
  shows "operation_wf s'"
proof -
  from step obtain x where x: "mark_tool_delivery_pending now s (op_driver s) n = Inr x"
      and s': "s' = x\<lparr>op_logical_turn := n\<rparr>" by (auto simp: bind_r_eq_Inr)
  have "op_leaf s \<in> set PENDING_LEAVES" using leaf by (simp add: PENDING_LEAVES_def)
  from mark_tool_delivery_pending_wf [OF wf now driver_phase(2) [OF wf this] x]
  show ?thesis using x unfolding s' by (simp add: set_logical_turn_wf mark_tool_delivery_pending_def mark_Inr)
qed

lemma mark_provider_effect_settled_wf:
  assumes wf: "operation_wf s" and now: "text_ok 40 False now"
    and step: "mark_provider_effect_settled now s t = Inr s'"
  shows "operation_wf s'"
proof -
  have running: "operation_wf s'"
    if "op_leaf s \<in> set [LEAF_PROVIDER_EFFECT_PENDING, LEAF_PROVIDER_RESPONSE_READY]"
      "transition now (if op_driver s = DRIVER_REPAIR then LEAF_REPAIR_RUNNING else LEAF_WRITER_RUNNING)
           (\<lambda>x. x) s = Inr s'"
  proof -
    have "op_leaf s \<in> set PENDING_LEAVES" using that(1) by (auto simp: PENDING_LEAVES_def)
    then show ?thesis by (rule return_to_running_wf [OF wf now _ that(2)])
  qed
  note step' = step [unfolded mark_provider_effect_settled_def]
  show ?thesis
    using step' clear_response_wf [OF wf now] settle_to_control_wf [OF wf now] settle_to_delivery_wf [OF wf now]
      wf running
    by (simp only: if_Inl_Inr sum.inject simp_thms split: if_splits)
qed

text \<open>
  What the callers of \<open>advance_execution\<close> establish: the leaf they name is a pending one
  whose references are in place, or the settled kernel is reopened in its own phase.
\<close>

definition advance_fits ::
  "operation_state \<Rightarrow> leaf \<Rightarrow> int option \<Rightarrow> string option \<Rightarrow> execution_counters option \<Rightarrow> bool" where
  "advance_fits s l n w c =
     (if l \<in> set PENDING_LEAVES then
        l \<noteq> LEAF_PROVIDER_REQUEST_READY
        \<and> response_ref_fits l (op_response_ref (clear_for l s))
        \<and> work_ref_fits l (case w of None \<Rightarrow> op_work_ref (clear_for l s) | Some t \<Rightarrow> t)
      else op_leaf s = LEAF_KERNEL_SETTLED \<and> n = None \<and> w = None \<and> c = None
        \<and> l = (if op_driver s = DRIVER_REPAIR then LEAF_REPAIR_RUNNING else LEAF_WRITER_RUNNING))"

definition phase_driver :: "operation_state \<Rightarrow> string" where
  "phase_driver s =
     (if op_driver s \<noteq> [] then op_driver s
      else if is_repair_leaf (op_leaf s) (op_driver s) then DRIVER_REPAIR else DRIVER_WRITER)"

lemma phase_driver_fits:
  assumes "operation_wf s"
  shows "driver_fits s (phase_driver s)"
proof (cases "op_leaf s \<in> set PENDING_LEAVES")
  case True
  with driver_phase(2) [OF assms True] show ?thesis
    by (auto simp: phase_driver_def driver_fits_def driver_simps split: if_splits)
next
  case False
  then have "op_driver s = []" using operation_wfD(6) [OF assms] by (simp add: pending_facts_def)
  then show ?thesis by (simp add: phase_driver_def driver_fits_def in_repair_def)
qed

lemma update_parts:
  "(case n of None \<Rightarrow> Inr (\<lambda>x. x) | Some n \<Rightarrow> bind_r (count_field 0 None field (PInt n))
      (\<lambda>n'. Inr (\<lambda>x. x\<lparr>op_logical_turn := n'\<rparr>))) = Inr f \<Longrightarrow>
   f x = x\<lparr>op_logical_turn := (case n of None \<Rightarrow> op_logical_turn x | Some n \<Rightarrow> n)\<rparr> \<and> (\<forall>m. n = Some m \<longrightarrow> 0 \<le> m)"
  "(case w of None \<Rightarrow> Inr (\<lambda>x. x) | Some t \<Rightarrow> bind_r (known_text80 True field t)
      (\<lambda>t'. Inr (\<lambda>x. x\<lparr>op_work_ref := t'\<rparr>))) = Inr g \<Longrightarrow>
   g x = x\<lparr>op_work_ref := (case w of None \<Rightarrow> op_work_ref x | Some t \<Rightarrow> t)\<rparr>
     \<and> (\<forall>t. w = Some t \<longrightarrow> text_ok MAX_TEXT_CHARS True t)"
  "(case c of None \<Rightarrow> Inr (\<lambda>x. x) | Some c \<Rightarrow> bind_r (counters_to_payload c) (\<lambda>d.
      bind_r (counters_from_payload (PDict d)) (\<lambda>c'. Inr (\<lambda>x. x\<lparr>op_counters := c'\<rparr>)))) = Inr h \<Longrightarrow>
   \<exists>c'. h = (\<lambda>x. x\<lparr>op_counters := (if c = None then op_counters x else c')\<rparr>) \<and> (c \<noteq> None \<longrightarrow> counters_ok c')"
    apply (cases n; auto simp: bind_r_eq_Inr)
   apply (cases w; auto simp: bind_r_eq_Inr)
  apply (cases c; force simp: bind_r_eq_Inr intro: counters_from_payload_ok)
  done

lemma advance_execution_pending:
  assumes step: "advance_execution now s l n w c = Inr s'" and l: "l \<in> set PENDING_LEAVES"
    and ok: "operation_wf s"
  obtains n' c' where
    "transition now l (\<lambda>x. x\<lparr>op_logical_turn := n',
        op_work_ref := (case w of None \<Rightarrow> op_work_ref (clear_for l s) | Some t \<Rightarrow> t), op_counters := c',
        op_driver := phase_driver s, op_turn := op_turn s, op_tool_index := 0\<rparr>) s = Inr s'"
    "0 \<le> n'" "counters_ok c'" "\<And>t. w = Some t \<Longrightarrow> text_ok MAX_TEXT_CHARS True t"
proof -
  from step obtain f g h where parts:
      "(case n of None \<Rightarrow> Inr (\<lambda>x. x) | Some n \<Rightarrow> bind_r (count_field 0 None ''logical_turn'' (PInt n))
          (\<lambda>n'. Inr (\<lambda>x. x\<lparr>op_logical_turn := n'\<rparr>))) = Inr f"
      "(case w of None \<Rightarrow> Inr (\<lambda>x. x) | Some t \<Rightarrow> bind_r (known_text80 True ''work_ref'' t)
          (\<lambda>t'. Inr (\<lambda>x. x\<lparr>op_work_ref := t'\<rparr>))) = Inr g"
      "(case c of None \<Rightarrow> Inr (\<lambda>x. x) | Some c \<Rightarrow> bind_r (counters_to_payload c) (\<lambda>d.
          bind_r (counters_from_payload (PDict d)) (\<lambda>c'. Inr (\<lambda>x. x\<lparr>op_counters := c'\<rparr>)))) = Inr h"
    and run: "transition now l (\<lambda>x. (h (g (f x)))\<lparr>op_driver := phase_driver s, op_turn := op_turn s,
        op_tool_index := 0\<rparr>) s = Inr s'"
    using l by (simp only: advance_execution_def bind_r_eq_Inr Let_def if_True phase_driver_def) blast
  note f = update_parts(1) [OF parts(1)] and g = update_parts(2) [OF parts(2)]
  obtain c' where h: "h = (\<lambda>x. x\<lparr>op_counters := (if c = None then op_counters x else c')\<rparr>)"
    and c': "c \<noteq> None \<longrightarrow> counters_ok c'" using update_parts(3) [OF parts(3)] by blast
  let ?c = "if c = None then op_counters s else c'"
  let ?n = "case n of None \<Rightarrow> op_logical_turn s | Some n \<Rightarrow> n"
  show thesis
  proof (rule that [of ?c ?n])
    show "0 \<le> ?n" using f wf_counts(6) [OF ok] by (simp split: option.split)
    show "counters_ok ?c" using c' wf_counts(5) [OF ok] by simp
    show "transition now l (\<lambda>x. x\<lparr>op_logical_turn := ?n,
        op_work_ref := (case w of None \<Rightarrow> op_work_ref (clear_for l s) | Some t \<Rightarrow> t), op_counters := ?c,
        op_driver := phase_driver s, op_turn := op_turn s, op_tool_index := 0\<rparr>) s = Inr s'"
      using run unfolding h f [THEN conjunct1] g [THEN conjunct1] transition_Inr
      by (simp cong: option.case_cong if_cong)
  qed (use g in blast)
qed

lemma advance_execution_wf:
  assumes wf: "operation_wf s" and now: "text_ok 40 False now" and fits: "advance_fits s l n w c"
    and step: "advance_execution now s l n w c = Inr s'"
  shows "operation_wf s'"
proof (cases "l \<in> set PENDING_LEAVES")
  case True
  obtain n' c' where run:
    "transition now l (\<lambda>x. x\<lparr>op_logical_turn := n',
        op_work_ref := (case w of None \<Rightarrow> op_work_ref (clear_for l s) | Some t \<Rightarrow> t), op_counters := c',
        op_driver := phase_driver s, op_turn := op_turn s, op_tool_index := 0\<rparr>) s = Inr s'"
    and ok: "0 \<le> n'" "counters_ok c'" "\<And>t. w = Some t \<Longrightarrow> text_ok MAX_TEXT_CHARS True t"
    using advance_execution_pending [OF step True wf] by blast
  show ?thesis
    by (rule pending_move_wf [OF wf now True _ phase_driver_fits [OF wf] _ ok(1,2) _ _ _ run])
       (use fits True wf_texts [OF wf] ok(3) in
        \<open>simp_all add: advance_fits_def split: option.splits if_splits\<close>)
next
  case False
  then have leaf: "op_leaf s = LEAF_KERNEL_SETTLED" and none: "n = None" "w = None" "c = None"
    and l: "l = (if op_driver s = DRIVER_REPAIR then LEAF_REPAIR_RUNNING else LEAF_WRITER_RUNNING)"
    using fits by (simp_all add: advance_fits_def)
  have "transition now l (\<lambda>x. x) s = Inr s'"
    using step False none by (simp add: advance_execution_def Let_def)
  then show ?thesis using return_to_running_wf [OF wf now] leaf l by (simp add: PENDING_LEAVES_def)
qed

section \<open>Proof, repair and the end\<close>

lemma repair_source_status:
  "repair_candidate_proof s \<Longrightarrow> op_completion_proof_ref s \<noteq> [] \<and> op_completion_proof_status s = ''failed''"
  by (simp add: repair_candidate_proof_def REPAIR_SOURCE_PROOF_STATUSES_def)

lemma blockable_status:
  "blocked_verdict_supported s \<Longrightarrow>
   op_completion_proof_ref s \<noteq> [] \<and> op_completion_proof_status s \<in> set BLOCKABLE_PROOF_STATUSES"
  by (simp add: blocked_verdict_supported_def)

lemma settled_facts:
  assumes "operation_wf s" "op_leaf s \<in> {LEAF_WRITER_SETTLED, LEAF_REPAIR_SETTLED}"
  shows "op_repair_rounds s > 0 \<longleftrightarrow> op_repair_context_ref s \<noteq> []"
  using operation_wfD(7) [OF assms(1)] assms(2)
  by (auto simp: proof_facts_def writer_side_def is_writer_pending_leaf_def is_repair_leaf_def leaf_groups no_proof_def failed_proof_def)

lemma mark_completion_proof_recorded_wf:
  assumes wf: "operation_wf s" and now: "text_ok 40 False now"
    and step: "mark_completion_proof_recorded now s r st = Inr s'"
  shows "operation_wf s'"
proof -
  from step have leaf: "op_leaf s \<in> {LEAF_WRITER_SETTLED, LEAF_REPAIR_SETTLED}"
    by (auto simp: mark_completion_proof_recorded_def mark_Inr allowed_into)
  have "op_terminal s = None" using not_terminal [OF wf] leaf by auto
  with operation_wfD(1-3,5) [OF wf] now settled_facts [OF wf leaf] step show ?thesis
    by (simp only: mark_completion_proof_recorded_def mark_Inr, elim exE conjE, hypsubst, intro operation_wfI)
       (simp_all add: frame_simps target_simps text_ok_def)
qed

lemma mark_repair_context_admitted_wf:
  assumes wf: "operation_wf s" and now: "text_ok 40 False now"
    and step: "mark_repair_context_admitted now s r = Inr s'"
  shows "operation_wf s'"
proof -
  from step have leaf: "op_leaf s = LEAF_COMPLETION_PROOF_RECORDED" and cand: "repair_candidate_proof s"
    by (auto simp: mark_repair_context_admitted_def mark_Inr allowed_into)
  have "op_terminal s = None" using not_terminal [OF wf] leaf by auto
  with operation_wfD(1-3,5) [OF wf] now repair_source_status [OF cand] step show ?thesis
    by (simp only: mark_repair_context_admitted_def mark_Inr, elim exE conjE, hypsubst, intro operation_wfI)
       (simp_all add: frame_simps target_simps text_ok_def failed_proof_def)
qed

lemma mark_repair_running_wf:
  assumes wf: "operation_wf s" and now: "text_ok 40 False now" and rep: "in_repair s"
    and step: "mark_repair_running now s p = Inr s'"
  shows "operation_wf s'"
proof -
  from step have args: "text_ok MAX_TEXT_CHARS False p" "op_repair_rounds s < op_max_repair_rounds s"
      "op_blocked_reason s = []"
    and eq: "s' = enter_repairing now p (op_writer_attempt s) (op_candidate_validation_attempted s)
      (op_repair_rounds s + 1) (op_stop_reason s) new_counters 0 s"
    by (auto simp: mark_repair_running_def mark_Inr not_le enter_repairing_def intro!: operation_state.equality)
  show ?thesis unfolding eq
    by (intro enter_repairing_wf [OF wf now rep])
       (use args wf_counts [OF wf] wf_texts [OF wf] in simp_all)
qed

lemma mark_repair_settled_wf:
  assumes wf: "operation_wf s" and now: "text_ok 40 False now" and rep: "in_repair s"
    and step: "mark_repair_settled now s p st b u = Inr s'"
  shows "operation_wf s'"
proof -
  from step have leaf: "op_leaf s \<in> {LEAF_REPAIR_RUNNING, LEAF_KERNEL_SETTLED}"
    by (auto simp: mark_repair_settled_def mark_Inr allowed_into)
  then have "op_terminal s = None" "failed_proof s" "1 \<le> op_repair_rounds s"
    using not_terminal [OF wf] repair_failed_proof [OF wf rep] by auto
  moreover obtain used where
      u: "(case u of None \<Rightarrow> Inr (op_turns_used s)
             | Some n \<Rightarrow> count_field 0 (Some (op_turn_budget s)) ''turns_used'' (PInt n)) = Inr used"
      and args: "\<not> (b \<noteq> [] \<and> \<not> blocked_verdict_supported s)" "text_ok MAX_TEXT_CHARS True b"
        "text_ok MAX_TEXT_CHARS False p" "text_ok MAX_TEXT_CHARS True st"
      and s': "s' = (clear_for LEAF_REPAIR_SETTLED s)\<lparr>op_provider_id := p, op_stop_reason := st,
         op_blocked_reason := b, op_turns_used := used, op_leaf := LEAF_REPAIR_SETTLED, op_updated_at := now\<rparr>"
    using step by (simp only: mark_repair_settled_def mark_Inr) blast
  moreover have "0 \<le> used" "used \<le> op_turn_budget s"
    using u wf_counts [OF wf] by (simp_all split: option.splits)
  moreover have "b \<noteq> [] \<Longrightarrow> op_completion_proof_ref s \<noteq> [] \<and> op_completion_proof_status s \<in> set BLOCKABLE_PROOF_STATUSES"
    using args(1) blockable_status by blast
  ultimately show ?thesis
    using operation_wfD(1-3,5) [OF wf] now
    by (simp only:, intro operation_wfI) (simp_all add: frame_simps target_simps failed_proof_def BLOCKABLE_PROOF_STATUSES_def)
qed

lemma mark_completion_blocked_wf:
  assumes wf: "operation_wf s" and now: "text_ok 40 False now"
    and step: "mark_completion_blocked now s b = Inr s'"
  shows "operation_wf s'"
proof -
  from step have leaf: "op_leaf s = LEAF_COMPLETION_PROOF_RECORDED" and sup: "blocked_verdict_supported s"
      and b: "text_ok MAX_TEXT_CHARS False b"
      and s': "s' = s \<or> s' = s\<lparr>op_blocked_reason := b, op_updated_at := now\<rparr>"
    by (auto simp: mark_completion_blocked_def mark_Inr split: if_splits)
  have "operation_wf (s\<lparr>op_blocked_reason := b, op_updated_at := now\<rparr>)"
    using operation_wfD [OF wf] now b leaf blockable_status [OF sup] not_terminal [OF wf]
    by (intro operation_wfI) (simp_all add: frame_simps target_simps text_ok_def)
  with s' wf show ?thesis by auto
qed

lemma lower_hex_not_space: "lower_hex c \<Longrightarrow> \<not> is_space c"
  by (auto simp: lower_hex_def is_space_def Let_def)

lemma hex_text_ok:
  assumes "prefix \<noteq> []" "\<not> is_space (hd prefix)" "hs \<noteq> []" "list_all lower_hex hs"
    and "length prefix + length hs \<le> n"
  shows "text_ok n e (prefix @ hs)"
proof -
  have "lower_hex (last hs)" using assms(3,4) by (simp add: list_all_iff)
  then have "strip (prefix @ hs) = prefix @ hs" using assms(1-3) by (intro strip_id) (simp add: lower_hex_not_space)
  then show ?thesis using assms by (simp add: text_ok_def)
qed

lemma ref_fullmatch_text:
  assumes "ref_fullmatch prefix k t" "prefix \<noteq> []" "\<not> is_space (hd prefix)" "0 < k" "length prefix + k \<le> n"
  shows "text_ok n e t"
proof -
  let ?hs = "drop (length prefix) t"
  have t: "t = prefix @ ?hs" using assms(1) by (metis append_take_drop_id ref_fullmatch_def)
  have "text_ok n e (prefix @ ?hs)"
    using assms by (intro hex_text_ok) (auto simp: ref_fullmatch_def)
  with t show ?thesis by simp
qed

lemma proof_ref_text:
  "proof_ref_fullmatch t \<Longrightarrow> text_ok MAX_REF_CHARS True t \<and> proof_ref_match t \<and> t \<noteq> []"
  using ref_fullmatch_text [of "''completion_proof:''" 16 t MAX_REF_CHARS True]
  by (auto simp: proof_ref_fullmatch_def proof_ref_match_def ref_match_def is_space_def Let_def char_limits
      ref_fullmatch_def)

lemma recorded_status_text:
  "st \<in> set RECORDED_PROOF_STATUSES \<Longrightarrow> text_ok MAX_TEXT_CHARS True st \<and> st \<noteq> []"
  by (auto simp: RECORDED_PROOF_STATUSES_def text_ok_def strip_def is_space_def Let_def char_limits)

lemma open_proof_facts:
  assumes "operation_wf s" "op_leaf s \<noteq> LEAF_TERMINAL"
  shows "op_completion_proof_ref s = [] \<longleftrightarrow> op_completion_proof_status s = []"
    and "op_repair_rounds s > 0 \<Longrightarrow> op_repair_context_ref s \<noteq> []"
    and "op_repair_context_ref s \<noteq> [] \<Longrightarrow> op_completion_proof_ref s \<noteq> []"
    and "op_repair_context_ref s \<noteq> [] \<Longrightarrow> op_repair_rounds s = 0 \<Longrightarrow> op_completion_proof_status s = ''failed''"
proof -
  consider "no_proof s" | "failed_proof s" | "op_leaf s = LEAF_COMPLETION_PROOF_RECORDED" "proof_facts s"
    using writer_no_proof [OF assms(1)] repair_failed_proof(1) [OF assms(1)] operation_wfD(7) [OF assms(1)] assms(2)
    by blast
  then have "(op_completion_proof_ref s = [] \<longleftrightarrow> op_completion_proof_status s = [])
      \<and> (op_repair_rounds s > 0 \<longrightarrow> op_repair_context_ref s \<noteq> [])
      \<and> (op_repair_context_ref s \<noteq> [] \<longrightarrow> op_completion_proof_ref s \<noteq> [])
      \<and> (op_repair_context_ref s \<noteq> [] \<longrightarrow> op_repair_rounds s = 0 \<longrightarrow> op_completion_proof_status s = ''failed'')"
  proof cases
    case 3
    then show ?thesis
      by (simp add: proof_facts_def writer_side_def is_writer_pending_leaf_def is_repair_leaf_def leaf_groups) auto
  qed (auto simp: no_proof_def failed_proof_def)
  then show "op_completion_proof_ref s = [] \<longleftrightarrow> op_completion_proof_status s = []"
    and "op_repair_rounds s > 0 \<Longrightarrow> op_repair_context_ref s \<noteq> []"
    and "op_repair_context_ref s \<noteq> [] \<Longrightarrow> op_completion_proof_ref s \<noteq> []"
    and "op_repair_context_ref s \<noteq> [] \<Longrightarrow> op_repair_rounds s = 0 \<Longrightarrow> op_completion_proof_status s = ''failed''"
    by blast+
qed

text \<open>
  The caller of \<open>mark_terminal\<close> names a proof together with its status, and does not
  change the status of a proof that is already recorded.
\<close>

definition terminal_proof_fits :: "operation_state \<Rightarrow> string \<Rightarrow> string \<Rightarrow> bool" where
  "terminal_proof_fits s proof_ref proof_status =
     ((proof_ref = [] \<longrightarrow> proof_status = [])
      \<and> (op_completion_proof_ref s \<noteq> [] \<longrightarrow> proof_status = [] \<or> proof_status = op_completion_proof_status s))"

definition enter_terminal ::
  "string \<Rightarrow> operation_terminal \<Rightarrow> string \<Rightarrow> string \<Rightarrow> string \<Rightarrow> string \<Rightarrow> operation_state \<Rightarrow> operation_state" where
  "enter_terminal now t delivery r st b s =
     (clear_for LEAF_TERMINAL s)\<lparr>op_terminal := Some t, op_final_delivery := delivery,
       op_completion_proof_ref := (if r \<noteq> [] then r else op_completion_proof_ref s),
       op_completion_proof_status := (if st \<noteq> [] then st else op_completion_proof_status s),
       op_blocked_reason := b, op_leaf := LEAF_TERMINAL, op_updated_at := now\<rparr>"

lemma enter_terminal_wf:
  assumes wf: "operation_wf s" and now: "text_ok 40 False now" and leaf: "op_leaf s \<noteq> LEAF_TERMINAL"
    and t: "terminal_ok t" "tm_max_turns t = op_turn_budget s" "tm_turns t \<le> op_turn_budget s" "tm_blocked_reason t = b"
    and delivery: "delivery \<in> set [''not_required'', ''success'', ''failed'', ''unknown'']"
    and r: "r \<noteq> [] \<longrightarrow> proof_ref_fullmatch r \<and> st \<in> set RECORDED_PROOF_STATUSES"
      "r \<noteq> [] \<and> op_completion_proof_ref s \<noteq> [] \<longrightarrow> op_completion_proof_ref s = r"
    and fits: "terminal_proof_fits s r st"
    and b: "b \<noteq> [] \<longrightarrow> blocked_verdict_supported s" "text_ok MAX_TEXT_CHARS True b"
  shows "operation_wf (enter_terminal now t delivery r st b s)"
proof -
  let ?r = "if r \<noteq> [] then r else op_completion_proof_ref s"
  let ?st = "if st \<noteq> [] then st else op_completion_proof_status s"
  note facts = open_proof_facts [OF wf leaf]
  have old: "text_ok MAX_REF_CHARS True (op_completion_proof_ref s)"
      "op_completion_proof_ref s = [] \<or> proof_ref_match (op_completion_proof_ref s)"
      "text_ok MAX_TEXT_CHARS True (op_completion_proof_status s)"
      "op_completion_proof_status s = [] \<or> op_completion_proof_status s \<in> set RECORDED_PROOF_STATUSES"
    using operation_wfD(1,3) [OF wf] by (simp_all add: op_texts_ok_def op_refs_ok_def)
  have kept: "op_completion_proof_ref s \<noteq> [] \<Longrightarrow> ?r = op_completion_proof_ref s \<and> ?st = op_completion_proof_status s"
    using r(2) fits by (auto simp: terminal_proof_fits_def)
  have new: "text_ok MAX_REF_CHARS True ?r" "?r = [] \<or> proof_ref_match ?r" "text_ok MAX_TEXT_CHARS True ?st"
      "?st = [] \<or> ?st \<in> set RECORDED_PROOF_STATUSES" "?r = [] \<longleftrightarrow> ?st = []"
    using old proof_ref_text [of r] recorded_status_text [of st] r facts(1) fits
    by (auto simp: terminal_proof_fits_def)
  have verdict: "b = [] \<or> ?r \<noteq> [] \<and> ?st \<in> set BLOCKABLE_PROOF_STATUSES"
    using b(1) blockable_status [of s] kept by auto
  have repair: "op_repair_context_ref s \<noteq> [] \<Longrightarrow> ?r \<noteq> []"
      "op_repair_context_ref s \<noteq> [] \<Longrightarrow> op_repair_rounds s = 0 \<Longrightarrow> ?st = ''failed''"
    using facts(3,4) kept by auto
  show ?thesis
    unfolding enter_terminal_def
    using operation_wfD(1-3,5) [OF wf] now t delivery b(2) new verdict repair facts(2)
    by (intro operation_wfI) (simp_all add: frame_simps target_simps split del: if_split)
qed

end
