(* ===== verification/Operation_Reach.thy ===== *)
theory Operation_Reach
  imports Operation_Machine
begin

text \<open>
  The operation as a transition system: admission, one step per \<open>mark_...\<close> function
  under the callers' preconditions, and what holds of every operation it reaches.
\<close>

section \<open>Ending and starting\<close>

lemma mark_terminal_cases:
  assumes "mark_terminal now s stop chars turns most p b f r st = Inr s'"
  obtains (same) "op_leaf s = LEAF_TERMINAL" "s' = s"
  | (enter) t delivery verdict where
      "op_leaf s \<noteq> LEAF_TERMINAL" "LEAF_TERMINAL \<in> set (ALLOWED_TRANSITIONS (op_leaf s))"
      "s' = enter_terminal now t delivery r st verdict s"
      "t = \<lparr>tm_stop_reason = stop, tm_summary_chars = chars, tm_turns = turns, tm_max_turns = op_turn_budget s,
         tm_provider = p, tm_blocked_reason = verdict, tm_finished_at = now\<rparr>"
      "text_ok MAX_TEXT_CHARS True stop" "0 \<le> chars" "0 \<le> turns" "turns \<le> op_turn_budget s"
      "0 \<le> op_turn_budget s" "text_ok MAX_TEXT_CHARS True p"
      "delivery = op_final_delivery s \<or> parse_final_delivery (PStr delivery) = Inr delivery"
      "r \<noteq> [] \<longrightarrow> proof_ref_fullmatch r \<and> st \<in> set RECORDED_PROOF_STATUSES"
      "r \<noteq> [] \<and> op_completion_proof_ref s \<noteq> [] \<longrightarrow> op_completion_proof_ref s = r"
      "verdict \<noteq> [] \<longrightarrow> blocked_verdict_supported s" "text_ok MAX_TEXT_CHARS True verdict"
proof -
  let ?verdict = "case b of None \<Rightarrow> op_blocked_reason s | Some t \<Rightarrow> t"
  let ?t = "\<lparr>tm_stop_reason = stop, tm_summary_chars = chars, tm_turns = turns, tm_max_turns = most,
         tm_provider = p, tm_blocked_reason = ?verdict, tm_finished_at = now\<rparr>"
  from assms obtain delivery where
      d: "(case f of None \<Rightarrow> Inr (op_final_delivery s) | Some t \<Rightarrow> parse_final_delivery (PStr t)) = Inr delivery"
    and facts: "\<not> (r \<noteq> [] \<and> (\<not> proof_ref_fullmatch r \<or> st \<notin> set RECORDED_PROOF_STATUSES))"
      "\<not> (r \<noteq> [] \<and> op_completion_proof_ref s \<noteq> [] \<and> op_completion_proof_ref s \<noteq> r)"
      "\<not> (?verdict \<noteq> [] \<and> \<not> blocked_verdict_supported s)" "text_ok MAX_TEXT_CHARS True ?verdict"
      "text_ok MAX_TEXT_CHARS True stop" "0 \<le> chars" "0 \<le> turns \<and> turns \<le> op_turn_budget s" "0 \<le> most"
      "text_ok MAX_TEXT_CHARS True p" "\<not> most \<noteq> op_turn_budget s"
    and last: "(if op_leaf s = LEAF_TERMINAL
      then (if map_option terminal_identity (op_terminal s) = Some (terminal_identity ?t)
               \<and> op_final_delivery s = delivery
            then Inr s else Inl (TransitionError ''terminal state is immutable''))
      else transition now LEAF_TERMINAL (\<lambda>x. x\<lparr>op_terminal := Some ?t, op_final_delivery := delivery,
            op_completion_proof_ref := (if r \<noteq> [] then r else op_completion_proof_ref s),
            op_completion_proof_status := (if st \<noteq> [] then st else op_completion_proof_status s),
            op_blocked_reason := ?verdict\<rparr>) s) = Inr s'"
    unfolding mark_terminal_def
    by (simp only: bind_r_eq_Inr if_Inl_Inr text_field_Inr count_field_Inr pyval.inject count_ok_simps
        Let_def operation_terminal.simps) blast
  have "delivery = op_final_delivery s \<or> parse_final_delivery (PStr delivery) = Inr delivery"
    using d by (cases f) (auto simp: parse_final_delivery_Inr)
  then show thesis
  proof (cases "op_leaf s = LEAF_TERMINAL")
    case True
    with last same show ?thesis by (simp split: if_splits)
  next
    case False
    with last have "LEAF_TERMINAL \<in> set (ALLOWED_TRANSITIONS (op_leaf s))"
      "s' = enter_terminal now ?t delivery r st ?verdict s"
      by (simp_all add: transition_Inr enter_terminal_def)
    with False facts \<open>delivery = op_final_delivery s \<or> _\<close> show ?thesis by (intro enter) auto
  qed
qed

lemma mark_terminal_wf:
  assumes wf: "operation_wf s" and now: "text_ok 40 False now" and fits: "terminal_proof_fits s r st"
    and step: "mark_terminal now s stop chars turns most p b f r st = Inr s'"
  shows "operation_wf s'"
  using step
proof (cases rule: mark_terminal_cases)
  case same then show ?thesis using wf by simp
next
  case (enter t delivery verdict)
  have delivery: "delivery \<in> set [''not_required'', ''success'', ''failed'', ''unknown'']"
    using enter(11) operation_wfD(5) [OF wf] by (auto simp: parse_final_delivery_Inr op_data_ok_def)
  show ?thesis
    unfolding enter(3)
    by (rule enter_terminal_wf [OF wf now enter(1) _ _ _ _ delivery enter(12,13) fits enter(14,15)])
       (use enter(4-10,15) now in \<open>simp_all add: terminal_ok_def\<close>)
qed

text \<open>A new operation; the digest is hexadecimal text of 64 characters.\<close>

definition hex_digest :: "(string \<Rightarrow> string) \<Rightarrow> bool" where
  "hex_digest sha256 = (\<forall>x. length (sha256 x) = 64 \<and> list_all lower_hex (sha256 x))"

lemma hex_digestD:
  "hex_digest sha256 \<Longrightarrow> length (sha256 x) = 64" "hex_digest sha256 \<Longrightarrow> list_all lower_hex (sha256 x)"
  "hex_digest sha256 \<Longrightarrow> list_all lower_hex (take 24 (sha256 x))"
  unfolding hex_digest_def list_all_iff by (blast dest: in_set_takeD)+

lemma digest_text:
  assumes "hex_digest sha256" "prefix \<noteq> []" "\<not> is_space (hd prefix)" "length prefix + 24 \<le> n"
  shows "text_ok n e (prefix @ take 24 (sha256 x))"
proof (rule hex_text_ok [OF assms(2,3)])
  note len = hex_digestD(1) [OF assms(1), of x]
  show "take 24 (sha256 x) \<noteq> []" using len by auto
  show "list_all lower_hex (take 24 (sha256 x))" by (rule hex_digestD(3) [OF assms(1)])
  show "length prefix + length (take 24 (sha256 x)) \<le> n" using len assms(4) by simp
qed

lemma project_ref_wf:
  assumes "hex_digest sha256" "project_ref_of sha256 resolve v = Inr r"
  shows "text_ok MAX_PROJECT_REF_CHARS True r" "valid_project_ref r"
proof -
  from assms(2) consider "r = []" | x where "r = ''project:'' @ take 24 (sha256 x)"
    by (auto simp: project_ref_of_def bind_r_eq_Inr Let_def project_key_def split: if_splits)
  then have "text_ok MAX_PROJECT_REF_CHARS True r \<and> valid_project_ref r"
  proof cases
    case (2 x)
    have "text_ok MAX_PROJECT_REF_CHARS True r"
      unfolding 2 by (rule digest_text [OF assms(1)]) (simp_all add: is_space_def Let_def char_limits)
    moreover have "ref_fullmatch ''project:'' 24 r"
      unfolding 2 using hex_digestD [OF assms(1), of x] by (simp add: ref_fullmatch_def)
    then have "valid_project_ref r" by (simp add: valid_project_ref_def project_ref_match_def ref_match_def)
    ultimately show ?thesis by blast
  qed (simp add: valid_project_ref_def)
  then show "text_ok MAX_PROJECT_REF_CHARS True r" "valid_project_ref r" by simp_all
qed

lemma new_operation_state_Inr:
  assumes "new_operation_state sha256 resolve now sid rid project p budget rounds kind policy sel = Inr s"
  obtains r pol m where
    "text_ok MAX_ID_CHARS False sid" "text_ok MAX_ID_CHARS False rid"
    "project_ref_of sha256 resolve project = Inr r" "text_ok MAX_TEXT_CHARS False p" "0 \<le> budget" "0 \<le> rounds"
    "text_ok MAX_TEXT_CHARS False kind" "parse_task_policy policy = Inr pol" "parse_model_selection sel = Inr m"
    "s = \<lparr>op_session_id = sid, op_run_id = rid, op_operation_id = operation_id_for_run sha256 rid,
          op_lane = lane_for_run sha256 rid, op_project_ref = r, op_provider_id = p,
          op_turn_budget = budget, op_max_repair_rounds = rounds, op_leaf = LEAF_ACCEPTED,
          op_started_at = now, op_updated_at = now, op_task_kind = kind, op_task_policy = pol,
          op_model_selection = m, op_reviewer_selection = [],
          op_final_delivery = ''not_required'', op_writer_attempt = 1,
          op_candidate_validation_attempted = False, op_turns_used = 0, op_stop_reason = [],
          op_completion_proof_ref = [], op_completion_proof_status = [], op_repair_rounds = 0,
          op_repair_context_ref = [], op_blocked_reason = [], op_driver = [], op_turn = 0,
          op_tool_index = 0, op_response_ref = [], op_request_ref = [], op_work_ref = [],
          op_continuation_ref = [], op_logical_turn = 0, op_counters = new_counters, op_terminal = None\<rparr>"
  using assms
  by (simp only: new_operation_state_def canonical_id_def bind_r_eq_Inr text_field_Inr count_field_Inr
      count_ok_simps pyval.inject sum.inject) blast

lemma new_operation_state_wf:
  assumes hex: "hex_digest sha256" and now: "text_ok 40 False now"
    and new: "new_operation_state sha256 resolve now sid rid project p budget rounds kind policy sel = Inr s"
  shows "operation_wf s"
  using new
proof (cases rule: new_operation_state_Inr)
  case (1 r pol m)
  have ids: "text_ok MAX_ID_CHARS False (operation_id_for_run sha256 rid)" "text_ok MAX_ID_CHARS False (lane_for_run sha256 rid)"
    unfolding operation_id_for_run_def lane_for_run_def session_key_def take_take min.idem
    by (rule digest_text [OF hex]; simp add: is_space_def Let_def char_limits)+
  have "dumps_ok (PDict pol)" using 1(8) by (auto simp: parse_task_policy_Inr)
  then show ?thesis
    using 1(1-7) ids project_ref_wf [OF hex 1(3)] now new_counters_ok
    unfolding 1(10)
    by (intro operation_wfI) (simp_all add: frame_simps target_simps no_proof_def)
qed

section \<open>The transition system\<close>

text \<open>One constructor per \<open>mark_...\<close> function, with its arguments.\<close>

datatype operation_call =
    WriterRunning string "int option"
  | CandidateValidation string int
  | WriterSettled string int string
  | RequestReady string string int
  | EffectPending string string int
  | EffectSettled "int option"
  | ResponseReady string
  | Advance leaf "int option" "string option" "execution_counters option"
  | ToolEffectPending string int int
  | ToolEffectSettled bool
  | ToolDeliveryPending string int
  | ToolDeliverySettled
  | ProofRecorded string string
  | RepairContext string
  | RepairRunning string
  | RepairSettled string string string "int option"
  | CompletionBlocked string
  | Terminal string int int int string "string option" "string option" string string

fun apply_call :: "string \<Rightarrow> operation_call \<Rightarrow> operation_state \<Rightarrow> operation_state result" where
  "apply_call now (WriterRunning p a) s = mark_writer_running now s p a"
| "apply_call now (CandidateValidation p a) s = mark_candidate_validation_running now s p a"
| "apply_call now (WriterSettled p t r) s = mark_writer_settled now s p t r"
| "apply_call now (RequestReady r d k) s = mark_provider_request_ready now s r d k"
| "apply_call now (EffectPending d p k) s = mark_provider_effect_pending now s d p k"
| "apply_call now (EffectSettled t) s = mark_provider_effect_settled now s t"
| "apply_call now (ResponseReady r) s = mark_provider_response_ready now s r"
| "apply_call now (Advance l n w c) s = advance_execution now s l n w c"
| "apply_call now (ToolEffectPending d k i) s = mark_tool_effect_pending now s d k i"
| "apply_call now (ToolEffectSettled m) s = mark_tool_effect_settled now s m"
| "apply_call now (ToolDeliveryPending d k) s = mark_tool_delivery_pending now s d k"
| "apply_call now ToolDeliverySettled s = mark_tool_delivery_settled now s"
| "apply_call now (ProofRecorded r st) s = mark_completion_proof_recorded now s r st"
| "apply_call now (RepairContext r) s = mark_repair_context_admitted now s r"
| "apply_call now (RepairRunning p) s = mark_repair_running now s p"
| "apply_call now (RepairSettled p st b u) s = mark_repair_settled now s p st b u"
| "apply_call now (CompletionBlocked b) s = mark_completion_blocked now s b"
| "apply_call now (Terminal st c t m p b f r ps) s = mark_terminal now s st c t m p b f r ps"

text \<open>
  What the callers establish before the call: the functions themselves do not check it. The
  writer names no lower attempt, a settled or repairing writer is the one that runs, drivers
  match the leaf, an advance leads to a pending leaf whose references are set, or from a settled
  kernel back to its driver, and a final proof status comes with its proof.
\<close>

fun call_fits :: "operation_call \<Rightarrow> operation_state \<Rightarrow> bool" where
  "call_fits (WriterRunning p a) s = attempt_fits s a"
| "call_fits (WriterSettled p t r) s = (\<not> in_repair s)"
| "call_fits (RequestReady r d k) s = driver_fits s d"
| "call_fits (EffectPending d p k) s = driver_fits s d"
| "call_fits (ResponseReady r) s = (op_leaf s = LEAF_PROVIDER_EFFECT_PENDING)"
| "call_fits (Advance l n w c) s = advance_fits s l n w c"
| "call_fits (ToolEffectPending d k i) s = driver_fits s d"
| "call_fits (ToolDeliveryPending d k) s = driver_fits s d"
| "call_fits (RepairRunning p) s = in_repair s"
| "call_fits (RepairSettled p st b u) s = in_repair s"
| "call_fits (Terminal st c t m p b f r ps) s = terminal_proof_fits s r ps"
| "call_fits _ s = True"

lemma apply_call_wf:
  assumes "operation_wf s" "text_ok 40 False now" "call_fits c s" "apply_call now c s = Inr s'"
  shows "operation_wf s'"
proof (cases c)
  case (WriterRunning p a)
  then show ?thesis using assms mark_writer_running_wf by simp
next
  case (CandidateValidation p a)
  then show ?thesis using assms mark_candidate_validation_running_wf by simp
next
  case (WriterSettled p t r)
  then show ?thesis using assms mark_writer_settled_wf by simp
next
  case (RequestReady r d k)
  then show ?thesis using assms mark_provider_request_ready_wf by simp
next
  case (EffectPending d p k)
  then show ?thesis using assms mark_provider_effect_pending_wf by simp
next
  case (EffectSettled t)
  then show ?thesis using assms mark_provider_effect_settled_wf by simp
next
  case (ResponseReady r)
  then show ?thesis using assms mark_provider_response_ready_wf by simp
next
  case (Advance l n w x)
  then show ?thesis using assms advance_execution_wf by simp
next
  case (ToolEffectPending d k i)
  then show ?thesis using assms mark_tool_effect_pending_wf by simp
next
  case (ToolEffectSettled m)
  then show ?thesis using assms mark_tool_effect_settled_wf by simp
next
  case (ToolDeliveryPending d k)
  then show ?thesis using assms mark_tool_delivery_pending_wf by simp
next
  case ToolDeliverySettled
  then show ?thesis using assms mark_tool_delivery_settled_wf by simp
next
  case (ProofRecorded r st)
  then show ?thesis using assms mark_completion_proof_recorded_wf by simp
next
  case (RepairContext r)
  then show ?thesis using assms mark_repair_context_admitted_wf by simp
next
  case (RepairRunning p)
  then show ?thesis using assms mark_repair_running_wf by simp
next
  case (RepairSettled p st b u)
  then show ?thesis using assms mark_repair_settled_wf by simp
next
  case (CompletionBlocked b)
  then show ?thesis using assms mark_completion_blocked_wf by simp
next
  case (Terminal st n t m p b f r ps)
  then show ?thesis using assms mark_terminal_wf by simp
qed

section \<open>What no step changes, and where it may lead\<close>

definition op_identity ::
  "operation_state \<Rightarrow> (string \<times> string \<times> string \<times> string \<times> string) \<times> (int \<times> int) \<times> (string \<times> string)
    \<times> (jobj \<times> jobj \<times> jobj \<times> string)" where
  "op_identity s =
     ((op_session_id s, op_run_id s, op_operation_id s, op_lane s, op_project_ref s),
      (op_turn_budget s, op_max_repair_rounds s), (op_started_at s, op_task_kind s),
      (op_task_policy s, op_model_selection s, op_reviewer_selection s, op_continuation_ref s))"

definition step_frame :: "operation_state \<Rightarrow> operation_state \<Rightarrow> bool" where
  "step_frame s s' =
     (op_identity s' = op_identity s
      \<and> (op_leaf s' = op_leaf s \<or> op_leaf s' \<in> set (ALLOWED_TRANSITIONS (op_leaf s))))"

named_theorems step_intros

lemma step_frame_same [step_intros]: "step_frame s s"
  by (simp add: step_frame_def)

lemma step_frame_update:
  "op_identity s' = op_identity s \<Longrightarrow> op_leaf s' = op_leaf s \<Longrightarrow> step_frame s s'"
  by (simp add: step_frame_def)

lemma transition_frame:
  assumes "transition now l u s = Inr s'" and "\<And>x. op_identity (u x) = op_identity x"
  shows "step_frame s s'"
proof -
  from assms(1) have l: "l \<in> set (ALLOWED_TRANSITIONS (op_leaf s))"
      and s': "s' = (u (clear_for l s))\<lparr>op_leaf := l, op_updated_at := now\<rparr>" by (simp_all add: transition_Inr)
  have "op_identity s' = op_identity (u (clear_for l s))" unfolding s' by (simp add: op_identity_def)
  also have "\<dots> = op_identity s" by (simp add: assms(2)) (simp add: op_identity_def)
  finally show ?thesis using l s' by (simp add: step_frame_def)
qed

lemmas call_Inr = bind_r_eq_Inr if_Inl_Inr text_field_Inr count_field_Inr pyval.inject Let_def

lemma simple_marks_frame:
  "mark_candidate_validation_running now s p a = Inr s' \<Longrightarrow> step_frame s s'"
  "mark_writer_settled now s p t r = Inr s' \<Longrightarrow> step_frame s s'"
  "mark_provider_request_ready now s r d k = Inr s' \<Longrightarrow> step_frame s s'"
  "mark_provider_effect_pending now s d p k = Inr s' \<Longrightarrow> step_frame s s'"
  "mark_provider_response_ready now s r = Inr s' \<Longrightarrow> step_frame s s'"
  "mark_tool_effect_pending now s d k i = Inr s' \<Longrightarrow> step_frame s s'"
  "mark_tool_delivery_pending now s d k = Inr s' \<Longrightarrow> step_frame s s'"
  "mark_completion_proof_recorded now s r st = Inr s' \<Longrightarrow> step_frame s s'"
  "mark_repair_context_admitted now s r = Inr s' \<Longrightarrow> step_frame s s'"
  "mark_repair_running now s p = Inr s' \<Longrightarrow> step_frame s s'"
  "mark_repair_settled now s p st b u = Inr s' \<Longrightarrow> step_frame s s'"
  "start_research_successor now s p n = Inr s' \<Longrightarrow> step_frame s s'"
  by (simp only: mark_candidate_validation_running_def mark_writer_settled_def mark_provider_request_ready_def
      mark_provider_effect_pending_def mark_provider_response_ready_def mark_tool_effect_pending_def
      mark_tool_delivery_pending_def mark_completion_proof_recorded_def mark_repair_context_admitted_def
      mark_repair_running_def mark_repair_settled_def start_research_successor_def call_Inr,
      elim exE conjE, erule transition_frame, simp add: op_identity_def)+

lemma writer_marks_frame:
  "restart_settled_writer now s p n = Inr s' \<Longrightarrow> step_frame s s'"
  "rebind_writer now s p n = Inr s' \<Longrightarrow> step_frame s s'"
  "mark_tool_delivery_settled now s = Inr s' \<Longrightarrow> step_frame s s'"
  "mark_tool_effect_settled now s m = Inr s' \<Longrightarrow> step_frame s s'"
  "mark_completion_blocked now s b = Inr s' \<Longrightarrow> step_frame s s'"
proof -
  show "restart_settled_writer now s p n = Inr s' \<Longrightarrow> step_frame s s'"
    unfolding restart_settled_writer_def
    by (auto simp: if_Inl_Inr op_identity_def split: if_splits elim!: transition_frame)
  show "rebind_writer now s p n = Inr s' \<Longrightarrow> step_frame s s'"
    by (auto simp: rebind_writer_def op_identity_def intro: step_intros step_frame_update split: if_splits)
  show "mark_tool_delivery_settled now s = Inr s' \<Longrightarrow> step_frame s s'"
    unfolding mark_tool_delivery_settled_def
    by (auto simp: if_Inl_Inr op_identity_def split: if_splits elim!: transition_frame)
  show "mark_tool_effect_settled now s m = Inr s' \<Longrightarrow> step_frame s s'"
    unfolding mark_tool_effect_settled_def
    by (auto simp: if_Inl_Inr op_identity_def split: if_splits elim!: transition_frame intro: simple_marks_frame(7))
  show "mark_completion_blocked now s b = Inr s' \<Longrightarrow> step_frame s s'"
    by (auto simp: mark_completion_blocked_def call_Inr op_identity_def intro: step_intros step_frame_update
        split: if_splits)
qed

lemma mark_writer_running_frame:
  assumes "mark_writer_running now s p a = Inr s'"
  shows "step_frame s s'"
proof -
  from assms obtain n where
    "(if op_task_kind s = ''research'' \<and> op_writer_attempt s > 0 \<and> a \<noteq> None \<and> n \<noteq> op_writer_attempt s
     then start_research_successor now s p n
     else if op_leaf s \<in> set PENDING_LEAVES \<and> op_leaf s \<noteq> LEAF_TOOL_DELIVERY_PENDING
     then if op_driver s \<noteq> DRIVER_WRITER \<or> op_provider_id s \<noteq> p \<or> op_writer_attempt s \<noteq> n
          then Inl (TransitionError ''pending writer identity cannot be rebound'') else Inr s
     else if op_leaf s = LEAF_WRITER_SETTLED then restart_settled_writer now s p n
     else if op_leaf s \<in> set [LEAF_WRITER_RUNNING, LEAF_TOOL_DELIVERY_PENDING] then rebind_writer now s p n
     else transition now LEAF_WRITER_RUNNING (\<lambda>x. x\<lparr>op_provider_id := p, op_writer_attempt := n\<rparr>) s) = Inr s'"
    by (simp only: mark_writer_running_def bind_r_eq_Inr text_field_Inr pyval.inject) blast
  moreover have "step_frame s s'"
    if "transition now LEAF_WRITER_RUNNING (\<lambda>x. x\<lparr>op_provider_id := p, op_writer_attempt := n\<rparr>) s = Inr s'"
    using that by (rule transition_frame) (simp add: op_identity_def)
  ultimately show ?thesis
    using simple_marks_frame(12) writer_marks_frame(1,2) step_frame_same
    by (auto split: if_splits)
qed

lemma mark_provider_effect_settled_frame:
  assumes "mark_provider_effect_settled now s t = Inr s'"
  shows "step_frame s s'"
proof -
  have move: "step_frame s s'" if "transition now l (\<lambda>x. x) s = Inr s'" for l
    using that by (rule transition_frame) simp
  have deliver: "step_frame s s'" if "bind_r (mark_tool_delivery_pending now s d k) (\<lambda>x. Inr (x\<lparr>op_logical_turn := k\<rparr>)) = Inr s'"
    for d k
    using that simple_marks_frame(7) [of now s d k] by (auto simp: bind_r_eq_Inr step_frame_def op_identity_def)
  have clear: "step_frame s (s\<lparr>op_response_ref := [], op_updated_at := now\<rparr>)"
    by (rule step_frame_update) (simp_all add: op_identity_def)
  from assms [unfolded mark_provider_effect_settled_def] show ?thesis
    using move deliver clear step_frame_same
    by (simp only: if_Inl_Inr sum.inject simp_thms split: if_splits) blast+
qed

lemma mark_terminal_frame: "mark_terminal now s st c t m p b f r ps = Inr s' \<Longrightarrow> step_frame s s'"
  by (erule mark_terminal_cases)
     (simp_all add: step_frame_same step_frame_def enter_terminal_def op_identity_def)

lemma advance_execution_frame:
  assumes "advance_execution now s l n w c = Inr s'"
  shows "step_frame s s'"
proof -
  from assms obtain f g h where parts:
      "(case n of None \<Rightarrow> Inr (\<lambda>x. x) | Some n \<Rightarrow> bind_r (count_field 0 None ''logical_turn'' (PInt n))
          (\<lambda>n'. Inr (\<lambda>x. x\<lparr>op_logical_turn := n'\<rparr>))) = Inr f"
      "(case w of None \<Rightarrow> Inr (\<lambda>x. x) | Some t \<Rightarrow> bind_r (known_text80 True ''work_ref'' t)
          (\<lambda>t'. Inr (\<lambda>x. x\<lparr>op_work_ref := t'\<rparr>))) = Inr g"
      "(case c of None \<Rightarrow> Inr (\<lambda>x. x) | Some c \<Rightarrow> bind_r (counters_to_payload c) (\<lambda>d.
          bind_r (counters_from_payload (PDict d)) (\<lambda>c'. Inr (\<lambda>x. x\<lparr>op_counters := c'\<rparr>)))) = Inr h"
    and run: "transition now l (\<lambda>x. let y = h (g (f x)) in if l \<in> set PENDING_LEAVES
        then y\<lparr>op_driver := (if op_driver s \<noteq> [] then op_driver s
                           else if is_repair_leaf (op_leaf s) (op_driver s) then DRIVER_REPAIR
                           else DRIVER_WRITER), op_turn := op_turn s, op_tool_index := 0\<rparr>
        else y) s = Inr s'"
    by (simp only: advance_execution_def bind_r_eq_Inr) blast
  note f = update_parts(1) [OF parts(1)] and g = update_parts(2) [OF parts(2)]
  obtain c' where h: "h = (\<lambda>x. x\<lparr>op_counters := (if c = None then op_counters x else c')\<rparr>)"
    using update_parts(3) [OF parts(3)] by blast
  from run show ?thesis
  proof (rule transition_frame)
    fix x
    show "op_identity (let y = h (g (f x)) in if l \<in> set PENDING_LEAVES
        then y\<lparr>op_driver := (if op_driver s \<noteq> [] then op_driver s
                           else if is_repair_leaf (op_leaf s) (op_driver s) then DRIVER_REPAIR
                           else DRIVER_WRITER), op_turn := op_turn s, op_tool_index := 0\<rparr>
        else y) = op_identity x"
      unfolding h f [THEN conjunct1] g [THEN conjunct1] Let_def by (simp add: op_identity_def)
  qed
qed

lemma apply_call_frame: "apply_call now c s = Inr s' \<Longrightarrow> step_frame s s'"
  by (cases c)
     (simp_all add: simple_marks_frame writer_marks_frame mark_writer_running_frame
       mark_provider_effect_settled_frame mark_terminal_frame advance_execution_frame)

end
