(* ===== verification/Operation_Guarantees.thy ===== *)
theory Operation_Guarantees
  imports Operation_Reach
begin

text \<open>
  What the operation state machine guarantees along its runs: reached operations can be
  stored and recovered, finished ones do not change, budgets bound the repair rounds, and
  every operation can still be finished.
\<close>

section \<open>Runs\<close>

fun run_calls :: "(string \<times> operation_call) list \<Rightarrow> operation_state \<Rightarrow> operation_state result" where
  "run_calls [] s = Inr s"
| "run_calls ((now, c) # cs) s = bind_r (apply_call now c s) (run_calls cs)"

fun calls_fit :: "(string \<times> operation_call) list \<Rightarrow> operation_state \<Rightarrow> bool" where
  "calls_fit [] s = True"
| "calls_fit ((now, c) # cs) s =
     (text_ok 40 False now \<and> call_fits c s \<and>
      (case apply_call now c s of Inl _ \<Rightarrow> True | Inr s' \<Rightarrow> calls_fit cs s'))"

inductive operation_reachable :: "(string \<Rightarrow> string) \<Rightarrow> (string \<Rightarrow> string) \<Rightarrow> operation_state \<Rightarrow> bool"
  for sha256 resolve where
  admitted: "operation_reachable sha256 resolve s"
    if "text_ok 40 False now"
      "new_operation_state sha256 resolve now sid rid project p budget rounds kind policy sel = Inr s"
| called: "operation_reachable sha256 resolve s'"
    if "operation_reachable sha256 resolve s" "text_ok 40 False now" "call_fits c s" "apply_call now c s = Inr s'"

lemma run_calls_reachable:
  "operation_reachable sha256 resolve s \<Longrightarrow> calls_fit cs s \<Longrightarrow> run_calls cs s = Inr s' \<Longrightarrow>
   operation_reachable sha256 resolve s'"
proof (induction cs s rule: run_calls.induct)
  case (2 now c cs s)
  from "2.prems"(3) obtain t where t: "apply_call now c s = Inr t" "run_calls cs t = Inr s'"
    by (auto simp: bind_r_eq_Inr)
  with "2.prems" have "operation_reachable sha256 resolve t" "calls_fit cs t"
    by (auto intro: operation_reachable.called)
  with "2.IH" t show ?case by blast
qed simp

lemma reachable_wf: "operation_reachable sha256 resolve s \<Longrightarrow> hex_digest sha256 \<Longrightarrow> operation_wf s"
  by (induction rule: operation_reachable.induct) (auto intro: new_operation_state_wf apply_call_wf)

lemma run_calls_induct [consumes 2, case_names Nil Cons]:
  assumes "calls_fit cs s" "run_calls cs s = Inr s'"
    and "\<And>s. P [] s s"
    and "\<And>now c cs s t s'. text_ok 40 False now \<Longrightarrow> call_fits c s \<Longrightarrow> apply_call now c s = Inr t \<Longrightarrow>
      calls_fit cs t \<Longrightarrow> run_calls cs t = Inr s' \<Longrightarrow> P cs t s' \<Longrightarrow> P ((now, c) # cs) s s'"
  shows "P cs s s'"
  using assms(1,2)
proof (induction cs s rule: run_calls.induct)
  case (1 s)
  then show ?case using assms(3) by simp
next
  case (2 now c cs s)
  from "2.prems"(2) obtain t where t: "apply_call now c s = Inr t" "run_calls cs t = Inr s'"
    by (auto simp: bind_r_eq_Inr)
  with "2.prems" "2.IH" show ?case by (intro assms(4) [where t = t]) auto
qed

lemma run_calls_wf: "calls_fit cs s \<Longrightarrow> run_calls cs s = Inr s' \<Longrightarrow> operation_wf s \<Longrightarrow> operation_wf s'"
  by (induction rule: run_calls_induct) (auto intro: apply_call_wf)

lemma run_calls_identity: "calls_fit cs s \<Longrightarrow> run_calls cs s = Inr s' \<Longrightarrow> op_identity s' = op_identity s"
  by (induction rule: run_calls_induct) (auto dest: apply_call_frame simp: step_frame_def)

section \<open>The leaves as a lifecycle\<close>

definition leaf_step :: "leaf \<Rightarrow> leaf \<Rightarrow> bool" where
  "leaf_step a b = (b \<in> set (ALLOWED_TRANSITIONS a))"

definition leaf_final :: "leaf \<Rightarrow> bool" where
  "leaf_final a = (a = LEAF_TERMINAL)"

interpretation operation_leaf: lifecycle leaf_step leaf_final
  by unfold_locales (simp add: leaf_step_def leaf_final_def)

lemma terminal_no_transition: "l \<noteq> LEAF_TERMINAL \<Longrightarrow> op_leaf s = LEAF_TERMINAL \<Longrightarrow> transition now l u s \<noteq> Inr s'"
  by (simp add: transition_Inr)

definition is_advance :: "operation_call \<Rightarrow> bool" where
  "is_advance c = (case c of Advance _ _ _ _ \<Rightarrow> True | _ \<Rightarrow> False)"

lemma terminal_call_other:
  assumes "op_leaf s = LEAF_TERMINAL" "\<not> is_advance c" "apply_call now c s = Inr s'"
  shows "s' = s"
proof (cases c)
  case (WriterRunning p a)
  with assms(1,3) show ?thesis
    by (auto simp: mark_writer_running_def start_research_successor_def bind_r_eq_Inr transition_Inr PENDING_LEAVES_def
        split: if_splits)
next
  case (Terminal st n t m p b f r ps)
  then have "mark_terminal now s st n t m p b f r ps = Inr s'" using assms(3) by simp
  then show ?thesis by (rule mark_terminal_cases) (use assms(1) in simp_all)
qed (use assms in \<open>auto simp: is_advance_def mark_candidate_validation_running_def mark_writer_settled_def
  mark_provider_request_ready_def mark_provider_effect_pending_def mark_provider_response_ready_def
  mark_tool_effect_pending_def mark_tool_delivery_pending_def mark_completion_proof_recorded_def
  mark_repair_context_admitted_def mark_repair_running_def mark_repair_settled_def
  mark_provider_effect_settled_def mark_tool_effect_settled_def mark_tool_delivery_settled_def
  mark_completion_blocked_def leaf_groups call_Inr transition_Inr\<close>)

text \<open>
  The facts of an outcome: identity, leaf, terminal record, delivery, proof, verdict, and
  what was used of the budgets.
\<close>

definition outcome_facts :: "operation_state \<Rightarrow> _" where
  "outcome_facts s =
     (op_identity s, (op_leaf s, op_terminal s, op_final_delivery s, op_stop_reason s, op_provider_id s),
      (op_completion_proof_ref s, op_completion_proof_status s, op_blocked_reason s, op_repair_context_ref s),
      (op_writer_attempt s, op_repair_rounds s, op_turns_used s, op_candidate_validation_attempted s))"

lemma outcome_transition:
  assumes "transition now l u s = Inr s'" "op_leaf s = LEAF_TERMINAL"
    and "\<And>x. outcome_facts (u x) = outcome_facts x"
  shows "outcome_facts s' = outcome_facts s"
proof -
  have l: "l = op_leaf s" and s': "s' = (u (clear_for l s))\<lparr>op_leaf := l, op_updated_at := now\<rparr>"
    using assms(1,2) by (simp_all add: transition_Inr)
  have "outcome_facts (u (clear_for l s)) = outcome_facts s"
    unfolding assms(3) by (simp add: outcome_facts_def op_identity_def clear_for_def Let_def)
  then show ?thesis unfolding s' l by (simp add: outcome_facts_def op_identity_def)
qed

lemma terminal_advance:
  assumes leaf: "op_leaf s = LEAF_TERMINAL" and step: "advance_execution now s l n w c = Inr s'"
  shows "outcome_facts s' = outcome_facts s"
proof -
  from step obtain f g h where parts:
      "(case n of None \<Rightarrow> Inr (\<lambda>x. x) | Some n \<Rightarrow> bind_r (count_field 0 None ''logical_turn'' (PInt n))
          (\<lambda>n'. Inr (\<lambda>x. x\<lparr>op_logical_turn := n'\<rparr>))) = Inr f"
      "(case w of None \<Rightarrow> Inr (\<lambda>x. x) | Some t \<Rightarrow> bind_r (known_text80 True ''work_ref'' t)
          (\<lambda>t'. Inr (\<lambda>x. x\<lparr>op_work_ref := t'\<rparr>))) = Inr g"
      "(case c of None \<Rightarrow> Inr (\<lambda>x. x) | Some c \<Rightarrow> bind_r (counters_to_payload c) (\<lambda>d.
          bind_r (counters_from_payload (PDict d)) (\<lambda>c'. Inr (\<lambda>x. x\<lparr>op_counters := c'\<rparr>)))) = Inr h"
    and run: "transition now l (\<lambda>x. let y = h (g (f x)) in if l \<in> set PENDING_LEAVES
        then y\<lparr>op_driver := (if op_driver s \<noteq> [] then op_driver s
                           else if is_repair_leaf (op_leaf s) (op_driver s) then DRIVER_REPAIR
                           else DRIVER_WRITER), op_turn := op_turn s, op_tool_index := 0\<rparr>
        else y) s = Inr s'"
    by (simp only: advance_execution_def bind_r_eq_Inr) blast
  obtain c' where h: "h = (\<lambda>x. x\<lparr>op_counters := (if c = None then op_counters x else c')\<rparr>)"
    using update_parts(3) [OF parts(3)] by blast
  have "outcome_facts (h (g (f x))) = outcome_facts x" for x
    unfolding h update_parts(1) [OF parts(1), THEN conjunct1] update_parts(2) [OF parts(2), THEN conjunct1]
    by (simp add: outcome_facts_def op_identity_def)
  then show ?thesis
    by (intro outcome_transition [OF run leaf]) (simp add: Let_def outcome_facts_def op_identity_def)
qed

lemma terminal_call:
  assumes "op_leaf s = LEAF_TERMINAL" "apply_call now c s = Inr s'"
  shows "outcome_facts s' = outcome_facts s"
proof (cases "is_advance c")
  case True
  then obtain l n w x where "c = Advance l n w x" by (auto simp: is_advance_def split: operation_call.splits)
  with terminal_advance [OF assms(1)] assms(2) show ?thesis by simp
next
  case False
  with terminal_call_other [OF assms(1) _ assms(2)] show ?thesis by simp
qed

section \<open>Rounds and attempts\<close>

definition is_repair_call :: "operation_call \<Rightarrow> bool" where
  "is_repair_call c = (case c of RepairRunning _ \<Rightarrow> True | _ \<Rightarrow> False)"

text \<open>A step with a call of cost \<open>n\<close> adds \<open>n\<close> rounds and never takes back an attempt.\<close>

definition counts_grow :: "int \<Rightarrow> operation_state \<Rightarrow> operation_state \<Rightarrow> bool" where
  "counts_grow n s s' = (op_repair_rounds s' = op_repair_rounds s + n \<and> op_writer_attempt s \<le> op_writer_attempt s')"

lemma transition_counts:
  assumes "transition now l u s = Inr s'"
    and "\<And>x. op_repair_rounds x = op_repair_rounds s \<Longrightarrow> op_repair_rounds (u x) = op_repair_rounds s + n"
    and "\<And>x. op_writer_attempt x = op_writer_attempt s \<Longrightarrow> op_writer_attempt s \<le> op_writer_attempt (u x)"
  shows "counts_grow n s s'"
  using assms by (simp add: transition_Inr counts_grow_def)

lemma counts_grow_same: "counts_grow 0 s s"
  by (simp add: counts_grow_def)

lemma simple_marks_counts:
  "mark_candidate_validation_running now s p a = Inr s' \<Longrightarrow> counts_grow 0 s s'"
  "mark_writer_settled now s p t r = Inr s' \<Longrightarrow> counts_grow 0 s s'"
  "mark_provider_request_ready now s r d k = Inr s' \<Longrightarrow> counts_grow 0 s s'"
  "mark_provider_effect_pending now s d p k = Inr s' \<Longrightarrow> counts_grow 0 s s'"
  "mark_provider_response_ready now s r = Inr s' \<Longrightarrow> counts_grow 0 s s'"
  "mark_tool_effect_pending now s d k i = Inr s' \<Longrightarrow> counts_grow 0 s s'"
  "mark_tool_delivery_pending now s d k = Inr s' \<Longrightarrow> counts_grow 0 s s'"
  "mark_completion_proof_recorded now s r st = Inr s' \<Longrightarrow> counts_grow 0 s s'"
  "mark_repair_context_admitted now s r = Inr s' \<Longrightarrow> counts_grow 0 s s'"
  "mark_repair_running now s p = Inr s' \<Longrightarrow> counts_grow 1 s s'"
  "mark_repair_settled now s p st b u = Inr s' \<Longrightarrow> counts_grow 0 s s'"
  "start_research_successor now s p k = Inr s' \<Longrightarrow> counts_grow 0 s s'"
  by (simp only: mark_candidate_validation_running_def mark_writer_settled_def mark_provider_request_ready_def
      mark_provider_effect_pending_def mark_provider_response_ready_def mark_tool_effect_pending_def
      mark_tool_delivery_pending_def mark_completion_proof_recorded_def mark_repair_context_admitted_def
      mark_repair_running_def mark_repair_settled_def start_research_successor_def call_Inr count_ok_simps,
      elim exE conjE, erule transition_counts, simp, simp)+

lemma writer_marks_counts:
  "restart_settled_writer now s p k = Inr s' \<Longrightarrow> counts_grow 0 s s'"
  "op_writer_attempt s \<le> k \<Longrightarrow> rebind_writer now s p k = Inr s' \<Longrightarrow> counts_grow 0 s s'"
  "mark_tool_delivery_settled now s = Inr s' \<Longrightarrow> counts_grow 0 s s'"
  "mark_tool_effect_settled now s m = Inr s' \<Longrightarrow> counts_grow 0 s s'"
  "mark_completion_blocked now s b = Inr s' \<Longrightarrow> counts_grow 0 s s'"
  "mark_terminal now s st c t mx p bl f r ps = Inr s' \<Longrightarrow> counts_grow 0 s s'"
proof -
  show "restart_settled_writer now s p k = Inr s' \<Longrightarrow> counts_grow 0 s s'"
    by (auto simp: restart_settled_writer_def split: if_splits elim!: transition_counts)
  show "op_writer_attempt s \<le> k \<Longrightarrow> rebind_writer now s p k = Inr s' \<Longrightarrow> counts_grow 0 s s'"
    by (auto simp: rebind_writer_def counts_grow_def split: if_splits)
  show "mark_tool_delivery_settled now s = Inr s' \<Longrightarrow> counts_grow 0 s s'"
    by (auto simp: mark_tool_delivery_settled_def split: if_splits elim!: transition_counts)
  show "mark_tool_effect_settled now s m = Inr s' \<Longrightarrow> counts_grow 0 s s'"
    by (auto simp: mark_tool_effect_settled_def split: if_splits elim!: transition_counts intro: simple_marks_counts(7))
  show "mark_completion_blocked now s b = Inr s' \<Longrightarrow> counts_grow 0 s s'"
    by (auto simp: mark_completion_blocked_def call_Inr counts_grow_def split: if_splits)
  show "mark_terminal now s st c t mx p bl f r ps = Inr s' \<Longrightarrow> counts_grow 0 s s'"
    by (erule mark_terminal_cases) (simp_all add: counts_grow_same counts_grow_def enter_terminal_def)
qed

lemma mark_writer_running_counts:
  assumes "mark_writer_running now s p a = Inr s'" and fits: "attempt_fits s a"
  shows "counts_grow 0 s s'"
proof -
  from assms obtain n where
    n: "(case a of None \<Rightarrow> Inr (op_writer_attempt s)
             | Some n \<Rightarrow> count_field 1 None ''writer_attempt'' (PInt n)) = Inr n" and step:
    "(if op_task_kind s = ''research'' \<and> op_writer_attempt s > 0 \<and> a \<noteq> None \<and> n \<noteq> op_writer_attempt s
     then start_research_successor now s p n
     else if op_leaf s \<in> set PENDING_LEAVES \<and> op_leaf s \<noteq> LEAF_TOOL_DELIVERY_PENDING
     then if op_driver s \<noteq> DRIVER_WRITER \<or> op_provider_id s \<noteq> p \<or> op_writer_attempt s \<noteq> n
          then Inl (TransitionError ''pending writer identity cannot be rebound'') else Inr s
     else if op_leaf s = LEAF_WRITER_SETTLED then restart_settled_writer now s p n
     else if op_leaf s \<in> set [LEAF_WRITER_RUNNING, LEAF_TOOL_DELIVERY_PENDING] then rebind_writer now s p n
     else transition now LEAF_WRITER_RUNNING (\<lambda>x. x\<lparr>op_provider_id := p, op_writer_attempt := n\<rparr>) s) = Inr s'"
    by (simp only: mark_writer_running_def bind_r_eq_Inr text_field_Inr pyval.inject) blast
  have le: "op_writer_attempt s \<le> n" using n fits by (auto simp: attempt_fits_def split: option.splits)
  then have "counts_grow 0 s s'"
    if "transition now LEAF_WRITER_RUNNING (\<lambda>x. x\<lparr>op_provider_id := p, op_writer_attempt := n\<rparr>) s = Inr s'"
    using that by (auto elim: transition_counts)
  then show ?thesis
    using step simple_marks_counts(12) writer_marks_counts(1) writer_marks_counts(2) [OF le] counts_grow_same
    by (auto split: if_splits)
qed

lemma mark_provider_effect_settled_counts:
  assumes "mark_provider_effect_settled now s t = Inr s'"
  shows "counts_grow 0 s s'"
proof -
  have move: "counts_grow 0 s s'" if "transition now l (\<lambda>x. x) s = Inr s'" for l
    using that by (auto elim: transition_counts)
  have deliver: "counts_grow 0 s s'" if "bind_r (mark_tool_delivery_pending now s d k) (\<lambda>x. Inr (x\<lparr>op_logical_turn := k\<rparr>)) = Inr s'"
    for d k
    using that simple_marks_counts(7) [of now s d k] by (auto simp: bind_r_eq_Inr counts_grow_def)
  have clear: "counts_grow 0 s (s\<lparr>op_response_ref := [], op_updated_at := now\<rparr>)" by (simp add: counts_grow_def)
  from assms [unfolded mark_provider_effect_settled_def] show ?thesis
    using move deliver clear counts_grow_same
    by (simp only: if_Inl_Inr sum.inject simp_thms split: if_splits) blast+
qed

lemma advance_execution_counts:
  assumes "advance_execution now s l n w c = Inr s'"
  shows "counts_grow 0 s s'"
proof -
  from assms obtain f g h where parts:
      "(case n of None \<Rightarrow> Inr (\<lambda>x. x) | Some n \<Rightarrow> bind_r (count_field 0 None ''logical_turn'' (PInt n))
          (\<lambda>n'. Inr (\<lambda>x. x\<lparr>op_logical_turn := n'\<rparr>))) = Inr f"
      "(case w of None \<Rightarrow> Inr (\<lambda>x. x) | Some t \<Rightarrow> bind_r (known_text80 True ''work_ref'' t)
          (\<lambda>t'. Inr (\<lambda>x. x\<lparr>op_work_ref := t'\<rparr>))) = Inr g"
      "(case c of None \<Rightarrow> Inr (\<lambda>x. x) | Some c \<Rightarrow> bind_r (counters_to_payload c) (\<lambda>d.
          bind_r (counters_from_payload (PDict d)) (\<lambda>c'. Inr (\<lambda>x. x\<lparr>op_counters := c'\<rparr>)))) = Inr h"
    and run: "\<exists>u. transition now l u s = Inr s' \<and> (\<forall>x. op_repair_rounds (u x) = op_repair_rounds (h (g (f x)))
        \<and> op_writer_attempt (u x) = op_writer_attempt (h (g (f x))))"
    by (simp only: advance_execution_def bind_r_eq_Inr) (force simp: Let_def)
  obtain c' where h: "h = (\<lambda>x. x\<lparr>op_counters := (if c = None then op_counters x else c')\<rparr>)"
    using update_parts(3) [OF parts(3)] by blast
  from run show ?thesis
    unfolding h update_parts(1) [OF parts(1), THEN conjunct1] update_parts(2) [OF parts(2), THEN conjunct1]
    by (auto elim!: transition_counts)
qed

text \<open>
  The same without the callers' preconditions: a call opens as many rounds as it costs, and
  only below the budget; turns are counted within the budget.
\<close>

definition within_budget :: "int \<Rightarrow> operation_state \<Rightarrow> operation_state \<Rightarrow> bool" where
  "within_budget n s s' = (op_repair_rounds s' = op_repair_rounds s + n
     \<and> (n > 0 \<longrightarrow> op_repair_rounds s' \<le> op_max_repair_rounds s)
     \<and> op_turns_used s' \<le> max (op_turns_used s) (op_turn_budget s))"

lemma within_same: "within_budget 0 s s"
  by (simp add: within_budget_def)

lemma transition_budget:
  assumes "transition now l u s = Inr s'"
    and "\<And>x. op_repair_rounds x = op_repair_rounds s \<Longrightarrow> op_repair_rounds (u x) = op_repair_rounds s + n"
    and "n > 0 \<Longrightarrow> op_repair_rounds s + n \<le> op_max_repair_rounds s"
    and "\<And>x. op_turns_used x = op_turns_used s \<Longrightarrow> op_turns_used (u x) \<le> max (op_turns_used s) (op_turn_budget s)"
  shows "within_budget n s s'"
  using assms by (simp add: transition_Inr within_budget_def)

lemma simple_marks_budget:
  "mark_candidate_validation_running now s p a = Inr s' \<Longrightarrow> within_budget 0 s s'"
  "mark_provider_request_ready now s r d k = Inr s' \<Longrightarrow> within_budget 0 s s'"
  "mark_provider_effect_pending now s d p k = Inr s' \<Longrightarrow> within_budget 0 s s'"
  "mark_provider_response_ready now s r = Inr s' \<Longrightarrow> within_budget 0 s s'"
  "mark_tool_effect_pending now s d k i = Inr s' \<Longrightarrow> within_budget 0 s s'"
  "mark_tool_delivery_pending now s d k = Inr s' \<Longrightarrow> within_budget 0 s s'"
  "mark_completion_proof_recorded now s r st = Inr s' \<Longrightarrow> within_budget 0 s s'"
  "mark_repair_context_admitted now s r = Inr s' \<Longrightarrow> within_budget 0 s s'"
  "mark_repair_running now s p = Inr s' \<Longrightarrow> within_budget 1 s s'"
  "mark_writer_settled now s p t r = Inr s' \<Longrightarrow> within_budget 0 s s'"
  "start_research_successor now s p j = Inr s' \<Longrightarrow> within_budget 0 s s'"
  by (simp only: mark_candidate_validation_running_def mark_writer_settled_def mark_provider_request_ready_def
      mark_provider_effect_pending_def mark_provider_response_ready_def mark_tool_effect_pending_def
      mark_tool_delivery_pending_def mark_completion_proof_recorded_def mark_repair_context_admitted_def
      mark_repair_running_def start_research_successor_def call_Inr count_ok_simps,
      elim exE conjE, erule transition_budget, simp, simp, simp)+

lemma mark_repair_settled_budget:
  assumes "mark_repair_settled now s p st b u = Inr s'"
  shows "within_budget 0 s s'"
proof -
  from assms obtain v q t used where used: "(case u of None \<Rightarrow> Inr (op_turns_used s)
      | Some n \<Rightarrow> count_field 0 (Some (op_turn_budget s)) ''turns_used'' (PInt n)) = Inr used"
    and step: "transition now LEAF_REPAIR_SETTLED (\<lambda>x. x\<lparr>op_provider_id := q, op_stop_reason := t,
       op_blocked_reason := v, op_turns_used := used\<rparr>) s = Inr s'"
    by (simp only: mark_repair_settled_def bind_r_eq_Inr if_Inl_Inr) blast
  have "used \<le> max (op_turns_used s) (op_turn_budget s)" using used by (cases u) (auto simp: count_field_Inr count_ok_simps)
  with step show ?thesis by (auto elim!: transition_budget)
qed

lemma writer_marks_budget:
  "restart_settled_writer now s p k = Inr s' \<Longrightarrow> within_budget 0 s s'"
  "rebind_writer now s p k = Inr s' \<Longrightarrow> within_budget 0 s s'"
  "mark_tool_delivery_settled now s = Inr s' \<Longrightarrow> within_budget 0 s s'"
  "mark_tool_effect_settled now s m = Inr s' \<Longrightarrow> within_budget 0 s s'"
  "mark_completion_blocked now s b = Inr s' \<Longrightarrow> within_budget 0 s s'"
  "mark_terminal now s st c t mx p bl f r ps = Inr s' \<Longrightarrow> within_budget 0 s s'"
proof -
  show "restart_settled_writer now s p k = Inr s' \<Longrightarrow> within_budget 0 s s'"
    by (auto simp: restart_settled_writer_def split: if_splits elim!: transition_budget)
  show "rebind_writer now s p k = Inr s' \<Longrightarrow> within_budget 0 s s'"
    by (auto simp: rebind_writer_def within_budget_def split: if_splits)
  show "mark_tool_delivery_settled now s = Inr s' \<Longrightarrow> within_budget 0 s s'"
    by (auto simp: mark_tool_delivery_settled_def split: if_splits elim!: transition_budget)
  show "mark_tool_effect_settled now s m = Inr s' \<Longrightarrow> within_budget 0 s s'"
    by (auto simp: mark_tool_effect_settled_def split: if_splits elim!: transition_budget intro: simple_marks_budget(6))
  show "mark_completion_blocked now s b = Inr s' \<Longrightarrow> within_budget 0 s s'"
    by (auto simp: mark_completion_blocked_def call_Inr within_budget_def split: if_splits)
  show "mark_terminal now s st c t mx p bl f r ps = Inr s' \<Longrightarrow> within_budget 0 s s'"
    by (erule mark_terminal_cases) (simp_all add: within_same within_budget_def enter_terminal_def)
qed

lemma mark_writer_running_budget:
  assumes "mark_writer_running now s p a = Inr s'"
  shows "within_budget 0 s s'"
proof -
  from assms obtain n where
    "(if op_task_kind s = ''research'' \<and> op_writer_attempt s > 0 \<and> a \<noteq> None \<and> n \<noteq> op_writer_attempt s
     then start_research_successor now s p n
     else if op_leaf s \<in> set PENDING_LEAVES \<and> op_leaf s \<noteq> LEAF_TOOL_DELIVERY_PENDING
     then if op_driver s \<noteq> DRIVER_WRITER \<or> op_provider_id s \<noteq> p \<or> op_writer_attempt s \<noteq> n
          then Inl (TransitionError ''pending writer identity cannot be rebound'') else Inr s
     else if op_leaf s = LEAF_WRITER_SETTLED then restart_settled_writer now s p n
     else if op_leaf s \<in> set [LEAF_WRITER_RUNNING, LEAF_TOOL_DELIVERY_PENDING] then rebind_writer now s p n
     else transition now LEAF_WRITER_RUNNING (\<lambda>x. x\<lparr>op_provider_id := p, op_writer_attempt := n\<rparr>) s) = Inr s'"
    by (simp only: mark_writer_running_def bind_r_eq_Inr text_field_Inr pyval.inject) blast
  moreover have "within_budget 0 s s'"
    if "transition now LEAF_WRITER_RUNNING (\<lambda>x. x\<lparr>op_provider_id := p, op_writer_attempt := n\<rparr>) s = Inr s'"
    using that by (auto elim: transition_budget)
  ultimately show ?thesis
    using simple_marks_budget(11) writer_marks_budget(1,2) within_same by (auto split: if_splits)
qed

lemma mark_provider_effect_settled_budget:
  assumes "mark_provider_effect_settled now s t = Inr s'"
  shows "within_budget 0 s s'"
proof -
  have move: "within_budget 0 s s'" if "transition now l (\<lambda>x. x) s = Inr s'" for l
    using that by (auto elim: transition_budget)
  have deliver: "within_budget 0 s s'" if "bind_r (mark_tool_delivery_pending now s d k) (\<lambda>x. Inr (x\<lparr>op_logical_turn := k\<rparr>)) = Inr s'"
    for d k
    using that simple_marks_budget(6) [of now s d k] by (auto simp: bind_r_eq_Inr within_budget_def)
  have clear: "within_budget 0 s (s\<lparr>op_response_ref := [], op_updated_at := now\<rparr>)" by (simp add: within_budget_def)
  from assms [unfolded mark_provider_effect_settled_def] show ?thesis
    using move deliver clear within_same
    by (simp only: if_Inl_Inr sum.inject simp_thms split: if_splits) blast+
qed

lemma advance_execution_budget:
  assumes "advance_execution now s l n w c = Inr s'"
  shows "within_budget 0 s s'"
proof -
  from assms obtain f g h where parts:
      "(case n of None \<Rightarrow> Inr (\<lambda>x. x) | Some n \<Rightarrow> bind_r (count_field 0 None ''logical_turn'' (PInt n))
          (\<lambda>n'. Inr (\<lambda>x. x\<lparr>op_logical_turn := n'\<rparr>))) = Inr f"
      "(case w of None \<Rightarrow> Inr (\<lambda>x. x) | Some t \<Rightarrow> bind_r (known_text80 True ''work_ref'' t)
          (\<lambda>t'. Inr (\<lambda>x. x\<lparr>op_work_ref := t'\<rparr>))) = Inr g"
      "(case c of None \<Rightarrow> Inr (\<lambda>x. x) | Some c \<Rightarrow> bind_r (counters_to_payload c) (\<lambda>d.
          bind_r (counters_from_payload (PDict d)) (\<lambda>c'. Inr (\<lambda>x. x\<lparr>op_counters := c'\<rparr>)))) = Inr h"
    and run: "\<exists>u. transition now l u s = Inr s' \<and> (\<forall>x. op_repair_rounds (u x) = op_repair_rounds (h (g (f x)))
        \<and> op_turns_used (u x) = op_turns_used (h (g (f x))))"
    by (simp only: advance_execution_def bind_r_eq_Inr) (force simp: Let_def)
  obtain c' where h: "h = (\<lambda>x. x\<lparr>op_counters := (if c = None then op_counters x else c')\<rparr>)"
    using update_parts(3) [OF parts(3)] by blast
  from run show ?thesis
    unfolding h update_parts(1) [OF parts(1), THEN conjunct1] update_parts(2) [OF parts(2), THEN conjunct1]
    by (auto elim!: transition_budget)
qed

lemma apply_call_budget:
  assumes "apply_call now c s = Inr s'"
  shows "within_budget (if is_repair_call c then 1 else 0) s s'"
  using assms
  by (cases c)
     (simp_all add: is_repair_call_def simple_marks_budget writer_marks_budget mark_writer_running_budget
       mark_repair_settled_budget mark_provider_effect_settled_budget advance_execution_budget)

lemma run_calls_cases [consumes 1, case_names Nil Cons]:
  assumes "run_calls cs s = Inr s'"
    and "\<And>s. P [] s s"
    and "\<And>now c cs s t s'. apply_call now c s = Inr t \<Longrightarrow> run_calls cs t = Inr s' \<Longrightarrow> P cs t s' \<Longrightarrow> P ((now, c) # cs) s s'"
  shows "P cs s s'"
  using assms(1)
proof (induction cs s rule: run_calls.induct)
  case (1 s)
  then show ?case using assms(2) by simp
next
  case (2 now c cs s)
  from "2.prems" obtain t where t: "apply_call now c s = Inr t" "run_calls cs t = Inr s'"
    by (auto simp: bind_r_eq_Inr)
  with "2.IH" show ?case by (intro assms(3) [where t = t]) auto
qed

lemma run_calls_budget:
  "run_calls cs s = Inr s' \<Longrightarrow> op_identity s' = op_identity s
   \<and> op_repair_rounds s' = op_repair_rounds s + int (length (filter (is_repair_call \<circ> snd) cs))
   \<and> (op_repair_rounds s \<le> op_max_repair_rounds s \<longrightarrow> op_repair_rounds s' \<le> op_max_repair_rounds s)
   \<and> (op_turns_used s \<le> op_turn_budget s \<longrightarrow> op_turns_used s' \<le> op_turn_budget s)"
proof (induction rule: run_calls_cases)
  case (Cons now c cs s t s')
  have id: "op_identity t = op_identity s" using apply_call_frame [OF Cons.hyps(1)] by (simp add: step_frame_def)
  then have "op_max_repair_rounds t = op_max_repair_rounds s" "op_turn_budget t = op_turn_budget s"
    by (simp_all add: op_identity_def)
  with Cons.IH apply_call_budget [OF Cons.hyps(1)] id show ?case
    by (auto simp: within_budget_def split: if_splits)
qed simp

text \<open>A run whose writer calls name no attempt below the current one.\<close>

fun attempts_fit :: "(string \<times> operation_call) list \<Rightarrow> operation_state \<Rightarrow> bool" where
  "attempts_fit [] s = True"
| "attempts_fit ((now, c) # cs) s =
     ((case c of WriterRunning p a \<Rightarrow> attempt_fits s a | _ \<Rightarrow> True) \<and>
      (case apply_call now c s of Inl _ \<Rightarrow> True | Inr s' \<Rightarrow> attempts_fit cs s'))"

lemma apply_call_attempts:
  assumes "case c of WriterRunning p a \<Rightarrow> attempt_fits s a | _ \<Rightarrow> True" "apply_call now c s = Inr s'"
  shows "op_writer_attempt s \<le> op_writer_attempt s'"
proof -
  have "counts_grow (if is_repair_call c then 1 else 0) s s'"
    using assms
    by (cases c)
       (simp_all add: is_repair_call_def simple_marks_counts writer_marks_counts mark_writer_running_counts
         mark_provider_effect_settled_counts advance_execution_counts)
  then show ?thesis by (simp add: counts_grow_def)
qed

lemma run_calls_attempts:
  "run_calls cs s = Inr s' \<Longrightarrow> attempts_fit cs s \<longrightarrow> op_writer_attempt s \<le> op_writer_attempt s'"
proof (induction rule: run_calls_cases)
  case (Cons now c cs s t s')
  with apply_call_attempts [of s c now t] show ?case by auto
qed simp

section \<open>Finishing\<close>

definition finish_call :: "operation_state \<Rightarrow> operation_call" where
  "finish_call s = Terminal [] 0 0 (op_turn_budget s) [] None None [] []"

lemma finish_call_fits: "call_fits (finish_call s) s"
  by (simp add: finish_call_def terminal_proof_fits_def)

lemma wf_verdict_supported: "operation_wf s \<Longrightarrow> op_blocked_reason s \<noteq> [] \<Longrightarrow> blocked_verdict_supported s"
  by (drule operation_wfD(8))
     (auto simp: verdict_facts_def blocked_verdict_supported_def completion_proof_satisfied_def BLOCKABLE_PROOF_STATUSES_def)

lemma finish_step:
  assumes wf: "operation_wf s" and leaf: "LEAF_TERMINAL \<in> set (ALLOWED_TRANSITIONS (op_leaf s))"
    "op_leaf s \<noteq> LEAF_TERMINAL"
  shows "\<exists>s'. apply_call now (finish_call s) s = Inr s' \<and> op_leaf s' = LEAF_TERMINAL"
proof -
  have btext: "text_ok MAX_TEXT_CHARS True (op_blocked_reason s)"
    using operation_wfD(1) [OF wf] by (simp add: op_texts_ok_def)
  have budget: "0 \<le> op_turn_budget s" using wf_counts(1,2) [OF wf] by simp
  show ?thesis
    using wf_verdict_supported [OF wf] leaf
    by (auto simp: finish_call_def mark_terminal_def field_readers btext budget transition_def Let_def)
qed

text \<open>The step that brings an operation closer to a leaf it can finish from.\<close>

definition approach_call :: "operation_state \<Rightarrow> operation_call" where
  "approach_call s =
     (case op_leaf s of
        LEAF_PROVIDER_REQUEST_READY \<Rightarrow> EffectPending (op_driver s) (op_provider_id s) 0
      | LEAF_PLAN_READY \<Rightarrow> ToolEffectPending (op_driver s) 0 0
      | LEAF_COMPLETION_PENDING \<Rightarrow> Advance LEAF_CONTROL_READY None (Some ''w'') None
      | _ \<Rightarrow> Advance LEAF_KERNEL_SETTLED None (Some ''w'') None)"

definition far_leaves :: "leaf list" where
  "far_leaves = [LEAF_PROVIDER_REQUEST_READY, LEAF_PLAN_READY, LEAF_COMPLETION_PENDING, LEAF_CONTROL_READY, LEAF_CLOSING]"

definition finish_distance :: "leaf \<Rightarrow> nat" where
  "finish_distance l =
     (if l = LEAF_TERMINAL then 0 else if l = LEAF_COMPLETION_PENDING then 3 else if l \<in> set far_leaves then 2 else 1)"

lemma work_text: "text_ok MAX_TEXT_CHARS True ''w''"
  by (simp add: text_ok_def strip_def is_space_def Let_def char_limits)

lemma approach_step:
  assumes wf: "operation_wf s" and leaf: "op_leaf s \<in> set far_leaves"
  shows "call_fits (approach_call s) s"
    and "\<exists>s'. apply_call now (approach_call s) s = Inr s' \<and> finish_distance (op_leaf s') < finish_distance (op_leaf s)"
proof -
  have pend: "op_leaf s \<in> set PENDING_LEAVES" using leaf by (auto simp: far_leaves_def PENDING_LEAVES_def)
  then have src: "op_leaf s \<in> {LEAF_WRITER_RUNNING, LEAF_REPAIR_RUNNING} \<union> set PENDING_LEAVES" by simp
  note drv = driver_phase(2) [OF wf pend]
  have drvs: "op_driver s \<in> set DRIVERS" using drv by (simp add: driver_fits_def DRIVERS_def)
  note facts = drv drvs pending_source(2) [OF wf src] wf_texts [OF wf] work_text
  show "call_fits (approach_call s) s"
    using leaf facts by (auto simp: far_leaves_def approach_call_def advance_fits_def ref_fits_simps)
  show "\<exists>s'. apply_call now (approach_call s) s = Inr s' \<and> finish_distance (op_leaf s') < finish_distance (op_leaf s)"
    using leaf facts
    by (auto simp: far_leaves_def approach_call_def finish_distance_def mark_provider_effect_pending_def
        mark_tool_effect_pending_def advance_execution_def transition_def field_readers Let_def)
qed

lemma near_leaves:
  "l \<notin> set far_leaves \<Longrightarrow> LEAF_TERMINAL \<in> set (ALLOWED_TRANSITIONS l)"
  by (cases l) (simp_all add: far_leaves_def)

definition sample_time :: string where "sample_time = ''t''"

lemma sample_time_ok: "text_ok 40 False sample_time"
  by (simp add: sample_time_def text_ok_def strip_def is_space_def Let_def)

lemma finish_run:
  assumes "operation_wf s" "finish_distance (op_leaf s) = n"
  shows "\<exists>cs s'. length cs \<le> n \<and> calls_fit cs s \<and> run_calls cs s = Inr s' \<and> op_leaf s' = LEAF_TERMINAL"
  using assms
proof (induction n arbitrary: s rule: less_induct)
  case (less n)
  consider "op_leaf s = LEAF_TERMINAL" | "op_leaf s \<in> set far_leaves"
    | "op_leaf s \<noteq> LEAF_TERMINAL" "op_leaf s \<notin> set far_leaves" by blast
  then show ?case
  proof cases
    case 1
    then have "length [] \<le> n \<and> calls_fit [] s \<and> run_calls [] s = Inr s \<and> op_leaf s = LEAF_TERMINAL" by simp
    then show ?thesis by blast
  next
    case 2
    obtain t where t: "apply_call sample_time (approach_call s) s = Inr t" "finish_distance (op_leaf t) < n"
      using approach_step(2) [OF less.prems(1) 2] less.prems(2) by blast
    note fits = approach_step(1) [OF less.prems(1) 2]
    have "operation_wf t" by (rule apply_call_wf [OF less.prems(1) sample_time_ok fits t(1)])
    with less.IH [OF t(2)] obtain cs s' where
      "length cs \<le> finish_distance (op_leaf t)" "calls_fit cs t" "run_calls cs t = Inr s'" "op_leaf s' = LEAF_TERMINAL"
      by blast
    then have "length ((sample_time, approach_call s) # cs) \<le> n
        \<and> calls_fit ((sample_time, approach_call s) # cs) s
        \<and> run_calls ((sample_time, approach_call s) # cs) s = Inr s' \<and> op_leaf s' = LEAF_TERMINAL"
      using t fits sample_time_ok by simp
    then show ?thesis by blast
  next
    case 3
    obtain t where t: "apply_call sample_time (finish_call s) s = Inr t" "op_leaf t = LEAF_TERMINAL"
      using finish_step [OF less.prems(1) near_leaves [OF 3(2)] 3(1)] by blast
    have "length [(sample_time, finish_call s)] \<le> n \<and> calls_fit [(sample_time, finish_call s)] s
        \<and> run_calls [(sample_time, finish_call s)] s = Inr t"
      using t(1) 3 less.prems(2) finish_call_fits sample_time_ok by (auto simp: finish_distance_def)
    with t(2) show ?thesis by blast
  qed
qed

section \<open>A sample run\<close>

text \<open>
  An operation whose first proof fails, that is repaired once and finished; the digest of
  the sample is constant.
\<close>

definition sample_digest :: "string \<Rightarrow> string" where
  "sample_digest x = replicate 64 CHR ''a''"

definition sample_proof :: string where
  "sample_proof = ''completion_proof:'' @ replicate 16 CHR ''0''"

definition sample_calls :: "(string \<times> operation_call) list" where
  "sample_calls =
     map (Pair ''t1'')
       [WriterRunning ''p'' None, WriterSettled ''p'' 1 ''done'', ProofRecorded sample_proof ''failed'',
        RepairContext (''sha256:'' @ replicate 64 CHR ''a''), RepairRunning ''p'',
        RepairSettled ''p'' ''done'' [] None]"

definition sample_admission :: "operation_state result" where
  "sample_admission =
     new_operation_state sample_digest (\<lambda>x. x) ''t0'' ''s1'' ''r1'' (PStr ''/tmp'') ''p'' 4 1 ''project'' PNone PNone"

definition sample_admitted :: operation_state where
  "sample_admitted = (case sample_admission of Inr s \<Rightarrow> s | Inl _ \<Rightarrow> sample_operation)"

lemma sample_admitted_code [code]:
  "sample_admitted = \<lparr>op_session_id = ''s1'', op_run_id = ''r1'',
     op_operation_id = ''task:aaaaaaaaaaaaaaaaaaaaaaaa'',
     op_lane = ''run:aaaaaaaaaaaaaaaaaaaaaaaa'',
     op_project_ref = ''project:aaaaaaaaaaaaaaaaaaaaaaaa'',
     op_provider_id = ''p'', op_turn_budget = 4, op_max_repair_rounds = 1,
     op_leaf = LEAF_ACCEPTED, op_started_at = ''t0'', op_updated_at = ''t0'',
     op_task_kind = ''project'', op_task_policy = [],
     op_model_selection = [], op_reviewer_selection = [],
     op_final_delivery = ''not_required'', op_writer_attempt = 1,
     op_candidate_validation_attempted = False, op_turns_used = 0,
     op_stop_reason = [], op_completion_proof_ref = [],
     op_completion_proof_status = [], op_repair_rounds = 0,
     op_repair_context_ref = [], op_blocked_reason = [], op_driver = [],
     op_turn = 0, op_tool_index = 0, op_response_ref = [],
     op_request_ref = [], op_work_ref = [], op_continuation_ref = [],
     op_logical_turn = 0,
     op_counters =
     \<lparr>ec_invalid_turns = 0, ec_length_continuation_used = False,
     ec_closing_round = 0,
     ec_progress =
     \<lparr>pr_limit = 4, pr_seen = [], pr_attempts = [], pr_idle = 0,
     pr_last_batch_id = [], pr_schema_version = 1,
     pr_repair_failure_key = [], pr_repair_rejections = 0\<rparr>\<rparr>,
     op_terminal = None\<rparr>"
  by code_simp

definition sample_repaired :: operation_state where
  "sample_repaired = (case run_calls sample_calls sample_admitted of Inr s \<Rightarrow> s | Inl _ \<Rightarrow> sample_admitted)"

lemma sample_repaired_code [code]:
  "sample_repaired = \<lparr>op_session_id = ''s1'', op_run_id = ''r1'',
     op_operation_id = ''task:aaaaaaaaaaaaaaaaaaaaaaaa'',
     op_lane = ''run:aaaaaaaaaaaaaaaaaaaaaaaa'',
     op_project_ref = ''project:aaaaaaaaaaaaaaaaaaaaaaaa'',
     op_provider_id = ''p'', op_turn_budget = 4, op_max_repair_rounds = 1,
     op_leaf = LEAF_REPAIR_SETTLED, op_started_at = ''t0'',
     op_updated_at = ''t1'', op_task_kind = ''project'', op_task_policy = [],
     op_model_selection = [], op_reviewer_selection = [],
     op_final_delivery = ''not_required'', op_writer_attempt = 1,
     op_candidate_validation_attempted = False, op_turns_used = 1,
     op_stop_reason = ''done'',
     op_completion_proof_ref = ''completion_proof:0000000000000000'',
     op_completion_proof_status = ''failed'', op_repair_rounds = 1,
     op_repair_context_ref =
     ''sha256:aaaaaaaaaaaaaaaaaaaaaaaaaaaaaaaaaaaaaaaaaaaaaaaaaaaaaaaaaaaaaaaa'',
     op_blocked_reason = [], op_driver = [], op_turn = 0, op_tool_index = 0,
     op_response_ref = [], op_request_ref = [], op_work_ref = [],
     op_continuation_ref = [], op_logical_turn = 0,
     op_counters =
     \<lparr>ec_invalid_turns = 0, ec_length_continuation_used = False,
     ec_closing_round = 0,
     ec_progress =
     \<lparr>pr_limit = 4, pr_seen = [], pr_attempts = [], pr_idle = 0,
     pr_last_batch_id = [], pr_schema_version = 1,
     pr_repair_failure_key = [], pr_repair_rejections = 0\<rparr>\<rparr>,
     op_terminal = None\<rparr>"
  by code_simp

lemma sample_digest_hex: "hex_digest sample_digest"
  by (simp add: hex_digest_def sample_digest_def list_all_iff lower_hex_def)

lemma sample_admission_ok: "sample_admission = Inr sample_admitted"
  by code_simp

lemma sample_run_ok: "run_calls sample_calls sample_admitted = Inr sample_repaired"
  by code_simp

lemma sample_run_fits: "calls_fit sample_calls sample_admitted"
  by code_simp

lemma sample_admitted_reachable: "operation_reachable sample_digest (\<lambda>x. x) sample_admitted"
proof (rule operation_reachable.admitted)
  show "text_ok 40 False ''t0''" by (simp add: text_ok_def strip_def is_space_def Let_def)
qed (fact sample_admission_ok [unfolded sample_admission_def])

lemmas sample_reachable =
  run_calls_reachable [OF sample_admitted_reachable sample_run_fits sample_run_ok]

lemmas sample_wf = reachable_wf [OF sample_admitted_reachable sample_digest_hex]

section \<open>Properties\<close>

lemma reachable_selections:
  "operation_reachable sha256 resolve s \<Longrightarrow>
   (\<exists>v. parse_model_selection v = Inr (op_model_selection s)) \<and> op_reviewer_selection s = []"
proof (induction rule: operation_reachable.induct)
  case (admitted now sid rid project p budget rounds kind policy sel s)
  then show ?case by (elim new_operation_state_Inr) auto
next
  case (called s now c s')
  then show ?case by (auto dest!: apply_call_frame simp: step_frame_def op_identity_def)
qed

text \<open>
  C3: a crash never strands an operation. Every operation that is reached from an admission
  by calls whose callers keep their preconditions \<open>call_fits\<close> (the functions do not check
  them, see \<open>caller_phase_not_checked\<close>), and whose model selection prints within the size
  bound of the log (\<open>selection_text_fits\<close>), can be stored, and what is stored is read back
  as exactly this operation.
\<close>

theorem reachable_operation_recoverable:
  assumes "hex_digest sha256" and "operation_reachable sha256 resolve s"
    and "selection_text_fits (op_model_selection s)"
  shows "\<exists>d. operation_to_payload s = Inr d \<and> operation_from_payload (PDict d) = Some s"
proof (rule operation_valid_round)
  show "operation_valid s" using reachable_wf [OF assms(2,1)] by (simp add: operation_wf_def)
  from reachable_selections [OF assms(2)] assms(3) show "op_selections_ok s"
    by (auto simp: op_selections_ok_def selection_stored_def dest: parsed_selection_stored)
qed

theorem reachable_operation_recoverable_witness:
  "\<exists>d. operation_to_payload sample_repaired = Inr d \<and> operation_from_payload (PDict d) = Some sample_repaired"
  by (rule reachable_operation_recoverable [OF sample_digest_hex sample_reachable]) code_simp

text \<open>
  C17: a finished operation is final. Whatever calls follow, in any order and number and
  without any precondition on the callers: the leaf stays terminal, and identity, terminal
  record, delivery, proof, verdict, attempts, rounds and turns used stay as they are. Apart
  from \<open>advance_execution\<close> to the terminal leaf again, which rewrites the turn, the work
  reference, the counters and the time, no call that succeeds changes anything.
\<close>

theorem terminal_operation_fixed:
  assumes "op_leaf s = LEAF_TERMINAL" and "run_calls cs s = Inr s'"
  shows "outcome_facts s' = outcome_facts s \<and> (list_all (\<lambda>(now, c). \<not> is_advance c) cs \<longrightarrow> s' = s)"
proof -
  have "op_leaf s = LEAF_TERMINAL \<longrightarrow>
      outcome_facts s' = outcome_facts s \<and> (list_all (\<lambda>(now, c). \<not> is_advance c) cs \<longrightarrow> s' = s)"
    using assms(2)
  proof (induction rule: run_calls_cases)
    case (Cons now c cs s t s')
    have "op_leaf t = op_leaf s" if "op_leaf s = LEAF_TERMINAL"
      using terminal_call [OF that Cons.hyps(1)] by (simp add: outcome_facts_def)
    with Cons.IH terminal_call [OF _ Cons.hyps(1)] terminal_call_other [OF _ _ Cons.hyps(1)] show ?case by auto
  qed simp
  with assms(1) show ?thesis by blast
qed

theorem terminal_operation_fixed_witness:
  "\<exists>s s'. run_calls [(''t2'', finish_call sample_repaired)] sample_repaired = Inr s \<and> op_leaf s = LEAF_TERMINAL
     \<and> run_calls [(''t3'', finish_call s), (''t4'', Advance LEAF_TERMINAL (Some 2) None None)] s = Inr s'
     \<and> op_leaf s' = LEAF_TERMINAL \<and> op_terminal s' = op_terminal s"
proof -
  let ?s = "case run_calls [(''t2'', finish_call sample_repaired)] sample_repaired of Inr s \<Rightarrow> s | Inl _ \<Rightarrow> sample_repaired"
  let ?cs = "[(''t3'', finish_call ?s), (''t4'', Advance LEAF_TERMINAL (Some 2) None None)]"
  have run: "run_calls [(''t2'', finish_call sample_repaired)] sample_repaired = Inr ?s"
    and leaf: "op_leaf ?s = LEAF_TERMINAL" by code_simp+
  have "\<not> isl (run_calls ?cs ?s)" by code_simp
  then obtain t where t: "run_calls ?cs ?s = Inr t" by (metis isl_def old.sum.exhaust)
  from terminal_operation_fixed [OF leaf t] have "op_leaf t = LEAF_TERMINAL" "op_terminal t = op_terminal ?s"
    using leaf by (simp_all add: outcome_facts_def)
  with run leaf t show ?thesis by blast
qed

text \<open>
  C18: the repair budget is a hard bound. In any run of calls, however it is ordered and
  whatever the callers pass, at most as many repair rounds are opened as the operation was
  admitted with, the identity and the budgets stay, and the turns used stay within their
  budget. If no writer call names an attempt below the current one, the writer attempt is
  never taken back.
\<close>

theorem repair_rounds_bounded:
  assumes "operation_wf s" and "run_calls cs s = Inr s'"
  shows "int (length (filter (is_repair_call \<circ> snd) cs)) \<le> op_max_repair_rounds s
    \<and> op_identity s' = op_identity s \<and> op_turns_used s' \<le> op_turn_budget s
    \<and> (attempts_fit cs s \<longrightarrow> op_writer_attempt s \<le> op_writer_attempt s')"
  using run_calls_budget [OF assms(2)] run_calls_attempts [OF assms(2)] wf_counts [OF assms(1)] by auto

theorem repair_rounds_bounded_witness:
  "int (length (filter (is_repair_call \<circ> snd) sample_calls)) \<le> op_max_repair_rounds sample_admitted
   \<and> op_turns_used sample_repaired \<le> op_turn_budget sample_admitted
   \<and> op_writer_attempt sample_admitted \<le> op_writer_attempt sample_repaired"
proof -
  have "attempts_fit sample_calls sample_admitted" by code_simp
  with repair_rounds_bounded [OF sample_wf sample_run_ok] show ?thesis by blast
qed

text \<open>
  C19: no operation is stuck. From every operation the state machine reaches, whatever it
  waits for, some run of at most three calls brings it to the terminal leaf.
\<close>

theorem operation_can_finish:
  assumes "hex_digest sha256" and "operation_reachable sha256 resolve s"
  shows "\<exists>cs s'. length cs \<le> 3 \<and> calls_fit cs s \<and> run_calls cs s = Inr s' \<and> op_leaf s' = LEAF_TERMINAL"
proof -
  have "finish_distance (op_leaf s) \<le> 3" by (simp add: finish_distance_def)
  with finish_run [OF reachable_wf [OF assms(2,1)] refl] show ?thesis by (meson le_trans)
qed

theorem operation_can_finish_witness:
  "\<exists>cs s'. length cs \<le> 3 \<and> calls_fit cs sample_repaired \<and> run_calls cs sample_repaired = Inr s'
     \<and> op_leaf s' = LEAF_TERMINAL"
  by (rule operation_can_finish [OF sample_digest_hex sample_reachable])

text \<open>
  A blocked verdict may only finish. Once an operation carries one, every call fails,
  leaves the operation as it is, or ends it.
\<close>

theorem blocked_operation_only_finishes:
  assumes "operation_wf s" and "op_blocked_reason s \<noteq> []" and "call_fits c s" and "apply_call now c s = Inr s'"
  shows "s' = s \<or> op_leaf s' = LEAF_TERMINAL"
proof -
  have leaf: "op_leaf s \<in> {LEAF_COMPLETION_PROOF_RECORDED, LEAF_REPAIR_SETTLED, LEAF_TERMINAL}"
    using operation_wfD(8) [OF assms(1)] assms(2) by (simp add: verdict_facts_def VERDICT_LEAVES_def)
  have no: "transition t l u s = Inr x \<Longrightarrow> l = LEAF_TERMINAL \<and> op_leaf x = LEAF_TERMINAL" for t l u x
    using assms(2) by (simp add: transition_Inr)
  show ?thesis
  proof (cases c)
    case (WriterRunning p a)
    with assms(2,4) leaf show ?thesis
      by (auto simp: mark_writer_running_def start_research_successor_def bind_r_eq_Inr transition_Inr PENDING_LEAVES_def
          split: if_splits)
  next
    case (Advance l n w x)
    with assms(4) no show ?thesis by (auto simp: advance_execution_def bind_r_eq_Inr)
  next
    case (Terminal st n t m p b f r ps)
    then have "mark_terminal now s st n t m p b f r ps = Inr s'" using assms(4) by simp
    then show ?thesis by (rule mark_terminal_cases) (simp_all add: enter_terminal_def)
  next
    case (CompletionBlocked b)
    with assms(2,4) show ?thesis by (auto simp: mark_completion_blocked_def call_Inr split: if_splits)
  next
    case (EffectSettled t)
    with assms(2,4) leaf show ?thesis by (auto simp: mark_provider_effect_settled_def leaf_groups split: if_splits)
  qed (use assms(2,4) in \<open>auto simp: mark_candidate_validation_running_def mark_writer_settled_def
    mark_provider_request_ready_def mark_provider_effect_pending_def mark_provider_response_ready_def
    mark_tool_effect_pending_def mark_tool_delivery_pending_def mark_completion_proof_recorded_def
    mark_repair_context_admitted_def mark_repair_running_def mark_repair_settled_def
    mark_tool_effect_settled_def mark_tool_delivery_settled_def call_Inr transition_Inr split: if_splits\<close>)
qed

definition sample_blocked :: operation_state where
  "sample_blocked =
     (case run_calls (take 3 sample_calls @ [(''t2'', CompletionBlocked ''stuck'')]) sample_admitted of
        Inr s \<Rightarrow> s | Inl _ \<Rightarrow> sample_admitted)"

lemma sample_blocked_run:
  "run_calls (take 3 sample_calls @ [(''t2'', CompletionBlocked ''stuck'')]) sample_admitted = Inr sample_blocked"
  "calls_fit (take 3 sample_calls @ [(''t2'', CompletionBlocked ''stuck'')]) sample_admitted"
  by code_simp+

theorem blocked_operation_only_finishes_witness:
  "op_blocked_reason sample_blocked \<noteq> []
   \<and> (\<exists>s'. apply_call ''t3'' (finish_call sample_blocked) sample_blocked = Inr s'
        \<and> (s' = sample_blocked \<or> op_leaf s' = LEAF_TERMINAL))"
proof -
  have wf: "operation_wf sample_blocked" by (rule run_calls_wf [OF sample_blocked_run(2,1) sample_wf])
  have blocked: "op_blocked_reason sample_blocked \<noteq> []" by code_simp
  have leaf: "LEAF_TERMINAL \<in> set (ALLOWED_TRANSITIONS (op_leaf sample_blocked))" "op_leaf sample_blocked \<noteq> LEAF_TERMINAL"
    by code_simp+
  obtain s' where s': "apply_call ''t3'' (finish_call sample_blocked) sample_blocked = Inr s'"
    using finish_step [OF wf leaf] by blast
  from blocked_operation_only_finishes [OF wf blocked finish_call_fits s'] blocked s' show ?thesis by blast
qed

definition unreadable_after :: "(string \<times> operation_call) list \<Rightarrow> operation_state \<Rightarrow> bool" where
  "unreadable_after cs s =
     (case run_calls cs s of
        Inl _ \<Rightarrow> False
      | Inr s' \<Rightarrow> (case operation_to_payload s' of Inl _ \<Rightarrow> False
                  | Inr d \<Rightarrow> operation_from_payload (PDict d) = None))"

text \<open>
  The functions of the state machine do not check which phase their caller belongs to.
  Settling the writer of a repair, lowering the attempt of a running writer, finishing with
  a proof status but no proof, and recording a response without a pending effect all
  succeed, and every one of them produces a state that the reader of stored operations
  refuses.
\<close>

lemma caller_phase_not_checked:
  "unreadable_after (map (Pair ''t2'') [Advance LEAF_CLOSING None (Some ''w'') None, Advance LEAF_KERNEL_SETTLED None None None,
      WriterSettled ''p'' 1 ''done''])
      (case run_calls (take 5 sample_calls) sample_admitted of Inr s \<Rightarrow> s | Inl _ \<Rightarrow> sample_admitted)
   \<and> unreadable_after (map (Pair ''t2'') [WriterRunning ''p'' (Some 2), WriterSettled ''p'' 1 ''done'',
      WriterRunning ''p'' (Some 3), WriterRunning ''p'' (Some 1)]) sample_admitted
   \<and> unreadable_after [(''t2'', Terminal [] 0 0 4 [] None None [] ''failed'')] sample_admitted
   \<and> unreadable_after (map (Pair ''t2'') [WriterRunning ''p'' None, ResponseReady ''a'']) sample_admitted"
  by code_simp

end
