(* ===== verification/Runtime_Log.thy ===== *)
theory Runtime_Log
  imports Operation_State
begin

text \<open>
  The entries of the runtime log (\<^verbatim>\<open>codey/runtime/log/entries.py\<close>): their
  validation, their stored form and the guards that keep raw text and non-finite numbers
  out of the log. Fresh identifiers and the clock are arguments.
\<close>

section \<open>Python primitives of this module\<close>

text \<open>\<open>str.lower\<close> on the code points below 256.\<close>

definition lower_char :: "char \<Rightarrow> char" where
  "lower_char c =
     (let n = of_char c :: nat in
      if 65 \<le> n \<and> n \<le> 90 \<or> 192 \<le> n \<and> n \<le> 222 \<and> n \<noteq> 215 then char_of (n + 32) else c)"

definition lower :: "string \<Rightarrow> string" where
  "lower = map lower_char"

text \<open>
  \<open>float(n)\<close> of an int: the nearest double, ties to even, and an
  \<open>OverflowError\<close> beyond the largest one.
\<close>

function bit_length :: "int \<Rightarrow> nat" where
  "bit_length n = (if n \<le> 0 then 0 else Suc (bit_length (n div 2)))"
  by pat_completeness auto
termination by (relation "measure nat") auto

declare bit_length.simps [simp del]

definition round_int :: "int \<Rightarrow> int" where
  "round_int n =
     (let k = bit_length n - 53; q = n div 2 ^ k; r = n mod 2 ^ k
      in if k = 0 then n
         else (if 2 * r > 2 ^ k \<or> (2 * r = 2 ^ k \<and> odd q) then q + 1 else q) * 2 ^ k)"

definition float_of_int :: "int \<Rightarrow> rat result" where
  "float_of_int n =
     (let m = round_int \<bar>n\<bar>
      in if m \<ge> 2 ^ 1024 then Inl (OverflowError ''int too large to convert to float'')
         else Inr (of_int (sgn n * m)))"

section \<open>Entries\<close>

definition LOG_SCHEMA_VERSION :: int where "LOG_SCHEMA_VERSION = 1"

definition ENTRY_KINDS :: "string list" where
  "ENTRY_KINDS = [''operation_started'', ''operation_state'', ''operation_effect'', ''operation_settled'']"

definition KNOWN_ENTRY_KEYS :: "string list" where
  "KNOWN_ENTRY_KEYS =
     [''schema_version'', ''entry_id'', ''created_at'', ''session_id'', ''lane'', ''operation_id'',
      ''kind'', ''payload'', ''batch_id'', ''batch_index'', ''batch_count'']"

definition FORBIDDEN_PAYLOAD_KEYS :: "string list" where
  "FORBIDDEN_PAYLOAD_KEYS =
     [''diff'', ''prompt'', ''raw_diff'', ''raw_prompt'', ''raw_reply'', ''raw_stderr'', ''raw_stdout'',
      ''reply'', ''stderr'', ''stdout'']"

fun payload_has_nonfinite :: "nat \<Rightarrow> pyval \<Rightarrow> bool" where
  "payload_has_nonfinite depth PNonFinite = True"
| "payload_has_nonfinite depth (PDict d) =
     (if depth > 4 then False else list_ex (\<lambda>(k, v). payload_has_nonfinite (depth + 1) v) d)"
| "payload_has_nonfinite depth (PList xs) =
     (if depth > 4 then False else list_ex (payload_has_nonfinite (depth + 1)) xs)"
| "payload_has_nonfinite depth (PTuple xs) =
     (if depth > 4 then False else list_ex (payload_has_nonfinite (depth + 1)) xs)"
| "payload_has_nonfinite depth _ = False"

text \<open>The first text that is not empty; \<open>_forbidden_payload_key\<close> returns the first offender.\<close>

fun first_text :: "string list \<Rightarrow> string" where
  "first_text [] = []"
| "first_text (t # ts) = (if t \<noteq> [] then t else first_text ts)"

fun forbidden_payload_key :: "pyval \<Rightarrow> string" where
  "forbidden_payload_key (PDict d) =
     first_text (map (\<lambda>(k, v). if lower k \<in> set FORBIDDEN_PAYLOAD_KEYS then lower k
                               else forbidden_payload_key v) d)"
| "forbidden_payload_key (PList xs) = first_text (map forbidden_payload_key xs)"
| "forbidden_payload_key _ = []"

record log_entry =
  le_session_id :: string
  le_lane :: string
  le_operation_id :: string
  le_kind :: string
  le_payload :: jobj
  le_entry_id :: string
  le_created_at :: rat
  le_batch_id :: string
  le_batch_index :: int
  le_batch_count :: int
  le_schema_version :: int

definition canonical_text :: "string \<Rightarrow> bool" where
  "canonical_text t = (strip t \<noteq> [] \<and> strip t = t)"

text \<open>\<open>isinstance(value, str)\<close>, not blank and stripped, or the entry is corrupt.\<close>

definition entry_text :: "string \<Rightarrow> pyval \<Rightarrow> string result" where
  "entry_text field v =
     (case v of
        PStr t \<Rightarrow> if canonical_text t then Inr t else Inl (LogCorruption (field @ '' must be a non-empty string''))
      | _ \<Rightarrow> Inl (LogCorruption (field @ '' must be a non-empty string'')))"

definition required_text :: "jobj \<Rightarrow> string \<Rightarrow> string result" where
  "required_text d key = entry_text key (pget d key)"

definition check_schema :: "pyval \<Rightarrow> int result" where
  "check_schema v =
     (case v of
        PInt n \<Rightarrow> if n = LOG_SCHEMA_VERSION then Inr n else Inl (LogCorruption ''unsupported runtime log schema'')
      | _ \<Rightarrow> Inl (LogCorruption ''unsupported runtime log schema''))"

definition finite_time :: "string \<Rightarrow> pyval \<Rightarrow> rat result" where
  "finite_time message v =
     (case v of
        PInt n \<Rightarrow> float_of_int n
      | PFloat q \<Rightarrow> Inr q
      | PNonFinite \<Rightarrow> Inl (LogCorruption message)
      | _ \<Rightarrow> Inl (LogCorruption ''created_at must be a finite number''))"

text \<open>An identifier that is filled in when it is empty.\<close>

definition fresh_text :: "string \<Rightarrow> string \<Rightarrow> pyval \<Rightarrow> string result" where
  "fresh_text field fresh v = (if truthy v then entry_text field v else Inr fresh)"

definition entry_int :: "int \<Rightarrow> string \<Rightarrow> pyval \<Rightarrow> int result" where
  "entry_int low message v =
     (case v of PInt n \<Rightarrow> if n < low then Inl (LogCorruption message) else Inr n
      | _ \<Rightarrow> Inl (LogCorruption message))"

definition check_batch :: "pyval \<Rightarrow> pyval \<Rightarrow> (int \<times> int) result" where
  "check_batch batch_index batch_count =
     bind_r (entry_int 0 ''batch_index must be a non-negative integer'' batch_index) (\<lambda>i.
     bind_r (entry_int 1 ''batch_count must be a positive integer'' batch_count) (\<lambda>n.
     if i \<ge> n then Inl (LogCorruption ''batch_index must be inside the batch'') else Inr (i, n)))"

definition entry_payload :: "pyval \<Rightarrow> jobj result" where
  "entry_payload v =
     (case v of PDict d \<Rightarrow> Inr d | _ \<Rightarrow> Inl (LogCorruption ''payload must be an object''))"

text \<open>\<open>RuntimeLogEntry.__post_init__\<close> on the constructor's arguments.\<close>

definition log_entry_init ::
  "string \<Rightarrow> string \<Rightarrow> rat \<Rightarrow> pyval \<Rightarrow> pyval \<Rightarrow> pyval \<Rightarrow> pyval \<Rightarrow> pyval \<Rightarrow> pyval \<Rightarrow> pyval \<Rightarrow> pyval \<Rightarrow> pyval \<Rightarrow> pyval
    \<Rightarrow> pyval \<Rightarrow> log_entry result" where
  "log_entry_init fresh_entry fresh_batch clock session_id lane operation_id kind payload entry_id created_at
     batch_id batch_index batch_count schema_version =
     bind_r (check_schema schema_version) (\<lambda>schema.
     bind_r (entry_text ''session_id'' session_id) (\<lambda>session.
     bind_r (entry_text ''lane'' lane) (\<lambda>ln.
     bind_r (entry_text ''operation_id'' operation_id) (\<lambda>operation.
     bind_r (entry_text ''kind'' kind) (\<lambda>k.
     if k \<notin> set ENTRY_KINDS then Inl (LogCorruption (''unknown runtime log entry kind: '' @ k))
     else
     bind_r (entry_payload payload) (\<lambda>d.
     if forbidden_payload_key (PDict d) \<noteq> []
     then Inl (LogWriteError (''runtime log payload contains raw field: '' @ forbidden_payload_key (PDict d)))
     else if payload_has_nonfinite 0 (PDict d)
     then Inl (LogWriteError ''runtime log payload must use finite numbers'')
     else
     bind_r (finite_time ''created_at must be a finite number'' created_at) (\<lambda>time.
     if time < 0 then Inl (LogCorruption ''created_at must be a finite number'')
     else
     bind_r (fresh_text ''entry_id'' fresh_entry entry_id) (\<lambda>eid.
     bind_r (fresh_text ''batch_id'' fresh_batch batch_id) (\<lambda>bid.
     bind_r (check_batch batch_index batch_count) (\<lambda>(i, n).
     Inr \<lparr>le_session_id = session, le_lane = ln, le_operation_id = operation, le_kind = k, le_payload = d,
          le_entry_id = eid, le_created_at = (if time = 0 then clock else time), le_batch_id = bid,
          le_batch_index = i, le_batch_count = n, le_schema_version = schema\<rparr>))))))))))"

definition entry_to_payload :: "log_entry \<Rightarrow> jobj" where
  "entry_to_payload e =
     [(''schema_version'', PInt (le_schema_version e)), (''entry_id'', PStr (le_entry_id e)),
      (''created_at'', PFloat (le_created_at e)), (''session_id'', PStr (le_session_id e)),
      (''lane'', PStr (le_lane e)), (''operation_id'', PStr (le_operation_id e)),
      (''kind'', PStr (le_kind e)), (''payload'', PDict (le_payload e)),
      (''batch_id'', PStr (le_batch_id e)), (''batch_index'', PInt (le_batch_index e)),
      (''batch_count'', PInt (le_batch_count e))]"

definition entry_from_payload :: "string \<Rightarrow> string \<Rightarrow> rat \<Rightarrow> pyval \<Rightarrow> log_entry result" where
  "entry_from_payload fresh_entry fresh_batch clock v =
     (case v of
        PDict d \<Rightarrow>
          if \<not> set (dkeys d) \<subseteq> set KNOWN_ENTRY_KEYS
          then Inl (LogCorruption ''runtime log entry carries unknown keys'')
          else
          bind_r (required_text d ''entry_id'') (\<lambda>entry_id.
          bind_r (check_schema (pget d ''schema_version'')) (\<lambda>schema.
          bind_r (required_text d ''session_id'') (\<lambda>session.
          bind_r (required_text d ''lane'') (\<lambda>ln.
          bind_r (required_text d ''operation_id'') (\<lambda>operation.
          bind_r (required_text d ''kind'') (\<lambda>k.
          bind_r (finite_time ''created_at must be a positive finite number'' (pget d ''created_at'')) (\<lambda>time.
          if time \<le> 0 then Inl (LogCorruption ''created_at must be a positive finite number'')
          else
          bind_r (entry_payload (pget d ''payload'')) (\<lambda>payload.
          bind_r (required_text d ''batch_id'') (\<lambda>batch.
          bind_r (check_batch (pget d ''batch_index'') (pget d ''batch_count'')) (\<lambda>(i, n).
          log_entry_init fresh_entry fresh_batch clock (PStr session) (PStr ln) (PStr operation) (PStr k)
            (PDict payload) (PStr entry_id) (PFloat time) (PStr batch) (PInt i) (PInt n) (PInt schema)))))))))))
      | _ \<Rightarrow> Inl (LogCorruption ''runtime log entry must be an object''))"

section \<open>What an entry satisfies\<close>

definition entry_ok :: "log_entry \<Rightarrow> bool" where
  "entry_ok e =
     (list_all canonical_text [le_session_id e, le_lane e, le_operation_id e, le_kind e]
      \<and> le_kind e \<in> set ENTRY_KINDS \<and> forbidden_payload_key (PDict (le_payload e)) = []
      \<and> \<not> payload_has_nonfinite 0 (PDict (le_payload e))
      \<and> canonical_text (le_entry_id e) \<and> canonical_text (le_batch_id e) \<and> 0 < le_created_at e
      \<and> 0 \<le> le_batch_index e \<and> le_batch_index e < le_batch_count e
      \<and> le_schema_version e = LOG_SCHEMA_VERSION)"

lemma entry_text_Inr [simp]: "entry_text field v = Inr t \<longleftrightarrow> v = PStr t \<and> canonical_text t"
  by (cases v) (auto simp: entry_text_def)

lemma entry_readers_Inr [simp]:
  "check_schema v = Inr n \<longleftrightarrow> v = PInt n \<and> n = LOG_SCHEMA_VERSION"
  "entry_int low message v = Inr i \<longleftrightarrow> v = PInt i \<and> low \<le> i"
  "entry_payload v = Inr d \<longleftrightarrow> v = PDict d"
  by (cases v; auto simp: check_schema_def entry_int_def entry_payload_def)+

lemma check_batch_Inr [simp]:
  "check_batch a b = Inr (i, n) \<longleftrightarrow> a = PInt i \<and> b = PInt n \<and> 0 \<le> i \<and> 1 \<le> n \<and> i < n"
  by (auto simp: check_batch_def bind_r_eq_Inr)

lemma fresh_text_Inr:
  "fresh_text field fresh v = Inr t \<Longrightarrow> canonical_text fresh \<Longrightarrow> canonical_text t"
  by (auto simp: fresh_text_def split: if_splits)

lemma canonical_nonempty: "canonical_text t \<Longrightarrow> t \<noteq> []"
  by (auto simp: canonical_text_def strip_def)

lemma fresh_text_given [simp]: "canonical_text t \<Longrightarrow> fresh_text field fresh (PStr t) = Inr t"
  by (auto simp: fresh_text_def canonical_nonempty)

lemma finite_time_float [simp]: "finite_time message (PFloat q) = Inr q"
  by (simp add: finite_time_def)

lemma log_entry_init_ok:
  assumes "log_entry_init fe fb clock s l oid k p eid tm bid i n v = Inr e"
    and "canonical_text fe" "canonical_text fb" "0 < clock"
  shows "entry_ok e"
  using assms(1)
  apply (simp only: log_entry_init_def bind_r_eq_Inr if_Inl_Inr entry_text_Inr entry_readers_Inr split_paired_Ex
      prod.case sum.inject check_batch_Inr)
  apply (elim exE conjE)
  apply hypsubst
  apply (use assms(2-4) in \<open>simp add: entry_ok_def fresh_text_Inr\<close>)
  done

lemma log_entry_init_given:
  "entry_ok e \<Longrightarrow>
   log_entry_init fe fb clock (PStr (le_session_id e)) (PStr (le_lane e)) (PStr (le_operation_id e)) (PStr (le_kind e))
     (PDict (le_payload e)) (PStr (le_entry_id e)) (PFloat (le_created_at e)) (PStr (le_batch_id e))
     (PInt (le_batch_index e)) (PInt (le_batch_count e)) (PInt (le_schema_version e)) = Inr e"
  by (simp add: entry_ok_def log_entry_init_def check_schema_def entry_text_def entry_payload_def check_batch_def
      entry_int_def)

lemma entry_round:
  assumes "entry_ok e"
  shows "entry_from_payload fe fb clock (PDict (entry_to_payload e)) = Inr e"
proof -
  let ?d = "entry_to_payload e"
  have gets: "pget ?d ''schema_version'' = PInt (le_schema_version e)" "pget ?d ''entry_id'' = PStr (le_entry_id e)"
      "pget ?d ''created_at'' = PFloat (le_created_at e)" "pget ?d ''session_id'' = PStr (le_session_id e)"
      "pget ?d ''lane'' = PStr (le_lane e)" "pget ?d ''operation_id'' = PStr (le_operation_id e)"
      "pget ?d ''kind'' = PStr (le_kind e)" "pget ?d ''payload'' = PDict (le_payload e)"
      "pget ?d ''batch_id'' = PStr (le_batch_id e)" "pget ?d ''batch_index'' = PInt (le_batch_index e)"
      "pget ?d ''batch_count'' = PInt (le_batch_count e)"
    by (simp_all add: entry_to_payload_def pget_def pget_default_def)
  have keys: "set (dkeys ?d) \<subseteq> set KNOWN_ENTRY_KEYS"
    by (simp add: entry_to_payload_def dkeys_def KNOWN_ENTRY_KEYS_def)
  have batch: "check_batch (PInt (le_batch_index e)) (PInt (le_batch_count e)) = Inr (le_batch_index e, le_batch_count e)"
    using assms by (simp add: entry_ok_def)
  show ?thesis
    using assms keys log_entry_init_given [OF assms, of fe fb clock]
    by (simp add: entry_from_payload_def required_text_def gets entry_text_def check_schema_def entry_payload_def
        entry_ok_def batch)
qed

section \<open>No raw text\<close>

text \<open>A raw field anywhere in a value, inside tuples and proxies too.\<close>

fun raw_field :: "pyval \<Rightarrow> bool" where
  "raw_field (PDict d) = list_ex (\<lambda>(k, v). lower k \<in> set FORBIDDEN_PAYLOAD_KEYS \<or> raw_field v) d"
| "raw_field (PProxy d) = list_ex (\<lambda>(k, v). lower k \<in> set FORBIDDEN_PAYLOAD_KEYS \<or> raw_field v) d"
| "raw_field (PList xs) = list_ex raw_field xs"
| "raw_field (PTuple xs) = list_ex raw_field xs"
| "raw_field _ = False"

lemma first_text_empty: "first_text ts = [] \<longleftrightarrow> (\<forall>t \<in> set ts. t = [])"
  by (induction ts) auto

lemma forbidden_not_empty: "k \<in> set FORBIDDEN_PAYLOAD_KEYS \<Longrightarrow> k \<noteq> []"
  by (auto simp: FORBIDDEN_PAYLOAD_KEYS_def)

lemma forbidden_key_complete: "plain_json v \<Longrightarrow> forbidden_payload_key v = [] \<longleftrightarrow> \<not> raw_field v"
proof (induction v rule: plain_json.induct)
  case (5 d)
  have "(case p of (k, v) \<Rightarrow> if lower k \<in> set FORBIDDEN_PAYLOAD_KEYS then lower k else forbidden_payload_key v) = []
      \<longleftrightarrow> \<not> (case p of (k, v) \<Rightarrow> lower k \<in> set FORBIDDEN_PAYLOAD_KEYS \<or> raw_field v)" if "p \<in> set d" for p
    using 5 that forbidden_not_empty by (cases p) (auto simp: list_all_iff)
  then show ?case
    by (simp only: forbidden_payload_key.simps raw_field.simps first_text_empty set_map list_ex_iff) blast
next
  case (6 xs)
  then show ?case by (auto simp: first_text_empty list_ex_iff list_all_iff)
qed simp_all

section \<open>Properties\<close>

text \<open>
  C37: a log entry survives its stored form. Every entry the constructor accepts is read back
  from its payload as exactly the same entry.
\<close>

theorem log_entry_round_trip:
  assumes "log_entry_init fe fb clock s l oid k p eid tm bid i n v = Inr e"
    and "canonical_text fe" "canonical_text fb" "0 < clock"
  shows "entry_from_payload fe' fb' clock' (PDict (entry_to_payload e)) = Inr e"
  by (rule entry_round [OF log_entry_init_ok [OF assms]])

definition sample_entry :: log_entry where
  "sample_entry =
     \<lparr>le_session_id = ''s'', le_lane = ''run:1'', le_operation_id = ''task:1'', le_kind = ''operation_started'',
      le_payload = [(''operation_kind'', PStr ''task'')], le_entry_id = ''entry-1'', le_created_at = 7,
      le_batch_id = ''batch-1'', le_batch_index = 0, le_batch_count = 1, le_schema_version = 1\<rparr>"

lemma sample_entry_init:
  "log_entry_init ''entry-1'' ''batch-1'' 7 (PStr ''s'') (PStr ''run:1'') (PStr ''task:1'') (PStr ''operation_started'')
     (PDict [(''operation_kind'', PStr ''task'')]) (PStr []) (PFloat 0) (PStr []) (PInt 0) (PInt 1) (PInt 1)
   = Inr sample_entry"
  by code_simp

theorem log_entry_round_trip_witness:
  "entry_from_payload [] [] 1 (PDict (entry_to_payload sample_entry)) = Inr sample_entry"
  by (rule log_entry_round_trip [OF sample_entry_init])
     (simp_all add: canonical_text_def strip_def is_space_def Let_def)

text \<open>
  The log keeps no raw text. An entry whose payload is made of JSON objects and arrays is
  accepted only if no key at any depth names a prompt, a reply, an output or a diff, in
  whatever case it is written.
\<close>

theorem log_entry_without_raw_text:
  assumes "log_entry_init fe fb clock s l oid k (PDict d) eid tm bid i n v = Inr e" and "plain_json (PDict d)"
  shows "le_payload e = d \<and> \<not> raw_field (PDict d)"
proof -
  have "le_payload e = d \<and> forbidden_payload_key (PDict d) = []"
    using assms(1)
    by (simp only: log_entry_init_def bind_r_eq_Inr if_Inl_Inr entry_text_Inr entry_readers_Inr split_paired_Ex
        prod.case sum.inject check_batch_Inr pyval.inject) (elim exE conjE, hypsubst, simp)
  then show ?thesis using forbidden_key_complete [OF assms(2)] by blast
qed

theorem log_entry_without_raw_text_witness:
  "\<not> raw_field (PDict [(''operation_kind'', PStr ''task'')])"
  using log_entry_without_raw_text [OF sample_entry_init] by simp

text \<open>
  The guard does not look into tuples. A constructor call whose payload holds a tuple with
  a raw field inside is accepted, while the same payload with the tuple written as an
  array, which is what the log file contains, is refused when it is read.
\<close>

theorem raw_text_hidden_in_tuple:
  "\<exists>e d. log_entry_init ''e'' ''b'' 7 (PStr ''s'') (PStr ''l'') (PStr ''o'') (PStr ''operation_started'')
       (PDict [(''items'', PTuple [PDict [(''stdout'', PStr ''text'')]])]) (PStr []) (PFloat 0) (PStr []) (PInt 0)
       (PInt 1) (PInt 1) = Inr e
     \<and> thaw_json (PDict (entry_to_payload e)) = PDict d
     \<and> entry_from_payload ''e'' ''b'' 7 (PDict d) = Inl (LogWriteError ''runtime log payload contains raw field: stdout'')"
  (is "\<exists>e d. ?init = Inr e \<and> _ e d \<and> _ d")
proof -
  let ?e = "case ?init of Inr e \<Rightarrow> e | Inl _ \<Rightarrow> sample_entry"
  let ?d = "case thaw_json (PDict (entry_to_payload ?e)) of PDict d \<Rightarrow> d | _ \<Rightarrow> []"
  have "?init = Inr ?e" by code_simp
  moreover have "thaw_json (PDict (entry_to_payload ?e)) = PDict ?d" by simp
  moreover have "entry_from_payload ''e'' ''b'' 7 (PDict ?d)
      = Inl (LogWriteError ''runtime log payload contains raw field: stdout'')" by code_simp
  ultimately show ?thesis by blast
qed

end
