(* ===== verification/Log_Projection.thy ===== *)
theory Log_Projection
  imports Runtime_Log
begin

text \<open>
  The projection of the runtime log (\<^verbatim>\<open>codey/runtime/log/session_projection.py\<close>)
  and the functions of \<^verbatim>\<open>operation_state.py\<close> that read log entries and the
  projection.
\<close>

section \<open>Projections\<close>

definition OUTCOMES :: "string list" where
  "OUTCOMES = [''completed'', ''failed'', ''aborted'', ''suspended'']"

definition KNOWN_EFFECT_KINDS :: "string list" where
  "KNOWN_EFFECT_KINDS = [''runtime_effect'', ''tool_result_delivery'']"

record operation_projection =
  opj_operation_id :: string
  opj_lane :: string
  opj_kind :: string
  opj_status :: string
  opj_outcome :: string
  opj_effect_refs :: "string list"

record lane_projection =
  lp_name :: string
  lp_open :: string
  lp_settled :: "string list"

record runtime_projection =
  rp_lanes :: "(string, lane_projection) dict"
  rp_operations :: "(string, operation_projection) dict"

definition new_lane :: "string \<Rightarrow> lane_projection" where
  "new_lane name = \<lparr>lp_name = name, lp_open = [], lp_settled = []\<rparr>"

definition new_operation :: "string \<Rightarrow> string \<Rightarrow> string \<Rightarrow> operation_projection" where
  "new_operation oid lane kind =
     \<lparr>opj_operation_id = oid, opj_lane = lane, opj_kind = kind, opj_status = ''open'', opj_outcome = [],
      opj_effect_refs = []\<rparr>"

definition empty_projection :: runtime_projection where
  "empty_projection = \<lparr>rp_lanes = [], rp_operations = []\<rparr>"

definition required_payload_text :: "log_entry \<Rightarrow> string \<Rightarrow> string result" where
  "required_payload_text e field =
     (case pget (le_payload e) field of
        PStr t \<Rightarrow> if strip t = [] then Inl (LogCorruption (field @ '' must be a non-empty string'')) else Inr t
      | _ \<Rightarrow> Inl (LogCorruption (field @ '' must be a non-empty string'')))"

text \<open>
  \<open>_apply_entry_to\<close>. The objects it mutates in place are the values of the two
  dictionaries, so every mutation is an assignment to the key.
\<close>

definition apply_started :: "runtime_projection \<Rightarrow> lane_projection \<Rightarrow> log_entry \<Rightarrow> runtime_projection result" where
  "apply_started p lane e =
     (if has_key (le_operation_id e) (rp_operations p) then Inl (LogCorruption ''operation started twice'')
      else if lp_open lane \<noteq> [] then Inl (LogCorruption ''lane already has an open operation'')
      else
      bind_r (required_payload_text e ''operation_kind'') (\<lambda>kind.
      Inr (p\<lparr>rp_lanes := dset (le_lane e) (lane\<lparr>lp_open := le_operation_id e\<rparr>) (rp_lanes p),
             rp_operations := dset (le_operation_id e) (new_operation (le_operation_id e) (le_lane e) kind)
               (rp_operations p)\<rparr>)))"

definition apply_recorded ::
  "runtime_projection \<Rightarrow> lane_projection \<Rightarrow> operation_projection \<Rightarrow> log_entry \<Rightarrow> runtime_projection result" where
  "apply_recorded p lane oper e =
     (if le_kind e = ''operation_state'' then
        if pget (le_payload e) ''kind'' \<noteq> PStr ''runtime_operation_state''
        then Inl (LogCorruption ''unknown operation state payload'') else Inr p
      else if le_kind e = ''operation_effect'' then
        bind_r (required_payload_text e ''effect_kind'') (\<lambda>effect_kind.
        if effect_kind \<notin> set KNOWN_EFFECT_KINDS then Inl (LogCorruption ''unknown operation effect'')
        else
        bind_r (required_payload_text e ''ref'') (\<lambda>ref.
        Inr (p\<lparr>rp_operations := dset (le_operation_id e)
                 (oper\<lparr>opj_effect_refs := opj_effect_refs oper @ [ref]\<rparr>) (rp_operations p)\<rparr>)))
      else if le_kind e = ''operation_settled'' then
        bind_r (required_payload_text e ''outcome'') (\<lambda>outcome.
        if outcome \<notin> set OUTCOMES then Inl (LogCorruption ''unknown operation outcome'')
        else
        Inr (p\<lparr>rp_operations := dset (le_operation_id e)
                 (oper\<lparr>opj_status := ''settled'', opj_outcome := outcome\<rparr>) (rp_operations p),
               rp_lanes := dset (le_lane e)
                 (lane\<lparr>lp_open := [], lp_settled := lp_settled lane @ [le_operation_id e]\<rparr>) (rp_lanes p)\<rparr>))
      else Inl (LogCorruption ''unknown runtime log entry kind''))"

definition apply_entry_to :: "runtime_projection \<Rightarrow> log_entry \<Rightarrow> runtime_projection result" where
  "apply_entry_to p e =
     (let lane = (case map_of (rp_lanes p) (le_lane e) of None \<Rightarrow> new_lane (le_lane e) | Some l \<Rightarrow> l);
          p1 = p\<lparr>rp_lanes := dset (le_lane e) lane (rp_lanes p)\<rparr>
      in if le_kind e = ''operation_started'' then apply_started p1 lane e
         else (case map_of (rp_operations p) (le_operation_id e) of
             None \<Rightarrow> Inl (LogCorruption ''operation record without start'')
           | Some oper \<Rightarrow>
               if opj_status oper \<noteq> ''open'' then Inl (LogCorruption ''operation record after settlement'')
               else apply_recorded p1 lane oper e))"

fun apply_all :: "runtime_projection \<Rightarrow> log_entry list \<Rightarrow> runtime_projection result" where
  "apply_all p [] = Inr p"
| "apply_all p (e # es) = bind_r (apply_entry_to p e) (\<lambda>p'. apply_all p' es)"

definition reduce_session :: "log_entry list \<Rightarrow> runtime_projection result" where
  "reduce_session es = apply_all empty_projection es"

text \<open>
  The copy keeps the entries that follow from changing the caller's projection in place. A
  value of the model is never shared, so here the copy is equal to its original.
\<close>

definition clone_projection_parts :: "runtime_projection \<Rightarrow> runtime_projection" where
  "clone_projection_parts p =
     \<lparr>rp_lanes = map (\<lambda>(name, l). (name, \<lparr>lp_name = lp_name l, lp_open = lp_open l, lp_settled = lp_settled l\<rparr>))
        (rp_lanes p),
      rp_operations = map (\<lambda>(oid, x). (oid, \<lparr>opj_operation_id = opj_operation_id x, opj_lane = opj_lane x,
        opj_kind = opj_kind x, opj_status = opj_status x, opj_outcome = opj_outcome x,
        opj_effect_refs = opj_effect_refs x\<rparr>)) (rp_operations p)\<rparr>"

definition apply_entries :: "runtime_projection \<Rightarrow> log_entry list \<Rightarrow> runtime_projection result" where
  "apply_entries p es = apply_all (clone_projection_parts p) es"

section \<open>Reading an operation from the log\<close>

fun latest_operation ::
  "string \<Rightarrow> string \<Rightarrow> string \<Rightarrow> string \<Rightarrow> operation_state option \<Rightarrow> log_entry list \<Rightarrow> operation_state option result" where
  "latest_operation session run oid lane latest [] = Inr latest"
| "latest_operation session run oid lane latest (e # es) =
     (if le_kind e \<noteq> ''operation_state'' \<or> le_operation_id e \<noteq> oid
      then latest_operation session run oid lane latest es
      else if le_lane e \<noteq> lane then Inl (TransitionError ''operation state entry boundary mismatch'')
      else (case operation_from_payload (PDict (le_payload e)) of
          None \<Rightarrow> Inl (TransitionError ''invalid operation state payload'')
        | Some s \<Rightarrow>
            if op_session_id s \<noteq> session \<or> op_run_id s \<noteq> run \<or> op_operation_id s \<noteq> oid \<or> op_lane s \<noteq> lane
            then Inl (TransitionError ''operation state payload boundary mismatch'')
            else latest_operation session run oid lane (Some s) es))"

definition operation_state_from_entries ::
  "(string \<Rightarrow> string) \<Rightarrow> log_entry list \<Rightarrow> string \<Rightarrow> string \<Rightarrow> operation_state option result" where
  "operation_state_from_entries sha256 es session_id run_id =
     latest_operation session_id run_id (operation_id_for_run sha256 run_id) (lane_for_run sha256 run_id) None es"

definition operation_is_open :: "runtime_projection \<Rightarrow> operation_state \<Rightarrow> bool result" where
  "operation_is_open p s =
     (case map_of (rp_operations p) (op_operation_id s) of
        None \<Rightarrow> Inr False
      | Some x \<Rightarrow>
          if opj_lane x \<noteq> op_lane s \<or> opj_status x \<noteq> ''open''
          then Inl (TransitionError ''task operation is not open'') else Inr True)"

definition start_entries :: "runtime_projection \<Rightarrow> operation_state \<Rightarrow> jobj list result" where
  "start_entries p s =
     (case map_of (rp_operations p) (op_operation_id s) of
        None \<Rightarrow> bind_r (operation_state_entry s) (\<lambda>row. Inr [operation_started_entry s, row])
      | Some x \<Rightarrow>
          if opj_lane x \<noteq> op_lane s \<or> opj_status x \<noteq> ''open''
          then Inl (TransitionError ''task operation is not open'')
          else bind_r (operation_state_entry s) (\<lambda>row. Inr [row]))"

section \<open>Replaying in pieces\<close>

lemma clone_id [simp]: "clone_projection_parts p = p"
proof -
  have "map (\<lambda>(name, l). (name, \<lparr>lp_name = lp_name l, lp_open = lp_open l, lp_settled = lp_settled l\<rparr>)) d = d"
    for d :: "(string, lane_projection) dict" by (rule map_pair_id) simp
  moreover have "map (\<lambda>(oid, x). (oid, \<lparr>opj_operation_id = opj_operation_id x, opj_lane = opj_lane x,
        opj_kind = opj_kind x, opj_status = opj_status x, opj_outcome = opj_outcome x,
        opj_effect_refs = opj_effect_refs x\<rparr>)) d = d"
    for d :: "(string, operation_projection) dict" by (rule map_pair_id) simp
  ultimately show ?thesis by (simp add: clone_projection_parts_def)
qed

lemma apply_all_append: "apply_all p (es @ fs) = bind_r (apply_all p es) (\<lambda>q. apply_all q fs)"
  by (induction p es rule: apply_all.induct) (auto simp: bind_r_def split: sum.splits)

section \<open>What a lane shows\<close>

definition lane_of :: "(string, operation_projection) dict \<Rightarrow> string \<Rightarrow> string" where
  "lane_of ops oid = (case map_of ops oid of None \<Rightarrow> [] | Some x \<Rightarrow> opj_lane x)"

definition open_op :: "(string, operation_projection) dict \<Rightarrow> string \<Rightarrow> bool" where
  "open_op ops oid = (case map_of ops oid of None \<Rightarrow> False | Some x \<Rightarrow> opj_status x = ''open'')"

definition in_lane :: "(string, operation_projection) dict \<Rightarrow> string \<Rightarrow> string list" where
  "in_lane ops lane = filter (\<lambda>oid. lane_of ops oid = lane) (dkeys ops)"

text \<open>
  The lane that a table of operations describes: its operations in the order they were
  started, all but the last of them settled.
\<close>

definition lane_view :: "(string, operation_projection) dict \<Rightarrow> string \<Rightarrow> lane_projection option" where
  "lane_view ops lane =
     (if in_lane ops lane = [] then None
      else Some \<lparr>lp_name = lane, lp_open = first_text (filter (open_op ops) (in_lane ops lane)),
                 lp_settled = filter (Not \<circ> open_op ops) (in_lane ops lane)\<rparr>)"

definition lanes_serial :: "(string, operation_projection) dict \<Rightarrow> bool" where
  "lanes_serial ops = (\<forall>lane. \<forall>oid \<in> set (butlast (in_lane ops lane)). \<not> open_op ops oid)"

definition projection_exact :: "runtime_projection \<Rightarrow> bool" where
  "projection_exact p =
     (distinct (dkeys (rp_operations p)) \<and> [] \<notin> set (dkeys (rp_operations p))
      \<and> (\<forall>oid x. map_of (rp_operations p) oid = Some x \<longrightarrow>
           opj_operation_id x = oid \<and> opj_status x \<in> {''open'', ''settled''})
      \<and> lanes_serial (rp_operations p)
      \<and> (\<forall>lane. map_of (rp_lanes p) lane = lane_view (rp_operations p) lane))"

text \<open>An entry is written into the lane of its operation.\<close>

definition entry_fits :: "runtime_projection \<Rightarrow> log_entry \<Rightarrow> bool" where
  "entry_fits p e =
     (le_operation_id e \<noteq> [] \<and>
      (has_key (le_operation_id e) (rp_operations p) \<longrightarrow> le_lane e = lane_of (rp_operations p) (le_operation_id e)))"

lemma first_text_no_open:
  assumes "[] \<notin> set xs"
  shows "first_text (filter P xs) = [] \<longleftrightarrow> (\<forall>x \<in> set xs. \<not> P x)"
  using assms by (auto simp: first_text_empty)

lemma in_lane_subset: "set (in_lane ops lane) \<subseteq> set (dkeys ops)"
  by (auto simp: in_lane_def)

lemma mem_in_lane: "oid \<in> set (in_lane ops lane) \<longleftrightarrow> has_key oid ops \<and> lane_of ops oid = lane"
  by (auto simp: in_lane_def has_key_iff)

lemma in_lane_same:
  assumes "dkeys ops' = dkeys ops" "\<And>oid. oid \<in> set (dkeys ops) \<Longrightarrow> lane_of ops' oid = lane_of ops oid"
  shows "in_lane ops' lane = in_lane ops lane"
  unfolding in_lane_def assms(1) using assms(2) by (intro filter_cong) auto

text \<open>Starting an operation.\<close>

lemma lane_of_dset: "lane_of (dset oid x ops) oid' = (if oid' = oid then opj_lane x else lane_of ops oid')"
  and open_op_dset: "open_op (dset oid x ops) oid' = (if oid' = oid then opj_status x = ''open'' else open_op ops oid')"
  by (simp_all add: lane_of_def open_op_def)

lemma in_lane_start:
  assumes "\<not> has_key oid ops"
  shows "in_lane (dset oid (new_operation oid lane kind) ops) lane' =
    (if lane' = lane then in_lane ops lane @ [oid] else in_lane ops lane')"
proof -
  let ?ops = "dset oid (new_operation oid lane kind) ops"
  have "filter (\<lambda>x. lane_of ?ops x = lane') (dkeys ops) = in_lane ops lane'"
    unfolding in_lane_def using assms by (intro filter_cong refl) (auto simp: has_key_iff lane_of_dset)
  moreover have "lane_of ?ops oid = lane" by (simp add: lane_of_dset new_operation_def)
  moreover have "dkeys ?ops = dkeys ops @ [oid]" using assms by (simp add: dset_keys has_key_iff)
  ultimately show ?thesis by (simp only: in_lane_def filter_append) simp
qed

lemma filter_open_start:
  assumes "\<not> has_key oid ops" "set xs \<subseteq> set (dkeys ops)"
  shows "filter (open_op (dset oid x ops)) xs = filter (open_op ops) xs"
    and "filter (Not \<circ> open_op (dset oid x ops)) xs = filter (Not \<circ> open_op ops) xs"
proof -
  have "y \<in> set xs \<Longrightarrow> y \<noteq> oid" for y using assms by (auto simp: has_key_iff)
  then show "filter (open_op (dset oid x ops)) xs = filter (open_op ops) xs"
    "filter (Not \<circ> open_op (dset oid x ops)) xs = filter (Not \<circ> open_op ops) xs"
    by (intro filter_cong refl; simp add: open_op_dset)+
qed

lemma lane_view_start:
  assumes "\<not> has_key oid ops" "oid \<noteq> []" "\<forall>x \<in> set (in_lane ops lane). \<not> open_op ops x"
  shows "lane_view (dset oid (new_operation oid lane kind) ops) lane' =
    (if lane' = lane then Some \<lparr>lp_name = lane, lp_open = oid, lp_settled = in_lane ops lane\<rparr>
     else lane_view ops lane')"
proof -
  have new: "open_op (dset oid (new_operation oid lane kind) ops) oid" by (simp add: open_op_dset new_operation_def)
  have closed: "filter (open_op ops) (in_lane ops lane) = []" "filter (Not \<circ> open_op ops) (in_lane ops lane) = in_lane ops lane"
    using assms(3) by (auto simp: filter_empty_conv filter_id_conv)
  show ?thesis
    using filter_open_start [OF assms(1) in_lane_subset] new closed assms(2)
    by (simp add: lane_view_def in_lane_start [OF assms(1)])
qed

lemma serial_start:
  assumes "\<not> has_key oid ops" "lanes_serial ops" "\<forall>x \<in> set (in_lane ops lane). \<not> open_op ops x"
  shows "lanes_serial (dset oid (new_operation oid lane kind) ops)"
  unfolding lanes_serial_def
proof (intro allI ballI)
  fix lane' x
  assume x: "x \<in> set (butlast (in_lane (dset oid (new_operation oid lane kind) ops) lane'))"
  then have mem: "x \<in> set (if lane' = lane then in_lane ops lane else butlast (in_lane ops lane'))"
    by (simp add: in_lane_start [OF assms(1)] split: if_splits)
  then have "x \<in> set (dkeys ops)" using in_lane_subset in_set_butlastD by (fastforce split: if_splits)
  moreover have "\<not> open_op ops x" using mem assms(2,3) by (auto simp: lanes_serial_def split: if_splits)
  ultimately show "\<not> open_op (dset oid (new_operation oid lane kind) ops) x"
    using assms(1) by (auto simp: open_op_dset has_key_iff)
qed

text \<open>Settling the open operation of a lane.\<close>

lemma open_is_last:
  assumes "lanes_serial ops" "distinct (dkeys ops)" "open_op ops oid" "has_key oid ops"
  shows "in_lane ops (lane_of ops oid) = butlast (in_lane ops (lane_of ops oid)) @ [oid]"
    and "\<forall>x \<in> set (butlast (in_lane ops (lane_of ops oid))). x \<noteq> oid \<and> \<not> open_op ops x"
proof -
  let ?xs = "in_lane ops (lane_of ops oid)"
  have mem: "oid \<in> set ?xs" using assms(4) by (simp add: mem_in_lane)
  then have ne: "?xs \<noteq> []" by auto
  have closed: "x \<in> set (butlast ?xs) \<Longrightarrow> \<not> open_op ops x" for x using assms(1) by (simp add: lanes_serial_def)
  then have "oid = last ?xs"
    using mem ne assms(3) append_butlast_last_id [OF ne] by (metis in_set_butlastD set_ConsD append_is_Nil_conv Un_iff set_append empty_iff list.set(1))
  then show "?xs = butlast ?xs @ [oid]" using append_butlast_last_id [OF ne] by metis
  show "\<forall>x \<in> set (butlast ?xs). x \<noteq> oid \<and> \<not> open_op ops x" using closed assms(3) by blast
qed

lemma in_lane_update:
  assumes "has_key oid ops" "opj_lane x = lane_of ops oid"
  shows "in_lane (dset oid x ops) lane = in_lane ops lane"
  using assms by (intro in_lane_same) (auto simp: dset_keys has_key_iff lane_of_dset)

lemma lane_view_update:
  assumes "has_key oid ops" "opj_lane x = lane_of ops oid" "(opj_status x = ''open'') = open_op ops oid"
  shows "lane_view (dset oid x ops) lane = lane_view ops lane"
    and "lanes_serial ops \<Longrightarrow> lanes_serial (dset oid x ops)"
proof -
  have same: "open_op (dset oid x ops) = open_op ops" using assms(3) by (intro ext) (auto simp: open_op_dset)
  then show "lane_view (dset oid x ops) lane = lane_view ops lane"
    by (simp add: lane_view_def in_lane_update [OF assms(1,2)])
  show "lanes_serial (dset oid x ops)" if "lanes_serial ops"
    using that same by (simp add: lanes_serial_def in_lane_update [OF assms(1,2)])
qed

lemma lane_view_settle:
  assumes ser: "lanes_serial ops" "distinct (dkeys ops)" "open_op ops oid" "has_key oid ops"
    and x: "opj_lane x = lane_of ops oid" "opj_status x \<noteq> ''open''"
  shows "lane_view (dset oid x ops) lane =
      (if lane = lane_of ops oid
       then Some \<lparr>lp_name = lane, lp_open = [], lp_settled = filter (Not \<circ> open_op ops) (in_lane ops lane) @ [oid]\<rparr>
       else lane_view ops lane)"
    and "lanes_serial (dset oid x ops)"
proof -
  let ?ops = "dset oid x ops"
  obtain ys where ys: "in_lane ops (lane_of ops oid) = ys @ [oid]" "\<forall>y \<in> set ys. y \<noteq> oid \<and> \<not> open_op ops y"
    using open_is_last [OF ser] by blast
  have closed: "open_op ?ops y \<longleftrightarrow> y \<noteq> oid \<and> open_op ops y" for y using x(2) by (simp add: open_op_dset)
  have here: "filter (open_op ?ops) (in_lane ops (lane_of ops oid)) = []"
      "filter (Not \<circ> open_op ?ops) (in_lane ops (lane_of ops oid)) = ys @ [oid]"
    unfolding ys(1) using ys(2) closed by (auto simp: filter_empty_conv filter_id_conv)
  have before: "filter (Not \<circ> open_op ops) (in_lane ops (lane_of ops oid)) = ys"
    unfolding ys(1) using ys(2) ser(3) by (simp add: filter_id_conv)
  have other: "filter (open_op ?ops) (in_lane ops l) = filter (open_op ops) (in_lane ops l)"
      "filter (Not \<circ> open_op ?ops) (in_lane ops l) = filter (Not \<circ> open_op ops) (in_lane ops l)"
    if "l \<noteq> lane_of ops oid" for l
  proof -
    have "y \<noteq> oid" if "y \<in> set (in_lane ops l)" for y using that \<open>l \<noteq> _\<close> by (auto simp: mem_in_lane)
    then show "filter (open_op ?ops) (in_lane ops l) = filter (open_op ops) (in_lane ops l)"
      "filter (Not \<circ> open_op ?ops) (in_lane ops l) = filter (Not \<circ> open_op ops) (in_lane ops l)"
      by (intro filter_cong refl; simp add: closed)+
  qed
  show "lane_view ?ops lane =
      (if lane = lane_of ops oid
       then Some \<lparr>lp_name = lane, lp_open = [], lp_settled = filter (Not \<circ> open_op ops) (in_lane ops lane) @ [oid]\<rparr>
       else lane_view ops lane)"
    using here before other [of lane] ys(1) by (simp add: lane_view_def in_lane_update [OF ser(4) x(1)])
  show "lanes_serial ?ops"
    using ser(1) closed by (auto simp: lanes_serial_def in_lane_update [OF ser(4) x(1)])
qed

text \<open>How each kind of entry changes an exact projection.\<close>

lemma exact_lane:
  assumes "projection_exact p" "has_key oid (rp_operations p)"
  shows "map_of (rp_lanes p) (lane_of (rp_operations p) oid) = lane_view (rp_operations p) (lane_of (rp_operations p) oid)"
    and "lane_view (rp_operations p) (lane_of (rp_operations p) oid) \<noteq> None"
  using assms by (auto simp: projection_exact_def lane_view_def mem_in_lane dest!: arg_cong [of _ _ set])

lemma exact_started:
  assumes p: "projection_exact p" and new: "\<not> has_key oid (rp_operations p)" "oid \<noteq> []"
    and free: "\<forall>x \<in> set (in_lane (rp_operations p) lane). \<not> open_op (rp_operations p) x"
    and q: "rp_operations q = dset oid (new_operation oid lane kind) (rp_operations p)"
      "map_of (rp_lanes q) = (map_of (rp_lanes p))(lane \<mapsto>
         \<lparr>lp_name = lane, lp_open = oid, lp_settled = in_lane (rp_operations p) lane\<rparr>)"
  shows "projection_exact q"
  unfolding projection_exact_def
proof (intro conjI allI impI)
  show "distinct (dkeys (rp_operations q))" "[] \<notin> set (dkeys (rp_operations q))"
    using p new q(1) by (auto simp: projection_exact_def)
  show "lanes_serial (rp_operations q)"
    unfolding q(1) using p by (intro serial_start [OF new(1) _ free]) (simp add: projection_exact_def)
  show "map_of (rp_lanes q) l = lane_view (rp_operations q) l" for l
    using p by (simp add: q lane_view_start [OF new free] projection_exact_def)
  show "opj_operation_id x = oid'" "opj_status x \<in> {''open'', ''settled''}"
    if "map_of (rp_operations q) oid' = Some x" for oid' x
    using that p by (auto simp: q projection_exact_def new_operation_def split: if_splits)
qed

lemma exact_updated:
  assumes p: "projection_exact p" and old: "map_of (rp_operations p) oid = Some y"
    and x: "opj_operation_id x = oid" "opj_lane x = opj_lane y" "opj_status x = opj_status y"
    and q: "rp_operations q = dset oid x (rp_operations p)" "map_of (rp_lanes q) = map_of (rp_lanes p)"
  shows "projection_exact q"
  unfolding projection_exact_def
proof (intro conjI allI impI)
  have key: "has_key oid (rp_operations p)" "opj_lane x = lane_of (rp_operations p) oid"
      "(opj_status x = ''open'') = open_op (rp_operations p) oid"
    using old x by (auto simp: has_key_def lane_of_def open_op_def)
  show "distinct (dkeys (rp_operations q))" "[] \<notin> set (dkeys (rp_operations q))"
    using p key(1) q(1) by (auto simp: projection_exact_def has_key_iff)
  show "lanes_serial (rp_operations q)"
    unfolding q(1) using p by (intro lane_view_update(2) [OF key]) (simp add: projection_exact_def)
  show "map_of (rp_lanes q) l = lane_view (rp_operations q) l" for l
    using p by (simp add: q lane_view_update(1) [OF key] projection_exact_def)
  show "opj_operation_id z = oid'" "opj_status z \<in> {''open'', ''settled''}"
    if "map_of (rp_operations q) oid' = Some z" for oid' z
    using that p old x by (auto simp: q projection_exact_def split: if_splits)
qed

lemma exact_settled:
  assumes p: "projection_exact p" and old: "map_of (rp_operations p) oid = Some y" "opj_status y = ''open''"
    and x: "opj_operation_id x = oid" "opj_lane x = opj_lane y" "opj_status x = ''settled''"
    and q: "rp_operations q = dset oid x (rp_operations p)"
      "map_of (rp_lanes q) = (map_of (rp_lanes p))(opj_lane y \<mapsto> \<lparr>lp_name = opj_lane y, lp_open = [],
         lp_settled = filter (Not \<circ> open_op (rp_operations p)) (in_lane (rp_operations p) (opj_lane y)) @ [oid]\<rparr>)"
  shows "projection_exact q"
  unfolding projection_exact_def
proof (intro conjI allI impI)
  have ser: "lanes_serial (rp_operations p)" "distinct (dkeys (rp_operations p))" "open_op (rp_operations p) oid"
      "has_key oid (rp_operations p)"
    using p old by (auto simp: projection_exact_def has_key_def open_op_def)
  have lane: "lane_of (rp_operations p) oid = opj_lane y" using old by (simp add: lane_of_def)
  have x': "opj_lane x = lane_of (rp_operations p) oid" "opj_status x \<noteq> ''open''" using x lane by auto
  show "distinct (dkeys (rp_operations q))" "[] \<notin> set (dkeys (rp_operations q))"
    using p ser(4) q(1) by (auto simp: projection_exact_def has_key_iff)
  show "lanes_serial (rp_operations q)" unfolding q(1) by (rule lane_view_settle(2) [OF ser x'])
  show "map_of (rp_lanes q) l = lane_view (rp_operations q) l" for l
    using p by (simp add: q lane_view_settle(1) [OF ser x'] lane projection_exact_def)
  show "opj_operation_id z = oid'" "opj_status z \<in> {''open'', ''settled''}"
    if "map_of (rp_operations q) oid' = Some z" for oid' z
    using that p old x by (auto simp: q projection_exact_def split: if_splits)
qed

definition entry_lane :: "runtime_projection \<Rightarrow> log_entry \<Rightarrow> lane_projection" where
  "entry_lane p e = (case map_of (rp_lanes p) (le_lane e) of None \<Rightarrow> new_lane (le_lane e) | Some l \<Rightarrow> l)"

lemma entry_lane_exact:
  assumes "projection_exact p"
  shows "entry_lane p e = \<lparr>lp_name = le_lane e,
      lp_open = first_text (filter (open_op (rp_operations p)) (in_lane (rp_operations p) (le_lane e))),
      lp_settled = filter (Not \<circ> open_op (rp_operations p)) (in_lane (rp_operations p) (le_lane e))\<rparr>"
  using assms by (simp add: entry_lane_def projection_exact_def lane_view_def new_lane_def)

lemma started_step:
  assumes p: "projection_exact p" and e: "le_kind e = ''operation_started''"
  shows "apply_entry_to p e = Inr q \<longleftrightarrow>
    \<not> has_key (le_operation_id e) (rp_operations p)
    \<and> (\<forall>x \<in> set (in_lane (rp_operations p) (le_lane e)). \<not> open_op (rp_operations p) x)
    \<and> (\<exists>kind. required_payload_text e ''operation_kind'' = Inr kind
         \<and> q = p\<lparr>rp_lanes := dset (le_lane e) ((entry_lane p e)\<lparr>lp_open := le_operation_id e\<rparr>)
                  (dset (le_lane e) (entry_lane p e) (rp_lanes p)),
                 rp_operations := dset (le_operation_id e)
                  (new_operation (le_operation_id e) (le_lane e) kind) (rp_operations p)\<rparr>)"
proof -
  have ids: "[] \<notin> set (in_lane (rp_operations p) (le_lane e))"
    using p in_lane_subset by (fastforce simp: projection_exact_def)
  show ?thesis
    using first_text_no_open [OF ids, of "open_op (rp_operations p)"]
    by (auto simp: apply_entry_to_def e Let_def entry_lane_def [symmetric] apply_started_def bind_r_eq_Inr
        entry_lane_exact [OF p] split: if_splits)
qed

lemma started_exact:
  assumes p: "projection_exact p" and e: "le_kind e = ''operation_started''" "le_operation_id e \<noteq> []"
    and step: "apply_entry_to p e = Inr q"
  shows "projection_exact q"
proof -
  from step obtain kind where new: "\<not> has_key (le_operation_id e) (rp_operations p)"
      and free: "\<forall>x \<in> set (in_lane (rp_operations p) (le_lane e)). \<not> open_op (rp_operations p) x"
      and q: "rp_operations q = dset (le_operation_id e) (new_operation (le_operation_id e) (le_lane e) kind) (rp_operations p)"
        "map_of (rp_lanes q) = (map_of (rp_lanes p))(le_lane e \<mapsto> (entry_lane p e)\<lparr>lp_open := le_operation_id e\<rparr>)"
    unfolding started_step [OF p e(1)] by auto
  have "filter (Not \<circ> open_op (rp_operations p)) (in_lane (rp_operations p) (le_lane e)) = in_lane (rp_operations p) (le_lane e)"
    using free by (auto simp: filter_id_conv)
  then have "(entry_lane p e)\<lparr>lp_open := le_operation_id e\<rparr> =
      \<lparr>lp_name = le_lane e, lp_open = le_operation_id e, lp_settled = in_lane (rp_operations p) (le_lane e)\<rparr>"
    by (simp add: entry_lane_exact [OF p])
  with q show ?thesis using exact_started [OF p new e(2) free] by simp
qed

lemma recorded_step:
  assumes "le_kind e \<noteq> ''operation_started''"
  shows "apply_entry_to p e = Inr q \<longleftrightarrow>
    (\<exists>x. map_of (rp_operations p) (le_operation_id e) = Some x \<and> opj_status x = ''open''
       \<and> apply_recorded (p\<lparr>rp_lanes := dset (le_lane e) (entry_lane p e) (rp_lanes p)\<rparr>) (entry_lane p e) x e = Inr q)"
  using assms
  by (auto simp: apply_entry_to_def Let_def entry_lane_def [symmetric] split: option.splits if_splits)

lemma fitting_lane:
  assumes "projection_exact p" "entry_fits p e" "map_of (rp_operations p) (le_operation_id e) = Some x"
  shows "le_lane e = opj_lane x" "map_of (rp_lanes p) (le_lane e) = Some (entry_lane p e)"
proof -
  have key: "has_key (le_operation_id e) (rp_operations p)" using assms(3) by (simp add: has_key_def)
  then have lane: "le_lane e = lane_of (rp_operations p) (le_operation_id e)" using assms(2) by (simp add: entry_fits_def)
  with assms(3) show "le_lane e = opj_lane x" by (simp add: lane_of_def)
  show "map_of (rp_lanes p) (le_lane e) = Some (entry_lane p e)"
    using exact_lane [OF assms(1) key] lane by (auto simp: entry_lane_def)
qed

lemma apply_entry_exact:
  assumes p: "projection_exact p" and fits: "entry_fits p e" and step: "apply_entry_to p e = Inr q"
  shows "projection_exact q"
proof (cases "le_kind e = ''operation_started''")
  case True
  with started_exact [OF p True _ step] fits show ?thesis by (simp add: entry_fits_def)
next
  case False
  let ?oid = "le_operation_id e"
  from step [unfolded recorded_step [OF False]] obtain x where
      x: "map_of (rp_operations p) ?oid = Some x" "opj_status x = ''open''"
    and rec: "apply_recorded (p\<lparr>rp_lanes := dset (le_lane e) (entry_lane p e) (rp_lanes p)\<rparr>) (entry_lane p e) x e = Inr q"
    by blast
  note lane = fitting_lane [OF p fits x(1)]
  have same: "(map_of (rp_lanes p))(le_lane e \<mapsto> entry_lane p e) = map_of (rp_lanes p)" using lane(2) by auto
  have ident: "opj_operation_id x = ?oid" using p x(1) by (simp add: projection_exact_def)
  from rec False consider
      "le_kind e = ''operation_state''" "q = p\<lparr>rp_lanes := dset (le_lane e) (entry_lane p e) (rp_lanes p)\<rparr>"
    | ref where "rp_operations q = dset ?oid (x\<lparr>opj_effect_refs := opj_effect_refs x @ [ref]\<rparr>) (rp_operations p)"
        "map_of (rp_lanes q) = map_of (rp_lanes p)"
    | outcome where
        "rp_operations q = dset ?oid (x\<lparr>opj_status := ''settled'', opj_outcome := outcome\<rparr>) (rp_operations p)"
        "map_of (rp_lanes q) = (map_of (rp_lanes p))(le_lane e \<mapsto>
           (entry_lane p e)\<lparr>lp_open := [], lp_settled := lp_settled (entry_lane p e) @ [?oid]\<rparr>)"
    by (auto simp: apply_recorded_def bind_r_eq_Inr same split: if_splits)
  then show ?thesis
  proof cases
    case 1
    then have "rp_operations q = rp_operations p" "map_of (rp_lanes q) = map_of (rp_lanes p)" by (simp_all add: same)
    with p show ?thesis by (simp add: projection_exact_def)
  next
    case 2
    then show ?thesis
      by (intro exact_updated [OF p x(1), of "x\<lparr>opj_effect_refs := opj_effect_refs x @ [ref]\<rparr>"]) (simp_all add: ident)
  next
    case 3
    then show ?thesis
      by (intro exact_settled [OF p x]) (simp_all add: ident lane(1) entry_lane_exact [OF p])
  qed
qed

section \<open>Well-laned logs\<close>

text \<open>Every entry names an operation and, once that operation is started, its lane.\<close>

fun entries_fit :: "runtime_projection \<Rightarrow> log_entry list \<Rightarrow> bool" where
  "entries_fit p [] = True"
| "entries_fit p (e # es) =
     (entry_fits p e \<and> (case apply_entry_to p e of Inl _ \<Rightarrow> True | Inr p' \<Rightarrow> entries_fit p' es))"

lemma entries_fit_append:
  "entries_fit p (es @ fs) \<longleftrightarrow> entries_fit p es \<and> (case apply_all p es of Inl _ \<Rightarrow> True | Inr q \<Rightarrow> entries_fit q fs)"
  by (induction p es rule: entries_fit.induct) (auto simp: bind_r_def split: sum.splits)

lemma empty_exact: "projection_exact empty_projection"
  by (simp add: projection_exact_def empty_projection_def lanes_serial_def lane_view_def in_lane_def dkeys_def)

lemma apply_all_exact: "projection_exact p \<Longrightarrow> entries_fit p es \<Longrightarrow> apply_all p es = Inr q \<Longrightarrow> projection_exact q"
proof (induction p es rule: entries_fit.induct)
  case (2 p e es)
  from "2.prems"(3) obtain r where r: "apply_entry_to p e = Inr r" "apply_all r es = Inr q"
    by (auto simp: bind_r_eq_Inr)
  with "2.prems" have "projection_exact r" by (auto intro: apply_entry_exact)
  with "2.IH" [OF r(1)] "2.prems"(2) r show ?case by simp
qed simp

lemma reduce_snoc:
  "reduce_session (es @ [e]) = Inr q \<longleftrightarrow> (\<exists>p. reduce_session es = Inr p \<and> apply_entry_to p e = Inr q)"
  by (auto simp: reduce_session_def apply_all_append bind_r_eq_Inr)

definition log_fits :: "log_entry list \<Rightarrow> bool" where
  "log_fits es = entries_fit empty_projection es"

lemma log_fits_snoc:
  "log_fits (es @ [e]) \<longleftrightarrow> log_fits es \<and> (\<forall>p. reduce_session es = Inr p \<longrightarrow> entry_fits p e)"
  by (auto simp: log_fits_def entries_fit_append reduce_session_def split: sum.splits)

lemma reduce_exact: "reduce_session es = Inr p \<Longrightarrow> log_fits es \<Longrightarrow> projection_exact p"
  unfolding reduce_session_def log_fits_def by (rule apply_all_exact [OF empty_exact])

section \<open>Properties\<close>

text \<open>
  The incremental projection of the log is the replayed one. Applying further entries to the
  projection of a log gives exactly what replaying the longer log from the start gives,
  the same error included.
\<close>

lemma projection_incremental:
  "bind_r (reduce_session es) (\<lambda>p. apply_entries p fs) = reduce_session (es @ fs)"
  by (simp add: reduce_session_def apply_entries_def apply_all_append)

text \<open>
  C27: the projection tells the truth about its lanes. For a log that is accepted and whose
  entries stay in the lanes of their operations, at most the operation started last in a
  lane is open, the lane names exactly this one as open, and it lists exactly the others,
  in the order they were started, as settled.
\<close>

theorem lanes_serialized:
  assumes "reduce_session es = Inr p" and "log_fits es"
  shows "map_of (rp_lanes p) lane = lane_view (rp_operations p) lane
    \<and> (\<forall>oid \<in> set (butlast (in_lane (rp_operations p) lane)). \<not> open_op (rp_operations p) oid)"
  using reduce_exact [OF assms] by (simp add: projection_exact_def lanes_serial_def)

definition log_row :: "string \<Rightarrow> string \<Rightarrow> string \<Rightarrow> jobj \<Rightarrow> log_entry" where
  "log_row lane oid kind payload =
     \<lparr>le_session_id = ''s'', le_lane = lane, le_operation_id = oid, le_kind = kind, le_payload = payload,
      le_entry_id = ''e'', le_created_at = 1, le_batch_id = ''b'', le_batch_index = 0, le_batch_count = 1,
      le_schema_version = 1\<rparr>"

definition started_row :: "string \<Rightarrow> string \<Rightarrow> log_entry" where
  "started_row lane oid = log_row lane oid ''operation_started'' [(''operation_kind'', PStr ''task'')]"

definition settled_row :: "string \<Rightarrow> string \<Rightarrow> log_entry" where
  "settled_row lane oid = log_row lane oid ''operation_settled'' [(''outcome'', PStr ''completed'')]"

definition sample_log :: "log_entry list" where
  "sample_log =
     [started_row ''l1'' ''a'', started_row ''l2'' ''x'',
      log_row ''l1'' ''a'' ''operation_effect'' [(''effect_kind'', PStr ''runtime_effect''), (''ref'', PStr ''r''),
        (''effect_id'', PStr ''f''), (''record_kind'', PStr ''intent'')],
      settled_row ''l1'' ''a'', started_row ''l1'' ''b'']"

definition sample_projection :: runtime_projection where
  "sample_projection = (case reduce_session sample_log of Inr p \<Rightarrow> p | Inl _ \<Rightarrow> empty_projection)"

lemma sample_log_ok: "reduce_session sample_log = Inr sample_projection" "log_fits sample_log"
  by code_simp+

theorem lanes_serialized_witness:
  "map_of (rp_lanes sample_projection) ''l1'' = lane_view (rp_operations sample_projection) ''l1''
   \<and> map_of (rp_lanes sample_projection) ''l1'' = Some \<lparr>lp_name = ''l1'', lp_open = ''b'', lp_settled = [''a'']\<rparr>"
proof -
  have "map_of (rp_lanes sample_projection) ''l1'' = Some \<lparr>lp_name = ''l1'', lp_open = ''b'', lp_settled = [''a'']\<rparr>"
    by code_simp
  with lanes_serialized [OF sample_log_ok] show ?thesis by blast
qed

text \<open>
  The reducer does not compare the lane of a record with the lane of its operation. A
  settlement written into another lane is accepted; it frees that lane, in which a second
  operation can then be open at the same time, and it leaves its own lane occupied by a
  settled operation.
\<close>

theorem foreign_lane_settlement:
  "\<exists>p. reduce_session [started_row ''l1'' ''a'', started_row ''l2'' ''x'', settled_row ''l2'' ''a'',
          started_row ''l2'' ''y''] = Inr p
     \<and> map_of (rp_lanes p) ''l1'' = Some \<lparr>lp_name = ''l1'', lp_open = ''a'', lp_settled = []\<rparr>
     \<and> \<not> open_op (rp_operations p) ''a''
     \<and> lane_of (rp_operations p) ''x'' = ''l2'' \<and> lane_of (rp_operations p) ''y'' = ''l2''
     \<and> open_op (rp_operations p) ''x'' \<and> open_op (rp_operations p) ''y''"
  (is "\<exists>p. ?run = Inr p \<and> _ p")
proof -
  let ?p = "case ?run of Inr p \<Rightarrow> p | Inl _ \<Rightarrow> empty_projection"
  have "?run = Inr ?p" by code_simp
  moreover have "map_of (rp_lanes ?p) ''l1'' = Some \<lparr>lp_name = ''l1'', lp_open = ''a'', lp_settled = []\<rparr>
     \<and> \<not> open_op (rp_operations ?p) ''a''
     \<and> lane_of (rp_operations ?p) ''x'' = ''l2'' \<and> lane_of (rp_operations ?p) ''y'' = ''l2''
     \<and> open_op (rp_operations ?p) ''x'' \<and> open_op (rp_operations ?p) ''y''" by code_simp
  ultimately show ?thesis by blast
qed

end
