(* ===== verification/Log_Compaction.thy ===== *)
theory Log_Compaction
  imports Log_Projection
begin

text \<open>
  Compaction of the runtime log and recovery of its torn tail
  (\<^verbatim>\<open>codey/runtime/log/compaction.py\<close> with the retention policies of
  \<^verbatim>\<open>codey/runtime/effects/keep_policies.py\<close>).
\<close>

section \<open>Complete batches\<close>

datatype batch_scan = Torn | Broken | Whole "log_entry list" "log_entry list"

text \<open>The inner loop over the rows of one batch, from the row at \<open>offset\<close>.\<close>

fun scan_batch :: "string \<Rightarrow> int \<Rightarrow> int \<Rightarrow> log_entry list \<Rightarrow> batch_scan" where
  "scan_batch batch_id batch_count offset [] = (if offset \<ge> batch_count then Whole [] [] else Torn)"
| "scan_batch batch_id batch_count offset (e # es) =
     (if offset \<ge> batch_count then Whole [] (e # es)
      else if le_batch_id e \<noteq> batch_id \<or> le_batch_count e \<noteq> batch_count \<or> le_batch_index e \<noteq> offset
      then (if es = [] then Torn else Broken)
      else (case scan_batch batch_id batch_count (offset + 1) es of
          Whole batch rest \<Rightarrow> Whole (e # batch) rest
        | other \<Rightarrow> other))"

text \<open>
  The outer loop. Every round consumes a batch, so as many rounds as entries are enough
  when the batch counts are positive; without a round left the result is \<open>None\<close>.
\<close>

fun batch_loop :: "nat \<Rightarrow> log_entry list \<Rightarrow> log_entry list result option" where
  "batch_loop n [] = Some (Inr [])"
| "batch_loop 0 (e # es) = None"
| "batch_loop (Suc n) (e # es) =
     (case scan_batch (le_batch_id e) (le_batch_count e) 0 (e # es) of
        Torn \<Rightarrow> Some (Inr [])
      | Broken \<Rightarrow> Some (Inl (LogCorruption ''runtime log batch is not contiguous''))
      | Whole batch rest \<Rightarrow> map_option (\<lambda>r. bind_r r (\<lambda>valid. Inr (batch @ valid))) (batch_loop n rest))"

definition complete_batch_prefix :: "log_entry list \<Rightarrow> log_entry list result option" where
  "complete_batch_prefix es = batch_loop (length es) es"

section \<open>Compaction\<close>

definition replayed :: "pyval \<Rightarrow> bool" where
  "replayed v = (case v of PInt n \<Rightarrow> n > 0 | PBool b \<Rightarrow> b | _ \<Rightarrow> False)"

definition keep_effect_pair_for_compaction :: "bool \<Rightarrow> jobj option \<Rightarrow> bool result" where
  "keep_effect_pair_for_compaction is_open settlement =
     (if is_open then Inr True
      else (case settlement of
          None \<Rightarrow> Inr False
        | Some d \<Rightarrow>
            bind_r (in_string_set (pget d ''status'') [''interrupted'', ''error'']) (\<lambda>abnormal.
            Inr (abnormal \<or> pget d ''sent_state'' = PStr ''maybe_sent'' \<or> replayed (pget d ''replay_count'')))))"

definition keep_delivery_entry_for_compaction :: "string \<Rightarrow> bool \<Rightarrow> bool" where
  "keep_delivery_entry_for_compaction record_kind is_open =
     (is_open \<or> record_kind \<in> set [''recovered'', ''abandoned''])"

record compaction_groups =
  cg_order :: "string list"
  cg_started :: "(string, log_entry) dict"
  cg_state :: "(string, log_entry) dict"
  cg_settled :: "(string, log_entry) dict"
  cg_effects :: "(string, log_entry list) dict"
  cg_deliveries :: "(string, log_entry list) dict"

definition empty_groups :: compaction_groups where
  "empty_groups = \<lparr>cg_order = [], cg_started = [], cg_state = [], cg_settled = [], cg_effects = [], cg_deliveries = []\<rparr>"

definition rows_of :: "string \<Rightarrow> (string, log_entry list) dict \<Rightarrow> log_entry list" where
  "rows_of oid d = (case map_of d oid of None \<Rightarrow> [] | Some xs \<Rightarrow> xs)"

definition group_entry :: "compaction_groups \<Rightarrow> log_entry \<Rightarrow> compaction_groups" where
  "group_entry g e =
     (let oid = le_operation_id e in
      if le_kind e = ''operation_started'' then
        g\<lparr>cg_order := (if has_key oid (cg_started g) then cg_order g else cg_order g @ [oid]),
          cg_started := dset oid e (cg_started g)\<rparr>
      else if le_kind e = ''operation_state'' then g\<lparr>cg_state := dset oid e (cg_state g)\<rparr>
      else if le_kind e = ''operation_effect'' then
        if pget (le_payload e) ''effect_kind'' = PStr ''runtime_effect''
        then g\<lparr>cg_effects := dset oid (rows_of oid (cg_effects g) @ [e]) (cg_effects g)\<rparr>
        else if pget (le_payload e) ''effect_kind'' = PStr ''tool_result_delivery''
        then g\<lparr>cg_deliveries := dset oid (rows_of oid (cg_deliveries g) @ [e]) (cg_deliveries g)\<rparr>
        else g
      else if le_kind e = ''operation_settled'' then g\<lparr>cg_settled := dset oid e (cg_settled g)\<rparr>
      else g)"

definition collect_compaction_groups :: "log_entry list \<Rightarrow> compaction_groups" where
  "collect_compaction_groups es = foldl group_entry empty_groups es"

text \<open>The two dictionaries and the order of \<open>_compact_effect_pairs\<close>.\<close>

fun pair_effects ::
  "string list \<Rightarrow> (string, log_entry) dict \<Rightarrow> (string, log_entry) dict \<Rightarrow> log_entry list
    \<Rightarrow> (string list \<times> (string, log_entry) dict \<times> (string, log_entry) dict) result" where
  "pair_effects order intents settlements [] = Inr (order, intents, settlements)"
| "pair_effects order intents settlements (e # es) =
     bind_r (str_or (pget (le_payload e) ''effect_id'') []) (\<lambda>eid.
     if eid = [] then pair_effects order intents settlements es
     else if pget (le_payload e) ''record_kind'' = PStr ''intent''
     then pair_effects (if has_key eid intents then order else order @ [eid]) (dset eid e intents) settlements es
     else if pget (le_payload e) ''record_kind'' = PStr ''settlement''
     then pair_effects order intents (dset eid e settlements) es
     else pair_effects order intents settlements es)"

definition kept_pair ::
  "bool \<Rightarrow> (string, log_entry) dict \<Rightarrow> (string, log_entry) dict \<Rightarrow> string \<Rightarrow> log_entry list result" where
  "kept_pair is_open intents settlements eid =
     (case map_of intents eid of
        None \<Rightarrow> Inr []
      | Some i \<Rightarrow>
          bind_r (keep_effect_pair_for_compaction is_open (map_option le_payload (map_of settlements eid))) (\<lambda>keep.
          Inr (if keep then i # (case map_of settlements eid of None \<Rightarrow> [] | Some x \<Rightarrow> [x]) else [])))"

definition compact_effect_pairs :: "log_entry list \<Rightarrow> bool \<Rightarrow> log_entry list result" where
  "compact_effect_pairs raw is_open =
     bind_r (pair_effects [] [] [] raw) (\<lambda>(order, intents, settlements).
     bind_r (map_r (kept_pair is_open intents settlements) order) (\<lambda>parts. Inr (concat parts)))"

definition kept_delivery :: "bool \<Rightarrow> log_entry \<Rightarrow> log_entry list result" where
  "kept_delivery is_open e =
     bind_r (str_or (pget (le_payload e) ''batch_id'') []) (\<lambda>bid.
     if bid = [] \<or> \<not> truthy (pget (le_payload e) ''record_kind'') then Inr []
     else
     bind_r (py_str (pget (le_payload e) ''record_kind'')) (\<lambda>rkind.
     Inr (if keep_delivery_entry_for_compaction rkind is_open then [e] else [])))"

definition compact_delivery_records :: "log_entry list \<Rightarrow> bool \<Rightarrow> log_entry list result" where
  "compact_delivery_records raw is_open =
     bind_r (map_r (kept_delivery is_open) raw) (\<lambda>parts. Inr (concat parts))"

text \<open>The rows that \<open>_compact_entries\<close> keeps for one operation.\<close>

definition opt_row :: "log_entry option \<Rightarrow> log_entry list" where
  "opt_row x = (case x of None \<Rightarrow> [] | Some e \<Rightarrow> [e])"

definition compact_operation :: "compaction_groups \<Rightarrow> string \<Rightarrow> log_entry list result" where
  "compact_operation g oid =
     (case map_of (cg_started g) oid of
        None \<Rightarrow> Inr []
      | Some start \<Rightarrow>
          let is_open = (\<not> has_key oid (cg_settled g)) in
          bind_r (compact_effect_pairs (rows_of oid (cg_effects g)) is_open) (\<lambda>effects.
          bind_r (compact_delivery_records (rows_of oid (cg_deliveries g)) is_open) (\<lambda>deliveries.
          Inr (start # opt_row (map_of (cg_state g) oid) @ effects @ deliveries
               @ opt_row (map_of (cg_settled g) oid)))))"

text \<open>\<open>_rebatch\<close> constructs every row again, with a fresh batch identity.\<close>

definition rebatch_row :: "string \<Rightarrow> nat \<Rightarrow> nat \<Rightarrow> log_entry \<Rightarrow> log_entry result" where
  "rebatch_row batch_id n i e =
     log_entry_init [] [] 0 (PStr (le_session_id e)) (PStr (le_lane e)) (PStr (le_operation_id e)) (PStr (le_kind e))
       (PDict (le_payload e)) (PStr (le_entry_id e)) (PFloat (le_created_at e)) (PStr batch_id) (PInt (int i))
       (PInt (int n)) (PInt LOG_SCHEMA_VERSION)"

definition rebatch :: "string \<Rightarrow> log_entry list \<Rightarrow> log_entry list result" where
  "rebatch batch_id es =
     map_r (\<lambda>(i, e). rebatch_row batch_id (length es) i e) (enumerate 0 es)"

definition compact_entries :: "string \<Rightarrow> log_entry list \<Rightarrow> log_entry list result" where
  "compact_entries batch_id es =
     (let g = collect_compaction_groups es in
      bind_r (map_r (compact_operation g) (cg_order g)) (\<lambda>parts. rebatch batch_id (concat parts)))"

section \<open>Recovering a torn tail\<close>

text \<open>Rows of the batch \<open>batch_id\<close> of \<open>n\<close> rows, numbered from \<open>k\<close>.\<close>

fun numbered :: "string \<Rightarrow> int \<Rightarrow> int \<Rightarrow> log_entry list \<Rightarrow> bool" where
  "numbered batch_id n k [] = True"
| "numbered batch_id n k (e # es) =
     (le_batch_id e = batch_id \<and> le_batch_count e = n \<and> le_batch_index e = k \<and> numbered batch_id n (k + 1) es)"

definition whole_batch :: "log_entry list \<Rightarrow> bool" where
  "whole_batch b = (b \<noteq> [] \<and> numbered (le_batch_id (hd b)) (int (length b)) 0 b)"

definition torn_batch :: "log_entry list \<Rightarrow> bool" where
  "torn_batch t = (t = [] \<or> (int (length t) < le_batch_count (hd t) \<and> numbered (le_batch_id (hd t)) (le_batch_count (hd t)) 0 t))"

lemma scan_numbered:
  "numbered bid n k b \<Longrightarrow> k + int (length b) = n \<Longrightarrow> scan_batch bid n k (b @ rest) = Whole b rest"
proof (induction b arbitrary: k)
  case Nil
  then show ?case by (cases rest) simp_all
qed simp

lemma scan_torn: "numbered bid n k t \<Longrightarrow> k + int (length t) < n \<Longrightarrow> scan_batch bid n k t = Torn"
  by (induction t arbitrary: k) simp_all

lemma batch_loop_recovers:
  "list_all whole_batch bs \<Longrightarrow> torn_batch t \<Longrightarrow> length (concat bs @ t) \<le> n \<Longrightarrow>
   batch_loop n (concat bs @ t) = Some (Inr (concat bs))"
proof (induction bs arbitrary: n)
  case Nil
  show ?case
  proof (cases t)
    case (Cons e es)
    with Nil.prems obtain m where m: "n = Suc m" by (cases n) auto
    have "scan_batch (le_batch_id e) (le_batch_count e) 0 t = Torn"
      using Nil.prems(2) Cons by (intro scan_torn) (simp_all add: torn_batch_def)
    with Cons m show ?thesis by simp
  qed simp
next
  case (Cons b bs)
  then obtain e es where b: "b = e # es" by (cases b) (auto simp: whole_batch_def)
  with Cons.prems obtain m where m: "n = Suc m" by (cases n) auto
  have count: "le_batch_count e = int (length b)" using Cons.prems(1) b by (simp add: whole_batch_def)
  have "scan_batch (le_batch_id e) (le_batch_count e) 0 (b @ (concat bs @ t)) = Whole b (concat bs @ t)"
    using Cons.prems(1) b count by (intro scan_numbered) (simp_all add: whole_batch_def)
  moreover have "batch_loop m (concat bs @ t) = Some (Inr (concat bs))"
    using Cons.prems m b by (intro Cons.IH) simp_all
  ultimately show ?case using b m by simp
qed

lemma scan_whole_split:
  "scan_batch bid n k es = Whole b rest \<Longrightarrow> es = b @ rest \<and> (k < n \<longrightarrow> b \<noteq> [])"
  by (induction bid n k es arbitrary: b rule: scan_batch.induct) (auto split: if_splits batch_scan.splits)

lemma batch_loop_returns:
  "list_all entry_ok es \<Longrightarrow> length es \<le> n \<Longrightarrow>
   \<exists>r. batch_loop n es = Some r \<and> (\<forall>valid. r = Inr valid \<longrightarrow> (\<exists>rest. es = valid @ rest))"
proof (induction n es rule: batch_loop.induct)
  case (3 n e es)
  show ?case
  proof (cases "scan_batch (le_batch_id e) (le_batch_count e) 0 (e # es)")
    case (Whole batch rest)
    have "0 < le_batch_count e" using "3.prems"(1) by (auto simp: entry_ok_def)
    with scan_whole_split [OF Whole] have split: "e # es = batch @ rest" "batch \<noteq> []" by auto
    then have "length (e # es) = length batch + length rest" by (metis length_append)
    moreover have "1 \<le> length batch" using split(2) by (cases batch) simp_all
    ultimately have "length rest \<le> n" using "3.prems"(2) by linarith
    moreover have "list_all entry_ok rest" using "3.prems"(1) unfolding split(1) by simp
    ultimately obtain r where r: "batch_loop n rest = Some r" "\<forall>valid. r = Inr valid \<longrightarrow> (\<exists>tl. rest = valid @ tl)"
      using "3.IH" [OF Whole] by blast
    show ?thesis
    proof (intro exI conjI allI impI)
      show "batch_loop (Suc n) (e # es) = Some (bind_r r (\<lambda>valid. Inr (batch @ valid)))"
        using Whole r(1) by simp
      fix valid
      assume "bind_r r (\<lambda>valid. Inr (batch @ valid)) = Inr valid"
      with r(2) have "\<exists>v tl. valid = batch @ v \<and> rest = v @ tl" by (auto simp: bind_r_eq_Inr)
      then show "e # es = valid @ drop (length valid) (e # es)" using split(1) by auto
    qed
  qed simp_all
qed simp_all

text \<open>
  C26: a crash during an append loses nothing that was committed. When the log holds complete
  batches followed by the beginning of one that was cut off, the complete batches are
  recovered, all of them and nothing else.
\<close>

theorem torn_tail_recovered:
  assumes "list_all whole_batch bs" and "torn_batch t"
  shows "complete_batch_prefix (concat bs @ t) = Some (Inr (concat bs))"
  unfolding complete_batch_prefix_def by (rule batch_loop_recovers [OF assms]) simp

definition batch_row :: "string \<Rightarrow> int \<Rightarrow> int \<Rightarrow> log_entry" where
  "batch_row bid i n = (started_row ''l1'' ''a'')\<lparr>le_batch_id := bid, le_batch_index := i, le_batch_count := n\<rparr>"

theorem torn_tail_recovered_witness:
  "complete_batch_prefix [batch_row ''b1'' 0 2, batch_row ''b1'' 1 2, batch_row ''b2'' 0 3, batch_row ''b2'' 1 3]
     = Some (Inr [batch_row ''b1'' 0 2, batch_row ''b1'' 1 2])"
  using torn_tail_recovered [of "[[batch_row ''b1'' 0 2, batch_row ''b1'' 1 2]]"
      "[batch_row ''b2'' 0 3, batch_row ''b2'' 1 3]"]
  by (simp add: whole_batch_def torn_batch_def batch_row_def)

text \<open>
  Reading the batches always returns. On entries that the constructor accepted the loop over
  the log ends, and what it keeps is a prefix of the log.
\<close>

theorem batch_prefix_returns:
  assumes "list_all entry_ok es"
  shows "\<exists>r. complete_batch_prefix es = Some r \<and> (\<forall>valid. r = Inr valid \<longrightarrow> (\<exists>rest. es = valid @ rest))"
  unfolding complete_batch_prefix_def by (rule batch_loop_returns [OF assms]) simp

theorem batch_prefix_returns_witness:
  "\<exists>r. complete_batch_prefix [sample_entry] = Some r \<and> (\<forall>valid. r = Inr valid \<longrightarrow> (\<exists>rest. [sample_entry] = valid @ rest))"
proof (rule batch_prefix_returns)
  show "list_all entry_ok [sample_entry]" by code_simp
qed

end
