(* ===== verification/Log_Equivalence.thy ===== *)
theory Log_Equivalence
  imports Log_Compaction Operation_Guarantees
begin

text \<open>
  Compaction keeps what the log says: the projection of the compacted log is the projection
  of the log up to the effect references, and every operation is recovered in the same
  state.
\<close>

section \<open>The rows of one operation\<close>

definition record_row :: "string \<Rightarrow> string \<Rightarrow> string \<Rightarrow> log_entry \<Rightarrow> bool" where
  "record_row kind oid lane e = (le_kind e = kind \<and> le_operation_id e = oid \<and> le_lane e = lane)"

definition text_in :: "log_entry \<Rightarrow> string \<Rightarrow> string list \<Rightarrow> bool" where
  "text_in e field ts = (\<exists>t. required_payload_text e field = Inr t \<and> t \<in> set ts)"

definition state_row :: "string \<Rightarrow> string \<Rightarrow> log_entry \<Rightarrow> bool" where
  "state_row oid lane e =
     (record_row ''operation_state'' oid lane e \<and> pget (le_payload e) ''kind'' = PStr ''runtime_operation_state'')"

definition effect_row :: "string \<Rightarrow> string \<Rightarrow> log_entry \<Rightarrow> bool" where
  "effect_row oid lane e =
     (record_row ''operation_effect'' oid lane e \<and> text_in e ''effect_kind'' KNOWN_EFFECT_KINDS
      \<and> (\<exists>r. required_payload_text e ''ref'' = Inr r))"

text \<open>What the groups hold for an operation of the projection.\<close>

definition op_rows :: "compaction_groups \<Rightarrow> string \<Rightarrow> operation_projection \<Rightarrow> bool" where
  "op_rows g oid x =
     ((\<exists>e. map_of (cg_started g) oid = Some e \<and> record_row ''operation_started'' oid (opj_lane x) e
         \<and> required_payload_text e ''operation_kind'' = Inr (opj_kind x))
      \<and> opj_operation_id x = oid
      \<and> (\<forall>e. map_of (cg_state g) oid = Some e \<longrightarrow> state_row oid (opj_lane x) e)
      \<and> list_all (effect_row oid (opj_lane x)) (rows_of oid (cg_effects g))
      \<and> list_all (effect_row oid (opj_lane x)) (rows_of oid (cg_deliveries g))
      \<and> (case map_of (cg_settled g) oid of
           None \<Rightarrow> opj_status x = ''open'' \<and> opj_outcome x = []
         | Some e \<Rightarrow> opj_status x = ''settled'' \<and> record_row ''operation_settled'' oid (opj_lane x) e
             \<and> required_payload_text e ''outcome'' = Inr (opj_outcome x) \<and> opj_outcome x \<in> set OUTCOMES))"

definition no_rows :: "compaction_groups \<Rightarrow> string \<Rightarrow> bool" where
  "no_rows g oid =
     (\<not> has_key oid (cg_started g) \<and> map_of (cg_state g) oid = None \<and> map_of (cg_settled g) oid = None
      \<and> rows_of oid (cg_effects g) = [] \<and> rows_of oid (cg_deliveries g) = [])"

definition groups_match :: "runtime_projection \<Rightarrow> compaction_groups \<Rightarrow> bool" where
  "groups_match p g =
     (cg_order g = dkeys (rp_operations p)
      \<and> (\<forall>oid. case map_of (rp_operations p) oid of None \<Rightarrow> no_rows g oid | Some x \<Rightarrow> op_rows g oid x))"

lemma groups_matchD:
  assumes "groups_match p g"
  shows "cg_order g = dkeys (rp_operations p)" "map_of (rp_operations p) oid = None \<Longrightarrow> no_rows g oid"
    "map_of (rp_operations p) oid = Some x \<Longrightarrow> op_rows g oid x"
proof -
  note m = assms [unfolded groups_match_def]
  show "cg_order g = dkeys (rp_operations p)" using m by blast
  show "no_rows g oid" if "map_of (rp_operations p) oid = None" using m [THEN conjunct2, THEN spec, of oid] that by simp
  show "op_rows g oid x" if "map_of (rp_operations p) oid = Some x" using m [THEN conjunct2, THEN spec, of oid] that by simp
qed

lemma rows_of_dset [simp]: "rows_of oid (dset oid' xs d) = (if oid = oid' then xs else rows_of oid d)"
  by (simp add: rows_of_def)

lemma groups_other:
  assumes "oid \<noteq> le_operation_id e"
  shows "op_rows (group_entry g e) oid x = op_rows g oid x" "no_rows (group_entry g e) oid = no_rows g oid"
  using assms by (simp_all add: group_entry_def Let_def op_rows_def no_rows_def)

lemma groups_match_update:
  assumes m: "groups_match p g" and ord: "cg_order (group_entry g e) = dkeys (rp_operations q)"
    and ops: "map_of (rp_operations q) = (map_of (rp_operations p))(le_operation_id e \<mapsto> x)"
    and here: "op_rows (group_entry g e) (le_operation_id e) x"
  shows "groups_match q (group_entry g e)"
  unfolding groups_match_def
proof (intro conjI allI)
  fix oid
  show "case map_of (rp_operations q) oid of None \<Rightarrow> no_rows (group_entry g e) oid | Some x \<Rightarrow> op_rows (group_entry g e) oid x"
  proof (cases "oid = le_operation_id e")
    case True then show ?thesis using here by (simp add: ops)
  next
    case False
    then show ?thesis using groups_matchD(2,3) [OF m] by (simp add: ops groups_other [OF False] split: option.splits)
  qed
qed (fact ord)

lemma match_started:
  assumes p: "projection_exact p" and m: "groups_match p g" and e: "le_kind e = ''operation_started''"
    and step: "apply_entry_to p e = Inr q"
  shows "groups_match q (group_entry g e)"
proof -
  let ?oid = "le_operation_id e"
  from step obtain kind where new: "\<not> has_key ?oid (rp_operations p)"
      and kind: "required_payload_text e ''operation_kind'' = Inr kind"
      and q: "rp_operations q = dset ?oid (new_operation ?oid (le_lane e) kind) (rp_operations p)"
    unfolding started_step [OF p e] by auto
  have none: "no_rows g ?oid" using groups_matchD(2) [OF m] new by (simp add: has_key_def)
  show ?thesis
  proof (rule groups_match_update [OF m, of _ _ "new_operation ?oid (le_lane e) kind"])
    show "cg_order (group_entry g e) = dkeys (rp_operations q)"
      using m none new e by (simp add: group_entry_def Let_def no_rows_def groups_match_def q dset_keys has_key_iff)
    show "map_of (rp_operations q) = (map_of (rp_operations p))(?oid \<mapsto> new_operation ?oid (le_lane e) kind)"
      by (simp add: q)
    show "op_rows (group_entry g e) ?oid (new_operation ?oid (le_lane e) kind)"
      using none e kind
      by (simp add: op_rows_def group_entry_def Let_def no_rows_def record_row_def new_operation_def)
  qed
qed

lemma match_recorded:
  assumes p: "projection_exact p" and m: "groups_match p g" and e: "le_kind e \<noteq> ''operation_started''"
    and fits: "entry_fits p e" and step: "apply_entry_to p e = Inr q"
  shows "groups_match q (group_entry g e)"
proof -
  let ?oid = "le_operation_id e"
  from step [unfolded recorded_step [OF e]] obtain x where
      x: "map_of (rp_operations p) ?oid = Some x" "opj_status x = ''open''"
    and rec: "apply_recorded (p\<lparr>rp_lanes := dset (le_lane e) (entry_lane p e) (rp_lanes p)\<rparr>) (entry_lane p e) x e = Inr q"
    by blast
  have lane: "le_lane e = opj_lane x" by (rule fitting_lane(1) [OF p fits x(1)])
  have rows: "op_rows g ?oid x" by (rule groups_matchD(3) [OF m x(1)])
  have unsettled: "map_of (cg_settled g) ?oid = None" "opj_outcome x = []"
    using rows x(2) by (auto simp: op_rows_def split: option.splits)
  have key: "has_key ?oid (rp_operations p)" using x(1) by (simp add: has_key_def)
  have ord: "cg_order (group_entry g e) = dkeys (rp_operations p)"
    using m e by (simp add: group_entry_def Let_def groups_match_def)
  note upd = groups_match_update [OF m]
  from rec e consider
      (state) "le_kind e = ''operation_state''" "pget (le_payload e) ''kind'' = PStr ''runtime_operation_state''"
        "rp_operations q = rp_operations p"
    | (effect) r where "effect_row ?oid (opj_lane x) e"
        "rp_operations q = dset ?oid (x\<lparr>opj_effect_refs := opj_effect_refs x @ [r]\<rparr>) (rp_operations p)"
    | (settled) t where "le_kind e = ''operation_settled''" "required_payload_text e ''outcome'' = Inr t" "t \<in> set OUTCOMES"
        "rp_operations q = dset ?oid (x\<lparr>opj_status := ''settled'', opj_outcome := t\<rparr>) (rp_operations p)"
    by (auto simp: apply_recorded_def bind_r_eq_Inr effect_row_def record_row_def text_in_def lane split: if_splits)
  then show ?thesis
  proof cases
    case state
    show ?thesis
    proof (rule upd [of _ _ x])
      show "op_rows (group_entry g e) ?oid x"
        using rows state lane by (simp add: op_rows_def group_entry_def Let_def state_row_def record_row_def)
    qed (use state ord x(1) in auto)
  next
    case (effect r)
    show ?thesis
    proof (rule upd [of _ _ "x\<lparr>opj_effect_refs := opj_effect_refs x @ [r]\<rparr>"])
      show "op_rows (group_entry g e) ?oid (x\<lparr>opj_effect_refs := opj_effect_refs x @ [r]\<rparr>)"
        using rows effect(1) by (auto simp: op_rows_def group_entry_def Let_def effect_row_def record_row_def split: option.splits)
    qed (use effect ord key in \<open>simp_all add: dset_keys has_key_iff\<close>)
  next
    case (settled t)
    show ?thesis
    proof (rule upd [of _ _ "x\<lparr>opj_status := ''settled'', opj_outcome := t\<rparr>"])
      show "op_rows (group_entry g e) ?oid (x\<lparr>opj_status := ''settled'', opj_outcome := t\<rparr>)"
        using rows settled lane by (simp add: op_rows_def group_entry_def Let_def record_row_def)
    qed (use settled ord key in \<open>simp_all add: dset_keys has_key_iff\<close>)
  qed
qed

lemma collect_snoc: "collect_compaction_groups (es @ [e]) = group_entry (collect_compaction_groups es) e"
  by (simp add: collect_compaction_groups_def)

lemma groups_match_log:
  "reduce_session es = Inr p \<Longrightarrow> log_fits es \<Longrightarrow> groups_match p (collect_compaction_groups es)"
proof (induction es arbitrary: p rule: rev_induct)
  case Nil
  then have "p = empty_projection" by (simp add: reduce_session_def)
  then show ?case
    by (simp add: empty_projection_def groups_match_def collect_compaction_groups_def
        empty_groups_def no_rows_def rows_of_def dkeys_def)
next
  case (snoc e es)
  then obtain r where r: "reduce_session es = Inr r" "apply_entry_to r e = Inr p" by (auto simp: reduce_snoc)
  from snoc.prems(2) r(1) have fits: "log_fits es" "entry_fits r e" by (auto simp: log_fits_snoc)
  note exact = reduce_exact [OF r(1) fits(1)] and m = snoc.IH [OF r(1) fits(1)]
  show ?case
    unfolding collect_snoc
    using match_started [OF exact m _ r(2)] match_recorded [OF exact m _ fits(2) r(2)] by blast
qed

section \<open>Replaying the rows of one operation\<close>

text \<open>The table \<open>ops'\<close> is \<open>ops\<close> with the operation \<open>oid\<close> set to \<open>x\<close>, its references aside.\<close>

definition sets_operation ::
  "runtime_projection \<Rightarrow> string \<Rightarrow> operation_projection \<Rightarrow> runtime_projection \<Rightarrow> bool" where
  "sets_operation p oid x q =
     (dkeys (rp_operations q) = (if has_key oid (rp_operations p) then dkeys (rp_operations p)
                                 else dkeys (rp_operations p) @ [oid])
      \<and> (\<exists>refs. map_of (rp_operations q) = (map_of (rp_operations p))(oid \<mapsto> x\<lparr>opj_effect_refs := refs\<rparr>)))"

lemma sets_operationI:
  assumes "map_of (rp_operations q) = (map_of (rp_operations p))(oid \<mapsto> x\<lparr>opj_effect_refs := refs\<rparr>)"
    and "dkeys (rp_operations q) = (if has_key oid (rp_operations p) then dkeys (rp_operations p)
                                 else dkeys (rp_operations p) @ [oid])"
  shows "sets_operation p oid x q"
  unfolding sets_operation_def using assms by blast

lemma sets_operation_same: "map_of (rp_operations p) oid = Some x \<Longrightarrow> sets_operation p oid x p"
  by (rule sets_operationI [where refs = "opj_effect_refs x"]) (auto simp: has_key_def)

lemma sets_operation_trans:
  assumes "sets_operation p oid x q" "sets_operation q oid y r"
  shows "sets_operation p oid y r"
  using assms by (auto simp: sets_operation_def has_key_def split: if_splits)

lemma sets_operation_refs: "sets_operation p oid (x\<lparr>opj_effect_refs := refs\<rparr>) q \<longleftrightarrow> sets_operation p oid x q"
  by (simp add: sets_operation_def)

lemma replay_middle:
  assumes "projection_exact p" "map_of (rp_operations p) oid = Some x" "opj_status x = ''open''" "oid \<noteq> []"
    and "list_all (\<lambda>e. state_row oid (opj_lane x) e \<or> effect_row oid (opj_lane x) e) rows"
  shows "entries_fit p rows \<and> (\<exists>q. apply_all p rows = Inr q \<and> sets_operation p oid x q)"
  using assms
proof (induction rows arbitrary: p x)
  case Nil
  then show ?case using sets_operation_same by simp
next
  case (Cons e rows)
  have row: "le_kind e \<noteq> ''operation_started''" "le_operation_id e = oid" "le_lane e = opj_lane x"
    using Cons.prems(5) by (auto simp: state_row_def effect_row_def record_row_def)
  have fits: "entry_fits p e" using row Cons.prems(2,4) by (simp add: entry_fits_def lane_of_def)
  have "\<exists>q refs. apply_entry_to p e = Inr q \<and> sets_operation p oid x q
      \<and> map_of (rp_operations q) oid = Some (x\<lparr>opj_effect_refs := refs\<rparr>)"
  proof (cases "state_row oid (opj_lane x) e")
    case True
    let ?q = "p\<lparr>rp_lanes := dset (le_lane e) (entry_lane p e) (rp_lanes p)\<rparr>"
    have "apply_entry_to p e = Inr ?q"
      unfolding recorded_step [OF row(1)] using True Cons.prems(2,3) row(2)
      by (auto simp: apply_recorded_def state_row_def record_row_def)
    moreover have "sets_operation p oid x ?q"
      using sets_operation_same [OF Cons.prems(2)] by (simp add: sets_operation_def)
    moreover have "map_of (rp_operations ?q) oid = Some (x\<lparr>opj_effect_refs := opj_effect_refs x\<rparr>)"
      using Cons.prems(2) by simp
    ultimately show ?thesis by blast
  next
    case False
    then have eff: "effect_row oid (opj_lane x) e" using Cons.prems(5) by simp
    then obtain k r where kr: "required_payload_text e ''effect_kind'' = Inr k" "k \<in> set KNOWN_EFFECT_KINDS"
        "required_payload_text e ''ref'' = Inr r" by (auto simp: effect_row_def text_in_def)
    let ?q = "p\<lparr>rp_lanes := dset (le_lane e) (entry_lane p e) (rp_lanes p),
        rp_operations := dset oid (x\<lparr>opj_effect_refs := opj_effect_refs x @ [r]\<rparr>) (rp_operations p)\<rparr>"
    have "apply_entry_to p e = Inr ?q"
      unfolding recorded_step [OF row(1)] using eff kr Cons.prems(2,3) row(2)
      by (auto simp: apply_recorded_def effect_row_def record_row_def)
    moreover have "sets_operation p oid x ?q"
      using Cons.prems(2) by (auto simp: sets_operation_def has_key_def dset_keys has_key_iff [symmetric])
    moreover have "map_of (rp_operations ?q) oid = Some (x\<lparr>opj_effect_refs := opj_effect_refs x @ [r]\<rparr>)" by simp
    ultimately show ?thesis by blast
  qed
  then obtain q refs where q: "apply_entry_to p e = Inr q" "sets_operation p oid x q"
      "map_of (rp_operations q) oid = Some (x\<lparr>opj_effect_refs := refs\<rparr>)" by blast
  have "projection_exact q" by (rule apply_entry_exact [OF Cons.prems(1) fits q(1)])
  with Cons.IH [OF _ q(3)] Cons.prems(3-5)
  have "entries_fit q rows \<and> (\<exists>r. apply_all q rows = Inr r \<and> sets_operation q oid x r)"
    by (simp add: sets_operation_refs)
  with q fits show ?case by (auto intro: sets_operation_trans)
qed

lemma replay_start:
  assumes p: "projection_exact p" and new: "\<not> has_key oid (rp_operations p)" "oid \<noteq> []"
    and free: "\<forall>y \<in> set (in_lane (rp_operations p) lane). \<not> open_op (rp_operations p) y"
    and e: "record_row ''operation_started'' oid lane e" "required_payload_text e ''operation_kind'' = Inr kind"
  obtains q where "apply_entry_to p e = Inr q" "projection_exact q" "entry_fits p e"
    "sets_operation p oid (new_operation oid lane kind) q"
    "map_of (rp_operations q) oid = Some (new_operation oid lane kind)"
proof -
  have row: "le_kind e = ''operation_started''" "le_operation_id e = oid" "le_lane e = lane"
    using e(1) by (simp_all add: record_row_def)
  obtain q where q: "apply_entry_to p e = Inr q" "rp_operations q = dset oid (new_operation oid lane kind) (rp_operations p)"
    using started_step [OF p row(1)] new free e(2) row by auto
  have fits: "entry_fits p e" using row new by (simp add: entry_fits_def)
  have "map_of (rp_operations q) =
      (map_of (rp_operations p))(oid \<mapsto> (new_operation oid lane kind)\<lparr>opj_effect_refs := []\<rparr>)"
    by (simp add: q(2) new_operation_def)
  moreover have "dkeys (rp_operations q) = dkeys (rp_operations p) @ [oid]"
    using new(1) by (simp add: q(2) dset_keys has_key_iff)
  ultimately have "sets_operation p oid (new_operation oid lane kind) q"
    using new(1) unfolding sets_operation_def by auto
  with that [OF q(1) apply_entry_exact [OF p fits q(1)] fits] q(2) show ?thesis by simp
qed

lemma replay_finish:
  assumes p: "projection_exact p" and x: "map_of (rp_operations p) oid = Some x" "opj_status x = ''open''" and oid: "oid \<noteq> []"
    and e: "record_row ''operation_settled'' oid (opj_lane x) e" "required_payload_text e ''outcome'' = Inr t" "t \<in> set OUTCOMES"
  shows "entry_fits p e \<and> (\<exists>q. apply_entry_to p e = Inr q
    \<and> sets_operation p oid (x\<lparr>opj_status := ''settled'', opj_outcome := t\<rparr>) q)"
proof -
  have row: "le_kind e = ''operation_settled''" "le_operation_id e = oid" "le_lane e = opj_lane x"
    using e(1) by (simp_all add: record_row_def)
  have not_started: "le_kind e \<noteq> ''operation_started''" using row by simp
  let ?x = "x\<lparr>opj_status := ''settled'', opj_outcome := t\<rparr>"
  obtain q where q: "apply_entry_to p e = Inr q" "rp_operations q = dset oid ?x (rp_operations p)"
    using recorded_step [OF not_started, of p] x e row by (auto simp: apply_recorded_def)
  have "sets_operation p oid ?x q"
    by (rule sets_operationI [where refs = "opj_effect_refs x"])
       (use x(1) in \<open>auto simp: q(2) dset_keys has_key_iff [symmetric] has_key_def\<close>)
  moreover have "entry_fits p e" using row x(1) oid by (simp add: entry_fits_def lane_of_def)
  ultimately show ?thesis using q(1) by blast
qed

section \<open>Replaying the compacted log\<close>

lemma ran_dset: "v \<in> A \<Longrightarrow> ran (map_of d) \<subseteq> A \<Longrightarrow> ran (map_of (dset k v d)) \<subseteq> A"
  by (auto simp: ran_def)

lemma pair_effects_step:
  assumes "pair_effects order intents settlements (e # es) = Inr r"
  obtains order1 intents1 settlements1 where "pair_effects order1 intents1 settlements1 es = Inr r"
    "intents1 = intents \<or> (\<exists>k. intents1 = dset k e intents)"
    "settlements1 = settlements \<or> (\<exists>k. settlements1 = dset k e settlements)"
proof -
  from assms obtain eid where step: "(if eid = [] then pair_effects order intents settlements es
     else if pget (le_payload e) ''record_kind'' = PStr ''intent''
     then pair_effects (if has_key eid intents then order else order @ [eid]) (dset eid e intents) settlements es
     else if pget (le_payload e) ''record_kind'' = PStr ''settlement''
     then pair_effects order intents (dset eid e settlements) es
     else pair_effects order intents settlements es) = Inr r"
    unfolding pair_effects.simps bind_r_eq_Inr by blast
  consider (skip) "pair_effects order intents settlements es = Inr r"
    | (intent) order1 where "pair_effects order1 (dset eid e intents) settlements es = Inr r"
    | (settlement) "pair_effects order intents (dset eid e settlements) es = Inr r"
    using step by meson
  then show thesis
  proof cases
    case skip then show ?thesis by (rule that) simp_all
  next
    case intent then show ?thesis by (rule that) blast+
  next
    case settlement then show ?thesis by (rule that) blast+
  qed
qed

lemma pair_effects_rows:
  "pair_effects order intents settlements es = Inr (order', intents', settlements') \<Longrightarrow>
   ran (map_of intents) \<subseteq> A \<Longrightarrow> ran (map_of settlements) \<subseteq> A \<Longrightarrow> set es \<subseteq> A \<Longrightarrow>
   ran (map_of intents') \<subseteq> A \<and> ran (map_of settlements') \<subseteq> A"
proof (induction es arbitrary: order intents settlements)
  case (Cons e es)
  have e: "e \<in> A" "set es \<subseteq> A" using Cons.prems(4) by auto
  from Cons.prems(1) obtain order1 intents1 settlements1 where
      step: "pair_effects order1 intents1 settlements1 es = Inr (order', intents', settlements')"
    and new: "intents1 = intents \<or> (\<exists>k. intents1 = dset k e intents)"
      "settlements1 = settlements \<or> (\<exists>k. settlements1 = dset k e settlements)"
    by (rule pair_effects_step)
  from new(1) have "ran (map_of intents1) \<subseteq> A" by (elim disjE exE) (simp_all only: Cons.prems(2) ran_dset [OF e(1)])
  moreover from new(2) have "ran (map_of settlements1) \<subseteq> A"
    by (elim disjE exE) (simp_all only: Cons.prems(3) ran_dset [OF e(1)])
  ultimately show ?case by (rule Cons.IH [OF step _ _ e(2)])
qed simp

lemma kept_pair_rows:
  assumes "kept_pair is_open intents settlements eid = Inr rows"
  shows "set rows \<subseteq> ran (map_of intents) \<union> ran (map_of settlements)"
  using assms by (auto simp: kept_pair_def bind_r_eq_Inr ran_def split: option.splits if_splits)

lemma compact_effect_pairs_rows:
  assumes "compact_effect_pairs raw is_open = Inr rows"
  shows "set rows \<subseteq> set raw"
proof -
  from assms obtain order intents settlements parts where
      pairs: "pair_effects [] [] [] raw = Inr (order, intents, settlements)"
    and parts: "list_all2 (\<lambda>eid part. kept_pair is_open intents settlements eid = Inr part) order parts"
      "rows = concat parts"
    by (simp only: compact_effect_pairs_def bind_r_eq_Inr split_paired_Ex prod.case map_r_Inr sum.inject) blast
  have "ran (map_of intents) \<union> ran (map_of settlements) \<subseteq> set raw"
    using pair_effects_rows [OF pairs, of "set raw"] by auto
  moreover have "set part \<subseteq> ran (map_of intents) \<union> ran (map_of settlements)" if "part \<in> set parts" for part
  proof -
    from that obtain i where "i < length parts" "part = parts ! i" by (auto simp: in_set_conv_nth)
    with parts(1) have "kept_pair is_open intents settlements (order ! i) = Inr part" by (simp add: list_all2_conv_all_nth)
    then show ?thesis by (rule kept_pair_rows)
  qed
  ultimately show ?thesis using parts(2) by auto
qed

lemma compact_delivery_records_rows:
  assumes "compact_delivery_records raw is_open = Inr rows"
  shows "set rows \<subseteq> set raw"
proof -
  from assms obtain parts where parts: "list_all2 (\<lambda>e part. kept_delivery is_open e = Inr part) raw parts"
      "rows = concat parts" by (simp only: compact_delivery_records_def bind_r_eq_Inr map_r_Inr) blast
  have one: "set part \<subseteq> {e}" if "kept_delivery is_open e = Inr part" for e part
    using that by (auto simp: kept_delivery_def bind_r_eq_Inr split: if_splits)
  from parts(1) have "set (concat parts) \<subseteq> set raw"
    by (induction rule: list_all2_induct) (auto dest!: one)
  then show ?thesis using parts(2) by simp
qed

text \<open>The rows of an operation, from its start to its settlement.\<close>

lemma compact_operation_form:
  assumes rows: "op_rows g oid x" and comp: "compact_operation g oid = Inr part"
  obtains start middle where
    "part = start # middle @ opt_row (map_of (cg_settled g) oid)"
    "record_row ''operation_started'' oid (opj_lane x) start"
    "required_payload_text start ''operation_kind'' = Inr (opj_kind x)"
    "list_all (\<lambda>e. state_row oid (opj_lane x) e \<or> effect_row oid (opj_lane x) e) middle"
    "filter (\<lambda>e. le_kind e = ''operation_state'') middle = opt_row (map_of (cg_state g) oid)"
proof -
  from rows obtain start where start: "map_of (cg_started g) oid = Some start"
      "record_row ''operation_started'' oid (opj_lane x) start"
      "required_payload_text start ''operation_kind'' = Inr (opj_kind x)"
    by (auto simp: op_rows_def)
  from comp start(1) obtain effects deliveries is_open where
      eff: "compact_effect_pairs (rows_of oid (cg_effects g)) is_open = Inr effects"
      "compact_delivery_records (rows_of oid (cg_deliveries g)) is_open = Inr deliveries"
    and part: "part = start # (opt_row (map_of (cg_state g) oid) @ effects @ deliveries) @ opt_row (map_of (cg_settled g) oid)"
    by (simp add: compact_operation_def Let_def bind_r_eq_Inr) blast
  have kept: "list_all (effect_row oid (opj_lane x)) (effects @ deliveries)"
    using rows compact_effect_pairs_rows [OF eff(1)] compact_delivery_records_rows [OF eff(2)]
    by (auto simp: op_rows_def list_all_iff)
  have state: "list_all (state_row oid (opj_lane x)) (opt_row (map_of (cg_state g) oid))"
    using rows by (auto simp: op_rows_def opt_row_def split: option.splits)
  have no_state: "filter (\<lambda>e. le_kind e = ''operation_state'') (effects @ deliveries) = []"
    using kept by (auto simp: list_all_iff effect_row_def record_row_def filter_empty_conv)
  have all_state: "filter (\<lambda>e. le_kind e = ''operation_state'') (opt_row (map_of (cg_state g) oid)) = opt_row (map_of (cg_state g) oid)"
    using state by (auto simp: list_all_iff state_row_def record_row_def filter_id_conv)
  show thesis
  proof (rule that [OF part start(2,3)])
    show "list_all (\<lambda>e. state_row oid (opj_lane x) e \<or> effect_row oid (opj_lane x) e)
        (opt_row (map_of (cg_state g) oid) @ effects @ deliveries)"
      using kept state by (auto simp: list_all_iff)
    show "filter (\<lambda>e. le_kind e = ''operation_state'') (opt_row (map_of (cg_state g) oid) @ effects @ deliveries)
        = opt_row (map_of (cg_state g) oid)"
      using no_state all_state by simp
  qed
qed

lemma replay_operation:
  assumes p: "projection_exact p" and rows: "op_rows g oid x" and comp: "compact_operation g oid = Inr part"
    and new: "\<not> has_key oid (rp_operations p)" "oid \<noteq> []"
    and free: "\<forall>y \<in> set (in_lane (rp_operations p) (opj_lane x)). \<not> open_op (rp_operations p) y"
  obtains q where "apply_all p part = Inr q" "projection_exact q" "sets_operation p oid x q"
proof -
  obtain start middle where part: "part = start # middle @ opt_row (map_of (cg_settled g) oid)"
      and start: "record_row ''operation_started'' oid (opj_lane x) start"
        "required_payload_text start ''operation_kind'' = Inr (opj_kind x)"
      and mid: "list_all (\<lambda>e. state_row oid (opj_lane x) e \<or> effect_row oid (opj_lane x) e) middle"
    by (rule compact_operation_form [OF rows comp])
  let ?n = "new_operation oid (opj_lane x) (opj_kind x)"
  obtain q1 where q1: "apply_entry_to p start = Inr q1" "projection_exact q1" "entry_fits p start"
      "sets_operation p oid ?n q1" "map_of (rp_operations q1) oid = Some ?n"
    using replay_start [OF p new free start] by blast
  have n: "opj_status ?n = ''open''" "opj_lane ?n = opj_lane x" by (simp_all add: new_operation_def)
  obtain q2 where q2: "entries_fit q1 middle" "apply_all q1 middle = Inr q2" "sets_operation q1 oid ?n q2"
    using replay_middle [OF q1(2,5) n(1) new(2)] mid n(2) by auto
  have exact2: "projection_exact q2" by (rule apply_all_exact [OF q1(2) q2(1,2)])
  obtain refs where x2: "map_of (rp_operations q2) oid = Some (?n\<lparr>opj_effect_refs := refs\<rparr>)"
    using q2(3) by (auto simp: sets_operation_def)
  note n2 = sets_operation_trans [OF q1(4) q2(3)]
  show thesis
  proof (cases "map_of (cg_settled g) oid")
    case None
    then have "opj_status x = ''open''" "opj_outcome x = []" "opj_operation_id x = oid"
      using rows by (simp_all add: op_rows_def)
    then have "x\<lparr>opj_effect_refs := []\<rparr> = ?n" by (simp add: new_operation_def)
    with n2 have "sets_operation p oid x q2" by (metis sets_operation_refs)
    then show ?thesis using that [of q2] q1(1) q2(2) exact2 part None by (simp add: opt_row_def apply_all_append)
  next
    case (Some f)
    then have f: "opj_status x = ''settled''" "opj_operation_id x = oid" "record_row ''operation_settled'' oid (opj_lane x) f"
        "required_payload_text f ''outcome'' = Inr (opj_outcome x)" "opj_outcome x \<in> set OUTCOMES"
      using rows by (simp_all add: op_rows_def)
    have "\<exists>q. entry_fits q2 f \<and> apply_entry_to q2 f = Inr q
        \<and> sets_operation q2 oid (?n\<lparr>opj_effect_refs := refs, opj_status := ''settled'', opj_outcome := opj_outcome x\<rparr>) q"
      using replay_finish [OF exact2 x2 _ new(2) _ f(4,5)] f(3) by (auto simp: new_operation_def)
    then obtain q where q: "entry_fits q2 f" "apply_entry_to q2 f = Inr q"
        "sets_operation q2 oid (?n\<lparr>opj_effect_refs := refs, opj_status := ''settled'', opj_outcome := opj_outcome x\<rparr>) q"
      by blast
    have "?n\<lparr>opj_effect_refs := refs, opj_status := ''settled'', opj_outcome := opj_outcome x\<rparr> = x\<lparr>opj_effect_refs := refs\<rparr>"
      using f(1,2) by (simp add: new_operation_def)
    with q(3) have "sets_operation q2 oid x q" by (simp add: sets_operation_refs)
    then have "sets_operation p oid x q" by (rule sets_operation_trans [OF n2])
    then show ?thesis
      using that [of q] q1(1) q2(2) apply_entry_exact [OF exact2 q(1,2)] part Some q(2)
      by (simp add: opt_row_def apply_all_append)
  qed
qed


text \<open>Two tables hold the same operations when they agree on everything but the references.\<close>

definition same_operation :: "runtime_projection \<Rightarrow> runtime_projection \<Rightarrow> string \<Rightarrow> bool" where
  "same_operation p q oid =
     (\<exists>x refs. map_of (rp_operations p) oid = Some x \<and> map_of (rp_operations q) oid = Some (x\<lparr>opj_effect_refs := refs\<rparr>))"

lemma same_operation_views:
  assumes "same_operation p q oid"
  shows "lane_of (rp_operations q) oid = lane_of (rp_operations p) oid"
    "open_op (rp_operations q) oid = open_op (rp_operations p) oid"
  using assms by (auto simp: same_operation_def lane_of_def open_op_def)

lemma butlast_member: "y \<in> set xs \<Longrightarrow> y \<in> set (butlast (xs @ z # ys))"
  by (simp add: butlast_append)

lemma replay_prefix:
  assumes p: "projection_exact p" and m: "groups_match p g"
  shows "dkeys (rp_operations p) = xs @ ys \<Longrightarrow> list_all2 (\<lambda>oid part. compact_operation g oid = Inr part) xs parts \<Longrightarrow>
    \<exists>q. apply_all empty_projection (concat parts) = Inr q \<and> projection_exact q
      \<and> dkeys (rp_operations q) = xs \<and> (\<forall>oid \<in> set xs. same_operation p q oid)"
proof (induction xs arbitrary: ys parts rule: rev_induct)
  case Nil
  then show ?case using empty_exact by (simp add: empty_projection_def dkeys_def)
next
  case (snoc oid xs)
  from snoc.prems(2) obtain parts' part where parts: "parts = parts' @ [part]"
      "list_all2 (\<lambda>oid part. compact_operation g oid = Inr part) xs parts'" "compact_operation g oid = Inr part"
    by (auto simp: list_all2_append1 list_all2_Cons1)
  from snoc.prems(1) have keys: "dkeys (rp_operations p) = xs @ oid # ys" by simp
  obtain q where q: "apply_all empty_projection (concat parts') = Inr q" "projection_exact q"
      "dkeys (rp_operations q) = xs" "\<forall>oid \<in> set xs. same_operation p q oid"
    using snoc.IH [OF keys parts(2)] by blast
  have fresh: "oid \<notin> set xs" "oid \<noteq> []" "distinct xs" using p keys by (auto simp: projection_exact_def)
  have "has_key oid (rp_operations p)" by (simp add: has_key_iff keys)
  then obtain x where x: "map_of (rp_operations p) oid = Some x" by (auto simp: has_key_def split: option.splits)
  have free: "\<not> open_op (rp_operations q) y" if "y \<in> set (in_lane (rp_operations q) (opj_lane x))" for y
  proof -
    from that have y: "y \<in> set xs" "lane_of (rp_operations q) y = opj_lane x" by (auto simp: in_lane_def q(3))
    note same = same_operation_views [OF q(4) [rule_format, OF y(1)]]
    have "in_lane (rp_operations p) (opj_lane x) =
        filter (\<lambda>z. lane_of (rp_operations p) z = opj_lane x) xs
          @ oid # filter (\<lambda>z. lane_of (rp_operations p) z = opj_lane x) ys"
      using x by (simp add: in_lane_def keys lane_of_def)
    with y same(1) have "y \<in> set (butlast (in_lane (rp_operations p) (opj_lane x)))"
      by (simp only:) (rule butlast_member, simp)
    with p same(2) show ?thesis by (simp add: projection_exact_def lanes_serial_def)
  qed
  have new: "\<not> has_key oid (rp_operations q)" using fresh(1) by (simp add: has_key_iff q(3))
  obtain r where r: "apply_all q part = Inr r" "projection_exact r" "sets_operation q oid x r"
    using replay_operation [OF q(2) groups_matchD(3) [OF m x] parts(3) new fresh(2)] free by blast
  from r(3) new obtain refs where sets: "dkeys (rp_operations r) = xs @ [oid]"
      "map_of (rp_operations r) = (map_of (rp_operations q))(oid \<mapsto> x\<lparr>opj_effect_refs := refs\<rparr>)"
    by (auto simp: sets_operation_def q(3))
  have "\<forall>oid' \<in> set (xs @ [oid]). same_operation p r oid'"
    using q(4) fresh(1) x by (auto simp: same_operation_def sets(2))
  with q(1) r(1,2) sets(1) parts(1) show ?case by (auto simp: apply_all_append)
qed

section \<open>Rebatching\<close>

definition same_row :: "log_entry \<Rightarrow> log_entry \<Rightarrow> bool" where
  "same_row e f = (le_lane f = le_lane e \<and> le_operation_id f = le_operation_id e \<and> le_kind f = le_kind e
     \<and> le_payload f = le_payload e)"

lemma rebatch_row_same: "rebatch_row bid n i e = Inr f \<Longrightarrow> same_row e f"
  unfolding rebatch_row_def
  apply (simp only: log_entry_init_def bind_r_eq_Inr if_Inl_Inr entry_text_Inr entry_readers_Inr split_paired_Ex
      prod.case sum.inject check_batch_Inr pyval.inject)
  apply (elim exE conjE)
  apply hypsubst
  apply (simp add: same_row_def)
  done

lemma rebatch_same:
  assumes "rebatch bid es = Inr fs"
  shows "list_all2 same_row es fs"
proof -
  have rows: "list_all2 (\<lambda>x f. (\<lambda>(i, e). rebatch_row bid (length es) i e) x = Inr f) (enumerate 0 es) fs"
    using assms unfolding rebatch_def map_r_Inr .
  then have len: "length fs = length es" by (simp add: list_all2_conv_all_nth)
  have "same_row (es ! i) (fs ! i)" if "i < length es" for i
    using rows that rebatch_row_same by (fastforce simp: list_all2_conv_all_nth nth_enumerate_eq)
  with len show ?thesis by (simp add: list_all2_conv_all_nth)
qed

lemma same_row_apply: "same_row e f \<Longrightarrow> apply_entry_to p f = apply_entry_to p e"
  unfolding same_row_def apply_entry_to_def apply_started_def apply_recorded_def required_payload_text_def
  by (elim conjE) (simp only:)

lemma same_rows_apply: "list_all2 same_row es fs \<Longrightarrow> apply_all p fs = apply_all p es"
proof (induction arbitrary: p rule: list_all2_induct)
  case (Cons e es f fs)
  then show ?case by (simp add: same_row_apply)
qed simp


section \<open>The latest states\<close>

definition state_entries :: "string \<Rightarrow> log_entry list \<Rightarrow> log_entry list" where
  "state_entries oid es = filter (\<lambda>e. le_kind e = ''operation_state'' \<and> le_operation_id e = oid) es"

lemma latest_operation_filter:
  "latest_operation s r oid lane latest es = latest_operation s r oid lane latest (state_entries oid es)"
proof (induction s r oid lane latest es rule: latest_operation.induct)
  case (2 s r oid lane latest e es)
  show ?case
  proof (cases "le_kind e \<noteq> ''operation_state'' \<or> le_operation_id e \<noteq> oid")
    case True then show ?thesis using "2.IH"(1) by (auto simp: state_entries_def)
  next
    case False
    then have rows: "state_entries oid (e # es) = e # state_entries oid es" by (simp add: state_entries_def)
    show ?thesis
      unfolding rows using "2.IH"(2) False by (auto split: option.splits)
  qed
qed (simp add: state_entries_def)

text \<open>A state that was read from several rows was read from the last of them.\<close>

lemma latest_operation_last:
  assumes "list_all (\<lambda>e. le_kind e = ''operation_state'' \<and> le_operation_id e = oid) rows"
    and "latest_operation s r oid lane latest rows = Inr x" "rows \<noteq> []"
  shows "latest_operation s r oid lane latest' [last rows] = Inr x"
  using assms
proof (induction rows arbitrary: latest)
  case (Cons e rows)
  show ?case
  proof (cases "rows = []")
    case True with Cons.prems show ?thesis by (auto split: if_splits option.splits)
  next
    case False
    from Cons.prems obtain y where "latest_operation s r oid lane (Some y) rows = Inr x"
      by (auto split: if_splits option.splits)
    with Cons.IH Cons.prems(1) False show ?thesis by simp
  qed
qed simp

lemma last_state_kept:
  "map_of (cg_state (collect_compaction_groups es)) oid =
     (if state_entries oid es = [] then None else Some (last (state_entries oid es)))"
proof (induction es rule: rev_induct)
  case Nil
  show ?case by (simp add: collect_compaction_groups_def empty_groups_def state_entries_def)
next
  case (snoc e es)
  have "map_of (cg_state (group_entry g e)) oid =
      (if le_kind e = ''operation_state'' \<and> le_operation_id e = oid then Some e else map_of (cg_state g) oid)" for g
    by (simp add: group_entry_def Let_def)
  with snoc show ?case by (simp add: collect_snoc state_entries_def)
qed

lemma state_entries_concat: "state_entries oid (concat parts) = concat (map (state_entries oid) parts)"
  by (simp add: state_entries_def [abs_def] filter_concat)

lemma compact_operation_states:
  assumes rows: "op_rows g oid' x" and comp: "compact_operation g oid' = Inr part"
  shows "state_entries oid part = (if oid' = oid then opt_row (map_of (cg_state g) oid) else [])"
proof -
  obtain start middle where part: "part = start # middle @ opt_row (map_of (cg_settled g) oid')"
      and start: "record_row ''operation_started'' oid' (opj_lane x) start"
      and mid: "list_all (\<lambda>e. state_row oid' (opj_lane x) e \<or> effect_row oid' (opj_lane x) e) middle"
      and states: "filter (\<lambda>e. le_kind e = ''operation_state'') middle = opt_row (map_of (cg_state g) oid')"
    by (rule compact_operation_form [OF rows comp])
  have no_start: "le_kind start \<noteq> ''operation_state''" using start by (simp add: record_row_def)
  have settled: "state_entries oid (opt_row (map_of (cg_settled g) oid')) = []"
    using rows by (auto simp: op_rows_def opt_row_def state_entries_def record_row_def split: option.splits)
  have ids: "le_operation_id e = oid'" if "e \<in> set middle" for e
    using mid that by (auto simp: list_all_iff state_row_def effect_row_def record_row_def)
  have "state_entries oid middle = (if oid' = oid then opt_row (map_of (cg_state g) oid') else [])"
    unfolding states [symmetric] state_entries_def using ids
    by (cases "oid' = oid") (auto intro!: filter_cong simp: filter_empty_conv)
  with no_start settled show ?thesis by (simp add: part state_entries_def)
qed

lemma concat_single:
  assumes "distinct xs" "list_all2 (\<lambda>k ys. ys = (if k = x then v else [])) xs yss"
  shows "concat yss = (if x \<in> set xs then v else [])"
  using assms(2,1) by (induction rule: list_all2_induct) auto

lemma compacted_states:
  assumes exact: "projection_exact p" and m: "groups_match p g"
    and parts: "list_all2 (\<lambda>oid part. compact_operation g oid = Inr part) (cg_order g) parts"
  shows "state_entries oid (concat parts) = opt_row (map_of (cg_state g) oid)"
proof -
  have keys: "cg_order g = dkeys (rp_operations p)" by (rule groups_matchD(1) [OF m])
  have "list_all2 (\<lambda>oid' rows. rows = (if oid' = oid then opt_row (map_of (cg_state g) oid) else []))
      (cg_order g) (map (state_entries oid) parts)"
    unfolding list_all2_conv_all_nth
  proof (intro conjI allI impI)
    show "length (cg_order g) = length (map (state_entries oid) parts)" using parts by (simp add: list_all2_conv_all_nth)
    fix i assume i: "i < length (cg_order g)"
    then have comp: "compact_operation g (cg_order g ! i) = Inr (parts ! i)" and len: "i < length parts"
      using parts by (simp_all add: list_all2_conv_all_nth)
    have "has_key (cg_order g ! i) (rp_operations p)" using i by (simp add: keys has_key_iff)
    then obtain x where x: "map_of (rp_operations p) (cg_order g ! i) = Some x"
      by (auto simp: has_key_def split: option.splits)
    show "map (state_entries oid) parts ! i = (if cg_order g ! i = oid then opt_row (map_of (cg_state g) oid) else [])"
      using compact_operation_states [OF groups_matchD(3) [OF m x] comp] len by simp
  qed
  then have "concat (map (state_entries oid) parts) = (if oid \<in> set (cg_order g) then opt_row (map_of (cg_state g) oid) else [])"
    using exact by (intro concat_single) (simp_all add: keys projection_exact_def)
  moreover have "map_of (cg_state g) oid = None" if "oid \<notin> set (cg_order g)"
    using groups_matchD(2) [OF m, of oid] that
    by (simp add: keys has_key_iff [symmetric] has_key_def no_rows_def split: option.splits)
  ultimately show ?thesis by (auto simp: state_entries_concat opt_row_def)
qed


lemma same_rows_latest:
  "list_all2 same_row es fs \<Longrightarrow> latest_operation s r oid lane latest fs = latest_operation s r oid lane latest es"
proof (induction arbitrary: latest rule: list_all2_induct)
  case (Cons e es f fs)
  then show ?case by (simp add: same_row_def split: option.split)
qed simp

section \<open>Properties\<close>

lemma compact_entries_parts:
  assumes "compact_entries bid es = Inr es'"
  obtains parts where
    "list_all2 (\<lambda>oid part. compact_operation (collect_compaction_groups es) oid = Inr part)
       (cg_order (collect_compaction_groups es)) parts"
    "list_all2 same_row (concat parts) es'"
  using assms rebatch_same unfolding compact_entries_def Let_def bind_r_eq_Inr map_r_Inr by blast

lemma compacted_lanes:
  assumes p: "projection_exact p" and q: "projection_exact q" and keys: "dkeys (rp_operations q) = dkeys (rp_operations p)"
    and same: "\<forall>oid \<in> set (dkeys (rp_operations p)). same_operation p q oid"
  shows "map_of (rp_lanes q) lane = map_of (rp_lanes p) lane"
proof -
  have lane: "in_lane (rp_operations q) lane = in_lane (rp_operations p) lane"
    by (rule in_lane_same [OF keys]) (simp add: same_operation_views same)
  have opens: "open_op (rp_operations q) oid = open_op (rp_operations p) oid"
    if "oid \<in> set (in_lane (rp_operations p) lane)" for oid
    using that same in_lane_subset same_operation_views(2) by blast
  have "filter (open_op (rp_operations q)) (in_lane (rp_operations p) lane) = filter (open_op (rp_operations p)) (in_lane (rp_operations p) lane)"
      "filter (Not \<circ> open_op (rp_operations q)) (in_lane (rp_operations p) lane)
        = filter (Not \<circ> open_op (rp_operations p)) (in_lane (rp_operations p) lane)"
    by (intro filter_cong refl; simp add: opens)+
  then have "lane_view (rp_operations q) lane = lane_view (rp_operations p) lane" by (simp only: lane_view_def lane)
  with p q show ?thesis by (simp add: projection_exact_def)
qed

text \<open>
  C16: compaction keeps the meaning of a log whose entries stay in the lanes of their
  operations (\<open>log_fits\<close>; the reducer accepts other logs too, whose compaction can be refused).
  Replaying the compacted log succeeds
  whenever replaying the log does; it shows the same lanes and, in the same order, the same
  operations, of which only the list of effect references can be shorter.
\<close>

theorem compaction_keeps_projection:
  assumes "reduce_session es = Inr p" and "log_fits es" and "compact_entries batch_id es = Inr es'"
  shows "\<exists>q. reduce_session es' = Inr q \<and> dkeys (rp_operations q) = dkeys (rp_operations p)
    \<and> (\<forall>oid x. map_of (rp_operations p) oid = Some x \<longrightarrow>
         (\<exists>refs. map_of (rp_operations q) oid = Some (x\<lparr>opj_effect_refs := refs\<rparr>)))
    \<and> (\<forall>lane. map_of (rp_lanes q) lane = map_of (rp_lanes p) lane)"
proof -
  have p: "projection_exact p" and m: "groups_match p (collect_compaction_groups es)"
    using reduce_exact [OF assms(1,2)] groups_match_log [OF assms(1,2)] by blast+
  obtain parts where parts: "list_all2 (\<lambda>oid part. compact_operation (collect_compaction_groups es) oid = Inr part)
       (dkeys (rp_operations p)) parts" "list_all2 same_row (concat parts) es'"
    by (rule compact_entries_parts [OF assms(3), unfolded groups_matchD(1) [OF m]])
  obtain q where q: "reduce_session es' = Inr q" "projection_exact q" "dkeys (rp_operations q) = dkeys (rp_operations p)"
      "\<forall>oid \<in> set (dkeys (rp_operations p)). same_operation p q oid"
    using replay_prefix [OF p m _ parts(1), of "[]"] by (auto simp: reduce_session_def same_rows_apply [OF parts(2)])
  have "\<exists>refs. map_of (rp_operations q) oid = Some (x\<lparr>opj_effect_refs := refs\<rparr>)"
    if "map_of (rp_operations p) oid = Some x" for oid x
  proof -
    have "has_key oid (rp_operations p)" using that by (simp add: has_key_def)
    then have "same_operation p q oid" using q(4) by (simp add: has_key_iff)
    with that show ?thesis by (auto simp: same_operation_def)
  qed
  with q compacted_lanes [OF p q(2-4)] show ?thesis by blast
qed

text \<open>A log in which one run is admitted, works on and is compacted while it is open.\<close>

definition payload_of :: "operation_state \<Rightarrow> jobj" where
  "payload_of s = (case operation_to_payload s of Inr d \<Rightarrow> d | Inl _ \<Rightarrow> [])"

definition run_log :: "log_entry list" where
  "run_log =
     (let lane = op_lane sample_admitted; oid = op_operation_id sample_admitted in
      [started_row lane oid, log_row lane oid ''operation_state'' (payload_of sample_admitted),
       log_row lane oid ''operation_effect'' [(''effect_kind'', PStr ''runtime_effect''), (''ref'', PStr ''r''),
         (''effect_id'', PStr ''f''), (''record_kind'', PStr ''intent'')],
       log_row lane oid ''operation_state'' (payload_of sample_repaired)])"

lemma run_log_code [code]:
  "run_log = [\<lparr>le_session_id = ''s'', le_lane = ''run:aaaaaaaaaaaaaaaaaaaaaaaa'',
     le_operation_id = ''task:aaaaaaaaaaaaaaaaaaaaaaaa'',
     le_kind = ''operation_started'',
     le_payload = [(''operation_kind'', PStr ''task'')],
     le_entry_id = ''e'', le_created_at = 1, le_batch_id = ''b'',
     le_batch_index = 0, le_batch_count = 1, le_schema_version = 1\<rparr>,
     \<lparr>le_session_id = ''s'', le_lane = ''run:aaaaaaaaaaaaaaaaaaaaaaaa'',
     le_operation_id = ''task:aaaaaaaaaaaaaaaaaaaaaaaa'',
     le_kind = ''operation_state'',
     le_payload =
     [(''schema_version'', PInt 6),
     (''kind'', PStr ''runtime_operation_state''),
     (''session_id'', PStr ''s1''), (''run_id'', PStr ''r1''),
     (''operation_id'', PStr ''task:aaaaaaaaaaaaaaaaaaaaaaaa''),
     (''lane'', PStr ''run:aaaaaaaaaaaaaaaaaaaaaaaa''),
     (''project_ref'', PStr ''project:aaaaaaaaaaaaaaaaaaaaaaaa''),
     (''provider_id'', PStr ''p''), (''turn_budget'', PInt 4),
     (''max_repair_rounds'', PInt 1), (''leaf'', PStr ''accepted''),
     (''started_at'', PStr ''t0''), (''updated_at'', PStr ''t0''),
     (''task_kind'', PStr ''project''), (''writer_attempt'', PInt 1),
     (''candidate_validation_attempted'', PBool False),
     (''turns_used'', PInt 0), (''stop_reason'', PStr []),
     (''completion_proof_ref'', PStr []),
     (''completion_proof_status'', PStr []), (''repair_rounds'', PInt 0),
     (''repair_context_ref'', PStr []), (''blocked_reason'', PStr []),
     (''driver'', PStr []), (''turn'', PInt 0), (''tool_index'', PInt 0),
     (''counters'',
     PDict
     [(''invalid_turns'', PInt 0),
     (''length_continuation_used'', PBool False),
     (''closing_round'', PInt 0),
     (''progress'',
     PDict
     [(''limit'', PInt 4), (''seen'', PList []),
     (''attempts'', PList []), (''idle'', PInt 0),
     (''last_batch_id'', PStr [])])]),
     (''logical_turn'', PInt 0)],
     le_entry_id = ''e'', le_created_at = 1, le_batch_id = ''b'',
     le_batch_index = 0, le_batch_count = 1, le_schema_version = 1\<rparr>,
     \<lparr>le_session_id = ''s'', le_lane = ''run:aaaaaaaaaaaaaaaaaaaaaaaa'',
     le_operation_id = ''task:aaaaaaaaaaaaaaaaaaaaaaaa'',
     le_kind = ''operation_effect'',
     le_payload =
     [(''effect_kind'', PStr ''runtime_effect''), (''ref'', PStr ''r''),
     (''effect_id'', PStr ''f''), (''record_kind'', PStr ''intent'')],
     le_entry_id = ''e'', le_created_at = 1, le_batch_id = ''b'',
     le_batch_index = 0, le_batch_count = 1, le_schema_version = 1\<rparr>,
     \<lparr>le_session_id = ''s'', le_lane = ''run:aaaaaaaaaaaaaaaaaaaaaaaa'',
     le_operation_id = ''task:aaaaaaaaaaaaaaaaaaaaaaaa'',
     le_kind = ''operation_state'',
     le_payload =
     [(''schema_version'', PInt 6),
     (''kind'', PStr ''runtime_operation_state''),
     (''session_id'', PStr ''s1''), (''run_id'', PStr ''r1''),
     (''operation_id'', PStr ''task:aaaaaaaaaaaaaaaaaaaaaaaa''),
     (''lane'', PStr ''run:aaaaaaaaaaaaaaaaaaaaaaaa''),
     (''project_ref'', PStr ''project:aaaaaaaaaaaaaaaaaaaaaaaa''),
     (''provider_id'', PStr ''p''), (''turn_budget'', PInt 4),
     (''max_repair_rounds'', PInt 1),
     (''leaf'', PStr ''repair_settled''), (''started_at'', PStr ''t0''),
     (''updated_at'', PStr ''t1''), (''task_kind'', PStr ''project''),
     (''writer_attempt'', PInt 1),
     (''candidate_validation_attempted'', PBool False),
     (''turns_used'', PInt 1), (''stop_reason'', PStr ''done''),
     (''completion_proof_ref'',
     PStr ''completion_proof:0000000000000000''),
     (''completion_proof_status'', PStr ''failed''),
     (''repair_rounds'', PInt 1),
     (''repair_context_ref'',
     PStr
     ''sha256:aaaaaaaaaaaaaaaaaaaaaaaaaaaaaaaaaaaaaaaaaaaaaaaaaaaaaaaaaaaaaaaa''),
     (''blocked_reason'', PStr []), (''driver'', PStr []),
     (''turn'', PInt 0), (''tool_index'', PInt 0),
     (''counters'',
     PDict
     [(''invalid_turns'', PInt 0),
     (''length_continuation_used'', PBool False),
     (''closing_round'', PInt 0),
     (''progress'',
     PDict
     [(''limit'', PInt 4), (''seen'', PList []),
     (''attempts'', PList []), (''idle'', PInt 0),
     (''last_batch_id'', PStr [])])]),
     (''logical_turn'', PInt 0)],
     le_entry_id = ''e'', le_created_at = 1, le_batch_id = ''b'',
     le_batch_index = 0, le_batch_count = 1, le_schema_version = 1\<rparr>]"
  by code_simp

definition run_projection :: runtime_projection where
  "run_projection = (case reduce_session run_log of Inr p \<Rightarrow> p | Inl _ \<Rightarrow> empty_projection)"

lemma run_projection_code [code]:
  "run_projection = \<lparr>rp_lanes =
     [(''run:aaaaaaaaaaaaaaaaaaaaaaaa'',
     \<lparr>lp_name = ''run:aaaaaaaaaaaaaaaaaaaaaaaa'',
     lp_open = ''task:aaaaaaaaaaaaaaaaaaaaaaaa'', lp_settled = []\<rparr>)],
     rp_operations =
     [(''task:aaaaaaaaaaaaaaaaaaaaaaaa'',
     \<lparr>opj_operation_id = ''task:aaaaaaaaaaaaaaaaaaaaaaaa'',
     opj_lane = ''run:aaaaaaaaaaaaaaaaaaaaaaaa'', opj_kind = ''task'',
     opj_status = ''open'', opj_outcome = [],
     opj_effect_refs = [''r'']\<rparr>)]\<rparr>"
  by code_simp

definition run_compacted :: "log_entry list" where
  "run_compacted = (case compact_entries ''batch-1'' run_log of Inr es \<Rightarrow> es | Inl _ \<Rightarrow> [])"

lemma run_compacted_code [code]:
  "run_compacted = [\<lparr>le_session_id = ''s'', le_lane = ''run:aaaaaaaaaaaaaaaaaaaaaaaa'',
     le_operation_id = ''task:aaaaaaaaaaaaaaaaaaaaaaaa'',
     le_kind = ''operation_started'',
     le_payload = [(''operation_kind'', PStr ''task'')],
     le_entry_id = ''e'', le_created_at = 1, le_batch_id = ''batch-1'',
     le_batch_index = 0, le_batch_count = 3, le_schema_version = 1\<rparr>,
     \<lparr>le_session_id = ''s'', le_lane = ''run:aaaaaaaaaaaaaaaaaaaaaaaa'',
     le_operation_id = ''task:aaaaaaaaaaaaaaaaaaaaaaaa'',
     le_kind = ''operation_state'',
     le_payload =
     [(''schema_version'', PInt 6),
     (''kind'', PStr ''runtime_operation_state''),
     (''session_id'', PStr ''s1''), (''run_id'', PStr ''r1''),
     (''operation_id'', PStr ''task:aaaaaaaaaaaaaaaaaaaaaaaa''),
     (''lane'', PStr ''run:aaaaaaaaaaaaaaaaaaaaaaaa''),
     (''project_ref'', PStr ''project:aaaaaaaaaaaaaaaaaaaaaaaa''),
     (''provider_id'', PStr ''p''), (''turn_budget'', PInt 4),
     (''max_repair_rounds'', PInt 1),
     (''leaf'', PStr ''repair_settled''), (''started_at'', PStr ''t0''),
     (''updated_at'', PStr ''t1''), (''task_kind'', PStr ''project''),
     (''writer_attempt'', PInt 1),
     (''candidate_validation_attempted'', PBool False),
     (''turns_used'', PInt 1), (''stop_reason'', PStr ''done''),
     (''completion_proof_ref'',
     PStr ''completion_proof:0000000000000000''),
     (''completion_proof_status'', PStr ''failed''),
     (''repair_rounds'', PInt 1),
     (''repair_context_ref'',
     PStr
     ''sha256:aaaaaaaaaaaaaaaaaaaaaaaaaaaaaaaaaaaaaaaaaaaaaaaaaaaaaaaaaaaaaaaa''),
     (''blocked_reason'', PStr []), (''driver'', PStr []),
     (''turn'', PInt 0), (''tool_index'', PInt 0),
     (''counters'',
     PDict
     [(''invalid_turns'', PInt 0),
     (''length_continuation_used'', PBool False),
     (''closing_round'', PInt 0),
     (''progress'',
     PDict
     [(''limit'', PInt 4), (''seen'', PList []),
     (''attempts'', PList []), (''idle'', PInt 0),
     (''last_batch_id'', PStr [])])]),
     (''logical_turn'', PInt 0)],
     le_entry_id = ''e'', le_created_at = 1, le_batch_id = ''batch-1'',
     le_batch_index = 1, le_batch_count = 3, le_schema_version = 1\<rparr>,
     \<lparr>le_session_id = ''s'', le_lane = ''run:aaaaaaaaaaaaaaaaaaaaaaaa'',
     le_operation_id = ''task:aaaaaaaaaaaaaaaaaaaaaaaa'',
     le_kind = ''operation_effect'',
     le_payload =
     [(''effect_kind'', PStr ''runtime_effect''), (''ref'', PStr ''r''),
     (''effect_id'', PStr ''f''), (''record_kind'', PStr ''intent'')],
     le_entry_id = ''e'', le_created_at = 1, le_batch_id = ''batch-1'',
     le_batch_index = 2, le_batch_count = 3, le_schema_version = 1\<rparr>]"
  by code_simp

lemma computed_value:
  "(case r of Inl _ \<Rightarrow> False | Inr x \<Rightarrow> P x) \<Longrightarrow> r = Inr (case r of Inl _ \<Rightarrow> d | Inr x \<Rightarrow> x) \<and> P (case r of Inl _ \<Rightarrow> d | Inr x \<Rightarrow> x)"
  by (cases r) simp_all

lemma run_log_ok: "reduce_session run_log = Inr run_projection" "log_fits run_log"
  by code_simp+

lemma run_log_compacts: "compact_entries ''batch-1'' run_log = Inr run_compacted \<and> length run_compacted = 3"
  unfolding run_compacted_def by (rule computed_value) code_simp

theorem compaction_keeps_projection_witness:
  "length run_log = 4 \<and> length run_compacted = 3
   \<and> (\<exists>q. reduce_session run_compacted = Inr q \<and> dkeys (rp_operations q) = dkeys (rp_operations run_projection))"
proof -
  have "length run_log = 4" by (simp add: run_log_def Let_def)
  with compaction_keeps_projection [OF run_log_ok run_log_compacts [THEN conjunct1]] run_log_compacts
  show ?thesis by blast
qed

text \<open>
  C25: an operation is recovered from the compacted log as it is from the log, in its latest
  state, for a log whose entries stay in the lanes of their operations.
\<close>

theorem compaction_keeps_states:
  assumes "reduce_session es = Inr p" and "log_fits es" and "compact_entries batch_id es = Inr es'"
    and "operation_state_from_entries sha256 es session_id run_id = Inr found"
  shows "operation_state_from_entries sha256 es' session_id run_id = Inr found"
proof -
  let ?oid = "operation_id_for_run sha256 run_id" and ?lane = "lane_for_run sha256 run_id"
  let ?g = "collect_compaction_groups es"
  have p: "projection_exact p" and m: "groups_match p ?g"
    using reduce_exact [OF assms(1,2)] groups_match_log [OF assms(1,2)] by blast+
  obtain parts where parts: "list_all2 (\<lambda>oid part. compact_operation ?g oid = Inr part) (cg_order ?g) parts"
      "list_all2 same_row (concat parts) es'"
    by (rule compact_entries_parts [OF assms(3)])
  have old: "latest_operation session_id run_id ?oid ?lane None (state_entries ?oid es) = Inr found"
    using assms(4) by (simp add: operation_state_from_entries_def latest_operation_filter [of _ _ _ _ _ es])
  have rows: "list_all (\<lambda>e. le_kind e = ''operation_state'' \<and> le_operation_id e = ?oid) (state_entries ?oid es)"
    by (simp add: state_entries_def list_all_iff)
  have "latest_operation session_id run_id ?oid ?lane None (opt_row (map_of (cg_state ?g) ?oid)) = Inr found"
  proof (cases "state_entries ?oid es = []")
    case True with old show ?thesis by (simp add: last_state_kept opt_row_def)
  next
    case False
    then show ?thesis
      using latest_operation_last [OF rows old False] by (simp only: last_state_kept opt_row_def if_False option.case)
  qed
  then show ?thesis
    using latest_operation_filter [of session_id run_id ?oid ?lane None "concat parts"]
    by (simp add: operation_state_from_entries_def same_rows_latest [OF parts(2)] compacted_states [OF p m parts(1)])
qed


lemma run_log_latest:
  "operation_state_from_entries sample_digest run_log ''s1'' ''r1'' = Inr (Some sample_repaired)"
  by code_simp

theorem compaction_keeps_states_witness:
  "operation_state_from_entries sample_digest run_compacted ''s1'' ''r1'' = Inr (Some sample_repaired)"
  by (rule compaction_keeps_states [OF run_log_ok run_log_compacts [THEN conjunct1] run_log_latest])

end
