(* ===== verification/Session_Core.thy ===== *)
theory Session_Core
  imports Store_Progress Provider_Response
begin

text \<open>
  The core of \<^verbatim>\<open>codey/durable/session.py\<close>: the session object over the store, its
  failure latch, and \<open>_commit\<close>, with the pure helpers it folds into a mutation
  (\<^verbatim>\<open>approval_transition.py\<close>, \<^verbatim>\<open>reducer.py\<close>,
  \<^verbatim>\<open>effects.py\<close>). The write lock makes every operation one step.
\<close>

section \<open>Folding approvals and effects into a checkpoint\<close>

definition materialize_approval :: "durable_mutation \<Rightarrow> approval_record \<Rightarrow> task_checkpoint \<Rightarrow> durable_mutation result" where
  "materialize_approval m approval current =
     (if tc_conversation_id current \<noteq> dm_conversation_id m
      then Inl (CommitConflict ''approval conversation boundary mismatch'')
      else (case thaw_json (pget_default (tc_state current) ''approvals'' (PDict [])) of
          PDict raw \<Rightarrow>
            bind_r (case as_mapping (pget raw (apr_approval_id approval)) of
                None \<Rightarrow> Inr None
              | Some d \<Rightarrow> bind_r (approval_from_payload d) (\<lambda>a. Inr (Some a))) (\<lambda>existing.
            bind_r (case existing of
                None \<Rightarrow>
                  if apr_revision approval \<noteq> 0 \<or> apr_status approval \<noteq> Requested
                  then Inl (CommitConflict ''new approval must start as requested revision zero'')
                  else raise_if (dm_expected_approval_status m \<noteq> None)
                         (CommitConflict ''new approval cannot have an expected status'')
              | Some old \<Rightarrow>
                  if dm_expected_approval_status m \<noteq> Some (apr_status old)
                  then Inl (CommitConflict ''approval status changed'')
                  else if apr_revision approval \<noteq> apr_revision old + 1
                  then Inl (CommitConflict ''approval revision changed'')
                  else if apr_status old \<noteq> apr_status approval
                          \<and> \<not> valid_approval_transition (Some (apr_status old)) (apr_status approval)
                  then Inl (CommitConflict (''invalid approval transition: '' @ approval_status_value (apr_status old)
                              @ '' -> '' @ approval_status_value (apr_status approval)))
                  else raise_if (apr_task_id approval \<noteq> apr_task_id old
                           \<or> apr_conversation_id approval \<noteq> apr_conversation_id old
                           \<or> apr_command_digest approval \<noteq> apr_command_digest old
                           \<or> apr_command_ref approval \<noteq> apr_command_ref old
                           \<or> apr_cwd approval \<noteq> apr_cwd old)
                         (CommitConflict ''approval identity is immutable'')) (\<lambda>_.
            let approvals = PDict (dset (apr_approval_id approval) (PDict (approval_to_payload approval)) raw) in
            bind_r (case dm_task m of
                None \<Rightarrow> task_replace (current\<lparr>tc_revision := tc_revision current + 1,
                          tc_state := dset ''approvals'' approvals (thaw_obj (tc_state current))\<rparr>)
              | Some proposed \<Rightarrow> task_replace (proposed\<lparr>
                          tc_state := dset ''approvals'' approvals (thaw_obj (tc_state proposed))\<rparr>)) (\<lambda>task.
            durable_mutation_init (m\<lparr>dm_task := Some task, dm_approval := None,
              dm_expected_approval_status := None\<rparr>))))
        | _ \<Rightarrow> Inl (CommitConflict ''task approval state is corrupt'')))"

text \<open>\<open>state.get("pending_effect_ids", [])\<close> of a thawed state, iterated.\<close>

definition pending_ids :: "jobj \<Rightarrow> pyval list result" where
  "pending_ids state =
     (case map_of state ''pending_effect_ids'' of
        None \<Rightarrow> Inr []
      | Some (PList ids) \<Rightarrow> Inr ids
      | Some v \<Rightarrow> Inl (TypeError ''pending_effect_ids is not iterable''))"

definition add_pending :: "effect_record list \<Rightarrow> pyval list \<Rightarrow> pyval list" where
  "add_pending effects pending =
     foldl (\<lambda>ids e. if PStr (ef_effect_id e) \<in> set ids then ids else ids @ [PStr (ef_effect_id e)]) pending effects"

definition last_pending :: "pyval list \<Rightarrow> string option" where
  "last_pending ids = (if ids = [] then None else as_str (last ids))"

definition with_effect_intents :: "task_checkpoint \<Rightarrow> effect_record list \<Rightarrow> task_checkpoint result" where
  "with_effect_intents current effects =
     (if effects = [] \<or> list_ex (\<lambda>e. ef_task_id e \<noteq> tc_task_id current \<or> ef_status e \<noteq> ''pending''
            \<or> ef_settlement e \<noteq> None) effects
      then Inl (ValueError ''effect intents must be pending and belong to the task'')
      else if tc_phase current \<noteq> ''running'' \<or> tc_status current \<notin> set [Running, Waiting]
              \<or> (truthy (pget (tc_state current) ''cancel_requested'') \<and> \<not> cancellation_receipts_only current effects)
      then Inl (CommitConflict ''task does not admit new external effects'')
      else
      let state = thaw_obj (tc_state current) in
      bind_r (pending_ids state) (\<lambda>ids.
      let pending = add_pending effects ids in
      task_replace (current\<lparr>tc_revision := tc_revision current + 1,
        tc_state := dset ''pending_effect_ids'' (PList pending) state,
        tc_pending_effect_id := last_pending pending\<rparr>)))"

definition with_effect_settlement :: "task_checkpoint \<Rightarrow> effect_record \<Rightarrow> task_checkpoint result" where
  "with_effect_settlement current e =
     (if ef_task_id e \<noteq> tc_task_id current \<or> ef_settlement e = None \<or> ef_status e = ''pending''
      then Inl (ValueError ''effect settlement requires a terminal outcome belonging to the task'')
      else
      let state = thaw_obj (tc_state current) in
      bind_r (pending_ids state) (\<lambda>ids.
      let pending = filter (\<lambda>i. i \<noteq> PStr (ef_effect_id e)) ids in
      task_replace (current\<lparr>tc_revision := tc_revision current + 1,
        tc_state := dset ''pending_effect_ids'' (PList pending) state,
        tc_pending_effect_id := last_pending pending\<rparr>)))"

definition interrupted_effect :: "task_checkpoint \<Rightarrow> effect_record \<Rightarrow> effect_record result" where
  "interrupted_effect task e =
     (if \<not> nonempty_str (pget (ef_intent e) ''lane'') \<or> \<not> nonempty_str (pget (ef_intent e) ''operation_id'')
      then Inl (ValueError ''durable effect identity must be canonical before recovery'')
      else
      bind_r (str_or (pget (ef_intent e) ''session_id'') (tc_conversation_id task)) (\<lambda>session_id.
      bind_r (str_or (pget (ef_intent e) ''run_id'') (tc_task_id task)) (\<lambda>run_id.
      effect_record_init (e\<lparr>ef_status := ''interrupted'', ef_settlement := Some
        [(''schema_version'', PInt 1), (''effect_kind'', PStr ''runtime_effect''),
         (''record_kind'', PStr ''settlement''), (''ref'', PStr (''effect_settlement:'' @ ef_effect_id e)),
         (''effect_id'', PStr (ef_effect_id e)), (''effect_category'', PStr (ef_category e)),
         (''session_id'', PStr session_id), (''run_id'', PStr run_id),
         (''lane'', pget (ef_intent e) ''lane''), (''operation_id'', pget (ef_intent e) ''operation_id''),
         (''status'', PStr ''interrupted''), (''error_code'', PStr ''interrupted_by_crash''),
         (''sent_state'', PStr (if ef_category e = ''provider_send'' then ''maybe_sent'' else ''settled'')),
         (''replay_class'', PStr (ef_replay_class e))]\<rparr>))))"

section \<open>The session\<close>

record session =
  ss_store :: store
  ss_owner_id :: string
  ss_sealed :: bool
  ss_closed :: bool
  ss_failure :: "py_error option"

text \<open>
  What an operation reads from its surroundings: the clock at the commit with a given
  sequence number, the uuids drawn before that commit, the process, the execution binding
  of the calling context, the liveness of a process, the digest of a workflow, what the internal
  commit listeners raise, if anything, the stored files, the JSON text of a value, its JSON
  text with sorted keys, and the SHA-256 of a text.
\<close>

record session_env =
  en_now :: "int \<Rightarrow> string"
  en_uuid :: "int \<Rightarrow> nat \<Rightarrow> string"
  en_process :: int
  en_bound :: "(string \<times> string) option"
  en_alive :: "pyval \<Rightarrow> bool"
  en_digest :: "string \<Rightarrow> int \<Rightarrow> jobj \<Rightarrow> jobj \<Rightarrow> string"
  en_publish :: "commit_result \<Rightarrow> durable_mutation \<Rightarrow> py_error option"
  en_files :: "string \<Rightarrow> stored_file option"
  en_dumps :: "pyval \<Rightarrow> string"
  en_canonical :: "pyval \<Rightarrow> string"
  en_sha256 :: "string \<Rightarrow> string"

definition new_session :: "string \<Rightarrow> store \<Rightarrow> session" where
  "new_session uuid st =
     \<lparr>ss_store = st, ss_owner_id = ''owner-'' @ uuid, ss_sealed = False, ss_closed = False, ss_failure = None\<rparr>"

definition ensure_usable :: "(session, unit) action" where
  "ensure_usable = read_s (\<lambda>s.
     if ss_failure s \<noteq> None then Inl (SessionFailedError ''durable session failed; close and reopen it'')
     else if ss_sealed s
     then Inl (SessionSealedError ''durable session is sealed after a storage failure; reopen it'')
     else raise_if (ss_closed s) (SessionSealedError ''durable session is closed; reopen it''))"

text \<open>The decorator \<open>_mutation_line\<close>.\<close>

definition mutation_line :: "(session, 'a) action \<Rightarrow> (session, 'a) action" where
  "mutation_line body = bind_s ensure_usable (\<lambda>_. body)"

definition reads :: "(store \<Rightarrow> 'a result) \<Rightarrow> (session, 'a) action" where
  "reads f = read_s (\<lambda>s. f (ss_store s))"

definition on_store :: "(store, 'a) action \<Rightarrow> (session, 'a) action" where
  "on_store f s = (let (r, st) = f (ss_store s) in (r, s\<lparr>ss_store := st\<rparr>))"

definition fail_session :: "py_error \<Rightarrow> session \<Rightarrow> session" where
  "fail_session e s = (if ss_failure s = None then s\<lparr>ss_failure := Some e, ss_sealed := True\<rparr> else s)"

definition publish_commit :: "session_env \<Rightarrow> commit_result \<Rightarrow> durable_mutation \<Rightarrow> (session, unit) action" where
  "publish_commit env result m s =
     (if cres_record result = None then (Inr (), s)
      else (case en_publish env result m of None \<Rightarrow> (Inr (), s) | Some e \<Rightarrow> (Inl e, fail_session e s)))"

fun caller_error :: "py_error \<Rightarrow> bool" where
  "caller_error (CommitConflict _) = True"
| "caller_error (IdempotencyConflict _) = True"
| "caller_error (KeyError _) = True"
| "caller_error (TypeError _) = True"
| "caller_error (ValueError _) = True"
| "caller_error _ = False"

text \<open>The two \<open>except\<close> clauses of \<open>_commit\<close>.\<close>

definition latching :: "(session, 'a) action \<Rightarrow> (session, 'a) action" where
  "latching body s =
     (case body s of
        (Inl e, s') \<Rightarrow> (Inl e, if caller_error e then s' else fail_session e s')
      | (Inr x, s') \<Rightarrow> (Inr x, s'))"

definition materialized :: "store \<Rightarrow> durable_mutation \<Rightarrow> durable_mutation result" where
  "materialized st m =
     (case dm_approval m of
        None \<Rightarrow> Inr m
      | Some a \<Rightarrow> bind_r (store_task st (apr_task_id a)) (\<lambda>current. materialize_approval m a current))"

text \<open>The attempt token that the calling context vouches for.\<close>

definition vouched_token :: "session_env \<Rightarrow> string \<Rightarrow> string \<Rightarrow> task_checkpoint \<Rightarrow> string" where
  "vouched_token env owner task_id current =
     (if tc_phase current \<in> set [''cancelled'', ''failed'', ''completed''] \<and> attempt_token current = [] then []
      else if (case en_bound env of None \<Rightarrow> False | Some b \<Rightarrow> fst b = task_id) then snd (the (en_bound env))
      else if pget (tc_state current) ''attempt_owner'' = PStr owner then attempt_token current else [])"

definition fenced :: "session_env \<Rightarrow> session \<Rightarrow> durable_mutation \<Rightarrow> durable_mutation result" where
  "fenced env s m =
     (case (dm_task m, dm_expected_attempt_token m) of
        (Some t, None) \<Rightarrow>
          (case store_task (ss_store s) (tc_task_id t) of
             Inl _ \<Rightarrow> Inr m
           | Inr current \<Rightarrow>
               durable_mutation_init (m\<lparr>dm_expected_attempt_token :=
                 Some (vouched_token env (ss_owner_id s) (tc_task_id t) current)\<rparr>))
      | _ \<Rightarrow> Inr m)"

definition session_commit :: "session_env \<Rightarrow> durable_mutation \<Rightarrow> (session, commit_result) action" where
  "session_commit env m = mutation_line (latching (
     bind_s (reads (\<lambda>st. materialized st m)) (\<lambda>m1.
     bind_s (read_s (\<lambda>s. fenced env s m1)) (\<lambda>m2.
     bind_s (on_store (\<lambda>st. commit (en_now env (st_sequence st)) m2 st)) (\<lambda>result.
     bind_s (publish_commit env result m2) (\<lambda>_. return_s result))))))"

text \<open>\<open>self._commit(DurableMutation(...))\<close>: the constructor runs first.\<close>

definition commit_mutation :: "session_env \<Rightarrow> durable_mutation \<Rightarrow> (session, commit_result) action" where
  "commit_mutation env m = bind_s (read_s (\<lambda>_. durable_mutation_init m)) (session_commit env)"

definition transact_task ::
  "session_env \<Rightarrow> string \<Rightarrow> (task_checkpoint \<Rightarrow> effect_record list \<Rightarrow> int \<Rightarrow> durable_mutation option result)
    \<Rightarrow> (session, commit_result option) action" where
  "transact_task env task_id derive = mutation_line (
     bind_s (reads (\<lambda>st. store_task st task_id)) (\<lambda>current.
     bind_s (reads (\<lambda>st. store_head st (tc_conversation_id current))) (\<lambda>(head, revision).
     bind_s (reads (\<lambda>st. derive current (effects_for_task st task_id) revision)) (\<lambda>derived.
     case derived of
       None \<Rightarrow> return_s None
     | Some m \<Rightarrow>
         bind_s (read_s (\<lambda>_. raise_if
           ((case dm_task m of None \<Rightarrow> True
               | Some t \<Rightarrow> tc_task_id t \<noteq> task_id \<or> tc_revision t \<noteq> tc_revision current + 1)
            \<or> dm_expected_revision m \<noteq> revision)
           (ValueError ''task transaction must advance its captured checkpoint''))) (\<lambda>_.
         bind_s (session_commit env m) (\<lambda>r. return_s (Some r)))))))"

end
