(* ===== verification/Session_Tasks.thy ===== *)
theory Session_Tasks
  imports Session_Core
begin

text \<open>
  The operations of \<^verbatim>\<open>codey/durable/session.py\<close> on tasks, effects and approvals.
  Each reads the store, derives one mutation and commits it; the compound ones do so
  repeatedly.
\<close>

section \<open>Shared steps\<close>

definition read_task :: "string \<Rightarrow> (session, task_checkpoint) action" where
  "read_task task_id = reads (\<lambda>st. store_task st task_id)"

definition head_revision :: "string \<Rightarrow> (session, int) action" where
  "head_revision cid = reads (\<lambda>st. bind_r (store_head st cid) (\<lambda>h. Inr (snd h)))"

definition raising :: "'a result \<Rightarrow> (session, 'a) action" where
  "raising r = read_s (\<lambda>_. r)"

text \<open>\<open>CommitResult(revision, self.store.commit_sequence())\<close>.\<close>

definition unchanged_result :: "int \<Rightarrow> (session, commit_result) action" where
  "unchanged_result revision = reads (\<lambda>st. Inr
     \<lparr>cres_revision = revision, cres_sequence = commit_sequence st, cres_submission_id = None, cres_record = None\<rparr>)"

definition terminal_task :: "task_checkpoint \<Rightarrow> bool" where
  "terminal_task t = (tc_status t \<in> set [Completed, Failed, Cancelled])"

definition release_attempt_state :: "jobj \<Rightarrow> jobj" where
  "release_attempt_state state =
     dset ''attempt_process_id'' (PInt 0) (dset ''attempt_owner'' (PStr []) (dset ''attempt_token'' (PStr []) state))"

text \<open>A mutation that only carries the next checkpoint of a task.\<close>

definition task_mutation :: "task_checkpoint \<Rightarrow> int \<Rightarrow> durable_mutation" where
  "task_mutation t revision = (empty_mutation (tc_conversation_id t) revision)\<lparr>dm_task := Some t\<rparr>"

definition commit_task :: "session_env \<Rightarrow> task_checkpoint \<Rightarrow> string option \<Rightarrow> (session, commit_result) action" where
  "commit_task env t expected =
     bind_s (head_revision (tc_conversation_id t)) (\<lambda>revision.
     commit_mutation env ((task_mutation t revision)\<lparr>dm_expected_attempt_token := expected\<rparr>))"

text \<open>The same with the head read before the next checkpoint is constructed.\<close>

definition commit_replaced ::
  "session_env \<Rightarrow> task_checkpoint \<Rightarrow> task_checkpoint result \<Rightarrow> string option \<Rightarrow> (session, commit_result) action" where
  "commit_replaced env current next_task expected =
     bind_s (head_revision (tc_conversation_id current)) (\<lambda>revision.
     bind_s (raising next_task) (\<lambda>t.
     commit_mutation env ((task_mutation t revision)\<lparr>dm_expected_attempt_token := expected\<rparr>)))"

definition submission_update_of ::
  "submission_record \<Rightarrow> string \<Rightarrow> submission_status \<Rightarrow> string option \<Rightarrow> string option \<Rightarrow> submission_update" where
  "submission_update_of r cid status answer reason =
     \<lparr>su_submission_id = sr_submission_id r, su_conversation_id = cid, su_expected_status = sr_status r,
      su_status = status, su_answer_entry_id = answer, su_reason = reason, su_detail = None,
      su_input_entry_id = None, su_placement = None, su_content = None, su_mode = None\<rparr>"

section \<open>Conversations and task state\<close>

definition session_create_conversation :: "session_env \<Rightarrow> string \<Rightarrow> (session, commit_result) action" where
  "session_create_conversation env cid = mutation_line (
     bind_s (reads (\<lambda>st. Inr (has_conversation st cid))) (\<lambda>known.
     if known then bind_s (head_revision cid) unchanged_result
     else
     bind_s (raising (create_conversation_init
         \<lparr>cc_parent_conversation_id = None, cc_parent_entry_id = None\<rparr>)) (\<lambda>creation.
     commit_mutation env ((empty_mutation cid 0)\<lparr>dm_create_conversation := Some creation\<rparr>))))"

definition update_task_state ::
  "session_env \<Rightarrow> string \<Rightarrow> jobj \<Rightarrow> int option \<Rightarrow> (session, commit_result) action" where
  "update_task_state env task_id state expected_revision = mutation_line (
     bind_s (read_task task_id) (\<lambda>current.
     if expected_revision \<noteq> None \<and> expected_revision \<noteq> Some (tc_revision current)
     then raising (Inl (CommitConflict ''task revision changed''))
     else
     commit_replaced env current (task_replace (current\<lparr>tc_revision := tc_revision current + 1,
         tc_state := dupdate state (tc_state current)\<rparr>)) (Some (attempt_token current))))"

definition record_immutable_task_state ::
  "session_env \<Rightarrow> string \<Rightarrow> string \<Rightarrow> jobj \<Rightarrow> string \<Rightarrow> (session, commit_result) action" where
  "record_immutable_task_state env task_id key value conflict_message = mutation_line (
     bind_s (read_task task_id) (\<lambda>current.
     let state = thaw_obj (tc_state current) in
     if pget state key \<noteq> PNone
     then (if (case as_mapping (pget state key) of None \<Rightarrow> True | Some d \<Rightarrow> \<not> obj_eq d value)
           then raising (Inl (CommitConflict conflict_message))
           else return_s \<lparr>cres_revision = tc_revision current, cres_sequence = 0,
                          cres_submission_id = None, cres_record = None\<rparr>)
     else
     commit_replaced env current (task_replace (current\<lparr>tc_revision := tc_revision current + 1,
         tc_state := dset key (PDict value) state\<rparr>)) None))"

definition record_task_policy :: "session_env \<Rightarrow> string \<Rightarrow> jobj \<Rightarrow> (session, commit_result) action" where
  "record_task_policy env task_id policy = mutation_line (
     record_immutable_task_state env task_id ''task_policy'' policy ''task authorization snapshot is immutable'')"

definition record_reviewer_selection :: "session_env \<Rightarrow> string \<Rightarrow> jobj \<Rightarrow> (session, commit_result) action" where
  "record_reviewer_selection env task_id selection = mutation_line (
     record_immutable_task_state env task_id ''reviewer_selection'' selection ''reviewer selection is immutable'')"

section \<open>Attempts\<close>

definition claim_task :: "session_env \<Rightarrow> string \<Rightarrow> (session, commit_result) action" where
  "claim_task env task_id = mutation_line (
     bind_s (read_task task_id) (\<lambda>current.
     if tc_status current \<noteq> Pending
     then raising (Inl (ValueError (''task is not pending: '' @ task_status_value (tc_status current))))
     else if tc_phase current \<in> set [''completed'', ''failed'', ''cancelled'']
     then raising (Inl (ValueError (''task is not dispatchable: '' @ tc_phase current)))
     else (case as_int (pget_default (tc_state current) ''attempt_number'' (PInt 0)) of
         None \<Rightarrow> raising (Inl (ValueError ''invalid task attempt number''))
       | Some attempt \<Rightarrow>
           bind_s (read_s (\<lambda>s. task_replace (current\<lparr>
             tc_phase := (if tc_phase current = ''accepted'' then ''dispatching'' else tc_phase current),
             tc_revision := tc_revision current + 1,
             tc_state := dupdate
               [(''attempt_number'', PInt (attempt + 1)), (''attempt_owner'', PStr (ss_owner_id s)),
                (''attempt_token'', PStr (''attempt-'' @ en_uuid env (st_sequence (ss_store s)) 0)),
                (''attempt_process_id'', PInt (en_process env))] (tc_state current),
             tc_status := Running\<rparr>))) (\<lambda>t.
           commit_task env t (Some (attempt_token current))))))"

definition unclaim_task :: "session_env \<Rightarrow> string \<Rightarrow> (session, commit_result) action" where
  "unclaim_task env task_id = mutation_line (
     bind_s (read_task task_id) (\<lambda>current.
     if tc_status current \<noteq> Running
     then raising (Inl (ValueError (''task is not running: '' @ task_status_value (tc_status current))))
     else
     bind_s (raising (task_replace (current\<lparr>
         tc_phase := (if tc_phase current = ''dispatching'' then ''accepted'' else tc_phase current),
         tc_revision := tc_revision current + 1,
         tc_state := release_attempt_state (tc_state current), tc_status := Pending\<rparr>))) (\<lambda>t.
     commit_task env t None)))"

section \<open>Steps of a task\<close>

definition EXECUTION_STATE_KEYS :: "string list" where
  "EXECUTION_STATE_KEYS =
     [''attempt_token'', ''attempt_owner'', ''attempt_process_id'', ''attempt_number'', ''input_state'',
      ''question'', ''resume_input'', ''resume_entry_id'']"

text \<open>The state of the next checkpoint: the keys that the runtime owns keep their values.\<close>

definition merged_state :: "session_env \<Rightarrow> task_checkpoint \<Rightarrow> jobj \<Rightarrow> jobj" where
  "merged_state env current state =
     (let owned = filter (\<lambda>k. has_key k (tc_state current))
            (EXECUTION_STATE_KEYS @ [''operation'', ''delivery_batches'', ''approvals'']);
          merged = dupdate (map (\<lambda>k. (k, pget (tc_state current) k)) owned) (dupdate state (tc_state current))
      in case (workflow_name current, as_mapping (pget merged ''workflow_checkpoint'')) of
           (Some name, Some checkpoint) \<Rightarrow>
             let version = (case as_int (pget merged ''workflow_version'') of
                   None \<Rightarrow> workflow_version current | Some n \<Rightarrow> n)
             in dset ''workflow_replay_digest''
                  (PStr (en_digest env name version (workflow_input current) checkpoint)) merged
         | _ \<Rightarrow> merged)"

definition answer_entry :: "string \<Rightarrow> string \<Rightarrow> string option \<Rightarrow> string \<Rightarrow> string \<Rightarrow> entry_draft" where
  "answer_entry uuid cid parent task_id answer =
     \<lparr>ed_entry_id = ''entry-'' @ uuid, ed_conversation_id = cid, ed_parent_id = parent,
      ed_kind = ''assistant_message'', ed_payload = [(''text'', PStr answer)], ed_commit_seq = 0,
      ed_by_task_id = Some task_id\<rparr>"

definition answer_entries ::
  "session_env \<Rightarrow> string \<Rightarrow> string option \<Rightarrow> string \<Rightarrow> string option \<Rightarrow> (session, entry_draft list) action" where
  "answer_entries env cid parent task_id answer =
     (case answer of
        None \<Rightarrow> return_s []
      | Some a \<Rightarrow> read_s (\<lambda>s. bind_r
          (entry_draft_init (answer_entry (en_uuid env (st_sequence (ss_store s)) 0) cid parent task_id a))
          (\<lambda>e. Inr [e])))"

definition advance_task ::
  "session_env \<Rightarrow> string \<Rightarrow> string \<Rightarrow> jobj \<Rightarrow> string option \<Rightarrow> submission_status option \<Rightarrow> string option
    \<Rightarrow> task_status option \<Rightarrow> (session, commit_result) action" where
  "advance_task env task_id phase state answer sub_status reason task_status = mutation_line (
     bind_s (read_task task_id) (\<lambda>current.
     if truthy (pget (tc_state current) ''cancel_requested'') \<and> phase \<notin> set [''cancelled'', ''failed'']
     then raising (Inl (CommitConflict ''task cancellation barrier is active''))
     else
     bind_s (reads (\<lambda>st. store_head st (tc_conversation_id current))) (\<lambda>(head, revision).
     bind_s (answer_entries env (tc_conversation_id current) head task_id answer) (\<lambda>entries.
     bind_s (raising (task_checkpoint_init task_status (current\<lparr>tc_phase := phase,
         tc_revision := tc_revision current + 1, tc_state := merged_state env current state,
         tc_schema_version := TASK_CHECKPOINT_SCHEMA_VERSION\<rparr>))) (\<lambda>t.
     bind_s (case sub_status of
         None \<Rightarrow> return_s None
       | Some status \<Rightarrow>
           reads (\<lambda>st. bind_r (store_submission st (tc_submission_id current)) (\<lambda>r.
             bind_r (submission_update_init (submission_update_of r (sr_conversation_id r) status
               (if entries = [] then None else Some (ed_entry_id (hd entries))) reason)) (\<lambda>u. Inr (Some u))))) (\<lambda>update.
     commit_mutation env ((empty_mutation (tc_conversation_id current) revision)
       \<lparr>dm_entries := entries, dm_task := Some t, dm_sub_update := update\<rparr>)))))))"

definition start_task :: "session_env \<Rightarrow> string \<Rightarrow> jobj \<Rightarrow> (session, commit_result) action" where
  "start_task env task_id state = mutation_line (
     advance_task env task_id ''running'' state None (Some SubRunning) None None)"

section \<open>Failure and cancellation of one task\<close>

text \<open>
  The pending effects of the store and the ids in the checkpoint must agree; the result is
  the list of ids. A checkpoint holds them frozen, as a tuple.
\<close>

definition agreed_pending :: "task_checkpoint \<Rightarrow> (session, pyval list) action" where
  "agreed_pending current = reads (\<lambda>st.
     let unsettled = filter (\<lambda>e. ef_settlement e = None) (effects_for_task st (tc_task_id current)) in
     case pget_default (tc_state current) ''pending_effect_ids'' (PTuple []) of
       PTuple ids \<Rightarrow>
         if set (map (\<lambda>e. PStr (ef_effect_id e)) unsettled) \<noteq> set ids
         then Inl (CommitConflict ''task checkpoint and pending effects disagree'') else Inr ids
     | _ \<Rightarrow> Inl (CommitConflict ''task checkpoint and pending effects disagree''))"

definition fail_task ::
  "session_env \<Rightarrow> string \<Rightarrow> string \<Rightarrow> jobj \<Rightarrow> string option \<Rightarrow> (session, commit_result) action" where
  "fail_task env task_id reason state expected = mutation_line (
     bind_s (read_task task_id) (\<lambda>current.
     bind_s (head_revision (tc_conversation_id current)) (\<lambda>revision.
     bind_s (raising (check_each (\<lambda>key. raise_if
         (has_key key state \<and> \<not> py_eq (thaw_json (pget state key)) (thaw_json (pget (tc_state current) key)))
         (CommitConflict (''task failure cannot replace authoritative '' @ key)))
         [''operation'', ''delivery_batches'', ''pending_effect_ids'', ''approvals''])) (\<lambda>_.
     bind_s (agreed_pending current) (\<lambda>ids.
     bind_s (raising (task_replace (current\<lparr>tc_phase := ''failed'', tc_revision := tc_revision current + 1,
         tc_state := release_attempt_state
           (dset ''pending_effect_ids'' (PList ids) (dupdate state (tc_state current))),
         tc_status := Failed\<rparr>))) (\<lambda>t.
     bind_s (reads (\<lambda>st. store_submission st (tc_submission_id current))) (\<lambda>r.
     bind_s (raising (submission_update_init (submission_update_of r (tc_conversation_id current)
         SubUnanswered None (Some reason)))) (\<lambda>u.
     commit_mutation env ((task_mutation t revision)\<lparr>dm_sub_update := Some u,
       dm_expected_attempt_token := expected\<rparr>)))))))))"

definition cancel_terminal ::
  "session_env \<Rightarrow> task_checkpoint \<Rightarrow> jobj \<Rightarrow> string \<Rightarrow> (session, commit_result) action" where
  "cancel_terminal env current state reason =
     bind_s (head_revision (tc_conversation_id current)) (\<lambda>revision.
     bind_s (agreed_pending current) (\<lambda>_.
     bind_s (raising (task_replace (current\<lparr>tc_phase := ''cancelled'', tc_revision := tc_revision current + 1,
         tc_state := release_attempt_state state, tc_status := Cancelled\<rparr>))) (\<lambda>t.
     bind_s (reads (\<lambda>st. store_submission st (tc_submission_id current))) (\<lambda>r.
     bind_s (if sr_status r \<in> set [SubQueued, SubRunning]
         then raising (bind_r (submission_update_init (submission_update_of r (tc_conversation_id current)
                SubCancelled None (Some reason))) (\<lambda>u. Inr (Some u)))
         else return_s None) (\<lambda>update.
     commit_mutation env ((task_mutation t revision)\<lparr>dm_sub_update := update,
       dm_expected_attempt_token := Some (attempt_token current)\<rparr>))))))"

definition cancel_reason_of :: "task_checkpoint \<Rightarrow> string result" where
  "cancel_reason_of t = str_or (pget (tc_state t) ''cancel_reason'') ''cancelled''"

text \<open>\<open>except CommitConflict: continue\<close>.\<close>

definition skipping_conflicts :: "(session, 'a) action \<Rightarrow> (session, unit) action" where
  "skipping_conflicts body s =
     (case body s of
        (Inl (CommitConflict _), s') \<Rightarrow> (Inr (), s')
      | (Inl e, s') \<Rightarrow> (Inl e, s')
      | (Inr _, s') \<Rightarrow> (Inr (), s'))"

definition recover_task :: "session_env \<Rightarrow> task_checkpoint \<Rightarrow> (session, commit_result) action" where
  "recover_task env t =
     (if pget (tc_state t) ''abandon_on_restart'' = PBool True
      then fail_task env (tc_task_id t) ''abandoned on restart'' [(''abort_reason'', PStr ''restart'')]
             (Some (attempt_token t))
      else if truthy (pget (tc_state t) ''cancel_requested'') \<and> \<not> kernel_cleanup_required t
      then bind_s (raising (cancel_reason_of t)) (\<lambda>reason.
             cancel_terminal env t (dset ''cancel_requested'' (PBool True) (tc_state t)) reason)
      else
      bind_s (raising (task_replace (t\<lparr>tc_revision := tc_revision t + 1,
          tc_state := release_attempt_state (tc_state t), tc_status := Pending\<rparr>))) (\<lambda>t'.
      commit_task env t' (Some (attempt_token t))))"

definition recover_scheduler_state :: "session_env \<Rightarrow> bool \<Rightarrow> (session, unit) action" where
  "recover_scheduler_state env force = mutation_line (
     bind_s (reads (\<lambda>st. Inr (pending_tasks st))) (\<lambda>tasks.
     each_s (\<lambda>t.
       if tc_status t \<noteq> Running then return_s ()
       else if \<not> force \<and> en_alive env (pget (tc_state t) ''attempt_process_id'') then return_s ()
       else skipping_conflicts (recover_task env t)) tasks))"

section \<open>Effects\<close>

definition record_effect_intents :: "session_env \<Rightarrow> string \<Rightarrow> effect_record list \<Rightarrow> (session, commit_result) action" where
  "record_effect_intents env task_id effects = mutation_line (
     bind_s (read_task task_id) (\<lambda>current.
     if truthy (pget (tc_state current) ''cancel_requested'')
     then raising (Inl (CommitConflict ''task cancellation barrier is active''))
     else if tc_status current \<noteq> Running
     then raising (Inl (CommitConflict ''only a running task admits unapproved effects''))
     else
     bind_s (head_revision (tc_conversation_id current)) (\<lambda>revision.
     bind_s (raising (with_effect_intents current effects)) (\<lambda>t.
     commit_mutation env ((empty_mutation (tc_conversation_id current) revision)
       \<lparr>dm_task := Some t, dm_effects := effects\<rparr>)))))"

definition record_effect_intent :: "session_env \<Rightarrow> string \<Rightarrow> effect_record \<Rightarrow> (session, commit_result) action" where
  "record_effect_intent env task_id e = mutation_line (record_effect_intents env task_id [e])"

definition settle_effect ::
  "session_env \<Rightarrow> string \<Rightarrow> effect_record \<Rightarrow> string \<Rightarrow> artifact_record list \<Rightarrow> (session, commit_result) action" where
  "settle_effect env task_id e expected_status artifacts = mutation_line (
     if ef_task_id e \<noteq> task_id then raising (Inl (ValueError ''effect must belong to the task''))
     else if ef_settlement e = None \<or> ef_status e = ''pending''
     then raising (Inl (ValueError ''effect settlement requires a terminal outcome''))
     else
     bind_s (read_task task_id) (\<lambda>current.
     bind_s (head_revision (tc_conversation_id current)) (\<lambda>revision.
     bind_s (reads (\<lambda>st. store_effect st (ef_effect_id e))) (\<lambda>existing.
     if ef_settlement existing \<noteq> None
     then (if \<not> effect_eq existing e
           then raising (Inl (CommitConflict ''effect is already settled with a different outcome''))
           else unchanged_result revision)
     else
     bind_s (raising (with_effect_settlement current e)) (\<lambda>t.
     commit_mutation env ((empty_mutation (tc_conversation_id current) revision)
       \<lparr>dm_task := Some t, dm_effect := Some e, dm_expected_effect_status := Some expected_status,
        dm_artifacts := artifacts\<rparr>))))))"

definition settle_unknown_effect :: "session_env \<Rightarrow> string \<Rightarrow> string \<Rightarrow> (session, commit_result) action" where
  "settle_unknown_effect env task_id effect_id = mutation_line (
     bind_s (read_task task_id) (\<lambda>current.
     bind_s (reads (\<lambda>st. store_effect st effect_id)) (\<lambda>existing.
     bind_s (raising (interrupted_effect current existing)) (\<lambda>e.
     settle_effect env task_id e (ef_status existing) []))))"

section \<open>Approvals\<close>

definition create_approval :: "session_env \<Rightarrow> approval_record \<Rightarrow> (session, commit_result) action" where
  "create_approval env a = mutation_line (
     bind_s (head_revision (apr_conversation_id a)) (\<lambda>revision.
     commit_mutation env ((empty_mutation (apr_conversation_id a) revision)\<lparr>dm_approval := Some a\<rparr>)))"

definition transition_approval ::
  "session_env \<Rightarrow> string \<Rightarrow> approval_record \<Rightarrow> approval_status \<Rightarrow> task_checkpoint option
    \<Rightarrow> (session, commit_result) action" where
  "transition_approval env approval_id a expected t = mutation_line (
     if apr_approval_id a \<noteq> approval_id
     then raising (Inl (ValueError ''approval identity does not match transition target''))
     else
     bind_s (head_revision (apr_conversation_id a)) (\<lambda>revision.
     commit_mutation env ((empty_mutation (apr_conversation_id a) revision)
       \<lparr>dm_task := t, dm_approval := Some a, dm_expected_approval_status := Some expected\<rparr>)))"

definition claim_approval_and_begin_effect ::
  "session_env \<Rightarrow> string \<Rightarrow> effect_record \<Rightarrow> approval_status \<Rightarrow> (session, commit_result option) action" where
  "claim_approval_and_begin_effect env approval_id e expected = mutation_line (
     bind_s (reads (\<lambda>st. store_approval st approval_id)) (\<lambda>a.
     bind_s (read_task (apr_task_id a)) (\<lambda>current.
     if ef_task_id e \<noteq> tc_task_id current
     then raising (Inl (CommitConflict ''approval effect belongs to another task''))
     else if ef_category e \<noteq> ''shell'' \<or> ef_status e \<noteq> ''pending'' \<or> ef_settlement e \<noteq> None
     then raising (Inl (ValueError ''approval claim requires a pending shell effect intent''))
     else if apr_status a = ExecutionClaimed
     then bind_s (reads (\<lambda>st. store_effect st (ef_effect_id e))) (\<lambda>existing.
            if \<not> effect_eq existing e
            then raising (Inl (CommitConflict ''approval shell effect identity changed''))
            else return_s None)
     else if apr_status a \<noteq> expected then raising (Inl (CommitConflict ''approval status changed''))
     else
     bind_s (raising (with_effect_intents current [e])) (\<lambda>t.
     bind_s (raising (approval_record_init (a\<lparr>apr_status := ExecutionClaimed,
         apr_revision := apr_revision a + 1\<rparr>))) (\<lambda>claimed.
     bind_s (head_revision (tc_conversation_id current)) (\<lambda>revision.
     bind_s (commit_mutation env ((empty_mutation (tc_conversation_id current) revision)
       \<lparr>dm_task := Some t, dm_effects := [e], dm_approval := Some claimed,
        dm_expected_approval_status := Some expected\<rparr>)) (\<lambda>r. return_s (Some r))))))))"

section \<open>Artifacts\<close>

definition register_artifacts ::
  "session_env \<Rightarrow> string \<Rightarrow> artifact_record list \<Rightarrow> (session, commit_result) action" where
  "register_artifacts env task_id artifacts = mutation_line (
     bind_s (read_task task_id) (\<lambda>current.
     bind_s (head_revision (tc_conversation_id current)) (\<lambda>revision.
     if list_ex (\<lambda>a. ar_owner_task_id a \<notin> {None, Some task_id}) artifacts
     then raising (Inl (ValueError ''registered artifacts must belong to the task or an effect''))
     else commit_mutation env ((empty_mutation (tc_conversation_id current) revision)
            \<lparr>dm_artifacts := artifacts\<rparr>))))"

section \<open>Closing\<close>

text \<open>\<open>close\<close>: the memory store's own \<open>close\<close> does nothing.\<close>

definition close_session :: "session \<Rightarrow> session" where
  "close_session s = s\<lparr>ss_closed := True\<rparr>"

end
