(* ===== verification/Session_Context.thy ===== *)
theory Session_Context
  imports Session_Tasks
begin

text \<open>
  The conversation operations of a session: the functions of
  \<^verbatim>\<open>codey/durable/conversation_ops.py\<close> that derive the visible path of a
  conversation or append to it, \<open>prepare_edit\<close> of \<^verbatim>\<open>edit.py\<close>, and the
  methods of \<^verbatim>\<open>session.py\<close> around them. A path is a function of the store;
  \<open>mutation_line\<close> puts the checks of the session around it.
\<close>

section \<open>The visible path\<close>

definition is_head_marker :: "entry_draft \<Rightarrow> bool" where
  "is_head_marker e = (pget (thaw_obj (ed_payload e)) ''head_marker'' = PBool True)"

text \<open>\<open>_apply_head_cut\<close>: the path from its last head marker on.\<close>

definition apply_head_cut :: "entry_draft list \<Rightarrow> entry_draft list" where
  "apply_head_cut path =
     (case find_index is_head_marker (rev path) of
        None \<Rightarrow> path | Some i \<Rightarrow> drop (length path - 1 - i) path)"

text \<open>One entry of \<open>_resolve_response_entries\<close>.\<close>

definition provider_envelope :: "artifact_record \<Rightarrow> pyval \<Rightarrow> jobj result" where
  "provider_envelope a envelope =
     (case envelope of
        PDict d \<Rightarrow>
          if \<not> py_eq (pget d ''schema_version'') (PInt 1) \<or> pget d ''kind'' \<noteq> PStr ''provider_response''
             \<or> \<not> py_eq (pget d ''effect_id'') (opt_str (ar_owner_effect_id a))
          then Inl (ValueError ''invalid provider history response'') else Inr d
      | _ \<Rightarrow> Inl (ValueError ''invalid provider history response''))"

definition resolve_entry :: "session_env \<Rightarrow> store \<Rightarrow> entry_draft \<Rightarrow> entry_draft result" where
  "resolve_entry env st e =
     (let reference = (if ed_kind e = ''tool_call'' then pget (ed_payload e) ''response_ref'' else PNone) in
      if reference = PNone then Inr e
      else if \<not> nonempty_str reference \<or> set (dkeys (ed_payload e)) \<noteq> {''response_ref''}
      then Inl (ValueError ''invalid provider history reference'')
      else
      bind_r (store_artifact st (case reference of PStr s \<Rightarrow> s | _ \<Rightarrow> [])) (\<lambda>a.
      if ar_owner_task_id a \<noteq> ed_by_task_id e \<or> falsy (ar_owner_effect_id a)
         \<or> pget (ar_metadata a) ''kind'' \<noteq> PStr ''provider_response''
      then Inl (ValueError ''provider history reference ownership mismatch'')
      else
      bind_r (read_response_artifact (en_files env) a) (\<lambda>envelope.
      bind_r (provider_envelope a envelope) (\<lambda>d.
      bind_r (tool_call_message (en_dumps env) (pget d ''payload'')) (\<lambda>payload.
      entry_draft_init (e\<lparr>ed_payload := payload\<rparr>))))))"

definition resolve_response_entries ::
  "session_env \<Rightarrow> store \<Rightarrow> entry_draft list \<Rightarrow> entry_draft list result" where
  "resolve_response_entries env st path = map_r (resolve_entry env st) path"

definition visible_context ::
  "session_env \<Rightarrow> store \<Rightarrow> string \<Rightarrow> string option \<Rightarrow> entry_draft list result" where
  "visible_context env st cid leaf_id =
     bind_r (case leaf_id of None \<Rightarrow> bind_r (store_head st cid) (\<lambda>h. Inr (fst h)) | Some l \<Rightarrow> Inr (Some l)) (\<lambda>leaf.
     bind_r (store_path st cid leaf) (\<lambda>path.
     resolve_response_entries env st (apply_head_cut path)))"

definition session_context ::
  "session_env \<Rightarrow> string \<Rightarrow> string option \<Rightarrow> (session, entry_draft list) action" where
  "session_context env cid leaf_id = mutation_line (reads (\<lambda>st. visible_context env st cid leaf_id))"

definition session_entries :: "session_env \<Rightarrow> string \<Rightarrow> (session, entry_draft list) action" where
  "session_entries env cid = mutation_line (reads (\<lambda>st.
     bind_r (store_entries st cid) (resolve_response_entries env st)))"

text \<open>The closure \<open>visible\<close> of \<open>context_at\<close>.\<close>

definition committed_entries :: "store \<Rightarrow> int \<Rightarrow> entries_fun" where
  "committed_entries st commit_seq scope =
     bind_r (store_entries st scope) (\<lambda>es. Inr (filter (\<lambda>e. ed_commit_seq e \<le> commit_seq) es))"

definition context_at ::
  "session_env \<Rightarrow> string \<Rightarrow> int \<Rightarrow> string option \<Rightarrow> (session, entry_draft list) action" where
  "context_at env cid commit_seq leaf_id = mutation_line (reads (\<lambda>st.
     if commit_seq < 0 then Inl (ValueError ''historical commit sequence must be a non-negative integer'')
     else
     bind_r (committed_entries st commit_seq cid) (\<lambda>local.
     bind_r (case leaf_id of
         Some l \<Rightarrow> Inr (Some l)
       | None \<Rightarrow> if local \<noteq> [] then Inr (Some (ed_entry_id (last local)))
                 else bind_r (conversation_parent st cid) (\<lambda>p. Inr (snd p))) (\<lambda>leaf.
     bind_r (context_path (Suc (length (st_heads st))) (committed_entries st commit_seq) (conversation_parent st) cid leaf) (\<lambda>path.
     resolve_response_entries env st (apply_head_cut path))))))"

text \<open>\<open>conversation_lineage\<close>: at most 64 conversations are visited.\<close>

fun lineage_loop :: "nat \<Rightarrow> store \<Rightarrow> string list \<Rightarrow> string \<Rightarrow> (string \<times> string option) list result" where
  "lineage_loop 0 st seen scope = Inr []"
| "lineage_loop (Suc left) st seen scope =
     (if scope = [] \<or> scope \<in> set seen then Inr []
      else
      bind_r (conversation_parent st scope) (\<lambda>(parent, entry).
      bind_r (lineage_loop left st (scope # seen) (case parent of None \<Rightarrow> [] | Some p \<Rightarrow> p)) (\<lambda>rest.
      Inr ((case parent of None \<Rightarrow> [] | Some p \<Rightarrow> if p = [] then [] else [(p, entry)]) @ rest))))"

definition conversation_lineage :: "string \<Rightarrow> (session, (string \<times> string option) list) action" where
  "conversation_lineage cid = mutation_line (reads (\<lambda>st. lineage_loop 64 st [] cid))"

section \<open>Tool results\<close>

text \<open>\<open>for x in value or ()\<close> of a thawed value: lists, the keys of a dict, the characters of a string.\<close>

fun iterate_or_empty :: "pyval \<Rightarrow> pyval list result" where
  "iterate_or_empty (PList xs) = Inr xs"
| "iterate_or_empty (PTuple xs) = Inr xs"
| "iterate_or_empty (PDict d) = Inr (map (\<lambda>(k, v). PStr k) d)"
| "iterate_or_empty (PProxy d) = Inr (map (\<lambda>(k, v). PStr k) d)"
| "iterate_or_empty (PStr s) = Inr (map (\<lambda>c. PStr [c]) s)"
| "iterate_or_empty v = (if truthy v then Inl (TypeError ''object is not iterable'') else Inr [])"

definition call_id_of :: "pyval \<Rightarrow> string option" where
  "call_id_of call =
     (case as_mapping call of
        None \<Rightarrow> None
      | Some d \<Rightarrow> (case pget d ''id'' of PStr i \<Rightarrow> if i = [] then None else Some i | _ \<Rightarrow> None))"

text \<open>The keys of the dict \<open>pending\<close> after one entry of the path.\<close>

definition pending_after :: "entry_draft \<Rightarrow> string list \<Rightarrow> string list result" where
  "pending_after e pending =
     (let payload = thaw_obj (ed_payload e) in
      if ed_kind e = ''tool_call''
      then bind_r (iterate_or_empty (pget payload ''tool_calls'')) (\<lambda>calls.
        Inr (foldl (\<lambda>ids i. if i \<in> set ids then ids else ids @ [i]) pending (List.map_filter call_id_of calls)))
      else if ed_kind e = ''tool_result''
      then (case pget payload ''call_id'' of PStr i \<Rightarrow> Inr (filter (\<lambda>x. i = [] \<or> x \<noteq> i) pending) | _ \<Rightarrow> Inr pending)
      else Inr pending)"

fun open_calls :: "entry_draft list \<Rightarrow> string list \<Rightarrow> string list result" where
  "open_calls [] pending = Inr pending"
| "open_calls (e # es) pending = bind_r (pending_after e pending) (open_calls es)"

definition result_entry ::
  "string \<Rightarrow> string \<Rightarrow> string option \<Rightarrow> string \<Rightarrow> string \<Rightarrow> string \<Rightarrow> bool \<Rightarrow> entry_draft" where
  "result_entry entry_id cid parent task_id call_id content is_error =
     \<lparr>ed_entry_id = entry_id, ed_conversation_id = cid, ed_parent_id = parent, ed_kind = ''tool_result'',
      ed_payload = [(''call_id'', PStr call_id), (''content'', PStr content), (''is_error'', PBool is_error)],
      ed_commit_seq = 0, ed_by_task_id = Some task_id\<rparr>"

text \<open>What one tool result says: its call, its content and whether it is an error.\<close>

definition read_tool_result :: "string list \<Rightarrow> string list \<Rightarrow> pyval \<Rightarrow> (string \<times> string \<times> bool) result" where
  "read_tool_result pending seen raw =
     (case as_mapping raw of
        None \<Rightarrow> Inl (CommitConflict ''tool result must be an object'')
      | Some d \<Rightarrow>
          (case pget d ''call_id'' of
             PStr i \<Rightarrow>
               if i = [] then Inl (CommitConflict ''tool result call ID is required'')
               else if i \<in> set seen \<or> i \<notin> set pending
               then Inl (CommitConflict ''tool result does not match an unanswered tool call'')
               else (case (pget_default d ''content'' (pget_default d ''text'' (PStr [])), pget_default d ''is_error'' (PBool False)) of
                   (PStr content, PBool is_error) \<Rightarrow> Inr (i, content, is_error)
                 | _ \<Rightarrow> Inl (CommitConflict ''tool result payload is invalid''))
           | _ \<Rightarrow> Inl (CommitConflict ''tool result call ID is required'')))"

text \<open>The loop over the results; \<open>n\<close> counts the uuids drawn so far.\<close>

fun result_entries ::
  "(nat \<Rightarrow> string) \<Rightarrow> string \<Rightarrow> string \<Rightarrow> string list \<Rightarrow> nat \<Rightarrow> string list \<Rightarrow> string option \<Rightarrow> pyval list
    \<Rightarrow> entry_draft list result" where
  "result_entries uuid cid task_id pending n seen parent [] = Inr []"
| "result_entries uuid cid task_id pending n seen parent (raw # rest) =
     bind_r (read_tool_result pending seen raw) (\<lambda>(call_id, content, is_error).
     bind_r (entry_draft_init (result_entry (''entry-'' @ uuid n) cid parent task_id call_id content is_error)) (\<lambda>e.
     bind_r (result_entries uuid cid task_id pending (Suc n) (call_id # seen) (Some (ed_entry_id e)) rest) (\<lambda>es.
     Inr (e # es))))"

definition append_tool_results ::
  "session_env \<Rightarrow> store \<Rightarrow> string \<Rightarrow> string option \<Rightarrow> pyval list \<Rightarrow> string \<Rightarrow> entry_draft list result" where
  "append_tool_results env st cid head results task_id =
     (if results = [] then Inr []
      else
      bind_r (visible_context env st cid head) (\<lambda>path.
      bind_r (open_calls path []) (\<lambda>pending.
      result_entries (en_uuid env (st_sequence st)) cid task_id pending 0 [] head results)))"

section \<open>Edits\<close>

definition prepare_edit ::
  "session_env \<Rightarrow> store \<Rightarrow> string \<Rightarrow> int \<Rightarrow> jobj \<Rightarrow> bool \<Rightarrow> bool
    \<Rightarrow> (string option \<times> string option \<times> string list) result" where
  "prepare_edit env st cid revision edit placed has_tool_results =
     (if \<not> py_eq (PInt revision) (pget edit ''expected_revision'') \<or> \<not> has_conversation st cid
      then Inl (CommitConflict ''Conversation changed. Cancel the edit and try again.'')
      else if has_tool_results \<or> \<not> placed
      then Inl (ValueError ''an edit must place one new user input'')
      else
      bind_r (str_or (pget edit ''entry_id'') []) (\<lambda>entry_id.
      bind_r (visible_context env st cid None) (\<lambda>path.
      bind_r (edit_parent (Some entry_id) path
          (list_ex (\<lambda>t. tc_conversation_id t = cid) (pending_tasks st))) (\<lambda>(parent, replaced).
      bind_r (store_entries st cid) (\<lambda>es.
      Inr (case parent of None \<Rightarrow> None | Some p \<Rightarrow> if p \<in> set (map ed_entry_id es) then Some p else None,
           parent, replaced))))))"

section \<open>Appending and moving the head\<close>

text \<open>An entry of a conversation that is appended by one commit and returned with its number.\<close>

definition commit_entry :: "session_env \<Rightarrow> entry_draft \<Rightarrow> int \<Rightarrow> (session, entry_draft) action" where
  "commit_entry env e revision =
     bind_s (raising (entry_draft_init e)) (\<lambda>entry.
     bind_s (commit_mutation env ((empty_mutation (ed_conversation_id e) revision)\<lparr>dm_entries := [entry]\<rparr>)) (\<lambda>r.
     raising (entry_draft_init (entry\<lparr>ed_commit_seq := cres_sequence r\<rparr>))))"

definition fresh_entry :: "session_env \<Rightarrow> string \<Rightarrow> string \<Rightarrow> jobj \<Rightarrow> (session, entry_draft) action" where
  "fresh_entry env cid kind payload =
     bind_s (reads (\<lambda>st. bind_r (store_head st cid) (\<lambda>h. Inr (h, ''entry-'' @ en_uuid env (st_sequence st) 0)))) (\<lambda>((parent, revision), entry_id).
     commit_entry env \<lparr>ed_entry_id = entry_id, ed_conversation_id = cid, ed_parent_id = parent, ed_kind = kind,
       ed_payload = payload, ed_commit_seq = 0, ed_by_task_id = None\<rparr> revision)"

definition append_message :: "session_env \<Rightarrow> string \<Rightarrow> string \<Rightarrow> jobj \<Rightarrow> (session, entry_draft) action" where
  "append_message env cid kind payload = mutation_line (fresh_entry env cid kind payload)"

definition latest_snapshot_entry :: "entry_draft list \<Rightarrow> entry_draft option" where
  "latest_snapshot_entry path = List.find (\<lambda>e. ed_kind e = ''context_snapshot'') (rev path)"

definition latest_context_snapshot :: "session_env \<Rightarrow> string \<Rightarrow> (session, entry_draft option) action" where
  "latest_context_snapshot env cid = mutation_line (reads (\<lambda>st.
     bind_r (visible_context env st cid None) (\<lambda>path. Inr (latest_snapshot_entry path))))"

definition save_context_snapshot :: "session_env \<Rightarrow> string \<Rightarrow> jobj \<Rightarrow> (session, entry_draft) action" where
  "save_context_snapshot env cid payload = mutation_line (
     bind_s (reads (\<lambda>st. bind_r (visible_context env st cid None) (\<lambda>path. Inr (latest_snapshot_entry path)))) (\<lambda>latest.
     case latest of
       Some e \<Rightarrow> if obj_eq (ed_payload e) payload then return_s e else fresh_entry env cid ''context_snapshot'' payload
     | None \<Rightarrow> fresh_entry env cid ''context_snapshot'' payload))"

text \<open>The \<open>except\<close> clauses of \<open>conversation_ops.branch\<close>.\<close>

fun branch_error :: "py_error \<Rightarrow> bool" where
  "branch_error (CommitConflict _) = True"
| "branch_error (KeyError _) = True"
| "branch_error (TypeError _) = True"
| "branch_error (ValueError _) = True"
| "branch_error _ = False"

definition sealing :: "(session, 'a) action \<Rightarrow> (session, 'a) action" where
  "sealing body s =
     (case body s of
        (Inl e, s') \<Rightarrow> (Inl e, if branch_error e then s' else s'\<lparr>ss_sealed := True\<rparr>)
      | (Inr x, s') \<Rightarrow> (Inr x, s'))"

definition move_head :: "session_env \<Rightarrow> string \<Rightarrow> string \<Rightarrow> int option \<Rightarrow> (session, commit_result) action" where
  "move_head env cid entry_id expected_revision =
     bind_s ensure_usable (\<lambda>_. sealing (
     bind_s (head_revision cid) (\<lambda>revision.
     commit_mutation env ((empty_mutation cid (case expected_revision of None \<Rightarrow> revision | Some n \<Rightarrow> n))
       \<lparr>dm_branch_entry_id := Some entry_id\<rparr>))))"

definition session_branch :: "session_env \<Rightarrow> string \<Rightarrow> string \<Rightarrow> int option \<Rightarrow> (session, commit_result) action" where
  "session_branch env cid entry_id expected_revision = mutation_line (move_head env cid entry_id expected_revision)"

definition select_idle_branch :: "session_env \<Rightarrow> string \<Rightarrow> string \<Rightarrow> int \<Rightarrow> (session, commit_result) action" where
  "select_idle_branch env cid entry_id expected_revision = mutation_line (
     bind_s (reads (\<lambda>st. Inr (list_ex (\<lambda>t. tc_conversation_id t = cid) (pending_tasks st)))) (\<lambda>busy.
     if busy then raising (Inl (CommitConflict ''Wait for this conversation to finish before switching branches.''))
     else move_head env cid entry_id (Some expected_revision)))"

definition session_fork ::
  "session_env \<Rightarrow> string \<Rightarrow> string \<Rightarrow> string option \<Rightarrow> (session, string) action" where
  "session_fork env cid entry_id child = mutation_line (
     bind_s (read_s (\<lambda>s. Inr (if falsy child then ''conversation-'' @ en_uuid env (st_sequence (ss_store s)) 0 else the child))) (\<lambda>child_id.
     bind_s (raising (create_conversation_init
         \<lparr>cc_parent_conversation_id = Some cid, cc_parent_entry_id = Some entry_id\<rparr>)) (\<lambda>creation.
     bind_s (commit_mutation env ((empty_mutation child_id 0)\<lparr>dm_create_conversation := Some creation\<rparr>)) (\<lambda>_.
     return_s child_id))))"

definition session_delete :: "session_env \<Rightarrow> string \<Rightarrow> (session, commit_result) action" where
  "session_delete env cid = mutation_line (
     bind_s (head_revision cid) (\<lambda>revision.
     commit_mutation env ((empty_mutation cid revision)\<lparr>dm_delete_conversation := True\<rparr>)))"

text \<open>\<open>record_display_message\<close>: nothing is written twice, nor for an input that left the path.\<close>

definition display_id :: "session_env \<Rightarrow> string \<Rightarrow> string \<Rightarrow> string" where
  "display_id env run_id identity =
     ''display-'' @ en_sha256 env (dec_nat (length run_id) @ '':'' @ run_id @ identity)"

definition left_path :: "session_env \<Rightarrow> store \<Rightarrow> string \<Rightarrow> string \<Rightarrow> bool result" where
  "left_path env st cid run_id =
     (case store_task st run_id of
        Inl _ \<Rightarrow> Inr False
      | Inr owner \<Rightarrow>
          let source = pget (tc_state owner) ''input_entry_id'' in
          if \<not> truthy source then Inr False
          else bind_r (visible_context env st cid None) (\<lambda>path.
            bind_r (in_string_set source (map ed_entry_id path)) (\<lambda>visible. Inr (\<not> visible))))"

definition record_display_message ::
  "session_env \<Rightarrow> string \<Rightarrow> string \<Rightarrow> string \<Rightarrow> jobj \<Rightarrow> (session, unit) action" where
  "record_display_message env cid run_id identity payload = mutation_line (
     bind_s (reads (\<lambda>st. bind_r (store_entries st cid) (\<lambda>es.
       Inr (list_ex (\<lambda>e. ed_entry_id e = display_id env run_id identity) es)))) (\<lambda>known.
     if known then return_s ()
     else
     bind_s (reads (\<lambda>st. left_path env st cid run_id)) (\<lambda>gone.
     if gone then return_s ()
     else
     bind_s (reads (\<lambda>st. store_head st cid)) (\<lambda>(parent, revision).
     bind_s (raising (entry_draft_init
         \<lparr>ed_entry_id = display_id env run_id identity, ed_conversation_id = cid, ed_parent_id = parent,
          ed_kind = ''display_message'', ed_payload = dset ''display_only'' (PBool True) payload,
          ed_commit_seq = 0, ed_by_task_id = Some run_id\<rparr>)) (\<lambda>e.
     bind_s (commit_mutation env ((empty_mutation cid revision)\<lparr>dm_entries := [e]\<rparr>)) (\<lambda>_. return_s ()))))))"

section \<open>What the path and the tool results satisfy\<close>

text \<open>A head marker hides everything before it, and nothing else is cut.\<close>

lemma find_index_first: "find_index P xs = Some i \<Longrightarrow> j < i \<Longrightarrow> \<not> P (xs ! j)"
proof (induction xs arbitrary: i j)
  case (Cons x xs)
  then show ?case by (cases j; auto split: if_splits)
qed simp

lemma head_cut_suffix:
  "\<exists>hidden. path = hidden @ apply_head_cut path \<and> list_all (Not \<circ> is_head_marker) (tl (apply_head_cut path))
     \<and> (hidden = [] \<or> is_head_marker (hd (apply_head_cut path)))"
proof (cases "find_index is_head_marker (rev path)")
  case None
  then have "\<forall>e\<in>set path. \<not> is_head_marker e" by (simp add: find_index_None)
  then have "apply_head_cut path = path" "list_all (Not \<circ> is_head_marker) (tl path)"
    by (simp add: apply_head_cut_def None) (cases path; use \<open>\<forall>e\<in>set path. \<not> is_head_marker e\<close> in \<open>simp add: list_all_iff\<close>)
  then show ?thesis by simp
next
  case (Some i)
  note i = find_index_Some [OF Some]
  let ?n = "length path - 1 - i"
  have n: "?n < length path" using i by auto
  have marker: "is_head_marker (path ! ?n)" using conjunct2 [OF i] conjunct1 [OF i] by (simp add: rev_nth)
  have after: "\<not> is_head_marker (path ! j)" if "?n < j" "j < length path" for j
    using find_index_first [OF Some, of "length path - 1 - j"] that by (auto simp: rev_nth)
  have cut: "apply_head_cut path = drop ?n path" by (simp add: apply_head_cut_def Some)
  have tail: "tl (drop ?n path) = drop (Suc ?n) path" by (simp add: drop_Suc tl_drop)
  have "list_all (Not \<circ> is_head_marker) (drop (Suc ?n) path)"
    using after by (auto simp: list_all_length)
  then have "list_all (Not \<circ> is_head_marker) (tl (drop ?n path))" by (simp only: tail)
  moreover have "is_head_marker (hd (drop ?n path))" by (simp only: hd_drop_conv_nth [OF n] marker)
  ultimately show ?thesis unfolding cut by (intro exI [where x = "take ?n path"] conjI disjI2) simp_all
qed

text \<open>The calls an entry opens and the call it answers.\<close>

definition opened_calls :: "entry_draft \<Rightarrow> string list" where
  "opened_calls e =
     (if ed_kind e = ''tool_call''
      then (case iterate_or_empty (pget (thaw_obj (ed_payload e)) ''tool_calls'') of
          Inl _ \<Rightarrow> [] | Inr calls \<Rightarrow> List.map_filter call_id_of calls)
      else [])"

definition answered_call :: "entry_draft \<Rightarrow> string option" where
  "answered_call e = (if ed_kind e = ''tool_result'' then as_str (pget (thaw_obj (ed_payload e)) ''call_id'') else None)"

text \<open>A call is open at the end of a path when an entry makes it and no later entry answers it.\<close>

definition open_in :: "entry_draft list \<Rightarrow> string \<Rightarrow> bool" where
  "open_in path i =
     list_ex (\<lambda>k. i \<in> set (opened_calls (path ! k)) \<and> list_all (\<lambda>e. answered_call e \<noteq> Some i) (drop (Suc k) path))
       [0..<length path]"

lemma list_ex_map: "list_ex P (map f xs) = list_ex (P \<circ> f) xs"
  by (induction xs) simp_all

lemma open_in_Cons:
  "open_in (e # es) i \<longleftrightarrow> (i \<in> set (opened_calls e) \<and> list_all (\<lambda>x. answered_call x \<noteq> Some i) es) \<or> open_in es i"
proof -
  have "[0..<length (e # es)] = 0 # map Suc [0..<length es]" by (simp add: map_Suc_upt upt_conv_Cons del: upt_Suc)
  then have up: "[0..<length (e # es)] = 0 # map Suc [0..<length es]" .
  show ?thesis unfolding open_in_def up by (simp add: list_ex_map comp_def del: upt_Suc)
qed

lemma set_add_new: "set (foldl (\<lambda>ids i. if i \<in> set ids then ids else ids @ [i]) xs ys) = set xs \<union> set ys"
  by (induction ys arbitrary: xs) auto

lemma call_id_nonempty [simp]: "call_id_of c \<noteq> Some []"
  by (auto simp: call_id_of_def split: option.splits pyval.splits if_splits)

lemma opened_nonempty: "i \<in> set (opened_calls e) \<Longrightarrow> i \<noteq> []"
  unfolding opened_calls_def by (cases "ed_kind e = ''tool_call''") (auto simp: set_map_filter split: sum.splits)

lemma pending_after_set:
  assumes "pending_after e pending = Inr pending'" "i \<noteq> []"
  shows "i \<in> set pending' \<longleftrightarrow> i \<in> set (opened_calls e) \<or> (i \<in> set pending \<and> answered_call e \<noteq> Some i)"
proof (cases "ed_kind e = ''tool_result''")
  case True
  then show ?thesis
    using assms
    by (cases "pget (thaw_obj (ed_payload e)) ''call_id''")
       (auto simp: pending_after_def opened_calls_def answered_call_def)
next
  case False
  show ?thesis
  proof (cases "ed_kind e = ''tool_call''")
    case True
    then show ?thesis using assms(1) False
      by (auto simp: pending_after_def opened_calls_def answered_call_def set_add_new)
  next
    case no_call: False
    then show ?thesis using assms(1) False
      by (simp add: pending_after_def opened_calls_def answered_call_def)
  qed
qed

lemma open_calls_set:
  assumes "open_calls path pending = Inr pending'" "i \<noteq> []"
  shows "i \<in> set pending' \<longleftrightarrow> open_in path i \<or> (i \<in> set pending \<and> list_all (\<lambda>e. answered_call e \<noteq> Some i) path)"
  using assms
proof (induction path arbitrary: pending)
  case Nil
  then show ?case by (simp add: open_in_def)
next
  case (Cons e es)
  then obtain p where p: "pending_after e pending = Inr p" and rest: "open_calls es p = Inr pending'" by auto
  show ?case
    using Cons.IH [OF rest Cons.prems(2)] pending_after_set [OF p Cons.prems(2)] by (auto simp: open_in_Cons)
qed

lemma result_entries_correct:
  assumes "result_entries uuid cid task_id pending n seen parent results = Inr es"
  shows "length es = length results \<and> linked_from parent es
    \<and> list_all (\<lambda>e. ed_kind e = ''tool_result'' \<and> ed_conversation_id e = cid \<and> ed_by_task_id e = Some task_id
         \<and> (\<exists>i. answered_call e = Some i \<and> i \<noteq> [] \<and> i \<in> set pending \<and> i \<notin> set seen)) es
    \<and> distinct (map answered_call es)"
  using assms
proof (induction results arbitrary: n seen parent es)
  case (Cons raw rest)
  from Cons.prems obtain i content is_error e es' where r: "read_tool_result pending seen raw = Inr (i, content, is_error)"
    and e: "entry_draft_init (result_entry (''entry-'' @ uuid n) cid parent task_id i content is_error) = Inr e"
    and rest: "result_entries uuid cid task_id pending (Suc n) (i # seen) (Some (ed_entry_id e)) rest = Inr es'"
    and es: "es = e # es'"
    by (auto split: prod.splits)
  have i: "i \<noteq> []" "i \<in> set pending" "i \<notin> set seen"
    using r by (auto simp: read_tool_result_def split: option.splits pyval.splits if_splits)
  have fields: "ed_kind e = ''tool_result''" "ed_conversation_id e = cid" "ed_by_task_id e = Some task_id" "ed_parent_id e = parent"
    "answered_call e = Some i"
    using e by (auto simp: entry_draft_init_def result_entry_def canonical_obj_def thaw_obj_def freeze_obj_def
        answered_call_def pget_def pget_default_def split: if_splits)
  show ?case
    using Cons.IH [OF rest] i by (auto simp: es fields list_all_iff)
qed simp

text \<open>
  C31: accepted tool results answer open calls. Each new entry answers a call that the
  visible path makes and does not answer yet, no call is answered twice, and the entries
  continue the path one after the other from its head, all owned by the task.
\<close>

theorem tool_results_answer_open_calls:
  assumes "append_tool_results env st cid head results task_id = Inr es" and "results \<noteq> []"
  shows "\<exists>path. visible_context env st cid head = Inr path \<and> length es = length results \<and> linked_from head es
    \<and> distinct (map answered_call es)
    \<and> (\<forall>e\<in>set es. ed_by_task_id e = Some task_id \<and> (\<exists>i. answered_call e = Some i \<and> open_in path i))"
proof -
  from assms obtain path pending where path: "visible_context env st cid head = Inr path"
    and pending: "open_calls path [] = Inr pending"
    and es: "result_entries (en_uuid env (st_sequence st)) cid task_id pending 0 [] head results = Inr es"
    by (auto simp: append_tool_results_def)
  show ?thesis
    using result_entries_correct [OF es] open_calls_set [OF pending] path by (force simp: list_all_iff)
qed

definition no_files_env :: session_env where
  "no_files_env =
     \<lparr>en_now = (\<lambda>n. ''now''), en_uuid = (\<lambda>n i. CHR ''u'' # dec_nat i), en_process = 7, en_bound = None,
      en_alive = (\<lambda>p. True), en_digest = (\<lambda>n v i c. ''d''), en_publish = (\<lambda>r m. None),
      en_files = (\<lambda>p. None), en_dumps = (\<lambda>v. ''json''), en_canonical = (\<lambda>v. ''json''), en_sha256 = (\<lambda>t. ''f'')\<rparr>"

text \<open>A conversation whose last entry calls two tools.\<close>

definition calls_entry :: entry_draft where
  "calls_entry = \<lparr>ed_entry_id = ''e1'', ed_conversation_id = ''main'', ed_parent_id = None, ed_kind = ''tool_call'',
     ed_payload = [(''tool_calls'', PTuple [PProxy [(''id'', PStr ''a'')], PProxy [(''id'', PStr ''b'')]])],
     ed_commit_seq = 1, ed_by_task_id = Some ''t1''\<rparr>"

definition calls_store :: store where
  "calls_store = (empty_store ''db'')\<lparr>st_entries := [(''main'', [calls_entry])],
     st_heads := [(''main'', Some ''e1'', 1)], st_parents := [(''main'', None, None)]\<rparr>"

definition sample_results :: "pyval list" where
  "sample_results = [PDict [(''call_id'', PStr ''b''), (''content'', PStr ''done'')], PDict [(''call_id'', PStr ''a'')]]"

theorem tool_results_answer_open_calls_witness:
  "\<exists>es. append_tool_results no_files_env calls_store ''main'' (Some ''e1'') sample_results ''t1'' = Inr es
     \<and> length es = 2 \<and> linked_from (Some ''e1'') es"
proof -
  have "isl (append_tool_results no_files_env calls_store ''main'' (Some ''e1'') sample_results ''t1'') = False"
    by code_simp
  then obtain es where run: "append_tool_results no_files_env calls_store ''main'' (Some ''e1'') sample_results ''t1'' = Inr es"
    by (cases "append_tool_results no_files_env calls_store ''main'' (Some ''e1'') sample_results ''t1''") auto
  from tool_results_answer_open_calls [OF run] run show ?thesis by (auto simp: sample_results_def)
qed

end
