(* ===== verification/Session_Admission.thy ===== *)
theory Session_Admission
  imports Session_Context Message_Input
begin

text \<open>
  \<^verbatim>\<open>codey/durable/admission.py\<close>: the admission of an input with its task, of a
  passive write, and of a task forked from a historical checkpoint. Each reads the store,
  derives one mutation, and commits it on the session.
\<close>

section \<open>The request\<close>

record input_request =
  ir_conversation_id :: string
  ir_request_id :: string
  ir_task_id :: string
  ir_text :: string
  ir_provider_snapshot :: jobj
  ir_task_state :: "jobj option"
  ir_initial_phase :: string
  ir_tool_results :: "jobj list"
  ir_owner_task_id :: "string option"
  ir_abandon_on_restart :: bool
  ir_workflow_name :: "string option"
  ir_workflow_version :: int
  ir_workflow_input :: "jobj option"
  ir_workflow_checkpoint :: "jobj option"
  ir_workflow_replay_contract :: string
  ir_creation :: "create_conversation option"
  ir_placement :: submission_placement
  ir_mode :: string

definition request_state :: "input_request \<Rightarrow> jobj" where
  "request_state r = (case ir_task_state r of None \<Rightarrow> [] | Some d \<Rightarrow> d)"

definition request_edit :: "input_request \<Rightarrow> jobj option" where
  "request_edit r =
     (case as_mapping (pget (request_state r) ''input'') of
        None \<Rightarrow> None
      | Some d \<Rightarrow> if pget d ''kind'' = PStr ''edit_user_message'' then Some d else None)"

text \<open>\<open>_fingerprint\<close>: the digest of the canonical JSON text of the thawed value.\<close>

definition fingerprint :: "session_env \<Rightarrow> jobj \<Rightarrow> string result" where
  "fingerprint env d =
     (if dumps_ok (PDict (thaw_obj d)) then Inr (en_sha256 env (en_canonical env (PDict (thaw_obj d))))
      else Inl (Unmodelled ''json.dumps''))"

definition input_identity :: "input_request \<Rightarrow> jobj \<Rightarrow> jobj" where
  "input_identity r metadata =
     [(''text'', PStr (ir_text r)), (''message_metadata'', PDict metadata),
      (''provider_snapshot'', PDict (ir_provider_snapshot r)),
      (''tool_results'', PTuple (map PDict (ir_tool_results r))),
      (''workflow_origin'', pget (request_state r) ''workflow_origin''),
      (''owner_task_id'', opt_str (ir_owner_task_id r)), (''abandon_on_restart'', PBool (ir_abandon_on_restart r)),
      (''workflow_name'', opt_str (ir_workflow_name r)), (''workflow_version'', PInt (ir_workflow_version r)),
      (''workflow_input'', PDict (or_empty (ir_workflow_input r))),
      (''workflow_checkpoint'', PDict (or_empty (ir_workflow_checkpoint r))),
      (''workflow_replay_contract'', PStr (ir_workflow_replay_contract r)),
      (''placement'', PStr (placement_value (ir_placement r))), (''mode'', PStr (ir_mode r))]
     @ (case request_edit r of None \<Rightarrow> [] | Some edit \<Rightarrow> [(''edit'', PDict edit)])"

text \<open>The checks before the conversation is read.\<close>

definition check_request :: "store \<Rightarrow> input_request \<Rightarrow> unit result" where
  "check_request st r =
     (if ir_mode r \<notin> {''steer'', ''follow_up'', ''write''} then Inl (ValueError ''unknown submission mode'')
      else if ir_initial_phase r \<notin> {''accepted'', ''dispatching''}
      then Inl (ValueError ''input admission phase must be accepted or dispatching'')
      else
      bind_r (case ir_owner_task_id r of
          None \<Rightarrow> Inr ()
        | Some owner \<Rightarrow>
            if owner = ir_task_id r then Inl (ValueError ''a task cannot own itself'')
            else (case store_task st owner of
                Inl _ \<Rightarrow> Inl (ValueError (''owner task does not exist: '' @ owner)) | Inr _ \<Rightarrow> Inr ())) (\<lambda>_.
      if ir_workflow_name r = Some [] then Inl (ValueError ''workflow name is required'')
      else if ir_workflow_version r < 1 then Inl (ValueError ''workflow version must be a positive integer'')
      else raise_if (ir_workflow_replay_contract r = []) (ValueError ''workflow replay contract is required'')))"

section \<open>The mutation of an input\<close>

definition input_payload :: "input_request \<Rightarrow> jobj \<Rightarrow> string option \<Rightarrow> jobj result" where
  "input_payload r metadata edit_parent_id =
     (let base = dupdate metadata [(''text'', PStr (ir_text r))] in
      case request_edit r of
        None \<Rightarrow> Inr base
      | Some edit \<Rightarrow>
          bind_r (lookup_key edit ''entry_id'' ''entry_id'') (\<lambda>entry_id.
          Inr (dupdate [(''edited_entry_id'', entry_id), (''edit_parent_entry_id'', opt_str edit_parent_id)] base)))"

definition input_state :: "session_env \<Rightarrow> input_request \<Rightarrow> entry_draft option \<Rightarrow> jobj" where
  "input_state env r entry =
     (let base = dupdate
        ([(''input_state'', PStr (if ir_placement r = PlacementQueued then ''queued'' else ''placed'')),
          (''input_text'', PStr (ir_text r)), (''input_mode'', PStr (ir_mode r)),
          (''owner_task_id'', opt_str (ir_owner_task_id r)), (''abandon_on_restart'', PBool (ir_abandon_on_restart r))]
         @ (case entry of None \<Rightarrow> [] | Some e \<Rightarrow> [(''input_entry_id'', PStr (ed_entry_id e))])) (request_state r) in
      case ir_workflow_name r of
        None \<Rightarrow> base
      | Some name \<Rightarrow> dupdate
          [(''workflow_name'', PStr name), (''workflow_version'', PInt (ir_workflow_version r)),
           (''workflow_input'', PDict (or_empty (ir_workflow_input r))),
           (''workflow_checkpoint'', PDict (or_empty (ir_workflow_checkpoint r))),
           (''workflow_replay_contract'', PStr (ir_workflow_replay_contract r)),
           (''workflow_replay_digest'', PStr (en_digest env name (ir_workflow_version r)
              (or_empty (ir_workflow_input r)) (or_empty (ir_workflow_checkpoint r))))] base)"

definition input_entry ::
  "session_env \<Rightarrow> store \<Rightarrow> input_request \<Rightarrow> jobj \<Rightarrow> string option \<Rightarrow> string option \<Rightarrow> nat \<Rightarrow> entry_draft option result" where
  "input_entry env st r metadata edit_parent_id parent n =
     (if ir_placement r \<noteq> PlacementPlaced then Inr None
      else
      bind_r (input_payload r metadata edit_parent_id) (\<lambda>payload.
      bind_r (entry_draft_init \<lparr>ed_entry_id = ''entry-'' @ en_uuid env (st_sequence st) n,
          ed_conversation_id = ir_conversation_id r, ed_parent_id = parent, ed_kind = ''user_message'',
          ed_payload = payload, ed_commit_seq = 0, ed_by_task_id = Some (ir_task_id r)\<rparr>) (\<lambda>e. Inr (Some e))))"

definition input_submission ::
  "session_env \<Rightarrow> store \<Rightarrow> input_request \<Rightarrow> jobj \<Rightarrow> string \<Rightarrow> entry_draft option \<Rightarrow> nat \<Rightarrow> submission_draft result" where
  "input_submission env st r metadata digest entry n =
     submission_draft_init
       \<lparr>sd_submission_id = ''submission-'' @ en_uuid env (st_sequence st) n, sd_request_id = ir_request_id r,
        sd_conversation_id = ir_conversation_id r, sd_entry = entry, sd_fingerprint = digest, sd_status = SubQueued,
        sd_placement = ir_placement r, sd_mode = ir_mode r,
        sd_content = Some [(''text'', PStr (ir_text r)), (''message_metadata'', PDict metadata)], sd_reason = None\<rparr>"

definition input_task :: "session_env \<Rightarrow> input_request \<Rightarrow> string \<Rightarrow> entry_draft option \<Rightarrow> task_checkpoint result" where
  "input_task env r submission_id entry =
     task_checkpoint_init None
       \<lparr>tc_task_id = ir_task_id r, tc_conversation_id = ir_conversation_id r, tc_submission_id = submission_id,
        tc_phase = ir_initial_phase r, tc_revision = 0, tc_provider_snapshot = ir_provider_snapshot r,
        tc_state = input_state env r entry, tc_current_turn_id = None, tc_pending_effect_id = None,
        tc_status = Pending, tc_schema_version = TASK_CHECKPOINT_SCHEMA_VERSION\<rparr>"

text \<open>
  What admission decides: the result of an earlier admission of the same request, or a
  mutation. \<open>input_base\<close> is the head, the revision and the creation it starts from.
\<close>

datatype admission = Admitted commit_result | Admit durable_mutation

definition input_base ::
  "store \<Rightarrow> input_request \<Rightarrow> (string option \<times> int \<times> create_conversation option) result" where
  "input_base st r =
     (if has_conversation st (ir_conversation_id r)
      then bind_r (store_head st (ir_conversation_id r)) (\<lambda>(head, revision). Inr (head, revision, ir_creation r))
      else (case ir_creation r of
          Some c \<Rightarrow> Inr (None, 0, Some c)
        | None \<Rightarrow> bind_r (create_conversation_init \<lparr>cc_parent_conversation_id = None, cc_parent_entry_id = None\<rparr>)
            (\<lambda>c. Inr (None, 0, Some c))))"

definition edit_base ::
  "session_env \<Rightarrow> store \<Rightarrow> input_request \<Rightarrow> string option \<Rightarrow> int \<Rightarrow> (string option \<times> string option \<times> string list) result" where
  "edit_base env st r head revision =
     (case request_edit r of
        None \<Rightarrow> Inr (head, None, [])
      | Some edit \<Rightarrow> prepare_edit env st (ir_conversation_id r) revision edit
          (ir_placement r = PlacementPlaced) (ir_tool_results r \<noteq> []))"

definition edited_id :: "input_request \<Rightarrow> string option result" where
  "edited_id r =
     (case request_edit r of
        None \<Rightarrow> Inr None
      | Some edit \<Rightarrow> bind_r (lookup_key edit ''entry_id'' ''entry_id'') (\<lambda>v. bind_r (py_str v) (\<lambda>t. Inr (Some t))))"

definition new_input ::
  "session_env \<Rightarrow> store \<Rightarrow> input_request \<Rightarrow> jobj \<Rightarrow> string \<Rightarrow> string option \<Rightarrow> int \<Rightarrow> create_conversation option
    \<Rightarrow> durable_mutation result" where
  "new_input env st r metadata digest head0 revision creation =
     bind_r (edit_base env st r head0 revision) (\<lambda>(head, edit_parent_id, replaced).
     if creation \<noteq> None \<and> ir_tool_results r \<noteq> []
     then Inl (CommitConflict ''a new conversation has no unanswered tool calls'')
     else
     bind_r (append_tool_results env st (ir_conversation_id r) head (map PDict (ir_tool_results r)) (ir_task_id r)) (\<lambda>results.
     let parent = (if results = [] then head else Some (ed_entry_id (last results))) in
     bind_r (input_entry env st r metadata edit_parent_id parent (length results)) (\<lambda>entry.
     bind_r (input_submission env st r metadata digest entry (length results + length (opt_list entry))) (\<lambda>d.
     bind_r (input_task env r (sd_submission_id d) entry) (\<lambda>t.
     bind_r (edited_id r) (\<lambda>edited.
     durable_mutation_init ((empty_mutation (ir_conversation_id r) revision)
       \<lparr>dm_entries := results @ opt_list entry, dm_submission := Some d, dm_task := Some t,
        dm_create_conversation := creation, dm_edited_entry_id := edited, dm_replaced_run_ids := replaced\<rparr>)))))))"

definition plan_input :: "session_env \<Rightarrow> store \<Rightarrow> input_request \<Rightarrow> admission result" where
  "plan_input env st r =
     (if strip (ir_text r) = [] then Inl (ValueError ''input text is required'')
      else
      bind_r (message_metadata (ir_task_state r)) (\<lambda>metadata.
      bind_r (check_request st r) (\<lambda>_.
      bind_r (input_base st r) (\<lambda>(head, revision, creation).
      bind_r (fingerprint env (input_identity r metadata)) (\<lambda>digest.
      bind_r (submission_result_for_request st (ir_conversation_id r) (ir_request_id r) digest) (\<lambda>existing.
      case existing of
        Some result \<Rightarrow> Inr (Admitted result)
      | None \<Rightarrow> bind_r (new_input env st r metadata digest head revision creation) (\<lambda>m. Inr (Admit m))))))))"

definition carry_out :: "session_env \<Rightarrow> admission \<Rightarrow> (session, commit_result) action" where
  "carry_out env plan = (case plan of Admitted result \<Rightarrow> return_s result | Admit m \<Rightarrow> session_commit env m)"

definition admit_input :: "session_env \<Rightarrow> input_request \<Rightarrow> (session, commit_result) action" where
  "admit_input env r = mutation_line (bind_s (reads (\<lambda>st. plan_input env st r)) (carry_out env))"

section \<open>Passive writes\<close>

record write_request =
  wr_conversation_id :: string
  wr_request_id :: string
  wr_kind :: string
  wr_data :: pyval
  wr_display_only :: bool
  wr_model :: pyval
  wr_edits :: pyval
  wr_head :: "string option"
  wr_placement :: submission_placement
  wr_expected_revision :: "int option"
  wr_expected_head :: "string option"

definition validate_write_fields :: "write_request \<Rightarrow> (jobj option \<times> pyval list option) result" where
  "validate_write_fields w =
     (if wr_kind w = [] \<or> starts_with ''pi.'' (wr_kind w)
      then Inl (ValueError ''write kind must be non-empty and outside the reserved pi namespace'')
      else if as_mapping (wr_data w) = None then Inl (ValueError ''write data must be an object'')
      else
      bind_r (normalize_passive_fields (wr_model w) (wr_edits w)) (\<lambda>(model, edits).
      if wr_head w = Some [] then Inl (ValueError ''head must be \"self\" or a non-empty entry ID'')
      else if wr_display_only w \<and> (model \<noteq> None \<or> edits \<noteq> None \<or> wr_head w \<noteq> None)
      then Inl (ValueError ''display-only writes cannot carry context metadata'')
      else Inr (model, edits)))"

definition validate_write_fence :: "write_request \<Rightarrow> unit result" where
  "validate_write_fence w =
     (case wr_expected_revision w of
        Some n \<Rightarrow>
          if n < 0 then Inl (ValueError ''expected revision must be a non-negative integer'')
          else if wr_placement w \<noteq> PlacementPlaced
          then Inl (ValueError ''a revision-fenced write must be placed immediately'')
          else raise_if (wr_expected_head w = Some []) (ValueError ''expected head must be a non-empty entry ID'')
      | None \<Rightarrow>
          (case wr_expected_head w of
             None \<Rightarrow> Inr ()
           | Some h \<Rightarrow> if h = [] then Inl (ValueError ''expected head must be a non-empty entry ID'')
               else Inl (ValueError ''expected head requires an expected revision'')))"

definition optional_field :: "string \<Rightarrow> pyval option \<Rightarrow> jobj" where
  "optional_field key v = (case v of None \<Rightarrow> [] | Some x \<Rightarrow> [(key, x)])"

text \<open>The payload of a write that is placed, shared with the inbox.\<close>

definition write_payload ::
  "jobj \<Rightarrow> bool \<Rightarrow> jobj option \<Rightarrow> pyval list option \<Rightarrow> string option \<Rightarrow> jobj" where
  "write_payload data display_only model edits head =
     [(''data'', PDict data), (''display_only'', PBool display_only)]
     @ optional_field ''model'' (map_option PDict model) @ optional_field ''edits'' (map_option PList edits)
     @ (case head of None \<Rightarrow> [] | Some h \<Rightarrow> [(''head'', PStr h), (''head_marker'', PBool True)])"

definition write_content :: "write_request \<Rightarrow> jobj option \<Rightarrow> pyval list option \<Rightarrow> jobj" where
  "write_content w model edits =
     [(''kind'', PStr (wr_kind w)), (''data'', PDict (or_empty (as_mapping (wr_data w)))),
      (''display_only'', PBool (wr_display_only w))]
     @ optional_field ''model'' (map_option PDict model) @ optional_field ''edits'' (map_option PList edits)
     @ optional_field ''head'' (map_option PStr (wr_head w))"

definition write_identity :: "write_request \<Rightarrow> jobj option \<Rightarrow> pyval list option \<Rightarrow> jobj" where
  "write_identity w model edits =
     [(''kind'', PStr (wr_kind w)), (''data'', PDict (or_empty (as_mapping (wr_data w)))),
      (''display_only'', PBool (wr_display_only w)),
      (''model'', case model of None \<Rightarrow> PNone | Some d \<Rightarrow> PDict d),
      (''edits'', case edits of None \<Rightarrow> PNone | Some es \<Rightarrow> PList es), (''head'', opt_str (wr_head w)),
      (''placement'', PStr (placement_value (wr_placement w))), (''mode'', PStr ''write'')]
     @ optional_field ''expected_revision'' (map_option PInt (wr_expected_revision w))
     @ optional_field ''expected_head'' (map_option PStr (wr_expected_head w))"

definition write_base :: "store \<Rightarrow> write_request \<Rightarrow> (string option \<times> int \<times> create_conversation option) result" where
  "write_base st w =
     (if has_conversation st (wr_conversation_id w)
      then bind_r (store_head st (wr_conversation_id w)) (\<lambda>(head, revision). Inr (head, revision, None))
      else bind_r (create_conversation_init \<lparr>cc_parent_conversation_id = None, cc_parent_entry_id = None\<rparr>)
        (\<lambda>c. Inr (None, 0, Some c)))"

definition write_stale ::
  "session_env \<Rightarrow> store \<Rightarrow> write_request \<Rightarrow> create_conversation option \<Rightarrow> bool result" where
  "write_stale env st w creation =
     (case wr_head w of
        None \<Rightarrow> Inr False
      | Some h \<Rightarrow>
          if h = ''self'' then Inr False
          else if creation \<noteq> None then Inr True
          else bind_r (visible_context env st (wr_conversation_id w) None) (\<lambda>path.
            Inr (h \<notin> set (map ed_entry_id path))))"

definition new_write ::
  "session_env \<Rightarrow> store \<Rightarrow> write_request \<Rightarrow> jobj option \<Rightarrow> pyval list option \<Rightarrow> string
    \<Rightarrow> string option \<Rightarrow> int \<Rightarrow> create_conversation option \<Rightarrow> durable_mutation result" where
  "new_write env st w model edits digest head revision creation =
     bind_r (write_stale env st w creation) (\<lambda>stale.
     if stale \<and> wr_expected_revision w \<noteq> None
     then Inl (CommitConflict ''a revision-fenced write cannot be queued for a stale head'')
     else
     bind_r (if wr_placement w = PlacementPlaced \<and> \<not> stale
       then bind_r (entry_draft_init \<lparr>ed_entry_id = ''entry-'' @ en_uuid env (st_sequence st) 0,
           ed_conversation_id = wr_conversation_id w, ed_parent_id = head, ed_kind = wr_kind w,
           ed_payload = write_payload (or_empty (as_mapping (wr_data w))) (wr_display_only w) model edits (wr_head w),
           ed_commit_seq = 0, ed_by_task_id = None\<rparr>) (\<lambda>e. Inr (Some e))
       else Inr None) (\<lambda>entry.
     bind_r (submission_draft_init
         \<lparr>sd_submission_id = ''submission-'' @ en_uuid env (st_sequence st) (length (opt_list entry)),
          sd_request_id = wr_request_id w, sd_conversation_id = wr_conversation_id w, sd_entry = entry,
          sd_fingerprint = digest,
          sd_status = (if stale then SubUnanswered else if wr_placement w = PlacementPlaced then SubDone else SubQueued),
          sd_placement = (if stale then PlacementQueued else wr_placement w), sd_mode = ''write'',
          sd_content = Some (write_content w model edits), sd_reason = (if stale then Some ''stale'' else None)\<rparr>) (\<lambda>d.
     durable_mutation_init ((empty_mutation (wr_conversation_id w) revision)
       \<lparr>dm_entries := opt_list entry, dm_submission := Some d, dm_create_conversation := creation\<rparr>))))"

definition plan_write :: "session_env \<Rightarrow> store \<Rightarrow> write_request \<Rightarrow> admission result" where
  "plan_write env st w =
     bind_r (validate_write_fields w) (\<lambda>(model, edits).
     bind_r (validate_write_fence w) (\<lambda>_.
     bind_r (fingerprint env (write_identity w model edits)) (\<lambda>digest.
     bind_r (submission_result_for_request st (wr_conversation_id w) (wr_request_id w) digest) (\<lambda>existing.
     case existing of
       Some result \<Rightarrow> Inr (Admitted result)
     | None \<Rightarrow>
         bind_r (write_base st w) (\<lambda>(head, revision, creation).
         if wr_expected_revision w \<noteq> None \<and> wr_expected_revision w \<noteq> Some revision
         then Inl (CommitConflict ''conversation revision changed'')
         else if wr_expected_head w \<noteq> None \<and> wr_expected_head w \<noteq> head
         then Inl (CommitConflict ''conversation head changed'')
         else bind_r (new_write env st w model edits digest head revision creation) (\<lambda>m. Inr (Admit m)))))))"

definition admit_write :: "session_env \<Rightarrow> write_request \<Rightarrow> (session, commit_result) action" where
  "admit_write env w = mutation_line (bind_s (reads (\<lambda>st. plan_write env st w)) (carry_out env))"

section \<open>Forking a task\<close>

definition PRESERVED_KEYS :: "string list" where
  "PRESERVED_KEYS =
     [''project'', ''max_turns'', ''provider_id'', ''intent'', ''task_kind'', ''requested_capabilities'',
      ''strict_research'', ''sources_open_required'', ''project_changes_required'', ''denied_capabilities'',
      ''required_tools'', ''model_selection'', ''task_policy'', ''reviewer_selection'']"

definition task_at :: "store \<Rightarrow> string \<Rightarrow> int \<Rightarrow> task_snapshot result" where
  "task_at st task_id commit_seq =
     (if commit_seq < 0 then Inl (ValueError ''historical commit sequence must be a non-negative integer'')
      else snapshot_at (task_history st task_id (Some commit_seq)))"

definition fork_request ::
  "task_snapshot \<Rightarrow> string \<Rightarrow> string \<Rightarrow> string \<Rightarrow> string \<Rightarrow> string \<Rightarrow> input_request result" where
  "fork_request snapshot source_task_id conversation_id task_id request_id instruction =
     (if ts_head_entry_id snapshot = None then Inl (CommitConflict ''historical task has no conversation entry'')
      else if list_ex (\<lambda>e. ef_settlement e = None) (ts_effects snapshot)
      then Inl (CommitConflict ''cannot fork a checkpoint with unsettled external effects'')
      else
      let source = ts_task snapshot;
          preserved = List.map_filter (\<lambda>k. map_option (Pair k) (map_of (tc_state source) k)) PRESERVED_KEYS in
      bind_r (create_conversation_init \<lparr>cc_parent_conversation_id = Some (tc_conversation_id source),
          cc_parent_entry_id = ts_head_entry_id snapshot\<rparr>) (\<lambda>creation.
      Inr \<lparr>ir_conversation_id = conversation_id, ir_request_id = request_id, ir_task_id = task_id,
           ir_text = instruction, ir_provider_snapshot = tc_provider_snapshot source,
           ir_task_state = Some (dupdate
             [(''task'', PStr instruction), (''continue_task'', PBool False),
              (''workflow_origin'', PDict [(''task_id'', PStr source_task_id),
                 (''commit_seq'', PInt (ts_commit_seq snapshot))])] preserved),
           ir_initial_phase = ''accepted'', ir_tool_results = [], ir_owner_task_id = None,
           ir_abandon_on_restart = False, ir_workflow_name = None, ir_workflow_version = 1,
           ir_workflow_input = None, ir_workflow_checkpoint = None, ir_workflow_replay_contract = ''deterministic-v1'',
           ir_creation = Some creation, ir_placement = PlacementPlaced, ir_mode = ''follow_up''\<rparr>))"

definition fork_task ::
  "session_env \<Rightarrow> string \<Rightarrow> int \<Rightarrow> string \<Rightarrow> string \<Rightarrow> string \<Rightarrow> string \<Rightarrow> (session, commit_result) action" where
  "fork_task env source_task_id commit_seq conversation_id task_id request_id instruction = mutation_line (
     bind_s (reads (\<lambda>st. bind_r (task_at st source_task_id commit_seq) (\<lambda>snapshot.
       bind_r (fork_request snapshot source_task_id conversation_id task_id request_id instruction) (\<lambda>r. plan_input env st r))))
       (carry_out env))"

end
