(* ===== verification/Session_Inbox.thy ===== *)
theory Session_Inbox
  imports Session_Admission
begin

text \<open>
  The inbox of \<^verbatim>\<open>codey/durable/session.py\<close>: queued submissions are revised,
  withdrawn, and placed into the conversation one at a time or together at a generation
  boundary; approvals are settled with the tool results that wake their task; workflows are
  migrated. The read side is \<^verbatim>\<open>codey/durable/inbox.py\<close>.
\<close>

section \<open>Small steps\<close>

definition read_submission :: "string \<Rightarrow> (session, submission_record) action" where
  "read_submission sid = reads (\<lambda>st. store_submission st sid)"

definition terminal_checkpoint :: "task_checkpoint \<Rightarrow> bool" where
  "terminal_checkpoint t = (tc_status t \<in> {Cancelled, Failed, Completed})"

definition transform_task_state ::
  "session_env \<Rightarrow> string \<Rightarrow> (task_checkpoint \<Rightarrow> jobj option result) \<Rightarrow> (session, commit_result option) action" where
  "transform_task_state env task_id transform = mutation_line (
     bind_s (read_task task_id) (\<lambda>current.
     bind_s (raising (transform current)) (\<lambda>patch.
     case patch of
       None \<Rightarrow> return_s None
     | Some state \<Rightarrow> bind_s (update_task_state env task_id state (Some (tc_revision current))) (\<lambda>r. return_s (Some r)))))"

text \<open>\<open>execution\<close>: the check on entry, which yields the binding of the calling context.\<close>

definition begin_execution :: "string \<Rightarrow> string \<Rightarrow> (session, string \<times> string) action" where
  "begin_execution task_id token =
     bind_s ensure_usable (\<lambda>_.
     bind_s (read_task task_id) (\<lambda>current.
     if tc_status current \<noteq> Running \<or> attempt_token current \<noteq> token
     then raising (Inl (CommitConflict ''task execution attempt changed''))
     else return_s (task_id, token)))"

section \<open>Withdrawing and revising\<close>

definition withdrawal_update :: "submission_record \<Rightarrow> string \<Rightarrow> submission_update" where
  "withdrawal_update r cid = (submission_update_of r cid SubUnanswered None (Some ''aborted''))\<lparr>su_expected_status := SubQueued\<rparr>"

definition withdraw_input ::
  "session_env \<Rightarrow> string \<Rightarrow> submission_record \<Rightarrow> (session, commit_result) action" where
  "withdraw_input env cid r =
     bind_s (reads (\<lambda>st. Inr (List.find (\<lambda>t. tc_submission_id t = sr_submission_id r) (store_tasks st)))) (\<lambda>found.
     case found of
       None \<Rightarrow> raising (Inl (CommitConflict ''queued input has no task checkpoint''))
     | Some t \<Rightarrow>
         if tc_status t \<noteq> Pending then raising (Inl (CommitConflict ''queued input is no longer pending''))
         else
         bind_s (head_revision cid) (\<lambda>revision.
         bind_s (reads (\<lambda>st. raise_if (list_ex (\<lambda>e. ef_settlement e = None) (effects_for_task st (tc_task_id t)))
             (CommitConflict ''queued input has unsettled effects''))) (\<lambda>_.
         bind_s (raising (task_replace (t\<lparr>tc_phase := ''cancelled'', tc_revision := tc_revision t + 1,
             tc_state := dupdate [(''cancel_requested'', PBool True), (''cancel_reason'', PStr ''aborted''),
               (''pending_effect_ids'', PList [])] (release_attempt_state (tc_state t)),
             tc_pending_effect_id := None, tc_status := Cancelled\<rparr>))) (\<lambda>next_task.
         bind_s (raising (submission_update_init (withdrawal_update r cid))) (\<lambda>u.
         commit_mutation env ((empty_mutation cid revision)\<lparr>dm_task := Some next_task, dm_sub_update := Some u\<rparr>))))))"

definition withdraw_write ::
  "session_env \<Rightarrow> string \<Rightarrow> submission_record \<Rightarrow> (session, commit_result) action" where
  "withdraw_write env cid r =
     bind_s (head_revision cid) (\<lambda>revision.
     bind_s (raising (submission_update_init (withdrawal_update r cid))) (\<lambda>u.
     commit_mutation env ((empty_mutation cid revision)\<lparr>dm_sub_update := Some u\<rparr>)))"

definition withdraw_queued_submission_at ::
  "session_env \<Rightarrow> string \<Rightarrow> int \<Rightarrow> string option \<Rightarrow> (session, commit_result) action" where
  "withdraw_queued_submission_at env cid position expected = mutation_line (
     if position < 0 then raising (Inl (ValueError ''queued submission position must be a non-negative integer''))
     else
     bind_s (reads (\<lambda>st. queued_submissions st (Some cid))) (\<lambda>queued.
     if int (length queued) \<le> position
     then raising (Inl (IndexError ''queued submission position is out of range''))
     else let r = queued ! nat position in
       if expected \<noteq> None \<and> Some (sr_submission_id r) \<noteq> expected
       then raising (Inl (CommitConflict ''queued submission position changed''))
       else if sr_mode r \<noteq> ''write'' then withdraw_input env cid r else withdraw_write env cid r))"

definition revisable :: "task_checkpoint \<Rightarrow> submission_record \<Rightarrow> bool" where
  "revisable current r =
     (tc_status current = Pending \<and> tc_phase current = ''accepted''
      \<and> pget (tc_state current) ''input_state'' = PStr ''queued'' \<and> attempt_token current = []
      \<and> sr_placement r = PlacementQueued \<and> sr_status r = SubQueued)"

definition revised_state :: "string option \<Rightarrow> string option \<Rightarrow> jobj \<Rightarrow> jobj" where
  "revised_state text mode state =
     (let s1 = (case text of None \<Rightarrow> state | Some t \<Rightarrow> dset ''task'' (PStr t) (dset ''input_text'' (PStr t) state))
      in case mode of None \<Rightarrow> s1 | Some m \<Rightarrow> dset ''input_mode'' (PStr m) s1)"

definition revision_update ::
  "task_checkpoint \<Rightarrow> submission_record \<Rightarrow> string option \<Rightarrow> string option \<Rightarrow> submission_update" where
  "revision_update current r text mode =
     (submission_update_of r (tc_conversation_id current) (sr_status r) None None)
       \<lparr>su_content := (case text of None \<Rightarrow> None | Some t \<Rightarrow> Some (dset ''text'' (PStr t) (or_empty (sr_content r)))),
        su_mode := mode\<rparr>"

definition revise_queued_input ::
  "session_env \<Rightarrow> string \<Rightarrow> int \<Rightarrow> string option \<Rightarrow> string option \<Rightarrow> (session, commit_result) action" where
  "revise_queued_input env task_id expected_revision text mode = mutation_line (
     bind_s (read_task task_id) (\<lambda>current.
     if tc_revision current \<noteq> expected_revision then raising (Inl (CommitConflict ''input revision conflict''))
     else
     bind_s (read_submission (tc_submission_id current)) (\<lambda>r.
     if \<not> revisable current r then raising (Inl (CommitConflict ''input is already placed or settled''))
     else if (case text of None \<Rightarrow> False | Some t \<Rightarrow> strip t = [] \<or> length (strip t) > 64000)
     then raising (Inl (ValueError ''invalid input text''))
     else if mode \<noteq> None \<and> mode \<notin> {Some ''steer'', Some ''follow_up''}
     then raising (Inl (ValueError ''invalid input mode''))
     else if as_mapping (pget (tc_state current) ''input_request'') = None
     then raising (Inl (CommitConflict ''queued input request unavailable''))
     else
     bind_s (head_revision (tc_conversation_id current)) (\<lambda>revision.
     bind_s (raising (task_replace (current\<lparr>tc_revision := tc_revision current + 1,
         tc_state := revised_state text mode (tc_state current)\<rparr>))) (\<lambda>t.
     bind_s (raising (submission_update_init (revision_update current r text mode))) (\<lambda>u.
     commit_mutation env ((empty_mutation (tc_conversation_id current) revision)
       \<lparr>dm_task := Some t, dm_sub_update := Some u\<rparr>)))))))"

section \<open>Placing\<close>

record placement =
  bp_entry :: "entry_draft option"
  bp_task :: "task_checkpoint option"
  bp_update :: submission_update

record queued_write =
  qw_kind :: string
  qw_data :: jobj
  qw_display_only :: bool
  qw_model :: "jobj option"
  qw_edits :: "pyval list option"
  qw_head :: "string option"

text \<open>The checks on the content of a queued write, which the source spells out twice.\<close>

definition read_head_target :: "pyval \<Rightarrow> string option option" where
  "read_head_target v = (case v of PNone \<Rightarrow> Some None | PStr s \<Rightarrow> if s = [] then None else Some (Some s) | _ \<Rightarrow> None)"

definition normalized_fields :: "pyval \<Rightarrow> pyval \<Rightarrow> (jobj option \<times> pyval list option) result" where
  "normalized_fields model edits =
     (case normalize_passive_fields (if is_mapping model then model else PNone)
         (if as_sequence edits = None then PNone else edits) of
        Inl (ValueError e) \<Rightarrow> Inl (CommitConflict ''queued write content is invalid'')
      | Inl e \<Rightarrow> Inl e
      | Inr normalized \<Rightarrow> Inr normalized)"

definition read_queued_write :: "jobj option \<Rightarrow> queued_write result" where
  "read_queued_write content =
     (case content of
        None \<Rightarrow> Inl (CommitConflict ''queued write has no content'')
      | Some c \<Rightarrow>
          (case (pget c ''kind'', as_mapping (pget c ''data''), pget c ''display_only'', read_head_target (pget c ''head'')) of
             (PStr kind, Some data, PBool display_only, Some head) \<Rightarrow>
               if kind = [] then Inl (CommitConflict ''queued write content is invalid'')
               else
               bind_r (normalized_fields (pget c ''model'') (pget c ''edits'')) (\<lambda>(model, edits).
               if pget c ''model'' \<noteq> PNone \<and> model = None then Inl (CommitConflict ''queued write model is invalid'')
               else if pget c ''edits'' \<noteq> PNone \<and> edits = None then Inl (CommitConflict ''queued write edits are invalid'')
               else if display_only \<and> (model \<noteq> None \<or> edits \<noteq> None \<or> head \<noteq> None)
               then Inl (CommitConflict ''display-only writes cannot carry context metadata'')
               else Inr \<lparr>qw_kind = kind, qw_data = data, qw_display_only = display_only, qw_model = model,
                         qw_edits = edits, qw_head = head\<rparr>)
           | _ \<Rightarrow> Inl (CommitConflict ''queued write content is invalid'')))"

definition stale_update :: "submission_record \<Rightarrow> submission_update" where
  "stale_update r = submission_update_of r (sr_conversation_id r) SubUnanswered None (Some ''stale'')"

definition placed_update :: "submission_record \<Rightarrow> submission_status \<Rightarrow> jobj option \<Rightarrow> entry_draft \<Rightarrow> submission_update" where
  "placed_update r status detail e =
     (submission_update_of r (sr_conversation_id r) status None None)
       \<lparr>su_detail := detail, su_input_entry_id := Some (ed_entry_id e), su_placement := Some PlacementPlaced\<rparr>"

definition write_entry :: "string \<Rightarrow> submission_record \<Rightarrow> queued_write \<Rightarrow> string option \<Rightarrow> entry_draft result" where
  "write_entry uuid r q parent =
     entry_draft_init \<lparr>ed_entry_id = ''entry-'' @ uuid, ed_conversation_id = sr_conversation_id r,
       ed_parent_id = parent, ed_kind = qw_kind q,
       ed_payload = write_payload (qw_data q) (qw_display_only q) (qw_model q) (qw_edits q) (qw_head q),
       ed_commit_seq = 0, ed_by_task_id = None\<rparr>"

definition queued_text :: "submission_record \<Rightarrow> string result" where
  "queued_text r =
     (case pget (or_empty (sr_content r)) ''text'' of
        PStr t \<Rightarrow> if strip t = [] then Inl (CommitConflict ''queued submission has no input text'') else Inr t
      | _ \<Rightarrow> Inl (CommitConflict ''queued submission has no input text''))"

definition user_entry ::
  "string \<Rightarrow> string \<Rightarrow> submission_record \<Rightarrow> task_checkpoint \<Rightarrow> string option \<Rightarrow> entry_draft result" where
  "user_entry uuid cid r t parent =
     bind_r (queued_text r) (\<lambda>body.
     bind_r (message_metadata (sr_content r)) (\<lambda>metadata.
     entry_draft_init \<lparr>ed_entry_id = ''entry-'' @ uuid, ed_conversation_id = cid, ed_parent_id = parent,
       ed_kind = ''user_message'', ed_payload = dupdate metadata [(''text'', PStr body)], ed_commit_seq = 0,
       ed_by_task_id = Some (tc_task_id t)\<rparr>))"

definition placed_state :: "task_checkpoint \<Rightarrow> entry_draft \<Rightarrow> jobj" where
  "placed_state t e =
     dset ''input_entry_id'' (PStr (ed_entry_id e)) (dset ''input_state'' (PStr ''placed'') (thaw_obj (tc_state t)))"

text \<open>\<open>_settle_stale_write\<close> and \<open>_place_write_submission\<close>.\<close>

definition settle_stale_write :: "session_env \<Rightarrow> submission_record \<Rightarrow> (session, commit_result) action" where
  "settle_stale_write env r =
     bind_s (head_revision (sr_conversation_id r)) (\<lambda>revision.
     bind_s (raising (submission_update_init (stale_update r))) (\<lambda>u.
     commit_mutation env ((empty_mutation (sr_conversation_id r) revision)\<lparr>dm_sub_update := Some u\<rparr>)))"

definition hidden_target :: "session_env \<Rightarrow> store \<Rightarrow> string \<Rightarrow> string option \<Rightarrow> bool result" where
  "hidden_target env st cid head =
     (case head of
        None \<Rightarrow> Inr False
      | Some h \<Rightarrow> if h = ''self'' then Inr False
          else bind_r (visible_context env st cid None) (\<lambda>path. Inr (h \<notin> set (map ed_entry_id path))))"

definition place_write_submission :: "session_env \<Rightarrow> submission_record \<Rightarrow> (session, commit_result) action" where
  "place_write_submission env r =
     bind_s (raising (read_queued_write (sr_content r))) (\<lambda>q.
     bind_s (reads (\<lambda>st. hidden_target env st (sr_conversation_id r) (qw_head q))) (\<lambda>stale.
     if stale then settle_stale_write env r
     else
     bind_s (reads (\<lambda>st. store_head st (sr_conversation_id r))) (\<lambda>(head, revision).
     bind_s (reads (\<lambda>st. write_entry (en_uuid env (st_sequence st) 0) r q head)) (\<lambda>e.
     bind_s (raising (submission_update_init (placed_update r SubDone None e))) (\<lambda>u.
     commit_mutation env ((empty_mutation (sr_conversation_id r) revision)
       \<lparr>dm_entries := [e], dm_sub_update := Some u\<rparr>))))))"

definition place_input_submission ::
  "session_env \<Rightarrow> submission_record \<Rightarrow> task_checkpoint \<Rightarrow> (session, commit_result) action" where
  "place_input_submission env r t =
     bind_s (raising (queued_text r)) (\<lambda>_.
     bind_s (reads (\<lambda>st. store_head st (tc_conversation_id t))) (\<lambda>(head, revision).
     bind_s (reads (\<lambda>st. user_entry (en_uuid env (st_sequence st) 0) (tc_conversation_id t) r t head)) (\<lambda>e.
     bind_s (raising (task_replace (t\<lparr>tc_revision := tc_revision t + 1, tc_state := placed_state t e\<rparr>))) (\<lambda>next_task.
     bind_s (raising (submission_update_init (placed_update r (sr_status r) None e))) (\<lambda>u.
     commit_mutation env ((empty_mutation (tc_conversation_id t) revision)
       \<lparr>dm_entries := [e], dm_task := Some next_task, dm_sub_update := Some u,
        dm_expected_attempt_token := Some (attempt_token t)\<rparr>))))))"

definition place_submission :: "session_env \<Rightarrow> string \<Rightarrow> (session, commit_result) action" where
  "place_submission env sid = mutation_line (
     bind_s (read_submission sid) (\<lambda>r.
     if sr_placement r = PlacementPlaced
     then reads (\<lambda>st. Inr \<lparr>cres_revision = 0, cres_sequence = commit_sequence st, cres_submission_id = Some sid,
                           cres_record = None\<rparr>)
     else if sr_status r \<noteq> SubQueued then raising (Inl (CommitConflict ''only queued submissions may be placed''))
     else if sr_mode r = ''write'' then place_write_submission env r
     else
     bind_s (reads (\<lambda>st. Inr (List.find (\<lambda>t. tc_submission_id t = sid) (store_tasks st)))) (\<lambda>found.
     case found of
       None \<Rightarrow> raising (Inl (CommitConflict ''queued submission has no task''))
     | Some t \<Rightarrow>
         if terminal_checkpoint t then raising (Inl (CommitConflict ''cannot place a terminal task''))
         else place_input_submission env r t)))"

section \<open>Generation boundaries\<close>

definition boundary_write ::
  "(nat \<Rightarrow> string) \<Rightarrow> nat \<Rightarrow> string option \<Rightarrow> string list \<Rightarrow> submission_record \<Rightarrow> placement result" where
  "boundary_write uuid n head visible r =
     bind_r (read_queued_write (sr_content r)) (\<lambda>q.
     if qw_head q \<noteq> None \<and> qw_head q \<noteq> Some ''self'' \<and> the (qw_head q) \<notin> set visible
     then bind_r (submission_update_init (stale_update r)) (\<lambda>u.
            Inr \<lparr>bp_entry = None, bp_task = None, bp_update = u\<rparr>)
     else
     bind_r (write_entry (uuid n) r q head) (\<lambda>e.
     bind_r (submission_update_init (placed_update r SubDone None e)) (\<lambda>u.
     Inr \<lparr>bp_entry = Some e, bp_task = None, bp_update = u\<rparr>)))"

definition consumed_state :: "task_checkpoint \<Rightarrow> entry_draft \<Rightarrow> string option \<Rightarrow> jobj" where
  "consumed_state t e consumer =
     (case consumer of
        None \<Rightarrow> placed_state t e
      | Some c \<Rightarrow> dupdate [(''input_state'', PStr ''consumed''), (''consumed_by_task_id'', PStr c)] (placed_state t e))"

definition boundary_input ::
  "(nat \<Rightarrow> string) \<Rightarrow> nat \<Rightarrow> string option \<Rightarrow> string option \<Rightarrow> submission_record \<Rightarrow> task_checkpoint option
    \<Rightarrow> placement result" where
  "boundary_input uuid n head consumer r found =
     (case found of
        None \<Rightarrow> Inl (CommitConflict ''queued submission has no task'')
      | Some t \<Rightarrow>
          if terminal_checkpoint t then Inl (CommitConflict ''cannot place a terminal task'')
          else
          bind_r (user_entry (uuid n) (sr_conversation_id r) r t head) (\<lambda>e.
          let consumed = sr_mode r = ''steer'' \<and> consumer \<noteq> None in
          bind_r (task_replace (t\<lparr>tc_revision := tc_revision t + 1,
              tc_state := consumed_state t e (if consumed then consumer else None),
              tc_phase := (if consumed then ''completed'' else tc_phase t),
              tc_status := (if consumed then Completed else tc_status t)\<rparr>)) (\<lambda>next_task.
          bind_r (submission_update_init (placed_update r (if consumed then SubDone else sr_status r)
              (if consumed then Some [(''consumed_by_task_id'', opt_str consumer)] else None) e)) (\<lambda>u.
          Inr \<lparr>bp_entry = Some e, bp_task = Some next_task, bp_update = u\<rparr>))))"

definition boundary_placement ::
  "(nat \<Rightarrow> string) \<Rightarrow> nat \<Rightarrow> string option \<Rightarrow> string list \<Rightarrow> (string, task_checkpoint) dict \<Rightarrow> string option
    \<Rightarrow> submission_record \<Rightarrow> placement result" where
  "boundary_placement uuid n head visible tasks consumer r =
     (if sr_mode r = ''write'' then boundary_write uuid n head visible r
      else boundary_input uuid n head consumer r (map_of tasks (sr_submission_id r)))"

text \<open>The loop over the selection: the head, the visible ids and the uuid count move with each entry.\<close>

fun boundary_placements ::
  "(nat \<Rightarrow> string) \<Rightarrow> nat \<Rightarrow> string option \<Rightarrow> string list \<Rightarrow> (string, task_checkpoint) dict \<Rightarrow> string option
    \<Rightarrow> submission_record list \<Rightarrow> placement list result" where
  "boundary_placements uuid n head visible tasks consumer [] = Inr []"
| "boundary_placements uuid n head visible tasks consumer (r # rs) =
     bind_r (boundary_placement uuid n head visible tasks consumer r) (\<lambda>p.
     bind_r (case bp_entry p of
         None \<Rightarrow> boundary_placements uuid n head visible tasks consumer rs
       | Some e \<Rightarrow> boundary_placements uuid (Suc n) (Some (ed_entry_id e)) (ed_entry_id e # visible) tasks consumer rs)
       (\<lambda>ps. Inr (p # ps)))"

definition resets :: "submission_record \<Rightarrow> bool" where
  "resets r = (sr_mode r = ''write'' \<and> pget (or_empty (sr_content r)) ''head'' = PStr ''self'')"

definition select_users ::
  "string \<Rightarrow> string \<Rightarrow> string \<Rightarrow> string option \<Rightarrow> submission_record list \<Rightarrow> submission_record list" where
  "select_users boundary steering_mode follow_up_mode task_id queued =
     (let steers = filter (\<lambda>r. sr_mode r = ''steer'') queued;
          follow_ups = filter (\<lambda>r. sr_mode r = ''follow_up'') queued;
          users = (if boundary \<in> {''post_tools'', ''final''}
                   then if steering_mode = ''all'' then steers else take 1 steers else [])
      in if (boundary = ''final'' \<or> list_ex resets queued) \<and> users = [] \<and> task_id = None
         then if follow_up_mode = ''all'' then follow_ups else take 1 follow_ups
         else users)"

text \<open>
  The selection, writes first. The second component of the sort key is the position in the
  queue, which the stable sort keeps.
\<close>

definition select_boundary ::
  "string \<Rightarrow> string \<Rightarrow> string \<Rightarrow> string option \<Rightarrow> submission_record list \<Rightarrow> submission_record list" where
  "select_boundary boundary steering_mode follow_up_mode task_id queued =
     (let writes = (if boundary = ''settle'' then [] else filter (\<lambda>r. sr_mode r = ''write'') queued);
          ids = map sr_submission_id (writes @ select_users boundary steering_mode follow_up_mode task_id queued)
      in sort_key (\<lambda>r. if sr_mode r = ''write'' then 0 else 1 :: nat)
           (filter (\<lambda>r. sr_submission_id r \<in> set ids) queued))"

definition check_boundary :: "string \<Rightarrow> string \<Rightarrow> string \<Rightarrow> unit result" where
  "check_boundary boundary steering_mode follow_up_mode =
     (if boundary \<notin> {''post_tools'', ''approval'', ''final'', ''settle''} then Inl (ValueError ''unknown generation boundary'')
      else if steering_mode \<notin> {''all'', ''one-at-a-time''} then Inl (ValueError ''invalid steering queue mode'')
      else raise_if (follow_up_mode \<notin> {''all'', ''one-at-a-time''}) (ValueError ''invalid follow-up queue mode''))"

definition conversation_task_index :: "store \<Rightarrow> string \<Rightarrow> (string, task_checkpoint) dict" where
  "conversation_task_index st cid =
     dupdate (map (\<lambda>t. (tc_submission_id t, t)) (filter (\<lambda>t. tc_conversation_id t = cid) (store_tasks st))) []"

definition boundary_task :: "store \<Rightarrow> string \<Rightarrow> string \<Rightarrow> string option \<Rightarrow> task_checkpoint list result" where
  "boundary_task st cid boundary task_id =
     (case task_id of
        None \<Rightarrow> Inr []
      | Some tid \<Rightarrow>
          bind_r (store_task st tid) (\<lambda>active.
          if tc_conversation_id active \<noteq> cid
          then Inl (CommitConflict ''generation boundary task conversation mismatch'')
          else
          bind_r (task_replace (active\<lparr>tc_revision := tc_revision active + 1,
              tc_state := dset ''generation_boundary'' (PStr boundary) (thaw_obj (tc_state active))\<rparr>)) (\<lambda>t. Inr [t])))"

definition prepare_boundary_mutation ::
  "session_env \<Rightarrow> store \<Rightarrow> string \<Rightarrow> string \<Rightarrow> string \<Rightarrow> string \<Rightarrow> string option
    \<Rightarrow> (submission_record list \<times> durable_mutation) result" where
  "prepare_boundary_mutation env st cid boundary steering_mode follow_up_mode task_id =
     bind_r (check_boundary boundary steering_mode follow_up_mode) (\<lambda>_.
     bind_r (queued_submissions st (Some cid)) (\<lambda>queued.
     let selected = select_boundary boundary steering_mode follow_up_mode task_id queued in
     bind_r (store_head st cid) (\<lambda>(head, revision).
     bind_r (visible_context env st cid None) (\<lambda>path.
     bind_r (boundary_placements (en_uuid env (st_sequence st)) 0 head (map ed_entry_id path)
         (conversation_task_index st cid) task_id selected) (\<lambda>ps.
     bind_r (boundary_task st cid boundary task_id) (\<lambda>active.
     bind_r (durable_mutation_init ((empty_mutation cid revision)
         \<lparr>dm_entries := List.map_filter bp_entry ps, dm_task_updates := List.map_filter bp_task ps @ active,
          dm_sub_updates := map bp_update ps\<rparr>)) (\<lambda>m. Inr (selected, m))))))))"

definition read_submissions :: "submission_record list \<Rightarrow> (session, submission_record list) action" where
  "read_submissions selected = reads (\<lambda>st. map_r (\<lambda>r. store_submission st (sr_submission_id r)) selected)"

definition place_boundary_inputs ::
  "session_env \<Rightarrow> string \<Rightarrow> string \<Rightarrow> string \<Rightarrow> string \<Rightarrow> (session, submission_record list) action" where
  "place_boundary_inputs env cid boundary steering_mode follow_up_mode = mutation_line (
     bind_s (reads (\<lambda>st. prepare_boundary_mutation env st cid boundary steering_mode follow_up_mode None)) (\<lambda>(selected, m).
     if selected = [] then return_s []
     else bind_s (session_commit env m) (\<lambda>_. read_submissions selected)))"

definition commit_generation_boundary ::
  "session_env \<Rightarrow> string \<Rightarrow> string \<Rightarrow> string \<Rightarrow> string \<Rightarrow> string \<Rightarrow> (session, submission_record list) action" where
  "commit_generation_boundary env cid task_id boundary steering_mode follow_up_mode = mutation_line (
     bind_s (read_task task_id) (\<lambda>active.
     if tc_conversation_id active \<noteq> cid
     then raising (Inl (CommitConflict ''generation boundary task conversation mismatch''))
     else if terminal_checkpoint active
     then raising (Inl (CommitConflict ''cannot advance a terminal generation task''))
     else
     bind_s (reads (\<lambda>st. prepare_boundary_mutation env st cid boundary steering_mode follow_up_mode (Some task_id))) (\<lambda>(selected, m).
     case List.find (\<lambda>t. tc_task_id t = task_id) (dm_task_updates m) of
       None \<Rightarrow> raising (Inl (CommitConflict ''generation boundary mutation lost the active task''))
     | Some t \<Rightarrow>
         bind_s (commit_mutation env (m\<lparr>dm_task := Some t,
             dm_task_updates := filter (\<lambda>x. tc_task_id x \<noteq> task_id) (dm_task_updates m)\<rparr>)) (\<lambda>_.
         read_submissions selected))))"

text \<open>The entries of the boundary, put behind the entries of the mutation they join.\<close>

fun rebase_entries :: "string option \<Rightarrow> entry_draft list \<Rightarrow> entry_draft list result" where
  "rebase_entries parent [] = Inr []"
| "rebase_entries parent (e # es) =
     bind_r (entry_draft_init (e\<lparr>ed_parent_id := parent\<rparr>)) (\<lambda>e'.
     bind_r (rebase_entries (Some (ed_entry_id e')) es) (\<lambda>es'. Inr (e' # es')))"

definition boundary_receipt :: "string \<Rightarrow> durable_mutation \<Rightarrow> submission_record list \<Rightarrow> entry_draft list \<Rightarrow> pyval" where
  "boundary_receipt boundary m selected rebased =
     PDict [(''at'', PStr boundary),
       (''provider_effect_ids'', PList (map (\<lambda>e. PStr (ef_effect_id e))
          (filter (\<lambda>e. ef_category e = ''provider_send'') (dm_settlements m)))),
       (''submission_ids'', PList (map (\<lambda>r. PStr (sr_submission_id r)) selected)),
       (''conversation_revision'', PInt (dm_expected_revision m + int (length (dm_entries m)) + int (length rebased)))]"

definition merged_boundary ::
  "string \<Rightarrow> durable_mutation \<Rightarrow> task_checkpoint \<Rightarrow> submission_record list \<Rightarrow> durable_mutation \<Rightarrow> string option
    \<Rightarrow> durable_mutation result" where
  "merged_boundary boundary m t selected b base_head =
     bind_r (rebase_entries base_head (dm_entries b)) (\<lambda>rebased.
     bind_r (task_replace (t\<lparr>tc_state := dupdate
         [(''generation_boundary'', PStr boundary),
          (''generation_boundary_receipt'', boundary_receipt boundary m selected rebased)] (thaw_obj (tc_state t))\<rparr>)) (\<lambda>next_active.
     durable_mutation_init (m\<lparr>dm_entries := dm_entries m @ rebased, dm_task := Some next_active,
       dm_task_updates := dm_task_updates m @ filter (\<lambda>x. tc_task_id x \<noteq> tc_task_id t) (dm_task_updates b),
       dm_sub_updates := dm_sub_updates m @ dm_sub_updates b\<rparr>)))"

definition merge_generation_boundary ::
  "session_env \<Rightarrow> durable_mutation \<Rightarrow> string \<Rightarrow> string \<Rightarrow> string \<Rightarrow> string
    \<Rightarrow> (session, submission_record list \<times> durable_mutation) action" where
  "merge_generation_boundary env m task_id boundary steering_mode follow_up_mode = mutation_line (
     case dm_task m of
       None \<Rightarrow> raising (Inl (CommitConflict ''generation boundary mutation must own the active task''))
     | Some t \<Rightarrow>
         if tc_task_id t \<noteq> task_id
         then raising (Inl (CommitConflict ''generation boundary mutation must own the active task''))
         else
         bind_s (reads (\<lambda>st. prepare_boundary_mutation env st (dm_conversation_id m) boundary
             steering_mode follow_up_mode (Some task_id))) (\<lambda>(selected, b).
         if dm_expected_revision b \<noteq> dm_expected_revision m
         then raising (Inl (CommitConflict ''generation boundary conversation revision changed''))
         else
         bind_s (reads (\<lambda>st. if dm_entries m \<noteq> [] then Inr (Some (ed_entry_id (last (dm_entries m))))
             else bind_r (store_head st (dm_conversation_id m)) (\<lambda>h. Inr (fst h)))) (\<lambda>base_head.
         bind_s (raising (merged_boundary boundary m t selected b base_head)) (\<lambda>merged.
         return_s (selected, merged)))))"

section \<open>Settling an approval\<close>

text \<open>The effect settlement, the task and the approval status a settlement starts from.\<close>

datatype approval_step = NothingToSettle | SettleWith "effect_record option" task_checkpoint approval_status

definition settle_step :: "store \<Rightarrow> string \<Rightarrow> approval_record \<Rightarrow> task_checkpoint \<Rightarrow> jobj \<Rightarrow> approval_step result" where
  "settle_step st approval_id a current settlement =
     (case apr_status a of
        ExecutionClaimed \<Rightarrow>
          bind_r (store_effect st (''shell-'' @ approval_id)) (\<lambda>e.
          if ef_settlement e \<noteq> None then Inr NothingToSettle
          else if ef_status e = ''pending'' \<and> settlement = []
          then Inl (CommitConflict ''shell settlement payload is required'')
          else
          bind_r (effect_record_init (e\<lparr>ef_status := ''ok'', ef_settlement := Some settlement\<rparr>)) (\<lambda>settled.
          bind_r (with_effect_settlement current settled) (\<lambda>t.
          Inr (SettleWith (Some settled) t ExecutionSettled))))
      | Denied \<Rightarrow>
          bind_r (task_replace (current\<lparr>tc_revision := tc_revision current + 1\<rparr>)) (\<lambda>t. Inr (SettleWith None t Denied))
      | _ \<Rightarrow> Inl (CommitConflict ''shell approval is not settled or denied''))"

definition resumed_task :: "string \<Rightarrow> task_checkpoint \<Rightarrow> task_checkpoint result" where
  "resumed_task approval_id t =
     task_replace (t\<lparr>tc_state := release_attempt_state (dpop ''resume_entry_id''
         (dset ''resume_input'' (PDict [(''kind'', PStr ''resolve_shell_approval''), (''approval_id'', PStr approval_id)])
           (thaw_obj (tc_state t)))),
       tc_status := Pending\<rparr>)"

definition settle_approval ::
  "session_env \<Rightarrow> string \<Rightarrow> jobj \<Rightarrow> bool \<Rightarrow> pyval list \<Rightarrow> (session, commit_result option) action" where
  "settle_approval env approval_id settlement resume tool_results = mutation_line (
     bind_s (reads (\<lambda>st. store_approval st approval_id)) (\<lambda>a.
     bind_s (read_task (apr_task_id a)) (\<lambda>current.
     if apr_continuation_status a \<in> {''started'', ''cancelled''} then return_s None
     else
     bind_s (reads (\<lambda>st. settle_step st approval_id a current settlement)) (\<lambda>step.
     case step of
       NothingToSettle \<Rightarrow> return_s None
     | SettleWith settled t status \<Rightarrow>
         bind_s (reads (\<lambda>st. if tool_results = [] then Inr []
             else bind_r (store_head st (tc_conversation_id current)) (\<lambda>(head, revision).
               append_tool_results env st (tc_conversation_id current) head tool_results (tc_task_id current)))) (\<lambda>entries.
         bind_s (raising (if resume then resumed_task approval_id t else Inr t)) (\<lambda>next_task.
         bind_s (raising (approval_record_init (a\<lparr>apr_status := status, apr_revision := apr_revision a + 1,
             apr_settlement := Some settlement,
             apr_continuation_status := (if resume then ''started'' else ''not_required''),
             apr_continuation_run_id := (if resume then tc_task_id current else apr_continuation_run_id a)\<rparr>))) (\<lambda>updated.
         bind_s (head_revision (tc_conversation_id current)) (\<lambda>revision.
         bind_s (commit_mutation env ((empty_mutation (tc_conversation_id current) revision)
           \<lparr>dm_entries := entries, dm_task := Some next_task, dm_settlements := opt_list settled,
            dm_approval := Some updated, dm_expected_approval_status := Some (apr_status a),
            dm_expected_attempt_token := Some (attempt_token current)\<rparr>)) (\<lambda>r. return_s (Some r))))))))))"

section \<open>Workflows\<close>

text \<open>A workflow definition; its migration is a function argument.\<close>

record workflow_definition =
  wd_name :: string
  wd_version :: int
  wd_migrate :: "(jobj \<Rightarrow> pyval result) option"
  wd_replay_contract :: string

definition workflow_definition_init :: "workflow_definition \<Rightarrow> workflow_definition result" where
  "workflow_definition_init w =
     (if wd_name w = [] then Inl (ValueError ''workflow name is required'')
      else if wd_version w < 1 then Inl (ValueError ''workflow version must be a positive integer'')
      else if wd_replay_contract w = [] then Inl (ValueError ''workflow replay contract is required'')
      else Inr w)"

definition migrate_checkpoint :: "workflow_definition \<Rightarrow> jobj \<Rightarrow> int \<Rightarrow> jobj result" where
  "migrate_checkpoint w checkpoint from_version =
     (if from_version > wd_version w then Inl (ValueError ''stored workflow version is newer than definition'')
      else if from_version = wd_version w then Inr checkpoint
      else (case wd_migrate w of
          None \<Rightarrow> Inl (ValueError ''workflow migration is required'')
        | Some f \<Rightarrow> bind_r (f checkpoint) (\<lambda>migrated.
            case as_mapping migrated of
              None \<Rightarrow> Inl (ValueError ''workflow migration must return a mapping'') | Some d \<Rightarrow> Inr d)))"

definition migrated_state :: "session_env \<Rightarrow> workflow_definition \<Rightarrow> task_checkpoint \<Rightarrow> jobj \<Rightarrow> jobj" where
  "migrated_state env w t checkpoint = dupdate
     [(''workflow_version'', PInt (wd_version w)), (''workflow_checkpoint'', PDict checkpoint),
      (''workflow_replay_contract'', PStr (wd_replay_contract w)),
      (''workflow_replay_digest'', PStr (en_digest env (wd_name w) (wd_version w) (workflow_input t) checkpoint)),
      (''workflow_blocked_reason'', PNone)] (tc_state t)"

text \<open>One round of the loop: only a \<open>ValueError\<close> of the migration skips the task.\<close>

definition reconcile_workflow ::
  "session_env \<Rightarrow> (string, workflow_definition) dict \<Rightarrow> task_checkpoint \<Rightarrow> (session, string list) action" where
  "reconcile_workflow env definitions t =
     (case workflow_name t of
        None \<Rightarrow> return_s []
      | Some name \<Rightarrow>
          (case map_of definitions name of
             None \<Rightarrow> return_s []
           | Some w \<Rightarrow>
               if workflow_version t \<ge> wd_version w then return_s []
               else (case migrate_checkpoint w (workflow_checkpoint t) (workflow_version t) of
                   Inl (ValueError e) \<Rightarrow> return_s []
                 | Inl e \<Rightarrow> raising (Inl e)
                 | Inr checkpoint \<Rightarrow>
                     bind_s (commit_replaced env t (task_replace (t\<lparr>tc_revision := tc_revision t + 1,
                         tc_state := migrated_state env w t checkpoint\<rparr>)) (Some (attempt_token t))) (\<lambda>_.
                     return_s [tc_task_id t]))))"

fun reconcile_all ::
  "session_env \<Rightarrow> (string, workflow_definition) dict \<Rightarrow> task_checkpoint list \<Rightarrow> (session, string list) action" where
  "reconcile_all env definitions [] = return_s []"
| "reconcile_all env definitions (t # ts) =
     bind_s (reconcile_workflow env definitions t) (\<lambda>changed.
     bind_s (reconcile_all env definitions ts) (\<lambda>rest. return_s (changed @ rest)))"

definition reconcile_workflows ::
  "session_env \<Rightarrow> (string, workflow_definition) dict \<Rightarrow> (session, string list) action" where
  "reconcile_workflows env definitions = mutation_line (
     bind_s (reads (\<lambda>st. Inr (store_tasks st))) (reconcile_all env definitions))"

end
