(* ===== verification/Session_Steps.thy ===== *)
theory Session_Steps
  imports Session_Tasks
begin

text \<open>
  Every operation of the session changes the store by commits of well-formed mutations
  only. The contract between the session and a store invariant is a locale; the operations
  are proved once against it.
\<close>

section \<open>Values that survive storage\<close>

text \<open>A value that reads back as it was written after freezing and thawing.\<close>

definition storable :: "pyval \<Rightarrow> bool" where
  "storable v = (thaw_json (freeze_json (thaw_json v)) = thaw_json v)"

definition storable_obj :: "jobj \<Rightarrow> bool" where
  "storable_obj d = list_all (\<lambda>p. storable (snd p)) d"

lemma thaw_plain: "plain_json v \<Longrightarrow> thaw_json v = v"
  by (induction v rule: plain_json.induct) (auto simp: list_all_iff case_prod_beta intro!: map_idI)

lemma storable_plain: "plain_json v \<Longrightarrow> storable v"
  by (simp add: storable_def thaw_plain thaw_freeze_plain)

lemma storable_scalar [simp]: "storable (PStr t)" "storable (PInt n)" "storable (PBool b)" "storable PNone"
  by (simp_all add: storable_def)

lemma storable_thaw [simp]: "storable (thaw_json v) = storable v"
  by (simp add: storable_def)

lemma storable_list: "list_all (\<lambda>v. \<exists>t. v = PStr t) xs \<Longrightarrow> storable (PList xs)"
  by (auto simp: storable_def list_all_iff intro!: map_idI)

lemma storable_dict: "storable (PDict d) \<longleftrightarrow> storable_obj d"
  by (auto simp: storable_def storable_obj_def list_all_iff case_prod_beta)

lemma storable_proxy: "storable (PProxy d) \<longleftrightarrow> storable_obj d"
  by (auto simp: storable_def storable_obj_def list_all_iff case_prod_beta)

lemma thaw_obj_PDict: "thaw_json (PDict d) = PDict (thaw_obj d)" "thaw_json (PProxy d) = PDict (thaw_obj d)"
  by (simp_all add: thaw_obj_def)

lemma storable_obj_eq: "storable_obj d \<longleftrightarrow> thaw_obj (freeze_obj (thaw_obj d)) = thaw_obj d"
  by (auto simp: storable_obj_def storable_def thaw_obj_def freeze_obj_def list_all_iff case_prod_beta)

lemma storable_obj_thaw [simp]: "storable_obj (thaw_obj d) = storable_obj d"
  by (simp add: storable_obj_eq)

lemma set_dset: "p \<in> set (dset k v d) \<Longrightarrow> p = (k, v) \<or> p \<in> set d"
  unfolding dset_def by (induction d) (auto split: if_splits)

lemma storable_obj_dset [simp]: "storable_obj d \<Longrightarrow> storable v \<Longrightarrow> storable_obj (dset k v d)"
  by (auto simp: storable_obj_def list_all_iff dest!: set_dset)

lemma storable_obj_Cons [simp]: "storable_obj (p # d) \<longleftrightarrow> storable (snd p) \<and> storable_obj d"
  and storable_obj_Nil [simp]: "storable_obj []"
  by (simp_all add: storable_obj_def)

lemma storable_obj_append [simp]: "storable_obj (d @ d') \<longleftrightarrow> storable_obj d \<and> storable_obj d'"
  by (simp add: storable_obj_def)

lemma storable_obj_dupdate [simp]: "storable_obj ps \<Longrightarrow> storable_obj d \<Longrightarrow> storable_obj (dupdate ps d)"
  by (induction ps arbitrary: d) simp_all

lemma storable_pget: "storable_obj d \<Longrightarrow> storable (pget d k)"
  by (auto simp: storable_obj_def list_all_iff pget_def pget_default_def dest!: map_of_SomeD split: option.splits)

lemma storable_release [simp]: "storable_obj d \<Longrightarrow> storable_obj (release_attempt_state d)"
  by (simp add: release_attempt_state_def)

section \<open>Constructed records are well-formed\<close>

lemma checkpoint_storable:
  assumes "checkpoint_ok t"
  shows "storable_obj (tc_state t)" "storable_obj (tc_provider_snapshot t)"
  using assms by (simp_all add: checkpoint_ok_iff storable_obj_eq)

lemma checkpoint_init_ok:
  assumes "task_checkpoint_init st t = Inr t'" "storable_obj (tc_state t)" "storable_obj (tc_provider_snapshot t)"
  shows "checkpoint_ok t'"
proof -
  let ?status = "case st of None \<Rightarrow> task_status_for_phase (tc_phase t) | Some x \<Rightarrow> x"
  have "task_checkpoint_init (Some ?status) t = Inr t'"
    using assms(1) by (simp add: task_checkpoint_init_def Let_def)
  then show ?thesis
    using assms(2,3) by (auto simp: task_checkpoint_init_Some checkpoint_ok_iff checkpoint_guards_def storable_obj_eq)
qed

lemma task_replace_ok:
  "task_replace t = Inr t' \<Longrightarrow> storable_obj (tc_state t) \<Longrightarrow> storable_obj (tc_provider_snapshot t) \<Longrightarrow> checkpoint_ok t'"
  unfolding task_replace_def by (rule checkpoint_init_ok)

lemma entry_init_ok:
  assumes "entry_draft_init e = Inr e'" "storable_obj (ed_payload e)"
  shows "entry_ok e'"
  using assms by (auto simp: entry_draft_init_def entry_ok_iff canonical_obj_def storable_obj_eq)

lemma init_fields:
  assumes "task_checkpoint_init st t = Inr t'"
  shows "tc_task_id t' = tc_task_id t" "tc_conversation_id t' = tc_conversation_id t" "tc_revision t' = tc_revision t"
    "tc_phase t' = tc_phase t"
  using assms by (auto simp: task_checkpoint_init_def Let_def split: if_splits)

lemma replace_fields:
  assumes "task_replace t = Inr t'"
  shows "tc_task_id t' = tc_task_id t" "tc_conversation_id t' = tc_conversation_id t" "tc_revision t' = tc_revision t"
    "tc_phase t' = tc_phase t" "tc_status t' = tc_status t"
  using assms init_fields [of "Some (tc_status t)" t t'] by (auto simp: task_replace_def task_checkpoint_init_Some)


definition approval_ok :: "approval_record \<Rightarrow> bool" where
  "approval_ok a = (approval_record_init a = Inr a)"

lemma approval_settlement_storable:
  assumes "approval_ok a" "apr_settlement a = Some d"
  shows "storable_obj d"
proof -
  have "canonical_opt (apr_settlement a) = Inr (apr_settlement a)"
    using assms(1) by (cases a) (auto simp: approval_ok_def approval_record_init_def split: if_splits)
  with assms(2) show ?thesis by (auto simp: canonical_opt_def canonical_obj_def storable_obj_eq)
qed

lemma approval_payload_storable:
  assumes "approval_ok a"
  shows "storable_obj (approval_to_payload a)"
proof -
  have "\<forall>d. apr_settlement a = Some d \<longrightarrow> storable (thaw_json (PProxy d))"
    using approval_settlement_storable [OF assms] by (simp add: storable_proxy del: thaw_json.simps)
  then show ?thesis by (simp add: approval_to_payload_def del: thaw_json.simps split: option.splits)
qed

lemma approval_init_ok:
  assumes "approval_record_init a = Inr a'" "\<forall>d. apr_settlement a = Some d \<longrightarrow> storable_obj d"
  shows "approval_ok a'"
  using assms
  by (auto simp: approval_ok_def approval_record_init_def canonical_opt_def canonical_obj_def storable_obj_eq
      split: if_splits option.splits)

lemma mutation_ok_init:
  assumes "durable_mutation_init m = Inr m'" and "list_all entry_ok (dm_entries m)" "list_all checkpoint_ok (all_tasks m)"
    "list_all effect_ok (all_effects m)" "list_all submission_ok (opt_list (dm_submission m))"
  shows "mutation_ok m'"
proof -
  have "m' = m" using assms(1) by (auto simp: durable_mutation_init_def split: if_splits)
  with assms show ?thesis by (simp add: mutation_ok_def)
qed

text \<open>
  The content of a stored submission and of an update is frozen: constructing it again changes
  nothing. A mutation of the session carries such updates and deletes nothing.
\<close>

definition content_ok :: "jobj option \<Rightarrow> bool" where
  "content_ok c = (canonical_opt c = Inr c)"

definition contents_ok :: "store \<Rightarrow> bool" where
  "contents_ok st = list_all (\<lambda>item. content_ok (sr_content (si_record item))) (dvalues (st_submissions st))"

lemma contents_row: "contents_ok st \<Longrightarrow> r \<in> set (map si_record (dvalues (st_submissions st))) \<Longrightarrow> content_ok (sr_content r)"
  by (auto simp: contents_ok_def list_all_iff)

lemma contents_submission: "contents_ok st \<Longrightarrow> store_submission st sid = Inr r \<Longrightarrow> content_ok (sr_content r)"
  by (rule contents_row) (auto simp: store_submission_def find_submission_def dest!: find_Some_mem split: option.splits)

definition session_mutation :: "durable_mutation \<Rightarrow> bool" where
  "session_mutation m =
     (mutation_ok m \<and> \<not> dm_delete_conversation m \<and> list_all (\<lambda>u. content_ok (su_content u)) (all_updates m))"

text \<open>A mutation before its approval is folded in.\<close>

definition draft_ok :: "durable_mutation \<Rightarrow> bool" where
  "draft_ok m = (session_mutation m \<and> (\<forall>a. dm_approval m = Some a \<longrightarrow> approval_ok a))"

lemma update_init_content:
  "submission_update_init u = Inr u' \<Longrightarrow> content_ok (su_content u) \<Longrightarrow> content_ok (su_content u')"
  by (auto simp: submission_update_init_def content_ok_def split: if_splits)

lemma update_of_content [simp]: "su_content (submission_update_of r cid status answer reason) = None" "content_ok None"
  by (simp_all add: submission_update_of_def content_ok_def canonical_opt_def)

lemma materialize_approval_form:
  assumes "materialize_approval m a current = Inr m'"
  obtains raw t where "thaw_json (pget_default (tc_state current) ''approvals'' (PDict [])) = PDict raw"
    "durable_mutation_init (m\<lparr>dm_task := Some t, dm_approval := None, dm_expected_approval_status := None\<rparr>) = Inr m'"
    "task_replace (case dm_task m of
       None \<Rightarrow> current\<lparr>tc_revision := tc_revision current + 1, tc_state := dset ''approvals''
         (PDict (dset (apr_approval_id a) (PDict (approval_to_payload a)) raw)) (thaw_obj (tc_state current))\<rparr>
     | Some p \<Rightarrow> p\<lparr>tc_state := dset ''approvals''
         (PDict (dset (apr_approval_id a) (PDict (approval_to_payload a)) raw)) (thaw_obj (tc_state p))\<rparr>) = Inr t"
proof (cases "thaw_json (pget_default (tc_state current) ''approvals'' (PDict []))")
  case (PDict raw)
  have conv: "tc_conversation_id current = dm_conversation_id m"
    using assms by (simp add: materialize_approval_def split: if_splits)
  from assms PDict conv show ?thesis
    unfolding materialize_approval_def
    by (cases "dm_task m") (auto simp: Let_def intro!: that [OF PDict])
qed (use assms in \<open>simp_all add: materialize_approval_def split: if_splits\<close>)

lemma materialize_approval_ok:
  assumes m: "draft_ok m" and a: "approval_ok a" and cur: "checkpoint_ok current"
    and step: "materialize_approval m a current = Inr m'"
  shows "session_mutation m'"
proof -
  obtain raw t where raw: "thaw_json (pget_default (tc_state current) ''approvals'' (PDict [])) = PDict raw"
    and init: "durable_mutation_init (m\<lparr>dm_task := Some t, dm_approval := None, dm_expected_approval_status := None\<rparr>) = Inr m'"
    and rep: "task_replace (case dm_task m of
       None \<Rightarrow> current\<lparr>tc_revision := tc_revision current + 1, tc_state := dset ''approvals''
         (PDict (dset (apr_approval_id a) (PDict (approval_to_payload a)) raw)) (thaw_obj (tc_state current))\<rparr>
     | Some p \<Rightarrow> p\<lparr>tc_state := dset ''approvals''
         (PDict (dset (apr_approval_id a) (PDict (approval_to_payload a)) raw)) (thaw_obj (tc_state p))\<rparr>) = Inr t"
    by (rule materialize_approval_form [OF step])
  have "storable (pget_default (tc_state current) ''approvals'' (PDict []))"
    using checkpoint_storable(1) [OF cur]
    by (auto simp: pget_default_def storable_dict storable_obj_def list_all_iff dest!: map_of_SomeD split: option.splits)
  then have "storable_obj raw" using raw by (metis storable_dict storable_thaw)
  then have approvals: "storable (PDict (dset (apr_approval_id a) (PDict (approval_to_payload a)) raw))"
    using approval_payload_storable [OF a] by (simp add: storable_dict)
  have "checkpoint_ok p" if "dm_task m = Some p" for p
    using m that by (simp add: draft_ok_def session_mutation_def mutation_ok_def all_tasks_def opt_list_def)
  then have "checkpoint_ok t"
    using task_replace_ok [OF rep] approvals checkpoint_storable [OF cur]
    by (cases "dm_task m") (simp_all add: checkpoint_storable)
  then have "mutation_ok m'"
    using m by (intro mutation_ok_init [OF init]) (simp_all add: draft_ok_def session_mutation_def mutation_ok_def all_tasks_def all_effects_def opt_list_def)
  moreover have "\<not> dm_delete_conversation m'" "all_updates m' = all_updates m"
    using init m by (auto simp: durable_mutation_init_def draft_ok_def session_mutation_def all_updates_def split: if_splits)
  ultimately show ?thesis using m by (simp add: draft_ok_def session_mutation_def)
qed


section \<open>The reducers\<close>

lemma pending_ids_strings:
  assumes "validate_pending_effects (thaw_obj (tc_state t)) pid = Inr ()" "pending_ids (thaw_obj (tc_state t)) = Inr ids"
  shows "list_all (\<lambda>v. \<exists>x. v = PStr x) ids"
proof -
  have "nonempty_str v \<Longrightarrow> \<exists>x. v = PStr x" for v by (cases v) (simp_all add: nonempty_str_def)
  with assms show ?thesis
    by (auto simp: validate_pending_effects_def pending_ids_def pget_def pget_default_def list_ex_iff list_all_iff
        split: option.splits pyval.splits if_splits)
qed

lemma add_pending_strings:
  "list_all (\<lambda>v. \<exists>x. v = PStr x) ids \<Longrightarrow> list_all (\<lambda>v. \<exists>x. v = PStr x) (add_pending es ids)"
  unfolding add_pending_def by (induction es arbitrary: ids) auto

lemma with_effect_intents_ok:
  assumes cur: "checkpoint_ok current" and step: "with_effect_intents current es = Inr t"
  shows "checkpoint_ok t"
proof -
  from step obtain ids where ids: "pending_ids (thaw_obj (tc_state current)) = Inr ids"
    and t: "task_replace (current\<lparr>tc_revision := tc_revision current + 1,
        tc_state := dset ''pending_effect_ids'' (PList (add_pending es ids)) (thaw_obj (tc_state current)),
        tc_pending_effect_id := last_pending (add_pending es ids)\<rparr>) = Inr t"
    by (auto simp: with_effect_intents_def Let_def split: if_splits)
  have "list_all (\<lambda>v. \<exists>x. v = PStr x) ids"
    using pending_ids_strings [OF _ ids] cur unfolding checkpoint_ok_iff checkpoint_guards_def by blast
  then have "storable (PList (add_pending es ids))" by (intro storable_list add_pending_strings)
  then show ?thesis by (intro task_replace_ok [OF t]) (simp_all add: checkpoint_storable [OF cur])
qed

lemma with_effect_settlement_ok:
  assumes cur: "checkpoint_ok current" and step: "with_effect_settlement current e = Inr t"
  shows "checkpoint_ok t"
proof -
  let ?rest = "filter (\<lambda>i. i \<noteq> PStr (ef_effect_id e))"
  from step obtain ids where ids: "pending_ids (thaw_obj (tc_state current)) = Inr ids"
    and t: "task_replace (current\<lparr>tc_revision := tc_revision current + 1,
        tc_state := dset ''pending_effect_ids'' (PList (?rest ids)) (thaw_obj (tc_state current)),
        tc_pending_effect_id := last_pending (?rest ids)\<rparr>) = Inr t"
    by (auto simp: with_effect_settlement_def Let_def split: if_splits)
  have "list_all (\<lambda>v. \<exists>x. v = PStr x) ids"
    using pending_ids_strings [OF _ ids] cur unfolding checkpoint_ok_iff checkpoint_guards_def by blast
  then have "storable (PList (?rest ids))" by (intro storable_list) (simp add: list_all_iff)
  then show ?thesis by (intro task_replace_ok [OF t]) (simp_all add: checkpoint_storable [OF cur])
qed

lemma effect_init_ok:
  assumes "effect_record_init e = Inr e'" "storable_obj (ef_intent e)" "\<forall>d. ef_settlement e = Some d \<longrightarrow> storable_obj d"
  shows "effect_ok e'"
  using assms
  by (auto simp: effect_ok_iff effect_record_init_def canonical_opt_def canonical_obj_def storable_obj_eq
      split: if_splits option.splits)

lemma interrupted_effect_ok:
  assumes "effect_ok e" "interrupted_effect t e = Inr e'"
  shows "effect_ok e'"
proof -
  have intent: "storable_obj (ef_intent e)"
    using assms(1) by (auto simp: effect_ok_iff canonical_obj_def storable_obj_eq)
  from assms(2) obtain d where e': "effect_record_init (e\<lparr>ef_status := ''interrupted'', ef_settlement := Some d\<rparr>) = Inr e'"
    and d: "storable_obj d"
    unfolding interrupted_effect_def if_Inl_Inr bind_r_eq_Inr
    by (elim exE conjE) (rule that, assumption, simp add: storable_pget [OF intent])
  show ?thesis by (rule effect_init_ok [OF e']) (simp_all add: intent d)
qed

lemma merged_state_storable:
  assumes "storable_obj (tc_state current)" "storable_obj state"
  shows "storable_obj (merged_state env current state)"
proof -
  have "storable_obj (map (\<lambda>k. (k, pget (tc_state current) k)) ks)" for ks
    using storable_pget [OF assms(1)] by (induction ks) simp_all
  note owned = this
  define merged where "merged = dupdate (map (\<lambda>k. (k, pget (tc_state current) k))
    (filter (\<lambda>k. has_key k (tc_state current)) (EXECUTION_STATE_KEYS @ [''operation'', ''delivery_batches'', ''approvals''])))
    (dupdate state (tc_state current))"
  have "storable_obj merged" unfolding merged_def using owned assms by (intro storable_obj_dupdate)
  then show ?thesis
    unfolding merged_state_def Let_def merged_def [symmetric]
    by (cases "workflow_name current"; cases "as_mapping (pget merged ''workflow_checkpoint'')") simp_all
qed

section \<open>What the session makes of a mutation\<close>

lemma materialized_ok:
  assumes "draft_ok m" "\<And>tid t. store_task st tid = Inr t \<Longrightarrow> checkpoint_ok t" "materialized st m = Inr m'"
  shows "session_mutation m'"
proof (cases "dm_approval m")
  case None
  with assms show ?thesis by (simp add: materialized_def draft_ok_def)
next
  case (Some a)
  with assms(3) obtain current where cur: "store_task st (apr_task_id a) = Inr current"
      "materialize_approval m a current = Inr m'" by (auto simp: materialized_def)
  have "approval_ok a" using assms(1) Some by (simp add: draft_ok_def)
  then show ?thesis using materialize_approval_ok [OF assms(1) _ assms(2) [OF cur(1)] cur(2)] by blast
qed

lemma fenced_mutation_ok:
  assumes "mutation_ok m" "\<not> dm_delete_conversation m" "fenced env s m = Inr m'"
  shows "mutation_ok m'" "\<not> dm_delete_conversation m'" "all_updates m' = all_updates m"
proof -
  have "mutation_ok m' \<and> \<not> dm_delete_conversation m' \<and> all_updates m' = all_updates m"
    if init: "durable_mutation_init (m\<lparr>dm_expected_attempt_token := x\<rparr>) = Inr m'" for x
  proof -
    have "mutation_ok m'"
      using assms(1) by (intro mutation_ok_init [OF init]) (simp_all add: mutation_ok_def all_tasks_def all_effects_def)
    then show ?thesis
      using init assms(2) by (auto simp: durable_mutation_init_def all_updates_def split: if_splits)
  qed
  then have "mutation_ok m' \<and> \<not> dm_delete_conversation m' \<and> all_updates m' = all_updates m"
    using assms by (auto simp: fenced_def split: option.splits sum.splits)
  then show "mutation_ok m'" "\<not> dm_delete_conversation m'" "all_updates m' = all_updates m" by blast+
qed

lemma fenced_ok: "session_mutation m \<Longrightarrow> fenced env s m = Inr m' \<Longrightarrow> session_mutation m'"
  unfolding session_mutation_def using fenced_mutation_ok [of m env s m'] by simp

section \<open>The contract between a session and what holds of its store\<close>

lemma keeps_bind_read:
  assumes "\<And>s x. I s \<Longrightarrow> f s = Inr x \<Longrightarrow> keeps I (g x)"
  shows "keeps I (bind_s (read_s f) g)"
  using assms by (auto simp: keeps_def split: sum.splits)

locale session_line =
  fixes P :: "store \<Rightarrow> bool"
  assumes tasks_ok: "P st \<Longrightarrow> t \<in> set (store_tasks st) \<Longrightarrow> checkpoint_ok t"
    and effect_stored: "P st \<Longrightarrow> store_effect st eid = Inr e \<Longrightarrow> effect_ok e"
    and contents_stored: "P st \<Longrightarrow> contents_ok st"
    and history_stored: "P st \<Longrightarrow> p \<in> set (task_history st tid through) \<Longrightarrow> checkpoint_ok (tt_task p)"
    and commit_keeps: "P st \<Longrightarrow> session_mutation m \<Longrightarrow> P (snd (commit now m st))"
begin

definition holds :: "session \<Rightarrow> bool" where
  "holds s = P (ss_store s)"

lemma task_ok: "P st \<Longrightarrow> store_task st tid = Inr t \<Longrightarrow> checkpoint_ok t"
  using tasks_ok [of st t]
  by (force simp: store_task_def lookup_key_def store_tasks_def dvalues_def dest!: map_of_SomeD split: option.splits)

lemma holds_read: "(\<And>st x. P st \<Longrightarrow> f st = Inr x \<Longrightarrow> keeps holds (g x)) \<Longrightarrow> keeps holds (bind_s (reads f) g)"
  unfolding reads_def by (rule keeps_bind_read) (simp add: holds_def)

lemma holds_raising: "(\<And>x. r = Inr x \<Longrightarrow> keeps holds (g x)) \<Longrightarrow> keeps holds (bind_s (raising r) g)"
  unfolding raising_def by (rule keeps_bind_read) simp

lemma holds_task: "(\<And>t. checkpoint_ok t \<Longrightarrow> keeps holds (g t)) \<Longrightarrow> keeps holds (bind_s (read_task tid) g)"
  unfolding read_task_def by (rule holds_read) (auto dest: task_ok)

lemma holds_head: "(\<And>n. keeps holds (g n)) \<Longrightarrow> keeps holds (bind_s (head_revision cid) g)"
  unfolding head_revision_def by (rule holds_read) auto

lemma holds_simple [simp]: "keeps holds (raising r)" "keeps holds (unchanged_result n)" "keeps holds (reads f)"
  by (simp_all add: raising_def unchanged_result_def reads_def)

lemma holds_line: "keeps holds body \<Longrightarrow> keeps holds (mutation_line body)"
  unfolding mutation_line_def ensure_usable_def by (intro keeps_bind) simp_all

lemma holds_fail [simp]: "holds (fail_session e s) = holds s"
  by (simp add: holds_def fail_session_def)

lemma holds_latching: "keeps holds body \<Longrightarrow> keeps holds (latching body)"
  by (auto simp: keeps_def latching_def split: prod.splits sum.splits)

lemma holds_publish [simp]: "keeps holds (publish_commit env r m)"
  by (auto simp: keeps_def publish_commit_def split: option.splits)

lemma line_materialized_ok: "draft_ok m \<Longrightarrow> P st \<Longrightarrow> materialized st m = Inr m' \<Longrightarrow> session_mutation m'"
  by (rule materialized_ok) (auto dest: task_ok)

lemma holds_session_commit:
  assumes "draft_ok m"
  shows "keeps holds (session_commit env m)"
  unfolding session_commit_def
proof (intro holds_line holds_latching holds_read keeps_bind_read, goal_cases)
  case (1 st m1 s m2)
  with line_materialized_ok [OF assms] fenced_ok have "session_mutation m2" by blast
  then have "keeps holds (on_store (\<lambda>st. commit (en_now env (st_sequence st)) m2 st))"
    by (auto simp: keeps_def on_store_def holds_def case_prod_beta Let_def intro: commit_keeps)
  then show ?case by (intro keeps_bind) simp_all
qed

lemma holds_commit_mutation:
  assumes "durable_mutation_init m = Inr m \<Longrightarrow> draft_ok m"
  shows "keeps holds (commit_mutation env m)"
  unfolding commit_mutation_def
proof (rule keeps_bind_read)
  fix x assume "durable_mutation_init m = Inr x"
  moreover from this have "x = m" by (auto simp: durable_mutation_init_def split: if_splits)
  ultimately show "keeps holds (session_commit env x)" using assms holds_session_commit by simp
qed

end

lemma keeps_if: "(b \<Longrightarrow> keeps I f) \<Longrightarrow> (\<not> b \<Longrightarrow> keeps I g) \<Longrightarrow> keeps I (if b then f else g)"
  by simp

lemma keeps_option: "(x = None \<Longrightarrow> keeps I f) \<Longrightarrow> (\<And>y. x = Some y \<Longrightarrow> keeps I (g y)) \<Longrightarrow>
    keeps I (case x of None \<Rightarrow> f | Some y \<Rightarrow> g y)"
  by (cases x) simp_all

lemma keeps_bind_post:
  assumes "keeps I f" "\<And>s x s'. f s = (Inr x, s') \<Longrightarrow> Q x" "\<And>x. Q x \<Longrightarrow> keeps I (g x)"
  shows "keeps I (bind_s f g)"
  using assms by (fastforce simp: keeps_def bind_s_def split: prod.splits sum.splits)

lemma update_of_ok: "submission_update_init (submission_update_of r cid status answer reason) = Inr u \<Longrightarrow> content_ok (su_content u)"
  by (erule update_init_content) simp

definition updates_ok :: "submission_update option \<Rightarrow> bool" where
  "updates_ok u = list_all (\<lambda>x. content_ok (su_content x)) (opt_list u)"

lemma keeps_pair: "(\<And>a b. keeps I (f a b)) \<Longrightarrow> keeps I (case x of (a, b) \<Rightarrow> f a b)"
  by (cases x) simp

lemma draft_init:
  assumes "durable_mutation_init m = Inr m" "list_all entry_ok (dm_entries m)" "list_all checkpoint_ok (all_tasks m)"
    "list_all effect_ok (all_effects m)" "list_all submission_ok (opt_list (dm_submission m))"
    "\<not> dm_delete_conversation m" "list_all (\<lambda>u. content_ok (su_content u)) (all_updates m)"
    "\<And>a. dm_approval m = Some a \<Longrightarrow> approval_ok a"
  shows "draft_ok m"
  using assms by (simp add: draft_ok_def session_mutation_def mutation_ok_def)

lemmas mutation_fields = empty_mutation_def task_mutation_def all_tasks_def all_effects_def all_updates_def opt_list_def

lemmas keeps_splits = keeps_if keeps_option keeps_pair

section \<open>The operations keep what holds of the store\<close>

context session_line
begin

lemma holds_commit_task:
  assumes "checkpoint_ok t"
  shows "keeps holds (commit_task env t expected)"
  unfolding commit_task_def
  by (intro holds_head holds_commit_mutation draft_init) (simp_all add: mutation_fields assms)

lemmas holds_intros = keeps_splits holds_line holds_task holds_head holds_raising holds_commit_task

lemma holds_create_conversation: "keeps holds (session_create_conversation env cid)"
  unfolding session_create_conversation_def
  by (intro holds_intros holds_read holds_commit_mutation draft_init keeps_bind) (simp_all add: mutation_fields)

lemma holds_replaced:
  assumes "\<And>t. next_task = Inr t \<Longrightarrow> checkpoint_ok t"
  shows "keeps holds (commit_replaced env current next_task expected)"
  unfolding commit_replaced_def
  by (intro holds_head holds_raising holds_commit_mutation draft_init) (simp_all add: mutation_fields assms)

lemma holds_task_replaced:
  "storable_obj (tc_state t) \<Longrightarrow> storable_obj (tc_provider_snapshot t) \<Longrightarrow>
   keeps holds (commit_replaced env current (task_replace t) expected)"
  by (rule holds_replaced) (rule task_replace_ok)

lemma holds_update_task_state:
  "storable_obj state \<Longrightarrow> keeps holds (update_task_state env tid state expected)"
  unfolding update_task_state_def
  by (intro holds_line holds_task keeps_if holds_task_replaced) (simp_all add: checkpoint_storable)

lemma holds_record_immutable:
  "storable_obj value \<Longrightarrow> keeps holds (record_immutable_task_state env tid key value message)"
  unfolding record_immutable_task_state_def Let_def
  by (intro holds_line holds_task keeps_if holds_task_replaced) (simp_all add: checkpoint_storable storable_dict)

lemma holds_record_task_policy: "storable_obj policy \<Longrightarrow> keeps holds (record_task_policy env tid policy)"
  unfolding record_task_policy_def by (intro holds_line holds_record_immutable)

lemma holds_record_reviewer_selection:
  "storable_obj selection \<Longrightarrow> keeps holds (record_reviewer_selection env tid selection)"
  unfolding record_reviewer_selection_def by (intro holds_line holds_record_immutable)

lemma holds_claim_task: "keeps holds (claim_task env tid)"
  unfolding claim_task_def
  by (intro holds_line holds_task keeps_splits keeps_bind_read holds_commit_task)
     (simp, simp, simp, erule task_replace_ok, simp_all add: checkpoint_storable)

lemma holds_unclaim_task: "keeps holds (unclaim_task env tid)"
  unfolding unclaim_task_def
  by (intro holds_line holds_task keeps_splits holds_raising holds_commit_task)
     (simp, erule task_replace_ok, simp_all add: checkpoint_storable)

lemma answer_entries_read:
  assumes "\<And>es. list_all entry_ok es \<Longrightarrow> keeps holds (g es)"
  shows "keeps holds (bind_s (answer_entries env cid parent tid answer) g)"
proof (cases answer)
  case None
  then show ?thesis using assms [of "[]"] by (simp add: answer_entries_def keeps_def)
next
  case (Some a)
  show ?thesis
    unfolding answer_entries_def Some option.case
  proof (rule keeps_bind_read)
    fix s es
    assume "bind_r (entry_draft_init (answer_entry (en_uuid env (st_sequence (ss_store s)) 0) cid parent tid a)) (\<lambda>e. Inr [e]) = Inr es"
    then obtain e where "entry_draft_init (answer_entry (en_uuid env (st_sequence (ss_store s)) 0) cid parent tid a) = Inr e"
        "es = [e]" by auto
    then have "list_all entry_ok es" using entry_init_ok by (simp add: answer_entry_def)
    then show "keeps holds (g es)" by (rule assms)
  qed
qed

lemma holds_advance_task:
  assumes "storable_obj state"
  shows "keeps holds (advance_task env tid phase state answer sub_status reason status)"
  unfolding advance_task_def
proof (intro holds_line holds_task keeps_if holds_read keeps_pair answer_entries_read, goal_cases)
  case (2 current st x head revision entries)
  show ?case
  proof (rule holds_raising)
    fix t
    assume t: "task_checkpoint_init status (current\<lparr>tc_phase := phase, tc_revision := tc_revision current + 1,
        tc_state := merged_state env current state, tc_schema_version := TASK_CHECKPOINT_SCHEMA_VERSION\<rparr>) = Inr t"
    have ok: "checkpoint_ok t"
      by (rule checkpoint_init_ok [OF t])
         (simp_all add: checkpoint_storable [OF 2(1)] merged_state_storable assms)
    show "keeps holds (bind_s (case sub_status of
         None \<Rightarrow> return_s None
       | Some status \<Rightarrow>
           reads (\<lambda>st. bind_r (store_submission st (tc_submission_id current)) (\<lambda>r.
             bind_r (submission_update_init (submission_update_of r (sr_conversation_id r) status
               (if entries = [] then None else Some (ed_entry_id (hd entries))) reason)) (\<lambda>u. Inr (Some u))))) (\<lambda>update.
     commit_mutation env ((empty_mutation (tc_conversation_id current) revision)
       \<lparr>dm_entries := entries, dm_task := Some t, dm_sub_update := update\<rparr>)))"
      using 2(5)
      by (intro keeps_bind_post [where Q = updates_ok] keeps_option holds_commit_mutation draft_init)
         (auto simp: mutation_fields ok updates_ok_def reads_def read_s_def update_of_ok split: option.splits)
  qed
qed simp

lemma holds_start_task: "storable_obj state \<Longrightarrow> keeps holds (start_task env tid state)"
  unfolding start_task_def by (intro holds_line holds_advance_task)

lemma agreed_ids_strings:
  assumes cur: "checkpoint_ok current" and ids: "pget_default (tc_state current) ''pending_effect_ids'' (PTuple []) = PTuple ids"
  shows "list_all (\<lambda>v. \<exists>x. v = PStr x) ids"
proof -
  have thawed: "map_of (thaw_obj (tc_state current)) k = map_option thaw_json (map_of (tc_state current) k)" for k
    unfolding thaw_obj_def map_of_map by simp
  have "validate_pending_effects (thaw_obj (tc_state current)) (tc_pending_effect_id current) = Inr ()"
    using cur unfolding checkpoint_ok_iff checkpoint_guards_def by blast
  then have "list_all nonempty_str (map thaw_json ids)" if "ids \<noteq> []"
    using ids that by (auto simp: validate_pending_effects_def pget_def pget_default_def thawed list_ex_iff list_all_iff
        split: option.splits if_splits)
  moreover have "nonempty_str (thaw_json v) \<Longrightarrow> \<exists>x. v = PStr x" for v
    by (cases v) (simp_all add: nonempty_str_def)
  ultimately show ?thesis by (cases "ids = []") (auto simp: list_all_iff)
qed

lemma agreed_pending_read:
  assumes "checkpoint_ok current" "\<And>ids. storable (PList ids) \<Longrightarrow> keeps holds (g ids)"
  shows "keeps holds (bind_s (agreed_pending current) g)"
  unfolding agreed_pending_def
proof (rule holds_read)
  fix st ids
  assume "(let unsettled = filter (\<lambda>e. ef_settlement e = None) (effects_for_task st (tc_task_id current)) in
     case pget_default (tc_state current) ''pending_effect_ids'' (PTuple []) of
       PTuple ids \<Rightarrow>
         if set (map (\<lambda>e. PStr (ef_effect_id e)) unsettled) \<noteq> set ids
         then Inl (CommitConflict ''task checkpoint and pending effects disagree'') else Inr ids
     | _ \<Rightarrow> Inl (CommitConflict ''task checkpoint and pending effects disagree'')) = Inr ids"
  then have "pget_default (tc_state current) ''pending_effect_ids'' (PTuple []) = PTuple ids"
    by (simp add: Let_def split: pyval.splits if_splits)
  with assms(2) [OF storable_list] agreed_ids_strings [OF assms(1)] show "keeps holds (g ids)" by blast
qed

lemma holds_fail_task:
  assumes "storable_obj state"
  shows "keeps holds (fail_task env tid reason state expected)"
  unfolding fail_task_def
proof (intro holds_line holds_task holds_head holds_raising agreed_pending_read, goal_cases)
  case (2 current revision u ids t)
  then have ok: "checkpoint_ok t" by (elim task_replace_ok) (simp_all add: checkpoint_storable assms)
  show ?case
    by (intro holds_read holds_raising holds_commit_mutation draft_init) (simp_all add: mutation_fields ok update_of_ok)
qed simp

lemma holds_cancel_terminal:
  assumes "checkpoint_ok current" "storable_obj state"
  shows "keeps holds (cancel_terminal env current state reason)"
  unfolding cancel_terminal_def
proof (intro holds_head agreed_pending_read holds_raising, goal_cases)
  case (2 revision ids t)
  then have ok: "checkpoint_ok t" by (elim task_replace_ok) (simp_all add: checkpoint_storable assms)
  show ?case
    by (intro holds_read keeps_bind_post [where Q = updates_ok] keeps_if holds_commit_mutation draft_init)
       (auto simp: mutation_fields ok updates_ok_def raising_def read_s_def update_of_ok split: if_splits option.splits)
qed (rule assms)

lemma holds_recover_task:
  assumes "checkpoint_ok t"
  shows "keeps holds (recover_task env t)"
  unfolding recover_task_def
  by (intro keeps_if holds_fail_task holds_raising holds_cancel_terminal holds_commit_task)
     (simp_all add: assms checkpoint_storable task_replace_ok)

lemma holds_skipping: "keeps holds body \<Longrightarrow> keeps holds (skipping_conflicts body)"
  by (auto simp: keeps_def skipping_conflicts_def split: prod.splits sum.splits py_error.splits)

lemma holds_record_effect_intents:
  assumes "list_all effect_ok es"
  shows "keeps holds (record_effect_intents env tid es)"
  unfolding record_effect_intents_def
  by (intro holds_line holds_task keeps_if holds_head holds_raising holds_commit_mutation draft_init)
     (simp_all add: mutation_fields assms with_effect_intents_ok)

lemma holds_settle_effect:
  assumes "effect_ok e"
  shows "keeps holds (settle_effect env tid e expected artifacts)"
  unfolding settle_effect_def
  by (intro holds_line holds_task keeps_if holds_head holds_read holds_raising holds_commit_mutation draft_init)
     (simp_all add: mutation_fields assms with_effect_settlement_ok)

lemma holds_settle_unknown_effect: "keeps holds (settle_unknown_effect env tid eid)"
  unfolding settle_unknown_effect_def
  by (intro holds_line holds_task holds_read holds_raising holds_settle_effect) (blast intro: effect_stored interrupted_effect_ok)

lemma holds_create_approval: "approval_ok a \<Longrightarrow> keeps holds (create_approval env a)"
  unfolding create_approval_def
  by (intro holds_line holds_head holds_commit_mutation draft_init) (simp_all add: mutation_fields)

lemma holds_transition_approval:
  "approval_ok a \<Longrightarrow> list_all checkpoint_ok (opt_list t) \<Longrightarrow> keeps holds (transition_approval env aid a expected t)"
  unfolding transition_approval_def
  by (intro holds_line keeps_if holds_head holds_commit_mutation draft_init) (simp_all add: mutation_fields)

lemma holds_register_artifacts: "keeps holds (register_artifacts env tid artifacts)"
  unfolding register_artifacts_def
  by (intro holds_line holds_task keeps_if holds_head holds_commit_mutation draft_init) (simp_all add: mutation_fields)

lemma holds_recover_scheduler_state: "keeps holds (recover_scheduler_state env force)"
  unfolding recover_scheduler_state_def
proof (intro holds_line holds_read keeps_each keeps_if holds_skipping holds_recover_task, goal_cases)
  case (3 st ts t)
  then have "t \<in> set (store_tasks st)" by (auto simp: pending_tasks_def store_tasks_def)
  with 3(1) show ?case by (rule tasks_ok)
qed simp_all

end

text \<open>The approvals that the checkpoint of a task holds.\<close>

lemma approval_from_payload_ok:
  assumes "approval_from_payload d = Inr a" "storable_obj d"
  shows "approval_ok a"
proof -
  from assms(1) obtain b where init: "approval_record_init b = Inr a"
    and settlement: "apr_settlement b = as_mapping (pget d ''settlement'')"
    unfolding approval_from_payload_def bind_r_eq_Inr by (elim exE conjE) (rule that, assumption, simp)
  have "storable_obj x" if "as_mapping (pget d ''settlement'') = Some x" for x
    using that storable_pget [OF assms(2), of "''settlement''"]
    by (cases "pget d ''settlement''") (simp_all add: storable_dict storable_proxy)
  with settlement show ?thesis by (intro approval_init_ok [OF init]) simp
qed

lemma map_filter_hd: "List.map_filter f xs = y # ys \<Longrightarrow> \<exists>x \<in> set xs. f x = Some y"
  by (induction xs) (auto simp: List.map_filter_simps split: option.splits)

lemma approval_in_tasks:
  assumes tasks: "\<And>t. t \<in> set (store_tasks st) \<Longrightarrow> checkpoint_ok t" and a: "store_approval st aid = Inr a"
  shows "approval_ok a"
proof -
  let ?f = "\<lambda>t. case as_mapping (pget_default (tc_state t) ''approvals'' (PDict [])) of
               None \<Rightarrow> None | Some raw \<Rightarrow> as_mapping (pget raw aid)"
  from a obtain d rest where d: "List.map_filter ?f (dvalues (st_tasks st)) = d # rest" "approval_from_payload d = Inr a"
    by (auto simp: store_approval_def split: list.splits)
  from map_filter_hd [OF d(1)] obtain t raw where t: "t \<in> set (dvalues (st_tasks st))"
      and raw: "as_mapping (pget_default (tc_state t) ''approvals'' (PDict [])) = Some raw" "as_mapping (pget raw aid) = Some d"
    by (auto split: option.splits)
  have "storable_obj (tc_state t)" using tasks t checkpoint_storable(1) by (simp add: store_tasks_def)
  then have "storable (pget_default (tc_state t) ''approvals'' (PDict []))"
    by (auto simp: pget_default_def storable_dict storable_obj_def list_all_iff dest!: map_of_SomeD split: option.splits)
  moreover have mapped: "as_mapping v = Some x \<Longrightarrow> storable v \<Longrightarrow> storable_obj x" for v x
    by (cases v) (simp_all add: storable_dict storable_proxy)
  ultimately have "storable_obj d" using raw storable_pget by metis
  then show ?thesis by (rule approval_from_payload_ok [OF d(2)])
qed

context session_line
begin

lemma approval_stored: "P st \<Longrightarrow> store_approval st aid = Inr a \<Longrightarrow> approval_ok a"
  by (rule approval_in_tasks [OF tasks_ok])

lemma claimed_ok:
  assumes "approval_ok a" "approval_record_init (a\<lparr>apr_status := status, apr_revision := n\<rparr>) = Inr a'"
  shows "approval_ok a'"
  by (rule approval_init_ok [OF assms(2)]) (simp add: approval_settlement_storable [OF assms(1)])

lemma holds_claim_approval:
  assumes "effect_ok e"
  shows "keeps holds (claim_approval_and_begin_effect env aid e expected)"
  unfolding claim_approval_and_begin_effect_def
proof (intro holds_line holds_read holds_task keeps_if holds_raising holds_head, goal_cases)
  case (6 st a current t claimed revision)
  have "keeps holds (commit_mutation env ((empty_mutation (tc_conversation_id current) revision)
       \<lparr>dm_task := Some t, dm_effects := [e], dm_approval := Some claimed, dm_expected_approval_status := Some expected\<rparr>))"
    using with_effect_intents_ok [OF 6(3)] claimed_ok [OF approval_stored [OF 6(1,2)]] 6(8,9)
    by (intro holds_commit_mutation draft_init) (auto simp: mutation_fields assms)
  then show ?case by (intro keeps_bind) simp_all
qed simp_all

end

end
