(* ===== verification/Session_Joins.thy ===== *)
theory Session_Joins
  imports Session_Steps
begin

text \<open>
  Ownership trees and joins of \<^verbatim>\<open>codey/durable/session.py\<close>: waiting, completion
  that is held back by owned tasks, cancellation down the ownership tree, and the
  reconciliation of both after a restart.
\<close>

section \<open>The ownership tree\<close>

text \<open>
  The recursive \<open>visit\<close> of \<open>_owned_descendants\<close>: the ids seen so far and the
  subtree, deepest tasks first. The first argument bounds the depth.
\<close>

fun owned_walk :: "nat \<Rightarrow> store \<Rightarrow> task_checkpoint list \<Rightarrow> string list \<Rightarrow> (string list \<times> task_checkpoint list) option" where
  "owned_walk n st [] seen = Some (seen, [])"
| "owned_walk n st (c # cs) seen =
     (if tc_task_id c \<in> set seen then owned_walk n st cs seen
      else (case n of
          0 \<Rightarrow> None
        | Suc k \<Rightarrow>
            (case owned_walk k st (owned_dependents st (tc_task_id c)) (tc_task_id c # seen) of
               None \<Rightarrow> None
             | Some (seen1, below) \<Rightarrow>
                 map_option (\<lambda>(seen2, rest). (seen2, below @ c # rest)) (owned_walk n st cs seen1))))"

definition owned_descendants :: "store \<Rightarrow> string \<Rightarrow> task_checkpoint list result" where
  "owned_descendants st tid =
     (case owned_walk (length (st_tasks st)) st (owned_dependents st tid) [] of
        None \<Rightarrow> Inl (RecursionError ''maximum recursion depth exceeded'')
      | Some (seen, ts) \<Rightarrow> Inr ts)"

definition live_owned_descendants :: "store \<Rightarrow> string \<Rightarrow> task_checkpoint list result" where
  "live_owned_descendants st tid =
     bind_r (owned_descendants st tid) (\<lambda>ts. Inr (filter (\<lambda>t. \<not> terminal_task t) ts))"

section \<open>Waiting\<close>

text \<open>The inner loop of \<open>wait_task\<close>: does the chain of first dependencies lead back to the task?\<close>

function wait_chain :: "(string, task_checkpoint) dict \<Rightarrow> string \<Rightarrow> string list \<Rightarrow> string \<Rightarrow> bool" where
  "wait_chain known tid walked cid =
     (case map_of known cid of
        None \<Rightarrow> False
      | Some cursor \<Rightarrow>
          if waiting_on cursor = [] \<or> cid \<in> set walked then False
          else if tid \<in> set (waiting_on cursor) then True
          else wait_chain known tid (cid # walked) (hd (waiting_on cursor)))"
  by pat_completeness auto
termination
proof (relation "measure (\<lambda>(known, tid, walked, cid). card (set (dkeys known) - set walked))", goal_cases)
  case (2 known tid walked cid cursor)
  then have "cid \<in> set (dkeys known)" "cid \<notin> set walked" by (auto simp: dkeys_eq_dom)
  then show ?case by (auto intro!: psubset_card_mono simp del: card_Diff_insert card_Diff_singleton)
qed simp

declare wait_chain.simps [simp del]

definition check_dependencies :: "store \<Rightarrow> string \<Rightarrow> string list \<Rightarrow> unit result" where
  "check_dependencies st tid dependencies =
     (let known = dupdate (map (\<lambda>t. (tc_task_id t, t)) (store_tasks st)) []
      in check_each (\<lambda>d.
           if \<not> has_key d known then Inl (CommitConflict (''unknown waiting task: '' @ d))
           else raise_if (wait_chain known tid [] d) (CommitConflict ''task wait cycle'')) dependencies)"

definition wait_task ::
  "session_env \<Rightarrow> string \<Rightarrow> jobj option \<Rightarrow> string list option \<Rightarrow> string \<Rightarrow> (session, commit_result) action" where
  "wait_task env task_id state on_tasks policy = mutation_line (
     bind_s (read_task task_id) (\<lambda>current.
     let update = (case state of None \<Rightarrow> [] | Some d \<Rightarrow> d) in
     if tc_status current \<notin> set [Running, Pending]
     then raising (Inl (ValueError (''task is not live: '' @ task_status_value (tc_status current))))
     else if truthy (pget (tc_state current) ''cancel_requested'')
     then (if kernel_cleanup_required current then unclaim_task env task_id
           else bind_s (raising (cancel_reason_of current)) (\<lambda>reason.
                cancel_terminal env current (dupdate update (tc_state current)) reason))
     else if policy \<notin> set [''failFast'', ''allSettled'']
     then raising (Inl (ValueError ''unknown task join policy''))
     else
     let dependencies = (case on_tasks of None \<Rightarrow> waiting_on current | Some ids \<Rightarrow> rev (remdups (rev ids))) in
     if task_id \<in> set dependencies then raising (Inl (CommitConflict ''a task cannot wait on itself''))
     else
     bind_s (reads (\<lambda>st. check_dependencies st task_id dependencies)) (\<lambda>_.
     let answered = (state \<noteq> None \<and> pget update ''stop_reason'' = PStr ''question''
           \<and> (case as_mapping (pget (tc_state current) ''question'') of
                None \<Rightarrow> False | Some q \<Rightarrow> pget q ''state'' = PStr ''answered''))
     in commit_replaced env current (task_replace (current\<lparr>tc_revision := tc_revision current + 1,
          tc_state := dupdate [(''waiting_on'', PTuple (map PStr dependencies)), (''join_policy'', PStr policy),
              (''join_wait'', PBool (on_tasks \<noteq> None))]
            (release_attempt_state (dupdate update (tc_state current))),
          tc_status := (if answered then Pending else Waiting)\<rparr>)) (Some (attempt_token current)))))"

section \<open>Completion\<close>

definition hold_completion :: "session_env \<Rightarrow> string \<Rightarrow> string \<Rightarrow> jobj \<Rightarrow> (session, commit_result) action" where
  "hold_completion env task_id answer state =
     bind_s (read_task task_id) (\<lambda>first.
     bind_s (if tc_phase first \<in> set [''accepted'', ''dispatching'']
         then bind_s (start_task env task_id state) (\<lambda>_. read_task task_id) else return_s first) (\<lambda>current.
     bind_s (if tc_phase current \<noteq> ''completion_pending''
         then bind_s (advance_task env task_id ''completion_pending'' state None None None (Some Completing))
                (\<lambda>_. bind_s (read_task task_id) (\<lambda>_. return_s ()))
         else return_s ()) (\<lambda>_.
     advance_task env task_id ''completion_pending''
       (dupdate [(''completion_answer'', PStr answer), (''completion_state'', PDict state)] state)
       None None None (Some Completing))))"

definition finish_task :: "session_env \<Rightarrow> string \<Rightarrow> string \<Rightarrow> jobj \<Rightarrow> (session, commit_result) action" where
  "finish_task env task_id answer state = mutation_line (
     bind_s (reads (\<lambda>st. live_owned_descendants st task_id)) (\<lambda>live.
     if live \<noteq> [] then hold_completion env task_id answer state
     else advance_task env task_id ''completed'' state (Some answer) (Some SubDone) None None))"

definition complete_task :: "session_env \<Rightarrow> string \<Rightarrow> string \<Rightarrow> jobj \<Rightarrow> (session, commit_result) action" where
  "complete_task env task_id answer state = mutation_line (
     bind_s (read_task task_id) (\<lambda>first.
     bind_s (reads (\<lambda>st. live_owned_descendants st task_id)) (\<lambda>live.
     if live \<noteq> [] then hold_completion env task_id answer state
     else
     bind_s (if tc_phase first = ''completion_pending'' then return_s ()
         else
         bind_s (if tc_phase first \<in> set [''accepted'', ''dispatching'']
             then bind_s (start_task env task_id state) (\<lambda>_. return_s ()) else return_s ()) (\<lambda>_.
         bind_s (read_task task_id) (\<lambda>current.
         if tc_phase current \<noteq> ''completion_pending''
         then bind_s (advance_task env task_id ''completion_pending'' state None None None None) (\<lambda>_. return_s ())
         else return_s ()))) (\<lambda>_.
     finish_task env task_id answer state))))"

section \<open>Cancellation down the tree\<close>

definition cancelling_state :: "task_checkpoint \<Rightarrow> jobj \<Rightarrow> string \<Rightarrow> jobj" where
  "cancelling_state current update reason =
     dupdate (update @ [(''cancel_requested'', PBool True), (''cancel_reason'', PStr reason)]) (tc_state current)"

text \<open>The barrier on a task whose owned tasks are still live.\<close>

definition hold_cancellation ::
  "session_env \<Rightarrow> task_checkpoint \<Rightarrow> jobj \<Rightarrow> (session, commit_result) action" where
  "hold_cancellation env current state =
     commit_replaced env current (task_replace (current\<lparr>tc_revision := tc_revision current + 1, tc_state := state,
         tc_status := (if tc_status current \<in> set [Running, Completing] then tc_status current else Waiting)\<rparr>))
       (Some (attempt_token current))"

text \<open>
  \<open>request_cancel\<close> and \<open>cancel_task\<close> call each other on the owned tasks. The first
  argument is the recursion depth that is left; the interpreter raises
  \<open>RecursionError\<close> without one.
\<close>

fun request_cancel ::
    "nat \<Rightarrow> session_env \<Rightarrow> string \<Rightarrow> string \<Rightarrow> jobj \<Rightarrow> int option \<Rightarrow> (session, commit_result) action"
  and cancel_task :: "nat \<Rightarrow> session_env \<Rightarrow> string \<Rightarrow> string \<Rightarrow> (session, commit_result) action" where
  "request_cancel 0 env task_id reason update expected =
     raising (Inl (RecursionError ''maximum recursion depth exceeded''))"
| "request_cancel (Suc n) env task_id reason update expected = mutation_line (
     bind_s (read_task task_id) (\<lambda>first.
     if expected \<noteq> None \<and> expected \<noteq> Some (tc_revision first)
     then raising (Inl (CommitConflict ''task revision changed''))
     else if terminal_task first \<or> (truthy (pget (tc_state first) ''cancel_requested'') \<and> update = [])
     then unchanged_result (tc_revision first)
     else
     bind_s (reads (\<lambda>st. owned_descendants st task_id)) (\<lambda>children.
     bind_s (each_s (\<lambda>child.
         if terminal_task child then return_s ()
         else if tc_status child = Running
         then bind_s (request_cancel n env (tc_task_id child) reason [] None) (\<lambda>_. return_s ())
         else bind_s (cancel_task n env (tc_task_id child) reason) (\<lambda>_. return_s ())) children) (\<lambda>_.
     bind_s (read_task task_id) (\<lambda>current.
     bind_s (reads (\<lambda>st. live_owned_descendants st task_id)) (\<lambda>live.
     let state = cancelling_state current update reason in
     if live \<noteq> [] then hold_cancellation env current state
     else if tc_status current = Running \<or> kernel_cleanup_required current
     then commit_replaced env current (task_replace (current\<lparr>tc_revision := tc_revision current + 1,
            tc_state := state, tc_status := (if tc_status current = Running then Running else Pending)\<rparr>))
            (Some (attempt_token current))
     else cancel_terminal env current state reason))))))"
| "cancel_task 0 env task_id reason = raising (Inl (RecursionError ''maximum recursion depth exceeded''))"
| "cancel_task (Suc n) env task_id reason = mutation_line (
     bind_s (read_task task_id) (\<lambda>first.
     if tc_status first = Cancelled then unchanged_result (tc_revision first)
     else if terminal_task first
     then raising (Inl (CommitConflict (''terminal task cannot be cancelled: '' @ task_status_value (tc_status first))))
     else
     bind_s (reads (\<lambda>st. owned_descendants st task_id)) (\<lambda>children.
     bind_s (each_s (\<lambda>child.
         if terminal_task child then return_s ()
         else if tc_status child = Running
         then bind_s (request_cancel n env (tc_task_id child) reason [] None) (\<lambda>_. return_s ())
         else bind_s (cancel_task n env (tc_task_id child) reason) (\<lambda>_. return_s ())) children) (\<lambda>_.
     bind_s (read_task task_id) (\<lambda>current.
     bind_s (reads (\<lambda>st. live_owned_descendants st task_id)) (\<lambda>live.
     let state = cancelling_state current [] reason in
     if live \<noteq> [] then hold_cancellation env current state
     else cancel_terminal env current state reason))))))"

section \<open>Reconciliation\<close>

definition reconcile_waiting_task :: "session_env \<Rightarrow> task_checkpoint \<Rightarrow> (session, unit) action" where
  "reconcile_waiting_task env t =
     (if tc_status t \<noteq> Waiting \<or> truthy (pget (tc_state t) ''cancel_requested'') then return_s ()
      else if waiting_on t = [] \<and> pget (tc_state t) ''join_wait'' \<noteq> PBool True then return_s ()
      else if waiting_on t = []
      then bind_s (advance_task env (tc_task_id t) (tc_phase t) [(''waiting_on'', PList [])] None None None (Some Pending))
             (\<lambda>_. return_s ())
      else
      bind_s (reads (\<lambda>st. Inr st)) (\<lambda>st.
      let missing = filter (\<lambda>d. \<not> has_key d (st_tasks st)) (waiting_on t);
          joined = List.map_filter (map_of (st_tasks st)) (waiting_on t)
      in if missing \<noteq> []
         then bind_s (fail_task env (tc_task_id t) ''waiting task disappeared''
                [(''join_error'', PList (map PStr missing))] None) (\<lambda>_. return_s ())
         else (case (if join_policy t = ''failFast'' then List.find (\<lambda>c. tc_status c \<in> set [Failed, Cancelled]) joined
                     else None) of
             Some failed \<Rightarrow>
               bind_s (reads (\<lambda>st. store_submission st (tc_submission_id failed))) (\<lambda>r.
               bind_s (fail_task env (tc_task_id t)
                 (if falsy (sr_reason r) then ''owned task '' @ tc_task_id failed @ '' did not complete'' else the (sr_reason r))
                 [(''join_failed_task'', PStr (tc_task_id failed))] None) (\<lambda>_. return_s ()))
           | None \<Rightarrow>
               if list_all terminal_task joined
               then bind_s (advance_task env (tc_task_id t) (tc_phase t)
                      [(''waiting_on'', PList []),
                       (''join_results'', PDict (dupdate (map (\<lambda>c. (tc_task_id c, PStr (task_status_value (tc_status c)))) joined) []))]
                      None None None (Some Pending)) (\<lambda>_. return_s ())
               else return_s ())))"

definition reconcile_waiting_tasks :: "session_env \<Rightarrow> string option \<Rightarrow> (session, unit) action" where
  "reconcile_waiting_tasks env task_id = mutation_line (
     bind_s (reads (\<lambda>st. case task_id of
         None \<Rightarrow> Inr (store_tasks st)
       | Some tid \<Rightarrow> bind_r (store_task st tid) (\<lambda>t. Inr [t]))) (\<lambda>tasks.
     each_s (reconcile_waiting_task env) tasks))"

definition finalize_task :: "session_env \<Rightarrow> task_checkpoint \<Rightarrow> (session, unit) action" where
  "finalize_task env t =
     bind_s (reads (\<lambda>st. live_owned_descendants st (tc_task_id t))) (\<lambda>live.
     if live \<noteq> [] then return_s ()
     else if truthy (pget (tc_state t) ''cancel_requested'')
     then bind_s (raising (cancel_reason_of t)) (\<lambda>reason.
          bind_s (cancel_terminal env t (tc_state t) reason) (\<lambda>_. return_s ()))
     else if tc_status t \<noteq> Completing then return_s ()
     else (case (pget (tc_state t) ''completion_answer'',
                 as_mapping (pget_default (tc_state t) ''completion_state'' (PDict []))) of
         (PStr answer, Some state) \<Rightarrow> bind_s (finish_task env (tc_task_id t) answer state) (\<lambda>_. return_s ())
       | _ \<Rightarrow> return_s ()))"

definition reconcile_finalization :: "session_env \<Rightarrow> string list option \<Rightarrow> (session, unit) action" where
  "reconcile_finalization env task_ids = mutation_line (
     bind_s (reads (\<lambda>st. Inr (case task_ids of None \<Rightarrow> finalization_queue st | Some ids \<Rightarrow> ids))) (\<lambda>ids.
     let unique_ids = rev (remdups (rev ids)) in
     bind_s (each_s (\<lambda>tid. reconcile_waiting_tasks env (Some tid)) unique_ids) (\<lambda>_.
     bind_s (reads (\<lambda>st. Inr (filter (\<lambda>t. tc_status t \<in> set [Completing, Waiting])
         (List.map_filter (map_of (st_tasks st)) unique_ids)))) (\<lambda>selected.
     each_s (finalize_task env) selected))))"

section \<open>The walk ends\<close>

definition task_ids :: "store \<Rightarrow> string set" where
  "task_ids st = set (dkeys (st_tasks st))"

definition ids_match :: "store \<Rightarrow> bool" where
  "ids_match st = (\<forall>tid t. map_of (st_tasks st) tid = Some t \<longrightarrow> tc_task_id t = tid)"

lemma owned_known:
  assumes "ids_match st" "c \<in> set (owned_dependents st tid)"
  shows "tc_task_id c \<in> task_ids st"
proof -
  from assms(2) obtain cid where "map_of (st_tasks st) cid = Some c"
    by (auto simp: owned_dependents_def List.map_filter_def)
  with assms(1) show ?thesis by (auto simp: ids_match_def task_ids_def dkeys_eq_dom)
qed

lemma owned_walk_seen: "owned_walk n st cs seen = Some (seen', ts) \<Longrightarrow> set seen \<subseteq> set seen'"
proof (induction n st cs seen arbitrary: seen' ts rule: owned_walk.induct)
  case (2 n st c cs seen)
  show ?case
  proof (cases "tc_task_id c \<in> set seen")
    case True with 2 show ?thesis by simp
  next
    case False
    with "2.prems" obtain k seen1 below rest where k: "n = Suc k"
        "owned_walk k st (owned_dependents st (tc_task_id c)) (tc_task_id c # seen) = Some (seen1, below)"
        "owned_walk n st cs seen1 = Some (seen', rest)"
      by (auto split: nat.splits option.splits prod.splits)
    have "set (tc_task_id c # seen) \<subseteq> set seen1" by (rule "2.IH"(2) [OF False k(1) k(2)])
    moreover have "set seen1 \<subseteq> set seen'" using "2.IH"(3) [OF False k(1) k(2) refl k(3)] .
    ultimately show ?thesis by auto
  qed
qed simp

lemma owned_walk_ends:
  "ids_match st \<Longrightarrow> \<forall>c \<in> set cs. tc_task_id c \<in> task_ids st \<Longrightarrow> card (task_ids st - set seen) \<le> n \<Longrightarrow>
   \<exists>r. owned_walk n st cs seen = Some r"
proof (induction n st cs seen rule: owned_walk.induct)
  case (2 n st c cs seen)
  have fin: "finite (task_ids st)" by (simp add: task_ids_def)
  show ?case
  proof (cases "tc_task_id c \<in> set seen")
    case True with 2 show ?thesis by simp
  next
    case False
    have c: "tc_task_id c \<in> task_ids st - set seen" using "2.prems"(2) False by simp
    then have "0 < card (task_ids st - set seen)" using fin by (auto simp: card_gt_0_iff)
    then obtain k where k: "n = Suc k" using "2.prems"(3) by (cases n) auto
    have "card (task_ids st - set (tc_task_id c # seen)) < card (task_ids st - set seen)"
      using c fin by (intro psubset_card_mono) auto
    then have less: "card (task_ids st - set (tc_task_id c # seen)) \<le> k" using "2.prems"(3) k by simp
    have "\<forall>x \<in> set (owned_dependents st (tc_task_id c)). tc_task_id x \<in> task_ids st"
      using owned_known [OF "2.prems"(1)] by blast
    with "2.IH"(2) [OF False k "2.prems"(1) _ less] obtain seen1 below where
        below: "owned_walk k st (owned_dependents st (tc_task_id c)) (tc_task_id c # seen) = Some (seen1, below)" by auto
    have "card (task_ids st - set seen1) \<le> card (task_ids st - set seen)"
      using owned_walk_seen [OF below] fin by (intro card_mono) auto
    then have "card (task_ids st - set seen1) \<le> n" using "2.prems"(3) by simp
    with "2.IH"(3) [OF False k below refl "2.prems"(1)] "2.prems"(2) obtain r where "owned_walk n st cs seen1 = Some r" by auto
    with False k below show ?thesis by (auto simp: case_prod_beta)
  qed
qed simp

lemma owned_descendants_ends:
  assumes "ids_match st"
  shows "\<exists>ts. owned_descendants st tid = Inr ts"
proof -
  have "card (task_ids st - set []) \<le> length (st_tasks st)"
    using card_length [of "dkeys (st_tasks st)"] by (simp add: task_ids_def dkeys_def)
  with owned_walk_ends [OF assms, of "owned_dependents st tid" "[]"] owned_known [OF assms]
  obtain r where "owned_walk (length (st_tasks st)) st (owned_dependents st tid) [] = Some r" by blast
  then show ?thesis by (cases r) (simp add: owned_descendants_def)
qed

section \<open>The operations keep what holds of the store\<close>

context session_line
begin

lemma holds_unit: "keeps holds f \<Longrightarrow> keeps holds (bind_s f (\<lambda>_. return_s ()))"
  by (rule keeps_bind) simp_all

lemma holds_read_task [simp]: "keeps holds (read_task tid)"
  by (simp add: read_task_def)

lemma holds_wait_task:
  assumes "storable_obj (case state of None \<Rightarrow> [] | Some d \<Rightarrow> d)"
  shows "keeps holds (wait_task env tid state on_tasks policy)"
proof -
  have tuple: "storable (PTuple (map PStr ds))" for ds by (simp add: storable_def comp_def)
  show ?thesis
    unfolding wait_task_def Let_def
    by (intro holds_line holds_task keeps_if holds_unclaim_task holds_raising holds_cancel_terminal holds_read holds_task_replaced)
       (simp_all add: assms checkpoint_storable tuple)
qed

lemma holds_hold_completion:
  assumes "storable_obj state"
  shows "keeps holds (hold_completion env tid answer state)"
  unfolding hold_completion_def
  by (intro holds_task keeps_bind keeps_if holds_start_task holds_advance_task) (simp_all add: assms storable_dict)

lemma holds_finish_task:
  assumes "storable_obj state"
  shows "keeps holds (finish_task env tid answer state)"
  unfolding finish_task_def
  by (intro holds_line holds_read keeps_if holds_hold_completion holds_advance_task) (simp_all add: assms)

lemma holds_complete_task:
  assumes "storable_obj state"
  shows "keeps holds (complete_task env tid answer state)"
  unfolding complete_task_def
  by (intro holds_line holds_task holds_read keeps_if keeps_bind holds_hold_completion holds_finish_task
      holds_start_task holds_advance_task) (simp_all add: assms)

lemma cancelling_storable:
  "checkpoint_ok t \<Longrightarrow> storable_obj update \<Longrightarrow> storable_obj (cancelling_state t update reason)"
  by (simp add: cancelling_state_def checkpoint_storable)

lemma holds_hold_cancellation:
  "checkpoint_ok t \<Longrightarrow> storable_obj state \<Longrightarrow> keeps holds (hold_cancellation env t state)"
  unfolding hold_cancellation_def by (intro holds_task_replaced) (simp_all add: checkpoint_storable)

lemma holds_cancel:
  "storable_obj update \<Longrightarrow> keeps holds (request_cancel n env tid reason update expected)"
  "keeps holds (cancel_task n env tid reason)"
proof (induction n arbitrary: tid reason update expected)
  case (Suc n)
  {
    case 1
    show ?case
      unfolding request_cancel.simps Let_def
      by (intro holds_line holds_task keeps_if holds_read keeps_bind [OF keeps_each] holds_unit Suc.IH
          holds_hold_cancellation holds_task_replaced holds_cancel_terminal)
         (simp_all add: 1 cancelling_storable checkpoint_storable)
  next
    case 2
    show ?case
      unfolding cancel_task.simps Let_def
      by (intro holds_line holds_task keeps_if holds_read keeps_bind [OF keeps_each] holds_unit Suc.IH
          holds_hold_cancellation holds_cancel_terminal) (simp_all add: cancelling_storable)
  }
qed simp_all

lemma holds_reconcile_waiting_task: "keeps holds (reconcile_waiting_task env t)"
proof -
  have ids: "storable (PList (map PStr xs))" for xs by (rule storable_list) (simp add: list_all_iff)
  have results: "storable (PDict (dupdate (map (\<lambda>c. (tc_task_id c, PStr (task_status_value (tc_status c)))) cs) []))" for cs
    unfolding storable_dict by (rule storable_obj_dupdate) (simp_all add: storable_obj_def list_all_iff)
  have empty: "storable (PList [])" by (rule storable_list) simp
  show ?thesis
    unfolding reconcile_waiting_task_def Let_def
    by (intro keeps_if holds_unit holds_advance_task holds_read keeps_option holds_fail_task)
       (simp_all add: ids results empty)
qed

lemma holds_reconcile_waiting_tasks: "keeps holds (reconcile_waiting_tasks env tid)"
  unfolding reconcile_waiting_tasks_def
  by (intro holds_line holds_read keeps_each holds_reconcile_waiting_task)

lemma holds_finalize_task:
  assumes "checkpoint_ok t"
  shows "keeps holds (finalize_task env t)"
proof -
  note state = checkpoint_storable(1) [OF assms]
  have "storable_obj d" if "as_mapping (pget_default (tc_state t) ''completion_state'' (PDict [])) = Some d" for d
  proof -
    have "storable (pget_default (tc_state t) ''completion_state'' (PDict []))"
      using state
      by (auto simp: pget_default_def storable_dict storable_obj_def list_all_iff dest!: map_of_SomeD split: option.splits)
    with that show ?thesis
      by (cases "pget_default (tc_state t) ''completion_state'' (PDict [])") (simp_all add: storable_dict storable_proxy)
  qed
  then have "keeps holds (case (pget (tc_state t) ''completion_answer'',
                 as_mapping (pget_default (tc_state t) ''completion_state'' (PDict []))) of
         (PStr answer, Some state) \<Rightarrow> bind_s (finish_task env (tc_task_id t) answer state) (\<lambda>_. return_s ())
       | _ \<Rightarrow> return_s ())"
    by (auto intro!: holds_unit holds_finish_task split: pyval.splits option.splits)
  then show ?thesis
    unfolding finalize_task_def
    by (intro holds_read keeps_if holds_raising holds_unit holds_cancel_terminal) (simp_all add: assms state)
qed

lemma holds_reconcile_finalization: "keeps holds (reconcile_finalization env ids)"
  unfolding reconcile_finalization_def Let_def
proof (intro holds_line holds_read keeps_bind [OF keeps_each] keeps_each holds_reconcile_waiting_tasks holds_finalize_task, goal_cases)
  case (1 st x u st' ts t)
  then obtain tid where "map_of (st_tasks st') tid = Some t" by (auto simp: List.map_filter_def)
  then have "store_task st' tid = Inr t" by (simp add: store_task_def lookup_key_def)
  then show ?case using task_ok 1 by blast
qed

end

end
