(* ===== verification/Session_Placed.thy ===== *)
theory Session_Placed
  imports Session_Joins Session_Inbox
begin

text \<open>
  The operations of the conversation, of admission and of the inbox keep what holds of the
  store: their mutations are well-formed whatever they read. What they copy into payloads is
  JSON of callers or frozen JSON of the store, which survives freezing.
\<close>

section \<open>Values that freeze once\<close>

definition settles :: "pyval \<Rightarrow> bool" where
  "settles v = (freeze_json (thaw_json (freeze_json v)) = freeze_json v)"

definition stable :: "pyval \<Rightarrow> bool" where
  "stable v = settles (thaw_json v)"

definition stable_obj :: "jobj \<Rightarrow> bool" where
  "stable_obj d = list_all (\<lambda>p. stable (snd p)) d"

text \<open>Plain JSON and frozen JSON: both are closed under taking parts.\<close>

definition frozen :: "pyval \<Rightarrow> bool" where
  "frozen v = (freeze_json (thaw_json v) = v)"

definition good :: "pyval \<Rightarrow> bool" where
  "good v = (plain_json v \<or> frozen v)"

definition good_obj :: "jobj \<Rightarrow> bool" where
  "good_obj d = list_all (\<lambda>p. good (snd p)) d"

lemma map_fixed: "map f xs = xs \<longleftrightarrow> (\<forall>x\<in>set xs. f x = x)"
  by (induction xs) auto

lemma frozen_parts:
  "frozen (PTuple xs) \<longleftrightarrow> list_all frozen xs" "frozen (PProxy d) \<longleftrightarrow> list_all (\<lambda>p. frozen (snd p)) d"
  "\<not> frozen (PList xs)" "\<not> frozen (PDict d)"
  by (auto simp: frozen_def map_fixed list_all_iff case_prod_beta comp_def prod_eq_iff)

lemma frozen_freeze: "frozen v \<Longrightarrow> freeze_json v = v"
  by (induction v rule: freeze_json.induct)
     (auto simp: frozen_parts list_all_iff case_prod_beta intro!: map_idI)

lemma good_settles: "good v \<Longrightarrow> settles v"
  by (auto simp: good_def settles_def frozen_freeze thaw_freeze_plain) (simp add: frozen_def frozen_freeze)

lemma good_stable: "good v \<Longrightarrow> stable v"
  by (auto simp: good_def stable_def settles_def thaw_plain thaw_freeze_plain) (simp add: frozen_def)

lemma good_storable: "good v \<Longrightarrow> storable v"
  by (auto simp: good_def storable_plain) (simp add: frozen_def storable_def)

lemma good_parts:
  "good (PTuple xs) \<Longrightarrow> list_all good xs" "good (PList xs) \<Longrightarrow> list_all good xs"
  "good (PProxy d) \<Longrightarrow> good_obj d" "good (PDict d) \<Longrightarrow> good_obj d"
  by (auto simp: good_def frozen_parts list_all_iff good_obj_def case_prod_beta)

lemma good_mapping: "good v \<Longrightarrow> as_mapping v = Some d \<Longrightarrow> good_obj d"
  by (cases v) (auto dest: good_parts)

lemma good_scalar [simp]: "good (PStr t)" "good (PBool b)" "good (PInt n)" "good PNone"
  by (simp_all add: good_def)

lemma good_pget: "good_obj d \<Longrightarrow> good (pget d k)"
  by (auto simp: good_obj_def list_all_iff pget_def pget_default_def dest!: map_of_SomeD split: option.splits)

lemma good_lookup: "good_obj d \<Longrightarrow> map_of d k = Some v \<Longrightarrow> good v"
  by (auto simp: good_obj_def list_all_iff dest!: map_of_SomeD)

lemma good_obj_Nil [simp]: "good_obj []" and good_obj_Cons [simp]: "good_obj (p # d) \<longleftrightarrow> good (snd p) \<and> good_obj d"
  by (simp_all add: good_obj_def)

lemma good_obj_storable: "good_obj d \<Longrightarrow> storable_obj d"
  by (auto simp: good_obj_def storable_obj_def list_all_iff good_storable)

lemma good_obj_stable: "good_obj d \<Longrightarrow> stable_obj d"
  by (auto simp: good_obj_def stable_obj_def list_all_iff good_stable)

lemma content_good: "content_ok (Some d) \<Longrightarrow> good_obj d"
  by (auto simp: content_ok_def canonical_opt_def canonical_obj_def good_obj_def good_def frozen_def
      thaw_obj_def freeze_obj_def map_fixed comp_def case_prod_beta prod_eq_iff list_all_iff)

lemma checkpoint_good:
  assumes "checkpoint_ok t"
  shows "good_obj (tc_state t)" "good_obj (tc_provider_snapshot t)"
  using assms
  by (auto simp: checkpoint_ok_iff good_obj_def good_def frozen_def
      thaw_obj_def freeze_obj_def map_fixed comp_def case_prod_beta prod_eq_iff list_all_iff)

lemma stable_simps [simp]:
  "stable (PStr t)" "stable (PBool b)" "stable (PInt n)" "stable PNone"
  "stable (PDict d) \<longleftrightarrow> stable_obj d" "stable (PList xs) \<longleftrightarrow> list_all settles xs"
  by (auto simp: stable_def settles_def stable_obj_def list_all_iff case_prod_beta comp_def)

lemma settles_dict: "good_obj d \<Longrightarrow> settles (PDict d)"
  using good_settles by (auto simp: settles_def good_obj_def list_all_iff case_prod_beta comp_def)

lemma stable_obj_append [simp]: "stable_obj (d @ d') \<longleftrightarrow> stable_obj d \<and> stable_obj d'"
  and stable_obj_Nil [simp]: "stable_obj []"
  and stable_obj_Cons [simp]: "stable_obj (p # d) \<longleftrightarrow> stable (snd p) \<and> stable_obj d"
  by (simp_all add: stable_obj_def)

lemma stable_obj_dset [simp]: "stable_obj d \<Longrightarrow> stable v \<Longrightarrow> stable_obj (dset k v d)"
  by (auto simp: stable_obj_def list_all_iff dest!: set_dset)

lemma stable_obj_dupdate [simp]: "stable_obj ps \<Longrightarrow> stable_obj d \<Longrightarrow> stable_obj (dupdate ps d)"
  by (induction ps arbitrary: d) simp_all

lemma stable_canonical:
  assumes "canonical_obj d = Inr d'" "stable_obj d"
  shows "canonical_obj d' = Inr d'"
proof -
  from assms(1) have d': "d' = freeze_obj (thaw_obj d)" and dumps: "dumps_ok (PDict (thaw_obj d))"
    by (auto simp: canonical_obj_def validate_json_def)
  have "freeze_obj (thaw_obj d') = d'"
    using assms(2) by (auto simp: d' stable_obj_def stable_def settles_def thaw_obj_def freeze_obj_def list_all_iff)
  moreover have "dumps_ok (PDict (thaw_obj d'))"
    using dumps_ok_thaw_freeze [OF dumps] by (simp add: d' thaw_obj_def freeze_obj_def comp_def case_prod_beta)
  ultimately show ?thesis by (simp add: canonical_obj_def validate_json_def)
qed

lemma entry_init_stable:
  assumes "entry_draft_init e = Inr e'" "stable_obj (ed_payload e)"
  shows "entry_ok e'"
  using assms stable_canonical by (auto simp: entry_draft_init_def entry_ok_iff)

lemma submission_init_ok:
  assumes "submission_draft_init d = Inr d'" "\<And>c. sd_content d = Some c \<Longrightarrow> stable_obj c"
  shows "submission_ok d'"
proof -
  note init = assms(1) [unfolded submission_draft_init_def Let_def if_Inl_Inr bind_r_eq_Inr]
  obtain c where c: "canonical_opt (sd_content d) = Inr c" and d': "d' = d\<lparr>sd_content := c\<rparr>"
    using init by (elim conjE exE) (rule that, assumption, simp)
  have "canonical_opt c = Inr c"
    using c assms(2) stable_canonical by (cases "sd_content d") (auto simp: canonical_opt_def)
  with init c show ?thesis
    unfolding d' submission_ok_def submission_draft_init_def Let_def if_Inl_Inr bind_r_eq_Inr
    by (elim conjE exE) (simp cong: option.case_cong)
qed

section \<open>Payloads\<close>

lemma attachments_settle:
  assumes "attachment_loop seen n xs = Inr (used, items)" "list_all good xs"
  shows "list_all settles items"
  using assms
proof (induction xs arbitrary: seen n used items)
  case (Cons raw rest)
  obtain item where item: "as_mapping raw = Some item"
    using Cons.prems by (cases "as_mapping raw") auto
  from Cons.prems item obtain s' n' used' items' where rest: "attachment_loop s' n' rest = Inr (used', items')"
    and items: "items = PDict item # items'"
    by (auto split: prod.splits)
  have "good_obj item" using Cons.prems(2) item good_mapping by auto
  with Cons.IH [OF rest] Cons.prems(2) show ?case by (simp add: items settles_dict)
qed simp

lemma validate_attachments_settle: "validate_attachments v = Inr items \<Longrightarrow> good v \<Longrightarrow> list_all settles items"
  by (cases v) (auto simp: validate_attachments_def intro!: attachments_settle dest: good_parts split: if_splits prod.splits)

lemma metadata_field_stable:
  assumes "metadata_field key check raw found = Inr found'" "stable_obj found"
    "\<And>v w. map_of raw key = Some v \<Longrightarrow> check v = Inr w \<Longrightarrow> stable w"
  shows "stable_obj found'"
  using assms by (auto simp: metadata_field_def split: option.splits)

lemma metadata_stable:
  assumes "message_metadata (Some d) = Inr m" "good_obj d"
  shows "stable_obj m"
proof -
  from assms(1) obtain raw d1 d2 where raw: "as_mapping (pget_default d ''message_metadata'' (PDict [])) = Some raw"
    and d1: "metadata_field ''attachments'' (\<lambda>v. bind_r (validate_attachments v) (\<lambda>xs. Inr (PList xs))) raw [] = Inr d1"
    and d2: "metadata_field ''source'' (\<lambda>v. bind_r (metadata_source v) (\<lambda>d. Inr (PDict d))) raw d1 = Inr d2"
    and m: "metadata_field ''in_reply_to_run_id'' (\<lambda>v. case v of
              PStr s \<Rightarrow> if length s > 512 then Inl (ValueError ''invalid reply metadata'') else Inr (PStr s)
            | _ \<Rightarrow> Inl (ValueError ''invalid reply metadata'')) raw d2 = Inr m"
    by (auto simp: message_metadata_def split: option.splits if_splits)
  have "good (pget_default d ''message_metadata'' (PDict []))"
    using assms(2) good_lookup by (auto simp: pget_default_def good_def split: option.splits)
  then have good: "good_obj raw" using raw by (rule good_mapping)
  have "stable_obj d1"
    by (rule metadata_field_stable [OF d1]) (auto dest!: validate_attachments_settle good_lookup [OF good])
  then have "stable_obj d2"
    by (rule metadata_field_stable [OF d2])
       (auto simp: metadata_source_def intro!: good_obj_stable good_mapping dest!: good_lookup [OF good] split: option.splits if_splits)
  then show ?thesis
    by (rule metadata_field_stable [OF m]) (auto split: pyval.splits if_splits)
qed

lemma normalized_edit_good:
  "normalize_edit raw = Inr e \<Longrightarrow> good raw \<Longrightarrow> settles e"
  by (cases "as_mapping raw")
     (auto simp: normalize_edit_def settles_dict good_mapping split: if_splits option.splits)

lemma normalized_fields_good:
  assumes "normalize_passive_fields model edits = Inr (m, es)" "good model" "good edits"
  shows "(\<forall>d. m = Some d \<longrightarrow> stable_obj d) \<and> (\<forall>xs. es = Some xs \<longrightarrow> list_all settles xs)"
proof -
  have parts: "as_py_sequence v = Some xs \<Longrightarrow> good v \<Longrightarrow> list_all good xs" for v xs
    by (cases v) (auto simp: list_all_iff dest: good_parts)
  have settled: "map_r normalize_edit xs = Inr ys \<Longrightarrow> list_all good xs \<Longrightarrow> list_all settles ys" for xs ys
    by (induction xs arbitrary: ys) (auto intro: normalized_edit_good)
  show ?thesis
    using assms parts settled good_mapping good_obj_stable
    by (auto simp: normalize_passive_fields_def split: if_splits option.splits)
qed

lemma write_payload_stable:
  assumes "good_obj data" "\<forall>d. model = Some d \<longrightarrow> stable_obj d" "\<forall>xs. edits = Some xs \<longrightarrow> list_all settles xs"
  shows "stable_obj (write_payload data display_only model edits head)"
  using assms
  by (auto simp: write_payload_def optional_field_def good_obj_stable split: option.splits)

section \<open>Conversations\<close>

lemma draft_entries:
  assumes "list_all entry_ok es"
  shows "durable_mutation_init ((empty_mutation cid n)\<lparr>dm_entries := es\<rparr>) = Inr ((empty_mutation cid n)\<lparr>dm_entries := es\<rparr>)
    \<Longrightarrow> draft_ok ((empty_mutation cid n)\<lparr>dm_entries := es\<rparr>)"
  by (rule draft_init) (simp_all add: mutation_fields assms)

context session_line
begin

lemma holds_commit_entry:
  assumes "stable_obj (ed_payload e)"
  shows "keeps holds (commit_entry env e n)"
  unfolding commit_entry_def
  by (intro holds_raising keeps_bind holds_commit_mutation draft_entries) (simp_all add: entry_init_stable [OF _ assms])

lemma holds_fresh_entry: "good_obj d \<Longrightarrow> keeps holds (fresh_entry env cid kind d)"
  unfolding fresh_entry_def
  by (intro holds_read keeps_pair) (auto simp: good_obj_stable intro: holds_commit_entry split: prod.splits)

lemma holds_append_message: "good_obj d \<Longrightarrow> keeps holds (append_message env cid kind d)"
  unfolding append_message_def by (intro holds_line holds_fresh_entry)

lemma holds_save_context_snapshot: "good_obj d \<Longrightarrow> keeps holds (save_context_snapshot env cid d)"
  unfolding save_context_snapshot_def
  by (intro holds_line holds_read keeps_option keeps_if holds_fresh_entry) simp_all

lemma holds_sealing: "keeps holds body \<Longrightarrow> keeps holds (sealing body)"
  by (auto simp: keeps_def sealing_def holds_def split: prod.splits sum.splits)

lemma holds_move_head: "keeps holds (move_head env cid eid n)"
  unfolding move_head_def ensure_usable_def
  by (intro keeps_bind_read holds_sealing holds_head holds_commit_mutation draft_init) (simp_all add: mutation_fields)

lemma holds_session_branch: "keeps holds (session_branch env cid eid n)"
  unfolding session_branch_def by (intro holds_line holds_move_head)

lemma holds_select_idle_branch: "keeps holds (select_idle_branch env cid eid n)"
  unfolding select_idle_branch_def by (intro holds_line holds_read keeps_if holds_move_head) simp_all

lemma holds_session_fork: "keeps holds (session_fork env cid eid child)"
  unfolding session_fork_def
  by (intro holds_line keeps_bind_read holds_raising keeps_bind holds_commit_mutation draft_init) (simp_all add: mutation_fields)

lemma holds_record_display_message: "good_obj d \<Longrightarrow> keeps holds (record_display_message env cid run identity d)"
  unfolding record_display_message_def
  by (intro holds_line holds_read keeps_if holds_raising keeps_pair keeps_bind holds_commit_mutation draft_entries)
     (simp_all, erule entry_init_stable, simp add: good_obj_stable)

end

section \<open>Admission\<close>

definition request_good :: "input_request \<Rightarrow> bool" where
  "request_good r =
     (good_obj (request_state r) \<and> good_obj (ir_provider_snapshot r)
      \<and> good_obj (or_empty (ir_workflow_input r)) \<and> good_obj (or_empty (ir_workflow_checkpoint r)))"

definition write_good :: "write_request \<Rightarrow> bool" where
  "write_good w = (good (wr_data w) \<and> good (wr_model w) \<and> good (wr_edits w))"

lemma result_entries_ok:
  "result_entries uuid cid tid pending n seen parent results = Inr es \<Longrightarrow> list_all entry_ok es"
proof (induction results arbitrary: n seen parent es)
  case (Cons raw rest)
  from Cons.prems obtain i content is_error e es' where
    e: "entry_draft_init (result_entry (''entry-'' @ uuid n) cid parent tid i content is_error) = Inr e"
    and rest: "result_entries uuid cid tid pending (Suc n) (i # seen) (Some (ed_entry_id e)) rest = Inr es'"
    and es: "es = e # es'"
    by (auto split: prod.splits)
  have "entry_ok e" by (rule entry_init_stable [OF e]) (simp add: result_entry_def)
  with Cons.IH [OF rest] show ?case by (simp add: es)
qed simp

lemma tool_results_ok: "append_tool_results env st cid head results tid = Inr es \<Longrightarrow> list_all entry_ok es"
  by (auto simp: append_tool_results_def result_entries_ok split: if_splits)

lemma storable_opt_str [simp]: "storable (opt_str x)" and stable_opt_str [simp]: "stable (opt_str x)"
  by (auto simp: opt_str_def split: option.splits)

lemma input_state_storable: "request_good r \<Longrightarrow> storable_obj (input_state env r entry)"
  by (auto simp: input_state_def request_good_def good_obj_storable storable_dict Let_def split: option.splits)

lemma edit_good: "good_obj (request_state r) \<Longrightarrow> request_edit r = Some edit \<Longrightarrow> good_obj edit"
  by (auto simp: request_edit_def intro: good_mapping good_pget split: option.splits if_splits)

lemma input_payload_stable:
  assumes "input_payload r metadata ep = Inr p" "stable_obj metadata" "good_obj (request_state r)"
  shows "stable_obj p"
  using assms edit_good [OF assms(3)]
  by (auto simp: input_payload_def Let_def lookup_key_def good_stable dest: good_lookup split: option.splits)

lemma input_entry_ok:
  assumes "input_entry env st r metadata ep parent n = Inr entry" "stable_obj metadata" "good_obj (request_state r)"
  shows "list_all entry_ok (opt_list entry)"
  using assms input_payload_stable entry_init_stable
  by (fastforce simp: input_entry_def opt_list_def split: if_splits)

lemma new_input_draft:
  assumes "new_input env st r metadata digest head n creation = Inr m" "stable_obj metadata" "request_good r"
  shows "draft_ok m"
proof -
  from assms(1) obtain head' ep replaced results entry d t edited where
    results: "append_tool_results env st (ir_conversation_id r) head' (map PDict (ir_tool_results r)) (ir_task_id r) = Inr results"
    and entry: "input_entry env st r metadata ep (if results = [] then head' else Some (ed_entry_id (last results))) (length results) = Inr entry"
    and d: "input_submission env st r metadata digest entry (length results + length (opt_list entry)) = Inr d"
    and t: "input_task env r (sd_submission_id d) entry = Inr t"
    and init: "durable_mutation_init ((empty_mutation (ir_conversation_id r) n)
       \<lparr>dm_entries := results @ opt_list entry, dm_submission := Some d, dm_task := Some t,
        dm_create_conversation := creation, dm_edited_entry_id := edited, dm_replaced_run_ids := replaced\<rparr>) = Inr m"
    by (auto simp: new_input_def Let_def split: prod.splits)
  have m: "m = (empty_mutation (ir_conversation_id r) n)
       \<lparr>dm_entries := results @ opt_list entry, dm_submission := Some d, dm_task := Some t,
        dm_create_conversation := creation, dm_edited_entry_id := edited, dm_replaced_run_ids := replaced\<rparr>"
    using init by (auto simp: durable_mutation_init_def split: if_splits)
  have "submission_ok d"
    using d unfolding input_submission_def by (rule submission_init_ok) (auto simp: assms(2))
  moreover have "checkpoint_ok t"
    using t unfolding input_task_def
    by (rule checkpoint_init_ok) (use assms(3) in \<open>simp_all add: input_state_storable good_obj_storable request_good_def\<close>)
  moreover have "list_all entry_ok (results @ opt_list entry)"
    using tool_results_ok [OF results] input_entry_ok [OF entry assms(2)] assms(3) by (simp add: request_good_def)
  ultimately show ?thesis
    using init unfolding m by (intro draft_init) (simp_all add: mutation_fields)
qed

lemma plan_input_draft:
  assumes "plan_input env st r = Inr (Admit m)" "request_good r"
  shows "draft_ok m"
proof -
  from assms(1) obtain metadata head n creation digest where
    metadata: "message_metadata (ir_task_state r) = Inr metadata"
    and m: "new_input env st r metadata digest head n creation = Inr m"
    by (auto simp: plan_input_def split: prod.splits option.splits)
  have "message_metadata (Some (request_state r)) = Inr metadata"
    using metadata by (cases "ir_task_state r") (simp_all add: message_metadata_def request_state_def)
  then have "stable_obj metadata" using assms(2) metadata_stable by (simp add: request_good_def)
  then show ?thesis by (rule new_input_draft [OF m _ assms(2)])
qed

lemma plan_write_draft:
  assumes "plan_write env st w = Inr (Admit m)" "write_good w"
  shows "draft_ok m"
proof -
  from assms(1) obtain model edits digest head n creation where
    fields: "validate_write_fields w = Inr (model, edits)"
    and new: "new_write env st w model edits digest head n creation = Inr m"
    by (auto simp: plan_write_def split: prod.splits option.splits if_splits)
  from fields obtain data where data: "as_mapping (wr_data w) = Some data"
    and norm: "normalize_passive_fields (wr_model w) (wr_edits w) = Inr (model, edits)"
    by (auto simp: validate_write_fields_def split: if_splits prod.splits)
  have good: "good_obj data" using assms(2) good_mapping [OF _ data] by (simp add: write_good_def)
  have stable: "\<forall>d. model = Some d \<longrightarrow> stable_obj d" "\<forall>xs. edits = Some xs \<longrightarrow> list_all settles xs"
    using normalized_fields_good [OF norm] assms(2) by (simp_all add: write_good_def)
  from new obtain stale entry d where
    entry: "(if wr_placement w = PlacementPlaced \<and> \<not> stale
       then bind_r (entry_draft_init \<lparr>ed_entry_id = ''entry-'' @ en_uuid env (st_sequence st) 0,
           ed_conversation_id = wr_conversation_id w, ed_parent_id = head, ed_kind = wr_kind w,
           ed_payload = write_payload (or_empty (as_mapping (wr_data w))) (wr_display_only w) model edits (wr_head w),
           ed_commit_seq = 0, ed_by_task_id = None\<rparr>) (\<lambda>e. Inr (Some e))
       else Inr None) = Inr entry"
    and d: "submission_draft_init
         \<lparr>sd_submission_id = ''submission-'' @ en_uuid env (st_sequence st) (length (opt_list entry)),
          sd_request_id = wr_request_id w, sd_conversation_id = wr_conversation_id w, sd_entry = entry,
          sd_fingerprint = digest,
          sd_status = (if stale then SubUnanswered else if wr_placement w = PlacementPlaced then SubDone else SubQueued),
          sd_placement = (if stale then PlacementQueued else wr_placement w), sd_mode = ''write'',
          sd_content = Some (write_content w model edits), sd_reason = (if stale then Some ''stale'' else None)\<rparr> = Inr d"
    and init: "durable_mutation_init ((empty_mutation (wr_conversation_id w) n)
       \<lparr>dm_entries := opt_list entry, dm_submission := Some d, dm_create_conversation := creation\<rparr>) = Inr m"
    unfolding new_write_def bind_r_eq_Inr if_Inl_Inr by (elim exE conjE) (rule that)
  have m: "m = (empty_mutation (wr_conversation_id w) n)
       \<lparr>dm_entries := opt_list entry, dm_submission := Some d, dm_create_conversation := creation\<rparr>"
    using init by (auto simp: durable_mutation_init_def split: if_splits)
  have "stable_obj (write_content w model edits)"
    using good stable by (auto simp: write_content_def optional_field_def data or_empty_def good_obj_stable split: option.splits)
  then have "submission_ok d" using d by (intro submission_init_ok) auto
  moreover have "list_all entry_ok (opt_list entry)"
    using entry write_payload_stable [OF good stable] entry_init_stable
    by (fastforce simp: opt_list_def data or_empty_def split: if_splits)
  ultimately show ?thesis using init unfolding m by (intro draft_init) (simp_all add: mutation_fields)
qed

context session_line
begin

lemma holds_carry_out: "(\<And>m. plan = Admit m \<Longrightarrow> draft_ok m) \<Longrightarrow> keeps holds (carry_out env plan)"
  by (cases plan) (simp_all add: carry_out_def holds_session_commit)

lemma holds_admit_input: "request_good r \<Longrightarrow> keeps holds (admit_input env r)"
  unfolding admit_input_def by (intro holds_line holds_read holds_carry_out) (auto intro: plan_input_draft)

lemma holds_admit_write: "write_good w \<Longrightarrow> keeps holds (admit_write env w)"
  unfolding admit_write_def by (intro holds_line holds_read holds_carry_out) (auto intro: plan_write_draft)

lemma snapshot_task_ok:
  assumes "P st" "task_at st tid n = Inr snapshot"
  shows "checkpoint_ok (ts_task snapshot)"
proof -
  let ?ps = "task_history st tid (Some n)"
  have "?ps \<noteq> []" "ts_task snapshot = tt_task (last ?ps)"
    using assms(2) by (auto simp: task_at_def snapshot_at_def Let_def split: if_splits)
  moreover from this have "last ?ps \<in> set ?ps" by simp
  ultimately show ?thesis using history_stored [OF assms(1)] by metis
qed

lemma fork_request_good:
  assumes "fork_request snapshot src cid tid rid instruction = Inr r" "checkpoint_ok (ts_task snapshot)"
  shows "request_good r"
proof -
  let ?kept = "List.map_filter (\<lambda>k. map_option (Pair k) (map_of (tc_state (ts_task snapshot)) k)) PRESERVED_KEYS"
  have "good_obj ?kept"
    using good_lookup [OF checkpoint_good(1) [OF assms(2)]]
    by (auto simp: good_obj_def list_all_iff set_map_filter)
  moreover have dset: "good_obj d \<Longrightarrow> good v \<Longrightarrow> good_obj (dset k v d)" for d k v
    by (auto simp: good_obj_def list_all_iff dest!: set_dset)
  moreover have "good (PDict [(''task_id'', PStr src), (''commit_seq'', PInt x)])" for x by (simp add: good_def)
  ultimately show ?thesis
    using assms(1) checkpoint_good(2) [OF assms(2)]
    by (auto simp: fork_request_def Let_def request_good_def request_state_def or_empty_def split: if_splits)
qed

lemma holds_fork_task: "keeps holds (fork_task env src n cid tid rid instruction)"
  unfolding fork_task_def
  by (intro holds_line holds_read holds_carry_out)
     (auto intro: plan_input_draft fork_request_good snapshot_task_ok)

end

section \<open>The inbox\<close>

lemma read_write_good:
  assumes "read_queued_write content = Inr q" "content_ok content"
  shows "stable_obj (write_payload (qw_data q) (qw_display_only q) (qw_model q) (qw_edits q) (qw_head q))"
proof (cases content)
  case (Some c)
  have good: "good_obj c" using assms(2) Some content_good by blast
  from assms(1) obtain model edits where norm: "normalized_fields (pget c ''model'') (pget c ''edits'') = Inr (model, edits)"
    and data: "as_mapping (pget c ''data'') = Some (qw_data q)" and q: "qw_model q = model" "qw_edits q = edits"
    by (auto simp: read_queued_write_def Some split: option.splits pyval.splits if_splits)
  from norm have "normalize_passive_fields (if is_mapping (pget c ''model'') then pget c ''model'' else PNone)
      (if as_sequence (pget c ''edits'') = None then PNone else pget c ''edits'') = Inr (model, edits)"
    by (auto simp: normalized_fields_def split: sum.splits py_error.splits)
  from normalized_fields_good [OF this] have "(\<forall>d. model = Some d \<longrightarrow> stable_obj d) \<and> (\<forall>xs. edits = Some xs \<longrightarrow> list_all settles xs)"
    using good_pget [OF good] by simp
  then show ?thesis
    using write_payload_stable good_mapping [OF good_pget [OF good] data] q by simp
qed (use assms(1) in \<open>simp add: read_queued_write_def\<close>)

lemma write_entry_ok:
  assumes "write_entry uuid r q parent = Inr e" "read_queued_write (sr_content r) = Inr q" "content_ok (sr_content r)"
  shows "entry_ok e"
  using assms(1) read_write_good [OF assms(2,3)] unfolding write_entry_def by (auto intro: entry_init_stable)

lemma user_entry_ok:
  assumes "user_entry uuid cid r t parent = Inr e" "content_ok (sr_content r)"
  shows "entry_ok e"
proof -
  from assms(1) obtain body metadata where body: "queued_text r = Inr body"
    and metadata: "message_metadata (sr_content r) = Inr metadata"
    and e: "entry_draft_init \<lparr>ed_entry_id = ''entry-'' @ uuid, ed_conversation_id = cid, ed_parent_id = parent,
       ed_kind = ''user_message'', ed_payload = dupdate metadata [(''text'', PStr body)], ed_commit_seq = 0,
       ed_by_task_id = Some (tc_task_id t)\<rparr> = Inr e"
    by (auto simp: user_entry_def)
  from body obtain c where c: "sr_content r = Some c"
    by (cases "sr_content r") (auto simp: queued_text_def or_empty_def pget_def pget_default_def)
  then have "stable_obj metadata" using metadata metadata_stable content_good assms(2) by auto
  then show ?thesis using e by (auto intro: entry_init_stable)
qed

lemma placed_update_ok: "submission_update_init (placed_update r status detail e) = Inr u \<Longrightarrow> content_ok (su_content u)"
  by (erule update_init_content) (simp add: placed_update_def)

lemma stale_update_ok: "submission_update_init (stale_update r) = Inr u \<Longrightarrow> content_ok (su_content u)"
  by (erule update_init_content) (simp add: stale_update_def)

lemma withdrawal_update_ok: "submission_update_init (withdrawal_update r cid) = Inr u \<Longrightarrow> content_ok (su_content u)"
  by (erule update_init_content) (simp add: withdrawal_update_def)

lemma placed_state_storable: "checkpoint_ok t \<Longrightarrow> storable_obj (placed_state t e)"
  by (simp add: placed_state_def checkpoint_storable)

context session_line
begin

lemma holds_transform_task_state:
  "(\<And>t d. transform t = Inr (Some d) \<Longrightarrow> storable_obj d) \<Longrightarrow> keeps holds (transform_task_state env tid transform)"
  unfolding transform_task_state_def
  by (intro holds_line holds_task holds_raising keeps_option keeps_bind holds_update_task_state) simp_all

lemma found_task_ok: "P st \<Longrightarrow> List.find Q (store_tasks st) = Some t \<Longrightarrow> checkpoint_ok t"
  by (rule tasks_ok) (auto dest: find_Some_mem)

lemma holds_withdraw_input: "keeps holds (withdraw_input env cid r)"
  unfolding withdraw_input_def
proof (intro holds_read keeps_option keeps_if holds_head holds_raising, goal_cases)
  case (3 st found t n st' u next_task upd)
  then have t: "checkpoint_ok t" using found_task_ok by simp
  have "checkpoint_ok next_task"
    using 3(7) by (rule task_replace_ok) (simp_all add: t checkpoint_storable storable_list)
  then show ?case
    using withdrawal_update_ok [OF 3(8)] by (intro holds_commit_mutation draft_init) (simp_all add: mutation_fields)
qed simp_all

lemma holds_withdraw_write: "keeps holds (withdraw_write env cid r)"
  unfolding withdraw_write_def
  by (intro holds_head holds_raising holds_commit_mutation draft_init) (simp_all add: mutation_fields withdrawal_update_ok)

lemma holds_withdraw: "keeps holds (withdraw_queued_submission_at env cid position expected)"
  unfolding withdraw_queued_submission_at_def Let_def
  by (intro holds_line holds_read keeps_if holds_withdraw_input holds_withdraw_write) simp_all

lemma revised_state_storable: "storable_obj s \<Longrightarrow> storable_obj (revised_state text mode s)"
  by (auto simp: revised_state_def Let_def split: option.splits)

lemma holds_submission:
  assumes "\<And>r. content_ok (sr_content r) \<Longrightarrow> keeps holds (g r)"
  shows "keeps holds (bind_s (read_submission sid) g)"
  unfolding read_submission_def by (rule holds_read) (auto intro: assms contents_submission [OF contents_stored])

lemma revision_update_ok:
  assumes "submission_update_init (revision_update current r body mode) = Inr u" "content_ok (sr_content r)"
  shows "content_ok (su_content u)"
proof (cases body)
  case None
  with assms(1) show ?thesis by (auto intro!: update_init_content [OF assms(1)] simp: revision_update_def)
next
  case (Some t)
  let ?c = "dset ''text'' (PStr t) (or_empty (sr_content r))"
  have "good_obj (or_empty (sr_content r))"
    using assms(2) content_good by (cases "sr_content r") (auto simp: or_empty_def)
  then have "stable_obj ?c" by (simp add: good_obj_stable)
  obtain x where x: "canonical_obj ?c = Inr x" "su_content u = Some x"
    using assms(1) Some by (auto simp: revision_update_def submission_update_init_def canonical_opt_def split: if_splits)
  have "canonical_obj x = Inr x" by (rule stable_canonical [OF x(1)]) fact
  then show ?thesis by (simp add: content_ok_def canonical_opt_def x(2))
qed

lemma holds_revise: "keeps holds (revise_queued_input env tid n text mode)"
  unfolding revise_queued_input_def
proof (intro holds_line holds_task keeps_if holds_submission holds_head holds_raising, goal_cases)
  case (6 current r revision t u)
  have "checkpoint_ok t"
    using 6(8) by (rule task_replace_ok) (simp_all add: 6(1) checkpoint_storable revised_state_storable)
  then show ?case
    using revision_update_ok [OF 6(9)] 6(3) by (intro holds_commit_mutation draft_init) (simp_all add: mutation_fields)
qed simp_all

lemma holds_settle_stale: "keeps holds (settle_stale_write env r)"
  unfolding settle_stale_write_def
  by (intro holds_head holds_raising holds_commit_mutation draft_init) (simp_all add: mutation_fields stale_update_ok)

lemma holds_place_write:
  assumes "content_ok (sr_content r)"
  shows "keeps holds (place_write_submission env r)"
  unfolding place_write_submission_def
proof (intro holds_raising holds_read keeps_if keeps_pair holds_settle_stale, goal_cases)
  case (1 q st stale st' x head n st'' e u)
  have "entry_ok e" by (rule write_entry_ok [OF 1(8,1) assms])
  then show ?case
    using placed_update_ok [OF 1(9)] by (intro holds_commit_mutation draft_init) (simp_all add: mutation_fields)
qed

lemma holds_place_input:
  assumes "content_ok (sr_content r)" "checkpoint_ok t"
  shows "keeps holds (place_input_submission env r t)"
  unfolding place_input_submission_def
proof (intro holds_raising holds_read keeps_pair, goal_cases)
  case (1 b st x head n st' e next_task u)
  have "checkpoint_ok next_task"
    using 1(6) by (rule task_replace_ok) (simp_all add: assms(2) checkpoint_storable placed_state_storable)
  moreover have "entry_ok e" by (rule user_entry_ok [OF 1(5) assms(1)])
  ultimately show ?case
    using placed_update_ok [OF 1(7)] by (intro holds_commit_mutation draft_init) (simp_all add: mutation_fields)
qed

lemma holds_place_submission: "keeps holds (place_submission env sid)"
  unfolding place_submission_def
  by (intro holds_line holds_submission keeps_if holds_place_write holds_read keeps_option holds_place_input)
     (auto intro: found_task_ok)


lemma holds_begin_execution: "keeps holds (begin_execution tid token)"
  unfolding begin_execution_def ensure_usable_def
  by (intro keeps_bind_read holds_task keeps_if) simp_all

lemma boundary_placement_ok:
  assumes "boundary_placement uuid n head visible tasks consumer r = Inr p" "content_ok (sr_content r)"
    "\<And>t. map_of tasks (sr_submission_id r) = Some t \<Longrightarrow> checkpoint_ok t"
  shows "list_all entry_ok (opt_list (bp_entry p)) \<and> list_all checkpoint_ok (opt_list (bp_task p)) \<and> content_ok (su_content (bp_update p))"
proof (cases "sr_mode r = ''write''")
  case True
  with assms(1) obtain q where q: "read_queued_write (sr_content r) = Inr q"
    by (auto simp: boundary_placement_def boundary_write_def)
  show ?thesis
    using assms(1) True q write_entry_ok [OF _ q assms(2)] stale_update_ok placed_update_ok
    by (auto simp: boundary_placement_def boundary_write_def opt_list_def split: if_splits)
next
  case False
  with assms(1) obtain t where t: "map_of tasks (sr_submission_id r) = Some t"
    by (auto simp: boundary_placement_def boundary_input_def split: option.splits)
  note ok = assms(3) [OF t]
  have consumed: "storable_obj (consumed_state t e c)" for e c
    using placed_state_storable [OF ok] by (auto simp: consumed_state_def split: option.splits)
  from assms(1) False t obtain e next_task u where e: "user_entry (uuid n) (sr_conversation_id r) r t head = Inr e"
    and next_task: "task_replace (t\<lparr>tc_revision := tc_revision t + 1,
              tc_state := consumed_state t e (if sr_mode r = ''steer'' \<and> consumer \<noteq> None then consumer else None),
              tc_phase := (if sr_mode r = ''steer'' \<and> consumer \<noteq> None then ''completed'' else tc_phase t),
              tc_status := (if sr_mode r = ''steer'' \<and> consumer \<noteq> None then Completed else tc_status t)\<rparr>) = Inr next_task"
    and u: "submission_update_init (placed_update r (if sr_mode r = ''steer'' \<and> consumer \<noteq> None then SubDone else sr_status r)
              (if sr_mode r = ''steer'' \<and> consumer \<noteq> None then Some [(''consumed_by_task_id'', opt_str consumer)] else None) e) = Inr u"
    and p: "p = \<lparr>bp_entry = Some e, bp_task = Some next_task, bp_update = u\<rparr>"
    by (auto simp: boundary_placement_def boundary_input_def Let_def simp del: if_Inl_Inr split: if_split_asm)
  have "checkpoint_ok next_task"
    using next_task by (rule task_replace_ok) (simp_all add: consumed checkpoint_storable ok)
  then show ?thesis
    using user_entry_ok [OF e assms(2)] placed_update_ok [OF u] by (simp add: p opt_list_def)
qed

lemma boundary_placements_ok:
  assumes "boundary_placements uuid n head visible tasks consumer rs = Inr ps"
    "\<forall>r\<in>set rs. content_ok (sr_content r)" "\<And>x t. map_of tasks x = Some t \<Longrightarrow> checkpoint_ok t"
  shows "list_all (\<lambda>p. list_all entry_ok (opt_list (bp_entry p)) \<and> list_all checkpoint_ok (opt_list (bp_task p))
    \<and> content_ok (su_content (bp_update p))) ps"
  using assms(1,2)
proof (induction rs arbitrary: n head visible ps)
  case (Cons r rs)
  from Cons.prems(1) obtain p n' head' visible' ps' where p: "boundary_placement uuid n head visible tasks consumer r = Inr p"
    and ps': "boundary_placements uuid n' head' visible' tasks consumer rs = Inr ps'" and ps: "ps = p # ps'"
    by (auto split: option.splits)
  from Cons.IH [OF ps'] Cons.prems(2) boundary_placement_ok [OF p _ assms(3)] show ?case by (simp add: ps)
qed simp

lemma map_filter_all:
  assumes "list_all (\<lambda>p. list_all Q (opt_list (f p))) ps"
  shows "list_all Q (List.map_filter f ps)"
  using assms by (induction ps) (auto simp: List.map_filter_simps opt_list_def split: option.splits)

lemma submissions_of:
  assumes "queued_submissions st cid = Inr rs" and r: "r \<in> set rs"
  shows "r \<in> set (map si_record (dvalues (st_submissions st)))"
proof -
  from assms(1) obtain keyed where k: "map_r (\<lambda>r. bind_r (lookup_key (st_submissions st) (sr_conversation_id r, sr_request_id r) (sr_request_id r))
        (\<lambda>item. Inr (cres_sequence (si_result item), r)))
      (filter (\<lambda>r. sr_status r = SubQueued \<and> sr_placement r = PlacementQueued
                \<and> (case cid of None \<Rightarrow> True | Some c \<Rightarrow> sr_conversation_id r = c))
              (map si_record (dvalues (st_submissions st)))) = Inr keyed"
    and rs: "rs = map snd (sort_key fst keyed)"
    by (auto simp: queued_submissions_def Let_def)
  have "snd ` set ys \<subseteq> set xs" if "map_r (\<lambda>r. bind_r (f r) (\<lambda>x. Inr (g x, r))) xs = Inr ys" for f :: "submission_record \<Rightarrow> 'x result" and g :: "'x \<Rightarrow> int" and xs ys
    using that by (induction xs arbitrary: ys) (auto, force)
  from this [OF k] r show ?thesis by (auto simp: rs)
qed

lemma index_task_ok: "P st \<Longrightarrow> map_of (conversation_task_index st cid) x = Some t \<Longrightarrow> checkpoint_ok t"
  by (rule tasks_ok [of st]) (auto simp: conversation_task_index_def map_of_dupdate dest!: map_of_SomeD split: option.splits)

lemma selected_queued: "r \<in> set (select_boundary b sm fm tid queued) \<Longrightarrow> r \<in> set queued"
  by (auto simp: select_boundary_def Let_def)

lemma prepared_boundary:
  assumes st: "P st" and prep: "prepare_boundary_mutation env st cid boundary sm fm tid = Inr (selected, m)"
  shows "draft_ok m" "list_all checkpoint_ok (dm_task_updates m)"
proof -
  from prep obtain queued head n ps active and path :: "entry_draft list" where
    queued: "queued_submissions st (Some cid) = Inr queued" and selected: "selected = select_boundary boundary sm fm tid queued"
    and ps: "boundary_placements (en_uuid env (st_sequence st)) 0 head (map ed_entry_id path) (conversation_task_index st cid) tid
         (select_boundary boundary sm fm tid queued) = Inr ps"
    and active: "boundary_task st cid boundary tid = Inr active"
    and init: "durable_mutation_init ((empty_mutation cid n)\<lparr>dm_entries := List.map_filter bp_entry ps,
          dm_task_updates := List.map_filter bp_task ps @ active, dm_sub_updates := map bp_update ps\<rparr>) = Inr m"
    by (auto simp: prepare_boundary_mutation_def Let_def split: prod.splits)
  have m: "m = (empty_mutation cid n)\<lparr>dm_entries := List.map_filter bp_entry ps,
          dm_task_updates := List.map_filter bp_task ps @ active, dm_sub_updates := map bp_update ps\<rparr>"
    using init by (auto simp: durable_mutation_init_def split: if_splits)
  have "\<forall>r\<in>set selected. content_ok (sr_content r)"
    using submissions_of [OF queued] contents_row [OF contents_stored [OF st]] selected_queued by (auto simp: selected)
  note all = boundary_placements_ok [OF ps this [unfolded selected] index_task_ok [OF st]]
  have entries: "list_all entry_ok (List.map_filter bp_entry ps)"
    by (rule map_filter_all) (use all in \<open>auto simp: list_all_iff\<close>)
  have tasks: "list_all checkpoint_ok (List.map_filter bp_task ps)"
    by (rule map_filter_all) (use all in \<open>auto simp: list_all_iff\<close>)
  have "list_all checkpoint_ok active"
  proof (cases tid)
    case None
    with active show ?thesis by (simp add: boundary_task_def)
  next
    case (Some x)
    with active obtain old t where old: "store_task st x = Inr old" and t: "active = [t]"
        "task_replace (old\<lparr>tc_revision := tc_revision old + 1,
              tc_state := dset ''generation_boundary'' (PStr boundary) (thaw_obj (tc_state old))\<rparr>) = Inr t"
      by (auto simp: boundary_task_def split: if_splits)
    have "checkpoint_ok t"
      using t(2) by (rule task_replace_ok) (simp_all add: checkpoint_storable task_ok [OF st old])
    then show ?thesis by (simp add: t(1))
  qed
  with tasks have updates: "list_all checkpoint_ok (List.map_filter bp_task ps @ active)" by simp
  then show "list_all checkpoint_ok (dm_task_updates m)" by (simp add: m)
  have "list_all (\<lambda>u. content_ok (su_content u)) (map bp_update ps)" using all by (auto simp: list_all_iff)
  with entries updates init show "draft_ok m"
    unfolding m by (intro draft_init) (simp_all add: mutation_fields)
qed

lemma holds_place_boundary_inputs: "keeps holds (place_boundary_inputs env cid boundary sm fm)"
  unfolding place_boundary_inputs_def read_submissions_def
proof (intro holds_line holds_read, goal_cases)
  case (1 st x)
  obtain selected m where x: "x = (selected, m)" by (cases x)
  from prepared_boundary(1) [OF 1(1) 1(2) [unfolded x]] show ?case
    by (auto simp: x intro!: keeps_bind holds_session_commit)
qed

lemma holds_commit_generation_boundary: "keeps holds (commit_generation_boundary env cid tid boundary sm fm)"
  unfolding commit_generation_boundary_def
proof (intro holds_line holds_task keeps_if, goal_cases)
  case (3 active)
  show ?case
  proof (rule holds_read)
    fix st x
    assume st: "P st" and x: "prepare_boundary_mutation env st cid boundary sm fm (Some tid) = Inr x"
    obtain selected m where sm: "x = (selected, m)" by (cases x)
    note ok = prepared_boundary [OF st x [unfolded sm]]
    have "keeps holds (commit_mutation env (m\<lparr>dm_task := Some t,
             dm_task_updates := filter (\<lambda>y. tc_task_id y \<noteq> tid) (dm_task_updates m)\<rparr>))"
      if "List.find (\<lambda>t. tc_task_id t = tid) (dm_task_updates m) = Some t" for t
    proof (rule holds_commit_mutation, rule draft_init)
      have "checkpoint_ok t" using find_Some_mem [OF that] ok(2) by (auto simp: list_all_iff)
      then show "list_all checkpoint_ok (all_tasks (m\<lparr>dm_task := Some t,
             dm_task_updates := filter (\<lambda>y. tc_task_id y \<noteq> tid) (dm_task_updates m)\<rparr>))"
        using ok(2) by (auto simp: all_tasks_def opt_list_def list_all_iff)
    qed (use ok(1) in \<open>auto simp: draft_ok_def session_mutation_def mutation_ok_def all_effects_def all_updates_def\<close>)
    then show "keeps holds (case x of (selected, m) \<Rightarrow>
       case List.find (\<lambda>t. tc_task_id t = tid) (dm_task_updates m) of
       None \<Rightarrow> raising (Inl (CommitConflict ''generation boundary mutation lost the active task''))
     | Some t \<Rightarrow>
         bind_s (commit_mutation env (m\<lparr>dm_task := Some t,
             dm_task_updates := filter (\<lambda>x. tc_task_id x \<noteq> tid) (dm_task_updates m)\<rparr>)) (\<lambda>_.
         read_submissions selected))"
      unfolding sm read_submissions_def by (auto intro!: keeps_option keeps_bind)
  qed
qed simp_all

lemma settle_step_ok:
  assumes "settle_step st aid a current settlement = Inr (SettleWith settled t status)" "P st" "checkpoint_ok current" "good_obj settlement"
  shows "checkpoint_ok t" "list_all effect_ok (opt_list settled)"
proof -
  have "checkpoint_ok t \<and> list_all effect_ok (opt_list settled)"
  proof (cases "apr_status a")
    case ExecutionClaimed
    with assms(1) obtain e settled' where e: "store_effect st (''shell-'' @ aid) = Inr e"
      and init: "effect_record_init (e\<lparr>ef_status := ''ok'', ef_settlement := Some settlement\<rparr>) = Inr settled'"
      and t: "with_effect_settlement current settled' = Inr t" and settled: "settled = Some settled'"
      by (auto simp: settle_step_def split: if_splits)
    have "storable_obj (ef_intent e)"
      using effect_stored [OF assms(2) e] by (auto simp: effect_ok_iff canonical_obj_def storable_obj_eq)
    then have "effect_ok settled'"
      by (intro effect_init_ok [OF init]) (simp_all add: good_obj_storable assms(4))
    then show ?thesis using with_effect_settlement_ok [OF assms(3) t] by (simp add: settled opt_list_def)
  next
    case Denied
    with assms(1) have "settled = None" "task_replace (current\<lparr>tc_revision := tc_revision current + 1\<rparr>) = Inr t"
      by (auto simp: settle_step_def)
    then show ?thesis using task_replace_ok checkpoint_storable [OF assms(3)] by (simp add: opt_list_def)
  qed (use assms(1) in \<open>auto simp: settle_step_def\<close>)
  then show "checkpoint_ok t" "list_all effect_ok (opt_list settled)" by blast+
qed

lemma storable_obj_dpop: "storable_obj d \<Longrightarrow> storable_obj (dpop k d)"
  by (auto simp: storable_obj_def dpop_def AList.delete_eq list_all_iff)

lemma resumed_task_ok: "resumed_task aid t = Inr t' \<Longrightarrow> checkpoint_ok t \<Longrightarrow> checkpoint_ok t'"
  unfolding resumed_task_def
  by (erule task_replace_ok) (simp_all add: checkpoint_storable storable_obj_dpop storable_dict)

lemma holds_settle_approval:
  assumes "good_obj settlement"
  shows "keeps holds (settle_approval env aid settlement resume results)"
  unfolding settle_approval_def
proof (intro holds_line holds_read holds_task keeps_if, goal_cases)
  case (2 st a current st' step)
  note approval = approval_stored [OF 2(1,2)]
  have "keeps holds (bind_s (commit_mutation env ((empty_mutation (tc_conversation_id current) revision)
           \<lparr>dm_entries := entries, dm_task := Some next_task, dm_settlements := opt_list settled,
            dm_approval := Some updated, dm_expected_approval_status := Some (apr_status a),
            dm_expected_attempt_token := Some (attempt_token current)\<rparr>)) (\<lambda>r. return_s (Some r)))"
    if step: "step = SettleWith settled t status" and entries: "list_all entry_ok entries"
      and next_task: "(if resume then resumed_task aid t else Inr t) = Inr next_task"
      and updated: "approval_record_init (a\<lparr>apr_status := status, apr_revision := apr_revision a + 1,
             apr_settlement := Some settlement,
             apr_continuation_status := (if resume then ''started'' else ''not_required''),
             apr_continuation_run_id := (if resume then tc_task_id current else apr_continuation_run_id a)\<rparr>) = Inr updated"
    for settled t status entries next_task updated revision
  proof -
    note ok = settle_step_ok [OF 2(6) [unfolded step] 2(5) 2(3) assms]
    have "checkpoint_ok next_task" using next_task ok(1) resumed_task_ok by (auto split: if_splits)
    moreover have "approval_ok updated"
      by (rule approval_init_ok [OF updated]) (simp add: assms good_obj_storable)
    ultimately show ?thesis
      using ok(2) entries by (intro keeps_bind holds_commit_mutation draft_init) (auto simp: mutation_fields split: option.splits)
  qed
  note commit = this
  have read: "keeps holds (bind_s (reads (\<lambda>st. if results = [] then Inr []
             else bind_r (store_head st (tc_conversation_id current)) (\<lambda>(head, revision).
               append_tool_results env st (tc_conversation_id current) head results (tc_task_id current)))) g)"
    if "\<And>es. list_all entry_ok es \<Longrightarrow> keeps holds (g es)" for g :: "entry_draft list \<Rightarrow> (session, commit_result option) action"
    by (rule holds_read) (auto intro!: that dest: tool_results_ok split: if_splits prod.splits)
  show ?case
  proof (cases step)
    case (SettleWith settled t status)
    show ?thesis
      unfolding SettleWith approval_step.case
      by (intro read holds_raising holds_head commit [OF SettleWith])
  qed simp
qed simp

lemma migrated_storable:
  assumes "checkpoint_ok t" "storable_obj checkpoint"
  shows "storable_obj (migrated_state env w t checkpoint)"
  using assms by (simp add: migrated_state_def checkpoint_storable storable_dict)

lemma holds_reconcile_workflow:
  assumes "checkpoint_ok t"
    and "\<And>w d n c. w \<in> set (dvalues definitions) \<Longrightarrow> migrate_checkpoint w d n = Inr c \<Longrightarrow> good_obj d \<Longrightarrow> good_obj c"
  shows "keeps holds (reconcile_workflow env definitions t)"
proof -
  have checkpoint: "good_obj (workflow_checkpoint t)"
  proof -
    have "good (pget_default (tc_state t) ''workflow_checkpoint'' (PDict []))"
      using good_lookup [OF checkpoint_good(1) [OF assms(1)]] by (auto simp: pget_default_def good_def split: option.splits)
    then show ?thesis using good_mapping by (auto simp: workflow_checkpoint_def split: option.splits)
  qed
  have commit: "keeps holds (bind_s (commit_replaced env t (task_replace (t\<lparr>tc_revision := tc_revision t + 1,
        tc_state := migrated_state env w t c\<rparr>)) (Some (attempt_token t))) (\<lambda>_. return_s [tc_task_id t]))"
    if "map_of definitions name = Some w" "migrate_checkpoint w (workflow_checkpoint t) (workflow_version t) = Inr c" for name w c
  proof -
    have "w \<in> set (dvalues definitions)" using that(1) by (force simp: dvalues_def dest: map_of_SomeD)
    from assms(2) [OF this that(2) checkpoint] have "storable_obj c" by (rule good_obj_storable)
    then show ?thesis
      by (intro keeps_bind holds_task_replaced) (simp_all add: migrated_storable assms(1) checkpoint_storable)
  qed
  show ?thesis
  proof (cases "workflow_name t")
    case None
    then show ?thesis by (simp add: reconcile_workflow_def keeps_return)
  next
    case name: (Some name)
    show ?thesis
    proof (cases "map_of definitions name")
      case None
      then show ?thesis by (simp add: reconcile_workflow_def name keeps_return)
    next
      case w: (Some w)
      show ?thesis
      proof (cases "migrate_checkpoint w (workflow_checkpoint t) (workflow_version t)")
        case (Inl e)
        then show ?thesis by (cases e) (simp_all add: reconcile_workflow_def name w keeps_return)
      next
        case (Inr c)
        then show ?thesis using commit [OF w Inr] by (simp add: reconcile_workflow_def name w keeps_return)
      qed
    qed
  qed
qed

lemma holds_reconcile_workflows:
  assumes "\<And>w d n c. w \<in> set (dvalues definitions) \<Longrightarrow> migrate_checkpoint w d n = Inr c \<Longrightarrow> good_obj d \<Longrightarrow> good_obj c"
  shows "keeps holds (reconcile_workflows env definitions)"
  unfolding reconcile_workflows_def
proof (intro holds_line holds_read, goal_cases)
  case (1 st ts)
  have "\<forall>t\<in>set ts. checkpoint_ok t" using 1 tasks_ok by auto
  then show ?case
  proof (induction ts)
    case (Cons t ts)
    have "keeps holds (reconcile_workflow env definitions t)"
      by (rule holds_reconcile_workflow [OF _ assms]) (use Cons.prems in simp_all)
    moreover have "keeps holds (reconcile_all env definitions ts)" using Cons by simp
    ultimately show ?case by (simp add: keeps_bind keeps_return)
  qed (simp add: keeps_return)
qed

end

end
