(* ===== verification/Session_Guarantees.thy ===== *)
theory Session_Guarantees
  imports Session_Placed Store_Guarantees
begin

text \<open>
  What the durable session guarantees on top of the store: its operations are runs of the
  store, a failed session is inert, attempts are fenced, settlements and cancellations are
  final.
\<close>

section \<open>Sessions and runs of the store\<close>

lemma wf_task:
  assumes "wf_store st" "map_of (st_tasks st) tid = Some t"
  shows "checkpoint_ok t" "tc_task_id t = tid"
  using wf_storeD(3) [OF assms(1)] assms(2) by (auto simp: wf_tasks_def keyed_by_def ran_def)

lemma wf_task_row: "wf_store st \<Longrightarrow> t \<in> set (store_tasks st) \<Longrightarrow> checkpoint_ok t"
  using wf_storeD(3) [of st] by (auto simp: wf_tasks_def store_tasks_def dvalues_mem ran_def)

lemma wf_effect_row: "wf_store st \<Longrightarrow> store_effect st eid = Inr e \<Longrightarrow> effect_ok e"
  using wf_storeD(4) [of st]
  by (auto simp: wf_effects_def store_effect_def lookup_key_def ran_def split: option.splits)

lemma wf_stored_task: "wf_store st \<Longrightarrow> store_task st tid = Inr t \<Longrightarrow> checkpoint_ok t"
  using wf_task by (auto simp: store_task_def lookup_key_def split: option.splits)

text \<open>The contents of the stored submissions stay frozen.\<close>

lemma record_init_content: "submission_record_init r = Inr r' \<Longrightarrow> content_ok (sr_content r) \<Longrightarrow> content_ok (sr_content r')"
  by (auto simp: submission_record_init_def content_ok_def split: if_splits)

lemma contents_ok_dset:
  assumes "contents_ok st" "content_ok (sr_content (si_record item))"
  shows "contents_ok (st\<lparr>st_submissions := dset k item (st_submissions st)\<rparr>)"
  using assms by (auto simp: contents_ok_def dvalues_def list_all_iff dest!: set_dset)

lemma contents_ok_same: "st_submissions st' = st_submissions st \<Longrightarrow> contents_ok st' = contents_ok st"
  by (simp add: contents_ok_def)

lemma keeps_contents:
  assumes "\<And>s. st_submissions (f s) = st_submissions s"
  shows "keeps contents_ok (modify_s f)"
  using assms by (simp add: keeps_modify contents_ok_def)

lemma contents_append_commit: "keeps contents_ok (append_commit now m)"
  unfolding append_commit_def by (intro keeps_bind keeps_contents) simp_all

lemma contents_extend: "keeps contents_ok (extend_entries m stored)"
  unfolding extend_entries_def by (intro keeps_bind keeps_contents) (simp_all split: option.splits)

lemma contents_write_task: "keeps contents_ok (write_task m h sel t)"
  unfolding write_task_def
  by (intro keeps_bind keeps_contents)
     (simp_all add: put_task_def history_slot_def append_history_def Let_def split: option.splits)

lemma contents_write_submission:
  assumes "mutation_ok m"
  shows "keeps contents_ok (write_submission m n r)"
proof (cases "dm_submission m")
  case (Some d)
  have "submission_draft_init d = Inr d" using assms Some by (simp add: mutation_ok_def submission_ok_def opt_list_def)
  then have d: "content_ok (sd_content d)"
    by (cases d) (auto simp: submission_draft_init_def content_ok_def Let_def split: if_splits)
  show ?thesis
    unfolding write_submission_def Some option.case
  proof (rule keeps_bind_read)
    fix s rec
    assume init: "submission_record_init
             \<lparr>sr_submission_id = sd_submission_id d, sr_conversation_id = dm_conversation_id m,
              sr_request_id = sd_request_id d, sr_status = sd_status d,
              sr_input_entry_id = map_option ed_entry_id (sd_entry d), sr_answer_entry_id = None,
              sr_reason = sd_reason d, sr_detail = None, sr_placement = sd_placement d,
              sr_mode = sd_mode d, sr_content = sd_content d\<rparr> = Inr rec"
    have rec: "content_ok (sr_content rec)" using record_init_content [OF init] d by simp
    show "keeps contents_ok (modify_s (\<lambda>s. s\<lparr>
            st_submissions := dset (dm_conversation_id m, sd_request_id d)
              \<lparr>si_record = rec, si_entry = sd_entry d,
               si_result = \<lparr>cres_revision = n, cres_sequence = cr_sequence r,
                            cres_submission_id = Some (sd_submission_id d), cres_record = Some r\<rparr>,
               si_fingerprint = sd_fingerprint d\<rparr> (st_submissions s),
            st_submission_ids := insert (sd_submission_id d) (st_submission_ids s)\<rparr>))"
      using rec by (auto simp: keeps_modify contents_ok_def dvalues_def list_all_iff dest!: set_dset)
  qed
qed (simp add: write_submission_def)

lemma contents_update_submission:
  assumes "content_ok (su_content u)"
  shows "keeps contents_ok (update_submission es u)"
proof (rule keepsI)
  fix s
  assume ok: "contents_ok s"
  show "contents_ok (snd (update_submission es u s))"
  proof (cases "List.find (\<lambda>(key, item). sr_submission_id (si_record item) = su_submission_id u) (st_submissions s)")
    case None
    then show ?thesis using ok by (simp add: update_submission_def)
  next
    case (Some found)
    obtain key current where found: "found = (key, current)" by (cases found)
    have "(key, current) \<in> set (st_submissions s)" using find_Some_mem [OF Some] found by simp
    then have "content_ok (sr_content (si_record current))"
      using ok by (force simp: contents_ok_def dvalues_def list_all_iff)
    then have "content_ok (sr_content (updated_record u (si_record current)))"
      using assms by (cases "su_content u") (simp_all add: updated_record_def)
    note rec = record_init_content [OF _ this]
    show ?thesis
      using ok Some found rec
      by (cases "submission_record_init (updated_record u (si_record current))")
         (auto simp: update_submission_def bind_s_def read_s_def modify_s_def intro!: contents_ok_dset)
  qed
qed

lemma contents_commit:
  assumes "session_mutation m"
  shows "keeps contents_ok (commit now m)"
proof -
  have m: "mutation_ok m" "\<not> dm_delete_conversation m" "list_all (\<lambda>u. content_ok (su_content u)) (all_updates m)"
    using assms by (simp_all add: session_mutation_def)
  have written: "keeps contents_ok (write_commit now m h n)" for h n
    unfolding write_commit_def Let_def
    by (intro keeps_bind keeps_each contents_append_commit contents_extend contents_write_task keeps_contents
        contents_write_submission contents_update_submission m(1) keeps_return keeps_read)
       (use m(3) in \<open>simp_all add: put_effects_def put_artifacts_def list_all_iff\<close>)
  show ?thesis
    unfolding commit_def
  proof (rule keeps_bind_read)
    fix s plan
    assume "commit_plan_of s m = Inr plan"
    then show "keeps contents_ok (case plan of Answer r \<Rightarrow> return_s r
        | Delete revision \<Rightarrow> commit_delete_conversation now m revision | Write h n \<Rightarrow> write_commit now m h n)"
      using planned_delete(3) [OF _ m(1)] m(2) written by (cases plan) auto
  qed
qed

lemma wf_history_row:
  assumes "wf_store st" "p \<in> set (task_history st tid through)"
  shows "checkpoint_ok (tt_task p)"
proof -
  have p: "p \<in> set (points_of st tid)" using assms(2) by (auto simp: task_history_def points_of_def split: option.splits)
  then have "has_key tid (st_tasks st)"
    using wf_storeD(7) [OF assms(1)] by (auto simp: wf_history_def points_of_def has_key_def split: option.splits)
  then obtain t where "map_of (st_tasks st) tid = Some t" by (auto simp: has_key_def)
  then show ?thesis using wf_storeD(7) [OF assms(1)] p by (auto simp: wf_history_def history_of_def)
qed

interpretation reach: session_line "\<lambda>st. wf_store st \<and> contents_ok st \<and> live_step\<^sup>*\<^sup>* st0 st" for st0
proof unfold_locales
  fix st m now
  assume st: "wf_store st \<and> contents_ok st \<and> live_step\<^sup>*\<^sup>* st0 st" and m: "session_mutation m"
  from m have "mutation_ok m" "\<not> dm_delete_conversation m" by (simp_all add: session_mutation_def)
  with st have "wf_store (snd (commit now m st)) \<and> live_step\<^sup>*\<^sup>* st0 (snd (commit now m st))"
    using live_step.commit live_step_wf by (metis rtranclp.rtrancl_into_rtrancl)
  with keepsD [OF contents_commit [OF m]] st
  show "wf_store (snd (commit now m st)) \<and> contents_ok (snd (commit now m st)) \<and> live_step\<^sup>*\<^sup>* st0 (snd (commit now m st))"
    by blast
next
  fix st p tid through
  assume "wf_store st \<and> contents_ok st \<and> live_step\<^sup>*\<^sup>* st0 st" "p \<in> set (task_history st tid through)"
  then show "checkpoint_ok (tt_task p)" using wf_history_row by blast
qed (blast intro: wf_task_row wf_effect_row)+


text \<open>
  A call of a session by some context: the environment is arbitrary, the arguments are
  constructed records and storable objects. A transaction is called with any function that
  makes constructed mutations from checkpoints, or raises. These are all public methods of
  the session that change something, except for the deletion of a conversation.
\<close>

definition constructed :: "durable_mutation \<Rightarrow> bool" where
  "constructed m = (mutation_ok m \<and> list_all (\<lambda>u. content_ok (su_content u)) (all_updates m)
     \<and> (\<forall>a. dm_approval m = Some a \<longrightarrow> approval_ok a))"

lemma constructed_draft:
  assumes "constructed m" and "dm_task m \<noteq> None" shows "draft_ok m"
  using assms deletes_no_task [of m]
  by (auto simp: constructed_def draft_ok_def session_mutation_def all_tasks_def opt_list_def)

inductive session_step :: "session \<Rightarrow> session \<Rightarrow> bool" where
  create: "session_step s (snd (session_create_conversation env cid s))"
| state: "storable_obj d \<Longrightarrow> session_step s (snd (update_task_state env tid d revision s))"
| policy: "storable_obj d \<Longrightarrow> session_step s (snd (record_task_policy env tid d s))"
| reviewer: "storable_obj d \<Longrightarrow> session_step s (snd (record_reviewer_selection env tid d s))"
| claim: "session_step s (snd (claim_task env tid s))"
| unclaim: "session_step s (snd (unclaim_task env tid s))"
| advance: "storable_obj d \<Longrightarrow> session_step s (snd (advance_task env tid phase d answer sub_status reason status s))"
| start: "storable_obj d \<Longrightarrow> session_step s (snd (start_task env tid d s))"
| finish: "storable_obj d \<Longrightarrow> session_step s (snd (finish_task env tid answer' d s))"
| complete: "storable_obj d \<Longrightarrow> session_step s (snd (complete_task env tid answer' d s))"
| wait: "storable_obj (case update of None \<Rightarrow> [] | Some d \<Rightarrow> d) \<Longrightarrow> session_step s (snd (wait_task env tid update ids policy s))"
| failed: "storable_obj d \<Longrightarrow> session_step s (snd (fail_task env tid why d expected s))"
| request: "storable_obj d \<Longrightarrow> session_step s (snd (request_cancel n env tid why d revision s))"
| cancel: "session_step s (snd (cancel_task n env tid why s))"
| recover: "session_step s (snd (recover_scheduler_state env force s))"
| waiting: "session_step s (snd (reconcile_waiting_tasks env tid' s))"
| finalize: "session_step s (snd (reconcile_finalization env ids s))"
| intents: "list_all effect_ok es \<Longrightarrow> session_step s (snd (record_effect_intents env tid es s))"
| intent: "effect_ok e \<Longrightarrow> session_step s (snd (record_effect_intent env tid e s))"
| settle: "effect_ok e \<Longrightarrow> session_step s (snd (settle_effect env tid e status' artifacts s))"
| unknown: "session_step s (snd (settle_unknown_effect env tid eid s))"
| approval: "approval_ok a \<Longrightarrow> session_step s (snd (create_approval env a s))"
| transition: "approval_ok a \<Longrightarrow> list_all checkpoint_ok (opt_list t) \<Longrightarrow>
    session_step s (snd (transition_approval env aid a approval t s))"
| claim_approval: "effect_ok e \<Longrightarrow> session_step s (snd (claim_approval_and_begin_effect env aid e approval s))"
| artifacts: "session_step s (snd (register_artifacts env tid artifacts s))"
| message: "good_obj d \<Longrightarrow> session_step s (snd (append_message env cid kind d s))"
| snapshot: "good_obj d \<Longrightarrow> session_step s (snd (save_context_snapshot env cid d s))"
| branch: "session_step s (snd (session_branch env cid eid revision s))"
| idle_branch: "session_step s (snd (select_idle_branch env cid eid revision s))"
| fork: "session_step s (snd (session_fork env cid eid child s))"
| display: "good_obj d \<Longrightarrow> session_step s (snd (record_display_message env cid run identity d s))"
| admit: "request_good r \<Longrightarrow> session_step s (snd (admit_input env r s))"
| admit_note: "write_good w \<Longrightarrow> session_step s (snd (admit_write env w s))"
| fork_at: "session_step s (snd (fork_task env tid n cid child_tid rid instruction s))"
| transform: "(\<And>t d. f t = Inr (Some d) \<Longrightarrow> storable_obj d) \<Longrightarrow>
    session_step s (snd (transform_task_state env tid f s))"
| withdraw: "session_step s (snd (withdraw_queued_submission_at env cid position expected s))"
| revise: "session_step s (snd (revise_queued_input env tid n body mode s))"
| place: "session_step s (snd (place_submission env sid s))"
| boundary: "session_step s (snd (place_boundary_inputs env cid task_boundary sm fm s))"
| generation: "session_step s (snd (commit_generation_boundary env cid tid task_boundary sm fm s))"
| settle_approval: "good_obj settlement \<Longrightarrow>
    session_step s (snd (settle_approval env aid settlement resume results s))"
| workflows: "(\<And>w d n c. w \<in> set (dvalues definitions) \<Longrightarrow> migrate_checkpoint w d n = Inr c \<Longrightarrow>
      good_obj d \<Longrightarrow> good_obj c) \<Longrightarrow>
    session_step s (snd (reconcile_workflows env definitions s))"
| transact: "(\<And>t es n m. checkpoint_ok t \<Longrightarrow> derive t es n = Inr (Some m) \<Longrightarrow> constructed m) \<Longrightarrow>
    session_step s (snd (transact_task env tid derive s))"
| close: "session_step s (close_session s)"

text \<open>With deletions: every call that changes a session or its store.\<close>

inductive session_call :: "session \<Rightarrow> session \<Rightarrow> bool" where
  step: "session_step s s' \<Longrightarrow> session_call s s'"
| delete: "session_call s (snd (session_delete env cid s))"

context session_line
begin

lemma holds_transact_task:
  assumes "\<And>t es n m. checkpoint_ok t \<Longrightarrow> derive t es n = Inr (Some m) \<Longrightarrow> constructed m"
  shows "keeps holds (transact_task env tid derive)"
  unfolding transact_task_def
proof (intro holds_line, rule holds_read, goal_cases)
  case (1 st current)
  then have current: "checkpoint_ok current" by (rule task_ok)
  show ?case
  proof (rule holds_read, clarify, rule holds_read, goal_cases)
    case (1 st1 head revision st derived)
    show ?case
    proof (cases derived)
      case (Some m)
      with assms [OF current] 1 have m: "constructed m" by simp
      show ?thesis unfolding Some option.case
      proof (rule keeps_bind_read, goal_cases)
        case (1 s u)
        then have "dm_task m \<noteq> None" by (auto split: option.splits)
        then show ?case by (intro keeps_bind holds_session_commit constructed_draft [OF m]) simp_all
      qed
    qed simp
  qed
qed

lemma session_step_holds: "session_step s s' \<Longrightarrow> holds s \<Longrightarrow> holds s'"
proof (induction rule: session_step.induct)
  case (close s)
  then show ?case by (simp add: holds_def close_session_def)
next
  case (intent e s env tid)
  from intent(1) have "keeps holds (record_effect_intent env tid e)"
    unfolding record_effect_intent_def by (intro holds_line holds_record_effect_intents) simp
  from keepsD [OF this intent(2)] show ?case by simp
next
  case (transact derive s env tid)
  from keepsD [OF holds_transact_task [OF transact(1)] transact(2)] show ?case by simp
next
  case (transform f s env tid)
  from keepsD [OF holds_transform_task_state [OF transform(1)] transform(2)] show ?case by simp
next
  case (workflows definitions s env)
  from keepsD [OF holds_reconcile_workflows [OF workflows(1)] workflows(2)] show ?case by simp
qed (erule keepsD [rotated], (rule holds_create_conversation holds_update_task_state holds_record_task_policy
      holds_record_reviewer_selection holds_claim_task holds_unclaim_task holds_advance_task holds_start_task
      holds_finish_task holds_complete_task holds_wait_task holds_fail_task holds_cancel
      holds_recover_scheduler_state holds_reconcile_waiting_tasks holds_reconcile_finalization
      holds_record_effect_intents holds_settle_effect holds_settle_unknown_effect holds_create_approval
      holds_transition_approval holds_claim_approval holds_register_artifacts
      holds_append_message holds_save_context_snapshot holds_session_branch holds_select_idle_branch
      holds_session_fork holds_record_display_message holds_admit_input holds_admit_write holds_fork_task
      holds_withdraw holds_revise holds_place_submission holds_place_boundary_inputs
      holds_commit_generation_boundary holds_settle_approval; assumption?))+

lemma session_run_holds: "session_step\<^sup>*\<^sup>* s s' \<Longrightarrow> P (ss_store s) \<Longrightarrow> P (ss_store s')"
  by (induction rule: rtranclp_induct) (auto dest: session_step_holds simp: holds_def)

end

lemma session_run_store:
  assumes "session_step\<^sup>*\<^sup>* s s'" and "wf_store (ss_store s)" and "contents_ok (ss_store s)"
  shows "live_step\<^sup>*\<^sup>* (ss_store s) (ss_store s')" "wf_store (ss_store s')" "contents_ok (ss_store s')"
  using reach.session_run_holds [OF assms(1), of "ss_store s"] assms(2,3) by simp_all

section \<open>Failed sessions\<close>

definition usable :: "session \<Rightarrow> bool" where
  "usable s = (ss_failure s = None \<and> \<not> ss_sealed s \<and> \<not> ss_closed s)"

lemma line_usable: "mutation_line body s = (if usable s then body s else (fst (mutation_line body s), s))"
  by (simp add: mutation_line_def ensure_usable_def usable_def)

lemma line_body: "usable s \<Longrightarrow> mutation_line body s = body s"
  by (simp add: mutation_line_def ensure_usable_def usable_def)

lemma line_result: "mutation_line body s = (Inr r, s') \<Longrightarrow> usable s \<and> body s = (Inr r, s')"
  by (auto simp: mutation_line_def ensure_usable_def usable_def raise_if_def split: if_splits)

lemma line_unusable: "\<not> usable s \<Longrightarrow> snd (mutation_line body s) = s \<and> isl (fst (mutation_line body s))"
  by (auto simp: mutation_line_def ensure_usable_def usable_def)

lemma unusable_step: "session_step s s' \<Longrightarrow> \<not> usable s \<Longrightarrow> s' = s \<or> s' = close_session s"
proof (induction rule: session_step.induct)
  case (request d s n env tid why revision)
  then show ?case using line_unusable by (cases n) (auto simp: raising_def read_s_def)
next
  case (cancel s n env tid why)
  then show ?case using line_unusable by (cases n) (auto simp: raising_def read_s_def)
qed (simp_all add: line_unusable session_create_conversation_def update_task_state_def record_task_policy_def
    record_reviewer_selection_def claim_task_def unclaim_task_def advance_task_def start_task_def finish_task_def
    complete_task_def wait_task_def fail_task_def recover_scheduler_state_def reconcile_waiting_tasks_def
    reconcile_finalization_def record_effect_intents_def record_effect_intent_def settle_effect_def
    settle_unknown_effect_def create_approval_def transition_approval_def claim_approval_and_begin_effect_def register_artifacts_def
    append_message_def save_context_snapshot_def session_branch_def select_idle_branch_def session_fork_def
    record_display_message_def admit_input_def admit_write_def fork_task_def transform_task_state_def
    withdraw_queued_submission_at_def revise_queued_input_def place_submission_def place_boundary_inputs_def
    commit_generation_boundary_def settle_approval_def reconcile_workflows_def transact_task_def Let_def)

text \<open>
  C12: a session that failed, for instance because a listener raised after a commit, is inert:
  no call changes its store again, and it stays failed.
\<close>

theorem failed_session_inert:
  assumes "session_step\<^sup>*\<^sup>* s s'" and "ss_failure s = Some e"
  shows "ss_store s' = ss_store s \<and> ss_failure s' = Some e"
  using assms(1)
proof (induction rule: rtranclp_induct)
  case (step a b)
  then have "\<not> usable a" by (simp add: usable_def)
  with unusable_step [OF step.hyps(2)] step.IH show ?case by (auto simp: close_session_def)
qed (simp add: assms(2))


section \<open>What a commit of the session does\<close>

lemma commit_mutation_steps:
  assumes "commit_mutation env m s = (res, s')"
  obtains (unchanged) e where "res = Inl e" "ss_store s' = ss_store s"
  | (committed) m1 m2 now r where "usable s" "materialized (ss_store s) m = Inr m1" "fenced env s m1 = Inr m2"
      "durable_mutation_init m = Inr m" "commit now m2 (ss_store s) = (r, ss_store s')"
      "res = r \<or> isl res \<and> ss_failure s' \<noteq> None"
proof (cases "durable_mutation_init m")
  case (Inl e)
  with assms have "res = Inl e" "ss_store s' = ss_store s" by (auto simp: commit_mutation_def)
  then show ?thesis by (rule unchanged)
next
  case (Inr m')
  then have m: "m' = m" by (auto simp: durable_mutation_init_def split: if_splits)
  with Inr assms have run: "session_commit env m s = (res, s')" by (simp add: commit_mutation_def)
  show ?thesis
  proof (cases "usable s")
    case False
    have "snd (session_commit env m s) = s \<and> isl (fst (session_commit env m s))"
      unfolding session_commit_def by (rule line_unusable [OF False])
    then have "s' = s" "isl res" using run by simp_all
    then show ?thesis by (cases res) (simp_all add: unchanged)
  next
    case True
    then have line: "latching (bind_s (reads (\<lambda>st. materialized st m)) (\<lambda>m1.
       bind_s (read_s (\<lambda>s. fenced env s m1)) (\<lambda>m2.
       bind_s (on_store (\<lambda>st. commit (en_now env (st_sequence st)) m2 st)) (\<lambda>result.
       bind_s (publish_commit env result m2) (\<lambda>_. return_s result))))) s = (res, s')"
      using run by (simp add: session_commit_def line_usable)
    show ?thesis
    proof (cases "materialized (ss_store s) m")
      case (Inl e)
      with line have "res = Inl e" "ss_store s' = ss_store s"
        by (auto simp: latching_def reads_def fail_session_def split: if_splits)
      then show ?thesis by (rule unchanged)
    next
      case m1: (Inr m1)
      show ?thesis
      proof (cases "fenced env s m1")
        case (Inl e)
        with line m1 have "res = Inl e" "ss_store s' = ss_store s"
          by (auto simp: latching_def reads_def fail_session_def split: if_splits)
        then show ?thesis by (rule unchanged)
      next
        case m2: (Inr m2)
        obtain r st where c: "commit (en_now env (st_sequence (ss_store s))) m2 (ss_store s) = (r, st)" by fastforce
        have "ss_store s' = st \<and> (res = r \<or> isl res \<and> ss_failure s' \<noteq> None)"
          using line m1 m2 c
          by (cases r) (auto simp: latching_def reads_def on_store_def bind_s_def read_s_def publish_commit_def
              fail_session_def split: if_splits option.splits)
        with c True m1 m2 Inr m show ?thesis by (auto intro: committed)
      qed
    qed
  qed
qed

lemma fenced_fields:
  assumes "fenced env s m = Inr m'"
  shows "m' = m\<lparr>dm_expected_attempt_token := dm_expected_attempt_token m'\<rparr>"
    "dm_task m' = dm_task m" "dm_create_conversation m' = dm_create_conversation m"
    "dm_submission m' = dm_submission m" "all_effects m' = all_effects m" "all_tasks m' = all_tasks m"
  using assms by (auto simp: fenced_def durable_mutation_init_def all_effects_def all_tasks_def
      split: option.splits sum.splits if_splits)

section \<open>Runs of a session\<close>

lemma remove_contents: "contents_ok st \<Longrightarrow> contents_ok (remove_conversation cid st)"
  by (auto simp: contents_ok_def remove_fields dvalues_def list_all_iff)

lemma contents_delete:
  assumes "contents_ok st" and "commit now m st = (r, st')" and "dm_delete_conversation m"
  shows "contents_ok st'"
  using assms(2)
proof (cases rule: commit_cases)
  case (deleted revision)
  let ?st1 = "st\<lparr>st_sequence := st_sequence st + 1, st_commits := st_commits st @ [commit_row now m st]\<rparr>"
  have "contents_ok ?st1" by (subst contents_ok_same [of ?st1 st]) (simp_all add: assms(1))
  then have removed: "contents_ok (remove_conversation (dm_conversation_id m) ?st1)" by (rule remove_contents)
  show ?thesis
  proof (cases "has_forked_children st (dm_conversation_id m)")
    case True
    with deleted(2) assms(1) show ?thesis by (simp add: commit_delete_form)
  next
    case False
    with deleted(2) have "st' = remove_conversation (dm_conversation_id m) ?st1" by (simp add: commit_delete_form)
    with removed show ?thesis by simp
  qed
next
  case (written head revision)
  with planned_write(8) assms(3) show ?thesis by blast
qed (use assms(1) in simp_all)

lemma delete_commit:
  "ss_store (snd (session_delete env cid s)) = ss_store s
   \<or> (\<exists>now m. mutation_ok m \<and> dm_delete_conversation m \<and> ss_store (snd (session_delete env cid s)) = snd (commit now m (ss_store s)))"
proof (cases "usable s")
  case False
  have "snd (session_delete env cid s) = s" unfolding session_delete_def using line_unusable [OF False] by blast
  then show ?thesis by simp
next
  case True
  show ?thesis
  proof (cases "store_head (ss_store s) cid")
    case (Inl e)
    then show ?thesis unfolding session_delete_def line_body [OF True] by (simp add: head_revision_def reads_def read_s_def bind_s_def)
  next
    case (Inr h)
    let ?m = "(empty_mutation cid (snd h))\<lparr>dm_delete_conversation := True\<rparr>"
    obtain res s' where run: "commit_mutation env ?m s = (res, s')" by fastforce
    have s': "snd (session_delete env cid s) = s'"
      unfolding session_delete_def line_body [OF True] using Inr run by (simp add: head_revision_def reads_def read_s_def bind_s_def)
    from run show ?thesis
    proof (cases rule: commit_mutation_steps)
      case (unchanged e)
      with s' show ?thesis by simp
    next
      case (committed m1 m2 now r)
      have "m1 = ?m" using committed(2) by (simp add: materialized_def empty_mutation_def)
      then have "m2 = ?m" using committed(3) by (simp add: fenced_def empty_mutation_def)
      moreover have "mutation_ok ?m"
        using committed(4) by (simp add: mutation_ok_def empty_mutation_def all_tasks_def all_effects_def opt_list_def)
      moreover have "dm_delete_conversation ?m" by simp
      ultimately show ?thesis using committed(5) s' by (metis snd_conv)
    qed
  qed
qed

lemma session_call_store:
  assumes "session_call s s'" and "wf_store (ss_store s)" and "contents_ok (ss_store s)"
  shows "store_step\<^sup>*\<^sup>* (ss_store s) (ss_store s') \<and> wf_store (ss_store s') \<and> contents_ok (ss_store s')"
  using assms
proof (induction rule: session_call.induct)
  case (step s s')
  from session_run_store [OF r_into_rtranclp [of session_step, OF step.hyps] step.prems]
    mono_rtranclp [of live_step store_step] live_step_store_step show ?case by blast
next
  case (delete s env cid)
  from delete_commit [of env cid s] show ?case
  proof (elim disjE exE conjE)
    fix now m
    assume m: "mutation_ok m" "dm_delete_conversation m"
      and eq: "ss_store (snd (session_delete env cid s)) = snd (commit now m (ss_store s))"
    have "contents_ok (snd (commit now m (ss_store s)))"
      using contents_delete [OF delete(2) _ m(2), of now] by (metis prod.collapse)
    with store_step.commit [OF m(1)] store_step_wf delete(1) show ?thesis unfolding eq by blast
  qed (use delete in simp)
qed

text \<open>
  C4: the session refines the store. Whatever calls reach a session, transactions and
  deletions among them, with any contexts,
  clocks and listeners, also calls that raise, its store is one that a run of store methods
  reaches, and it is well-formed, so every guarantee of the store holds of it. Without
  deletions, the run of the store is one without deletions.
\<close>

theorem session_refines_store:
  assumes "session_call\<^sup>*\<^sup>* s s'" and "wf_store (ss_store s)" and "contents_ok (ss_store s)"
  shows "store_step\<^sup>*\<^sup>* (ss_store s) (ss_store s') \<and> wf_store (ss_store s')
    \<and> (session_step\<^sup>*\<^sup>* s s' \<longrightarrow> live_step\<^sup>*\<^sup>* (ss_store s) (ss_store s'))"
proof -
  from assms(1) have "store_step\<^sup>*\<^sup>* (ss_store s) (ss_store s') \<and> wf_store (ss_store s') \<and> contents_ok (ss_store s')"
  proof (induction rule: rtranclp_induct)
    case (step a b)
    with session_call_store [OF step.hyps(2)] show ?case by (meson rtranclp_trans)
  qed (use assms(2,3) in simp)
  with session_run_store(1) [OF _ assms(2,3)] show ?thesis by blast
qed

lemma committed_rows:
  assumes wf: "wf_store st" and ok: "mutation_ok m" and plain: "\<not> dm_delete_conversation m" "dm_create_conversation m = None"
    "dm_submission m = None" "dm_task m = Some t" and run: "commit now m st = (Inr r, st')"
  shows "map_of (st_tasks st') (tc_task_id t) = Some t"
    "e \<in> set (all_effects m) \<Longrightarrow> map_of (st_effects st') (ef_effect_id e) = Some e"
proof -
  from run obtain head revision where w: "commit_plan_of st m = Inr (Write head revision)"
      "write_commit now m head revision st = (Inr r, st')"
  proof (cases rule: commit_cases)
    case (answered r)
    from plan_no_submission [OF plain(2,3) answered(1)] plain(4) show ?thesis by (simp add: is_noop_def)
  next
    case (deleted revision)
    with planned_delete(3) [OF deleted(1) ok] plain(1) show ?thesis by blast
  qed (simp_all add: that)
  note fields = write_fields [OF wf ok w(1), of now, unfolded w(2) snd_conv]
  have "filter (\<lambda>x. tc_task_id x = tc_task_id t) (all_tasks m) = [t]"
  proof -
    have tasks: "all_tasks m = t # dm_task_updates m" using plain(4) by (simp add: all_tasks_def opt_list_def)
    have "tc_task_id t \<notin> tc_task_id ` set (dm_task_updates m)" using mutation_okD(3) [OF ok] tasks by simp
    then have "filter (\<lambda>x. tc_task_id x = tc_task_id t) (dm_task_updates m) = []"
      unfolding filter_empty_conv by (metis imageI)
    then show ?thesis by (simp add: tasks)
  qed
  then show "map_of (st_tasks st') (tc_task_id t) = Some t"
    by (simp add: fields(6) dupdate_keyed [OF mutation_okD(3) [OF ok]])
  assume e: "e \<in> set (all_effects m)"
  note dist = mutation_okD(13) [OF ok]
  show "map_of (st_effects st') (ef_effect_id e) = Some e"
    unfolding fields(10) using dist
  proof (cases rule: filter_key_cases [where k = "ef_effect_id e"])
    case absent
    with e have False by (auto simp: filter_empty_conv)
    then show "map_of (apply_effects (all_effects m) (st_effects st)) (ef_effect_id e) = Some e" ..
  next
    case (present x)
    have "x = e" using dist e present(2,3) by (auto simp: distinct_map inj_on_def)
    with present(1) show "map_of (apply_effects (all_effects m) (st_effects st)) (ef_effect_id e) = Some e"
      by (simp add: apply_effects_keyed [OF dist])
  qed
qed


text \<open>A mutation with a task and no approval, submission or creation, constructed from well-formed rows.\<close>

definition task_draft :: "durable_mutation \<Rightarrow> task_checkpoint \<Rightarrow> bool" where
  "task_draft m t = (dm_task m = Some t \<and> dm_approval m = None \<and> dm_submission m = None \<and> dm_create_conversation m = None
     \<and> \<not> dm_delete_conversation m \<and> list_all entry_ok (dm_entries m) \<and> list_all checkpoint_ok (all_tasks m)
     \<and> list_all effect_ok (all_effects m))"

lemma draft_committed:
  assumes wf: "wf_store (ss_store s)" and d: "task_draft m t" and run: "commit_mutation env m s = (Inr r, s')"
  shows "map_of (st_tasks (ss_store s')) (tc_task_id t) = Some t"
    "e \<in> set (all_effects m) \<Longrightarrow> map_of (st_effects (ss_store s')) (ef_effect_id e) = Some e"
proof -
  have rows: "map_of (st_tasks (ss_store s')) (tc_task_id t) = Some t
    \<and> (e \<in> set (all_effects m) \<longrightarrow> map_of (st_effects (ss_store s')) (ef_effect_id e) = Some e)"
    using run
  proof (cases rule: commit_mutation_steps)
    case (committed m1 m2 now r')
    have "m1 = m" "mutation_ok m" "\<not> dm_delete_conversation m"
      using committed(2,4) d by (auto simp: materialized_def task_draft_def mutation_ok_def opt_list_def)
    then have m2: "mutation_ok m2" "\<not> dm_delete_conversation m2" "m1 = m"
      using fenced_mutation_ok(1,2) [OF _ _ committed(3)] by auto
    have c: "commit now m2 (ss_store s) = (Inr r, ss_store s')" using committed(5,6) by auto
    note same = fenced_fields(2-5) [OF committed(3), unfolded m2(3)]
    have f: "dm_create_conversation m2 = None" "dm_submission m2 = None" "dm_task m2 = Some t"
      using d by (simp_all add: same task_draft_def)
    show ?thesis
      using committed_rows(1) [OF wf m2(1,2) f c] committed_rows(2) [OF wf m2(1,2) f c, of e] by (simp add: same(4))
  qed simp
  then show "map_of (st_tasks (ss_store s')) (tc_task_id t) = Some t"
    and "e \<in> set (all_effects m) \<Longrightarrow> map_of (st_effects (ss_store s')) (ef_effect_id e) = Some e" by blast+
qed

section \<open>Attempts\<close>

lemma effect_lookup: "store_effect st eid = Inr e \<longleftrightarrow> map_of (st_effects st) eid = Some e"
  by (auto simp: store_effect_def lookup_key_def split: option.splits)

lemma task_lookup: "store_task st tid = Inr t \<longleftrightarrow> map_of (st_tasks st) tid = Some t"
  by (auto simp: store_task_def lookup_key_def split: option.splits)

text \<open>
  A context foreign to the attempt that a checkpoint records: its session does not own the
  attempt, and it is not bound to the attempt's token. A write of a task that leaves the
  choice of the token to the session names no expected token.
\<close>

definition foreign_context :: "session_env \<Rightarrow> session \<Rightarrow> task_checkpoint \<Rightarrow> bool" where
  "foreign_context env s current = (attempt_token current \<noteq> []
     \<and> pget (tc_state current) ''attempt_owner'' \<noteq> PStr (ss_owner_id s)
     \<and> en_bound env \<noteq> Some (tc_task_id current, attempt_token current))"

definition untokened :: "durable_mutation \<Rightarrow> bool" where
  "untokened m = (dm_expected_attempt_token m = None \<and> dm_submission m = None \<and> dm_approval m = None)"

lemma foreign_token:
  "foreign_context env s current \<Longrightarrow> vouched_token env (ss_owner_id s) (tc_task_id current) current \<noteq> attempt_token current"
  by (auto simp: foreign_context_def vouched_token_def split: option.splits)

lemma foreign_mutation:
  assumes wf: "wf_store (ss_store s)" and cur: "store_task (ss_store s) tid = Inr current" "foreign_context env s current"
    and m: "durable_mutation_init m = Inr m \<Longrightarrow> mutation_ok m" "untokened m" "dm_task m = Some t" "tc_task_id t = tid"
  shows "\<exists>e s'. commit_mutation env m s = (Inl e, s') \<and> ss_store s' = ss_store s"
proof -
  obtain res s' where run: "commit_mutation env m s = (res, s')" by fastforce
  then show ?thesis
  proof (cases rule: commit_mutation_steps)
    case (committed m1 m2 now r)
    have look: "map_of (st_tasks (ss_store s)) tid = Some current"
      using cur(1) by (simp add: store_task_def lookup_key_def split: option.splits)
    have id: "tc_task_id current = tid" by (rule wf_task(2) [OF wf look])
    have "m1 = m" using committed(2) m(2) by (simp add: materialized_def untokened_def)
    note same = fenced_fields(2,4,6) [OF committed(3), unfolded this]
    have token: "dm_expected_attempt_token m2 = Some (vouched_token env (ss_owner_id s) tid current)"
      using committed(3) \<open>m1 = m\<close> m(2-4) cur(1)
      by (auto simp: fenced_def untokened_def durable_mutation_init_def split: if_splits)
    have "mutation_ok m" by (rule m(1) [OF committed(4)])
    moreover have "\<not> dm_delete_conversation m" using deletes_no_task [OF \<open>mutation_ok m\<close>] m(3)
      by (auto simp: all_tasks_def opt_list_def)
    ultimately have ok: "mutation_ok m2" using fenced_mutation_ok(1) [OF _ _ committed(3)] \<open>m1 = m\<close> by simp
    have "attempt_token current \<noteq> fence_token m2 t"
      using foreign_token [OF cur(2)] token m(3) same(1) id by (auto simp: fence_token_def)
    moreover have "t \<in> set (all_tasks m2)" using m(3) same(1) by (simp add: all_tasks_def opt_list_def)
    ultimately have "ss_store s' = ss_store s" "\<exists>e. r = Inl e"
      using commit_fenced [OF wf ok, of t current now] look m(2,4) same(2) committed(5) by (auto simp: untokened_def)
    with committed(6) run show ?thesis by (cases res) auto
  qed (use run in auto)
qed

lemma bind_reads: "bind_s (reads f) g s = (case f (ss_store s) of Inl e \<Rightarrow> (Inl e, s) | Inr x \<Rightarrow> g x s)"
  by (simp add: reads_def read_s_def bind_s_def split: sum.splits)

lemma bind_raising: "bind_s (raising r) g s = (case r of Inl e \<Rightarrow> (Inl e, s) | Inr x \<Rightarrow> g x s)"
  by (simp add: raising_def read_s_def bind_s_def split: sum.splits)

lemma bind_check: "bind_s (read_s (\<lambda>_. r)) g s = (case r of Inl e \<Rightarrow> (Inl e, s) | Inr x \<Rightarrow> g x s)"
  by (simp add: read_s_def bind_s_def split: sum.splits)

text \<open>An action that raises and leaves the store as it is.\<close>

definition refused :: "(session, 'a) action \<Rightarrow> session \<Rightarrow> bool" where
  "refused a s = (\<exists>e s'. a s = (Inl e, s') \<and> ss_store s' = ss_store s)"

lemma refused_reads: "(\<And>x. f (ss_store s) = Inr x \<Longrightarrow> refused (g x) s) \<Longrightarrow> refused (bind_s (reads f) g) s"
  by (simp add: refused_def bind_reads split: sum.splits)

lemma refused_raising: "(\<And>x. r = Inr x \<Longrightarrow> refused (g x) s) \<Longrightarrow> refused (bind_s (raising r) g) s"
  by (simp add: refused_def bind_raising split: sum.splits)

lemma refused_bind: "refused a s \<Longrightarrow> refused (bind_s a g) s"
  by (auto simp: refused_def bind_s_def)

lemma refused_if: "(b \<Longrightarrow> refused a s) \<Longrightarrow> (\<not> b \<Longrightarrow> refused a' s) \<Longrightarrow> refused (if b then a else a') s"
  by simp

lemma refused_error: "refused (raising (Inl e)) s"
  by (simp add: refused_def raising_def read_s_def)

lemma refused_line: "refused body s \<Longrightarrow> refused (mutation_line body) s"
  using line_body [of s body] line_unusable [of s body] by (cases "usable s") (auto simp: refused_def isl_def prod_eq_iff)

lemma foreign_intents:
  assumes wf: "wf_store (ss_store s)" and cur: "store_task (ss_store s) tid = Inr current" "foreign_context env s current"
    and es: "list_all effect_ok es"
  shows "\<exists>e s'. record_effect_intents env tid es s = (Inl e, s') \<and> ss_store s' = ss_store s"
proof -
  have ok: "checkpoint_ok current" "tc_task_id current = tid"
    using wf_stored_task [OF wf cur(1)] wf_task(2) [OF wf] cur(1) by (simp_all add: task_lookup)
  have commit: "refused (commit_mutation env ((empty_mutation (tc_conversation_id current) n)\<lparr>dm_task := Some t, dm_effects := es\<rparr>)) s"
    if "with_effect_intents current es = Inr t" for n t
  proof -
    have t: "checkpoint_ok t" "tc_task_id t = tid"
      using with_effect_intents_ok [OF ok(1) that] that ok(2)
      by (auto simp: with_effect_intents_def Let_def replace_fields(1) split: if_splits)
    show ?thesis unfolding refused_def
      by (rule foreign_mutation [OF wf cur _ _ _ t(2)])
         (use t(1) es in \<open>simp_all add: mutation_ok_def untokened_def mutation_fields\<close>)
  qed
  have "refused (record_effect_intents env tid es) s"
    unfolding record_effect_intents_def read_task_def head_revision_def
  proof (intro refused_line refused_reads refused_if refused_error refused_raising, goal_cases)
    case (1 t n u)
    with cur(1) commit show ?case by simp
  qed
  then show ?thesis by (simp add: refused_def)
qed

text \<open>An action that returns no commit and leaves the store as it is.\<close>

definition idle :: "(session, commit_result option) action \<Rightarrow> session \<Rightarrow> bool" where
  "idle a s = (ss_store (snd (a s)) = ss_store s \<and> (\<forall>r. fst (a s) \<noteq> Inr (Some r)))"

lemma idle_reads: "(\<And>x. f (ss_store s) = Inr x \<Longrightarrow> idle (g x) s) \<Longrightarrow> idle (bind_s (reads f) g) s"
  by (simp add: idle_def bind_reads split: sum.splits)

lemma idle_check: "(\<And>x. r = Inr x \<Longrightarrow> idle (g x) s) \<Longrightarrow> idle (bind_s (read_s (\<lambda>_. r)) g) s"
  by (simp add: idle_def bind_check split: sum.splits)

lemma idle_refused: "refused a s \<Longrightarrow> idle (bind_s a g) s"
  by (auto simp: idle_def refused_def bind_s_def)

lemma idle_line: "idle body s \<Longrightarrow> idle (mutation_line body) s"
  using line_body [of s body] line_unusable [of s body] by (cases "usable s") (auto simp: idle_def isl_def)

lemma foreign_transaction:
  assumes wf: "wf_store (ss_store s)" and cur: "store_task (ss_store s) tid = Inr current" "foreign_context env s current"
    and derive: "\<And>es n m. derive current es n = Inr (Some m) \<Longrightarrow> mutation_ok m \<and> untokened m"
  shows "idle (transact_task env tid derive) s"
  unfolding transact_task_def
proof (rule idle_line, rule idle_reads, goal_cases)
  case (1 t)
  then have t: "t = current" using cur(1) by simp
  show ?case unfolding t
  proof (rule idle_reads, clarify, rule idle_reads, goal_cases)
    case (1 head revision derived)
    show ?case
    proof (cases derived)
      case (Some m)
      with 1 derive have m: "mutation_ok m" "untokened m" by blast+
      show ?thesis unfolding Some option.case
      proof (rule idle_check, rule idle_refused, goal_cases)
        case 1
        then obtain u where "dm_task m = Some u" "tc_task_id u = tid" by (auto split: option.splits)
        from foreign_mutation [OF wf cur m this] mutation_ok_shape [OF m(1)] show ?case
          by (simp add: commit_mutation_def refused_def)
      qed
    qed (simp add: idle_def)
  qed
qed


section \<open>Settlements\<close>

lemma settled_again:
  assumes "map_of (st_effects (ss_store s)) (ef_effect_id e) = Some x" "ef_settlement x \<noteq> None"
  shows "snd (settle_effect env tid e status artifacts s) = s
    \<and> (\<not> effect_eq x e \<longrightarrow> isl (fst (settle_effect env tid e status artifacts s)))"
proof (cases "usable s")
  case False
  then show ?thesis unfolding settle_effect_def using line_unusable [OF False] by blast
next
  case True
  have x: "store_effect (ss_store s) (ef_effect_id e) = Inr x" using assms(1) by (simp add: effect_lookup)
  show ?thesis
    unfolding settle_effect_def line_body [OF True] using x assms(2)
    by (simp add: raising_def read_task_def reads_def head_revision_def unchanged_result_def read_s_def bind_s_def
        split: sum.splits)
qed

lemma settle_effect_stored:
  assumes wf: "wf_store (ss_store s)" and e: "effect_ok e"
    and run: "settle_effect env tid e status artifacts s = (Inr r, s1)"
  shows "\<exists>x. map_of (st_effects (ss_store s1)) (ef_effect_id e) = Some x \<and> ef_settlement x \<noteq> None \<and> (x = e \<or> effect_eq x e)"
proof -
  note body = conjunct2 [OF line_result [OF run [unfolded settle_effect_def]]]
  obtain current revision existing where
      task: "store_task (ss_store s) tid = Inr current" and settled: "ef_settlement e \<noteq> None"
    and ex: "map_of (st_effects (ss_store s)) (ef_effect_id e) = Some existing"
    and rest: "(if ef_settlement existing \<noteq> None
       then (if \<not> effect_eq existing e
             then raising (Inl (CommitConflict ''effect is already settled with a different outcome''))
             else unchanged_result revision)
       else
       bind_s (raising (with_effect_settlement current e)) (\<lambda>t.
       commit_mutation env ((empty_mutation (tc_conversation_id current) revision)
         \<lparr>dm_task := Some t, dm_effect := Some e, dm_expected_effect_status := Some status,
          dm_artifacts := artifacts\<rparr>))) s = (Inr r, s1)"
    using body by (auto simp: raising_def read_task_def reads_def head_revision_def read_s_def bind_s_def effect_lookup
        split: sum.splits if_splits)
  show ?thesis
  proof (cases "ef_settlement existing = None")
    case False
    then show ?thesis using rest ex
      by (auto simp: raising_def unchanged_result_def reads_def read_s_def split: if_splits)
  next
    case True
    with rest obtain t where t: "with_effect_settlement current e = Inr t" and c: "commit_mutation env
        ((empty_mutation (tc_conversation_id current) revision) \<lparr>dm_task := Some t, dm_effect := Some e,
          dm_expected_effect_status := Some status, dm_artifacts := artifacts\<rparr>) s = (Inr r, s1)" (is "commit_mutation env ?m s = _")
      by (auto simp: raising_def split: sum.splits)
    have ok: "checkpoint_ok t" using with_effect_settlement_ok [OF _ t] wf_task(1) [OF wf] task by (simp add: task_lookup)
    have "task_draft ?m t" using ok e by (simp add: task_draft_def mutation_fields)
    from draft_committed(2) [OF wf this c, of e] settled show ?thesis by (auto simp: mutation_fields)
  qed
qed

section \<open>Instances\<close>

text \<open>
  \<open>session1\<close>: a session over a store with an accepted task; \<open>session2\<close>: it has
  claimed the task; \<open>session3\<close>: cancellation of the running task was requested.
\<close>

definition sample_env :: session_env where
  "sample_env =
     \<lparr>en_now = (\<lambda>n. ''now''), en_uuid = (\<lambda>n i. ''u1''), en_process = 7, en_bound = None, en_alive = (\<lambda>p. True),
      en_digest = (\<lambda>n v i c. ''d''), en_publish = (\<lambda>r m. None),
      en_files = (\<lambda>p. None), en_dumps = (\<lambda>v. ''json''), en_canonical = (\<lambda>v. ''json''),
      en_sha256 = (\<lambda>t. ''f'')\<rparr>"

definition session1 :: session where
  "session1 = new_session ''a'' store1"

definition session2 :: session where
  "session2 = snd (claim_task sample_env ''t1'' session1)"

lemma session2_code [code]:
  "session2 = \<lparr>ss_store =
     \<lparr>st_database_id = ''database-u'', st_entries = [(''main'', [])],
     st_heads = [(''main'', None, 0)],
     st_parents = [(''main'', None, None)],
     st_submissions =
     [((''main'', ''r1''),
     \<lparr>si_record =
     \<lparr>sr_submission_id = ''s-t1'', sr_conversation_id = ''main'',
     sr_request_id = ''r1'', sr_status = SubQueued,
     sr_input_entry_id = None, sr_answer_entry_id = None,
     sr_reason = None, sr_detail = None,
     sr_placement = PlacementQueued, sr_mode = ''follow_up'',
     sr_content = Some [(''text'', PStr ''hi'')]\<rparr>,
     si_entry = None,
     si_result =
     \<lparr>cres_revision = 0, cres_sequence = 1,
     cres_submission_id = Some ''s-t1'',
     cres_record =
     Some
     \<lparr>cr_sequence = 1, cr_kind = ''durable'',
     cr_committed_at = ''t1'',
     cr_payload =
     [(''session_id'', PStr ''main''),
     (''entry_ids'', PTuple []),
     (''task_id'', PStr ''t1''),
     (''projections'',
     PTuple
     [PProxy
     [(''type'', PStr ''submission_admitted''),
     (''submission_id'', PStr ''s-t1''),
     (''request_id'', PStr ''r1''),
     (''status'', PStr ''queued''),
     (''placement'', PStr ''queued''),
     (''mode'', PStr ''follow_up'')],
     PProxy
     [(''type'', PStr ''task_progressed''),
     (''task_id'', PStr ''t1''),
     (''phase'', PStr ''accepted''),
     (''status'', PStr ''pending''),
     (''revision'', PInt 0)]]),
     (''database_id'', PStr ''database-u'')]\<rparr>\<rparr>,
     si_fingerprint = ''f''\<rparr>)],
     st_submission_ids = {''s-t1''},
     st_tasks =
     [(''t1'',
     \<lparr>tc_task_id = ''t1'', tc_conversation_id = ''main'',
     tc_submission_id = ''s-t1'', tc_phase = ''dispatching'',
     tc_revision = 1,
     tc_provider_snapshot = [(''model'', PStr ''m'')],
     tc_state =
     [(''input_mode'', PStr ''follow_up''),
     (''waiting_on'', PTuple []), (''attempt_number'', PInt 1),
     (''attempt_owner'', PStr ''owner-a''),
     (''attempt_token'', PStr ''attempt-u1''),
     (''attempt_process_id'', PInt 7)],
     tc_current_turn_id = None, tc_pending_effect_id = None,
     tc_status = Running, tc_schema_version = 2\<rparr>)],
     st_finalization = {}, st_waiters = [], st_owners = [],
     st_effects = [], st_artifacts = [], st_sequence = 2,
     st_commits =
     [\<lparr>cr_sequence = 1, cr_kind = ''durable'', cr_committed_at = ''t1'',
     cr_payload =
     [(''session_id'', PStr ''main''), (''entry_ids'', PTuple []),
     (''task_id'', PStr ''t1''),
     (''projections'',
     PTuple
     [PProxy
     [(''type'', PStr ''submission_admitted''),
     (''submission_id'', PStr ''s-t1''),
     (''request_id'', PStr ''r1''),
     (''status'', PStr ''queued''),
     (''placement'', PStr ''queued''),
     (''mode'', PStr ''follow_up'')],
     PProxy
     [(''type'', PStr ''task_progressed''),
     (''task_id'', PStr ''t1''),
     (''phase'', PStr ''accepted''),
     (''status'', PStr ''pending''),
     (''revision'', PInt 0)]]),
     (''database_id'', PStr ''database-u'')]\<rparr>,
     \<lparr>cr_sequence = 2, cr_kind = ''durable'',
     cr_committed_at = ''now'',
     cr_payload =
     [(''session_id'', PStr ''main''), (''entry_ids'', PTuple []),
     (''task_id'', PStr ''t1''),
     (''projections'',
     PTuple
     [PProxy
     [(''type'', PStr ''task_progressed''),
     (''task_id'', PStr ''t1''),
     (''phase'', PStr ''dispatching''),
     (''status'', PStr ''running''),
     (''revision'', PInt 1)]]),
     (''database_id'', PStr ''database-u'')]\<rparr>],
     st_history =
     [(''t1'',
     [\<lparr>tt_commit_seq = 1,
     tt_task =
     \<lparr>tc_task_id = ''t1'', tc_conversation_id = ''main'',
     tc_submission_id = ''s-t1'', tc_phase = ''accepted'',
     tc_revision = 0,
     tc_provider_snapshot = [(''model'', PStr ''m'')],
     tc_state =
     [(''input_mode'', PStr ''follow_up''),
     (''waiting_on'', PTuple [])],
     tc_current_turn_id = None, tc_pending_effect_id = None,
     tc_status = Pending, tc_schema_version = 2\<rparr>,
     tt_effect_changes = [], tt_head_entry_id = None\<rparr>,
     \<lparr>tt_commit_seq = 2,
     tt_task =
     \<lparr>tc_task_id = ''t1'', tc_conversation_id = ''main'',
     tc_submission_id = ''s-t1'', tc_phase = ''dispatching'',
     tc_revision = 1,
     tc_provider_snapshot = [(''model'', PStr ''m'')],
     tc_state =
     [(''input_mode'', PStr ''follow_up''),
     (''waiting_on'', PTuple []),
     (''attempt_number'', PInt 1),
     (''attempt_owner'', PStr ''owner-a''),
     (''attempt_token'', PStr ''attempt-u1''),
     (''attempt_process_id'', PInt 7)],
     tc_current_turn_id = None, tc_pending_effect_id = None,
     tc_status = Running, tc_schema_version = 2\<rparr>,
     tt_effect_changes = [], tt_head_entry_id = None\<rparr>])],
     st_scheduler_owner = None\<rparr>,
     ss_owner_id = ''owner-a'', ss_sealed = False, ss_closed = False,
     ss_failure = None\<rparr>"
  by code_simp

definition session3 :: session where
  "session3 = snd (request_cancel 1 sample_env ''t1'' ''stop'' [] None session2)"

lemma session3_code [code]:
  "session3 = \<lparr>ss_store =
     \<lparr>st_database_id = ''database-u'', st_entries = [(''main'', [])],
     st_heads = [(''main'', None, 0)],
     st_parents = [(''main'', None, None)],
     st_submissions =
     [((''main'', ''r1''),
     \<lparr>si_record =
     \<lparr>sr_submission_id = ''s-t1'', sr_conversation_id = ''main'',
     sr_request_id = ''r1'', sr_status = SubQueued,
     sr_input_entry_id = None, sr_answer_entry_id = None,
     sr_reason = None, sr_detail = None,
     sr_placement = PlacementQueued, sr_mode = ''follow_up'',
     sr_content = Some [(''text'', PStr ''hi'')]\<rparr>,
     si_entry = None,
     si_result =
     \<lparr>cres_revision = 0, cres_sequence = 1,
     cres_submission_id = Some ''s-t1'',
     cres_record =
     Some
     \<lparr>cr_sequence = 1, cr_kind = ''durable'',
     cr_committed_at = ''t1'',
     cr_payload =
     [(''session_id'', PStr ''main''),
     (''entry_ids'', PTuple []),
     (''task_id'', PStr ''t1''),
     (''projections'',
     PTuple
     [PProxy
     [(''type'', PStr ''submission_admitted''),
     (''submission_id'', PStr ''s-t1''),
     (''request_id'', PStr ''r1''),
     (''status'', PStr ''queued''),
     (''placement'', PStr ''queued''),
     (''mode'', PStr ''follow_up'')],
     PProxy
     [(''type'', PStr ''task_progressed''),
     (''task_id'', PStr ''t1''),
     (''phase'', PStr ''accepted''),
     (''status'', PStr ''pending''),
     (''revision'', PInt 0)]]),
     (''database_id'', PStr ''database-u'')]\<rparr>\<rparr>,
     si_fingerprint = ''f''\<rparr>)],
     st_submission_ids = {''s-t1''},
     st_tasks =
     [(''t1'',
     \<lparr>tc_task_id = ''t1'', tc_conversation_id = ''main'',
     tc_submission_id = ''s-t1'', tc_phase = ''dispatching'',
     tc_revision = 2,
     tc_provider_snapshot = [(''model'', PStr ''m'')],
     tc_state =
     [(''input_mode'', PStr ''follow_up''),
     (''waiting_on'', PTuple []), (''attempt_number'', PInt 1),
     (''attempt_owner'', PStr ''owner-a''),
     (''attempt_token'', PStr ''attempt-u1''),
     (''attempt_process_id'', PInt 7),
     (''cancel_requested'', PBool True),
     (''cancel_reason'', PStr ''stop'')],
     tc_current_turn_id = None, tc_pending_effect_id = None,
     tc_status = Running, tc_schema_version = 2\<rparr>)],
     st_finalization = {}, st_waiters = [], st_owners = [],
     st_effects = [], st_artifacts = [], st_sequence = 3,
     st_commits =
     [\<lparr>cr_sequence = 1, cr_kind = ''durable'', cr_committed_at = ''t1'',
     cr_payload =
     [(''session_id'', PStr ''main''), (''entry_ids'', PTuple []),
     (''task_id'', PStr ''t1''),
     (''projections'',
     PTuple
     [PProxy
     [(''type'', PStr ''submission_admitted''),
     (''submission_id'', PStr ''s-t1''),
     (''request_id'', PStr ''r1''),
     (''status'', PStr ''queued''),
     (''placement'', PStr ''queued''),
     (''mode'', PStr ''follow_up'')],
     PProxy
     [(''type'', PStr ''task_progressed''),
     (''task_id'', PStr ''t1''),
     (''phase'', PStr ''accepted''),
     (''status'', PStr ''pending''),
     (''revision'', PInt 0)]]),
     (''database_id'', PStr ''database-u'')]\<rparr>,
     \<lparr>cr_sequence = 2, cr_kind = ''durable'',
     cr_committed_at = ''now'',
     cr_payload =
     [(''session_id'', PStr ''main''), (''entry_ids'', PTuple []),
     (''task_id'', PStr ''t1''),
     (''projections'',
     PTuple
     [PProxy
     [(''type'', PStr ''task_progressed''),
     (''task_id'', PStr ''t1''),
     (''phase'', PStr ''dispatching''),
     (''status'', PStr ''running''),
     (''revision'', PInt 1)]]),
     (''database_id'', PStr ''database-u'')]\<rparr>,
     \<lparr>cr_sequence = 3, cr_kind = ''durable'',
     cr_committed_at = ''now'',
     cr_payload =
     [(''session_id'', PStr ''main''), (''entry_ids'', PTuple []),
     (''task_id'', PStr ''t1''),
     (''projections'',
     PTuple
     [PProxy
     [(''type'', PStr ''task_progressed''),
     (''task_id'', PStr ''t1''),
     (''phase'', PStr ''dispatching''),
     (''status'', PStr ''running''),
     (''revision'', PInt 2)]]),
     (''database_id'', PStr ''database-u'')]\<rparr>],
     st_history =
     [(''t1'',
     [\<lparr>tt_commit_seq = 1,
     tt_task =
     \<lparr>tc_task_id = ''t1'', tc_conversation_id = ''main'',
     tc_submission_id = ''s-t1'', tc_phase = ''accepted'',
     tc_revision = 0,
     tc_provider_snapshot = [(''model'', PStr ''m'')],
     tc_state =
     [(''input_mode'', PStr ''follow_up''),
     (''waiting_on'', PTuple [])],
     tc_current_turn_id = None, tc_pending_effect_id = None,
     tc_status = Pending, tc_schema_version = 2\<rparr>,
     tt_effect_changes = [], tt_head_entry_id = None\<rparr>,
     \<lparr>tt_commit_seq = 2,
     tt_task =
     \<lparr>tc_task_id = ''t1'', tc_conversation_id = ''main'',
     tc_submission_id = ''s-t1'', tc_phase = ''dispatching'',
     tc_revision = 1,
     tc_provider_snapshot = [(''model'', PStr ''m'')],
     tc_state =
     [(''input_mode'', PStr ''follow_up''),
     (''waiting_on'', PTuple []),
     (''attempt_number'', PInt 1),
     (''attempt_owner'', PStr ''owner-a''),
     (''attempt_token'', PStr ''attempt-u1''),
     (''attempt_process_id'', PInt 7)],
     tc_current_turn_id = None, tc_pending_effect_id = None,
     tc_status = Running, tc_schema_version = 2\<rparr>,
     tt_effect_changes = [], tt_head_entry_id = None\<rparr>,
     \<lparr>tt_commit_seq = 3,
     tt_task =
     \<lparr>tc_task_id = ''t1'', tc_conversation_id = ''main'',
     tc_submission_id = ''s-t1'', tc_phase = ''dispatching'',
     tc_revision = 2,
     tc_provider_snapshot = [(''model'', PStr ''m'')],
     tc_state =
     [(''input_mode'', PStr ''follow_up''),
     (''waiting_on'', PTuple []),
     (''attempt_number'', PInt 1),
     (''attempt_owner'', PStr ''owner-a''),
     (''attempt_token'', PStr ''attempt-u1''),
     (''attempt_process_id'', PInt 7),
     (''cancel_requested'', PBool True),
     (''cancel_reason'', PStr ''stop'')],
     tc_current_turn_id = None, tc_pending_effect_id = None,
     tc_status = Running, tc_schema_version = 2\<rparr>,
     tt_effect_changes = [], tt_head_entry_id = None\<rparr>])],
     st_scheduler_owner = None\<rparr>,
     ss_owner_id = ''owner-a'', ss_sealed = False, ss_closed = False,
     ss_failure = None\<rparr>"
  by code_simp

lemma session1_store: "ss_store session1 = store1"
  by (simp add: session1_def new_session_def)

lemma session2_step: "session_step session1 session2"
  unfolding session2_def by (rule session_step.claim)

lemma session3_step: "session_step session2 session3"
  unfolding session3_def by (rule session_step.request) (simp add: storable_obj_def)

lemma store1_contents: "contents_ok store1" by code_simp

lemma session2_wf: "wf_store (ss_store session2)" "contents_ok (ss_store session2)"
  using session_run_store(2,3) [OF r_into_rtranclp [of session_step, OF session2_step]] store1_wf store1_contents
  by (simp_all add: session1_store)

lemma session3_wf: "wf_store (ss_store session3)" "contents_ok (ss_store session3)"
  using session_run_store(2,3) [OF r_into_rtranclp [of session_step, OF session3_step] session2_wf] by blast+

theorem session_refines_store_witness:
  "store_step\<^sup>*\<^sup>* store1 (ss_store (snd (session_delete sample_env ''main'' session3)))
     \<and> live_step\<^sup>*\<^sup>* store1 (ss_store session3)"
proof -
  have run: "session_step\<^sup>*\<^sup>* session1 session3" using session2_step session3_step by auto
  have calls: "session_call\<^sup>*\<^sup>* session1 session3"
    using session_call.step session2_step session3_step by (meson rtranclp.rtrancl_into_rtrancl rtranclp.rtrancl_refl)
  moreover have "session_call\<^sup>*\<^sup>* session1 (snd (session_delete sample_env ''main'' session3))"
    using rtranclp.rtrancl_into_rtrancl [OF calls session_call.delete] .
  ultimately show ?thesis
    using session_refines_store [of session1] run store1_wf store1_contents unfolding session1_store by blast
qed

text \<open>A listener that raises after the commit leaves the session failed.\<close>

definition broken_env :: session_env where
  "broken_env = sample_env\<lparr>en_publish := (\<lambda>r m. Some (OverflowError ''listener''))\<rparr>"

theorem failed_session_inert_witness:
  "ss_store (snd (unclaim_task sample_env ''t1'' (snd (claim_task broken_env ''t1'' session1))))
     = ss_store (snd (claim_task broken_env ''t1'' session1))"
proof -
  have "ss_failure (snd (claim_task broken_env ''t1'' session1)) = Some (OverflowError ''listener'')" by code_simp
  from failed_session_inert [OF r_into_rtranclp [of session_step, OF session_step.unclaim] this] show ?thesis by blast
qed


section \<open>Settlements are final\<close>


definition settled_session :: session where
  "settled_session = snd (settle_effect sample_env ''t1'' (sample_effect ''f1'' ''t1'' ''done'' (Some [])) ''pending'' []
     (new_session ''a'' store2))"

lemma settled_session_code [code]:
  "settled_session = \<lparr>ss_store =
     \<lparr>st_database_id = ''database-u'', st_entries = [(''main'', [])],
     st_heads = [(''main'', None, 0)],
     st_parents = [(''main'', None, None)],
     st_submissions =
     [((''main'', ''r1''),
     \<lparr>si_record =
     \<lparr>sr_submission_id = ''s-t1'', sr_conversation_id = ''main'',
     sr_request_id = ''r1'', sr_status = SubQueued,
     sr_input_entry_id = None, sr_answer_entry_id = None,
     sr_reason = None, sr_detail = None,
     sr_placement = PlacementQueued, sr_mode = ''follow_up'',
     sr_content = Some [(''text'', PStr ''hi'')]\<rparr>,
     si_entry = None,
     si_result =
     \<lparr>cres_revision = 0, cres_sequence = 1,
     cres_submission_id = Some ''s-t1'',
     cres_record =
     Some
     \<lparr>cr_sequence = 1, cr_kind = ''durable'',
     cr_committed_at = ''t1'',
     cr_payload =
     [(''session_id'', PStr ''main''),
     (''entry_ids'', PTuple []),
     (''task_id'', PStr ''t1''),
     (''projections'',
     PTuple
     [PProxy
     [(''type'', PStr ''submission_admitted''),
     (''submission_id'', PStr ''s-t1''),
     (''request_id'', PStr ''r1''),
     (''status'', PStr ''queued''),
     (''placement'', PStr ''queued''),
     (''mode'', PStr ''follow_up'')],
     PProxy
     [(''type'', PStr ''task_progressed''),
     (''task_id'', PStr ''t1''),
     (''phase'', PStr ''accepted''),
     (''status'', PStr ''pending''),
     (''revision'', PInt 0)]]),
     (''database_id'', PStr ''database-u'')]\<rparr>\<rparr>,
     si_fingerprint = ''f''\<rparr>)],
     st_submission_ids = {''s-t1''},
     st_tasks =
     [(''t1'',
     \<lparr>tc_task_id = ''t1'', tc_conversation_id = ''main'',
     tc_submission_id = ''s-t1'', tc_phase = ''running'',
     tc_revision = 2,
     tc_provider_snapshot = [(''model'', PStr ''m'')],
     tc_state =
     [(''input_mode'', PStr ''follow_up''),
     (''waiting_on'', PTuple []),
     (''pending_effect_ids'', PTuple [])],
     tc_current_turn_id = None, tc_pending_effect_id = None,
     tc_status = Running, tc_schema_version = 2\<rparr>)],
     st_finalization = {}, st_waiters = [], st_owners = [],
     st_effects =
     [(''f1'',
     \<lparr>ef_effect_id = ''f1'', ef_task_id = ''t1'',
     ef_category = ''tool'', ef_replay_class = ''never'',
     ef_args_digest = ''d'', ef_status = ''done'',
     ef_intent = [(''tool'', PStr ''read'')],
     ef_settlement = Some []\<rparr>)],
     st_artifacts = [], st_sequence = 3,
     st_commits =
     [\<lparr>cr_sequence = 1, cr_kind = ''durable'', cr_committed_at = ''t1'',
     cr_payload =
     [(''session_id'', PStr ''main''), (''entry_ids'', PTuple []),
     (''task_id'', PStr ''t1''),
     (''projections'',
     PTuple
     [PProxy
     [(''type'', PStr ''submission_admitted''),
     (''submission_id'', PStr ''s-t1''),
     (''request_id'', PStr ''r1''),
     (''status'', PStr ''queued''),
     (''placement'', PStr ''queued''),
     (''mode'', PStr ''follow_up'')],
     PProxy
     [(''type'', PStr ''task_progressed''),
     (''task_id'', PStr ''t1''),
     (''phase'', PStr ''accepted''),
     (''status'', PStr ''pending''),
     (''revision'', PInt 0)]]),
     (''database_id'', PStr ''database-u'')]\<rparr>,
     \<lparr>cr_sequence = 2, cr_kind = ''durable'', cr_committed_at = ''t2'',
     cr_payload =
     [(''session_id'', PStr ''main''), (''entry_ids'', PTuple []),
     (''task_id'', PStr ''t1''),
     (''projections'',
     PTuple
     [PProxy
     [(''type'', PStr ''task_progressed''),
     (''task_id'', PStr ''t1''),
     (''phase'', PStr ''running''),
     (''status'', PStr ''running''),
     (''revision'', PInt 1)]]),
     (''database_id'', PStr ''database-u'')]\<rparr>,
     \<lparr>cr_sequence = 3, cr_kind = ''durable'',
     cr_committed_at = ''now'',
     cr_payload =
     [(''session_id'', PStr ''main''), (''entry_ids'', PTuple []),
     (''task_id'', PStr ''t1''),
     (''projections'',
     PTuple
     [PProxy
     [(''type'', PStr ''task_progressed''),
     (''task_id'', PStr ''t1''),
     (''phase'', PStr ''running''),
     (''status'', PStr ''running''),
     (''revision'', PInt 2)],
     PProxy
     [(''type'', PStr ''effect_settled''),
     (''task_id'', PStr ''t1''),
     (''effect_id'', PStr ''f1''),
     (''status'', PStr ''done'')]]),
     (''database_id'', PStr ''database-u'')]\<rparr>],
     st_history =
     [(''t1'',
     [\<lparr>tt_commit_seq = 1,
     tt_task =
     \<lparr>tc_task_id = ''t1'', tc_conversation_id = ''main'',
     tc_submission_id = ''s-t1'', tc_phase = ''accepted'',
     tc_revision = 0,
     tc_provider_snapshot = [(''model'', PStr ''m'')],
     tc_state =
     [(''input_mode'', PStr ''follow_up''),
     (''waiting_on'', PTuple [])],
     tc_current_turn_id = None, tc_pending_effect_id = None,
     tc_status = Pending, tc_schema_version = 2\<rparr>,
     tt_effect_changes = [], tt_head_entry_id = None\<rparr>,
     \<lparr>tt_commit_seq = 2,
     tt_task =
     \<lparr>tc_task_id = ''t1'', tc_conversation_id = ''main'',
     tc_submission_id = ''s-t1'', tc_phase = ''running'',
     tc_revision = 1,
     tc_provider_snapshot = [(''model'', PStr ''m'')],
     tc_state =
     [(''input_mode'', PStr ''follow_up''),
     (''waiting_on'', PTuple [])],
     tc_current_turn_id = None, tc_pending_effect_id = None,
     tc_status = Running, tc_schema_version = 2\<rparr>,
     tt_effect_changes =
     [\<lparr>ef_effect_id = ''f1'', ef_task_id = ''t1'',
     ef_category = ''tool'', ef_replay_class = ''never'',
     ef_args_digest = ''d'', ef_status = ''pending'',
     ef_intent = [(''tool'', PStr ''read'')],
     ef_settlement = None\<rparr>],
     tt_head_entry_id = None\<rparr>,
     \<lparr>tt_commit_seq = 3,
     tt_task =
     \<lparr>tc_task_id = ''t1'', tc_conversation_id = ''main'',
     tc_submission_id = ''s-t1'', tc_phase = ''running'',
     tc_revision = 2,
     tc_provider_snapshot = [(''model'', PStr ''m'')],
     tc_state =
     [(''input_mode'', PStr ''follow_up''),
     (''waiting_on'', PTuple []),
     (''pending_effect_ids'', PTuple [])],
     tc_current_turn_id = None, tc_pending_effect_id = None,
     tc_status = Running, tc_schema_version = 2\<rparr>,
     tt_effect_changes =
     [\<lparr>ef_effect_id = ''f1'', ef_task_id = ''t1'',
     ef_category = ''tool'', ef_replay_class = ''never'',
     ef_args_digest = ''d'', ef_status = ''done'',
     ef_intent = [(''tool'', PStr ''read'')],
     ef_settlement = Some []\<rparr>],
     tt_head_entry_id = None\<rparr>])],
     st_scheduler_owner = None\<rparr>,
     ss_owner_id = ''owner-a'', ss_sealed = False, ss_closed = False,
     ss_failure = None\<rparr>"
  by code_simp


section \<open>The cancellation barrier\<close>

definition cancelling :: "task_checkpoint \<Rightarrow> bool" where
  "cancelling t = truthy (pget (tc_state t) ''cancel_requested'')"

lemma task_updates_cancelling:
  assumes "task_update\<^sup>*\<^sup>* a b" and "cancelling a"
  shows "tc_phase b \<in> {''cancelled'', ''failed''} \<or> cancelling b \<and> (b = a \<or> tc_phase b = ''running'')"
  using assms(1)
proof (induction rule: rtranclp_induct)
  case (step b c)
  from step.hyps(2) obtain ex where v: "validate_task_update b c ex = Inr ()" by (auto simp: task_update_def)
  show ?case
  proof (cases "tc_phase b \<in> {''cancelled'', ''failed''}")
    case True
    then have t: "terminal_phase (tc_phase b)" by (auto simp: terminal_phase_def)
    with task_update_phase [OF step.hyps(2)] terminal_not_accepted [OF t] task_phase.final_step [OF t]
    have "tc_phase c = tc_phase b" by blast
    with True show ?thesis by simp
  next
    case False
    with step.IH have "truthy (pget (tc_state b) ''cancel_requested'')" by (auto simp: cancelling_def)
    from validate_task_updateD(8) [OF v this] show ?thesis
      by (auto simp: valid_cancellation_cleanup_def cancelling_def split: option.splits)
  qed
qed (simp add: assms(2))

lemma intents_refused:
  assumes "map_of (st_tasks (ss_store s)) tid = Some t" and "cancelling t \<or> tc_status t \<noteq> Running"
  shows "snd (record_effect_intents env tid es s) = s \<and> isl (fst (record_effect_intents env tid es s))"
proof (cases "usable s")
  case False
  then show ?thesis unfolding record_effect_intents_def by (rule line_unusable)
next
  case True
  have "store_task (ss_store s) tid = Inr t" using assms(1) by (simp add: task_lookup)
  with assms(2) show ?thesis unfolding record_effect_intents_def line_body [OF True]
    by (auto simp: read_task_def reads_def raising_def read_s_def bind_s_def cancelling_def)
qed

lemma intents_receipts:
  assumes "with_effect_intents t es = Inr u" and "cancelling t \<or> tc_phase t \<noteq> ''running''"
  shows "cancellation_receipts_only t es"
  using assms by (auto simp: with_effect_intents_def cancelling_def split: if_splits)

lemma receipts_provider: "cancellation_receipts_only t es \<Longrightarrow> e \<in> set es \<Longrightarrow> ef_category e = ''provider_send''"
  by (auto simp: cancellation_receipts_only_def list_all_iff split: option.splits)

text \<open>An action that changes nothing.\<close>

definition still :: "(session, 'a) action \<Rightarrow> session \<Rightarrow> bool" where
  "still a s = (snd (a s) = s)"

lemma still_reads: "(\<And>x. f (ss_store s) = Inr x \<Longrightarrow> still (g x) s) \<Longrightarrow> still (bind_s (reads f) g) s"
  by (simp add: still_def bind_reads split: sum.splits)

lemma still_raising: "(\<And>x. r = Inr x \<Longrightarrow> still (g x) s) \<Longrightarrow> still (bind_s (raising r) g) s"
  by (simp add: still_def bind_raising split: sum.splits)

lemma still_if: "(b \<Longrightarrow> still a s) \<Longrightarrow> (\<not> b \<Longrightarrow> still a' s) \<Longrightarrow> still (if b then a else a') s"
  by simp

lemma still_end: "still (raising r) s" "still (return_s x) s"
  by (simp_all add: still_def raising_def read_s_def)

lemma still_line: "still body s \<Longrightarrow> still (mutation_line body) s"
  using line_body [of s body] line_unusable [of s body] by (cases "usable s") (auto simp: still_def)

lemma claim_barred:
  assumes t: "map_of (st_tasks (ss_store s)) (apr_task_id a) = Some t" and a: "store_approval (ss_store s) aid = Inr a"
    and barred: "cancelling t \<or> tc_phase t \<noteq> ''running''"
  shows "snd (claim_approval_and_begin_effect env aid e status s) = s"
proof -
  have no: "with_effect_intents t [e] \<noteq> Inr u" if "ef_category e = ''shell''" for u
    using receipts_provider [OF intents_receipts [OF _ barred], of "[e]" u e] that by auto
  have look: "store_task (ss_store s) (apr_task_id a) = Inr t" using t by (simp add: task_lookup)
  have "still (claim_approval_and_begin_effect env aid e status) s"
    unfolding claim_approval_and_begin_effect_def read_task_def
  proof (intro still_line still_reads still_if still_end still_raising, goal_cases)
    case (1 a' t' u claimed)
    with a look no [of u] show ?case by simp
  qed
  then show ?thesis by (simp add: still_def)
qed

text \<open>
  C5: the cancellation barrier. Once cancellation of a task was requested, whatever calls
  and transactions follow, by whichever context, short of deleting its conversation: the task
  never completes, unless it was complete already, and it is cancelled, failed or still
  marked. It admits no new effect but acknowledgements of the closing to the provider:
  intents recorded through the session are refused, no approval is claimed for it, and the
  reducer \<open>with_effect_intents\<close>, by which transactions admit effects, accepts only such
  receipts.
\<close>

theorem cancellation_barrier:
  assumes "wf_store (ss_store s)" and "session_step\<^sup>*\<^sup>* s s'"
    and "map_of (st_tasks (ss_store s)) tid = Some t" and "truthy (pget (tc_state t) ''cancel_requested'')"
    and "contents_ok (ss_store s)"
  shows "\<exists>t'. map_of (st_tasks (ss_store s')) tid = Some t'
    \<and> (tc_phase t' = ''completed'' \<longrightarrow> t' = t)
    \<and> (tc_phase t' \<in> {''cancelled'', ''failed''} \<or> truthy (pget (tc_state t') ''cancel_requested''))
    \<and> snd (record_effect_intents env tid effects s') = s' \<and> isl (fst (record_effect_intents env tid effects s'))
    \<and> (\<forall>aid a e. store_approval (ss_store s') aid = Inr a \<longrightarrow> apr_task_id a = tid \<longrightarrow>
          snd (claim_approval_and_begin_effect env aid e status s') = s')
    \<and> (\<forall>es u. with_effect_intents t' es = Inr u \<longrightarrow> cancellation_receipts_only t' es)"
proof -
  note run = session_run_store [OF assms(2,1,5)]
  from live_run_task [OF run(1) assms(1,3)] obtain t' where
    t': "map_of (st_tasks (ss_store s')) tid = Some t'" "task_update\<^sup>*\<^sup>* t t'" by blast
  have barrier: "tc_phase t' \<in> {''cancelled'', ''failed''} \<or> cancelling t' \<and> (t' = t \<or> tc_phase t' = ''running'')"
    by (rule task_updates_cancelling [OF t'(2)]) (simp add: cancelling_def assms(4))
  have "checkpoint_ok t'" by (rule wf_task(1) [OF run(2) t'(1)])
  then have "tc_phase t' \<in> set [''completed'', ''failed'', ''cancelled''] \<longrightarrow> tc_status t' \<in> set TASK_TERMINAL_STATUSES"
    unfolding checkpoint_ok_iff checkpoint_guards_def by blast
  with barrier have "cancelling t' \<or> tc_status t' \<noteq> Running" by (auto simp: TASK_TERMINAL_STATUSES_def)
  note intents = intents_refused [OF t'(1) this, of env effects]
  have barred: "cancelling t' \<or> tc_phase t' \<noteq> ''running''" using barrier by auto
  have "snd (claim_approval_and_begin_effect env aid e status s') = s'"
    if "store_approval (ss_store s') aid = Inr a" "apr_task_id a = tid" for aid a e
    using claim_barred [of s' a t' aid env e status] t'(1) that barred by simp
  moreover have "cancellation_receipts_only t' es" if "with_effect_intents t' es = Inr u" for es u
    by (rule intents_receipts [OF that barred])
  moreover have "tc_phase t' = ''completed'' \<longrightarrow> t' = t"
    "tc_phase t' \<in> {''cancelled'', ''failed''} \<or> truthy (pget (tc_state t') ''cancel_requested'')"
    using barrier by (auto simp: cancelling_def)
  ultimately show ?thesis using t'(1) intents by blast
qed

theorem cancellation_barrier_witness:
  "\<exists>t'. map_of (st_tasks (ss_store (snd (unclaim_task sample_env ''t1'' session3)))) ''t1'' = Some t'
     \<and> tc_phase t' \<noteq> ''completed''"
proof -
  have "map_option (\<lambda>t. (tc_phase t, truthy (pget (tc_state t) ''cancel_requested''))) (map_of (st_tasks (ss_store session3)) ''t1'')
      = Some (''dispatching'', True)" by code_simp
  then obtain t where t: "map_of (st_tasks (ss_store session3)) ''t1'' = Some t" "tc_phase t = ''dispatching''"
      "truthy (pget (tc_state t) ''cancel_requested'')" by auto
  have "session_step\<^sup>*\<^sup>* session3 (snd (unclaim_task sample_env ''t1'' session3))"
    by (rule r_into_rtranclp) (rule session_step.unclaim)
  from cancellation_barrier [OF session3_wf(1) this t(1,3) session3_wf(2), of sample_env "[]"] t(2) show ?thesis by force
qed

section \<open>Ownership trees\<close>

text \<open>
  C13: the walk over the tasks that a task owns ends on every well-formed store, also where
  tasks own each other in a cycle: the depth bound, the number of stored tasks, is enough.
\<close>

theorem owned_descendants_total:
  assumes "wf_store st"
  shows "\<exists>ts. owned_descendants st tid = Inr ts"
  using owned_descendants_ends [of st tid] wf_task(2) [OF assms] by (simp add: ids_match_def)

theorem owned_descendants_total_witness: "\<exists>ts. owned_descendants store3 ''t1'' = Inr ts"
  by (rule owned_descendants_total [OF store3_wf])

section \<open>Claims\<close>

lemma replaced_state:
  assumes "task_replace t = Inr t'"
  shows "pget (tc_state t') k = freeze_json (thaw_json (pget (tc_state t) k))"
proof -
  have "tc_state t' = freeze_obj (thaw_obj (tc_state t))"
    using assms by (auto simp: task_replace_def task_checkpoint_init_Some)
  moreover have "map_of (thaw_obj d) k = map_option thaw_json (map_of d k)" for d
    by (induction d) (auto simp: thaw_obj_def)
  ultimately show ?thesis by (simp add: pget_def pget_default_def map_of_freeze_obj split: option.splits)
qed

lemma claim_refused:
  assumes "map_of (st_tasks (ss_store s)) tid = Some t" and "tc_status t \<noteq> Pending"
  shows "snd (claim_task env tid s) = s \<and> isl (fst (claim_task env tid s))"
proof (cases "usable s")
  case False
  then show ?thesis unfolding claim_task_def by (rule line_unusable)
next
  case True
  have "store_task (ss_store s) tid = Inr t" using assms(1) by (simp add: task_lookup)
  with assms(2) show ?thesis unfolding claim_task_def line_body [OF True]
    by (simp add: read_task_def reads_def raising_def read_s_def bind_s_def)
qed

lemma claim_task_stored:
  assumes wf: "wf_store (ss_store s)" and run: "claim_task env tid s = (Inr r, s1)"
  obtains old t where "map_of (st_tasks (ss_store s)) tid = Some old" "tc_status old = Pending"
    "map_of (st_tasks (ss_store s1)) tid = Some t" "tc_status t = Running" "tc_revision t = tc_revision old + 1"
    "pget (tc_state t) ''attempt_owner'' = PStr (ss_owner_id s)"
    "attempt_token t = ''attempt-'' @ en_uuid env (st_sequence (ss_store s)) 0"
proof -
  note body = conjunct2 [OF line_result [OF run [unfolded claim_task_def]]]
  obtain old attempt where old: "store_task (ss_store s) tid = Inr old" "tc_status old = Pending"
    and rest: "bind_s (read_s (\<lambda>s. task_replace (old\<lparr>
             tc_phase := (if tc_phase old = ''accepted'' then ''dispatching'' else tc_phase old),
             tc_revision := tc_revision old + 1,
             tc_state := dupdate
               [(''attempt_number'', PInt (attempt + 1)), (''attempt_owner'', PStr (ss_owner_id s)),
                (''attempt_token'', PStr (''attempt-'' @ en_uuid env (st_sequence (ss_store s)) 0)),
                (''attempt_process_id'', PInt (en_process env))] (tc_state old),
             tc_status := Running\<rparr>))) (\<lambda>t. commit_task env t (Some (attempt_token old))) s = (Inr r, s1)"
  proof (cases "store_task (ss_store s) tid")
    case (Inr old)
    with body that show ?thesis
      by (simp add: read_task_def reads_def raising_def read_s_def bind_s_def del: dupdate.simps split: if_splits option.splits)
  qed (use body in \<open>simp add: read_task_def reads_def\<close>)
  let ?next = "old\<lparr>tc_phase := (if tc_phase old = ''accepted'' then ''dispatching'' else tc_phase old),
             tc_revision := tc_revision old + 1,
             tc_state := dupdate
               [(''attempt_number'', PInt (attempt + 1)), (''attempt_owner'', PStr (ss_owner_id s)),
                (''attempt_token'', PStr (''attempt-'' @ en_uuid env (st_sequence (ss_store s)) 0)),
                (''attempt_process_id'', PInt (en_process env))] (tc_state old),
             tc_status := Running\<rparr>"
  from rest obtain t where t: "task_replace ?next = Inr t" and ct: "commit_task env t (Some (attempt_token old)) s = (Inr r, s1)"
    by (cases "task_replace ?next") (simp_all del: dupdate.simps)
  from ct obtain revision where c: "commit_mutation env ((task_mutation t revision)\<lparr>dm_expected_attempt_token :=
      Some (attempt_token old)\<rparr>) s = (Inr r, s1)" (is "commit_mutation env ?m s = _")
    by (auto simp: commit_task_def head_revision_def reads_def split: sum.splits)
  have m_old: "map_of (st_tasks (ss_store s)) tid = Some old" using old(1) by (simp add: task_lookup)
  have ok: "checkpoint_ok t"
    by (rule task_replace_ok [OF t]) (simp_all add: checkpoint_storable [OF wf_task(1) [OF wf m_old]])
  have "task_draft ?m t" using ok by (simp add: task_draft_def mutation_fields)
  from draft_committed(1) [OF wf this c] have new: "map_of (st_tasks (ss_store s1)) tid = Some t"
    using replace_fields(1) [OF t] wf_task(2) [OF wf m_old] by simp
  have state: "pget (tc_state t) ''attempt_owner'' = PStr (ss_owner_id s)"
    "pget (tc_state t) ''attempt_token'' = PStr (''attempt-'' @ en_uuid env (st_sequence (ss_store s)) 0)"
    unfolding replaced_state [OF t] by (simp_all add: pget_def pget_default_def)
  show thesis
    by (rule that [OF m_old old(2) new]) (use replace_fields [OF t] state in \<open>simp_all add: attempt_token_def\<close>)
qed

lemma task_updates_revision: "task_update\<^sup>*\<^sup>* a b \<Longrightarrow> b = a \<or> tc_revision a < tc_revision b"
proof (induction rule: rtranclp_induct)
  case (step b c)
  from step.hyps(2) obtain ex where "validate_task_update b c ex = Inr ()" by (auto simp: task_update_def)
  from validate_task_updateD(2) [OF this] step.IH show ?case by auto
qed simp

text \<open>
  C9: a claim is exclusive. A claim that succeeds found the task pending, and leaves it
  running under the claiming session's owner id and the attempt token drawn for it. In every
  later store that calls of any session reach without deletions, a further claim by
  any session and context is refused and changes nothing, unless the task has been given
  back in between: it then is pending again, in a newer checkpoint.
\<close>

theorem claim_task_exclusive:
  assumes "wf_store (ss_store s)" and "contents_ok (ss_store s)" and "claim_task env tid s = (Inr r, s1)"
    and "live_step\<^sup>*\<^sup>* (ss_store s1) (ss_store s2)"
  shows "\<exists>old t t2. map_of (st_tasks (ss_store s)) tid = Some old \<and> tc_status old = Pending
    \<and> map_of (st_tasks (ss_store s1)) tid = Some t \<and> tc_status t = Running \<and> tc_revision t = tc_revision old + 1
    \<and> pget (tc_state t) ''attempt_owner'' = PStr (ss_owner_id s)
    \<and> attempt_token t = ''attempt-'' @ en_uuid env (st_sequence (ss_store s)) 0
    \<and> map_of (st_tasks (ss_store s2)) tid = Some t2
    \<and> (snd (claim_task env' tid s2) = s2 \<and> isl (fst (claim_task env' tid s2))
       \<or> tc_status t2 = Pending \<and> tc_revision t < tc_revision t2)"
proof -
  obtain old t where c: "map_of (st_tasks (ss_store s)) tid = Some old" "tc_status old = Pending"
    "map_of (st_tasks (ss_store s1)) tid = Some t" "tc_status t = Running" "tc_revision t = tc_revision old + 1"
    "pget (tc_state t) ''attempt_owner'' = PStr (ss_owner_id s)"
    "attempt_token t = ''attempt-'' @ en_uuid env (st_sequence (ss_store s)) 0"
    by (rule claim_task_stored [OF assms(1,3)])
  have "session_step s s1" using session_step.claim [of s env tid] assms(3) by simp
  from session_run_store(2) [OF r_into_rtranclp [of session_step, OF this] assms(1,2)] have wf: "wf_store (ss_store s1)" .
  from live_run_task [OF assms(4) wf c(3)] obtain t2 where
    t2: "map_of (st_tasks (ss_store s2)) tid = Some t2" "task_update\<^sup>*\<^sup>* t t2" by blast
  show ?thesis
  proof (cases "tc_status t2 = Pending")
    case True
    with task_updates_revision [OF t2(2)] c(4) have "tc_revision t < tc_revision t2" by auto
    with c t2(1) True show ?thesis by blast
  next
    case False
    with claim_refused [OF t2(1), of env'] c t2(1) show ?thesis by blast
  qed
qed

theorem claim_task_exclusive_witness:
  "isl (fst (claim_task sample_env ''t1'' (new_session ''b'' (ss_store session3))))"
proof -
  have "\<not> isl (fst (claim_task sample_env ''t1'' session1))" by code_simp
  then obtain r where run: "claim_task sample_env ''t1'' session1 = (Inr r, session2)"
    unfolding session2_def by (metis isl_def old.sum.exhaust prod.collapse)
  have live: "live_step\<^sup>*\<^sup>* (ss_store session2) (ss_store (new_session ''b'' (ss_store session3)))"
    using session_run_store(1) [OF r_into_rtranclp [of session_step, OF session3_step] session2_wf]
    by (simp add: new_session_def)
  have "map_option tc_status (map_of (st_tasks (ss_store session3)) ''t1'') = Some Running" by code_simp
  with claim_task_exclusive [OF _ _ run live, of sample_env] store1_wf store1_contents
  show ?thesis by (auto simp: session1_store new_session_def)
qed

end
