(* ===== verification/Session_Approvals.thy ===== *)
theory Session_Approvals
  imports Session_Guarantees
begin

text \<open>
  Approved shell effects: the claim of an approval and the intent of its effect are one commit.
\<close>

section \<open>Approved effects\<close>

text \<open>The status that a checkpoint records of an approval.\<close>

definition recorded_approval :: "task_checkpoint \<Rightarrow> string \<Rightarrow> pyval" where
  "recorded_approval t aid =
     (case as_mapping (pget (tc_state t) ''approvals'') of
        None \<Rightarrow> PNone
      | Some d \<Rightarrow> (case as_mapping (pget d aid) of None \<Rightarrow> PNone | Some p \<Rightarrow> pget p ''status''))"

lemma map_of_map_values: "map_of (map (\<lambda>(k, v). (k, f v)) d) k = map_option f (map_of d k)"
  by (induction d) auto

lemma materialized_approval:
  assumes "materialize_approval m a current = Inr m'" and "dm_task m = Some p"
  obtains t where "dm_task m' = Some t" "tc_task_id t = tc_task_id p"
    "recorded_approval t (apr_approval_id a) = PStr (approval_status_value (apr_status a))"
    "dm_create_conversation m' = dm_create_conversation m" "dm_submission m' = dm_submission m"
    "all_effects m' = all_effects m" "all_updates m' = all_updates m"
proof -
  obtain raw t where init: "durable_mutation_init (m\<lparr>dm_task := Some t, dm_approval := None, dm_expected_approval_status := None\<rparr>) = Inr m'"
    and rep: "task_replace (p\<lparr>tc_state := dset ''approvals''
         (PDict (dset (apr_approval_id a) (PDict (approval_to_payload a)) raw)) (thaw_obj (tc_state p))\<rparr>) = Inr t"
    by (rule materialize_approval_form [OF assms(1)]) (simp add: assms(2))
  have m': "m' = m\<lparr>dm_task := Some t, dm_approval := None, dm_expected_approval_status := None\<rparr>"
    using init by (auto simp: durable_mutation_init_def split: if_splits)
  have "pget (tc_state t) ''approvals'' = freeze_json (thaw_json
      (PDict (dset (apr_approval_id a) (PDict (approval_to_payload a)) raw)))"
    unfolding replaced_state [OF rep] by (simp add: pget_def pget_default_def)
  then have "recorded_approval t (apr_approval_id a) = PStr (approval_status_value (apr_status a))"
    by (simp add: recorded_approval_def pget_def pget_default_def map_of_map_values approval_to_payload_def
        del: map_map)
  with m' replace_fields(1) [OF rep] show ?thesis
    by (intro that [of t]) (simp_all add: all_effects_def all_updates_def)
qed

text \<open>The outcome of one commit that claims an approval and begins its effect.\<close>

lemma claim_commit:
  assumes wf: "wf_store (ss_store s)" and ok: "checkpoint_ok t" "effect_ok e" "approval_ok a"
    and run: "commit_mutation env ((empty_mutation cid revision)\<lparr>dm_task := Some t, dm_effects := [e],
        dm_approval := Some a, dm_expected_approval_status := expected\<rparr>) s = (res, s')" (is "commit_mutation env ?m s = _")
  shows "ss_store s' = ss_store s \<or> map_of (st_effects (ss_store s')) (ef_effect_id e) = Some e
    \<and> (\<exists>t'. map_of (st_tasks (ss_store s')) (tc_task_id t) = Some t'
         \<and> recorded_approval t' (apr_approval_id a) = PStr (approval_status_value (apr_status a)))"
  using run
proof (cases rule: commit_mutation_steps)
  case (committed m1 m2 now r)
  have "draft_ok ?m" using committed(4) ok by (intro draft_init) (auto simp: mutation_fields)
  then have "session_mutation m1"
    by (rule materialized_ok [OF _ wf_stored_task [OF wf] committed(2)])
  then have m2: "mutation_ok m2" "\<not> dm_delete_conversation m2"
    using fenced_ok [OF _ committed(3)] by (simp_all add: session_mutation_def)
  from committed(2) obtain current where "materialize_approval ?m a current = Inr m1"
    by (auto simp: materialized_def mutation_fields)
  then obtain t' where t': "dm_task m1 = Some t'" "tc_task_id t' = tc_task_id t"
      "recorded_approval t' (apr_approval_id a) = PStr (approval_status_value (apr_status a))"
      "dm_create_conversation m1 = None" "dm_submission m1 = None" "all_effects m1 = [e]" "all_updates m1 = []"
    by (rule materialized_approval [where p = t]) (simp_all add: mutation_fields all_updates_def)
  note same = fenced_fields [OF committed(3)]
  have upd: "all_updates m2 = []" using t'(7) by (subst same(1)) (simp add: all_updates_def)
  show ?thesis
  proof (cases r)
    case (Inl x)
    with commit_all_or_nothing [OF wf m2(1) upd] committed(5) show ?thesis by auto
  next
    case (Inr y)
    then have c: "commit now m2 (ss_store s) = (Inr y, ss_store s')" using committed(5) by simp
    have f: "dm_create_conversation m2 = None" "dm_submission m2 = None" "dm_task m2 = Some t'"
      by (simp_all add: same(2-4) t')
    from committed_rows(1) [OF wf m2 f c] committed_rows(2) [OF wf m2 f c, of e] t' same(5) show ?thesis by auto
  qed
qed simp

definition after :: "('s \<Rightarrow> bool) \<Rightarrow> ('s, 'a) action \<Rightarrow> 's \<Rightarrow> bool" where
  "after Q m s = Q (snd (m s))"

lemma after_reads: "Q s \<Longrightarrow> (\<And>x. f (ss_store s) = Inr x \<Longrightarrow> after Q (g x) s) \<Longrightarrow> after Q (bind_s (reads f) g) s"
  by (simp add: after_def reads_def split: sum.splits)

lemma after_raised: "Q s \<Longrightarrow> (\<And>x. r = Inr x \<Longrightarrow> after Q (g x) s) \<Longrightarrow> after Q (bind_s (raising r) g) s"
  by (simp add: after_def raising_def split: sum.splits)

lemma after_if: "(b \<Longrightarrow> after Q f s) \<Longrightarrow> (\<not> b \<Longrightarrow> after Q g s) \<Longrightarrow> after Q (if b then f else g) s"
  by simp

lemma after_same: "Q s \<Longrightarrow> after Q (raising r) s" "Q s \<Longrightarrow> after Q (return_s x) s"
  by (simp_all add: after_def raising_def read_s_def)

lemma after_line: "Q s \<Longrightarrow> after Q m s \<Longrightarrow> after Q (mutation_line m) s"
  by (cases "usable s") (simp_all add: after_def line_body line_unusable)

lemma after_return: "after Q m s \<Longrightarrow> after Q (bind_s m (\<lambda>x. return_s (f x))) s"
  by (auto simp: after_def bind_s_def split: prod.splits sum.splits)

lemmas after_intros = after_line after_if after_reads after_raised after_same after_return

text \<open>
  C6: claiming an approval and beginning its shell effect is one step. Whatever the call
  returns or raises, also when a listener fails after the commit, either the store is as it
  was, or it holds both the pending effect and the claimed approval: no crash leaves a shell
  command begun under an approval that could be claimed again.
\<close>

theorem approval_claim_atomic:
  assumes "wf_store (ss_store s)" and "effect_ok e" and "store_approval (ss_store s) aid = Inr a"
    and "claim_approval_and_begin_effect env aid e expected s = (res, s')"
  shows "ss_store s' = ss_store s \<or>
     map_of (st_effects (ss_store s')) (ef_effect_id e) = Some e
     \<and> (\<exists>t. map_of (st_tasks (ss_store s')) (ef_task_id e) = Some t
          \<and> recorded_approval t (apr_approval_id a) = PStr (approval_status_value ExecutionClaimed))"
    (is "?Q s'")
proof -
  have "after ?Q (claim_approval_and_begin_effect env aid e expected) s"
    unfolding claim_approval_and_begin_effect_def read_task_def head_revision_def
  proof (intro after_intros)
    fix a' :: approval_record and current t :: task_checkpoint and claimed :: approval_record and h :: int
    let ?m = "(empty_mutation (tc_conversation_id current) h)\<lparr>dm_task := Some t, dm_effects := [e],
      dm_approval := Some claimed, dm_expected_approval_status := Some expected\<rparr>"
    assume a': "store_approval (ss_store s) aid = Inr a'" and cur: "store_task (ss_store s) (apr_task_id a') = Inr current"
      and same: "\<not> ef_task_id e \<noteq> tc_task_id current" and t: "with_effect_intents current [e] = Inr t"
      and init: "approval_record_init (a'\<lparr>apr_status := ExecutionClaimed, apr_revision := apr_revision a' + 1\<rparr>) = Inr claimed"
    have row: "checkpoint_ok current" by (rule wf_task(1) [OF assms(1)]) (use cur in \<open>simp add: task_lookup\<close>)
    have tid: "tc_task_id t = ef_task_id e"
      using t same by (auto simp: with_effect_intents_def Let_def dest: replace_fields(1) split: if_splits)
    have ok: "approval_ok claimed"
      using reach.claimed_ok [OF approval_in_tasks [OF wf_task_row [OF assms(1)] a'] init] by blast
    have claimed: "apr_status claimed = ExecutionClaimed" "apr_approval_id claimed = apr_approval_id a"
      using init a' assms(3) by (auto simp: approval_record_init_def split: if_splits)
    obtain res' s'' where run: "commit_mutation env ?m s = (res', s'')" by fastforce
    from claim_commit [OF assms(1) with_effect_intents_ok [OF row t] assms(2) ok run]
    show "after ?Q (commit_mutation env ?m) s" unfolding after_def run snd_conv tid claimed .
  qed simp_all
  with assms(4) show ?thesis by (simp add: after_def)
qed

section \<open>An instance\<close>

definition sample_approval :: approval_record where
  "sample_approval =
     \<lparr>apr_approval_id = ''a1'', apr_task_id = ''t1'', apr_conversation_id = ''main'', apr_status = Approved,
      apr_command_digest = ''d'', apr_command_ref = ''c'', apr_cwd = ''/'', apr_revision = 1, apr_settlement = None,
      apr_continuation_status = ''not_required'', apr_continuation_run_id = []\<rparr>"

text \<open>The task runs and its approval was granted.\<close>

definition granted_step :: durable_mutation where
  "granted_step = (empty_mutation ''main'' 0)\<lparr>dm_task := Some ((sample_task ''t1'' ''running'' 1)\<lparr>tc_state :=
     [(''input_mode'', PStr ''follow_up''), (''waiting_on'', PTuple []),
      (''approvals'', freeze_json (PDict [(''a1'', PDict (approval_to_payload sample_approval))]))]\<rparr>)\<rparr>"

definition granted_store :: store where
  "granted_store = snd (commit ''t2'' granted_step store1)"

lemma granted_store_code [code]:
  "granted_store = \<lparr>st_database_id = ''database-u'', st_entries = [(''main'', [])],
     st_heads = [(''main'', None, 0)], st_parents = [(''main'', None, None)],
     st_submissions =
     [((''main'', ''r1''),
     \<lparr>si_record =
     \<lparr>sr_submission_id = ''s-t1'', sr_conversation_id = ''main'',
     sr_request_id = ''r1'', sr_status = SubQueued,
     sr_input_entry_id = None, sr_answer_entry_id = None,
     sr_reason = None, sr_detail = None,
     sr_placement = PlacementQueued, sr_mode = ''follow_up'',
     sr_content = Some [(''text'', PStr ''hi'')]\<rparr>,
     si_entry = None,
     si_result =
     \<lparr>cres_revision = 0, cres_sequence = 1,
     cres_submission_id = Some ''s-t1'',
     cres_record =
     Some
     \<lparr>cr_sequence = 1, cr_kind = ''durable'',
     cr_committed_at = ''t1'',
     cr_payload =
     [(''session_id'', PStr ''main''),
     (''entry_ids'', PTuple []),
     (''task_id'', PStr ''t1''),
     (''projections'',
     PTuple
     [PProxy
     [(''type'', PStr ''submission_admitted''),
     (''submission_id'', PStr ''s-t1''),
     (''request_id'', PStr ''r1''),
     (''status'', PStr ''queued''),
     (''placement'', PStr ''queued''),
     (''mode'', PStr ''follow_up'')],
     PProxy
     [(''type'', PStr ''task_progressed''),
     (''task_id'', PStr ''t1''),
     (''phase'', PStr ''accepted''),
     (''status'', PStr ''pending''),
     (''revision'', PInt 0)]]),
     (''database_id'', PStr ''database-u'')]\<rparr>\<rparr>,
     si_fingerprint = ''f''\<rparr>)],
     st_submission_ids = {''s-t1''},
     st_tasks =
     [(''t1'',
     \<lparr>tc_task_id = ''t1'', tc_conversation_id = ''main'',
     tc_submission_id = ''s-t1'', tc_phase = ''running'',
     tc_revision = 1,
     tc_provider_snapshot = [(''model'', PStr ''m'')],
     tc_state =
     [(''input_mode'', PStr ''follow_up''),
     (''waiting_on'', PTuple []),
     (''approvals'',
     PProxy
     [(''a1'',
     PProxy
     [(''approval_id'', PStr ''a1''),
     (''task_id'', PStr ''t1''),
     (''conversation_id'', PStr ''main''),
     (''status'', PStr ''approved''),
     (''command_digest'', PStr ''d''),
     (''command_ref'', PStr ''c''), (''cwd'', PStr ''/''),
     (''revision'', PInt 1), (''settlement'', PNone),
     (''continuation_status'', PStr ''not_required''),
     (''continuation_run_id'', PStr [])])])],
     tc_current_turn_id = None, tc_pending_effect_id = None,
     tc_status = Running, tc_schema_version = 2\<rparr>)],
     st_finalization = {}, st_waiters = [], st_owners = [], st_effects = [],
     st_artifacts = [], st_sequence = 2,
     st_commits =
     [\<lparr>cr_sequence = 1, cr_kind = ''durable'', cr_committed_at = ''t1'',
     cr_payload =
     [(''session_id'', PStr ''main''), (''entry_ids'', PTuple []),
     (''task_id'', PStr ''t1''),
     (''projections'',
     PTuple
     [PProxy
     [(''type'', PStr ''submission_admitted''),
     (''submission_id'', PStr ''s-t1''),
     (''request_id'', PStr ''r1''),
     (''status'', PStr ''queued''),
     (''placement'', PStr ''queued''),
     (''mode'', PStr ''follow_up'')],
     PProxy
     [(''type'', PStr ''task_progressed''),
     (''task_id'', PStr ''t1''),
     (''phase'', PStr ''accepted''),
     (''status'', PStr ''pending''), (''revision'', PInt 0)]]),
     (''database_id'', PStr ''database-u'')]\<rparr>,
     \<lparr>cr_sequence = 2, cr_kind = ''durable'', cr_committed_at = ''t2'',
     cr_payload =
     [(''session_id'', PStr ''main''), (''entry_ids'', PTuple []),
     (''task_id'', PStr ''t1''),
     (''projections'',
     PTuple
     [PProxy
     [(''type'', PStr ''task_progressed''),
     (''task_id'', PStr ''t1''), (''phase'', PStr ''running''),
     (''status'', PStr ''running''), (''revision'', PInt 1)]]),
     (''database_id'', PStr ''database-u'')]\<rparr>],
     st_history =
     [(''t1'',
     [\<lparr>tt_commit_seq = 1,
     tt_task =
     \<lparr>tc_task_id = ''t1'', tc_conversation_id = ''main'',
     tc_submission_id = ''s-t1'', tc_phase = ''accepted'',
     tc_revision = 0,
     tc_provider_snapshot = [(''model'', PStr ''m'')],
     tc_state =
     [(''input_mode'', PStr ''follow_up''),
     (''waiting_on'', PTuple [])],
     tc_current_turn_id = None, tc_pending_effect_id = None,
     tc_status = Pending, tc_schema_version = 2\<rparr>,
     tt_effect_changes = [], tt_head_entry_id = None\<rparr>,
     \<lparr>tt_commit_seq = 2,
     tt_task =
     \<lparr>tc_task_id = ''t1'', tc_conversation_id = ''main'',
     tc_submission_id = ''s-t1'', tc_phase = ''running'',
     tc_revision = 1,
     tc_provider_snapshot = [(''model'', PStr ''m'')],
     tc_state =
     [(''input_mode'', PStr ''follow_up''),
     (''waiting_on'', PTuple []),
     (''approvals'',
     PProxy
     [(''a1'',
     PProxy
     [(''approval_id'', PStr ''a1''),
     (''task_id'', PStr ''t1''),
     (''conversation_id'', PStr ''main''),
     (''status'', PStr ''approved''),
     (''command_digest'', PStr ''d''),
     (''command_ref'', PStr ''c''),
     (''cwd'', PStr ''/''), (''revision'', PInt 1),
     (''settlement'', PNone),
     (''continuation_status'', PStr ''not_required''),
     (''continuation_run_id'', PStr [])])])],
     tc_current_turn_id = None, tc_pending_effect_id = None,
     tc_status = Running, tc_schema_version = 2\<rparr>,
     tt_effect_changes = [], tt_head_entry_id = None\<rparr>])],
     st_scheduler_owner = None\<rparr>"
  by code_simp

definition granted_session :: session where
  "granted_session = new_session ''a'' granted_store"

definition shell_effect :: effect_record where
  "shell_effect = (sample_effect ''f2'' ''t1'' ''pending'' None)\<lparr>ef_category := ''shell''\<rparr>"

lemma granted_wf: "wf_store (ss_store granted_session)"
proof -
  have "live_step store1 granted_store" unfolding granted_store_def by (rule live_step.commit) (code_simp+)
  from live_step_wf [OF this store1_wf] show ?thesis by (simp add: granted_session_def new_session_def)
qed

theorem approval_claim_atomic_witness:
  "map_of (st_effects (ss_store (snd (claim_approval_and_begin_effect sample_env ''a1'' shell_effect Approved granted_session)))) ''f2''
     = Some shell_effect"
proof -
  let ?s' = "snd (claim_approval_and_begin_effect sample_env ''a1'' shell_effect Approved granted_session)"
  have "\<not> isl (store_approval (ss_store granted_session) ''a1'')" "effect_ok shell_effect" by code_simp+
  then obtain a where a: "store_approval (ss_store granted_session) ''a1'' = Inr a" and e: "effect_ok shell_effect"
    by (cases "store_approval (ss_store granted_session) ''a1''") auto
  have "st_sequence (ss_store granted_session) = 2" by code_simp
  moreover have "st_sequence (ss_store ?s') = 3" by code_simp
  ultimately have "ss_store ?s' \<noteq> ss_store granted_session" by auto
  with approval_claim_atomic [OF granted_wf e a prod.collapse [symmetric]]
  show ?thesis by (auto simp: shell_effect_def sample_effect_def)
qed

end
