(* ===== verification/Session_Requests.thy ===== *)
theory Session_Requests
  imports Session_Guarantees
begin

text \<open>
  Requests are carried out once: the answer to an admitted input or write is kept with its
  submission, so a caller that repeats the request at any later time gets the first result
  and nothing is written again.
\<close>

section \<open>The kept answer\<close>

definition answered :: "store \<Rightarrow> string \<Rightarrow> string \<Rightarrow> string \<Rightarrow> commit_result \<Rightarrow> bool" where
  "answered st cid rid digest res = (submission_result_for_request st cid rid digest = Inr (Some res))"

lemma answered_item:
  "answered st cid rid digest res \<longleftrightarrow>
     (\<exists>i. map_of (st_submissions st) (cid, rid) = Some i \<and> si_fingerprint i = digest \<and> si_result i = res)"
  by (auto simp: answered_def submission_result_for_request_def split: option.splits)

lemma updates_keep_answer:
  assumes "wf_submissions s" and "map_of (st_submissions s) k = Some i"
  shows "\<exists>i'. map_of (st_submissions (snd (each_s (update_submission es) us s))) k = Some i'
    \<and> si_result i' = si_result i \<and> si_fingerprint i' = si_fingerprint i"
  using assms
proof (induction us arbitrary: s i)
  case (Cons u us)
  obtain res s1 where step: "update_submission es u s = (res, s1)" by fastforce
  from Cons.prems(1) step show ?case
  proof (cases rule: update_submission_cases)
    case (raised e)
    then show ?thesis using Cons.prems(2) step by (simp add: bind_s_def)
  next
    case (updated k0 i0 i1)
    have wf1: "wf_submissions s1"
      using update_submission_wf [OF Cons.prems(1) step] by simp
    have run: "snd (each_s (update_submission es) (u # us) s) = snd (each_s (update_submission es) us s1)"
      using step updated(1) by (simp add: bind_s_def)
    have "\<exists>j. map_of (st_submissions s1) k = Some j \<and> si_result j = si_result i \<and> si_fingerprint j = si_fingerprint i"
      using updated(2,3,6,7) Cons.prems(2) by (cases "k0 = k") auto
    then obtain j where j: "map_of (st_submissions s1) k = Some j" "si_result j = si_result i" "si_fingerprint j = si_fingerprint i"
      by blast
    from Cons.IH [OF wf1 j(1)] j(2,3) show ?thesis unfolding run by simp
  qed
qed simp

lemma live_step_answered:
  assumes "live_step s s'" and "wf_store s" and "answered s cid rid digest res"
  shows "answered s' cid rid digest res"
  using assms(1,2)
proof (cases rule: live_step_cases)
  case same
  with assms(3) show ?thesis by (simp add: same_tables_def answered_item)
next
  case (written m now head revision)
  let ?c = "commit_core now m head revision s"
  from assms(3) obtain i where i: "map_of (st_submissions s) (cid, rid) = Some i" "si_fingerprint i = digest" "si_result i = res"
    by (auto simp: answered_item)
  have wfc: "wf_submissions ?c" by (rule wf_storeD(2) [OF wf_store_commit_core [OF assms(2) written(1,2)]])
  have s': "s' = snd (each_s (update_submission (dm_entries m)) (all_updates m) ?c)"
    unfolding written(3) by (rule write_commit_state [OF written(1)]) (rule planned_write_entries [OF assms(2) written(2)])
  from updates_keep_answer [OF wfc committed_row [OF assms(2) written(1,2) i(1)]] i(2,3)
  show ?thesis unfolding s' answered_item by metis
qed

lemma live_run_answered:
  "live_step\<^sup>*\<^sup>* s s' \<Longrightarrow> wf_store s \<Longrightarrow> answered s cid rid digest res \<Longrightarrow> answered s' cid rid digest res"
  by (induction rule: live_run_induct) (auto intro: live_step_answered)

section \<open>A commit keeps its answer\<close>

lemma new_submission_written:
  assumes "commit now m st = (Inr res, st')" and "dm_submission m = Some d" and "mutation_ok m"
    and "\<not> dm_delete_conversation m"
    and "map_of (st_submissions st) (sd_conversation_id d, sd_request_id d) = None"
  obtains head revision where "commit_plan_of st m = Inr (Write head revision)"
    "write_commit now m head revision st = (Inr res, st')"
  using assms(1)
proof (cases rule: commit_cases)
  case (answered r)
  have "existing_submission st (Some d) = Inr None" using assms(5) by (simp add: existing_submission_def)
  with answered(1) assms(2) show ?thesis
    by (auto simp: commit_plan_of_def plan_creation_def plan_at_def is_noop_def split: option.splits if_splits prod.splits)
next
  case (deleted revision)
  with planned_delete(3) [OF deleted(1) assms(3)] assms(4) show ?thesis by blast
qed (use that in auto)

lemma commit_answered:
  assumes "wf_store st" and "mutation_ok m" and "\<not> dm_delete_conversation m" and "all_updates m = []"
    and "dm_submission m = Some d" and "submission_result_for_request st (sd_conversation_id d) (sd_request_id d) digest = Inr None"
    and "commit now m st = (Inr res, st')"
  shows "answered st' (sd_conversation_id d) (sd_request_id d) (sd_fingerprint d) res"
proof -
  have fresh: "map_of (st_submissions st) (sd_conversation_id d, sd_request_id d) = None"
    using assms(6) by (auto simp: submission_result_for_request_def split: option.splits if_splits)
  from assms(7,5,2,3) fresh obtain head revision where plan: "commit_plan_of st m = Inr (Write head revision)"
    and run: "write_commit now m head revision st = (Inr res, st')"
    by (rule new_submission_written)
  have form: "write_commit now m head revision st = (Inr (commit_answer now m revision st), commit_core now m head revision st)"
    using write_commit_form [OF assms(2) planned_write_entries [OF assms(1) plan]] assms(4) by (simp add: bind_s_def)
  with run have st': "st' = commit_core now m head revision st" and res: "res = commit_answer now m revision st" by simp_all
  from assms(2) show ?thesis
  proof (cases rule: put_submission_cases [where n = "new_revision m revision" and r = "commit_row now m st" and s = st])
    case (some d' i)
    have d': "d' = d" using some(1) assms(5) by simp
    have cid: "sd_conversation_id d = dm_conversation_id m" using mutation_okD(6) [OF assms(2)] assms(5) by simp
    have "map_of (st_submissions st') (sd_conversation_id d, sd_request_id d) = Some i"
      unfolding st' commit_core_submissions committed_submissions_def some(2) d' cid by simp
    moreover have "si_result i = res"
      by (simp add: res some(12) d' commit_answer_def result_submission_id_def assms(4,5))
    ultimately show ?thesis using some(11) d' by (simp add: answered_item)
  qed (use assms(5) in simp)
qed

lemma session_commit_answered:
  assumes "session_commit env m s = (Inr res, s')" and "wf_store (ss_store s)" and "draft_ok m"
    and "durable_mutation_init m = Inr m" and "dm_approval m = None" and "all_updates m = []"
    and "dm_submission m = Some d"
    and "submission_result_for_request (ss_store s) (sd_conversation_id d) (sd_request_id d) digest = Inr None"
  shows "answered (ss_store s') (sd_conversation_id d) (sd_request_id d) (sd_fingerprint d) res"
proof -
  have "commit_mutation env m s = (Inr res, s')" using assms(1,4) by (simp add: commit_mutation_def)
  then obtain m1 m2 now where m1: "materialized (ss_store s) m = Inr m1" and m2: "fenced env s m1 = Inr m2"
    and run: "commit now m2 (ss_store s) = (Inr res, ss_store s')"
    by (cases rule: commit_mutation_steps) auto
  have m: "mutation_ok m1" "\<not> dm_delete_conversation m1" "m1 = m"
    using assms(3,5) m1 by (simp_all add: draft_ok_def session_mutation_def materialized_def)
  note f = fenced_mutation_ok [OF m(1,2) m2] fenced_fields(4) [OF m2]
  show ?thesis
    by (rule commit_answered [OF assms(2) f(1,2) _ _ assms(8) run]) (simp_all add: f(3,4) m(3) assms(6,7))
qed

section \<open>Inputs\<close>

lemma plan_input_cases:
  assumes "plan_input env st r = Inr plan"
  obtains metadata digest where "strip (ir_text r) \<noteq> []" "message_metadata (ir_task_state r) = Inr metadata"
    "check_request st r = Inr ()" "fingerprint env (input_identity r metadata) = Inr digest"
    "(\<exists>res. plan = Admitted res \<and> answered st (ir_conversation_id r) (ir_request_id r) digest res)
     \<or> (\<exists>m head n creation. plan = Admit m \<and> new_input env st r metadata digest head n creation = Inr m
          \<and> submission_result_for_request st (ir_conversation_id r) (ir_request_id r) digest = Inr None)"
  using assms unfolding plan_input_def answered_def
  by (auto split: prod.splits option.splits if_splits) blast+

lemma new_input_fields:
  assumes "new_input env st r metadata digest head n creation = Inr m"
  obtains d where "dm_submission m = Some d" "durable_mutation_init m = Inr m" "dm_approval m = None" "all_updates m = []"
    "sd_conversation_id d = ir_conversation_id r" "sd_request_id d = ir_request_id r" "sd_fingerprint d = digest"
proof -
  from assms obtain results entry d t edited replaced where
    d: "input_submission env st r metadata digest entry (length results + length (opt_list entry)) = Inr d"
    and init: "durable_mutation_init ((empty_mutation (ir_conversation_id r) n)
       \<lparr>dm_entries := results @ opt_list entry, dm_submission := Some d, dm_task := Some t,
        dm_create_conversation := creation, dm_edited_entry_id := edited, dm_replaced_run_ids := replaced\<rparr>) = Inr m"
    by (auto simp: new_input_def Let_def split: prod.splits)
  let ?m = "(empty_mutation (ir_conversation_id r) n)
       \<lparr>dm_entries := results @ opt_list entry, dm_submission := Some d, dm_task := Some t,
        dm_create_conversation := creation, dm_edited_entry_id := edited, dm_replaced_run_ids := replaced\<rparr>"
  have m: "m = ?m" using init by (auto simp: durable_mutation_init_def split: if_splits)
  have "sd_conversation_id d = ir_conversation_id r \<and> sd_request_id d = ir_request_id r \<and> sd_fingerprint d = digest"
    using d by (auto simp: input_submission_def submission_draft_init_def Let_def split: if_splits)
  then show ?thesis
    using that [of d] init by (simp add: m mutation_fields all_updates_def opt_list_def)
qed

lemma line_read_success:
  assumes "mutation_line (bind_s (reads f) g) s = (Inr res, s')"
  obtains x where "usable s" "f (ss_store s) = Inr x" "g x s = (Inr res, s')"
  using line_result [OF assms] by (auto simp: reads_def bind_s_def read_s_def split: sum.splits)

lemma admit_input_answered:
  assumes "admit_input env r s = (Inr res, s')" and "wf_store (ss_store s)" and "contents_ok (ss_store s)" and "request_good r"
  obtains metadata digest where "strip (ir_text r) \<noteq> []" "message_metadata (ir_task_state r) = Inr metadata"
    "check_request (ss_store s) r = Inr ()" "fingerprint env (input_identity r metadata) = Inr digest"
    "answered (ss_store s') (ir_conversation_id r) (ir_request_id r) digest res"
proof -
  from assms(1) obtain plan where plan: "plan_input env (ss_store s) r = Inr plan" and run: "carry_out env plan s = (Inr res, s')"
    unfolding admit_input_def by (rule line_read_success)
  from plan show ?thesis
  proof (cases rule: plan_input_cases)
    case (1 metadata digest)
    from 1(5) show ?thesis
    proof (elim disjE exE conjE)
      fix x assume "plan = Admitted x" "answered (ss_store s) (ir_conversation_id r) (ir_request_id r) digest x"
      with run 1 show ?thesis by (intro that) (auto simp: carry_out_def)
    next
      fix m head n creation
      assume m: "plan = Admit m" and new: "new_input env (ss_store s) r metadata digest head n creation = Inr m"
        and none: "submission_result_for_request (ss_store s) (ir_conversation_id r) (ir_request_id r) digest = Inr None"
      have draft: "draft_ok m" using plan_input_draft [OF plan [unfolded m] assms(4)] .
      from new obtain d where d: "dm_submission m = Some d" "durable_mutation_init m = Inr m" "dm_approval m = None"
          "all_updates m = []" "sd_conversation_id d = ir_conversation_id r" "sd_request_id d = ir_request_id r"
          "sd_fingerprint d = digest" by (rule new_input_fields)
      have "session_commit env m s = (Inr res, s')" using run by (simp add: m carry_out_def)
      from session_commit_answered [OF this assms(2) draft d(2-4,1), of digest] none d(5-7) 1 show ?thesis
        by (intro that) simp_all
    qed
  qed
qed

lemma check_request_later:
  assumes "check_request st r = Inr ()" and "wf_store st" and "live_step\<^sup>*\<^sup>* st st'"
  shows "check_request st' r = Inr ()"
proof (cases "ir_owner_task_id r")
  case (Some owner)
  have "\<exists>t. store_task st' owner = Inr t" if "store_task st owner = Inr t" for t
    using live_run_task [OF assms(3,2)] that by (fastforce simp: store_task_def lookup_key_def split: option.splits)
  with assms(1) show ?thesis by (auto simp: check_request_def Some split: sum.splits if_splits)
qed (use assms(1) in \<open>simp add: check_request_def\<close>)

lemma input_base_total: "\<exists>b. input_base st r = Inr b"
  by (auto simp: input_base_def has_conversation_def store_head_def conversation_def has_key_def create_conversation_init_def
      split: option.splits)

lemma answered_line:
  "usable s \<Longrightarrow> f (ss_store s) = Inr (Admitted res) \<Longrightarrow> mutation_line (bind_s (reads f) (carry_out env)) s = (Inr res, s)"
  by (simp add: line_body reads_def read_s_def bind_s_def carry_out_def)

text \<open>
  C7: an input is admitted once. After a request was admitted, the same request, sent again
  at any later time by any context that digests alike, returns the first result and changes
  nothing: no second task, entry or submission appears, whatever calls and transactions came
  in between, as long as no conversation was deleted.
\<close>

theorem input_admitted_once:
  assumes "admit_input env r s = (Inr res, s1)" and "wf_store (ss_store s)" and "contents_ok (ss_store s)" and "request_good r"
    and "session_step\<^sup>*\<^sup>* s1 s2" and "usable s2"
    and "en_sha256 env' = en_sha256 env" and "en_canonical env' = en_canonical env"
  shows "admit_input env' r s2 = (Inr res, s2)"
proof -
  from assms(1-4) obtain metadata digest where adm: "strip (ir_text r) \<noteq> []" "message_metadata (ir_task_state r) = Inr metadata"
    "check_request (ss_store s) r = Inr ()" "fingerprint env (input_identity r metadata) = Inr digest"
    "answered (ss_store s1) (ir_conversation_id r) (ir_request_id r) digest res"
    by (rule admit_input_answered)
  have first: "session_step s s1" using session_step.admit [OF assms(4), of s env] assms(1) by simp
  note st1 = session_run_store [OF r_into_rtranclp [of session_step, OF first] assms(2,3)]
  note st2 = session_run_store [OF assms(5) st1(2,3)]
  have kept: "submission_result_for_request (ss_store s2) (ir_conversation_id r) (ir_request_id r) digest = Inr (Some res)"
    using live_run_answered [OF st2(1) st1(2) adm(5)] by (simp add: answered_def)
  have "check_request (ss_store s2) r = Inr ()"
    by (rule check_request_later [OF adm(3) assms(2)]) (use st1(1) st2(1) in \<open>rule rtranclp_trans\<close>)
  moreover have "fingerprint env' (input_identity r metadata) = Inr digest"
    using adm(4) assms(7,8) by (simp add: fingerprint_def split: if_splits)
  moreover obtain b where "input_base (ss_store s2) r = Inr b" using input_base_total by blast
  ultimately have "plan_input env' (ss_store s2) r = Inr (Admitted res)"
    using adm(1,2) kept by (cases b) (simp add: plan_input_def)
  then show ?thesis unfolding admit_input_def by (rule answered_line [OF assms(6)])
qed

definition sample_request :: input_request where
  "sample_request =
     \<lparr>ir_conversation_id = ''c'', ir_request_id = ''r'', ir_task_id = ''t'', ir_text = ''go'', ir_provider_snapshot = [],
      ir_task_state = None, ir_initial_phase = ''accepted'', ir_tool_results = [], ir_owner_task_id = None,
      ir_abandon_on_restart = False, ir_workflow_name = None, ir_workflow_version = 1, ir_workflow_input = None,
      ir_workflow_checkpoint = None, ir_workflow_replay_contract = ''deterministic-v1'', ir_creation = None,
      ir_placement = PlacementPlaced, ir_mode = ''follow_up''\<rparr>"

definition fresh_session :: session where
  "fresh_session = new_session ''a'' (empty_store ''db'')"

lemma fresh_session_ok: "wf_store (ss_store fresh_session)" "contents_ok (ss_store fresh_session)"
proof -
  have "ss_store fresh_session = empty_store ''db''" by (simp add: fresh_session_def new_session_def)
  then show "wf_store (ss_store fresh_session)" "contents_ok (ss_store fresh_session)"
    by (simp_all add: wf_empty_store) (simp add: contents_ok_def empty_store_def dvalues_def)
qed

lemma sample_request_good: "request_good sample_request"
  by (simp add: sample_request_def request_good_def request_state_def good_obj_def or_empty_def)

theorem input_admitted_once_witness:
  "\<exists>res s1. admit_input sample_env sample_request fresh_session = (Inr res, s1) \<and> s1 \<noteq> fresh_session
     \<and> admit_input sample_env sample_request s1 = (Inr res, s1)"
proof -
  have "(case admit_input sample_env sample_request fresh_session of (Inl e, s1) \<Rightarrow> False
     | (Inr res, s1) \<Rightarrow> usable s1 \<and> st_sequence (ss_store s1) = 1)" by code_simp
  then obtain res s1 where run: "admit_input sample_env sample_request fresh_session = (Inr res, s1)"
    and s1: "usable s1" "st_sequence (ss_store s1) = 1" by (auto split: prod.splits sum.splits)
  have "s1 \<noteq> fresh_session" using s1(2) by (auto simp: fresh_session_def new_session_def empty_store_def)
  with run input_admitted_once [OF run fresh_session_ok sample_request_good rtranclp.rtrancl_refl s1(1) refl refl] show ?thesis by blast
qed

section \<open>Passive writes\<close>

lemma plan_write_cases:
  assumes "plan_write env st w = Inr plan"
  obtains model edits digest where "validate_write_fields w = Inr (model, edits)" "validate_write_fence w = Inr ()"
    "fingerprint env (write_identity w model edits) = Inr digest"
    "(\<exists>res. plan = Admitted res \<and> answered st (wr_conversation_id w) (wr_request_id w) digest res)
     \<or> (\<exists>m head n creation. plan = Admit m \<and> new_write env st w model edits digest head n creation = Inr m
          \<and> submission_result_for_request st (wr_conversation_id w) (wr_request_id w) digest = Inr None)"
  using assms unfolding plan_write_def answered_def
  by (auto split: prod.splits option.splits if_splits) blast+

lemma new_write_fields:
  assumes "new_write env st w model edits digest head n creation = Inr m"
  obtains d where "dm_submission m = Some d" "durable_mutation_init m = Inr m" "dm_approval m = None" "all_updates m = []"
    "sd_conversation_id d = wr_conversation_id w" "sd_request_id d = wr_request_id w" "sd_fingerprint d = digest"
proof -
  from assms obtain stale entry d where
    d: "submission_draft_init
         \<lparr>sd_submission_id = ''submission-'' @ en_uuid env (st_sequence st) (length (opt_list entry)),
          sd_request_id = wr_request_id w, sd_conversation_id = wr_conversation_id w, sd_entry = entry,
          sd_fingerprint = digest,
          sd_status = (if stale then SubUnanswered else if wr_placement w = PlacementPlaced then SubDone else SubQueued),
          sd_placement = (if stale then PlacementQueued else wr_placement w), sd_mode = ''write'',
          sd_content = Some (write_content w model edits), sd_reason = (if stale then Some ''stale'' else None)\<rparr> = Inr d"
    and init: "durable_mutation_init ((empty_mutation (wr_conversation_id w) n)
       \<lparr>dm_entries := opt_list entry, dm_submission := Some d, dm_create_conversation := creation\<rparr>) = Inr m"
    unfolding new_write_def bind_r_eq_Inr if_Inl_Inr by (elim exE conjE) (rule that)
  have m: "m = (empty_mutation (wr_conversation_id w) n)
       \<lparr>dm_entries := opt_list entry, dm_submission := Some d, dm_create_conversation := creation\<rparr>"
    using init by (auto simp: durable_mutation_init_def split: if_splits)
  have "sd_conversation_id d = wr_conversation_id w \<and> sd_request_id d = wr_request_id w \<and> sd_fingerprint d = digest"
    using d by (auto simp: submission_draft_init_def Let_def split: if_splits)
  then show ?thesis
    using that [of d] init by (simp add: m mutation_fields all_updates_def opt_list_def)
qed

lemma admit_write_answered:
  assumes "admit_write env w s = (Inr res, s')" and "wf_store (ss_store s)" and "write_good w"
  obtains model edits digest where "validate_write_fields w = Inr (model, edits)" "validate_write_fence w = Inr ()"
    "fingerprint env (write_identity w model edits) = Inr digest"
    "answered (ss_store s') (wr_conversation_id w) (wr_request_id w) digest res"
proof -
  from assms(1) obtain plan where plan: "plan_write env (ss_store s) w = Inr plan" and run: "carry_out env plan s = (Inr res, s')"
    unfolding admit_write_def by (rule line_read_success)
  from plan show ?thesis
  proof (cases rule: plan_write_cases)
    case (1 model edits digest)
    from 1(4) show ?thesis
    proof (elim disjE exE conjE)
      fix x assume "plan = Admitted x" "answered (ss_store s) (wr_conversation_id w) (wr_request_id w) digest x"
      with run 1 show ?thesis by (intro that) (auto simp: carry_out_def)
    next
      fix m head n creation
      assume m: "plan = Admit m" and new: "new_write env (ss_store s) w model edits digest head n creation = Inr m"
        and none: "submission_result_for_request (ss_store s) (wr_conversation_id w) (wr_request_id w) digest = Inr None"
      have draft: "draft_ok m" using plan_write_draft [OF plan [unfolded m] assms(3)] .
      from new obtain d where d: "dm_submission m = Some d" "durable_mutation_init m = Inr m" "dm_approval m = None"
          "all_updates m = []" "sd_conversation_id d = wr_conversation_id w" "sd_request_id d = wr_request_id w"
          "sd_fingerprint d = digest" by (rule new_write_fields)
      have "session_commit env m s = (Inr res, s')" using run by (simp add: m carry_out_def)
      from session_commit_answered [OF this assms(2) draft d(2-4,1), of digest] none d(5-7) 1 show ?thesis
        by (intro that) simp_all
    qed
  qed
qed

text \<open>
  C32: a passive write is admitted once, with the same guarantee: whatever calls and
  transactions come in between, as long as no conversation is deleted. The fences on revision and
  head guard the first admission only: a repeated request is answered after the conversation
  has moved on, also when the first was stale and left unanswered.
\<close>

theorem write_admitted_once:
  assumes "admit_write env w s = (Inr res, s1)" and "wf_store (ss_store s)" and "contents_ok (ss_store s)" and "write_good w"
    and "session_step\<^sup>*\<^sup>* s1 s2" and "usable s2"
    and "en_sha256 env' = en_sha256 env" and "en_canonical env' = en_canonical env"
  shows "admit_write env' w s2 = (Inr res, s2)"
proof -
  from assms(1,2,4) obtain model edits digest where adm: "validate_write_fields w = Inr (model, edits)" "validate_write_fence w = Inr ()"
    "fingerprint env (write_identity w model edits) = Inr digest"
    "answered (ss_store s1) (wr_conversation_id w) (wr_request_id w) digest res"
    by (rule admit_write_answered)
  have first: "session_step s s1" using session_step.admit_note [OF assms(4), of s env] assms(1) by simp
  note st1 = session_run_store [OF r_into_rtranclp [of session_step, OF first] assms(2,3)]
  note st2 = session_run_store [OF assms(5) st1(2,3)]
  have "submission_result_for_request (ss_store s2) (wr_conversation_id w) (wr_request_id w) digest = Inr (Some res)"
    using live_run_answered [OF st2(1) st1(2) adm(4)] by (simp add: answered_def)
  moreover have "fingerprint env' (write_identity w model edits) = Inr digest"
    using adm(3) assms(7,8) by (simp add: fingerprint_def split: if_splits)
  ultimately have "plan_write env' (ss_store s2) w = Inr (Admitted res)"
    using adm(1,2) by (simp add: plan_write_def)
  then show ?thesis unfolding admit_write_def by (rule answered_line [OF assms(6)])
qed

definition sample_note :: write_request where
  "sample_note =
     \<lparr>wr_conversation_id = ''c'', wr_request_id = ''w'', wr_kind = ''note'', wr_data = PDict [(''a'', PInt 1)],
      wr_display_only = True, wr_model = PNone, wr_edits = PNone, wr_head = None, wr_placement = PlacementPlaced,
      wr_expected_revision = Some 0, wr_expected_head = None\<rparr>"

lemma sample_note_good: "write_good sample_note"
  by (simp add: sample_note_def write_good_def good_def)

theorem write_admitted_once_witness:
  "\<exists>res s1. admit_write sample_env sample_note fresh_session = (Inr res, s1) \<and> s1 \<noteq> fresh_session
     \<and> admit_write sample_env sample_note s1 = (Inr res, s1)"
proof -
  have "(case admit_write sample_env sample_note fresh_session of (Inl e, s1) \<Rightarrow> False
     | (Inr res, s1) \<Rightarrow> usable s1 \<and> st_sequence (ss_store s1) = 1)" by code_simp
  then obtain res s1 where run: "admit_write sample_env sample_note fresh_session = (Inr res, s1)"
    and s1: "usable s1" "st_sequence (ss_store s1) = 1" by (auto split: prod.splits sum.splits)
  have "s1 \<noteq> fresh_session" using s1(2) by (auto simp: fresh_session_def new_session_def empty_store_def)
  with run write_admitted_once [OF run fresh_session_ok sample_note_good rtranclp.rtrancl_refl s1(1) refl refl] show ?thesis by blast
qed

end
