(* ===== verification/Session_Boundaries.thy ===== *)
theory Session_Boundaries
  imports Session_Requests "HOL-Library.Sublist" "HOL-Library.Multiset"
begin

text \<open>
  What a generation boundary places: the writes of the queue, then the users it selects, as
  one chain of entries from the head, each submission settled by one update.
\<close>

section \<open>The order of the selection\<close>

lemma sort_key_bits:
  "(\<And>x. k x = 0 \<or> k x = (1 :: nat)) \<Longrightarrow> sort_key k xs = filter (\<lambda>x. k x = 0) xs @ filter (\<lambda>x. k x = 1) xs"
proof (induction xs)
  case (Cons x xs)
  have low: "insort_key k x (ys @ zs) = x # ys @ zs" if "k x = 0" for ys zs
    using that by (cases "ys @ zs") simp_all
  have high: "insort_key k x (ys @ zs) = ys @ x # zs" if "k x = 1" "\<forall>y\<in>set ys. k y = 0" "\<forall>z\<in>set zs. k z = 1" for ys zs
    using that(2) by (induction ys) (use that(1,3) in \<open>cases zs; simp\<close>, use that(1) in simp)
  show ?case
    using Cons.prems [of x] Cons.IH [OF Cons.prems] low high
    by (auto simp: sort_key_simps)
qed simp

lemma subseq_set: "subseq us q \<Longrightarrow> set us \<subseteq> set q"
  by (auto elim: list_emb_set)

lemma filter_subseq:
  "subseq us q \<Longrightarrow> distinct (map f q) \<Longrightarrow> filter (\<lambda>r. f r \<in> f ` set us) q = us"
proof (induction rule: list_emb.induct)
  case (list_emb_Nil ys)
  then show ?case by simp
next
  case (list_emb_Cons us q y)
  have "set us \<subseteq> set q" using list_emb_Cons.hyps by (rule subseq_set)
  with list_emb_Cons show ?case by auto
next
  case (list_emb_Cons2 x y us q)
  then have "x = y" by simp
  have "f y \<notin> f ` set q" using list_emb_Cons2.prems by simp
  then have "f r \<noteq> f y" if "r \<in> set q" for r using that by (metis imageI)
  then have "filter (\<lambda>r. f r \<in> f ` set (x # us)) q = filter (\<lambda>r. f r \<in> f ` set us) q"
    unfolding \<open>x = y\<close> by (intro filter_cong) auto
  with list_emb_Cons2 \<open>x = y\<close> show ?case by simp
qed

lemma rows_distinct:
  assumes "wf_store st"
  shows "distinct (map sr_submission_id (map si_record (dvalues (st_submissions st))))"
proof -
  note D = wf_submissionsD [OF wf_storeD(2) [OF assms]]
  have "inj_on (\<lambda>p. sr_submission_id (si_record (snd p))) (set (st_submissions st))"
  proof (rule inj_onI)
    fix p q assume p: "p \<in> set (st_submissions st)" and q: "q \<in> set (st_submissions st)"
      and same: "sr_submission_id (si_record (snd p)) = sr_submission_id (si_record (snd q))"
    have look: "map_of (st_submissions st) (fst x) = Some (snd x)" if "x \<in> set (st_submissions st)" for x
      using map_of_is_SomeI [of "st_submissions st" "fst x" "snd x"] D(1) that by (simp add: dkeys_def)
    have "row_id st (fst p) = Some (sr_submission_id (si_record (snd p)))"
      "row_id st (fst q) = Some (sr_submission_id (si_record (snd p)))"
      by (simp_all add: row_id_def look [OF p] look [OF q] same)
    then have "fst p = fst q" using D(3) by blast
    then show "p = q" using look [OF p] look [OF q] by (metis option.inject prod_eq_iff)
  qed
  moreover have "distinct (st_submissions st)" using D(1) by (simp add: dkeys_def distinct_map)
  ultimately show ?thesis by (simp add: dvalues_def distinct_map comp_def)
qed

lemma queued_distinct:
  assumes "wf_store st" and "queued_submissions st cid = Inr queued"
  shows "distinct (map sr_submission_id queued)"
proof -
  let ?rows = "filter (\<lambda>r. sr_status r = SubQueued \<and> sr_placement r = PlacementQueued
                \<and> (case cid of None \<Rightarrow> True | Some c \<Rightarrow> sr_conversation_id r = c))
              (map si_record (dvalues (st_submissions st)))"
  from assms(2) obtain keyed where k: "map_r (\<lambda>r. bind_r (lookup_key (st_submissions st) (sr_conversation_id r, sr_request_id r) (sr_request_id r))
        (\<lambda>item. Inr (cres_sequence (si_result item), r))) ?rows = Inr keyed"
    and queued: "queued = map snd (sort_key fst keyed)"
    by (auto simp: queued_submissions_def Let_def)
  have "map snd ys = xs" if "map_r (\<lambda>r. bind_r (f r) (\<lambda>x. Inr (g x, r))) xs = Inr ys"
    for f :: "submission_record \<Rightarrow> 'x result" and g :: "'x \<Rightarrow> int" and xs ys
    using that by (induction xs arbitrary: ys) auto
  from this [OF k] have keyed: "map snd keyed = ?rows" .
  have "mset queued = mset (map snd keyed)" by (simp add: queued)
  then have "mset (map sr_submission_id queued) = mset (map sr_submission_id ?rows)"
    unfolding keyed by (simp only: mset_map)
  moreover have "distinct (map sr_submission_id ?rows)" using rows_distinct [OF assms(1)] by (rule distinct_map_filter)
  ultimately show ?thesis using mset_eq_imp_distinct_iff by blast
qed

lemma take_subseq: "subseq (take n xs) xs"
  using take_is_prefix by (rule prefix_imp_subseq)

lemma select_users_subseq: "subseq (select_users b sm fm tid queued) (filter (\<lambda>r. sr_mode r \<noteq> ''write'') queued)"
proof -
  have "subseq (filter (\<lambda>r. sr_mode r = m) queued) (filter (\<lambda>r. sr_mode r \<noteq> ''write'') queued)" if "m \<noteq> ''write''" for m
  proof -
    have "filter (\<lambda>r. sr_mode r = m) queued = filter (\<lambda>r. sr_mode r = m) (filter (\<lambda>r. sr_mode r \<noteq> ''write'') queued)"
      using that by (auto intro: filter_cong)
    then show ?thesis by (metis subseq_filter_left)
  qed
  from this [of "''steer''"] this [of "''follow_up''"] show ?thesis
    unfolding select_users_def Let_def
    by (auto intro: subseq_order.trans [OF take_subseq])
qed

lemma select_boundary_eq:
  assumes "distinct (map sr_submission_id queued)"
  shows "select_boundary b sm fm tid queued =
     (if b = ''settle'' then [] else filter (\<lambda>r. sr_mode r = ''write'') queued) @ select_users b sm fm tid queued"
proof -
  let ?w = "\<lambda>r. sr_mode r = ''write''" and ?us = "select_users b sm fm tid queued"
  let ?ws = "if b = ''settle'' then [] else filter ?w queued"
  let ?in = "\<lambda>r. sr_submission_id r \<in> sr_submission_id ` set (?ws @ ?us)"
  have users: "r \<in> set queued \<and> \<not> ?w r" if "r \<in> set ?us" for r
    using subseq_set [OF select_users_subseq] that by fastforce
  have inj: "r = r'" if "r \<in> set queued" "r' \<in> set queued" "sr_submission_id r = sr_submission_id r'" for r r'
    using assms that by (auto simp: distinct_map inj_on_def)
  have writes: "filter (\<lambda>r. ?in r \<and> ?w r) queued = ?ws"
  proof (cases "b = ''settle''")
    case True
    have "\<not> (?in r \<and> ?w r)" if "r \<in> set queued" for r using users inj that True by auto
    then show ?thesis using True by (simp add: filter_empty_conv)
  next
    case False
    then show ?thesis by (auto intro!: filter_cong)
  qed
  have chosen: "filter (\<lambda>r. ?in r \<and> \<not> ?w r) queued = ?us"
  proof -
    have "filter (\<lambda>r. ?in r \<and> \<not> ?w r) queued = filter (\<lambda>r. sr_submission_id r \<in> sr_submission_id ` set ?us) (filter (\<lambda>r. \<not> ?w r) queued)"
      unfolding filter_filter by (rule filter_cong) (use inj in \<open>auto split: if_splits\<close>)
    also have "\<dots> = ?us" by (rule filter_subseq [OF select_users_subseq distinct_map_filter [OF assms]])
    finally show ?thesis .
  qed
  have order: "sort_key (\<lambda>r. if ?w r then 0 else 1 :: nat) xs = filter ?w xs @ filter (\<lambda>r. \<not> ?w r) xs" for xs
    by (subst sort_key_bits) simp_all
  show ?thesis unfolding select_boundary_def Let_def set_map order filter_filter writes chosen ..
qed

section \<open>The placements\<close>

lemma entry_init_parent: "entry_draft_init e = Inr e' \<Longrightarrow> ed_parent_id e' = ed_parent_id e \<and> ed_entry_id e' = ed_entry_id e"
  by (auto simp: entry_draft_init_def split: if_splits)

lemma update_init_ids:
  "submission_update_init u = Inr u' \<Longrightarrow> su_submission_id u' = su_submission_id u \<and> su_input_entry_id u' = su_input_entry_id u"
  by (auto simp: submission_update_init_def split: if_splits)

text \<open>A placement answers its submission, names its entry, and puts it behind the head.\<close>

definition placed_behind :: "string option \<Rightarrow> submission_record \<Rightarrow> placement \<Rightarrow> bool" where
  "placed_behind head r p =
     (su_submission_id (bp_update p) = sr_submission_id r
      \<and> su_input_entry_id (bp_update p) = map_option ed_entry_id (bp_entry p)
      \<and> (\<forall>e. bp_entry p = Some e \<longrightarrow> ed_parent_id e = head))"

lemma boundary_write_placed: "boundary_write uuid n head visible r = Inr p \<Longrightarrow> placed_behind head r p"
  by (auto simp: boundary_write_def placed_behind_def write_entry_def stale_update_def placed_update_def submission_update_of_def
      dest!: entry_init_parent update_init_ids split: if_splits)

lemma boundary_input_placed: "boundary_input uuid n head consumer r found = Inr p \<Longrightarrow> placed_behind head r p"
  by (auto simp: boundary_input_def placed_behind_def user_entry_def placed_update_def submission_update_of_def Let_def
      dest!: entry_init_parent update_init_ids split: option.splits if_splits)

lemma boundary_placement_placed: "boundary_placement uuid n head visible tasks consumer r = Inr p \<Longrightarrow> placed_behind head r p"
  by (auto simp: boundary_placement_def boundary_write_placed boundary_input_placed split: if_splits)

lemma boundary_placements_chain:
  assumes "boundary_placements uuid n head visible tasks consumer rs = Inr ps"
  shows "linked_from head (List.map_filter bp_entry ps) \<and> map (\<lambda>p. su_submission_id (bp_update p)) ps = map sr_submission_id rs
     \<and> List.map_filter (\<lambda>p. su_input_entry_id (bp_update p)) ps = map ed_entry_id (List.map_filter bp_entry ps)"
  using assms
proof (induction rs arbitrary: n head visible ps)
  case (Cons r rs)
  from Cons.prems obtain p qs where p: "boundary_placement uuid n head visible tasks consumer r = Inr p" and ps: "ps = p # qs"
    and rest: "(case bp_entry p of
         None \<Rightarrow> boundary_placements uuid n head visible tasks consumer rs
       | Some e \<Rightarrow> boundary_placements uuid (Suc n) (Some (ed_entry_id e)) (ed_entry_id e # visible) tasks consumer rs) = Inr qs"
    by auto
  note placed = boundary_placement_placed [OF p, unfolded placed_behind_def]
  show ?case
  proof (cases "bp_entry p")
    case None
    with Cons.IH [of n head visible qs] rest placed show ?thesis by (simp add: ps map_filter_simps)
  next
    case (Some e)
    with Cons.IH [of "Suc n" "Some (ed_entry_id e)" "ed_entry_id e # visible" qs] rest placed show ?thesis
      by (simp add: ps map_filter_simps)
  qed
qed (simp add: map_filter_simps)

text \<open>
  C8: a generation boundary places one chain. The queue of the conversation is read in the order
  of admission; all its writes come first (except at a settle boundary), then the users the
  boundary selects; their entries continue the conversation one behind the other from its
  head, and each selected submission is settled by exactly one update, in this order, which
  names the entry the submission became.
\<close>

theorem boundary_places_chain:
  assumes "wf_store st" and "prepare_boundary_mutation env st cid boundary steering_mode follow_up_mode tid = Inr (selected, m)"
  shows "\<exists>queued head. queued_submissions st (Some cid) = Inr queued \<and> store_head st cid = Inr (head, dm_expected_revision m)
     \<and> selected = (if boundary = ''settle'' then [] else filter (\<lambda>r. sr_mode r = ''write'') queued)
                  @ select_users boundary steering_mode follow_up_mode tid queued
     \<and> linked_from head (dm_entries m)
     \<and> map su_submission_id (dm_sub_updates m) = map sr_submission_id selected
     \<and> List.map_filter su_input_entry_id (dm_sub_updates m) = map ed_entry_id (dm_entries m)"
proof -
  from assms(2) obtain queued head n ps active and path :: "entry_draft list" where
    queued: "queued_submissions st (Some cid) = Inr queued" and selected: "selected = select_boundary boundary steering_mode follow_up_mode tid queued"
    and head: "store_head st cid = Inr (head, n)"
    and ps: "boundary_placements (en_uuid env (st_sequence st)) 0 head (map ed_entry_id path) (conversation_task_index st cid) tid
         (select_boundary boundary steering_mode follow_up_mode tid queued) = Inr ps"
    and init: "durable_mutation_init ((empty_mutation cid n)\<lparr>dm_entries := List.map_filter bp_entry ps,
          dm_task_updates := List.map_filter bp_task ps @ active, dm_sub_updates := map bp_update ps\<rparr>) = Inr m"
    by (auto simp: prepare_boundary_mutation_def Let_def split: prod.splits)
  have m: "dm_entries m = List.map_filter bp_entry ps" "dm_sub_updates m = map bp_update ps" "dm_expected_revision m = n"
    using init by (auto simp: durable_mutation_init_def mutation_fields split: if_splits)
  have names: "List.map_filter su_input_entry_id (map bp_update ps) = List.map_filter (\<lambda>p. su_input_entry_id (bp_update p)) ps"
    by (induction ps) (simp_all split: option.split)
  from boundary_placements_chain [OF ps] queued head select_boundary_eq [OF queued_distinct [OF assms(1) queued]] show ?thesis
    by (simp add: m selected names comp_def)
qed

text \<open>A queue with a steering input and, admitted later, a passive write.\<close>

definition queue_session :: session where
  "queue_session =
     snd (admit_write (sample_env\<lparr>en_uuid := (\<lambda>k n. ''v'')\<rparr>) (sample_note\<lparr>wr_placement := PlacementQueued, wr_expected_revision := None\<rparr>)
       (snd (admit_input sample_env (sample_request\<lparr>ir_placement := PlacementQueued, ir_mode := ''steer''\<rparr>) fresh_session)))"

lemma queue_session_wf: "wf_store (ss_store queue_session)"
proof -
  have "session_step\<^sup>*\<^sup>* fresh_session queue_session"
    unfolding queue_session_def
    by (rule converse_rtranclp_into_rtranclp, rule session_step.admit, rule_tac [2] r_into_rtranclp, rule_tac [2] session_step.admit_note)
       (simp_all add: sample_request_def sample_note_def request_good_def request_state_def good_obj_def or_empty_def
          write_good_def good_def)
  from session_run_store(2) [OF this fresh_session_ok] show ?thesis .
qed

theorem boundary_places_chain_witness:
  "\<exists>selected m. prepare_boundary_mutation sample_env (ss_store queue_session) ''c'' ''post_tools'' ''all'' ''all'' None = Inr (selected, m)
     \<and> map sr_mode selected = [''write'', ''steer''] \<and> length (dm_entries m) = 2 \<and> linked_from None (dm_entries m)"
proof -
  let ?p = "prepare_boundary_mutation sample_env (ss_store queue_session) ''c'' ''post_tools'' ''all'' ''all'' None"
  have run: "\<exists>selected m. ?p = Inr (selected, m) \<and> map sr_mode selected = [''write'', ''steer''] \<and> length (dm_entries m) = 2"
  proof -
    have "(case ?p of Inl _ \<Rightarrow> False
       | Inr (selected, m) \<Rightarrow> map sr_mode selected = [''write'', ''steer''] \<and> length (dm_entries m) = 2)" by code_simp
    then show ?thesis by (auto split: sum.splits prod.splits)
  qed
  from run obtain selected m where p: "?p = Inr (selected, m)" "map sr_mode selected = [''write'', ''steer'']" "length (dm_entries m) = 2"
    by (elim exE conjE) (rule that)
  have head: "(case store_head (ss_store queue_session) ''c'' of Inl _ \<Rightarrow> False | Inr (h, n) \<Rightarrow> h = None)" by code_simp
  from boundary_places_chain [OF queue_session_wf p(1)] head have "linked_from None (dm_entries m)" by auto
  with p show ?thesis by (intro exI conjI)
qed

end
