(* ===== verification/Inbox_View.thy ===== *)
theory Inbox_View
  imports Session_Boundaries
begin

text \<open>
  \<^verbatim>\<open>codey/durable/inbox.py\<close>: the queued items of a conversation as a document with
  its digest, and the history of its submissions, which \<open>DurableSession.inbox_history\<close> reads
  from the commit log in pages of 512 records.
\<close>

section \<open>The document\<close>

record inbox_item =
  ii_submission_id :: string
  ii_conversation_id :: string
  ii_request_id :: string
  ii_status :: submission_status
  ii_placement :: submission_placement
  ii_mode :: string
  ii_content :: "jobj option"
  ii_input_entry_id :: "string option"
  ii_task_id :: "string option"

record inbox_doc =
  id_conversation_id :: string
  id_revision :: int
  id_items :: "inbox_item list"

definition item_from_record :: "submission_record \<Rightarrow> string option \<Rightarrow> inbox_item" where
  "item_from_record r task_id =
     \<lparr>ii_submission_id = sr_submission_id r, ii_conversation_id = sr_conversation_id r, ii_request_id = sr_request_id r,
      ii_status = sr_status r, ii_placement = sr_placement r, ii_mode = sr_mode r, ii_content = sr_content r,
      ii_input_entry_id = sr_input_entry_id r, ii_task_id = task_id\<rparr>"

definition session_inbox_doc :: "string \<Rightarrow> (session, inbox_doc) action" where
  "session_inbox_doc cid = mutation_line (reads (\<lambda>st.
     bind_r (store_head st cid) (\<lambda>(head, revision).
     let tasks = conversation_task_index st cid in
     bind_r (queued_submissions st (Some cid)) (\<lambda>queued.
     Inr \<lparr>id_conversation_id = cid, id_revision = revision,
          id_items = map (\<lambda>r. item_from_record r (map_option tc_task_id (map_of tasks (sr_submission_id r)))) queued\<rparr>))))"

definition item_snapshot :: "inbox_item \<Rightarrow> pyval" where
  "item_snapshot i = PDict
     [(''submission_id'', PStr (ii_submission_id i)), (''conversation_id'', PStr (ii_conversation_id i)),
      (''request_id'', PStr (ii_request_id i)), (''status'', PStr (submission_status_value (ii_status i))),
      (''placement'', PStr (placement_value (ii_placement i))), (''mode'', PStr (ii_mode i)),
      (''content'', case ii_content i of None \<Rightarrow> PNone | Some c \<Rightarrow> PDict (thaw_obj c)),
      (''input_entry_id'', opt_str (ii_input_entry_id i)), (''task_id'', opt_str (ii_task_id i))]"

definition doc_snapshot :: "session_env \<Rightarrow> inbox_doc \<Rightarrow> jobj" where
  "doc_snapshot env d =
     (let payload = [(''schema_version'', PInt 1), (''conversation_id'', PStr (id_conversation_id d)),
                     (''revision'', PInt (id_revision d)), (''items'', PList (map item_snapshot (id_items d)))]
      in payload @ [(''digest'', PStr (en_sha256 env (en_canonical env (PDict payload))))])"

section \<open>The history\<close>

record inbox_event =
  ie_sequence :: int
  ie_kind :: string
  ie_conversation_id :: string
  ie_submission_id :: string
  ie_request_id :: string
  ie_status :: "submission_status option"
  ie_placement :: "submission_placement option"

text \<open>\<open>Status(raw) if isinstance(raw, str) else None\<close>.\<close>

definition optional_member :: "('a \<Rightarrow> string) \<Rightarrow> 'a list \<Rightarrow> pyval \<Rightarrow> 'a option result" where
  "optional_member value_of members v =
     (case v of
        PStr s \<Rightarrow> (case List.find (\<lambda>x. value_of x = s) members of
            None \<Rightarrow> Inl (ValueError (s @ '' is not a valid member'')) | Some x \<Rightarrow> Inr (Some x))
      | _ \<Rightarrow> Inr None)"

definition history_event_from_projection :: "int \<Rightarrow> string \<Rightarrow> jobj \<Rightarrow> inbox_event option result" where
  "history_event_from_projection sequence cid projection =
     bind_r (in_string_set (pget projection ''type'') [''submission_admitted'', ''submission_progressed'']) (\<lambda>known.
     case (known, pget projection ''type'', pget projection ''submission_id'') of
       (True, PStr kind, PStr submission_id) \<Rightarrow>
         bind_r (optional_member submission_status_value [SubQueued, SubRunning, SubDone, SubUnanswered, SubCancelled]
             (pget projection ''status'')) (\<lambda>status.
         bind_r (optional_member placement_value [PlacementQueued, PlacementPlaced] (pget projection ''placement'')) (\<lambda>placed.
         Inr (Some \<lparr>ie_sequence = sequence, ie_kind = kind, ie_conversation_id = cid, ie_submission_id = submission_id,
            ie_request_id = (case pget projection ''request_id'' of PStr s \<Rightarrow> s | _ \<Rightarrow> []),
            ie_status = status, ie_placement = placed\<rparr>)))
     | _ \<Rightarrow> Inr None)"

definition complete_event :: "store \<Rightarrow> inbox_event \<Rightarrow> inbox_event" where
  "complete_event st e =
     (if ie_request_id e = []
      then e\<lparr>ie_request_id := (case store_submission st (ie_submission_id e) of Inl _ \<Rightarrow> [] | Inr r \<Rightarrow> sr_request_id r)\<rparr>
      else e)"

definition projection_events :: "store \<Rightarrow> string \<Rightarrow> int \<Rightarrow> pyval \<Rightarrow> inbox_event list result" where
  "projection_events st cid sequence projection =
     (case as_mapping projection of
        None \<Rightarrow> Inr []
      | Some p \<Rightarrow> bind_r (history_event_from_projection sequence cid p) (\<lambda>e. Inr (map (complete_event st) (opt_list e))))"

text \<open>The events of one commit record.\<close>

definition record_events :: "store \<Rightarrow> string \<Rightarrow> commit_record \<Rightarrow> inbox_event list result" where
  "record_events st cid c =
     (if pget (cr_payload c) ''session_id'' \<noteq> PStr cid then Inr []
      else (case as_sequence (pget_default (cr_payload c) ''projections'' (PTuple [])) of
          None \<Rightarrow> Inr []
        | Some ps \<Rightarrow> bind_r (map_r (projection_events st cid (cr_sequence c)) ps) (\<lambda>es. Inr (concat es))))"

definition page_end :: "int \<Rightarrow> commit_record list \<Rightarrow> int" where
  "page_end cursor page = foldl max cursor (map cr_sequence page)"

lemma foldl_max_ge: "(cursor :: int) \<le> foldl max cursor ns \<and> (\<forall>n\<in>set ns. n \<le> foldl max cursor ns)"
proof (induction ns arbitrary: cursor)
  case (Cons n ns)
  have "cursor \<le> max cursor n" "n \<le> max cursor n" by simp_all
  with Cons.IH [of "max cursor n"] show ?case by (auto intro: order.trans simp del: max.bounded_iff)
qed simp

lemma page_shrinks:
  assumes "commits_after st cursor 512 \<noteq> []"
  shows "length (filter (\<lambda>r. cr_sequence r > page_end cursor (commits_after st cursor 512)) (st_commits st))
    < length (filter (\<lambda>r. cr_sequence r > cursor) (st_commits st))"
proof -
  let ?page = "commits_after st cursor 512"
  obtain c where c: "c \<in> set ?page" using assms by (cases ?page) auto
  then have mem: "c \<in> set (st_commits st)" "cr_sequence c > cursor"
    by (auto simp: commits_after_def dest!: in_set_takeD)
  have ge: "cursor \<le> page_end cursor ?page" "cr_sequence c \<le> page_end cursor ?page"
    using foldl_max_ge [of cursor "map cr_sequence ?page"] c by (auto simp: page_end_def)
  have "set (filter (\<lambda>r. cr_sequence r > page_end cursor ?page) xs) \<subseteq> set (filter (\<lambda>r. cr_sequence r > cursor) xs)" for xs
    using ge(1) by auto
  have "length (filter (\<lambda>r. cr_sequence r > page_end cursor ?page) xs) \<le> length (filter (\<lambda>r. cr_sequence r > cursor) xs)" for xs
    using ge(1) by (induction xs) auto
  moreover have "length (filter (\<lambda>r. cr_sequence r > page_end cursor ?page) xs) < length (filter (\<lambda>r. cr_sequence r > cursor) xs)"
    if "c \<in> set xs" for xs
    using that
  proof (induction xs)
    case (Cons x xs)
    have "length (filter (\<lambda>r. cr_sequence r > page_end cursor ?page) xs) \<le> length (filter (\<lambda>r. cr_sequence r > cursor) xs)"
      using ge(1) by (induction xs) auto
    with Cons ge mem(2) show ?case by (cases "x = c") auto
  qed simp
  ultimately show ?thesis using mem(1) by blast
qed

function history_pages :: "store \<Rightarrow> string \<Rightarrow> int \<Rightarrow> inbox_event list result" where
  "history_pages st cid cursor =
     (let page = commits_after st cursor 512 in
      if page = [] then Inr []
      else
      bind_r (map_r (record_events st cid) page) (\<lambda>events.
      if length page < 512 then Inr (concat events)
      else bind_r (history_pages st cid (page_end cursor page)) (\<lambda>rest. Inr (concat events @ rest))))"
  by pat_completeness auto
termination
  by (relation "measure (\<lambda>(st, cid, cursor). length (filter (\<lambda>r. cr_sequence r > cursor) (st_commits st)))")
     (simp_all add: page_shrinks)

declare history_pages.simps [simp del]

definition session_inbox_history :: "string \<Rightarrow> (session, inbox_event list) action" where
  "session_inbox_history cid = mutation_line (reads (\<lambda>st. history_pages st cid 0))"

section \<open>Reading in pages is one scan\<close>

definition scan_history :: "store \<Rightarrow> string \<Rightarrow> commit_record list \<Rightarrow> inbox_event list result" where
  "scan_history st cid cs = bind_r (map_r (record_events st cid) cs) (\<lambda>es. Inr (concat es))"

lemma map_r_append: "map_r f (xs @ ys) = bind_r (map_r f xs) (\<lambda>us. bind_r (map_r f ys) (\<lambda>vs. Inr (us @ vs)))"
  by (induction xs) (simp_all add: bind_r_def split: sum.splits)

lemma scan_append:
  "scan_history st cid (xs @ ys) = bind_r (scan_history st cid xs) (\<lambda>us. bind_r (scan_history st cid ys) (\<lambda>vs. Inr (us @ vs)))"
  by (simp add: scan_history_def map_r_append bind_r_def split: sum.splits)

lemma foldl_max_sorted: "sorted (ns :: int list) \<Longrightarrow> ns \<noteq> [] \<Longrightarrow> cursor \<le> hd ns \<Longrightarrow> foldl max cursor ns = last ns"
proof (induction ns arbitrary: cursor)
  case (Cons n ns)
  then show ?case by (cases ns) (auto simp: max_def)
qed simp

lemma filter_after_take:
  assumes "sorted_wrt (<) (map k xs)" and "\<forall>x\<in>set xs. c < (k x :: int)" and "take n xs \<noteq> []"
  shows "filter (\<lambda>x. foldl max c (map k (take n xs)) < k x) xs = drop n xs"
proof -
  let ?e = "foldl max c (map k (take n xs))"
  have part: "sorted_wrt (<) (map k (take n xs) @ map k (drop n xs))" by (simp add: assms(1) flip: map_append)
  then have sorted: "sorted (map k (take n xs))" and lt: "\<forall>x\<in>set (take n xs). \<forall>y\<in>set (drop n xs). k x < k y"
    by (auto simp: sorted_wrt_append strict_sorted_imp_sorted)
  have last: "?e = k (last (take n xs))"
  proof -
    have "c \<le> hd (map k (take n xs))" using assms(2,3) by (cases xs; cases n) (auto intro: less_imp_le)
    from foldl_max_sorted [OF sorted _ this] assms(3) show ?thesis by (simp add: last_map)
  qed
  have "filter (\<lambda>x. ?e < k x) (take n xs @ drop n xs) = drop n xs"
  proof -
    have "filter (\<lambda>x. ?e < k x) (take n xs) = []"
      using foldl_max_ge [of c "map k (take n xs)"] by (auto simp: filter_empty_conv not_less)
    moreover have "filter (\<lambda>x. ?e < k x) (drop n xs) = drop n xs"
      using lt assms(3) by (simp add: last filter_id_conv)
    ultimately show ?thesis by (simp only: filter_append append_Nil)
  qed
  then show ?thesis by (simp only: append_take_drop_id)
qed

lemma history_pages_scan:
  assumes "sorted_wrt (<) (map cr_sequence (st_commits st))"
  shows "history_pages st cid cursor = scan_history st cid (filter (\<lambda>r. cr_sequence r > cursor) (st_commits st))"
  using assms
proof (induction st cid cursor rule: history_pages.induct)
  case (1 st cid cursor)
  let ?left = "filter (\<lambda>r. cr_sequence r > cursor) (st_commits st)" and ?page = "commits_after st cursor 512"
  have page: "?page = take 512 ?left" by (simp add: commits_after_def)
  show ?case
  proof (cases "?page = []")
    case True
    then have "?left = []" by (simp add: page)
    then show ?thesis using True by (subst history_pages.simps) (simp add: scan_history_def)
  next
    case more: False
    show ?thesis
    proof (cases "length ?page < 512")
      case True
      then have all: "?page = ?left" by (simp add: page)
      then show ?thesis
        using more True by (subst history_pages.simps) (simp add: scan_history_def)
    next
      case False
      have sorted: "sorted_wrt (<) (map cr_sequence ?left)" using 1(2) by (simp add: sorted_wrt_map sorted_wrt_filter)
      have "filter (\<lambda>r. cr_sequence r > page_end cursor ?page) ?left = drop 512 ?left"
        unfolding page_end_def page by (rule filter_after_take [OF sorted]) (use more page in auto)
      moreover have "filter (\<lambda>r. cr_sequence r > page_end cursor ?page) ?left
          = filter (\<lambda>r. cr_sequence r > page_end cursor ?page) (st_commits st)"
        using foldl_max_ge [of cursor "map cr_sequence ?page"] by (auto simp: page_end_def intro!: filter_cong)
      ultimately have rest: "filter (\<lambda>r. cr_sequence r > page_end cursor ?page) (st_commits st) = drop 512 ?left" by simp
      have "scan_history st cid ?left = bind_r (scan_history st cid ?page) (\<lambda>us. bind_r (scan_history st cid (drop 512 ?left)) (\<lambda>vs. Inr (us @ vs)))"
        unfolding page by (subst scan_append [symmetric]) simp
      moreover have "history_pages st cid (page_end cursor ?page) = scan_history st cid (drop 512 ?left)"
        if "map_r (record_events st cid) ?page = Inr events" for events
        using 1(1) [OF refl more _ 1(2)] False by (simp add: rest)
      ultimately show ?thesis
        using more False by (subst history_pages.simps) (auto simp: scan_history_def bind_r_def split: sum.splits)
    qed
  qed
qed

text \<open>
  C33: the paged history is one scan. In a well-formed store the loop over the pages of the
  commit log ends, and it returns the events of all commits in commit order, none twice and
  none lost at the border of a page; the first record that cannot be read raises.
\<close>

theorem inbox_history_complete:
  assumes "wf_store (ss_store s)" and "ss_failure s = None" and "\<not> ss_sealed s" and "\<not> ss_closed s"
  shows "session_inbox_history cid s = (scan_history (ss_store s) cid (st_commits (ss_store s)), s)"
proof -
  let ?st = "ss_store s"
  have log: "map cr_sequence (st_commits ?st) = [1..st_sequence ?st]"
    using wf_storeD(6) [OF assms(1)] by (simp add: wf_log_def)
  have "sorted_wrt (<) (map cr_sequence (st_commits ?st))" unfolding log by (rule sorted_wrt_upto)
  moreover have "filter (\<lambda>r. cr_sequence r > 0) (st_commits ?st) = st_commits ?st"
  proof -
    have "cr_sequence r \<in> {1..st_sequence ?st}" if "r \<in> set (st_commits ?st)" for r
      using arg_cong [OF log, of set] that by auto
    then show ?thesis by (force simp: filter_id_conv)
  qed
  ultimately have "history_pages ?st cid 0 = scan_history ?st cid (st_commits ?st)"
    by (simp add: history_pages_scan)
  then show ?thesis
    using assms(2-4) by (simp add: session_inbox_history_def mutation_line_def ensure_usable_def reads_def read_s_def bind_s_def)
qed

theorem inbox_history_complete_witness:
  "\<exists>events. session_inbox_history ''c'' queue_session = (Inr events, queue_session)
     \<and> map ie_kind events = [''submission_admitted'', ''submission_admitted''] \<and> map ie_request_id events = [''r'', ''w'']"
proof -
  have run: "case scan_history (ss_store queue_session) ''c'' (st_commits (ss_store queue_session)) of Inl e \<Rightarrow> False
     | Inr events \<Rightarrow> map ie_kind events = [''submission_admitted'', ''submission_admitted''] \<and> map ie_request_id events = [''r'', ''w'']"
    by code_simp
  then obtain events where events: "scan_history (ss_store queue_session) ''c'' (st_commits (ss_store queue_session)) = Inr events"
    and kinds: "map ie_kind events = [''submission_admitted'', ''submission_admitted'']" "map ie_request_id events = [''r'', ''w'']"
    by (cases "scan_history (ss_store queue_session) ''c'' (st_commits (ss_store queue_session))") (simp_all only: sum.case)
  have ready: "ss_failure queue_session = None \<and> \<not> ss_sealed queue_session \<and> \<not> ss_closed queue_session" by code_simp
  from inbox_history_complete [OF queue_session_wf, of "''c''"] ready have "session_inbox_history ''c'' queue_session = (Inr events, queue_session)"
    by (simp add: events)
  with kinds show ?thesis by (intro exI conjI)
qed

end
