(* ===== verification/Spec2Isabelle.thy ===== *)
theory Spec2Isabelle
  imports Prelude Py_Value Json_Value Durable_Model Provider_Response Message_Input Lifecycle
    Ancestry Timeline Memory_Store Commit_Form
    Store_Invariant Store_Tasks Store_Wf Store_Progress Store_Contract Store_Properties
    Store_Guarantees Store_Queries Api_Selection Operation_Progress Operation_Payload Operation_Wf
    Operation_Round Operation_State Operation_Steps Operation_Machine Operation_Reach
    Operation_Guarantees Runtime_Log Log_Projection Log_Compaction Log_Equivalence
    Session_Core Session_Tasks Session_Context Session_Admission Session_Inbox Session_Steps Session_Joins
    Session_Placed Session_Guarantees Session_Approvals Session_Requests Session_Boundaries Inbox_View
begin

text \<open>
  The durable core of Codey, an assistant that runs agent tasks over conversations: the store
  that keeps conversations, tasks, effects and approvals, the session that serialises every
  change of it, and the runtime operation with its log. The sources are Python files under
  \<^verbatim>\<open>src/codey\<close>; every path below is relative to it.

  \<^bold>\<open>How the parts interact.\<close> A caller admits an input: the session (\<^verbatim>\<open>durable/session.py\<close>)
  builds a mutation and commits it on the store (\<^verbatim>\<open>durable/memory.py\<close>), which checks it
  against the rows it has, compares the expected revision with the one it keeps, and writes the
  rows. A scheduler claims the task under an attempt token; the running task records
  the intent of every external effect before it acts and settles it afterwards, asks for
  approvals, waits for other tasks, is cancelled, fails or completes. Queued inputs and passive
  writes enter the conversation at the boundaries of a generation. Inside one task the runtime
  operation (\<^verbatim>\<open>runtime/core\<close>) is a state machine whose states are persisted as payloads in
  an append-only log (\<^verbatim>\<open>runtime/log\<close>), which is projected, compacted, and recovered after
  a crash.

  \<^bold>\<open>Conventions.\<close> A Python record is a \<open>record\<close>, an enum a \<open>datatype\<close> with its text by
  a \<open>..._value\<close> function, a dict an association list with insertion order, an int an \<open>int\<close>, a
  string a character list (code points below 256), a JSON value a \<open>pyval\<close>, which keeps apart lists and tuples and plain
  and frozen mappings; it is a tree with string keys, and nothing is shared, so a copy is equal to
  its original. A function that may raise returns \<open>'a result\<close>, the exception or the value;
  code that changes a state has type \<open>('s, 'a) action\<close>, so that what was written before an
  exception stays written. A constructor with checks is a function \<open>..._init\<close>. The error
  \<open>Unmodelled\<close> marks the inputs on which the model does not compute a text. Clock, fresh
  identities, process liveness, listeners, files, digests and JSON texts are parameters:
  fields of \<open>session_env\<close> or arguments. Locks make every method of store and session one step.

  \<^bold>\<open>Foundations.\<close>
  \<^item> \<open>Prelude\<close>: results, actions, dictionaries and generic lemmas, with the collections
    \<open>result_simps\<close> and \<open>dict_simps\<close>.
  \<^item> \<open>Py_Value\<close>: Python values, truth, equality, \<open>freeze_json\<close>, \<open>thaw_json\<close>, validation.
  \<^item> \<open>Json_Value\<close> (\<^verbatim>\<open>types/json_value.py\<close>): the decoder of untrusted JSON with its budgets.
    \<open>decode_exact\<close> gives the accepted values by a reference without state. Cycles, other keys
    than strings and text that UTF-8 cannot encode do not occur in the model.
  \<^item> \<open>Provider_Response\<close> (\<^verbatim>\<open>durable/provider_response.py\<close>) and \<open>Message_Input\<close>
    (\<^verbatim>\<open>task/attachments.py\<close>, helpers of \<^verbatim>\<open>durable/admission.py\<close>): the checks on what
    enters a conversation.

  \<^bold>\<open>Store.\<close>
  \<^item> \<open>Durable_Model\<close> (\<^verbatim>\<open>durable/model.py\<close>): transition tables, entries, submissions,
    approvals, checkpoints, effects, artifacts, mutations. \<open>Lifecycle\<close> states what all tables
    share in the locales \<open>lifecycle\<close> and \<open>ranked_lifecycle\<close>, interpreted for task phases, task
    statuses, submissions, approvals and operation leaves.
  \<^item> \<open>Ancestry\<close> (\<^verbatim>\<open>durable/ancestry.py\<close>, \<^verbatim>\<open>durable/edit.py\<close>): paths across
    forks; the fuel is one more than the number of conversations, and \<open>context_path_terminates\<close>
    shows that it never runs out. \<open>Timeline\<close> (\<^verbatim>\<open>durable/timeline.py\<close>,
    \<^verbatim>\<open>durable/events.py\<close>): task histories and commit projections.
  \<^item> \<open>Memory_Store\<close> (\<^verbatim>\<open>durable/memory.py\<close>): the record \<open>store\<close> has one field per
    attribute, one definition per method; \<open>commit\<close> is the method the rest depends on. It writes
    all rows or none, except that a submission update can still raise after the rest was written
    (\<open>commit_updates_not_atomic\<close>).
  \<^item> \<open>Commit_Form\<close> computes a commit in closed form; \<open>Store_Invariant\<close>, \<open>Store_Tasks\<close> and
    \<open>Store_Wf\<close> define \<open>wf_store\<close> part by part and show that every step of \<open>store_step\<close> keeps it, raising
    or not: commits, which also delete conversations, creations, forks and scheduler hand-overs. The direct
    method \<open>delete_conversation\<close>, which no code calls, is no step: it leaves rows behind
    (\<open>direct_delete_leaves_history\<close>). \<open>Store_Progress\<close> shows how rows evolve along
    \<open>live_step\<close>, the steps without deletion.
  \<^item> \<open>Store_Contract\<close> is the locale \<open>versioned_store\<close>, the compare-and-swap contract of the
    writers, interpreted on \<open>commit\<close>. \<open>Store_Properties\<close>, \<open>Store_Guarantees\<close> and
    \<open>Store_Queries\<close> hold what the store promises.

  \<^bold>\<open>Session.\<close>
  \<^item> \<open>Session_Core\<close> (\<^verbatim>\<open>durable/session.py\<close>, \<^verbatim>\<open>approval_transition.py\<close>,
    \<^verbatim>\<open>reducer.py\<close>, \<^verbatim>\<open>effects.py\<close>): the record \<open>session\<close>, the guard \<open>mutation_line\<close> of
    every method, \<open>session_commit\<close> with the attempt fence and the failure latch.
  \<^item> \<open>Session_Tasks\<close>: attempts, task steps, effects, approvals, recovery. \<open>Session_Joins\<close>:
    waiting, held completion, cancellation, reconciliation. The walk over owned tasks and the
    recursion of a cancellation take a depth; the number of stored tasks is enough
    (\<open>owned_descendants_total\<close>).
  \<^item> \<open>Session_Context\<close> (\<^verbatim>\<open>conversation_ops.py\<close>, \<^verbatim>\<open>edit.py\<close>): the visible path, tool
    results, branches and forks; a lineage visits at most 64 conversations, as in the source.
    \<open>Session_Admission\<close> (\<^verbatim>\<open>admission.py\<close>): inputs, passive writes, forked tasks.
    \<open>Session_Inbox\<close>: revising, withdrawing and placing what is queued, generation boundaries,
    settled approvals, workflow migration (\<^verbatim>\<open>workflow.py\<close>).
  \<^item> \<open>Session_Steps\<close> is the locale \<open>session_line\<close>: its laws say what a store invariant must give
    and keep, its lemmas that every method of the session keeps it. \<open>Session_Joins\<close> and
    \<open>Session_Placed\<close> go on in it. \<open>Session_Guarantees\<close> interprets it as \<open>reach\<close>, with
    \<open>wf_store\<close>, frozen submission contents (\<open>contents_ok\<close>) and reachability by store commits as
    the invariant; the relation \<open>session_step\<close> is one call by any context, transactions
    (\<open>transact_task\<close>) among them, and \<open>session_call\<close> adds the deletion of a conversation.
    \<open>session_refines_store\<close> carries the store's guarantees over to sessions. What the session
    promises over time is stated for runs of \<open>session_step\<close>, without deletions.
    \<open>Session_Approvals\<close> shows the atomicity of an approved effect, \<open>Session_Requests\<close> that a
    repeated request is answered and not repeated, \<open>Session_Boundaries\<close> what a generation
    boundary places. \<open>Inbox_View\<close> (\<^verbatim>\<open>durable/inbox.py\<close>) is the read side of the inbox; its
    loop over the pages of the commit log ends because the cursor grows with every page.

  \<^bold>\<open>Operation and log.\<close>
  \<^item> \<open>Api_Selection\<close>, \<open>Operation_Progress\<close>, \<open>Operation_Payload\<close> (\<^verbatim>\<open>runtime/core\<close>): the
    persisted schema; \<open>Operation_Wf\<close> and \<open>Operation_Round\<close>: exactly what the reader accepts.
  \<^item> \<open>Operation_State\<close> (\<^verbatim>\<open>operation_state.py\<close>): the table and every \<open>mark_...\<close> function;
    \<open>Operation_Steps\<close> and \<open>Operation_Machine\<close>: each keeps readable states readable;
    \<open>Operation_Reach\<close> and \<open>Operation_Guarantees\<close>: the properties of runs. The functions do
    not check which phase their caller is in; \<open>call_fits\<close> says what callers establish, and
    \<open>reachable_operation_recoverable\<close> and \<open>operation_can_finish\<close> are about such calls, while the
    budgets and the finality of an outcome hold for any calls.
  \<^item> \<open>Runtime_Log\<close>, \<open>Log_Projection\<close>, \<open>Log_Compaction\<close>, \<open>Log_Equivalence\<close>
    (\<^verbatim>\<open>runtime/log\<close>): entries, projection, recovery of a torn tail, compaction, and that
    compaction keeps what the log says, where every entry stays in the lane of its operation
    (\<open>log_fits\<close>). The loops of the recovery recurse on the rows left.

  \<^bold>\<open>Properties.\<close> Each property carries its id \<open>C<n>\<close> in the text before it and, where it has
  hypotheses, a theorem \<open>..._witness\<close> that applies it to a concrete input. Hypotheses on a call
  say what Python's types say: \<open>storable_obj\<close>, \<open>good_obj\<close>, \<open>plain_json\<close> describe JSON arguments,
  \<open>mutation_ok\<close>, \<open>effect_ok\<close>, \<open>checkpoint_ok\<close> records their constructors made. Lemmas named
  \<open>..._code\<close> give constants with long literals as code equations, so that \<open>code_simp\<close> stays fast.

  \<^bold>\<open>Not modelled.\<close> The SQL store, whose contract is the one of the memory store; threads and
  callbacks of the scheduler; files, sockets, processes and providers; prompts; history pages,
  search and the token window over a path; the transport encoder of JSON values. They are I/O,
  presentation, or glue around the modelled parts.
\<close>

end
